(* ===== verification/Ubsm_Prelude.thy ===== *)
theory Ubsm_Prelude
  imports Main "HOL-Library.Word" "HOL-Library.AList" "HOL-Library.Multiset"
begin

text \<open>
  Shared vocabulary of the development: the machine-integer types of the C++ sources, the
  model of \<^verbatim>\<open>std::unordered_map\<close> as an association list, C strings, and the generic
  lemmas on lists, maps and words that the component theories use.
\<close>

unbundle bit_operations_syntax

section \<open>Machine integers\<close>

type_synonym u8 = "8 word"
type_synonym u16 = "16 word"
type_synonym u32 = "32 word"
type_synonym u64 = "64 word"

section \<open>Options\<close>

lemma option_ext: "(\<And>x. a = Some x \<longleftrightarrow> b = Some x) \<Longrightarrow> a = b"
  by (metis option.exhaust)

section \<open>Hash maps\<close>

text \<open>
  A \<^verbatim>\<open>std::unordered_map\<close> is an association list whose order stands for the iteration
  order, which C++ leaves unspecified: results are stated through \<^const>\<open>map_of\<close>.
  \<open>emplace\<close> keeps an existing entry, as \<^verbatim>\<open>emplace\<close> and \<^verbatim>\<open>insert\<close> do;
  \<^const>\<open>AList.update\<close> is \<^verbatim>\<open>operator[]\<close> assignment and \<^const>\<open>AList.delete\<close> is
  \<^verbatim>\<open>erase\<close>.
\<close>

definition emplace :: "'k \<Rightarrow> 'v \<Rightarrow> ('k \<times> 'v) list \<Rightarrow> ('k \<times> 'v) list" where
  "emplace k v m = (if map_of m k = None then m @ [(k, v)] else m)"

abbreviation erase :: "'k \<Rightarrow> ('k \<times> 'v) list \<Rightarrow> ('k \<times> 'v) list" where
  "erase \<equiv> AList.delete"

abbreviation assign :: "'k \<Rightarrow> 'v \<Rightarrow> ('k \<times> 'v) list \<Rightarrow> ('k \<times> 'v) list" where
  "assign \<equiv> AList.update"

lemma map_of_emplace:
  "map_of (emplace k v m) = (if map_of m k = None then (map_of m)(k \<mapsto> v) else map_of m)"
  by (auto simp: emplace_def map_add_def fun_eq_iff split: option.splits)

lemma map_of_emplace_iff:
  "map_of (emplace k v m) x = Some y \<longleftrightarrow>
     map_of m x = Some y \<or> (x = k \<and> y = v \<and> map_of m k = None)"
  by (auto simp: map_of_emplace)

lemma distinct_emplace: "distinct (map fst m) \<Longrightarrow> distinct (map fst (emplace k v m))"
  by (auto simp: emplace_def map_of_eq_None_iff)

lemma map_of_erase: "map_of (erase k m) = (map_of m)(k := None)"
  by (rule delete_conv')

lemma map_of_assign: "map_of (assign k v m) = (map_of m)(k \<mapsto> v)"
  by (rule update_conv')

lemmas hash_map = map_of_emplace map_of_erase map_of_assign

lemma distinct_erase: "distinct (map fst m) \<Longrightarrow> distinct (map fst (erase k m))"
  by (rule distinct_delete)

lemma distinct_assign: "distinct (map fst m) \<Longrightarrow> distinct (map fst (assign k v m))"
  by (rule distinct_update)

lemmas hash_map_distinct = distinct_emplace distinct_erase distinct_assign

end
