(* ===== verification/Msg_Packer.thy ===== *)
theory Msg_Packer
  imports Ubsm_Prelude "HOL-Library.State_Monad" "HOL-Library.Char_ord" "HOL-Library.List_Lexorder"
begin

text \<open>
  The wire format of \<^verbatim>\<open>mxm_message/mxm_msg_packer.h\<close>: the classes \<^verbatim>\<open>NetMsgPacker\<close> and
  \<^verbatim>\<open>NetMsgUnpacker\<close>.  A packer only appends, so that the overloads of \<^verbatim>\<open>Serialize\<close> become
  functions from a value to the bytes appended.  The unpacker is a state monad over the rest of
  the input stream and the flag \<^verbatim>\<open>valid_\<close>; its overloads of \<^verbatim>\<open>Deserialize\<close> are readers in it.
  Integers are little-endian, as on the hosts the program is built for.
\<close>

section \<open>Packer\<close>

fun le_bytes :: "nat \<Rightarrow> nat \<Rightarrow> string" where
  "le_bytes 0 x = []"
| "le_bytes (Suc n) x = char_of x # le_bytes n (x div 256)"

fun le_nat :: "string \<Rightarrow> nat" where
  "le_nat [] = 0"
| "le_nat (c # cs) = of_char c + 256 * le_nat cs"

definition sizeof :: "'a::len word itself \<Rightarrow> nat" where
  "sizeof _ = (LENGTH('a) + 7) div 8"

definition MAX_ALLOWED_SIZE :: nat where
  "MAX_ALLOWED_SIZE = 1024 * 1024"

definition put_pod :: "'a::len word \<Rightarrow> string" where
  "put_pod val = le_bytes (sizeof TYPE('a word)) (unat val)"

definition put_bool :: "bool \<Rightarrow> string" where
  "put_bool val = [if val then CHR 0x01 else CHR 0x00]"

text \<open>A trivially copyable struct is the block of its \<^verbatim>\<open>sizeof\<close> bytes.\<close>

definition put_block :: "string \<Rightarrow> string" where
  "put_block val = val"

definition put_string :: "string \<Rightarrow> string" where
  "put_string val = (let size = word_of_nat (length val) :: u32 in put_pod size @ take (unat size) val)"

definition put_vector :: "('v \<Rightarrow> string) \<Rightarrow> 'v list \<Rightarrow> string" where
  "put_vector put container = put_pod (word_of_nat (length container) :: u64) @ concat (map put container)"

definition put_pair :: "('k \<Rightarrow> string) \<Rightarrow> ('v \<Rightarrow> string) \<Rightarrow> 'k \<times> 'v \<Rightarrow> string" where
  "put_pair putk putv val = putk (fst val) @ putv (snd val)"

text \<open>A \<^verbatim>\<open>std::map\<close> is its list of entries in the order of the keys.\<close>

definition put_map :: "('k \<Rightarrow> string) \<Rightarrow> ('v \<Rightarrow> string) \<Rightarrow> ('k \<times> 'v) list \<Rightarrow> string" where
  "put_map putk putv container =
     put_pod (word_of_nat (length container) :: u64) @ concat (map (put_pair putk putv) container)"

section \<open>Unpacker\<close>

record unpacker =
  inStream :: string
  valid :: bool

type_synonym 'a unpack = "(unpacker, 'a) state"

abbreviation return :: "'a \<Rightarrow> ('s, 'a) state" where
  "return \<equiv> State_Monad.return"

definition Remaining :: "unpacker \<Rightarrow> nat" where
  "Remaining u = length (inStream u)"

definition invalidate :: "unit unpack" where
  "invalidate = State (\<lambda>u. ((), u\<lparr>valid := False\<rparr>))"

text \<open>\<^verbatim>\<open>!valid_ || !inStream_.read(p, n)\<close>: a short read takes what is left and fails.\<close>

definition read_bytes :: "nat \<Rightarrow> string option unpack" where
  "read_bytes n = State (\<lambda>u.
     if \<not> valid u then (None, u)
     else if length (inStream u) < n then (None, u\<lparr>inStream := [], valid := False\<rparr>)
     else (Some (take n (inStream u)), u\<lparr>inStream := drop n (inStream u)\<rparr>))"

definition get_pod :: "'a::len word unpack" where
  "get_pod = do {
     b \<leftarrow> read_bytes (sizeof TYPE('a word));
     return (case b of None \<Rightarrow> 0 | Some bs \<Rightarrow> word_of_nat (le_nat bs)) }"

definition get_bool :: "bool unpack" where
  "get_bool = do { b \<leftarrow> read_bytes 1; return (case b of None \<Rightarrow> False | Some bs \<Rightarrow> le_nat bs \<noteq> 0) }"

definition get_block :: "nat \<Rightarrow> string unpack" where
  "get_block n = do {
     b \<leftarrow> read_bytes n;
     return (case b of None \<Rightarrow> replicate n CHR 0x00 | Some bs \<Rightarrow> bs) }"

text \<open>The check of a length prefix against the limit and against what is left.\<close>

definition bad_size :: "nat \<Rightarrow> nat \<Rightarrow> unpacker \<Rightarrow> bool" where
  "bad_size k sz u \<longleftrightarrow> \<not> valid u \<or> sz > MAX_ALLOWED_SIZE \<or> sz > Remaining u div k"

definition get_string :: "string unpack" where
  "get_string = do {
     size \<leftarrow> get_pod :: u32 unpack;
     u \<leftarrow> State_Monad.get;
     if bad_size 1 (unat size) u then do { invalidate; return [] }
     else do { b \<leftarrow> read_bytes (unat size); return (case b of None \<Rightarrow> [] | Some bs \<Rightarrow> bs) } }"

primrec get_items :: "nat \<Rightarrow> 'v unpack \<Rightarrow> 'v list \<Rightarrow> 'v list unpack" where
  "get_items 0 get container = return container"
| "get_items (Suc n) get container = do {
     item \<leftarrow> get;
     u \<leftarrow> State_Monad.get;
     if \<not> valid u then return [] else get_items n get (container @ [item]) }"

definition get_vector :: "'v unpack \<Rightarrow> 'v list unpack" where
  "get_vector get = do {
     size \<leftarrow> get_pod :: u64 unpack;
     u \<leftarrow> State_Monad.get;
     if bad_size 1 (unat size) u then do { invalidate; return [] } else get_items (unat size) get [] }"

definition map_emplace :: "'k::linorder \<Rightarrow> 'v \<Rightarrow> ('k \<times> 'v) list \<Rightarrow> ('k \<times> 'v) list" where
  "map_emplace k v m = (if k \<in> fst ` set m then m else insort_key fst (k, v) m)"

primrec get_entries :: "nat \<Rightarrow> 'k::linorder unpack \<Rightarrow> 'v unpack \<Rightarrow> ('k \<times> 'v) list \<Rightarrow> ('k \<times> 'v) list unpack" where
  "get_entries 0 getk getv container = return container"
| "get_entries (Suc n) getk getv container = do {
     key \<leftarrow> getk;
     v \<leftarrow> getv;
     u \<leftarrow> State_Monad.get;
     if \<not> valid u then return [] else get_entries n getk getv (map_emplace key v container) }"

definition get_map :: "'k::linorder unpack \<Rightarrow> 'v unpack \<Rightarrow> ('k \<times> 'v) list unpack" where
  "get_map getk getv = do {
     size \<leftarrow> get_pod :: u64 unpack;
     u \<leftarrow> State_Monad.get;
     if bad_size 2 (unat size) u then do { invalidate; return [] } else get_entries (unat size) getk getv [] }"

section \<open>Readers\<close>

named_theorems reader_intros \<open>the readers of the library and how they compose\<close>

abbreviation ready :: "string \<Rightarrow> unpacker" where
  "ready s \<equiv> \<lparr>inStream = s, valid = True\<rparr>"

text \<open>
  What every overload of \<^verbatim>\<open>Deserialize\<close> guarantees: once invalid always invalid, and more input
  after what was read changes neither the value nor validity.
\<close>

locale reader =
  fixes getter :: "'a unpack"
  assumes sticky: "\<not> valid u \<Longrightarrow> \<not> valid (snd (run_state getter u))"
    and extend: "run_state getter (ready s) = (x, ready r) \<Longrightarrow> run_state getter (ready (s @ t)) = (x, ready (r @ t))"

lemma unpacker_cases: "valid u \<Longrightarrow> u = ready (inStream u)"
  by simp

lemma reader_return: "reader (return x)"
  by unfold_locales auto

lemma reader_bind:
  assumes "reader m" "\<And>x. reader (f x)"
  shows "reader (State_Monad.bind m f)"
proof
  fix u
  show "\<not> valid u \<Longrightarrow> \<not> valid (snd (run_state (State_Monad.bind m f) u))"
    using reader.sticky[OF assms(1)] reader.sticky[OF assms(2)]
    by (cases "run_state m u") (metis case_prod_conv run_state_bind snd_conv)
next
  fix s x r t
  assume R: "run_state (State_Monad.bind m f) (ready s) = (x, ready r)"
  obtain y u where m: "run_state m (ready s) = (y, u)" by (cases "run_state m (ready s)")
  have f: "run_state (f y) u = (x, ready r)" using R m by simp
  have "valid u" using reader.sticky[OF assms(2), of u y] f by auto
  then obtain v where u: "u = ready v" using unpacker_cases by blast
  show "run_state (State_Monad.bind m f) (ready (s @ t)) = (x, ready (r @ t))"
    using reader.extend[OF assms(1)] reader.extend[OF assms(2)] m f u by simp
qed

text \<open>A reader that looks at the state, to decide on validity or on a size.\<close>

lemma reader_guard:
  assumes "reader m" "\<And>u. \<not> valid u \<Longrightarrow> P u" "\<And>s t. \<not> P (ready s) \<Longrightarrow> \<not> P (ready (s @ t))"
  shows "reader (State_Monad.bind State_Monad.get
    (\<lambda>u. if P u then State_Monad.bind invalidate (\<lambda>_. return d) else m))"
  using assms reader.extend[OF assms(1)] by unfold_locales (auto simp: invalidate_def split: if_splits)

lemma reader_check:
  assumes "reader m"
  shows "reader (State_Monad.bind State_Monad.get (\<lambda>u. if \<not> valid u then return d else m))"
  using reader.extend[OF assms] by unfold_locales (auto split: if_splits)

lemma reader_read_bytes: "reader (read_bytes n)"
  by unfold_locales (auto simp: read_bytes_def split: if_splits)

lemma bad_size_guard:
  "\<not> valid u \<Longrightarrow> bad_size k n u" "\<not> bad_size k n (ready s) \<Longrightarrow> \<not> bad_size k n (ready (s @ t))"
  using div_le_mono[of "length s" "length s + length t" k] by (auto simp: bad_size_def Remaining_def not_less)

lemma reader_size:
  assumes "reader m"
  shows "reader (State_Monad.bind State_Monad.get
    (\<lambda>u. if bad_size k n u then State_Monad.bind invalidate (\<lambda>_. return d) else m))"
  using assms bad_size_guard by (rule reader_guard)

lemmas [reader_intros] = reader_return reader_read_bytes reader_bind reader_check reader_size

interpretation pod: reader "get_pod :: 'a::len word unpack"
  unfolding get_pod_def by (intro reader_intros)

interpretation boolean: reader get_bool
  unfolding get_bool_def by (intro reader_intros)

interpretation block: reader "get_block n"
  unfolding get_block_def by (intro reader_intros)

lemmas [reader_intros] = pod.reader_axioms boolean.reader_axioms block.reader_axioms

interpretation str: reader get_string
  unfolding get_string_def by (intro reader_intros)

lemma reader_items: "reader g \<Longrightarrow> reader (get_items n g xs)"
  by (induction n arbitrary: xs) (auto intro!: reader_intros)

lemma reader_entries: "reader gk \<Longrightarrow> reader gv \<Longrightarrow> reader (get_entries n gk gv xs)"
  by (induction n arbitrary: xs) (auto intro!: reader_intros)

lemma reader_vector: "reader g \<Longrightarrow> reader (get_vector g)"
  unfolding get_vector_def by (intro reader_intros reader_items)

lemma reader_map: "reader gk \<Longrightarrow> reader gv \<Longrightarrow> reader (get_map gk gv)"
  unfolding get_map_def by (intro reader_intros reader_entries)

lemmas [reader_intros] = str.reader_axioms reader_vector reader_map

section \<open>Codecs\<close>

text \<open>
  A writer and a reader that fit: what is written is read back, with the rest of the stream left
  over.  With \<^const>\<open>reader\<close> it follows that no value can be read from a truncated encoding, and
  that no encoding is a prefix of another.
\<close>

locale codec = reader getter for getter :: "'a unpack" +
  fixes putter :: "'a \<Rightarrow> string" and fits :: "'a \<Rightarrow> bool"
  assumes roundtrip: "fits x \<Longrightarrow> run_state getter (ready (putter x @ rest)) = (x, ready rest)"
    and nonempty: "fits x \<Longrightarrow> putter x \<noteq> []"
begin

lemma roundtrip_end: "fits x \<Longrightarrow> run_state getter (ready (putter x)) = (x, ready [])"
  using roundtrip[of x "[]"] by simp

lemma truncated:
  assumes "fits x" "putter x = p @ q" "q \<noteq> []"
  shows "\<not> valid (snd (run_state getter (ready p)))"
proof
  assume "valid (snd (run_state getter (ready p)))"
  then obtain y r where "run_state getter (ready p) = (y, ready r)"
    using unpacker_cases by (metis prod.collapse)
  then have "run_state getter (ready (p @ q)) = (y, ready (r @ q))" by (rule extend)
  then show False using roundtrip_end[OF assms(1)] assms(2,3) by simp
qed

lemma prefix_free:
  assumes "fits x" "fits y" "putter x @ r = putter y @ r'"
  shows "x = y \<and> r = r'"
proof -
  have "run_state getter (ready (putter x @ r)) = (y, ready r')"
    unfolding assms(3) by (rule roundtrip[OF assms(2)])
  then show ?thesis unfolding roundtrip[OF assms(1)] by simp
qed

end

lemma le_bytes_length [simp]: "length (le_bytes n x) = n"
  by (induction n arbitrary: x) auto

lemma le_nat_bytes: "le_nat (le_bytes n x) = x mod 256 ^ n"
proof (induction n arbitrary: x)
  case (Suc n)
  have "x mod 256 + 256 * (x div 256 mod 256 ^ n) = x mod (256 * 256 ^ n)"
    by (metis add.commute mod_mult2_eq)
  then show ?case by (simp add: Suc.IH of_char_of)
qed simp

lemma sizeof_bound: "unat (w :: 'a::len word) < 256 ^ sizeof TYPE('a word)"
proof -
  have "LENGTH('a) \<le> 8 * sizeof TYPE('a word)" by (simp add: sizeof_def)
  then have "(2 :: nat) ^ LENGTH('a) \<le> 2 ^ (8 * sizeof TYPE('a word))" by (intro power_increasing) simp_all
  moreover have "unat w < 2 ^ LENGTH('a)" by simp
  ultimately have "unat w < 2 ^ (8 * sizeof TYPE('a word))" by (rule order.strict_trans2[rotated])
  then show ?thesis by (simp add: power_mult)
qed

lemma sizeof_pos: "0 < sizeof TYPE('a::len word)"
proof -
  have "8 div 8 \<le> (LENGTH('a) + 7) div (8 :: nat)"
    using len_gt_0[where 'a = 'a] by (intro div_le_mono) linarith
  then show ?thesis by (simp add: sizeof_def)
qed

interpretation pod: codec "get_pod :: 'a::len word unpack" put_pod "\<lambda>_. True"
proof
  fix x :: "'a word" and rest
  show "run_state get_pod (ready (put_pod x @ rest)) = (x, ready rest)"
    using sizeof_bound[of x] by (simp add: get_pod_def put_pod_def read_bytes_def le_nat_bytes)
  show "put_pod x \<noteq> []"
    using sizeof_pos[where 'a = 'a] le_bytes_length[of "sizeof TYPE('a word)" "unat x"]
    by (auto simp: put_pod_def simp del: le_bytes_length)
qed

interpretation boolean: codec get_bool put_bool "\<lambda>_. True"
  by unfold_locales (auto simp: get_bool_def put_bool_def read_bytes_def of_char_def)

lemma block_codec: "0 < n \<Longrightarrow> codec (get_block n) put_block (\<lambda>x. length x = n)"
  by unfold_locales (auto simp: get_block_def put_block_def read_bytes_def)

lemma short: "n \<le> MAX_ALLOWED_SIZE \<Longrightarrow> unat (word_of_nat n :: u32) = n"
  "n \<le> MAX_ALLOWED_SIZE \<Longrightarrow> unat (word_of_nat n :: u64) = n"
  by (simp_all add: MAX_ALLOWED_SIZE_def unat_of_nat)

interpretation str: codec get_string put_string "\<lambda>x. length x \<le> MAX_ALLOWED_SIZE"
  by unfold_locales
    (auto simp: get_string_def put_string_def pod.roundtrip pod.nonempty bad_size_def Remaining_def read_bytes_def short)

lemma concat_length: "(\<forall>x\<in>set xs. p x \<noteq> []) \<Longrightarrow> length xs \<le> length (concat (map p xs))"
  by (induction xs) (auto simp: Suc_le_eq add.commute intro: add_less_le_mono le_less_trans)

lemma items_roundtrip:
  assumes "codec g p ok" "\<forall>x\<in>set xs. ok x"
  shows "run_state (get_items (length xs) g ys) (ready (concat (map p xs) @ rest)) = (ys @ xs, ready rest)"
  using assms(2) by (induction xs arbitrary: ys) (simp_all add: codec.roundtrip[OF assms(1)])

lemma vector_codec:
  assumes "codec g p ok"
  shows "codec (get_vector g) (put_vector p) (\<lambda>xs. length xs \<le> MAX_ALLOWED_SIZE \<and> (\<forall>x\<in>set xs. ok x))"
proof -
  have r: "reader (get_vector g)" using codec.axioms(1)[OF assms] by (rule reader_vector)
  have "run_state (get_vector g) (ready (put_vector p xs @ rest)) = (xs, ready rest)"
    if "length xs \<le> MAX_ALLOWED_SIZE" "\<forall>x\<in>set xs. ok x" for xs rest
    using that concat_length[of xs p] codec.nonempty[OF assms] items_roundtrip[OF assms, of xs "[]" rest]
    by (auto simp: get_vector_def put_vector_def pod.roundtrip bad_size_def Remaining_def short)
  then show ?thesis using r by (auto simp: codec_def codec_axioms_def put_vector_def pod.nonempty)
qed

text \<open>Re-inserting the entries of a map in key order rebuilds it.\<close>

definition map_ok :: "('k::linorder \<times> 'v) list \<Rightarrow> bool" where
  "map_ok m \<longleftrightarrow> sorted (map fst m) \<and> distinct (map fst m)"

lemma map_emplace_last:
  assumes "map_ok (m @ [(k, v)])"
  shows "map_emplace k v m = m @ [(k, v)]"
proof -
  have "\<forall>x\<in>set m. fst x < k" using assms by (auto simp: map_ok_def sorted_append less_le)
  then have "insort_key fst (k, v) m = m @ [(k, v)]" by (induction m) (auto simp: not_le)
  moreover have "k \<notin> fst ` set m" using assms by (auto simp: map_ok_def)
  ultimately show ?thesis by (simp add: map_emplace_def)
qed

lemma map_ok_append: "map_ok (xs @ ys) \<Longrightarrow> map_ok xs"
  by (auto simp: map_ok_def sorted_append)

lemma map_emplace_ok:
  assumes "map_ok m"
  shows "map_ok (map_emplace k v m)"
proof -
  have "map fst (insort_key fst (k, v) m) = insort k (map fst m)" by (induction m) auto
  then show ?thesis using assms by (auto simp: map_ok_def map_emplace_def sorted_insort distinct_insort)
qed

lemma entries_roundtrip:
  assumes "codec gk pk okk" "codec gv pv okv" "\<forall>(k, v)\<in>set xs. okk k \<and> okv v" "map_ok (ys @ xs)"
  shows "run_state (get_entries (length xs) gk gv ys) (ready (concat (map (put_pair pk pv) xs) @ rest)) =
    (ys @ xs, ready rest)"
  using assms(3,4)
proof (induction xs arbitrary: ys)
  case (Cons x xs)
  obtain k v where x: "x = (k, v)" by (cases x)
  have "map_emplace k v ys = ys @ [(k, v)]"
    using Cons.prems(2) map_ok_append[of "ys @ [x]" xs] by (simp add: x map_emplace_last)
  then show ?case
    using Cons.prems Cons.IH[of "ys @ [x]"]
    by (simp add: x put_pair_def codec.roundtrip[OF assms(1)] codec.roundtrip[OF assms(2)])
qed simp

lemma map_codec:
  assumes "codec gk pk okk" "codec gv pv okv"
  shows "codec (get_map gk gv) (put_map pk pv)
    (\<lambda>m. length m \<le> MAX_ALLOWED_SIZE \<and> map_ok m \<and> (\<forall>(k, v)\<in>set m. okk k \<and> okv v))"
proof -
  have r: "reader (get_map gk gv)" using codec.axioms(1)[OF assms(1)] codec.axioms(1)[OF assms(2)] by (rule reader_map)
  have two: "2 * length m \<le> length (concat (map (put_pair pk pv) m))" if "\<forall>(k, v)\<in>set m. okk k \<and> okv v" for m
    using that
  proof (induction m)
    case (Cons x m)
    then have "pk (fst x) \<noteq> []" "pv (snd x) \<noteq> []"
      using codec.nonempty[OF assms(1)] codec.nonempty[OF assms(2)] by auto
    then have "1 \<le> length (pk (fst x))" "1 \<le> length (pv (snd x))" by (simp_all add: Suc_le_eq)
    moreover have "2 * length m \<le> length (concat (map (put_pair pk pv) m))" using Cons by simp
    moreover have "length (put_pair pk pv x) = length (pk (fst x)) + length (pv (snd x))" by (simp add: put_pair_def)
    ultimately show ?case by simp
  qed simp
  have "run_state (get_map gk gv) (ready (put_map pk pv m @ rest)) = (m, ready rest)"
    if "length m \<le> MAX_ALLOWED_SIZE" "map_ok m" "\<forall>(k, v)\<in>set m. okk k \<and> okv v" for m rest
    using that(1) two[OF that(3)] entries_roundtrip[OF assms that(3), of "[]" rest] that(2)
    by (auto simp: get_map_def put_map_def pod.roundtrip bad_size_def Remaining_def short)
  then show ?thesis using r by (auto simp: codec_def codec_axioms_def put_map_def pod.nonempty)
qed

section \<open>Cluster nodes\<close>

text \<open>An enumeration over \<^verbatim>\<open>int\<close>: any 32-bit value can be read into it.\<close>

type_synonym NodeType = u32

definition ELIGIBLE_NODE :: NodeType where
  "ELIGIBLE_NODE = 0"

definition VOTING_ONLY_NODE :: NodeType where
  "VOTING_ONLY_NODE = 1"

record ClusterNode =
  cn_id :: string
  cn_ip :: string
  cn_port :: u16
  cn_isMaster :: bool
  cn_lastSeen :: u64
  cn_isActive :: bool
  cn_type :: NodeType

definition put_ClusterNode :: "ClusterNode \<Rightarrow> string" where
  "put_ClusterNode val = put_string (cn_id val) @ put_string (cn_ip val) @ put_pod (cn_port val) @
     put_bool (cn_isMaster val) @ put_pod (cn_lastSeen val) @ put_bool (cn_isActive val) @ put_pod (cn_type val)"

text \<open>The node read into is left alone when the input is invalid.\<close>

definition get_ClusterNode :: "ClusterNode \<Rightarrow> ClusterNode unpack" where
  "get_ClusterNode val = do {
     id \<leftarrow> get_string;
     ip \<leftarrow> get_string;
     port \<leftarrow> get_pod;
     isMaster \<leftarrow> get_bool;
     lastSeen \<leftarrow> get_pod;
     isActive \<leftarrow> get_bool;
     nodetype \<leftarrow> get_pod;
     u \<leftarrow> State_Monad.get;
     if \<not> valid u then return val
     else return \<lparr>cn_id = id, cn_ip = ip, cn_port = port, cn_isMaster = isMaster, cn_lastSeen = lastSeen,
               cn_isActive = isActive, cn_type = nodetype\<rparr> }"

definition node_fits :: "ClusterNode \<Rightarrow> bool" where
  "node_fits n \<longleftrightarrow> length (cn_id n) \<le> MAX_ALLOWED_SIZE \<and> length (cn_ip n) \<le> MAX_ALLOWED_SIZE"

interpretation node: codec "get_ClusterNode d" put_ClusterNode node_fits
proof -
  have "reader (get_ClusterNode d)" unfolding get_ClusterNode_def by (intro reader_intros)
  then show "codec (get_ClusterNode d) put_ClusterNode node_fits"
    by (simp add: codec_def codec_axioms_def get_ClusterNode_def put_ClusterNode_def node_fits_def
        str.roundtrip pod.roundtrip boolean.roundtrip str.nonempty)
qed

end
