(* ===== verification/Error_Codes.thy ===== *)
theory Error_Codes
  imports Ubsm_Prelude
begin

text \<open>
  The error codes of the daemon (\<^verbatim>\<open>common/rack_mem_err.h\<close>) and of its clients
  (\<^verbatim>\<open>app_lib/include/ubs_mem_def.h\<close>).  The collection \<open>err_codes\<close> holds their values.
\<close>

named_theorems err_codes \<open>values of the error codes\<close>

section \<open>Daemon\<close>

definition HOK :: int where [err_codes]:
  "HOK = 0"

definition HFAIL :: int where [err_codes]:
  "HFAIL = 1"

definition MXM_OK :: int where [err_codes]:
  "MXM_OK = 0"

definition MXM_ERR_MEMLIB :: int where [err_codes]:
  "MXM_ERR_MEMLIB = 100"

definition MXM_ERR_NULLPTR :: int where [err_codes]:
  "MXM_ERR_NULLPTR = 101"

definition MXM_ERR_MALLOC_FAIL :: int where [err_codes]:
  "MXM_ERR_MALLOC_FAIL = 102"

definition MXM_ERR_MEMORY :: int where [err_codes]:
  "MXM_ERR_MEMORY = 103"

definition MXM_ERR_PARAM_INVALID :: int where [err_codes]:
  "MXM_ERR_PARAM_INVALID = 104"

definition MXM_ERR_MMAP_VA_FAILED :: int where [err_codes]:
  "MXM_ERR_MMAP_VA_FAILED = 105"

definition MXM_ERR_CHECK_RESOURCE :: int where [err_codes]:
  "MXM_ERR_CHECK_RESOURCE = 106"

definition MXM_ERR_DAEMON_NO_FEATURE_ENABLED :: int where [err_codes]:
  "MXM_ERR_DAEMON_NO_FEATURE_ENABLED = 107"

definition MXM_ERR_IPC_SUSPENDED :: int where [err_codes]:
  "MXM_ERR_IPC_SUSPENDED = 108"

definition MXM_ERR_IPC_INIT_CALL :: int where [err_codes]:
  "MXM_ERR_IPC_INIT_CALL = 200"

definition MXM_ERR_IPC_SYNC_CALL :: int where [err_codes]:
  "MXM_ERR_IPC_SYNC_CALL = 201"

definition MXM_ERR_IPC_HCOM_INNER_SYNC_CALL :: int where [err_codes]:
  "MXM_ERR_IPC_HCOM_INNER_SYNC_CALL = 202"

definition MXM_ERR_IPC_CRC_CHECK_ERROR :: int where [err_codes]:
  "MXM_ERR_IPC_CRC_CHECK_ERROR = 203"

definition MXM_ERR_IPC_SERIALIZE_DESERIALIZE_ERROR :: int where [err_codes]:
  "MXM_ERR_IPC_SERIALIZE_DESERIALIZE_ERROR = 204"

definition MXM_ERR_RPC_QUERY_ERROR :: int where [err_codes]:
  "MXM_ERR_RPC_QUERY_ERROR = 205"

definition MXM_ERR_REGISTER_OP_CODE :: int where [err_codes]:
  "MXM_ERR_REGISTER_OP_CODE = 206"

definition MXM_ERR_REGISTER_HANDLER_NULL :: int where [err_codes]:
  "MXM_ERR_REGISTER_HANDLER_NULL = 207"

definition MXM_ERR_LOCK_NOT_READY :: int where [err_codes]:
  "MXM_ERR_LOCK_NOT_READY = 300"

definition MXM_ERR_LOCK_ALREADY_LOCKED :: int where [err_codes]:
  "MXM_ERR_LOCK_ALREADY_LOCKED = 301"

definition MXM_ERR_LOCK_NOT_FOUND :: int where [err_codes]:
  "MXM_ERR_LOCK_NOT_FOUND = 302"

definition MXM_ERR_DLOCK_LIB :: int where [err_codes]:
  "MXM_ERR_DLOCK_LIB = 303"

definition MXM_ERR_DLOCK_INNER :: int where [err_codes]:
  "MXM_ERR_DLOCK_INNER = 304"

definition MXM_ERR_RECORD_DELETE :: int where [err_codes]:
  "MXM_ERR_RECORD_DELETE = 400"

definition MXM_ERR_RECORD_ADD :: int where [err_codes]:
  "MXM_ERR_RECORD_ADD = 401"

definition MXM_ERR_RECORD_CHANGE_STATE :: int where [err_codes]:
  "MXM_ERR_RECORD_CHANGE_STATE = 402"

definition MXM_ERR_REGION_NOT_FOUND :: int where [err_codes]:
  "MXM_ERR_REGION_NOT_FOUND = 500"

definition MXM_ERR_REGION_PARAM_INVALID :: int where [err_codes]:
  "MXM_ERR_REGION_PARAM_INVALID = 501"

definition MXM_ERR_REGION_EXIST :: int where [err_codes]:
  "MXM_ERR_REGION_EXIST = 502"

definition MXM_ERR_REGION_NOT_EXIST :: int where [err_codes]:
  "MXM_ERR_REGION_NOT_EXIST = 503"

definition MXM_ERR_REGION_NO_NEEDED :: int where [err_codes]:
  "MXM_ERR_REGION_NO_NEEDED = 504"

definition MXM_ERR_SHM_NOT_FOUND :: int where [err_codes]:
  "MXM_ERR_SHM_NOT_FOUND = 600"

definition MXM_ERR_SHM_ALREADY_EXIST :: int where [err_codes]:
  "MXM_ERR_SHM_ALREADY_EXIST = 601"

definition MXM_ERR_SHM_PERMISSION_DENIED :: int where [err_codes]:
  "MXM_ERR_SHM_PERMISSION_DENIED = 602"

definition MXM_ERR_SHM_IN_USING :: int where [err_codes]:
  "MXM_ERR_SHM_IN_USING = 603"

definition MXM_ERR_SHM_OBMM_OPEN :: int where [err_codes]:
  "MXM_ERR_SHM_OBMM_OPEN = 604"

definition MXM_ERR_SHM_INVALID_NUMA :: int where [err_codes]:
  "MXM_ERR_SHM_INVALID_NUMA = 605"

definition MXM_ERR_SHM_NOT_EXIST :: int where [err_codes]:
  "MXM_ERR_SHM_NOT_EXIST = 606"

definition MXM_ERR_NAME_BUSY :: int where [err_codes]:
  "MXM_ERR_NAME_BUSY = 650"

definition MXM_ERR_LEASE_NOT_FOUND :: int where [err_codes]:
  "MXM_ERR_LEASE_NOT_FOUND = 700"

definition MXM_ERR_LEASE_NOT_EXIST :: int where [err_codes]:
  "MXM_ERR_LEASE_NOT_EXIST = 701"

definition MXM_ERR_UBSE_INNER :: int where [err_codes]:
  "MXM_ERR_UBSE_INNER = 800"

definition MXM_ERR_UBSE_LIB :: int where [err_codes]:
  "MXM_ERR_UBSE_LIB = 801"

definition MXM_ERR_UBSE_NOT_ATTACH :: int where [err_codes]:
  "MXM_ERR_UBSE_NOT_ATTACH = 802"

definition MXM_ERR_UBSE_NOT_SUPPORTED :: int where [err_codes]:
  "MXM_ERR_UBSE_NOT_SUPPORTED = 803"

definition MXM_ERR_OBMM_INNER :: int where [err_codes]:
  "MXM_ERR_OBMM_INNER = 900"

definition MXM_TIME_OUT_TASK_NEED_RETRY :: int where [err_codes]:
  "MXM_TIME_OUT_TASK_NEED_RETRY = 950"

definition MXM_ERR_UNKNOWN :: int where [err_codes]:
  "MXM_ERR_UNKNOWN = 1000"

section \<open>Clients\<close>

definition UBSM_OK :: int where [err_codes]:
  "UBSM_OK = 0"

definition UBSM_ERR_PARAM_INVALID :: int where [err_codes]:
  "UBSM_ERR_PARAM_INVALID = 6010"

definition UBSM_ERR_NOPERM :: int where [err_codes]:
  "UBSM_ERR_NOPERM = 6011"

definition UBSM_ERR_MEMORY :: int where [err_codes]:
  "UBSM_ERR_MEMORY = 6012"

definition UBSM_ERR_UNIMPL :: int where [err_codes]:
  "UBSM_ERR_UNIMPL = 6013"

definition UBSM_CHECK_RESOURCE_ERROR :: int where [err_codes]:
  "UBSM_CHECK_RESOURCE_ERROR = 6014"

definition UBSM_ERR_MEMLIB :: int where [err_codes]:
  "UBSM_ERR_MEMLIB = 6015"

definition UBSM_ERR_NO_NEEDED :: int where [err_codes]:
  "UBSM_ERR_NO_NEEDED = 6016"

definition UBSM_ERR_BUSY :: int where [err_codes]:
  "UBSM_ERR_BUSY = 6017"

definition UBSM_ERR_IPC_SUSPENDED :: int where [err_codes]:
  "UBSM_ERR_IPC_SUSPENDED = 6018"

definition UBSM_ERR_NOT_FOUND :: int where [err_codes]:
  "UBSM_ERR_NOT_FOUND = 6020"

definition UBSM_ERR_ALREADY_EXIST :: int where [err_codes]:
  "UBSM_ERR_ALREADY_EXIST = 6021"

definition UBSM_ERR_MALLOC_FAIL :: int where [err_codes]:
  "UBSM_ERR_MALLOC_FAIL = 6022"

definition UBSM_ERR_RECORD :: int where [err_codes]:
  "UBSM_ERR_RECORD = 6023"

definition UBSM_ERR_IN_USING :: int where [err_codes]:
  "UBSM_ERR_IN_USING = 6024"

definition UBSM_ERR_NOT_SUPPORTED :: int where [err_codes]:
  "UBSM_ERR_NOT_SUPPORTED = 6025"

definition UBSM_ERR_NET :: int where [err_codes]:
  "UBSM_ERR_NET = 6040"

definition UBSM_ERR_UBSE :: int where [err_codes]:
  "UBSM_ERR_UBSE = 6050"

definition UBSM_ERR_OBMM :: int where [err_codes]:
  "UBSM_ERR_OBMM = 6051"

definition UBSM_ERR_LOCK_NOT_SUPPORTED :: int where [err_codes]:
  "UBSM_ERR_LOCK_NOT_SUPPORTED = 6060"

definition UBSM_ERR_LOCK_ALREADY_LOCKED :: int where [err_codes]:
  "UBSM_ERR_LOCK_ALREADY_LOCKED = 6061"

definition UBSM_ERR_DLOCK :: int where [err_codes]:
  "UBSM_ERR_DLOCK = 6062"

definition UBSM_ERR_BUFF :: int where [err_codes]:
  "UBSM_ERR_BUFF = 6099"

end
