(* ===== verification/Message_Types.thy ===== *)
theory Message_Types
  imports Msg_Packer Error_Codes
begin

text \<open>
  What the messages share: the operation codes (\<^verbatim>\<open>message_op.h\<close>), the header \<^verbatim>\<open>MsgBase\<close>
  (\<^verbatim>\<open>mxm_msg_base.h\<close>), the sizes of the structs that are copied as blocks, and the facts that make
  the proof of a message's round trip a rewriting.  Signed fields are their two's complement bits.
\<close>

section \<open>Operation codes\<close>

named_theorems op_codes \<open>values of the operation codes\<close>

definition MEM_OP_SERVER_BEGIN :: u16 where [op_codes]:
  "MEM_OP_SERVER_BEGIN = 0"

definition IPC_FREE_RACKMEM :: u16 where [op_codes]:
  "IPC_FREE_RACKMEM = 1"

definition IPC_MALLOC_MEMORY :: u16 where [op_codes]:
  "IPC_MALLOC_MEMORY = 2"

definition IPC_MALLOC_MEMORY_LOC :: u16 where [op_codes]:
  "IPC_MALLOC_MEMORY_LOC = 3"

definition IPC_CHECK_MEMORY_LEASE :: u16 where [op_codes]:
  "IPC_CHECK_MEMORY_LEASE = 4"

definition IPC_RACKMEMSHM_LOOKUP_SHAREREGIONS :: u16 where [op_codes]:
  "IPC_RACKMEMSHM_LOOKUP_SHAREREGIONS = 5"

definition IPC_RACKMEMSHM_LOOKUP_REGIONINFO :: u16 where [op_codes]:
  "IPC_RACKMEMSHM_LOOKUP_REGIONINFO = 6"

definition IPC_RACKMEMSHM_CREATE :: u16 where [op_codes]:
  "IPC_RACKMEMSHM_CREATE = 7"

definition IPC_RACKMEMSHM_CREATE_WITH_PROVIDER :: u16 where [op_codes]:
  "IPC_RACKMEMSHM_CREATE_WITH_PROVIDER = 8"

definition IPC_RACKMEMSHM_MMAP :: u16 where [op_codes]:
  "IPC_RACKMEMSHM_MMAP = 9"

definition IPC_RACKMEMSHM_UNMMAP :: u16 where [op_codes]:
  "IPC_RACKMEMSHM_UNMMAP = 10"

definition IPC_RACKMEMSHM_DELETE :: u16 where [op_codes]:
  "IPC_RACKMEMSHM_DELETE = 11"

definition IPC_RACKMEMSHM_QUERY_MEM_FAULT_STATUS :: u16 where [op_codes]:
  "IPC_RACKMEMSHM_QUERY_MEM_FAULT_STATUS = 12"

definition IPC_CHECK_SHARE_MEMORY :: u16 where [op_codes]:
  "IPC_CHECK_SHARE_MEMORY = 13"

definition IPC_REGION_LOOKUP_REGION_LIST :: u16 where [op_codes]:
  "IPC_REGION_LOOKUP_REGION_LIST = 14"

definition IPC_REGION_CREATE_REGION :: u16 where [op_codes]:
  "IPC_REGION_CREATE_REGION = 15"

definition IPC_REGION_LOOKUP_REGION :: u16 where [op_codes]:
  "IPC_REGION_LOOKUP_REGION = 16"

definition IPC_REGION_DESTROY_REGION :: u16 where [op_codes]:
  "IPC_REGION_DESTROY_REGION = 17"

definition IPC_RACKMEMSHM_WRITELOCK :: u16 where [op_codes]:
  "IPC_RACKMEMSHM_WRITELOCK = 18"

definition IPC_RACKMEMSHM_READLOCK :: u16 where [op_codes]:
  "IPC_RACKMEMSHM_READLOCK = 19"

definition IPC_RACKMEMSHM_UNLOCK :: u16 where [op_codes]:
  "IPC_RACKMEMSHM_UNLOCK = 20"

definition IPC_QUERY_CLUSTERINFO :: u16 where [op_codes]:
  "IPC_QUERY_CLUSTERINFO = 21"

definition IPC_FORCE_FREE_CACHED_MEMORY :: u16 where [op_codes]:
  "IPC_FORCE_FREE_CACHED_MEMORY = 22"

definition IPC_QUERY_CACHED_MEMORY :: u16 where [op_codes]:
  "IPC_QUERY_CACHED_MEMORY = 23"

definition IPC_RACKMEMSHM_LOOKUP_LIST :: u16 where [op_codes]:
  "IPC_RACKMEMSHM_LOOKUP_LIST = 24"

definition IPC_RACKMEMSHM_LOOKUP :: u16 where [op_codes]:
  "IPC_RACKMEMSHM_LOOKUP = 25"

definition IPC_RACKMEMSHM_ATTACH :: u16 where [op_codes]:
  "IPC_RACKMEMSHM_ATTACH = 26"

definition IPC_RACKMEMSHM_DETACH :: u16 where [op_codes]:
  "IPC_RACKMEMSHM_DETACH = 27"

definition IPC_RACKMEMSHM_QUERY_DLOCK_STATUS :: u16 where [op_codes]:
  "IPC_RACKMEMSHM_QUERY_DLOCK_STATUS = 28"

definition IPC_RACKMEMSHM_QUERY_NODE :: u16 where [op_codes]:
  "IPC_RACKMEMSHM_QUERY_NODE = 29"

definition IPC_RACKMEMSHM_QUERY_SLOT_ID :: u16 where [op_codes]:
  "IPC_RACKMEMSHM_QUERY_SLOT_ID = 30"

definition IPC_SUSPEND_CLIENT :: u16 where [op_codes]:
  "IPC_SUSPEND_CLIENT = 31"

definition IPC_RESUME_CLIENT :: u16 where [op_codes]:
  "IPC_RESUME_CLIENT = 32"

definition RPC_AGENT_QUERY_NODE_INFO :: u16 where [op_codes]:
  "RPC_AGENT_QUERY_NODE_INFO = 100"

definition RPC_DLOCK_CLIENT_REINIT :: u16 where [op_codes]:
  "RPC_DLOCK_CLIENT_REINIT = 101"

definition RPC_LOCK :: u16 where [op_codes]:
  "RPC_LOCK = 102"

definition RPC_UNLOCK :: u16 where [op_codes]:
  "RPC_UNLOCK = 103"

definition RPC_PING_NODE_INFO :: u16 where [op_codes]:
  "RPC_PING_NODE_INFO = 104"

definition RPC_JOIN_NODE_INFO :: u16 where [op_codes]:
  "RPC_JOIN_NODE_INFO = 105"

definition RPC_MASTER_ELECTED_NODE_INFO :: u16 where [op_codes]:
  "RPC_MASTER_ELECTED_NODE_INFO = 106"

definition RPC_SEND_ELECTED_MASTER_INFO :: u16 where [op_codes]:
  "RPC_SEND_ELECTED_MASTER_INFO = 107"

definition RPC_VOTE_NODE_INFO :: u16 where [op_codes]:
  "RPC_VOTE_NODE_INFO = 108"

definition RPC_BROADCAST_NODE_INFO :: u16 where [op_codes]:
  "RPC_BROADCAST_NODE_INFO = 109"

definition MXM_MSG_SHM_ALLOCATE :: u16 where [op_codes]:
  "MXM_MSG_SHM_ALLOCATE = 66"

definition MXM_MSG_SHM_DEALLOCATE :: u16 where [op_codes]:
  "MXM_MSG_SHM_DEALLOCATE = 67"

definition MXM_MSG_BUTT :: u16 where [op_codes]:
  "MXM_MSG_BUTT = 68"

section \<open>Header and blocks\<close>

record MsgBase =
  msgVer :: u16
  opCode :: u16
  destRankId :: u32

definition DeserializeResult :: "unpacker \<Rightarrow> int" where
  "DeserializeResult u = (if \<not> valid u then MXM_ERR_PARAM_INVALID else UBSM_OK)"

text \<open>
  Sizes with 4-byte enumerations and natural alignment: a region description has three integers,
  16 flags, 16 identifiers of 48 and 16 host names of 64 characters.
\<close>

definition sizeof_SHMRegionDesc :: nat where
  "sizeof_SHMRegionDesc = 12 + 16 + 16 * 48 + 16 * 64"

definition sizeof_SHMRegions :: nat where
  "sizeof_SHMRegions = 4 + 6 * sizeof_SHMRegionDesc"

definition sizeof_ubsmemClusterInfo :: nat where
  "sizeof_ubsmemClusterInfo = 8 + 16 * (72 + 32 * 64)"

definition sizeof_ubsmem_shmem_desc_t :: nat where
  "sizeof_ubsmem_shmem_desc_t = 56 + 8"

definition sizeof_ubsmem_shmem_info_t :: nat where
  "sizeof_ubsmem_shmem_info_t = 56 + 8 + 8 + 8 + 2048 * 8"

lemmas sizeof_defs = sizeof_SHMRegionDesc_def sizeof_SHMRegions_def sizeof_ubsmemClusterInfo_def
  sizeof_ubsmem_shmem_desc_t_def sizeof_ubsmem_shmem_info_t_def

definition zero_block :: "nat \<Rightarrow> string" where
  "zero_block n = replicate n CHR 0x00"

definition new_ClusterNode :: ClusterNode where
  "new_ClusterNode = \<lparr>cn_id = [], cn_ip = [], cn_port = 0, cn_isMaster = False, cn_lastSeen = 0,
     cn_isActive = False, cn_type = ELIGIBLE_NODE\<rparr>"

section \<open>Codecs of the fields\<close>

definition names_fit :: "string list \<Rightarrow> bool" where
  "names_fit xs \<longleftrightarrow> length xs \<le> MAX_ALLOWED_SIZE \<and> (\<forall>x\<in>set xs. length x \<le> MAX_ALLOWED_SIZE)"

definition ids_fit :: "u64 list \<Rightarrow> bool" where
  "ids_fit xs \<longleftrightarrow> length xs \<le> MAX_ALLOWED_SIZE"

definition descs_fit :: "string list \<Rightarrow> bool" where
  "descs_fit xs \<longleftrightarrow> length xs \<le> MAX_ALLOWED_SIZE \<and> (\<forall>x\<in>set xs. length x = sizeof_ubsmem_shmem_desc_t)"

definition nodes_fit :: "(string \<times> ClusterNode) list \<Rightarrow> bool" where
  "nodes_fit m \<longleftrightarrow> length m \<le> MAX_ALLOWED_SIZE \<and> map_ok m \<and>
     (\<forall>(k, v)\<in>set m. length k \<le> MAX_ALLOWED_SIZE \<and> node_fits v)"

interpretation names: codec "get_vector get_string" "put_vector put_string" names_fit
  using vector_codec[OF str.codec_axioms] by (simp add: names_fit_def[abs_def])

interpretation ids: codec "get_vector get_pod" "put_vector put_pod" ids_fit
  using vector_codec[OF pod.codec_axioms[where 'a = 64]] by (simp add: ids_fit_def[abs_def])

interpretation desc: codec "get_block sizeof_ubsmem_shmem_desc_t" put_block "\<lambda>x. length x = sizeof_ubsmem_shmem_desc_t"
  by (rule block_codec) (simp add: sizeof_defs)

interpretation descs: codec "get_vector (get_block sizeof_ubsmem_shmem_desc_t)" "put_vector put_block" descs_fit
  using vector_codec[OF desc.codec_axioms] by (simp add: descs_fit_def[abs_def])

interpretation nodes: codec "get_map get_string (get_ClusterNode d)" "put_map put_string put_ClusterNode" nodes_fit
  using map_codec[OF str.codec_axioms node.codec_axioms] by (simp add: nodes_fit_def[abs_def])

interpretation regiondesc: codec "get_block sizeof_SHMRegionDesc" put_block "\<lambda>x. length x = sizeof_SHMRegionDesc"
  by (rule block_codec) (simp add: sizeof_defs)

interpretation regions: codec "get_block sizeof_SHMRegions" put_block "\<lambda>x. length x = sizeof_SHMRegions"
  by (rule block_codec) (simp add: sizeof_defs)

interpretation clusterinfo: codec "get_block sizeof_ubsmemClusterInfo" put_block "\<lambda>x. length x = sizeof_ubsmemClusterInfo"
  by (rule block_codec) (simp add: sizeof_defs)

interpretation shmeminfo: codec "get_block sizeof_ubsmem_shmem_info_t" put_block "\<lambda>x. length x = sizeof_ubsmem_shmem_info_t"
  by (rule block_codec) (simp add: sizeof_defs)

lemmas [reader_intros] = node.reader_axioms

lemmas codec_simps =
  pod.roundtrip boolean.roundtrip str.roundtrip names.roundtrip ids.roundtrip descs.roundtrip nodes.roundtrip
  regiondesc.roundtrip regions.roundtrip clusterinfo.roundtrip shmeminfo.roundtrip
  pod.roundtrip_end boolean.roundtrip_end str.roundtrip_end names.roundtrip_end ids.roundtrip_end
  descs.roundtrip_end nodes.roundtrip_end regiondesc.roundtrip_end regions.roundtrip_end
  clusterinfo.roundtrip_end shmeminfo.roundtrip_end pod.nonempty

lemma codecI:
  assumes "reader g" "\<And>x rest. ok x \<Longrightarrow> run_state g (ready (p x @ rest)) = (x, ready rest)"
    "\<And>x. ok x \<Longrightarrow> p x \<noteq> []"
  shows "codec g p ok"
  using assms by (simp add: codec_def codec_axioms_def)

end
