(* ===== verification/Messages_App.thy ===== *)
theory Messages_App
  imports Message_Types
begin

text \<open>
  The messages of \<^verbatim>\<open>mxm_message/mxm_msg.h\<close> for leases, cluster information and client control.  For each struct: its fields, the
  object its default constructor makes, its methods \<^verbatim>\<open>Serialize\<close> and \<^verbatim>\<open>Deserialize\<close>, the values that
  survive the wire (\<open>fits\<close>), and the proof that the two methods are a \<^const>\<open>codec\<close>.
\<close>

section \<open>Messages\<close>

subsection \<open>\<^verbatim>\<open>CheckMemoryLeaseRequest\<close>\<close>

record CheckMemoryLeaseRequest = MsgBase +
  CheckMemoryLeaseReq_names :: "string list"

definition new_CheckMemoryLeaseRequest :: CheckMemoryLeaseRequest where
  "new_CheckMemoryLeaseRequest = \<lparr>msgVer = 0, opCode = IPC_CHECK_MEMORY_LEASE, destRankId = 0,
       CheckMemoryLeaseReq_names = []\<rparr>"

definition Serialize_CheckMemoryLeaseRequest :: "CheckMemoryLeaseRequest \<Rightarrow> string" where
  "Serialize_CheckMemoryLeaseRequest m = put_pod (msgVer m) @ put_pod (opCode m) @ put_pod (destRankId m) @
       put_vector put_string (CheckMemoryLeaseReq_names m)"

definition Deserialize_CheckMemoryLeaseRequest :: "CheckMemoryLeaseRequest unpack" where
  "Deserialize_CheckMemoryLeaseRequest = do {
     v_msgVer \<leftarrow> get_pod;
     v_opCode \<leftarrow> get_pod;
     v_destRankId \<leftarrow> get_pod;
     v_names \<leftarrow> get_vector get_string;
     return \<lparr>msgVer = v_msgVer, opCode = v_opCode, destRankId = v_destRankId,
       CheckMemoryLeaseReq_names = v_names\<rparr> }"

definition fits_CheckMemoryLeaseRequest :: "CheckMemoryLeaseRequest \<Rightarrow> bool" where
  "fits_CheckMemoryLeaseRequest m \<longleftrightarrow> names_fit (CheckMemoryLeaseReq_names m)"

interpretation CheckMemoryLeaseRequest: codec Deserialize_CheckMemoryLeaseRequest Serialize_CheckMemoryLeaseRequest fits_CheckMemoryLeaseRequest
  by (rule codecI, unfold Deserialize_CheckMemoryLeaseRequest_def, intro reader_intros)
    (simp_all add: Serialize_CheckMemoryLeaseRequest_def fits_CheckMemoryLeaseRequest_def codec_simps)

subsection \<open>\<^verbatim>\<open>CheckShareMemoryMapRequest\<close>\<close>

record CheckShareMemoryMapRequest = MsgBase +
  CheckShareMemoryMapReq_names :: "string list"

definition new_CheckShareMemoryMapRequest :: CheckShareMemoryMapRequest where
  "new_CheckShareMemoryMapRequest = \<lparr>msgVer = 0, opCode = IPC_CHECK_SHARE_MEMORY, destRankId = 0,
       CheckShareMemoryMapReq_names = []\<rparr>"

definition Serialize_CheckShareMemoryMapRequest :: "CheckShareMemoryMapRequest \<Rightarrow> string" where
  "Serialize_CheckShareMemoryMapRequest m = put_pod (msgVer m) @ put_pod (opCode m) @ put_pod (destRankId m) @
       put_vector put_string (CheckShareMemoryMapReq_names m)"

definition Deserialize_CheckShareMemoryMapRequest :: "CheckShareMemoryMapRequest unpack" where
  "Deserialize_CheckShareMemoryMapRequest = do {
     v_msgVer \<leftarrow> get_pod;
     v_opCode \<leftarrow> get_pod;
     v_destRankId \<leftarrow> get_pod;
     v_names \<leftarrow> get_vector get_string;
     return \<lparr>msgVer = v_msgVer, opCode = v_opCode, destRankId = v_destRankId,
       CheckShareMemoryMapReq_names = v_names\<rparr> }"

definition fits_CheckShareMemoryMapRequest :: "CheckShareMemoryMapRequest \<Rightarrow> bool" where
  "fits_CheckShareMemoryMapRequest m \<longleftrightarrow> names_fit (CheckShareMemoryMapReq_names m)"

interpretation CheckShareMemoryMapRequest: codec Deserialize_CheckShareMemoryMapRequest Serialize_CheckShareMemoryMapRequest fits_CheckShareMemoryMapRequest
  by (rule codecI, unfold Deserialize_CheckShareMemoryMapRequest_def, intro reader_intros)
    (simp_all add: Serialize_CheckShareMemoryMapRequest_def fits_CheckShareMemoryMapRequest_def codec_simps)

subsection \<open>\<^verbatim>\<open>CommonRequest\<close>\<close>

record CommonRequest = MsgBase +
  CommonReq_input :: u32

definition new_CommonRequest :: CommonRequest where
  "new_CommonRequest = \<lparr>msgVer = 0, opCode = MXM_MSG_BUTT, destRankId = 0, CommonReq_input = 0\<rparr>"

definition Serialize_CommonRequest :: "CommonRequest \<Rightarrow> string" where
  "Serialize_CommonRequest m = put_pod (msgVer m) @ put_pod (opCode m) @ put_pod (destRankId m) @
       put_pod (CommonReq_input m)"

definition Deserialize_CommonRequest :: "CommonRequest unpack" where
  "Deserialize_CommonRequest = do {
     v_msgVer \<leftarrow> get_pod;
     v_opCode \<leftarrow> get_pod;
     v_destRankId \<leftarrow> get_pod;
     v_input \<leftarrow> get_pod;
     return \<lparr>msgVer = v_msgVer, opCode = v_opCode, destRankId = v_destRankId,
       CommonReq_input = v_input\<rparr> }"

definition fits_CommonRequest :: "CommonRequest \<Rightarrow> bool" where
  "fits_CommonRequest m \<longleftrightarrow> True"

interpretation CommonRequest: codec Deserialize_CommonRequest Serialize_CommonRequest fits_CommonRequest
  by (rule codecI, unfold Deserialize_CommonRequest_def, intro reader_intros)
    (simp_all add: Serialize_CommonRequest_def fits_CommonRequest_def codec_simps)

subsection \<open>\<^verbatim>\<open>CommonResponse\<close>\<close>

record CommonResponse = MsgBase +
  CommonResp_errCode :: u32

definition new_CommonResponse :: CommonResponse where
  "new_CommonResponse = \<lparr>msgVer = 0, opCode = MXM_MSG_BUTT, destRankId = 0,
       CommonResp_errCode = word_of_int UBSM_ERR_UNIMPL\<rparr>"

definition Serialize_CommonResponse :: "CommonResponse \<Rightarrow> string" where
  "Serialize_CommonResponse m = put_pod (msgVer m) @ put_pod (opCode m) @ put_pod (destRankId m) @
       put_pod (CommonResp_errCode m)"

definition Deserialize_CommonResponse :: "CommonResponse unpack" where
  "Deserialize_CommonResponse = do {
     v_msgVer \<leftarrow> get_pod;
     v_opCode \<leftarrow> get_pod;
     v_destRankId \<leftarrow> get_pod;
     v_errCode \<leftarrow> get_pod;
     return \<lparr>msgVer = v_msgVer, opCode = v_opCode, destRankId = v_destRankId,
       CommonResp_errCode = v_errCode\<rparr> }"

definition fits_CommonResponse :: "CommonResponse \<Rightarrow> bool" where
  "fits_CommonResponse m \<longleftrightarrow> True"

interpretation CommonResponse: codec Deserialize_CommonResponse Serialize_CommonResponse fits_CommonResponse
  by (rule codecI, unfold Deserialize_CommonResponse_def, intro reader_intros)
    (simp_all add: Serialize_CommonResponse_def fits_CommonResponse_def codec_simps)

subsection \<open>\<^verbatim>\<open>ShmemAllocateRequest\<close>\<close>

record ShmemAllocateRequest = MsgBase +
  ShmemAllocateReq_regionName :: string
  ShmemAllocateReq_shmName :: string
  ShmemAllocateReq_size :: u64
  ShmemAllocateReq_mode :: u32
  ShmemAllocateReq_flag :: u64

definition new_ShmemAllocateRequest :: ShmemAllocateRequest where
  "new_ShmemAllocateRequest = \<lparr>msgVer = 0, opCode = MXM_MSG_SHM_ALLOCATE, destRankId = 0,
       ShmemAllocateReq_regionName = [], ShmemAllocateReq_shmName = [], ShmemAllocateReq_size = 0,
       ShmemAllocateReq_mode = 0, ShmemAllocateReq_flag = 0\<rparr>"

definition Serialize_ShmemAllocateRequest :: "ShmemAllocateRequest \<Rightarrow> string" where
  "Serialize_ShmemAllocateRequest m = put_pod (msgVer m) @ put_pod (opCode m) @ put_pod (destRankId m) @
       put_string (ShmemAllocateReq_regionName m) @ put_string (ShmemAllocateReq_shmName m) @
       put_pod (ShmemAllocateReq_size m) @ put_pod (ShmemAllocateReq_mode m) @
       put_pod (ShmemAllocateReq_flag m)"

definition Deserialize_ShmemAllocateRequest :: "ShmemAllocateRequest unpack" where
  "Deserialize_ShmemAllocateRequest = do {
     v_msgVer \<leftarrow> get_pod;
     v_opCode \<leftarrow> get_pod;
     v_destRankId \<leftarrow> get_pod;
     v_regionName \<leftarrow> get_string;
     v_shmName \<leftarrow> get_string;
     v_size \<leftarrow> get_pod;
     v_mode \<leftarrow> get_pod;
     v_flag \<leftarrow> get_pod;
     return \<lparr>msgVer = v_msgVer, opCode = v_opCode, destRankId = v_destRankId,
       ShmemAllocateReq_regionName = v_regionName, ShmemAllocateReq_shmName = v_shmName,
       ShmemAllocateReq_size = v_size, ShmemAllocateReq_mode = v_mode, ShmemAllocateReq_flag = v_flag\<rparr> }"

definition fits_ShmemAllocateRequest :: "ShmemAllocateRequest \<Rightarrow> bool" where
  "fits_ShmemAllocateRequest m \<longleftrightarrow>
       length (ShmemAllocateReq_regionName m) \<le> MAX_ALLOWED_SIZE \<and>
       length (ShmemAllocateReq_shmName m) \<le> MAX_ALLOWED_SIZE"

interpretation ShmemAllocateRequest: codec Deserialize_ShmemAllocateRequest Serialize_ShmemAllocateRequest fits_ShmemAllocateRequest
  by (rule codecI, unfold Deserialize_ShmemAllocateRequest_def, intro reader_intros)
    (simp_all add: Serialize_ShmemAllocateRequest_def fits_ShmemAllocateRequest_def codec_simps)

subsection \<open>\<^verbatim>\<open>ShmemDeallocateRequest\<close>\<close>

record ShmemDeallocateRequest = MsgBase +
  ShmemDeallocateReq_shmName :: string

definition new_ShmemDeallocateRequest :: ShmemDeallocateRequest where
  "new_ShmemDeallocateRequest = \<lparr>msgVer = 0, opCode = MXM_MSG_SHM_DEALLOCATE, destRankId = 0,
       ShmemDeallocateReq_shmName = []\<rparr>"

definition Serialize_ShmemDeallocateRequest :: "ShmemDeallocateRequest \<Rightarrow> string" where
  "Serialize_ShmemDeallocateRequest m = put_pod (msgVer m) @ put_pod (opCode m) @ put_pod (destRankId m) @
       put_string (ShmemDeallocateReq_shmName m)"

definition Deserialize_ShmemDeallocateRequest :: "ShmemDeallocateRequest unpack" where
  "Deserialize_ShmemDeallocateRequest = do {
     v_msgVer \<leftarrow> get_pod;
     v_opCode \<leftarrow> get_pod;
     v_destRankId \<leftarrow> get_pod;
     v_shmName \<leftarrow> get_string;
     return \<lparr>msgVer = v_msgVer, opCode = v_opCode, destRankId = v_destRankId,
       ShmemDeallocateReq_shmName = v_shmName\<rparr> }"

definition fits_ShmemDeallocateRequest :: "ShmemDeallocateRequest \<Rightarrow> bool" where
  "fits_ShmemDeallocateRequest m \<longleftrightarrow>
       length (ShmemDeallocateReq_shmName m) \<le> MAX_ALLOWED_SIZE"

interpretation ShmemDeallocateRequest: codec Deserialize_ShmemDeallocateRequest Serialize_ShmemDeallocateRequest fits_ShmemDeallocateRequest
  by (rule codecI, unfold Deserialize_ShmemDeallocateRequest_def, intro reader_intros)
    (simp_all add: Serialize_ShmemDeallocateRequest_def fits_ShmemDeallocateRequest_def codec_simps)

subsection \<open>\<^verbatim>\<open>AppMallocMemoryRequest\<close>\<close>

record AppMallocMemoryRequest = MsgBase +
  AppMallocMemoryReq_size :: u64
  AppMallocMemoryReq_perflevel :: u16
  AppMallocMemoryReq_isNuma :: u16
  AppMallocMemoryReq_regionName :: string

definition new_AppMallocMemoryRequest :: AppMallocMemoryRequest where
  "new_AppMallocMemoryRequest = \<lparr>msgVer = 0, opCode = IPC_MALLOC_MEMORY, destRankId = 0,
       AppMallocMemoryReq_size = 0, AppMallocMemoryReq_perflevel = 0, AppMallocMemoryReq_isNuma = 0,
       AppMallocMemoryReq_regionName = []\<rparr>"

definition Serialize_AppMallocMemoryRequest :: "AppMallocMemoryRequest \<Rightarrow> string" where
  "Serialize_AppMallocMemoryRequest m = put_pod (msgVer m) @ put_pod (opCode m) @ put_pod (destRankId m) @
       put_pod (AppMallocMemoryReq_size m) @ put_pod (AppMallocMemoryReq_perflevel m) @
       put_pod (AppMallocMemoryReq_isNuma m) @ put_string (AppMallocMemoryReq_regionName m)"

definition Deserialize_AppMallocMemoryRequest :: "AppMallocMemoryRequest unpack" where
  "Deserialize_AppMallocMemoryRequest = do {
     v_msgVer \<leftarrow> get_pod;
     v_opCode \<leftarrow> get_pod;
     v_destRankId \<leftarrow> get_pod;
     v_size \<leftarrow> get_pod;
     v_perflevel \<leftarrow> get_pod;
     v_isNuma \<leftarrow> get_pod;
     v_regionName \<leftarrow> get_string;
     return \<lparr>msgVer = v_msgVer, opCode = v_opCode, destRankId = v_destRankId,
       AppMallocMemoryReq_size = v_size, AppMallocMemoryReq_perflevel = v_perflevel,
       AppMallocMemoryReq_isNuma = v_isNuma, AppMallocMemoryReq_regionName = v_regionName\<rparr> }"

definition fits_AppMallocMemoryRequest :: "AppMallocMemoryRequest \<Rightarrow> bool" where
  "fits_AppMallocMemoryRequest m \<longleftrightarrow>
       length (AppMallocMemoryReq_regionName m) \<le> MAX_ALLOWED_SIZE"

interpretation AppMallocMemoryRequest: codec Deserialize_AppMallocMemoryRequest Serialize_AppMallocMemoryRequest fits_AppMallocMemoryRequest
  by (rule codecI, unfold Deserialize_AppMallocMemoryRequest_def, intro reader_intros)
    (simp_all add: Serialize_AppMallocMemoryRequest_def fits_AppMallocMemoryRequest_def codec_simps)

subsection \<open>\<^verbatim>\<open>AppMallocMemoryWithLocRequest\<close>\<close>

record AppMallocMemoryWithLocRequest = MsgBase +
  AppMallocMemoryWithLocReq_size :: u64
  AppMallocMemoryWithLocReq_isNuma :: u16
  AppMallocMemoryWithLocReq_slotId :: u32
  AppMallocMemoryWithLocReq_socketId :: u32
  AppMallocMemoryWithLocReq_numaId :: u32
  AppMallocMemoryWithLocReq_portId :: u32

definition new_AppMallocMemoryWithLocRequest :: AppMallocMemoryWithLocRequest where
  "new_AppMallocMemoryWithLocRequest = \<lparr>msgVer = 0, opCode = IPC_MALLOC_MEMORY_LOC, destRankId = 0,
       AppMallocMemoryWithLocReq_size = 0, AppMallocMemoryWithLocReq_isNuma = 0,
       AppMallocMemoryWithLocReq_slotId = 0, AppMallocMemoryWithLocReq_socketId = 0,
       AppMallocMemoryWithLocReq_numaId = 0, AppMallocMemoryWithLocReq_portId = 0\<rparr>"

definition Serialize_AppMallocMemoryWithLocRequest :: "AppMallocMemoryWithLocRequest \<Rightarrow> string" where
  "Serialize_AppMallocMemoryWithLocRequest m = put_pod (msgVer m) @ put_pod (opCode m) @
       put_pod (destRankId m) @ put_pod (AppMallocMemoryWithLocReq_size m) @
       put_pod (AppMallocMemoryWithLocReq_isNuma m) @ put_pod (AppMallocMemoryWithLocReq_slotId m) @
       put_pod (AppMallocMemoryWithLocReq_socketId m) @ put_pod (AppMallocMemoryWithLocReq_numaId m) @
       put_pod (AppMallocMemoryWithLocReq_portId m)"

definition Deserialize_AppMallocMemoryWithLocRequest :: "AppMallocMemoryWithLocRequest unpack" where
  "Deserialize_AppMallocMemoryWithLocRequest = do {
     v_msgVer \<leftarrow> get_pod;
     v_opCode \<leftarrow> get_pod;
     v_destRankId \<leftarrow> get_pod;
     v_size \<leftarrow> get_pod;
     v_isNuma \<leftarrow> get_pod;
     v_slotId \<leftarrow> get_pod;
     v_socketId \<leftarrow> get_pod;
     v_numaId \<leftarrow> get_pod;
     v_portId \<leftarrow> get_pod;
     return \<lparr>msgVer = v_msgVer, opCode = v_opCode, destRankId = v_destRankId,
       AppMallocMemoryWithLocReq_size = v_size, AppMallocMemoryWithLocReq_isNuma = v_isNuma,
       AppMallocMemoryWithLocReq_slotId = v_slotId, AppMallocMemoryWithLocReq_socketId = v_socketId,
       AppMallocMemoryWithLocReq_numaId = v_numaId, AppMallocMemoryWithLocReq_portId = v_portId\<rparr> }"

definition fits_AppMallocMemoryWithLocRequest :: "AppMallocMemoryWithLocRequest \<Rightarrow> bool" where
  "fits_AppMallocMemoryWithLocRequest m \<longleftrightarrow> True"

interpretation AppMallocMemoryWithLocRequest: codec Deserialize_AppMallocMemoryWithLocRequest Serialize_AppMallocMemoryWithLocRequest fits_AppMallocMemoryWithLocRequest
  by (rule codecI, unfold Deserialize_AppMallocMemoryWithLocRequest_def, intro reader_intros)
    (simp_all add: Serialize_AppMallocMemoryWithLocRequest_def fits_AppMallocMemoryWithLocRequest_def codec_simps)

subsection \<open>\<^verbatim>\<open>AppFreeMemoryRequest\<close>\<close>

record AppFreeMemoryRequest = MsgBase +
  AppFreeMemoryReq_memIds :: "u64 list"
  AppFreeMemoryReq_regionName :: string
  AppFreeMemoryReq_name :: string

definition new_AppFreeMemoryRequest :: AppFreeMemoryRequest where
  "new_AppFreeMemoryRequest = \<lparr>msgVer = 0, opCode = IPC_FREE_RACKMEM, destRankId = 0,
       AppFreeMemoryReq_memIds = [], AppFreeMemoryReq_regionName = [], AppFreeMemoryReq_name = []\<rparr>"

definition Serialize_AppFreeMemoryRequest :: "AppFreeMemoryRequest \<Rightarrow> string" where
  "Serialize_AppFreeMemoryRequest m = put_pod (msgVer m) @ put_pod (opCode m) @ put_pod (destRankId m) @
       put_vector put_pod (AppFreeMemoryReq_memIds m) @ put_string (AppFreeMemoryReq_regionName m) @
       put_string (AppFreeMemoryReq_name m)"

definition Deserialize_AppFreeMemoryRequest :: "AppFreeMemoryRequest unpack" where
  "Deserialize_AppFreeMemoryRequest = do {
     v_msgVer \<leftarrow> get_pod;
     v_opCode \<leftarrow> get_pod;
     v_destRankId \<leftarrow> get_pod;
     v_memIds \<leftarrow> get_vector get_pod;
     v_regionName \<leftarrow> get_string;
     v_name \<leftarrow> get_string;
     return \<lparr>msgVer = v_msgVer, opCode = v_opCode, destRankId = v_destRankId,
       AppFreeMemoryReq_memIds = v_memIds, AppFreeMemoryReq_regionName = v_regionName,
       AppFreeMemoryReq_name = v_name\<rparr> }"

definition fits_AppFreeMemoryRequest :: "AppFreeMemoryRequest \<Rightarrow> bool" where
  "fits_AppFreeMemoryRequest m \<longleftrightarrow> ids_fit (AppFreeMemoryReq_memIds m) \<and>
       length (AppFreeMemoryReq_regionName m) \<le> MAX_ALLOWED_SIZE \<and>
       length (AppFreeMemoryReq_name m) \<le> MAX_ALLOWED_SIZE"

interpretation AppFreeMemoryRequest: codec Deserialize_AppFreeMemoryRequest Serialize_AppFreeMemoryRequest fits_AppFreeMemoryRequest
  by (rule codecI, unfold Deserialize_AppFreeMemoryRequest_def, intro reader_intros)
    (simp_all add: Serialize_AppFreeMemoryRequest_def fits_AppFreeMemoryRequest_def codec_simps)

subsection \<open>\<^verbatim>\<open>AppMallocMemoryResponse\<close>\<close>

record AppMallocMemoryResponse = MsgBase +
  AppMallocMemoryResp_errCode :: u32
  AppMallocMemoryResp_memIds :: "u64 list"
  AppMallocMemoryResp_numaId :: u64
  AppMallocMemoryResp_isNuma :: bool
  AppMallocMemoryResp_unitSize :: u64
  AppMallocMemoryResp_name :: string

definition new_AppMallocMemoryResponse :: AppMallocMemoryResponse where
  "new_AppMallocMemoryResponse = \<lparr>msgVer = 0, opCode = MXM_MSG_BUTT, destRankId = 0,
       AppMallocMemoryResp_errCode = word_of_int UBSM_ERR_UNIMPL, AppMallocMemoryResp_memIds = [],
       AppMallocMemoryResp_numaId = 0, AppMallocMemoryResp_isNuma = False, AppMallocMemoryResp_unitSize = 0,
       AppMallocMemoryResp_name = []\<rparr>"

definition Serialize_AppMallocMemoryResponse :: "AppMallocMemoryResponse \<Rightarrow> string" where
  "Serialize_AppMallocMemoryResponse m = put_pod (msgVer m) @ put_pod (opCode m) @ put_pod (destRankId m) @
       put_pod (AppMallocMemoryResp_errCode m) @ put_vector put_pod (AppMallocMemoryResp_memIds m) @
       put_pod (AppMallocMemoryResp_numaId m) @ put_bool (AppMallocMemoryResp_isNuma m) @
       put_pod (AppMallocMemoryResp_unitSize m) @ put_string (AppMallocMemoryResp_name m)"

definition Deserialize_AppMallocMemoryResponse :: "AppMallocMemoryResponse unpack" where
  "Deserialize_AppMallocMemoryResponse = do {
     v_msgVer \<leftarrow> get_pod;
     v_opCode \<leftarrow> get_pod;
     v_destRankId \<leftarrow> get_pod;
     v_errCode \<leftarrow> get_pod;
     v_memIds \<leftarrow> get_vector get_pod;
     v_numaId \<leftarrow> get_pod;
     v_isNuma \<leftarrow> get_bool;
     v_unitSize \<leftarrow> get_pod;
     v_name \<leftarrow> get_string;
     return \<lparr>msgVer = v_msgVer, opCode = v_opCode, destRankId = v_destRankId,
       AppMallocMemoryResp_errCode = v_errCode, AppMallocMemoryResp_memIds = v_memIds,
       AppMallocMemoryResp_numaId = v_numaId, AppMallocMemoryResp_isNuma = v_isNuma,
       AppMallocMemoryResp_unitSize = v_unitSize, AppMallocMemoryResp_name = v_name\<rparr> }"

definition fits_AppMallocMemoryResponse :: "AppMallocMemoryResponse \<Rightarrow> bool" where
  "fits_AppMallocMemoryResponse m \<longleftrightarrow> ids_fit (AppMallocMemoryResp_memIds m) \<and>
       length (AppMallocMemoryResp_name m) \<le> MAX_ALLOWED_SIZE"

interpretation AppMallocMemoryResponse: codec Deserialize_AppMallocMemoryResponse Serialize_AppMallocMemoryResponse fits_AppMallocMemoryResponse
  by (rule codecI, unfold Deserialize_AppMallocMemoryResponse_def, intro reader_intros)
    (simp_all add: Serialize_AppMallocMemoryResponse_def fits_AppMallocMemoryResponse_def codec_simps)

subsection \<open>\<^verbatim>\<open>AppQueryClusterInfoResponse\<close>\<close>

record AppQueryClusterInfoResponse = MsgBase +
  AppQueryClusterInfoResp_errCode :: u32
  AppQueryClusterInfoResp_info :: string

definition new_AppQueryClusterInfoResponse :: AppQueryClusterInfoResponse where
  "new_AppQueryClusterInfoResponse = \<lparr>msgVer = 0, opCode = MXM_MSG_BUTT, destRankId = 0,
       AppQueryClusterInfoResp_errCode = word_of_int UBSM_ERR_UNIMPL,
       AppQueryClusterInfoResp_info = zero_block sizeof_ubsmemClusterInfo\<rparr>"

definition Serialize_AppQueryClusterInfoResponse :: "AppQueryClusterInfoResponse \<Rightarrow> string" where
  "Serialize_AppQueryClusterInfoResponse m = put_pod (msgVer m) @ put_pod (opCode m) @ put_pod (destRankId m) @
       put_pod (AppQueryClusterInfoResp_errCode m) @ put_block (AppQueryClusterInfoResp_info m)"

definition Deserialize_AppQueryClusterInfoResponse :: "AppQueryClusterInfoResponse unpack" where
  "Deserialize_AppQueryClusterInfoResponse = do {
     v_msgVer \<leftarrow> get_pod;
     v_opCode \<leftarrow> get_pod;
     v_destRankId \<leftarrow> get_pod;
     v_errCode \<leftarrow> get_pod;
     v_info \<leftarrow> get_block sizeof_ubsmemClusterInfo;
     return \<lparr>msgVer = v_msgVer, opCode = v_opCode, destRankId = v_destRankId,
       AppQueryClusterInfoResp_errCode = v_errCode, AppQueryClusterInfoResp_info = v_info\<rparr> }"

definition fits_AppQueryClusterInfoResponse :: "AppQueryClusterInfoResponse \<Rightarrow> bool" where
  "fits_AppQueryClusterInfoResponse m \<longleftrightarrow>
       length (AppQueryClusterInfoResp_info m) = sizeof_ubsmemClusterInfo"

interpretation AppQueryClusterInfoResponse: codec Deserialize_AppQueryClusterInfoResponse Serialize_AppQueryClusterInfoResponse fits_AppQueryClusterInfoResponse
  by (rule codecI, unfold Deserialize_AppQueryClusterInfoResponse_def, intro reader_intros)
    (simp_all add: Serialize_AppQueryClusterInfoResponse_def fits_AppQueryClusterInfoResponse_def codec_simps)

subsection \<open>\<^verbatim>\<open>AppQueryCachedMemoryResponse\<close>\<close>

record AppQueryCachedMemoryResponse = MsgBase +
  AppQueryCachedMemoryResp_errCode :: u32
  AppQueryCachedMemoryResp_records :: "string list"

definition new_AppQueryCachedMemoryResponse :: AppQueryCachedMemoryResponse where
  "new_AppQueryCachedMemoryResponse = \<lparr>msgVer = 0, opCode = MXM_MSG_BUTT, destRankId = 0,
       AppQueryCachedMemoryResp_errCode = word_of_int UBSM_ERR_UNIMPL,
       AppQueryCachedMemoryResp_records = []\<rparr>"

definition Serialize_AppQueryCachedMemoryResponse :: "AppQueryCachedMemoryResponse \<Rightarrow> string" where
  "Serialize_AppQueryCachedMemoryResponse m = put_pod (msgVer m) @ put_pod (opCode m) @ put_pod (destRankId m) @
       put_pod (AppQueryCachedMemoryResp_errCode m) @
       put_vector put_string (AppQueryCachedMemoryResp_records m)"

definition Deserialize_AppQueryCachedMemoryResponse :: "AppQueryCachedMemoryResponse unpack" where
  "Deserialize_AppQueryCachedMemoryResponse = do {
     v_msgVer \<leftarrow> get_pod;
     v_opCode \<leftarrow> get_pod;
     v_destRankId \<leftarrow> get_pod;
     v_errCode \<leftarrow> get_pod;
     v_records \<leftarrow> get_vector get_string;
     return \<lparr>msgVer = v_msgVer, opCode = v_opCode, destRankId = v_destRankId,
       AppQueryCachedMemoryResp_errCode = v_errCode, AppQueryCachedMemoryResp_records = v_records\<rparr> }"

definition fits_AppQueryCachedMemoryResponse :: "AppQueryCachedMemoryResponse \<Rightarrow> bool" where
  "fits_AppQueryCachedMemoryResponse m \<longleftrightarrow> names_fit (AppQueryCachedMemoryResp_records m)"

interpretation AppQueryCachedMemoryResponse: codec Deserialize_AppQueryCachedMemoryResponse Serialize_AppQueryCachedMemoryResponse fits_AppQueryCachedMemoryResponse
  by (rule codecI, unfold Deserialize_AppQueryCachedMemoryResponse_def, intro reader_intros)
    (simp_all add: Serialize_AppQueryCachedMemoryResponse_def fits_AppQueryCachedMemoryResponse_def codec_simps)

subsection \<open>\<^verbatim>\<open>QueryNodeRequest\<close>\<close>

record QueryNodeRequest = MsgBase +
  QueryNodeReq_queryMasterNodeFlag :: bool

definition new_QueryNodeRequest :: QueryNodeRequest where
  "new_QueryNodeRequest = \<lparr>msgVer = 0, opCode = IPC_RACKMEMSHM_QUERY_NODE, destRankId = 0,
       QueryNodeReq_queryMasterNodeFlag = False\<rparr>"

definition Serialize_QueryNodeRequest :: "QueryNodeRequest \<Rightarrow> string" where
  "Serialize_QueryNodeRequest m = put_pod (msgVer m) @ put_pod (opCode m) @ put_pod (destRankId m) @
       put_bool (QueryNodeReq_queryMasterNodeFlag m)"

definition Deserialize_QueryNodeRequest :: "QueryNodeRequest unpack" where
  "Deserialize_QueryNodeRequest = do {
     v_msgVer \<leftarrow> get_pod;
     v_opCode \<leftarrow> get_pod;
     v_destRankId \<leftarrow> get_pod;
     v_queryMasterNodeFlag \<leftarrow> get_bool;
     return \<lparr>msgVer = v_msgVer, opCode = v_opCode, destRankId = v_destRankId,
       QueryNodeReq_queryMasterNodeFlag = v_queryMasterNodeFlag\<rparr> }"

definition fits_QueryNodeRequest :: "QueryNodeRequest \<Rightarrow> bool" where
  "fits_QueryNodeRequest m \<longleftrightarrow> True"

interpretation QueryNodeRequest: codec Deserialize_QueryNodeRequest Serialize_QueryNodeRequest fits_QueryNodeRequest
  by (rule codecI, unfold Deserialize_QueryNodeRequest_def, intro reader_intros)
    (simp_all add: Serialize_QueryNodeRequest_def fits_QueryNodeRequest_def codec_simps)

subsection \<open>\<^verbatim>\<open>QueryNodeResponse\<close>\<close>

record QueryNodeResponse = MsgBase +
  QueryNodeResp_errCode :: u32
  QueryNodeResp_nodeId :: string
  QueryNodeResp_nodeIsReady :: bool

definition new_QueryNodeResponse :: QueryNodeResponse where
  "new_QueryNodeResponse = \<lparr>msgVer = 0, opCode = MXM_MSG_BUTT, destRankId = 0,
       QueryNodeResp_errCode = word_of_int UBSM_ERR_UNIMPL, QueryNodeResp_nodeId = [],
       QueryNodeResp_nodeIsReady = False\<rparr>"

definition Serialize_QueryNodeResponse :: "QueryNodeResponse \<Rightarrow> string" where
  "Serialize_QueryNodeResponse m = put_pod (msgVer m) @ put_pod (opCode m) @ put_pod (destRankId m) @
       put_pod (QueryNodeResp_errCode m) @ put_string (QueryNodeResp_nodeId m) @
       put_bool (QueryNodeResp_nodeIsReady m)"

definition Deserialize_QueryNodeResponse :: "QueryNodeResponse unpack" where
  "Deserialize_QueryNodeResponse = do {
     v_msgVer \<leftarrow> get_pod;
     v_opCode \<leftarrow> get_pod;
     v_destRankId \<leftarrow> get_pod;
     v_errCode \<leftarrow> get_pod;
     v_nodeId \<leftarrow> get_string;
     v_nodeIsReady \<leftarrow> get_bool;
     return \<lparr>msgVer = v_msgVer, opCode = v_opCode, destRankId = v_destRankId,
       QueryNodeResp_errCode = v_errCode, QueryNodeResp_nodeId = v_nodeId,
       QueryNodeResp_nodeIsReady = v_nodeIsReady\<rparr> }"

definition fits_QueryNodeResponse :: "QueryNodeResponse \<Rightarrow> bool" where
  "fits_QueryNodeResponse m \<longleftrightarrow> length (QueryNodeResp_nodeId m) \<le> MAX_ALLOWED_SIZE"

interpretation QueryNodeResponse: codec Deserialize_QueryNodeResponse Serialize_QueryNodeResponse fits_QueryNodeResponse
  by (rule codecI, unfold Deserialize_QueryNodeResponse_def, intro reader_intros)
    (simp_all add: Serialize_QueryNodeResponse_def fits_QueryNodeResponse_def codec_simps)

subsection \<open>\<^verbatim>\<open>QueryDlockStatusResponse\<close>\<close>

record QueryDlockStatusResponse = MsgBase +
  QueryDlockStatusResp_errCode :: u32
  QueryDlockStatusResp_isReady :: bool

definition new_QueryDlockStatusResponse :: QueryDlockStatusResponse where
  "new_QueryDlockStatusResponse = \<lparr>msgVer = 0, opCode = MXM_MSG_BUTT, destRankId = 0,
       QueryDlockStatusResp_errCode = word_of_int UBSM_ERR_UNIMPL, QueryDlockStatusResp_isReady = False\<rparr>"

definition Serialize_QueryDlockStatusResponse :: "QueryDlockStatusResponse \<Rightarrow> string" where
  "Serialize_QueryDlockStatusResponse m = put_pod (msgVer m) @ put_pod (opCode m) @ put_pod (destRankId m) @
       put_pod (QueryDlockStatusResp_errCode m) @ put_bool (QueryDlockStatusResp_isReady m)"

definition Deserialize_QueryDlockStatusResponse :: "QueryDlockStatusResponse unpack" where
  "Deserialize_QueryDlockStatusResponse = do {
     v_msgVer \<leftarrow> get_pod;
     v_opCode \<leftarrow> get_pod;
     v_destRankId \<leftarrow> get_pod;
     v_errCode \<leftarrow> get_pod;
     v_isReady \<leftarrow> get_bool;
     return \<lparr>msgVer = v_msgVer, opCode = v_opCode, destRankId = v_destRankId,
       QueryDlockStatusResp_errCode = v_errCode, QueryDlockStatusResp_isReady = v_isReady\<rparr> }"

definition fits_QueryDlockStatusResponse :: "QueryDlockStatusResponse \<Rightarrow> bool" where
  "fits_QueryDlockStatusResponse m \<longleftrightarrow> True"

interpretation QueryDlockStatusResponse: codec Deserialize_QueryDlockStatusResponse Serialize_QueryDlockStatusResponse fits_QueryDlockStatusResponse
  by (rule codecI, unfold Deserialize_QueryDlockStatusResponse_def, intro reader_intros)
    (simp_all add: Serialize_QueryDlockStatusResponse_def fits_QueryDlockStatusResponse_def codec_simps)

subsection \<open>\<^verbatim>\<open>LookupSlotIdResponse\<close>\<close>

record LookupSlotIdResponse = MsgBase +
  LookupSlotIdResp_errCode :: u32
  LookupSlotIdResp_slotId :: u32

definition new_LookupSlotIdResponse :: LookupSlotIdResponse where
  "new_LookupSlotIdResponse = \<lparr>msgVer = 0, opCode = MXM_MSG_BUTT, destRankId = 0,
       LookupSlotIdResp_errCode = word_of_int UBSM_ERR_UNIMPL, LookupSlotIdResp_slotId = 0\<rparr>"

definition Serialize_LookupSlotIdResponse :: "LookupSlotIdResponse \<Rightarrow> string" where
  "Serialize_LookupSlotIdResponse m = put_pod (msgVer m) @ put_pod (opCode m) @ put_pod (destRankId m) @
       put_pod (LookupSlotIdResp_errCode m) @ put_pod (LookupSlotIdResp_slotId m)"

definition Deserialize_LookupSlotIdResponse :: "LookupSlotIdResponse unpack" where
  "Deserialize_LookupSlotIdResponse = do {
     v_msgVer \<leftarrow> get_pod;
     v_opCode \<leftarrow> get_pod;
     v_destRankId \<leftarrow> get_pod;
     v_errCode \<leftarrow> get_pod;
     v_slotId \<leftarrow> get_pod;
     return \<lparr>msgVer = v_msgVer, opCode = v_opCode, destRankId = v_destRankId,
       LookupSlotIdResp_errCode = v_errCode, LookupSlotIdResp_slotId = v_slotId\<rparr> }"

definition fits_LookupSlotIdResponse :: "LookupSlotIdResponse \<Rightarrow> bool" where
  "fits_LookupSlotIdResponse m \<longleftrightarrow> True"

interpretation LookupSlotIdResponse: codec Deserialize_LookupSlotIdResponse Serialize_LookupSlotIdResponse fits_LookupSlotIdResponse
  by (rule codecI, unfold Deserialize_LookupSlotIdResponse_def, intro reader_intros)
    (simp_all add: Serialize_LookupSlotIdResponse_def fits_LookupSlotIdResponse_def codec_simps)

subsection \<open>\<^verbatim>\<open>IpcSuspendRequest\<close>\<close>

type_synonym IpcSuspendRequest = MsgBase

definition new_IpcSuspendRequest :: IpcSuspendRequest where
  "new_IpcSuspendRequest = \<lparr>msgVer = 0, opCode = IPC_SUSPEND_CLIENT, destRankId = 0\<rparr>"

definition Serialize_IpcSuspendRequest :: "IpcSuspendRequest \<Rightarrow> string" where
  "Serialize_IpcSuspendRequest m = put_pod (msgVer m) @ put_pod (opCode m) @ put_pod (destRankId m)"

definition Deserialize_IpcSuspendRequest :: "IpcSuspendRequest unpack" where
  "Deserialize_IpcSuspendRequest = do {
     v_msgVer \<leftarrow> get_pod;
     v_opCode \<leftarrow> get_pod;
     v_destRankId \<leftarrow> get_pod;
     return \<lparr>msgVer = v_msgVer, opCode = v_opCode, destRankId = v_destRankId\<rparr> }"

definition fits_IpcSuspendRequest :: "IpcSuspendRequest \<Rightarrow> bool" where
  "fits_IpcSuspendRequest m \<longleftrightarrow> True"

interpretation IpcSuspendRequest: codec Deserialize_IpcSuspendRequest Serialize_IpcSuspendRequest fits_IpcSuspendRequest
  by (rule codecI, unfold Deserialize_IpcSuspendRequest_def, intro reader_intros)
    (simp_all add: Serialize_IpcSuspendRequest_def fits_IpcSuspendRequest_def codec_simps)

subsection \<open>\<^verbatim>\<open>IpcResumeRequest\<close>\<close>

type_synonym IpcResumeRequest = MsgBase

definition new_IpcResumeRequest :: IpcResumeRequest where
  "new_IpcResumeRequest = \<lparr>msgVer = 0, opCode = IPC_RESUME_CLIENT, destRankId = 0\<rparr>"

definition Serialize_IpcResumeRequest :: "IpcResumeRequest \<Rightarrow> string" where
  "Serialize_IpcResumeRequest m = put_pod (msgVer m) @ put_pod (opCode m) @ put_pod (destRankId m)"

definition Deserialize_IpcResumeRequest :: "IpcResumeRequest unpack" where
  "Deserialize_IpcResumeRequest = do {
     v_msgVer \<leftarrow> get_pod;
     v_opCode \<leftarrow> get_pod;
     v_destRankId \<leftarrow> get_pod;
     return \<lparr>msgVer = v_msgVer, opCode = v_opCode, destRankId = v_destRankId\<rparr> }"

definition fits_IpcResumeRequest :: "IpcResumeRequest \<Rightarrow> bool" where
  "fits_IpcResumeRequest m \<longleftrightarrow> True"

interpretation IpcResumeRequest: codec Deserialize_IpcResumeRequest Serialize_IpcResumeRequest fits_IpcResumeRequest
  by (rule codecI, unfold Deserialize_IpcResumeRequest_def, intro reader_intros)
    (simp_all add: Serialize_IpcResumeRequest_def fits_IpcResumeRequest_def codec_simps)

end
