(* ===== verification/Messages_Rpc.thy ===== *)
theory Messages_Rpc
  imports Message_Types
begin

text \<open>
  The messages of \<^verbatim>\<open>mxm_message/mxm_msg.h\<close> for discovery, election and distributed locks between daemons.  For each struct: its fields, the
  object its default constructor makes, its methods \<^verbatim>\<open>Serialize\<close> and \<^verbatim>\<open>Deserialize\<close>, the values that
  survive the wire (\<open>fits\<close>), and the proof that the two methods are a \<^const>\<open>codec\<close>.
\<close>

section \<open>Messages\<close>

subsection \<open>\<^verbatim>\<open>PingRequest\<close>\<close>

record PingRequest = MsgBase +
  PingReq_nodeId :: string

definition new_PingRequest :: PingRequest where
  "new_PingRequest = \<lparr>msgVer = 0, opCode = MXM_MSG_SHM_ALLOCATE, destRankId = 0,
       PingReq_nodeId = []\<rparr>"

definition Serialize_PingRequest :: "PingRequest \<Rightarrow> string" where
  "Serialize_PingRequest m = put_pod (msgVer m) @ put_pod (opCode m) @ put_pod (destRankId m) @
       put_string (PingReq_nodeId m)"

definition Deserialize_PingRequest :: "PingRequest unpack" where
  "Deserialize_PingRequest = do {
     v_msgVer \<leftarrow> get_pod;
     v_opCode \<leftarrow> get_pod;
     v_destRankId \<leftarrow> get_pod;
     v_nodeId \<leftarrow> get_string;
     return \<lparr>msgVer = v_msgVer, opCode = v_opCode, destRankId = v_destRankId,
       PingReq_nodeId = v_nodeId\<rparr> }"

definition fits_PingRequest :: "PingRequest \<Rightarrow> bool" where
  "fits_PingRequest m \<longleftrightarrow> length (PingReq_nodeId m) \<le> MAX_ALLOWED_SIZE"

interpretation PingRequest: codec Deserialize_PingRequest Serialize_PingRequest fits_PingRequest
  by (rule codecI, unfold Deserialize_PingRequest_def, intro reader_intros)
    (simp_all add: Serialize_PingRequest_def fits_PingRequest_def codec_simps)

subsection \<open>\<^verbatim>\<open>VoteRequest\<close>\<close>

record VoteRequest = MsgBase +
  VoteReq_nodeId :: string
  VoteReq_masterNode :: string
  VoteReq_term :: u32

definition new_VoteRequest :: VoteRequest where
  "new_VoteRequest = \<lparr>msgVer = 0, opCode = MXM_MSG_SHM_ALLOCATE, destRankId = 0, VoteReq_nodeId = [],
       VoteReq_masterNode = [], VoteReq_term = 0\<rparr>"

definition Serialize_VoteRequest :: "VoteRequest \<Rightarrow> string" where
  "Serialize_VoteRequest m = put_pod (msgVer m) @ put_pod (opCode m) @ put_pod (destRankId m) @
       put_string (VoteReq_nodeId m) @ put_string (VoteReq_masterNode m) @ put_pod (VoteReq_term m)"

definition Deserialize_VoteRequest :: "VoteRequest unpack" where
  "Deserialize_VoteRequest = do {
     v_msgVer \<leftarrow> get_pod;
     v_opCode \<leftarrow> get_pod;
     v_destRankId \<leftarrow> get_pod;
     v_nodeId \<leftarrow> get_string;
     v_masterNode \<leftarrow> get_string;
     v_term \<leftarrow> get_pod;
     return \<lparr>msgVer = v_msgVer, opCode = v_opCode, destRankId = v_destRankId, VoteReq_nodeId = v_nodeId,
       VoteReq_masterNode = v_masterNode, VoteReq_term = v_term\<rparr> }"

definition fits_VoteRequest :: "VoteRequest \<Rightarrow> bool" where
  "fits_VoteRequest m \<longleftrightarrow> length (VoteReq_nodeId m) \<le> MAX_ALLOWED_SIZE \<and>
       length (VoteReq_masterNode m) \<le> MAX_ALLOWED_SIZE"

interpretation VoteRequest: codec Deserialize_VoteRequest Serialize_VoteRequest fits_VoteRequest
  by (rule codecI, unfold Deserialize_VoteRequest_def, intro reader_intros)
    (simp_all add: Serialize_VoteRequest_def fits_VoteRequest_def codec_simps)

subsection \<open>\<^verbatim>\<open>BroadcastRequest\<close>\<close>

record BroadcastRequest = MsgBase +
  BroadcastReq_nodeId :: string
  BroadcastReq_isSeverInited :: bool
  BroadcastReq_nodes :: "(string \<times> ClusterNode) list"

definition new_BroadcastRequest :: BroadcastRequest where
  "new_BroadcastRequest = \<lparr>msgVer = 0, opCode = MXM_MSG_SHM_ALLOCATE, destRankId = 0,
       BroadcastReq_nodeId = [], BroadcastReq_isSeverInited = False, BroadcastReq_nodes = []\<rparr>"

definition Serialize_BroadcastRequest :: "BroadcastRequest \<Rightarrow> string" where
  "Serialize_BroadcastRequest m = put_pod (msgVer m) @ put_pod (opCode m) @ put_pod (destRankId m) @
       put_string (BroadcastReq_nodeId m) @ put_map put_string put_ClusterNode (BroadcastReq_nodes m) @
       put_bool (BroadcastReq_isSeverInited m)"

definition Deserialize_BroadcastRequest :: "BroadcastRequest unpack" where
  "Deserialize_BroadcastRequest = do {
     v_msgVer \<leftarrow> get_pod;
     v_opCode \<leftarrow> get_pod;
     v_destRankId \<leftarrow> get_pod;
     v_nodeId \<leftarrow> get_string;
     v_nodes \<leftarrow> get_map get_string (get_ClusterNode new_ClusterNode);
     v_isSeverInited \<leftarrow> get_bool;
     return \<lparr>msgVer = v_msgVer, opCode = v_opCode, destRankId = v_destRankId,
       BroadcastReq_nodeId = v_nodeId, BroadcastReq_isSeverInited = v_isSeverInited,
       BroadcastReq_nodes = v_nodes\<rparr> }"

definition fits_BroadcastRequest :: "BroadcastRequest \<Rightarrow> bool" where
  "fits_BroadcastRequest m \<longleftrightarrow> length (BroadcastReq_nodeId m) \<le> MAX_ALLOWED_SIZE \<and>
       nodes_fit (BroadcastReq_nodes m)"

interpretation BroadcastRequest: codec Deserialize_BroadcastRequest Serialize_BroadcastRequest fits_BroadcastRequest
  by (rule codecI, unfold Deserialize_BroadcastRequest_def, intro reader_intros)
    (simp_all add: Serialize_BroadcastRequest_def fits_BroadcastRequest_def codec_simps)

subsection \<open>\<^verbatim>\<open>TransElectedRequest\<close>\<close>

record TransElectedRequest = MsgBase +
  TransElectedReq_nodeId :: string
  TransElectedReq_nodes :: "string list"
  TransElectedReq_term :: u32

definition new_TransElectedRequest :: TransElectedRequest where
  "new_TransElectedRequest = \<lparr>msgVer = 0, opCode = MXM_MSG_SHM_ALLOCATE, destRankId = 0,
       TransElectedReq_nodeId = [], TransElectedReq_nodes = [], TransElectedReq_term = 0\<rparr>"

definition Serialize_TransElectedRequest :: "TransElectedRequest \<Rightarrow> string" where
  "Serialize_TransElectedRequest m = put_pod (msgVer m) @ put_pod (opCode m) @ put_pod (destRankId m) @
       put_string (TransElectedReq_nodeId m) @ put_vector put_string (TransElectedReq_nodes m) @
       put_pod (TransElectedReq_term m)"

definition Deserialize_TransElectedRequest :: "TransElectedRequest unpack" where
  "Deserialize_TransElectedRequest = do {
     v_msgVer \<leftarrow> get_pod;
     v_opCode \<leftarrow> get_pod;
     v_destRankId \<leftarrow> get_pod;
     v_nodeId \<leftarrow> get_string;
     v_nodes \<leftarrow> get_vector get_string;
     v_term \<leftarrow> get_pod;
     return \<lparr>msgVer = v_msgVer, opCode = v_opCode, destRankId = v_destRankId,
       TransElectedReq_nodeId = v_nodeId, TransElectedReq_nodes = v_nodes,
       TransElectedReq_term = v_term\<rparr> }"

definition fits_TransElectedRequest :: "TransElectedRequest \<Rightarrow> bool" where
  "fits_TransElectedRequest m \<longleftrightarrow>
       length (TransElectedReq_nodeId m) \<le> MAX_ALLOWED_SIZE \<and> names_fit (TransElectedReq_nodes m)"

interpretation TransElectedRequest: codec Deserialize_TransElectedRequest Serialize_TransElectedRequest fits_TransElectedRequest
  by (rule codecI, unfold Deserialize_TransElectedRequest_def, intro reader_intros)
    (simp_all add: Serialize_TransElectedRequest_def fits_TransElectedRequest_def codec_simps)

subsection \<open>\<^verbatim>\<open>RpcQueryInfoResponse\<close>\<close>

record RpcQueryInfoResponse = MsgBase +
  RpcQueryInfoResp_errCode :: u32
  RpcQueryInfoResp_name :: string

definition new_RpcQueryInfoResponse :: RpcQueryInfoResponse where
  "new_RpcQueryInfoResponse = \<lparr>msgVer = 0, opCode = MXM_MSG_BUTT, destRankId = 0,
       RpcQueryInfoResp_errCode = word_of_int UBSM_ERR_UNIMPL, RpcQueryInfoResp_name = []\<rparr>"

definition Serialize_RpcQueryInfoResponse :: "RpcQueryInfoResponse \<Rightarrow> string" where
  "Serialize_RpcQueryInfoResponse m = put_pod (msgVer m) @ put_pod (opCode m) @ put_pod (destRankId m) @
       put_pod (RpcQueryInfoResp_errCode m) @ put_string (RpcQueryInfoResp_name m)"

definition Deserialize_RpcQueryInfoResponse :: "RpcQueryInfoResponse unpack" where
  "Deserialize_RpcQueryInfoResponse = do {
     v_msgVer \<leftarrow> get_pod;
     v_opCode \<leftarrow> get_pod;
     v_destRankId \<leftarrow> get_pod;
     v_errCode \<leftarrow> get_pod;
     v_name \<leftarrow> get_string;
     return \<lparr>msgVer = v_msgVer, opCode = v_opCode, destRankId = v_destRankId,
       RpcQueryInfoResp_errCode = v_errCode, RpcQueryInfoResp_name = v_name\<rparr> }"

definition fits_RpcQueryInfoResponse :: "RpcQueryInfoResponse \<Rightarrow> bool" where
  "fits_RpcQueryInfoResponse m \<longleftrightarrow> length (RpcQueryInfoResp_name m) \<le> MAX_ALLOWED_SIZE"

interpretation RpcQueryInfoResponse: codec Deserialize_RpcQueryInfoResponse Serialize_RpcQueryInfoResponse fits_RpcQueryInfoResponse
  by (rule codecI, unfold Deserialize_RpcQueryInfoResponse_def, intro reader_intros)
    (simp_all add: Serialize_RpcQueryInfoResponse_def fits_RpcQueryInfoResponse_def codec_simps)

subsection \<open>\<^verbatim>\<open>DLockClientReinitRequest\<close>\<close>

record DLockClientReinitRequest = MsgBase +
  DLockClientReinitReq_serverIp :: string

definition new_DLockClientReinitRequest :: DLockClientReinitRequest where
  "new_DLockClientReinitRequest = \<lparr>msgVer = 0, opCode = MXM_MSG_BUTT, destRankId = 0,
       DLockClientReinitReq_serverIp = []\<rparr>"

definition Serialize_DLockClientReinitRequest :: "DLockClientReinitRequest \<Rightarrow> string" where
  "Serialize_DLockClientReinitRequest m = put_pod (msgVer m) @ put_pod (opCode m) @ put_pod (destRankId m) @
       put_string (DLockClientReinitReq_serverIp m)"

definition Deserialize_DLockClientReinitRequest :: "DLockClientReinitRequest unpack" where
  "Deserialize_DLockClientReinitRequest = do {
     v_msgVer \<leftarrow> get_pod;
     v_opCode \<leftarrow> get_pod;
     v_destRankId \<leftarrow> get_pod;
     v_serverIp \<leftarrow> get_string;
     return \<lparr>msgVer = v_msgVer, opCode = v_opCode, destRankId = v_destRankId,
       DLockClientReinitReq_serverIp = v_serverIp\<rparr> }"

definition fits_DLockClientReinitRequest :: "DLockClientReinitRequest \<Rightarrow> bool" where
  "fits_DLockClientReinitRequest m \<longleftrightarrow>
       length (DLockClientReinitReq_serverIp m) \<le> MAX_ALLOWED_SIZE"

interpretation DLockClientReinitRequest: codec Deserialize_DLockClientReinitRequest Serialize_DLockClientReinitRequest fits_DLockClientReinitRequest
  by (rule codecI, unfold Deserialize_DLockClientReinitRequest_def, intro reader_intros)
    (simp_all add: Serialize_DLockClientReinitRequest_def fits_DLockClientReinitRequest_def codec_simps)

subsection \<open>\<^verbatim>\<open>DLockClientReinitResponse\<close>\<close>

record DLockClientReinitResponse = MsgBase +
  DLockClientReinitResp_errCode :: u32
  DLockClientReinitResp_dLockCode :: u32

definition new_DLockClientReinitResponse :: DLockClientReinitResponse where
  "new_DLockClientReinitResponse = \<lparr>msgVer = 0, opCode = MXM_MSG_BUTT, destRankId = 0,
       DLockClientReinitResp_errCode = word_of_int UBSM_ERR_UNIMPL, DLockClientReinitResp_dLockCode = 0\<rparr>"

definition Serialize_DLockClientReinitResponse :: "DLockClientReinitResponse \<Rightarrow> string" where
  "Serialize_DLockClientReinitResponse m = put_pod (msgVer m) @ put_pod (opCode m) @ put_pod (destRankId m) @
       put_pod (DLockClientReinitResp_errCode m) @ put_pod (DLockClientReinitResp_dLockCode m)"

definition Deserialize_DLockClientReinitResponse :: "DLockClientReinitResponse unpack" where
  "Deserialize_DLockClientReinitResponse = do {
     v_msgVer \<leftarrow> get_pod;
     v_opCode \<leftarrow> get_pod;
     v_destRankId \<leftarrow> get_pod;
     v_errCode \<leftarrow> get_pod;
     v_dLockCode \<leftarrow> get_pod;
     return \<lparr>msgVer = v_msgVer, opCode = v_opCode, destRankId = v_destRankId,
       DLockClientReinitResp_errCode = v_errCode, DLockClientReinitResp_dLockCode = v_dLockCode\<rparr> }"

definition fits_DLockClientReinitResponse :: "DLockClientReinitResponse \<Rightarrow> bool" where
  "fits_DLockClientReinitResponse m \<longleftrightarrow> True"

interpretation DLockClientReinitResponse: codec Deserialize_DLockClientReinitResponse Serialize_DLockClientReinitResponse fits_DLockClientReinitResponse
  by (rule codecI, unfold Deserialize_DLockClientReinitResponse_def, intro reader_intros)
    (simp_all add: Serialize_DLockClientReinitResponse_def fits_DLockClientReinitResponse_def codec_simps)

subsection \<open>\<^verbatim>\<open>LockRequest\<close>\<close>

record LockRequest = MsgBase +
  LockReq_memName :: string
  LockReq_isExclusive :: bool
  LockReq_pid :: u32
  LockReq_uid :: u32
  LockReq_gid :: u32

definition new_LockRequest :: LockRequest where
  "new_LockRequest = \<lparr>msgVer = 0, opCode = MXM_MSG_BUTT, destRankId = 0, LockReq_memName = [],
       LockReq_isExclusive = False, LockReq_pid = 0, LockReq_uid = 0, LockReq_gid = 0\<rparr>"

definition Serialize_LockRequest :: "LockRequest \<Rightarrow> string" where
  "Serialize_LockRequest m = put_pod (msgVer m) @ put_pod (opCode m) @ put_pod (destRankId m) @
       put_string (LockReq_memName m) @ put_bool (LockReq_isExclusive m) @ put_pod (LockReq_pid m) @
       put_pod (LockReq_uid m) @ put_pod (LockReq_gid m)"

definition Deserialize_LockRequest :: "LockRequest unpack" where
  "Deserialize_LockRequest = do {
     v_msgVer \<leftarrow> get_pod;
     v_opCode \<leftarrow> get_pod;
     v_destRankId \<leftarrow> get_pod;
     v_memName \<leftarrow> get_string;
     v_isExclusive \<leftarrow> get_bool;
     v_pid \<leftarrow> get_pod;
     v_uid \<leftarrow> get_pod;
     v_gid \<leftarrow> get_pod;
     return \<lparr>msgVer = v_msgVer, opCode = v_opCode, destRankId = v_destRankId, LockReq_memName = v_memName,
       LockReq_isExclusive = v_isExclusive, LockReq_pid = v_pid, LockReq_uid = v_uid,
       LockReq_gid = v_gid\<rparr> }"

definition fits_LockRequest :: "LockRequest \<Rightarrow> bool" where
  "fits_LockRequest m \<longleftrightarrow> length (LockReq_memName m) \<le> MAX_ALLOWED_SIZE"

interpretation LockRequest: codec Deserialize_LockRequest Serialize_LockRequest fits_LockRequest
  by (rule codecI, unfold Deserialize_LockRequest_def, intro reader_intros)
    (simp_all add: Serialize_LockRequest_def fits_LockRequest_def codec_simps)

subsection \<open>\<^verbatim>\<open>UnLockRequest\<close>\<close>

record UnLockRequest = MsgBase +
  UnLockReq_memName :: string
  UnLockReq_pid :: u32
  UnLockReq_uid :: u32
  UnLockReq_gid :: u32

definition new_UnLockRequest :: UnLockRequest where
  "new_UnLockRequest = \<lparr>msgVer = 0, opCode = MXM_MSG_BUTT, destRankId = 0, UnLockReq_memName = [],
       UnLockReq_pid = 0, UnLockReq_uid = 0, UnLockReq_gid = 0\<rparr>"

definition Serialize_UnLockRequest :: "UnLockRequest \<Rightarrow> string" where
  "Serialize_UnLockRequest m = put_pod (msgVer m) @ put_pod (opCode m) @ put_pod (destRankId m) @
       put_string (UnLockReq_memName m) @ put_pod (UnLockReq_pid m) @ put_pod (UnLockReq_uid m) @
       put_pod (UnLockReq_gid m)"

definition Deserialize_UnLockRequest :: "UnLockRequest unpack" where
  "Deserialize_UnLockRequest = do {
     v_msgVer \<leftarrow> get_pod;
     v_opCode \<leftarrow> get_pod;
     v_destRankId \<leftarrow> get_pod;
     v_memName \<leftarrow> get_string;
     v_pid \<leftarrow> get_pod;
     v_uid \<leftarrow> get_pod;
     v_gid \<leftarrow> get_pod;
     return \<lparr>msgVer = v_msgVer, opCode = v_opCode, destRankId = v_destRankId, UnLockReq_memName = v_memName,
       UnLockReq_pid = v_pid, UnLockReq_uid = v_uid, UnLockReq_gid = v_gid\<rparr> }"

definition fits_UnLockRequest :: "UnLockRequest \<Rightarrow> bool" where
  "fits_UnLockRequest m \<longleftrightarrow> length (UnLockReq_memName m) \<le> MAX_ALLOWED_SIZE"

interpretation UnLockRequest: codec Deserialize_UnLockRequest Serialize_UnLockRequest fits_UnLockRequest
  by (rule codecI, unfold Deserialize_UnLockRequest_def, intro reader_intros)
    (simp_all add: Serialize_UnLockRequest_def fits_UnLockRequest_def codec_simps)

subsection \<open>\<^verbatim>\<open>DLockResponse\<close>\<close>

record DLockResponse = MsgBase +
  DLockResp_errCode :: u32
  DLockResp_dLockCode :: u32

definition new_DLockResponse :: DLockResponse where
  "new_DLockResponse = \<lparr>msgVer = 0, opCode = MXM_MSG_BUTT, destRankId = 0,
       DLockResp_errCode = word_of_int UBSM_ERR_UNIMPL, DLockResp_dLockCode = 0\<rparr>"

definition Serialize_DLockResponse :: "DLockResponse \<Rightarrow> string" where
  "Serialize_DLockResponse m = put_pod (msgVer m) @ put_pod (opCode m) @ put_pod (destRankId m) @
       put_pod (DLockResp_errCode m) @ put_pod (DLockResp_dLockCode m)"

definition Deserialize_DLockResponse :: "DLockResponse unpack" where
  "Deserialize_DLockResponse = do {
     v_msgVer \<leftarrow> get_pod;
     v_opCode \<leftarrow> get_pod;
     v_destRankId \<leftarrow> get_pod;
     v_errCode \<leftarrow> get_pod;
     v_dLockCode \<leftarrow> get_pod;
     return \<lparr>msgVer = v_msgVer, opCode = v_opCode, destRankId = v_destRankId, DLockResp_errCode = v_errCode,
       DLockResp_dLockCode = v_dLockCode\<rparr> }"

definition fits_DLockResponse :: "DLockResponse \<Rightarrow> bool" where
  "fits_DLockResponse m \<longleftrightarrow> True"

interpretation DLockResponse: codec Deserialize_DLockResponse Serialize_DLockResponse fits_DLockResponse
  by (rule codecI, unfold Deserialize_DLockResponse_def, intro reader_intros)
    (simp_all add: Serialize_DLockResponse_def fits_DLockResponse_def codec_simps)

subsection \<open>\<^verbatim>\<open>RpcJoinInfoResponse\<close>\<close>

record RpcJoinInfoResponse = MsgBase +
  RpcJoinInfoResp_errCode :: u32
  RpcJoinInfoResp_nodetype :: u32

definition new_RpcJoinInfoResponse :: RpcJoinInfoResponse where
  "new_RpcJoinInfoResponse = \<lparr>msgVer = 0, opCode = MXM_MSG_BUTT, destRankId = 0,
       RpcJoinInfoResp_errCode = word_of_int UBSM_ERR_UNIMPL, RpcJoinInfoResp_nodetype = 0\<rparr>"

definition Serialize_RpcJoinInfoResponse :: "RpcJoinInfoResponse \<Rightarrow> string" where
  "Serialize_RpcJoinInfoResponse m = put_pod (msgVer m) @ put_pod (opCode m) @ put_pod (destRankId m) @
       put_pod (RpcJoinInfoResp_errCode m) @ put_pod (RpcJoinInfoResp_nodetype m)"

definition Deserialize_RpcJoinInfoResponse :: "RpcJoinInfoResponse unpack" where
  "Deserialize_RpcJoinInfoResponse = do {
     v_msgVer \<leftarrow> get_pod;
     v_opCode \<leftarrow> get_pod;
     v_destRankId \<leftarrow> get_pod;
     v_errCode \<leftarrow> get_pod;
     v_nodetype \<leftarrow> get_pod;
     return \<lparr>msgVer = v_msgVer, opCode = v_opCode, destRankId = v_destRankId,
       RpcJoinInfoResp_errCode = v_errCode, RpcJoinInfoResp_nodetype = v_nodetype\<rparr> }"

definition fits_RpcJoinInfoResponse :: "RpcJoinInfoResponse \<Rightarrow> bool" where
  "fits_RpcJoinInfoResponse m \<longleftrightarrow> True"

interpretation RpcJoinInfoResponse: codec Deserialize_RpcJoinInfoResponse Serialize_RpcJoinInfoResponse fits_RpcJoinInfoResponse
  by (rule codecI, unfold Deserialize_RpcJoinInfoResponse_def, intro reader_intros)
    (simp_all add: Serialize_RpcJoinInfoResponse_def fits_RpcJoinInfoResponse_def codec_simps)

subsection \<open>\<^verbatim>\<open>RpcVoteInfoResponse\<close>\<close>

record RpcVoteInfoResponse = MsgBase +
  RpcVoteInfoResp_errCode :: u32
  RpcVoteInfoResp_name :: string
  RpcVoteInfoResp_isGranted :: bool

definition new_RpcVoteInfoResponse :: RpcVoteInfoResponse where
  "new_RpcVoteInfoResponse = \<lparr>msgVer = 0, opCode = MXM_MSG_BUTT, destRankId = 0,
       RpcVoteInfoResp_errCode = word_of_int UBSM_ERR_UNIMPL, RpcVoteInfoResp_name = [],
       RpcVoteInfoResp_isGranted = False\<rparr>"

definition Serialize_RpcVoteInfoResponse :: "RpcVoteInfoResponse \<Rightarrow> string" where
  "Serialize_RpcVoteInfoResponse m = put_pod (msgVer m) @ put_pod (opCode m) @ put_pod (destRankId m) @
       put_pod (RpcVoteInfoResp_errCode m) @ put_string (RpcVoteInfoResp_name m) @
       put_bool (RpcVoteInfoResp_isGranted m)"

definition Deserialize_RpcVoteInfoResponse :: "RpcVoteInfoResponse unpack" where
  "Deserialize_RpcVoteInfoResponse = do {
     v_msgVer \<leftarrow> get_pod;
     v_opCode \<leftarrow> get_pod;
     v_destRankId \<leftarrow> get_pod;
     v_errCode \<leftarrow> get_pod;
     v_name \<leftarrow> get_string;
     v_isGranted \<leftarrow> get_bool;
     return \<lparr>msgVer = v_msgVer, opCode = v_opCode, destRankId = v_destRankId,
       RpcVoteInfoResp_errCode = v_errCode, RpcVoteInfoResp_name = v_name,
       RpcVoteInfoResp_isGranted = v_isGranted\<rparr> }"

definition fits_RpcVoteInfoResponse :: "RpcVoteInfoResponse \<Rightarrow> bool" where
  "fits_RpcVoteInfoResponse m \<longleftrightarrow> length (RpcVoteInfoResp_name m) \<le> MAX_ALLOWED_SIZE"

interpretation RpcVoteInfoResponse: codec Deserialize_RpcVoteInfoResponse Serialize_RpcVoteInfoResponse fits_RpcVoteInfoResponse
  by (rule codecI, unfold Deserialize_RpcVoteInfoResponse_def, intro reader_intros)
    (simp_all add: Serialize_RpcVoteInfoResponse_def fits_RpcVoteInfoResponse_def codec_simps)

end
