(* ===== verification/Messages_Shm_Req.thy ===== *)
theory Messages_Shm_Req
  imports Message_Types
begin

text \<open>
  The messages of \<^verbatim>\<open>mxm_message/mxm_msg.h\<close> for shared memory and regions, requests.  For each struct: its fields, the
  object its default constructor makes, its methods \<^verbatim>\<open>Serialize\<close> and \<^verbatim>\<open>Deserialize\<close>, the values that
  survive the wire (\<open>fits\<close>), and the proof that the two methods are a \<^const>\<open>codec\<close>.
\<close>

section \<open>Messages\<close>

subsection \<open>\<^verbatim>\<open>ShmLookRegionListRequest\<close>\<close>

record ShmLookRegionListRequest = MsgBase +
  ShmLookRegionListReq_baseNid :: string
  ShmLookRegionListReq_regionType :: u32

definition new_ShmLookRegionListRequest :: ShmLookRegionListRequest where
  "new_ShmLookRegionListRequest = \<lparr>msgVer = 0, opCode = IPC_RACKMEMSHM_LOOKUP_SHAREREGIONS,
       destRankId = 0, ShmLookRegionListReq_baseNid = [], ShmLookRegionListReq_regionType = 0\<rparr>"

definition Serialize_ShmLookRegionListRequest :: "ShmLookRegionListRequest \<Rightarrow> string" where
  "Serialize_ShmLookRegionListRequest m = put_pod (msgVer m) @ put_pod (opCode m) @ put_pod (destRankId m) @
       put_string (ShmLookRegionListReq_baseNid m) @ put_pod (ShmLookRegionListReq_regionType m)"

definition Deserialize_ShmLookRegionListRequest :: "ShmLookRegionListRequest unpack" where
  "Deserialize_ShmLookRegionListRequest = do {
     v_msgVer \<leftarrow> get_pod;
     v_opCode \<leftarrow> get_pod;
     v_destRankId \<leftarrow> get_pod;
     v_baseNid \<leftarrow> get_string;
     v_regionType \<leftarrow> get_pod;
     return \<lparr>msgVer = v_msgVer, opCode = v_opCode, destRankId = v_destRankId,
       ShmLookRegionListReq_baseNid = v_baseNid, ShmLookRegionListReq_regionType = v_regionType\<rparr> }"

definition fits_ShmLookRegionListRequest :: "ShmLookRegionListRequest \<Rightarrow> bool" where
  "fits_ShmLookRegionListRequest m \<longleftrightarrow>
       length (ShmLookRegionListReq_baseNid m) \<le> MAX_ALLOWED_SIZE"

interpretation ShmLookRegionListRequest: codec Deserialize_ShmLookRegionListRequest Serialize_ShmLookRegionListRequest fits_ShmLookRegionListRequest
  by (rule codecI, unfold Deserialize_ShmLookRegionListRequest_def, intro reader_intros)
    (simp_all add: Serialize_ShmLookRegionListRequest_def fits_ShmLookRegionListRequest_def codec_simps)

subsection \<open>\<^verbatim>\<open>ShmCreateRegionRequest\<close>\<close>

record ShmCreateRegionRequest = MsgBase +
  ShmCreateRegionReq_regionName :: string
  ShmCreateRegionReq_region :: string

definition new_ShmCreateRegionRequest :: ShmCreateRegionRequest where
  "new_ShmCreateRegionRequest = \<lparr>msgVer = 0, opCode = IPC_REGION_CREATE_REGION, destRankId = 0,
       ShmCreateRegionReq_regionName = [], ShmCreateRegionReq_region = zero_block sizeof_SHMRegionDesc\<rparr>"

definition Serialize_ShmCreateRegionRequest :: "ShmCreateRegionRequest \<Rightarrow> string" where
  "Serialize_ShmCreateRegionRequest m = put_pod (msgVer m) @ put_pod (opCode m) @ put_pod (destRankId m) @
       put_string (ShmCreateRegionReq_regionName m) @ put_block (ShmCreateRegionReq_region m)"

definition Deserialize_ShmCreateRegionRequest :: "ShmCreateRegionRequest unpack" where
  "Deserialize_ShmCreateRegionRequest = do {
     v_msgVer \<leftarrow> get_pod;
     v_opCode \<leftarrow> get_pod;
     v_destRankId \<leftarrow> get_pod;
     v_regionName \<leftarrow> get_string;
     v_region \<leftarrow> get_block sizeof_SHMRegionDesc;
     return \<lparr>msgVer = v_msgVer, opCode = v_opCode, destRankId = v_destRankId,
       ShmCreateRegionReq_regionName = v_regionName, ShmCreateRegionReq_region = v_region\<rparr> }"

definition fits_ShmCreateRegionRequest :: "ShmCreateRegionRequest \<Rightarrow> bool" where
  "fits_ShmCreateRegionRequest m \<longleftrightarrow>
       length (ShmCreateRegionReq_regionName m) \<le> MAX_ALLOWED_SIZE \<and>
       length (ShmCreateRegionReq_region m) = sizeof_SHMRegionDesc"

interpretation ShmCreateRegionRequest: codec Deserialize_ShmCreateRegionRequest Serialize_ShmCreateRegionRequest fits_ShmCreateRegionRequest
  by (rule codecI, unfold Deserialize_ShmCreateRegionRequest_def, intro reader_intros)
    (simp_all add: Serialize_ShmCreateRegionRequest_def fits_ShmCreateRegionRequest_def codec_simps)

subsection \<open>\<^verbatim>\<open>ShmLookupRegionRequest\<close>\<close>

record ShmLookupRegionRequest = MsgBase +
  ShmLookupRegionReq_regionName :: string

definition new_ShmLookupRegionRequest :: ShmLookupRegionRequest where
  "new_ShmLookupRegionRequest = \<lparr>msgVer = 0, opCode = IPC_REGION_LOOKUP_REGION, destRankId = 0,
       ShmLookupRegionReq_regionName = []\<rparr>"

definition Serialize_ShmLookupRegionRequest :: "ShmLookupRegionRequest \<Rightarrow> string" where
  "Serialize_ShmLookupRegionRequest m = put_pod (msgVer m) @ put_pod (opCode m) @ put_pod (destRankId m) @
       put_string (ShmLookupRegionReq_regionName m)"

definition Deserialize_ShmLookupRegionRequest :: "ShmLookupRegionRequest unpack" where
  "Deserialize_ShmLookupRegionRequest = do {
     v_msgVer \<leftarrow> get_pod;
     v_opCode \<leftarrow> get_pod;
     v_destRankId \<leftarrow> get_pod;
     v_regionName \<leftarrow> get_string;
     return \<lparr>msgVer = v_msgVer, opCode = v_opCode, destRankId = v_destRankId,
       ShmLookupRegionReq_regionName = v_regionName\<rparr> }"

definition fits_ShmLookupRegionRequest :: "ShmLookupRegionRequest \<Rightarrow> bool" where
  "fits_ShmLookupRegionRequest m \<longleftrightarrow>
       length (ShmLookupRegionReq_regionName m) \<le> MAX_ALLOWED_SIZE"

interpretation ShmLookupRegionRequest: codec Deserialize_ShmLookupRegionRequest Serialize_ShmLookupRegionRequest fits_ShmLookupRegionRequest
  by (rule codecI, unfold Deserialize_ShmLookupRegionRequest_def, intro reader_intros)
    (simp_all add: Serialize_ShmLookupRegionRequest_def fits_ShmLookupRegionRequest_def codec_simps)

subsection \<open>\<^verbatim>\<open>ShmDestroyRegionRequest\<close>\<close>

record ShmDestroyRegionRequest = MsgBase +
  ShmDestroyRegionReq_regionName :: string

definition new_ShmDestroyRegionRequest :: ShmDestroyRegionRequest where
  "new_ShmDestroyRegionRequest = \<lparr>msgVer = 0, opCode = IPC_REGION_DESTROY_REGION, destRankId = 0,
       ShmDestroyRegionReq_regionName = []\<rparr>"

definition Serialize_ShmDestroyRegionRequest :: "ShmDestroyRegionRequest \<Rightarrow> string" where
  "Serialize_ShmDestroyRegionRequest m = put_pod (msgVer m) @ put_pod (opCode m) @ put_pod (destRankId m) @
       put_string (ShmDestroyRegionReq_regionName m)"

definition Deserialize_ShmDestroyRegionRequest :: "ShmDestroyRegionRequest unpack" where
  "Deserialize_ShmDestroyRegionRequest = do {
     v_msgVer \<leftarrow> get_pod;
     v_opCode \<leftarrow> get_pod;
     v_destRankId \<leftarrow> get_pod;
     v_regionName \<leftarrow> get_string;
     return \<lparr>msgVer = v_msgVer, opCode = v_opCode, destRankId = v_destRankId,
       ShmDestroyRegionReq_regionName = v_regionName\<rparr> }"

definition fits_ShmDestroyRegionRequest :: "ShmDestroyRegionRequest \<Rightarrow> bool" where
  "fits_ShmDestroyRegionRequest m \<longleftrightarrow>
       length (ShmDestroyRegionReq_regionName m) \<le> MAX_ALLOWED_SIZE"

interpretation ShmDestroyRegionRequest: codec Deserialize_ShmDestroyRegionRequest Serialize_ShmDestroyRegionRequest fits_ShmDestroyRegionRequest
  by (rule codecI, unfold Deserialize_ShmDestroyRegionRequest_def, intro reader_intros)
    (simp_all add: Serialize_ShmDestroyRegionRequest_def fits_ShmDestroyRegionRequest_def codec_simps)

subsection \<open>\<^verbatim>\<open>ShmCreateRequest\<close>\<close>

record ShmCreateRequest = MsgBase +
  ShmCreateReq_regionName :: string
  ShmCreateReq_name :: string
  ShmCreateReq_size :: u64
  ShmCreateReq_baseNid :: string
  ShmCreateReq_regionDesc :: string
  ShmCreateReq_flags :: u64
  ShmCreateReq_mode :: u32

definition new_ShmCreateRequest :: ShmCreateRequest where
  "new_ShmCreateRequest = \<lparr>msgVer = 0, opCode = IPC_RACKMEMSHM_CREATE, destRankId = 0,
       ShmCreateReq_regionName = [], ShmCreateReq_name = [], ShmCreateReq_size = 0, ShmCreateReq_baseNid = [],
       ShmCreateReq_regionDesc = zero_block sizeof_SHMRegionDesc, ShmCreateReq_flags = 0,
       ShmCreateReq_mode = 0\<rparr>"

definition Serialize_ShmCreateRequest :: "ShmCreateRequest \<Rightarrow> string" where
  "Serialize_ShmCreateRequest m = put_pod (msgVer m) @ put_pod (opCode m) @ put_pod (destRankId m) @
       put_string (ShmCreateReq_regionName m) @ put_string (ShmCreateReq_name m) @
       put_pod (ShmCreateReq_size m) @ put_string (ShmCreateReq_baseNid m) @
       put_block (ShmCreateReq_regionDesc m) @ put_pod (ShmCreateReq_flags m) @ put_pod (ShmCreateReq_mode m)"

definition Deserialize_ShmCreateRequest :: "ShmCreateRequest unpack" where
  "Deserialize_ShmCreateRequest = do {
     v_msgVer \<leftarrow> get_pod;
     v_opCode \<leftarrow> get_pod;
     v_destRankId \<leftarrow> get_pod;
     v_regionName \<leftarrow> get_string;
     v_name \<leftarrow> get_string;
     v_size \<leftarrow> get_pod;
     v_baseNid \<leftarrow> get_string;
     v_regionDesc \<leftarrow> get_block sizeof_SHMRegionDesc;
     v_flags \<leftarrow> get_pod;
     v_mode \<leftarrow> get_pod;
     return \<lparr>msgVer = v_msgVer, opCode = v_opCode, destRankId = v_destRankId,
       ShmCreateReq_regionName = v_regionName, ShmCreateReq_name = v_name, ShmCreateReq_size = v_size,
       ShmCreateReq_baseNid = v_baseNid, ShmCreateReq_regionDesc = v_regionDesc, ShmCreateReq_flags = v_flags,
       ShmCreateReq_mode = v_mode\<rparr> }"

definition fits_ShmCreateRequest :: "ShmCreateRequest \<Rightarrow> bool" where
  "fits_ShmCreateRequest m \<longleftrightarrow>
       length (ShmCreateReq_regionName m) \<le> MAX_ALLOWED_SIZE \<and>
       length (ShmCreateReq_name m) \<le> MAX_ALLOWED_SIZE \<and>
       length (ShmCreateReq_baseNid m) \<le> MAX_ALLOWED_SIZE \<and>
       length (ShmCreateReq_regionDesc m) = sizeof_SHMRegionDesc"

interpretation ShmCreateRequest: codec Deserialize_ShmCreateRequest Serialize_ShmCreateRequest fits_ShmCreateRequest
  by (rule codecI, unfold Deserialize_ShmCreateRequest_def, intro reader_intros)
    (simp_all add: Serialize_ShmCreateRequest_def fits_ShmCreateRequest_def codec_simps)

subsection \<open>\<^verbatim>\<open>ShmCreateWithProviderRequest\<close>\<close>

record ShmCreateWithProviderRequest = MsgBase +
  ShmCreateWithProviderReq_hostName :: string
  ShmCreateWithProviderReq_socketId :: u32
  ShmCreateWithProviderReq_numaId :: u32
  ShmCreateWithProviderReq_portId :: u32
  ShmCreateWithProviderReq_name :: string
  ShmCreateWithProviderReq_size :: u64
  ShmCreateWithProviderReq_flags :: u64
  ShmCreateWithProviderReq_mode :: u32

definition new_ShmCreateWithProviderRequest :: ShmCreateWithProviderRequest where
  "new_ShmCreateWithProviderRequest = \<lparr>msgVer = 0, opCode = IPC_RACKMEMSHM_CREATE_WITH_PROVIDER,
       destRankId = 0, ShmCreateWithProviderReq_hostName = [], ShmCreateWithProviderReq_socketId = 0,
       ShmCreateWithProviderReq_numaId = 0, ShmCreateWithProviderReq_portId = 0,
       ShmCreateWithProviderReq_name = [], ShmCreateWithProviderReq_size = 0,
       ShmCreateWithProviderReq_flags = 0, ShmCreateWithProviderReq_mode = 0\<rparr>"

definition Serialize_ShmCreateWithProviderRequest :: "ShmCreateWithProviderRequest \<Rightarrow> string" where
  "Serialize_ShmCreateWithProviderRequest m = put_pod (msgVer m) @ put_pod (opCode m) @ put_pod (destRankId m) @
       put_string (ShmCreateWithProviderReq_hostName m) @ put_pod (ShmCreateWithProviderReq_socketId m) @
       put_pod (ShmCreateWithProviderReq_numaId m) @ put_pod (ShmCreateWithProviderReq_portId m) @
       put_string (ShmCreateWithProviderReq_name m) @ put_pod (ShmCreateWithProviderReq_size m) @
       put_pod (ShmCreateWithProviderReq_flags m) @ put_pod (ShmCreateWithProviderReq_mode m)"

definition Deserialize_ShmCreateWithProviderRequest :: "ShmCreateWithProviderRequest unpack" where
  "Deserialize_ShmCreateWithProviderRequest = do {
     v_msgVer \<leftarrow> get_pod;
     v_opCode \<leftarrow> get_pod;
     v_destRankId \<leftarrow> get_pod;
     v_hostName \<leftarrow> get_string;
     v_socketId \<leftarrow> get_pod;
     v_numaId \<leftarrow> get_pod;
     v_portId \<leftarrow> get_pod;
     v_name \<leftarrow> get_string;
     v_size \<leftarrow> get_pod;
     v_flags \<leftarrow> get_pod;
     v_mode \<leftarrow> get_pod;
     return \<lparr>msgVer = v_msgVer, opCode = v_opCode, destRankId = v_destRankId,
       ShmCreateWithProviderReq_hostName = v_hostName, ShmCreateWithProviderReq_socketId = v_socketId,
       ShmCreateWithProviderReq_numaId = v_numaId, ShmCreateWithProviderReq_portId = v_portId,
       ShmCreateWithProviderReq_name = v_name, ShmCreateWithProviderReq_size = v_size,
       ShmCreateWithProviderReq_flags = v_flags, ShmCreateWithProviderReq_mode = v_mode\<rparr> }"

definition fits_ShmCreateWithProviderRequest :: "ShmCreateWithProviderRequest \<Rightarrow> bool" where
  "fits_ShmCreateWithProviderRequest m \<longleftrightarrow>
       length (ShmCreateWithProviderReq_hostName m) \<le> MAX_ALLOWED_SIZE \<and>
       length (ShmCreateWithProviderReq_name m) \<le> MAX_ALLOWED_SIZE"

interpretation ShmCreateWithProviderRequest: codec Deserialize_ShmCreateWithProviderRequest Serialize_ShmCreateWithProviderRequest fits_ShmCreateWithProviderRequest
  by (rule codecI, unfold Deserialize_ShmCreateWithProviderRequest_def, intro reader_intros)
    (simp_all add: Serialize_ShmCreateWithProviderRequest_def fits_ShmCreateWithProviderRequest_def codec_simps)

subsection \<open>\<^verbatim>\<open>ShmDeleteRequest\<close>\<close>

record ShmDeleteRequest = MsgBase +
  ShmDeleteReq_regionName :: string
  ShmDeleteReq_name :: string

definition new_ShmDeleteRequest :: ShmDeleteRequest where
  "new_ShmDeleteRequest = \<lparr>msgVer = 0, opCode = IPC_RACKMEMSHM_DELETE, destRankId = 0,
       ShmDeleteReq_regionName = [], ShmDeleteReq_name = []\<rparr>"

definition Serialize_ShmDeleteRequest :: "ShmDeleteRequest \<Rightarrow> string" where
  "Serialize_ShmDeleteRequest m = put_pod (msgVer m) @ put_pod (opCode m) @ put_pod (destRankId m) @
       put_string (ShmDeleteReq_regionName m) @ put_string (ShmDeleteReq_name m)"

definition Deserialize_ShmDeleteRequest :: "ShmDeleteRequest unpack" where
  "Deserialize_ShmDeleteRequest = do {
     v_msgVer \<leftarrow> get_pod;
     v_opCode \<leftarrow> get_pod;
     v_destRankId \<leftarrow> get_pod;
     v_regionName \<leftarrow> get_string;
     v_name \<leftarrow> get_string;
     return \<lparr>msgVer = v_msgVer, opCode = v_opCode, destRankId = v_destRankId,
       ShmDeleteReq_regionName = v_regionName, ShmDeleteReq_name = v_name\<rparr> }"

definition fits_ShmDeleteRequest :: "ShmDeleteRequest \<Rightarrow> bool" where
  "fits_ShmDeleteRequest m \<longleftrightarrow>
       length (ShmDeleteReq_regionName m) \<le> MAX_ALLOWED_SIZE \<and>
       length (ShmDeleteReq_name m) \<le> MAX_ALLOWED_SIZE"

interpretation ShmDeleteRequest: codec Deserialize_ShmDeleteRequest Serialize_ShmDeleteRequest fits_ShmDeleteRequest
  by (rule codecI, unfold Deserialize_ShmDeleteRequest_def, intro reader_intros)
    (simp_all add: Serialize_ShmDeleteRequest_def fits_ShmDeleteRequest_def codec_simps)

subsection \<open>\<^verbatim>\<open>ShmMapRequest\<close>\<close>

record ShmMapRequest = MsgBase +
  ShmMapReq_regionName :: string
  ShmMapReq_name :: string
  ShmMapReq_size :: u64
  ShmMapReq_mode :: u32
  ShmMapReq_prot :: u32

definition new_ShmMapRequest :: ShmMapRequest where
  "new_ShmMapRequest = \<lparr>msgVer = 0, opCode = IPC_RACKMEMSHM_MMAP, destRankId = 0,
       ShmMapReq_regionName = [], ShmMapReq_name = [], ShmMapReq_size = 0, ShmMapReq_mode = 0,
       ShmMapReq_prot = 0\<rparr>"

definition Serialize_ShmMapRequest :: "ShmMapRequest \<Rightarrow> string" where
  "Serialize_ShmMapRequest m = put_pod (msgVer m) @ put_pod (opCode m) @ put_pod (destRankId m) @
       put_string (ShmMapReq_regionName m) @ put_string (ShmMapReq_name m) @ put_pod (ShmMapReq_size m) @
       put_pod (ShmMapReq_mode m) @ put_pod (ShmMapReq_prot m)"

definition Deserialize_ShmMapRequest :: "ShmMapRequest unpack" where
  "Deserialize_ShmMapRequest = do {
     v_msgVer \<leftarrow> get_pod;
     v_opCode \<leftarrow> get_pod;
     v_destRankId \<leftarrow> get_pod;
     v_regionName \<leftarrow> get_string;
     v_name \<leftarrow> get_string;
     v_size \<leftarrow> get_pod;
     v_mode \<leftarrow> get_pod;
     v_prot \<leftarrow> get_pod;
     return \<lparr>msgVer = v_msgVer, opCode = v_opCode, destRankId = v_destRankId,
       ShmMapReq_regionName = v_regionName, ShmMapReq_name = v_name, ShmMapReq_size = v_size,
       ShmMapReq_mode = v_mode, ShmMapReq_prot = v_prot\<rparr> }"

definition fits_ShmMapRequest :: "ShmMapRequest \<Rightarrow> bool" where
  "fits_ShmMapRequest m \<longleftrightarrow> length (ShmMapReq_regionName m) \<le> MAX_ALLOWED_SIZE \<and>
       length (ShmMapReq_name m) \<le> MAX_ALLOWED_SIZE"

interpretation ShmMapRequest: codec Deserialize_ShmMapRequest Serialize_ShmMapRequest fits_ShmMapRequest
  by (rule codecI, unfold Deserialize_ShmMapRequest_def, intro reader_intros)
    (simp_all add: Serialize_ShmMapRequest_def fits_ShmMapRequest_def codec_simps)

subsection \<open>\<^verbatim>\<open>ShmUnmapRequest\<close>\<close>

record ShmUnmapRequest = MsgBase +
  ShmUnmapReq_regionName :: string
  ShmUnmapReq_name :: string

definition new_ShmUnmapRequest :: ShmUnmapRequest where
  "new_ShmUnmapRequest = \<lparr>msgVer = 0, opCode = IPC_RACKMEMSHM_UNMMAP, destRankId = 0,
       ShmUnmapReq_regionName = [], ShmUnmapReq_name = []\<rparr>"

definition Serialize_ShmUnmapRequest :: "ShmUnmapRequest \<Rightarrow> string" where
  "Serialize_ShmUnmapRequest m = put_pod (msgVer m) @ put_pod (opCode m) @ put_pod (destRankId m) @
       put_string (ShmUnmapReq_regionName m) @ put_string (ShmUnmapReq_name m)"

definition Deserialize_ShmUnmapRequest :: "ShmUnmapRequest unpack" where
  "Deserialize_ShmUnmapRequest = do {
     v_msgVer \<leftarrow> get_pod;
     v_opCode \<leftarrow> get_pod;
     v_destRankId \<leftarrow> get_pod;
     v_regionName \<leftarrow> get_string;
     v_name \<leftarrow> get_string;
     return \<lparr>msgVer = v_msgVer, opCode = v_opCode, destRankId = v_destRankId,
       ShmUnmapReq_regionName = v_regionName, ShmUnmapReq_name = v_name\<rparr> }"

definition fits_ShmUnmapRequest :: "ShmUnmapRequest \<Rightarrow> bool" where
  "fits_ShmUnmapRequest m \<longleftrightarrow> length (ShmUnmapReq_regionName m) \<le> MAX_ALLOWED_SIZE \<and>
       length (ShmUnmapReq_name m) \<le> MAX_ALLOWED_SIZE"

interpretation ShmUnmapRequest: codec Deserialize_ShmUnmapRequest Serialize_ShmUnmapRequest fits_ShmUnmapRequest
  by (rule codecI, unfold Deserialize_ShmUnmapRequest_def, intro reader_intros)
    (simp_all add: Serialize_ShmUnmapRequest_def fits_ShmUnmapRequest_def codec_simps)

subsection \<open>\<^verbatim>\<open>ShmQueryMemFaultStatusRequest\<close>\<close>

record ShmQueryMemFaultStatusRequest = MsgBase +
  ShmQueryMemFaultStatusReq_name :: string

definition new_ShmQueryMemFaultStatusRequest :: ShmQueryMemFaultStatusRequest where
  "new_ShmQueryMemFaultStatusRequest = \<lparr>msgVer = 0, opCode = IPC_RACKMEMSHM_QUERY_MEM_FAULT_STATUS,
       destRankId = 0, ShmQueryMemFaultStatusReq_name = []\<rparr>"

definition Serialize_ShmQueryMemFaultStatusRequest :: "ShmQueryMemFaultStatusRequest \<Rightarrow> string" where
  "Serialize_ShmQueryMemFaultStatusRequest m = put_pod (msgVer m) @ put_pod (opCode m) @
       put_pod (destRankId m) @ put_string (ShmQueryMemFaultStatusReq_name m)"

definition Deserialize_ShmQueryMemFaultStatusRequest :: "ShmQueryMemFaultStatusRequest unpack" where
  "Deserialize_ShmQueryMemFaultStatusRequest = do {
     v_msgVer \<leftarrow> get_pod;
     v_opCode \<leftarrow> get_pod;
     v_destRankId \<leftarrow> get_pod;
     v_name \<leftarrow> get_string;
     return \<lparr>msgVer = v_msgVer, opCode = v_opCode, destRankId = v_destRankId,
       ShmQueryMemFaultStatusReq_name = v_name\<rparr> }"

definition fits_ShmQueryMemFaultStatusRequest :: "ShmQueryMemFaultStatusRequest \<Rightarrow> bool" where
  "fits_ShmQueryMemFaultStatusRequest m \<longleftrightarrow>
       length (ShmQueryMemFaultStatusReq_name m) \<le> MAX_ALLOWED_SIZE"

interpretation ShmQueryMemFaultStatusRequest: codec Deserialize_ShmQueryMemFaultStatusRequest Serialize_ShmQueryMemFaultStatusRequest fits_ShmQueryMemFaultStatusRequest
  by (rule codecI, unfold Deserialize_ShmQueryMemFaultStatusRequest_def, intro reader_intros)
    (simp_all add: Serialize_ShmQueryMemFaultStatusRequest_def fits_ShmQueryMemFaultStatusRequest_def codec_simps)

subsection \<open>\<^verbatim>\<open>ShmWriteLockRequest\<close>\<close>

record ShmWriteLockRequest = MsgBase +
  ShmWriteLockReq_regionName :: string
  ShmWriteLockReq_name :: string

definition new_ShmWriteLockRequest :: ShmWriteLockRequest where
  "new_ShmWriteLockRequest = \<lparr>msgVer = 0, opCode = IPC_RACKMEMSHM_WRITELOCK, destRankId = 0,
       ShmWriteLockReq_regionName = [], ShmWriteLockReq_name = []\<rparr>"

definition Serialize_ShmWriteLockRequest :: "ShmWriteLockRequest \<Rightarrow> string" where
  "Serialize_ShmWriteLockRequest m = put_pod (msgVer m) @ put_pod (opCode m) @ put_pod (destRankId m) @
       put_string (ShmWriteLockReq_regionName m) @ put_string (ShmWriteLockReq_name m)"

definition Deserialize_ShmWriteLockRequest :: "ShmWriteLockRequest unpack" where
  "Deserialize_ShmWriteLockRequest = do {
     v_msgVer \<leftarrow> get_pod;
     v_opCode \<leftarrow> get_pod;
     v_destRankId \<leftarrow> get_pod;
     v_regionName \<leftarrow> get_string;
     v_name \<leftarrow> get_string;
     return \<lparr>msgVer = v_msgVer, opCode = v_opCode, destRankId = v_destRankId,
       ShmWriteLockReq_regionName = v_regionName, ShmWriteLockReq_name = v_name\<rparr> }"

definition fits_ShmWriteLockRequest :: "ShmWriteLockRequest \<Rightarrow> bool" where
  "fits_ShmWriteLockRequest m \<longleftrightarrow>
       length (ShmWriteLockReq_regionName m) \<le> MAX_ALLOWED_SIZE \<and>
       length (ShmWriteLockReq_name m) \<le> MAX_ALLOWED_SIZE"

interpretation ShmWriteLockRequest: codec Deserialize_ShmWriteLockRequest Serialize_ShmWriteLockRequest fits_ShmWriteLockRequest
  by (rule codecI, unfold Deserialize_ShmWriteLockRequest_def, intro reader_intros)
    (simp_all add: Serialize_ShmWriteLockRequest_def fits_ShmWriteLockRequest_def codec_simps)

subsection \<open>\<^verbatim>\<open>ShmReadLockRequest\<close>\<close>

record ShmReadLockRequest = MsgBase +
  ShmReadLockReq_regionName :: string
  ShmReadLockReq_name :: string

definition new_ShmReadLockRequest :: ShmReadLockRequest where
  "new_ShmReadLockRequest = \<lparr>msgVer = 0, opCode = IPC_RACKMEMSHM_READLOCK, destRankId = 0,
       ShmReadLockReq_regionName = [], ShmReadLockReq_name = []\<rparr>"

definition Serialize_ShmReadLockRequest :: "ShmReadLockRequest \<Rightarrow> string" where
  "Serialize_ShmReadLockRequest m = put_pod (msgVer m) @ put_pod (opCode m) @ put_pod (destRankId m) @
       put_string (ShmReadLockReq_regionName m) @ put_string (ShmReadLockReq_name m)"

definition Deserialize_ShmReadLockRequest :: "ShmReadLockRequest unpack" where
  "Deserialize_ShmReadLockRequest = do {
     v_msgVer \<leftarrow> get_pod;
     v_opCode \<leftarrow> get_pod;
     v_destRankId \<leftarrow> get_pod;
     v_regionName \<leftarrow> get_string;
     v_name \<leftarrow> get_string;
     return \<lparr>msgVer = v_msgVer, opCode = v_opCode, destRankId = v_destRankId,
       ShmReadLockReq_regionName = v_regionName, ShmReadLockReq_name = v_name\<rparr> }"

definition fits_ShmReadLockRequest :: "ShmReadLockRequest \<Rightarrow> bool" where
  "fits_ShmReadLockRequest m \<longleftrightarrow>
       length (ShmReadLockReq_regionName m) \<le> MAX_ALLOWED_SIZE \<and>
       length (ShmReadLockReq_name m) \<le> MAX_ALLOWED_SIZE"

interpretation ShmReadLockRequest: codec Deserialize_ShmReadLockRequest Serialize_ShmReadLockRequest fits_ShmReadLockRequest
  by (rule codecI, unfold Deserialize_ShmReadLockRequest_def, intro reader_intros)
    (simp_all add: Serialize_ShmReadLockRequest_def fits_ShmReadLockRequest_def codec_simps)

subsection \<open>\<^verbatim>\<open>ShmUnLockRequest\<close>\<close>

record ShmUnLockRequest = MsgBase +
  ShmUnLockReq_regionName :: string
  ShmUnLockReq_name :: string

definition new_ShmUnLockRequest :: ShmUnLockRequest where
  "new_ShmUnLockRequest = \<lparr>msgVer = 0, opCode = IPC_RACKMEMSHM_UNLOCK, destRankId = 0,
       ShmUnLockReq_regionName = [], ShmUnLockReq_name = []\<rparr>"

definition Serialize_ShmUnLockRequest :: "ShmUnLockRequest \<Rightarrow> string" where
  "Serialize_ShmUnLockRequest m = put_pod (msgVer m) @ put_pod (opCode m) @ put_pod (destRankId m) @
       put_string (ShmUnLockReq_regionName m) @ put_string (ShmUnLockReq_name m)"

definition Deserialize_ShmUnLockRequest :: "ShmUnLockRequest unpack" where
  "Deserialize_ShmUnLockRequest = do {
     v_msgVer \<leftarrow> get_pod;
     v_opCode \<leftarrow> get_pod;
     v_destRankId \<leftarrow> get_pod;
     v_regionName \<leftarrow> get_string;
     v_name \<leftarrow> get_string;
     return \<lparr>msgVer = v_msgVer, opCode = v_opCode, destRankId = v_destRankId,
       ShmUnLockReq_regionName = v_regionName, ShmUnLockReq_name = v_name\<rparr> }"

definition fits_ShmUnLockRequest :: "ShmUnLockRequest \<Rightarrow> bool" where
  "fits_ShmUnLockRequest m \<longleftrightarrow>
       length (ShmUnLockReq_regionName m) \<le> MAX_ALLOWED_SIZE \<and>
       length (ShmUnLockReq_name m) \<le> MAX_ALLOWED_SIZE"

interpretation ShmUnLockRequest: codec Deserialize_ShmUnLockRequest Serialize_ShmUnLockRequest fits_ShmUnLockRequest
  by (rule codecI, unfold Deserialize_ShmUnLockRequest_def, intro reader_intros)
    (simp_all add: Serialize_ShmUnLockRequest_def fits_ShmUnLockRequest_def codec_simps)

subsection \<open>\<^verbatim>\<open>ShmAttachRequest\<close>\<close>

record ShmAttachRequest = MsgBase +
  ShmAttachReq_regionName :: string
  ShmAttachReq_name :: string

definition new_ShmAttachRequest :: ShmAttachRequest where
  "new_ShmAttachRequest = \<lparr>msgVer = 0, opCode = IPC_RACKMEMSHM_ATTACH, destRankId = 0,
       ShmAttachReq_regionName = [], ShmAttachReq_name = []\<rparr>"

definition Serialize_ShmAttachRequest :: "ShmAttachRequest \<Rightarrow> string" where
  "Serialize_ShmAttachRequest m = put_pod (msgVer m) @ put_pod (opCode m) @ put_pod (destRankId m) @
       put_string (ShmAttachReq_regionName m) @ put_string (ShmAttachReq_name m)"

definition Deserialize_ShmAttachRequest :: "ShmAttachRequest unpack" where
  "Deserialize_ShmAttachRequest = do {
     v_msgVer \<leftarrow> get_pod;
     v_opCode \<leftarrow> get_pod;
     v_destRankId \<leftarrow> get_pod;
     v_regionName \<leftarrow> get_string;
     v_name \<leftarrow> get_string;
     return \<lparr>msgVer = v_msgVer, opCode = v_opCode, destRankId = v_destRankId,
       ShmAttachReq_regionName = v_regionName, ShmAttachReq_name = v_name\<rparr> }"

definition fits_ShmAttachRequest :: "ShmAttachRequest \<Rightarrow> bool" where
  "fits_ShmAttachRequest m \<longleftrightarrow>
       length (ShmAttachReq_regionName m) \<le> MAX_ALLOWED_SIZE \<and>
       length (ShmAttachReq_name m) \<le> MAX_ALLOWED_SIZE"

interpretation ShmAttachRequest: codec Deserialize_ShmAttachRequest Serialize_ShmAttachRequest fits_ShmAttachRequest
  by (rule codecI, unfold Deserialize_ShmAttachRequest_def, intro reader_intros)
    (simp_all add: Serialize_ShmAttachRequest_def fits_ShmAttachRequest_def codec_simps)

subsection \<open>\<^verbatim>\<open>ShmDetachRequest\<close>\<close>

record ShmDetachRequest = MsgBase +
  ShmDetachReq_regionName :: string
  ShmDetachReq_name :: string

definition new_ShmDetachRequest :: ShmDetachRequest where
  "new_ShmDetachRequest = \<lparr>msgVer = 0, opCode = IPC_RACKMEMSHM_DETACH, destRankId = 0,
       ShmDetachReq_regionName = [], ShmDetachReq_name = []\<rparr>"

definition Serialize_ShmDetachRequest :: "ShmDetachRequest \<Rightarrow> string" where
  "Serialize_ShmDetachRequest m = put_pod (msgVer m) @ put_pod (opCode m) @ put_pod (destRankId m) @
       put_string (ShmDetachReq_regionName m) @ put_string (ShmDetachReq_name m)"

definition Deserialize_ShmDetachRequest :: "ShmDetachRequest unpack" where
  "Deserialize_ShmDetachRequest = do {
     v_msgVer \<leftarrow> get_pod;
     v_opCode \<leftarrow> get_pod;
     v_destRankId \<leftarrow> get_pod;
     v_regionName \<leftarrow> get_string;
     v_name \<leftarrow> get_string;
     return \<lparr>msgVer = v_msgVer, opCode = v_opCode, destRankId = v_destRankId,
       ShmDetachReq_regionName = v_regionName, ShmDetachReq_name = v_name\<rparr> }"

definition fits_ShmDetachRequest :: "ShmDetachRequest \<Rightarrow> bool" where
  "fits_ShmDetachRequest m \<longleftrightarrow>
       length (ShmDetachReq_regionName m) \<le> MAX_ALLOWED_SIZE \<and>
       length (ShmDetachReq_name m) \<le> MAX_ALLOWED_SIZE"

interpretation ShmDetachRequest: codec Deserialize_ShmDetachRequest Serialize_ShmDetachRequest fits_ShmDetachRequest
  by (rule codecI, unfold Deserialize_ShmDetachRequest_def, intro reader_intros)
    (simp_all add: Serialize_ShmDetachRequest_def fits_ShmDetachRequest_def codec_simps)

subsection \<open>\<^verbatim>\<open>ShmLookupRequest\<close>\<close>

record ShmLookupRequest = MsgBase +
  ShmLookupReq_regionName :: string
  ShmLookupReq_name :: string

definition new_ShmLookupRequest :: ShmLookupRequest where
  "new_ShmLookupRequest = \<lparr>msgVer = 0, opCode = IPC_RACKMEMSHM_LOOKUP, destRankId = 0,
       ShmLookupReq_regionName = [], ShmLookupReq_name = []\<rparr>"

definition Serialize_ShmLookupRequest :: "ShmLookupRequest \<Rightarrow> string" where
  "Serialize_ShmLookupRequest m = put_pod (msgVer m) @ put_pod (opCode m) @ put_pod (destRankId m) @
       put_string (ShmLookupReq_regionName m) @ put_string (ShmLookupReq_name m)"

definition Deserialize_ShmLookupRequest :: "ShmLookupRequest unpack" where
  "Deserialize_ShmLookupRequest = do {
     v_msgVer \<leftarrow> get_pod;
     v_opCode \<leftarrow> get_pod;
     v_destRankId \<leftarrow> get_pod;
     v_regionName \<leftarrow> get_string;
     v_name \<leftarrow> get_string;
     return \<lparr>msgVer = v_msgVer, opCode = v_opCode, destRankId = v_destRankId,
       ShmLookupReq_regionName = v_regionName, ShmLookupReq_name = v_name\<rparr> }"

definition fits_ShmLookupRequest :: "ShmLookupRequest \<Rightarrow> bool" where
  "fits_ShmLookupRequest m \<longleftrightarrow>
       length (ShmLookupReq_regionName m) \<le> MAX_ALLOWED_SIZE \<and>
       length (ShmLookupReq_name m) \<le> MAX_ALLOWED_SIZE"

interpretation ShmLookupRequest: codec Deserialize_ShmLookupRequest Serialize_ShmLookupRequest fits_ShmLookupRequest
  by (rule codecI, unfold Deserialize_ShmLookupRequest_def, intro reader_intros)
    (simp_all add: Serialize_ShmLookupRequest_def fits_ShmLookupRequest_def codec_simps)

subsection \<open>\<^verbatim>\<open>ShmListLookupRequest\<close>\<close>

record ShmListLookupRequest = MsgBase +
  ShmListLookupReq_regionName :: string
  ShmListLookupReq_prefix :: string

definition new_ShmListLookupRequest :: ShmListLookupRequest where
  "new_ShmListLookupRequest = \<lparr>msgVer = 0, opCode = IPC_RACKMEMSHM_LOOKUP_LIST, destRankId = 0,
       ShmListLookupReq_regionName = [], ShmListLookupReq_prefix = []\<rparr>"

definition Serialize_ShmListLookupRequest :: "ShmListLookupRequest \<Rightarrow> string" where
  "Serialize_ShmListLookupRequest m = put_pod (msgVer m) @ put_pod (opCode m) @ put_pod (destRankId m) @
       put_string (ShmListLookupReq_regionName m) @ put_string (ShmListLookupReq_prefix m)"

definition Deserialize_ShmListLookupRequest :: "ShmListLookupRequest unpack" where
  "Deserialize_ShmListLookupRequest = do {
     v_msgVer \<leftarrow> get_pod;
     v_opCode \<leftarrow> get_pod;
     v_destRankId \<leftarrow> get_pod;
     v_regionName \<leftarrow> get_string;
     v_prefix \<leftarrow> get_string;
     return \<lparr>msgVer = v_msgVer, opCode = v_opCode, destRankId = v_destRankId,
       ShmListLookupReq_regionName = v_regionName, ShmListLookupReq_prefix = v_prefix\<rparr> }"

definition fits_ShmListLookupRequest :: "ShmListLookupRequest \<Rightarrow> bool" where
  "fits_ShmListLookupRequest m \<longleftrightarrow>
       length (ShmListLookupReq_regionName m) \<le> MAX_ALLOWED_SIZE \<and>
       length (ShmListLookupReq_prefix m) \<le> MAX_ALLOWED_SIZE"

interpretation ShmListLookupRequest: codec Deserialize_ShmListLookupRequest Serialize_ShmListLookupRequest fits_ShmListLookupRequest
  by (rule codecI, unfold Deserialize_ShmListLookupRequest_def, intro reader_intros)
    (simp_all add: Serialize_ShmListLookupRequest_def fits_ShmListLookupRequest_def codec_simps)

end
