(* ===== verification/Messages_Shm_Resp.thy ===== *)
theory Messages_Shm_Resp
  imports Message_Types
begin

text \<open>
  The messages of \<^verbatim>\<open>mxm_message/mxm_msg.h\<close> for shared memory and regions, responses.  For each struct: its fields, the
  object its default constructor makes, its methods \<^verbatim>\<open>Serialize\<close> and \<^verbatim>\<open>Deserialize\<close>, the values that
  survive the wire (\<open>fits\<close>), and the proof that the two methods are a \<^const>\<open>codec\<close>.
\<close>

section \<open>Messages\<close>

subsection \<open>\<^verbatim>\<open>ShmLookRegionListResponse\<close>\<close>

record ShmLookRegionListResponse = MsgBase +
  ShmLookRegionListResp_errCode :: u32
  ShmLookRegionListResp_regions :: string

definition new_ShmLookRegionListResponse :: ShmLookRegionListResponse where
  "new_ShmLookRegionListResponse = \<lparr>msgVer = 0, opCode = MXM_MSG_BUTT, destRankId = 0,
       ShmLookRegionListResp_errCode = word_of_int UBSM_ERR_UNIMPL,
       ShmLookRegionListResp_regions = zero_block sizeof_SHMRegions\<rparr>"

definition Serialize_ShmLookRegionListResponse :: "ShmLookRegionListResponse \<Rightarrow> string" where
  "Serialize_ShmLookRegionListResponse m = put_pod (msgVer m) @ put_pod (opCode m) @ put_pod (destRankId m) @
       put_pod (ShmLookRegionListResp_errCode m) @ put_block (ShmLookRegionListResp_regions m)"

definition Deserialize_ShmLookRegionListResponse :: "ShmLookRegionListResponse unpack" where
  "Deserialize_ShmLookRegionListResponse = do {
     v_msgVer \<leftarrow> get_pod;
     v_opCode \<leftarrow> get_pod;
     v_destRankId \<leftarrow> get_pod;
     v_errCode \<leftarrow> get_pod;
     v_regions \<leftarrow> get_block sizeof_SHMRegions;
     return \<lparr>msgVer = v_msgVer, opCode = v_opCode, destRankId = v_destRankId,
       ShmLookRegionListResp_errCode = v_errCode, ShmLookRegionListResp_regions = v_regions\<rparr> }"

definition fits_ShmLookRegionListResponse :: "ShmLookRegionListResponse \<Rightarrow> bool" where
  "fits_ShmLookRegionListResponse m \<longleftrightarrow>
       length (ShmLookRegionListResp_regions m) = sizeof_SHMRegions"

interpretation ShmLookRegionListResponse: codec Deserialize_ShmLookRegionListResponse Serialize_ShmLookRegionListResponse fits_ShmLookRegionListResponse
  by (rule codecI, unfold Deserialize_ShmLookRegionListResponse_def, intro reader_intros)
    (simp_all add: Serialize_ShmLookRegionListResponse_def fits_ShmLookRegionListResponse_def codec_simps)

subsection \<open>\<^verbatim>\<open>ShmCreateRegionResponse\<close>\<close>

record ShmCreateRegionResponse = MsgBase +
  ShmCreateRegionResp_errCode :: u32

definition new_ShmCreateRegionResponse :: ShmCreateRegionResponse where
  "new_ShmCreateRegionResponse = \<lparr>msgVer = 0, opCode = MXM_MSG_BUTT, destRankId = 0,
       ShmCreateRegionResp_errCode = word_of_int UBSM_ERR_UNIMPL\<rparr>"

definition Serialize_ShmCreateRegionResponse :: "ShmCreateRegionResponse \<Rightarrow> string" where
  "Serialize_ShmCreateRegionResponse m = put_pod (msgVer m) @ put_pod (opCode m) @ put_pod (destRankId m) @
       put_pod (ShmCreateRegionResp_errCode m)"

definition Deserialize_ShmCreateRegionResponse :: "ShmCreateRegionResponse unpack" where
  "Deserialize_ShmCreateRegionResponse = do {
     v_msgVer \<leftarrow> get_pod;
     v_opCode \<leftarrow> get_pod;
     v_destRankId \<leftarrow> get_pod;
     v_errCode \<leftarrow> get_pod;
     return \<lparr>msgVer = v_msgVer, opCode = v_opCode, destRankId = v_destRankId,
       ShmCreateRegionResp_errCode = v_errCode\<rparr> }"

definition fits_ShmCreateRegionResponse :: "ShmCreateRegionResponse \<Rightarrow> bool" where
  "fits_ShmCreateRegionResponse m \<longleftrightarrow> True"

interpretation ShmCreateRegionResponse: codec Deserialize_ShmCreateRegionResponse Serialize_ShmCreateRegionResponse fits_ShmCreateRegionResponse
  by (rule codecI, unfold Deserialize_ShmCreateRegionResponse_def, intro reader_intros)
    (simp_all add: Serialize_ShmCreateRegionResponse_def fits_ShmCreateRegionResponse_def codec_simps)

subsection \<open>\<^verbatim>\<open>ShmLookupRegionResponse\<close>\<close>

record ShmLookupRegionResponse = MsgBase +
  ShmLookupRegionResp_errCode :: u32
  ShmLookupRegionResp_region :: string

definition new_ShmLookupRegionResponse :: ShmLookupRegionResponse where
  "new_ShmLookupRegionResponse = \<lparr>msgVer = 0, opCode = MXM_MSG_BUTT, destRankId = 0,
       ShmLookupRegionResp_errCode = word_of_int UBSM_ERR_UNIMPL,
       ShmLookupRegionResp_region = zero_block sizeof_SHMRegionDesc\<rparr>"

definition Serialize_ShmLookupRegionResponse :: "ShmLookupRegionResponse \<Rightarrow> string" where
  "Serialize_ShmLookupRegionResponse m = put_pod (msgVer m) @ put_pod (opCode m) @ put_pod (destRankId m) @
       put_pod (ShmLookupRegionResp_errCode m) @ put_block (ShmLookupRegionResp_region m)"

definition Deserialize_ShmLookupRegionResponse :: "ShmLookupRegionResponse unpack" where
  "Deserialize_ShmLookupRegionResponse = do {
     v_msgVer \<leftarrow> get_pod;
     v_opCode \<leftarrow> get_pod;
     v_destRankId \<leftarrow> get_pod;
     v_errCode \<leftarrow> get_pod;
     v_region \<leftarrow> get_block sizeof_SHMRegionDesc;
     return \<lparr>msgVer = v_msgVer, opCode = v_opCode, destRankId = v_destRankId,
       ShmLookupRegionResp_errCode = v_errCode, ShmLookupRegionResp_region = v_region\<rparr> }"

definition fits_ShmLookupRegionResponse :: "ShmLookupRegionResponse \<Rightarrow> bool" where
  "fits_ShmLookupRegionResponse m \<longleftrightarrow>
       length (ShmLookupRegionResp_region m) = sizeof_SHMRegionDesc"

interpretation ShmLookupRegionResponse: codec Deserialize_ShmLookupRegionResponse Serialize_ShmLookupRegionResponse fits_ShmLookupRegionResponse
  by (rule codecI, unfold Deserialize_ShmLookupRegionResponse_def, intro reader_intros)
    (simp_all add: Serialize_ShmLookupRegionResponse_def fits_ShmLookupRegionResponse_def codec_simps)

subsection \<open>\<^verbatim>\<open>ShmDestroyRegionResponse\<close>\<close>

record ShmDestroyRegionResponse = MsgBase +
  ShmDestroyRegionResp_errCode :: u32

definition new_ShmDestroyRegionResponse :: ShmDestroyRegionResponse where
  "new_ShmDestroyRegionResponse = \<lparr>msgVer = 0, opCode = MXM_MSG_BUTT, destRankId = 0,
       ShmDestroyRegionResp_errCode = word_of_int UBSM_ERR_UNIMPL\<rparr>"

definition Serialize_ShmDestroyRegionResponse :: "ShmDestroyRegionResponse \<Rightarrow> string" where
  "Serialize_ShmDestroyRegionResponse m = put_pod (msgVer m) @ put_pod (opCode m) @ put_pod (destRankId m) @
       put_pod (ShmDestroyRegionResp_errCode m)"

definition Deserialize_ShmDestroyRegionResponse :: "ShmDestroyRegionResponse unpack" where
  "Deserialize_ShmDestroyRegionResponse = do {
     v_msgVer \<leftarrow> get_pod;
     v_opCode \<leftarrow> get_pod;
     v_destRankId \<leftarrow> get_pod;
     v_errCode \<leftarrow> get_pod;
     return \<lparr>msgVer = v_msgVer, opCode = v_opCode, destRankId = v_destRankId,
       ShmDestroyRegionResp_errCode = v_errCode\<rparr> }"

definition fits_ShmDestroyRegionResponse :: "ShmDestroyRegionResponse \<Rightarrow> bool" where
  "fits_ShmDestroyRegionResponse m \<longleftrightarrow> True"

interpretation ShmDestroyRegionResponse: codec Deserialize_ShmDestroyRegionResponse Serialize_ShmDestroyRegionResponse fits_ShmDestroyRegionResponse
  by (rule codecI, unfold Deserialize_ShmDestroyRegionResponse_def, intro reader_intros)
    (simp_all add: Serialize_ShmDestroyRegionResponse_def fits_ShmDestroyRegionResponse_def codec_simps)

subsection \<open>\<^verbatim>\<open>ShmMapResponse\<close>\<close>

record ShmMapResponse = MsgBase +
  ShmMapResp_errCode :: u32
  ShmMapResp_memIds :: "u64 list"
  ShmMapResp_shmSize :: u64
  ShmMapResp_unitSize :: u64
  ShmMapResp_flag :: u64
  ShmMapResp_oflag :: u32

definition new_ShmMapResponse :: ShmMapResponse where
  "new_ShmMapResponse = \<lparr>msgVer = 0, opCode = MXM_MSG_BUTT, destRankId = 0,
       ShmMapResp_errCode = word_of_int UBSM_ERR_UNIMPL, ShmMapResp_memIds = [], ShmMapResp_shmSize = 0,
       ShmMapResp_unitSize = 0, ShmMapResp_flag = 0, ShmMapResp_oflag = 0\<rparr>"

definition Serialize_ShmMapResponse :: "ShmMapResponse \<Rightarrow> string" where
  "Serialize_ShmMapResponse m = put_pod (msgVer m) @ put_pod (opCode m) @ put_pod (destRankId m) @
       put_pod (ShmMapResp_errCode m) @ put_vector put_pod (ShmMapResp_memIds m) @
       put_pod (ShmMapResp_shmSize m) @ put_pod (ShmMapResp_unitSize m) @ put_pod (ShmMapResp_flag m) @
       put_pod (ShmMapResp_oflag m)"

definition Deserialize_ShmMapResponse :: "ShmMapResponse unpack" where
  "Deserialize_ShmMapResponse = do {
     v_msgVer \<leftarrow> get_pod;
     v_opCode \<leftarrow> get_pod;
     v_destRankId \<leftarrow> get_pod;
     v_errCode \<leftarrow> get_pod;
     v_memIds \<leftarrow> get_vector get_pod;
     v_shmSize \<leftarrow> get_pod;
     v_unitSize \<leftarrow> get_pod;
     v_flag \<leftarrow> get_pod;
     v_oflag \<leftarrow> get_pod;
     return \<lparr>msgVer = v_msgVer, opCode = v_opCode, destRankId = v_destRankId,
       ShmMapResp_errCode = v_errCode, ShmMapResp_memIds = v_memIds, ShmMapResp_shmSize = v_shmSize,
       ShmMapResp_unitSize = v_unitSize, ShmMapResp_flag = v_flag, ShmMapResp_oflag = v_oflag\<rparr> }"

definition fits_ShmMapResponse :: "ShmMapResponse \<Rightarrow> bool" where
  "fits_ShmMapResponse m \<longleftrightarrow> ids_fit (ShmMapResp_memIds m)"

interpretation ShmMapResponse: codec Deserialize_ShmMapResponse Serialize_ShmMapResponse fits_ShmMapResponse
  by (rule codecI, unfold Deserialize_ShmMapResponse_def, intro reader_intros)
    (simp_all add: Serialize_ShmMapResponse_def fits_ShmMapResponse_def codec_simps)

subsection \<open>\<^verbatim>\<open>ShmQueryMemFaultStatusResponse\<close>\<close>

record ShmQueryMemFaultStatusResponse = MsgBase +
  ShmQueryMemFaultStatusResp_errCode :: u32
  ShmQueryMemFaultStatusResp_isMemFault :: bool

definition new_ShmQueryMemFaultStatusResponse :: ShmQueryMemFaultStatusResponse where
  "new_ShmQueryMemFaultStatusResponse = \<lparr>msgVer = 0, opCode = MXM_MSG_BUTT, destRankId = 0,
       ShmQueryMemFaultStatusResp_errCode = word_of_int UBSM_ERR_UNIMPL,
       ShmQueryMemFaultStatusResp_isMemFault = False\<rparr>"

definition Serialize_ShmQueryMemFaultStatusResponse :: "ShmQueryMemFaultStatusResponse \<Rightarrow> string" where
  "Serialize_ShmQueryMemFaultStatusResponse m = put_pod (msgVer m) @ put_pod (opCode m) @
       put_pod (destRankId m) @ put_pod (ShmQueryMemFaultStatusResp_errCode m) @
       put_bool (ShmQueryMemFaultStatusResp_isMemFault m)"

definition Deserialize_ShmQueryMemFaultStatusResponse :: "ShmQueryMemFaultStatusResponse unpack" where
  "Deserialize_ShmQueryMemFaultStatusResponse = do {
     v_msgVer \<leftarrow> get_pod;
     v_opCode \<leftarrow> get_pod;
     v_destRankId \<leftarrow> get_pod;
     v_errCode \<leftarrow> get_pod;
     v_isMemFault \<leftarrow> get_bool;
     return \<lparr>msgVer = v_msgVer, opCode = v_opCode, destRankId = v_destRankId,
       ShmQueryMemFaultStatusResp_errCode = v_errCode,
       ShmQueryMemFaultStatusResp_isMemFault = v_isMemFault\<rparr> }"

definition fits_ShmQueryMemFaultStatusResponse :: "ShmQueryMemFaultStatusResponse \<Rightarrow> bool" where
  "fits_ShmQueryMemFaultStatusResponse m \<longleftrightarrow> True"

interpretation ShmQueryMemFaultStatusResponse: codec Deserialize_ShmQueryMemFaultStatusResponse Serialize_ShmQueryMemFaultStatusResponse fits_ShmQueryMemFaultStatusResponse
  by (rule codecI, unfold Deserialize_ShmQueryMemFaultStatusResponse_def, intro reader_intros)
    (simp_all add: Serialize_ShmQueryMemFaultStatusResponse_def fits_ShmQueryMemFaultStatusResponse_def codec_simps)

subsection \<open>\<^verbatim>\<open>ShmWriteLockResponse\<close>\<close>

record ShmWriteLockResponse = MsgBase +
  ShmWriteLockResp_errCode :: u32

definition new_ShmWriteLockResponse :: ShmWriteLockResponse where
  "new_ShmWriteLockResponse = \<lparr>msgVer = 0, opCode = MXM_MSG_BUTT, destRankId = 0,
       ShmWriteLockResp_errCode = word_of_int UBSM_ERR_UNIMPL\<rparr>"

definition Serialize_ShmWriteLockResponse :: "ShmWriteLockResponse \<Rightarrow> string" where
  "Serialize_ShmWriteLockResponse m = put_pod (msgVer m) @ put_pod (opCode m) @ put_pod (destRankId m) @
       put_pod (ShmWriteLockResp_errCode m)"

definition Deserialize_ShmWriteLockResponse :: "ShmWriteLockResponse unpack" where
  "Deserialize_ShmWriteLockResponse = do {
     v_msgVer \<leftarrow> get_pod;
     v_opCode \<leftarrow> get_pod;
     v_destRankId \<leftarrow> get_pod;
     v_errCode \<leftarrow> get_pod;
     return \<lparr>msgVer = v_msgVer, opCode = v_opCode, destRankId = v_destRankId,
       ShmWriteLockResp_errCode = v_errCode\<rparr> }"

definition fits_ShmWriteLockResponse :: "ShmWriteLockResponse \<Rightarrow> bool" where
  "fits_ShmWriteLockResponse m \<longleftrightarrow> True"

interpretation ShmWriteLockResponse: codec Deserialize_ShmWriteLockResponse Serialize_ShmWriteLockResponse fits_ShmWriteLockResponse
  by (rule codecI, unfold Deserialize_ShmWriteLockResponse_def, intro reader_intros)
    (simp_all add: Serialize_ShmWriteLockResponse_def fits_ShmWriteLockResponse_def codec_simps)

subsection \<open>\<^verbatim>\<open>ShmReadLockResponse\<close>\<close>

record ShmReadLockResponse = MsgBase +
  ShmReadLockResp_errCode :: u32

definition new_ShmReadLockResponse :: ShmReadLockResponse where
  "new_ShmReadLockResponse = \<lparr>msgVer = 0, opCode = MXM_MSG_BUTT, destRankId = 0,
       ShmReadLockResp_errCode = word_of_int UBSM_ERR_UNIMPL\<rparr>"

definition Serialize_ShmReadLockResponse :: "ShmReadLockResponse \<Rightarrow> string" where
  "Serialize_ShmReadLockResponse m = put_pod (msgVer m) @ put_pod (opCode m) @ put_pod (destRankId m) @
       put_pod (ShmReadLockResp_errCode m)"

definition Deserialize_ShmReadLockResponse :: "ShmReadLockResponse unpack" where
  "Deserialize_ShmReadLockResponse = do {
     v_msgVer \<leftarrow> get_pod;
     v_opCode \<leftarrow> get_pod;
     v_destRankId \<leftarrow> get_pod;
     v_errCode \<leftarrow> get_pod;
     return \<lparr>msgVer = v_msgVer, opCode = v_opCode, destRankId = v_destRankId,
       ShmReadLockResp_errCode = v_errCode\<rparr> }"

definition fits_ShmReadLockResponse :: "ShmReadLockResponse \<Rightarrow> bool" where
  "fits_ShmReadLockResponse m \<longleftrightarrow> True"

interpretation ShmReadLockResponse: codec Deserialize_ShmReadLockResponse Serialize_ShmReadLockResponse fits_ShmReadLockResponse
  by (rule codecI, unfold Deserialize_ShmReadLockResponse_def, intro reader_intros)
    (simp_all add: Serialize_ShmReadLockResponse_def fits_ShmReadLockResponse_def codec_simps)

subsection \<open>\<^verbatim>\<open>ShmUnLockResponse\<close>\<close>

record ShmUnLockResponse = MsgBase +
  ShmUnLockResp_errCode :: u32

definition new_ShmUnLockResponse :: ShmUnLockResponse where
  "new_ShmUnLockResponse = \<lparr>msgVer = 0, opCode = MXM_MSG_BUTT, destRankId = 0,
       ShmUnLockResp_errCode = word_of_int UBSM_ERR_UNIMPL\<rparr>"

definition Serialize_ShmUnLockResponse :: "ShmUnLockResponse \<Rightarrow> string" where
  "Serialize_ShmUnLockResponse m = put_pod (msgVer m) @ put_pod (opCode m) @ put_pod (destRankId m) @
       put_pod (ShmUnLockResp_errCode m)"

definition Deserialize_ShmUnLockResponse :: "ShmUnLockResponse unpack" where
  "Deserialize_ShmUnLockResponse = do {
     v_msgVer \<leftarrow> get_pod;
     v_opCode \<leftarrow> get_pod;
     v_destRankId \<leftarrow> get_pod;
     v_errCode \<leftarrow> get_pod;
     return \<lparr>msgVer = v_msgVer, opCode = v_opCode, destRankId = v_destRankId,
       ShmUnLockResp_errCode = v_errCode\<rparr> }"

definition fits_ShmUnLockResponse :: "ShmUnLockResponse \<Rightarrow> bool" where
  "fits_ShmUnLockResponse m \<longleftrightarrow> True"

interpretation ShmUnLockResponse: codec Deserialize_ShmUnLockResponse Serialize_ShmUnLockResponse fits_ShmUnLockResponse
  by (rule codecI, unfold Deserialize_ShmUnLockResponse_def, intro reader_intros)
    (simp_all add: Serialize_ShmUnLockResponse_def fits_ShmUnLockResponse_def codec_simps)

subsection \<open>\<^verbatim>\<open>ShmAttachResponse\<close>\<close>

record ShmAttachResponse = MsgBase +
  ShmAttachResp_errCode :: u32
  ShmAttachResp_memIds :: "u64 list"
  ShmAttachResp_shmSize :: u64
  ShmAttachResp_unitSize :: u64
  ShmAttachResp_flag :: u64
  ShmAttachResp_oflag :: u32

definition new_ShmAttachResponse :: ShmAttachResponse where
  "new_ShmAttachResponse = \<lparr>msgVer = 0, opCode = MXM_MSG_BUTT, destRankId = 0,
       ShmAttachResp_errCode = word_of_int UBSM_ERR_UNIMPL, ShmAttachResp_memIds = [],
       ShmAttachResp_shmSize = 0, ShmAttachResp_unitSize = 0, ShmAttachResp_flag = 0,
       ShmAttachResp_oflag = 0\<rparr>"

definition Serialize_ShmAttachResponse :: "ShmAttachResponse \<Rightarrow> string" where
  "Serialize_ShmAttachResponse m = put_pod (msgVer m) @ put_pod (opCode m) @ put_pod (destRankId m) @
       put_pod (ShmAttachResp_errCode m) @ put_vector put_pod (ShmAttachResp_memIds m) @
       put_pod (ShmAttachResp_shmSize m) @ put_pod (ShmAttachResp_unitSize m) @ put_pod (ShmAttachResp_flag m) @
       put_pod (ShmAttachResp_oflag m)"

definition Deserialize_ShmAttachResponse :: "ShmAttachResponse unpack" where
  "Deserialize_ShmAttachResponse = do {
     v_msgVer \<leftarrow> get_pod;
     v_opCode \<leftarrow> get_pod;
     v_destRankId \<leftarrow> get_pod;
     v_errCode \<leftarrow> get_pod;
     v_memIds \<leftarrow> get_vector get_pod;
     v_shmSize \<leftarrow> get_pod;
     v_unitSize \<leftarrow> get_pod;
     v_flag \<leftarrow> get_pod;
     v_oflag \<leftarrow> get_pod;
     return \<lparr>msgVer = v_msgVer, opCode = v_opCode, destRankId = v_destRankId,
       ShmAttachResp_errCode = v_errCode, ShmAttachResp_memIds = v_memIds, ShmAttachResp_shmSize = v_shmSize,
       ShmAttachResp_unitSize = v_unitSize, ShmAttachResp_flag = v_flag,
       ShmAttachResp_oflag = v_oflag\<rparr> }"

definition fits_ShmAttachResponse :: "ShmAttachResponse \<Rightarrow> bool" where
  "fits_ShmAttachResponse m \<longleftrightarrow> ids_fit (ShmAttachResp_memIds m)"

interpretation ShmAttachResponse: codec Deserialize_ShmAttachResponse Serialize_ShmAttachResponse fits_ShmAttachResponse
  by (rule codecI, unfold Deserialize_ShmAttachResponse_def, intro reader_intros)
    (simp_all add: Serialize_ShmAttachResponse_def fits_ShmAttachResponse_def codec_simps)

subsection \<open>\<^verbatim>\<open>ShmLookupResponse\<close>\<close>

record ShmLookupResponse = MsgBase +
  ShmLookupResp_errCode :: u32
  ShmLookupResp_shmInfo :: string

definition new_ShmLookupResponse :: ShmLookupResponse where
  "new_ShmLookupResponse = \<lparr>msgVer = 0, opCode = MXM_MSG_BUTT, destRankId = 0,
       ShmLookupResp_errCode = word_of_int UBSM_ERR_UNIMPL,
       ShmLookupResp_shmInfo = zero_block sizeof_ubsmem_shmem_info_t\<rparr>"

definition Serialize_ShmLookupResponse :: "ShmLookupResponse \<Rightarrow> string" where
  "Serialize_ShmLookupResponse m = put_pod (msgVer m) @ put_pod (opCode m) @ put_pod (destRankId m) @
       put_pod (ShmLookupResp_errCode m) @ put_block (ShmLookupResp_shmInfo m)"

definition Deserialize_ShmLookupResponse :: "ShmLookupResponse unpack" where
  "Deserialize_ShmLookupResponse = do {
     v_msgVer \<leftarrow> get_pod;
     v_opCode \<leftarrow> get_pod;
     v_destRankId \<leftarrow> get_pod;
     v_errCode \<leftarrow> get_pod;
     v_shmInfo \<leftarrow> get_block sizeof_ubsmem_shmem_info_t;
     return \<lparr>msgVer = v_msgVer, opCode = v_opCode, destRankId = v_destRankId,
       ShmLookupResp_errCode = v_errCode, ShmLookupResp_shmInfo = v_shmInfo\<rparr> }"

definition fits_ShmLookupResponse :: "ShmLookupResponse \<Rightarrow> bool" where
  "fits_ShmLookupResponse m \<longleftrightarrow> length (ShmLookupResp_shmInfo m) = sizeof_ubsmem_shmem_info_t"

interpretation ShmLookupResponse: codec Deserialize_ShmLookupResponse Serialize_ShmLookupResponse fits_ShmLookupResponse
  by (rule codecI, unfold Deserialize_ShmLookupResponse_def, intro reader_intros)
    (simp_all add: Serialize_ShmLookupResponse_def fits_ShmLookupResponse_def codec_simps)

subsection \<open>\<^verbatim>\<open>ShmListLookupResponse\<close>\<close>

record ShmListLookupResponse = MsgBase +
  ShmListLookupResp_errCode :: u32
  ShmListLookupResp_shmNames :: "string list"

definition new_ShmListLookupResponse :: ShmListLookupResponse where
  "new_ShmListLookupResponse = \<lparr>msgVer = 0, opCode = MXM_MSG_BUTT, destRankId = 0,
       ShmListLookupResp_errCode = word_of_int UBSM_ERR_UNIMPL, ShmListLookupResp_shmNames = []\<rparr>"

definition Serialize_ShmListLookupResponse :: "ShmListLookupResponse \<Rightarrow> string" where
  "Serialize_ShmListLookupResponse m = put_pod (msgVer m) @ put_pod (opCode m) @ put_pod (destRankId m) @
       put_pod (ShmListLookupResp_errCode m) @ put_vector put_block (ShmListLookupResp_shmNames m)"

definition Deserialize_ShmListLookupResponse :: "ShmListLookupResponse unpack" where
  "Deserialize_ShmListLookupResponse = do {
     v_msgVer \<leftarrow> get_pod;
     v_opCode \<leftarrow> get_pod;
     v_destRankId \<leftarrow> get_pod;
     v_errCode \<leftarrow> get_pod;
     v_shmNames \<leftarrow> get_vector (get_block sizeof_ubsmem_shmem_desc_t);
     return \<lparr>msgVer = v_msgVer, opCode = v_opCode, destRankId = v_destRankId,
       ShmListLookupResp_errCode = v_errCode, ShmListLookupResp_shmNames = v_shmNames\<rparr> }"

definition fits_ShmListLookupResponse :: "ShmListLookupResponse \<Rightarrow> bool" where
  "fits_ShmListLookupResponse m \<longleftrightarrow> descs_fit (ShmListLookupResp_shmNames m)"

interpretation ShmListLookupResponse: codec Deserialize_ShmListLookupResponse Serialize_ShmListLookupResponse fits_ShmListLookupResponse
  by (rule codecI, unfold Deserialize_ShmListLookupResponse_def, intro reader_intros)
    (simp_all add: Serialize_ShmListLookupResponse_def fits_ShmListLookupResponse_def codec_simps)

end
