(* ===== verification/Message_Factory.thy ===== *)
theory Message_Factory
  imports Messages_App Messages_Rpc Messages_Shm_Req Messages_Shm_Resp
begin

text \<open>
  All messages under one type, as the base class pointer \<^verbatim>\<open>MsgBase *\<close> holds them, with the virtual
  methods \<^verbatim>\<open>Serialize\<close> and \<^verbatim>\<open>Deserialize\<close>, and the factories of \<^verbatim>\<open>mxm_message/mxm_msg.cpp\<close> that
  make the object to decode into from an operation code.  Allocation is taken to succeed.
\<close>

section \<open>Messages of any class\<close>

datatype (plugins only: code) msg =
    M_CheckMemoryLeaseRequest CheckMemoryLeaseRequest
  | M_CheckShareMemoryMapRequest CheckShareMemoryMapRequest
  | M_CommonRequest CommonRequest
  | M_CommonResponse CommonResponse
  | M_ShmemAllocateRequest ShmemAllocateRequest
  | M_ShmemDeallocateRequest ShmemDeallocateRequest
  | M_AppMallocMemoryRequest AppMallocMemoryRequest
  | M_AppMallocMemoryWithLocRequest AppMallocMemoryWithLocRequest
  | M_AppFreeMemoryRequest AppFreeMemoryRequest
  | M_AppMallocMemoryResponse AppMallocMemoryResponse
  | M_AppQueryClusterInfoResponse AppQueryClusterInfoResponse
  | M_AppQueryCachedMemoryResponse AppQueryCachedMemoryResponse
  | M_ShmLookRegionListRequest ShmLookRegionListRequest
  | M_ShmCreateRegionRequest ShmCreateRegionRequest
  | M_ShmLookupRegionRequest ShmLookupRegionRequest
  | M_ShmDestroyRegionRequest ShmDestroyRegionRequest
  | M_ShmCreateRequest ShmCreateRequest
  | M_ShmCreateWithProviderRequest ShmCreateWithProviderRequest
  | M_ShmDeleteRequest ShmDeleteRequest
  | M_ShmMapRequest ShmMapRequest
  | M_ShmUnmapRequest ShmUnmapRequest
  | M_ShmQueryMemFaultStatusRequest ShmQueryMemFaultStatusRequest
  | M_PingRequest PingRequest
  | M_VoteRequest VoteRequest
  | M_BroadcastRequest BroadcastRequest
  | M_TransElectedRequest TransElectedRequest
  | M_ShmLookRegionListResponse ShmLookRegionListResponse
  | M_ShmCreateRegionResponse ShmCreateRegionResponse
  | M_ShmLookupRegionResponse ShmLookupRegionResponse
  | M_ShmDestroyRegionResponse ShmDestroyRegionResponse
  | M_ShmMapResponse ShmMapResponse
  | M_ShmQueryMemFaultStatusResponse ShmQueryMemFaultStatusResponse
  | M_ShmWriteLockRequest ShmWriteLockRequest
  | M_ShmWriteLockResponse ShmWriteLockResponse
  | M_ShmReadLockRequest ShmReadLockRequest
  | M_ShmReadLockResponse ShmReadLockResponse
  | M_ShmUnLockRequest ShmUnLockRequest
  | M_ShmUnLockResponse ShmUnLockResponse
  | M_RpcQueryInfoResponse RpcQueryInfoResponse
  | M_DLockClientReinitRequest DLockClientReinitRequest
  | M_DLockClientReinitResponse DLockClientReinitResponse
  | M_LockRequest LockRequest
  | M_UnLockRequest UnLockRequest
  | M_DLockResponse DLockResponse
  | M_RpcJoinInfoResponse RpcJoinInfoResponse
  | M_RpcVoteInfoResponse RpcVoteInfoResponse
  | M_ShmAttachRequest ShmAttachRequest
  | M_ShmAttachResponse ShmAttachResponse
  | M_ShmDetachRequest ShmDetachRequest
  | M_ShmLookupRequest ShmLookupRequest
  | M_ShmLookupResponse ShmLookupResponse
  | M_QueryNodeRequest QueryNodeRequest
  | M_QueryNodeResponse QueryNodeResponse
  | M_QueryDlockStatusResponse QueryDlockStatusResponse
  | M_ShmListLookupRequest ShmListLookupRequest
  | M_ShmListLookupResponse ShmListLookupResponse
  | M_LookupSlotIdResponse LookupSlotIdResponse
  | M_IpcSuspendRequest IpcSuspendRequest
  | M_IpcResumeRequest IpcResumeRequest

primrec Serialize :: "msg \<Rightarrow> string" where
  "Serialize (M_CheckMemoryLeaseRequest m) = Serialize_CheckMemoryLeaseRequest m"
| "Serialize (M_CheckShareMemoryMapRequest m) = Serialize_CheckShareMemoryMapRequest m"
| "Serialize (M_CommonRequest m) = Serialize_CommonRequest m"
| "Serialize (M_CommonResponse m) = Serialize_CommonResponse m"
| "Serialize (M_ShmemAllocateRequest m) = Serialize_ShmemAllocateRequest m"
| "Serialize (M_ShmemDeallocateRequest m) = Serialize_ShmemDeallocateRequest m"
| "Serialize (M_AppMallocMemoryRequest m) = Serialize_AppMallocMemoryRequest m"
| "Serialize (M_AppMallocMemoryWithLocRequest m) = Serialize_AppMallocMemoryWithLocRequest m"
| "Serialize (M_AppFreeMemoryRequest m) = Serialize_AppFreeMemoryRequest m"
| "Serialize (M_AppMallocMemoryResponse m) = Serialize_AppMallocMemoryResponse m"
| "Serialize (M_AppQueryClusterInfoResponse m) = Serialize_AppQueryClusterInfoResponse m"
| "Serialize (M_AppQueryCachedMemoryResponse m) = Serialize_AppQueryCachedMemoryResponse m"
| "Serialize (M_ShmLookRegionListRequest m) = Serialize_ShmLookRegionListRequest m"
| "Serialize (M_ShmCreateRegionRequest m) = Serialize_ShmCreateRegionRequest m"
| "Serialize (M_ShmLookupRegionRequest m) = Serialize_ShmLookupRegionRequest m"
| "Serialize (M_ShmDestroyRegionRequest m) = Serialize_ShmDestroyRegionRequest m"
| "Serialize (M_ShmCreateRequest m) = Serialize_ShmCreateRequest m"
| "Serialize (M_ShmCreateWithProviderRequest m) = Serialize_ShmCreateWithProviderRequest m"
| "Serialize (M_ShmDeleteRequest m) = Serialize_ShmDeleteRequest m"
| "Serialize (M_ShmMapRequest m) = Serialize_ShmMapRequest m"
| "Serialize (M_ShmUnmapRequest m) = Serialize_ShmUnmapRequest m"
| "Serialize (M_ShmQueryMemFaultStatusRequest m) = Serialize_ShmQueryMemFaultStatusRequest m"
| "Serialize (M_PingRequest m) = Serialize_PingRequest m"
| "Serialize (M_VoteRequest m) = Serialize_VoteRequest m"
| "Serialize (M_BroadcastRequest m) = Serialize_BroadcastRequest m"
| "Serialize (M_TransElectedRequest m) = Serialize_TransElectedRequest m"
| "Serialize (M_ShmLookRegionListResponse m) = Serialize_ShmLookRegionListResponse m"
| "Serialize (M_ShmCreateRegionResponse m) = Serialize_ShmCreateRegionResponse m"
| "Serialize (M_ShmLookupRegionResponse m) = Serialize_ShmLookupRegionResponse m"
| "Serialize (M_ShmDestroyRegionResponse m) = Serialize_ShmDestroyRegionResponse m"
| "Serialize (M_ShmMapResponse m) = Serialize_ShmMapResponse m"
| "Serialize (M_ShmQueryMemFaultStatusResponse m) = Serialize_ShmQueryMemFaultStatusResponse m"
| "Serialize (M_ShmWriteLockRequest m) = Serialize_ShmWriteLockRequest m"
| "Serialize (M_ShmWriteLockResponse m) = Serialize_ShmWriteLockResponse m"
| "Serialize (M_ShmReadLockRequest m) = Serialize_ShmReadLockRequest m"
| "Serialize (M_ShmReadLockResponse m) = Serialize_ShmReadLockResponse m"
| "Serialize (M_ShmUnLockRequest m) = Serialize_ShmUnLockRequest m"
| "Serialize (M_ShmUnLockResponse m) = Serialize_ShmUnLockResponse m"
| "Serialize (M_RpcQueryInfoResponse m) = Serialize_RpcQueryInfoResponse m"
| "Serialize (M_DLockClientReinitRequest m) = Serialize_DLockClientReinitRequest m"
| "Serialize (M_DLockClientReinitResponse m) = Serialize_DLockClientReinitResponse m"
| "Serialize (M_LockRequest m) = Serialize_LockRequest m"
| "Serialize (M_UnLockRequest m) = Serialize_UnLockRequest m"
| "Serialize (M_DLockResponse m) = Serialize_DLockResponse m"
| "Serialize (M_RpcJoinInfoResponse m) = Serialize_RpcJoinInfoResponse m"
| "Serialize (M_RpcVoteInfoResponse m) = Serialize_RpcVoteInfoResponse m"
| "Serialize (M_ShmAttachRequest m) = Serialize_ShmAttachRequest m"
| "Serialize (M_ShmAttachResponse m) = Serialize_ShmAttachResponse m"
| "Serialize (M_ShmDetachRequest m) = Serialize_ShmDetachRequest m"
| "Serialize (M_ShmLookupRequest m) = Serialize_ShmLookupRequest m"
| "Serialize (M_ShmLookupResponse m) = Serialize_ShmLookupResponse m"
| "Serialize (M_QueryNodeRequest m) = Serialize_QueryNodeRequest m"
| "Serialize (M_QueryNodeResponse m) = Serialize_QueryNodeResponse m"
| "Serialize (M_QueryDlockStatusResponse m) = Serialize_QueryDlockStatusResponse m"
| "Serialize (M_ShmListLookupRequest m) = Serialize_ShmListLookupRequest m"
| "Serialize (M_ShmListLookupResponse m) = Serialize_ShmListLookupResponse m"
| "Serialize (M_LookupSlotIdResponse m) = Serialize_LookupSlotIdResponse m"
| "Serialize (M_IpcSuspendRequest m) = Serialize_IpcSuspendRequest m"
| "Serialize (M_IpcResumeRequest m) = Serialize_IpcResumeRequest m"

text \<open>The dynamic class of an object, and the method \<^verbatim>\<open>Deserialize\<close> of each class.\<close>

datatype (plugins only: code) msg_class =
    C_CheckMemoryLeaseRequest
  | C_CheckShareMemoryMapRequest
  | C_CommonRequest
  | C_CommonResponse
  | C_ShmemAllocateRequest
  | C_ShmemDeallocateRequest
  | C_AppMallocMemoryRequest
  | C_AppMallocMemoryWithLocRequest
  | C_AppFreeMemoryRequest
  | C_AppMallocMemoryResponse
  | C_AppQueryClusterInfoResponse
  | C_AppQueryCachedMemoryResponse
  | C_ShmLookRegionListRequest
  | C_ShmCreateRegionRequest
  | C_ShmLookupRegionRequest
  | C_ShmDestroyRegionRequest
  | C_ShmCreateRequest
  | C_ShmCreateWithProviderRequest
  | C_ShmDeleteRequest
  | C_ShmMapRequest
  | C_ShmUnmapRequest
  | C_ShmQueryMemFaultStatusRequest
  | C_PingRequest
  | C_VoteRequest
  | C_BroadcastRequest
  | C_TransElectedRequest
  | C_ShmLookRegionListResponse
  | C_ShmCreateRegionResponse
  | C_ShmLookupRegionResponse
  | C_ShmDestroyRegionResponse
  | C_ShmMapResponse
  | C_ShmQueryMemFaultStatusResponse
  | C_ShmWriteLockRequest
  | C_ShmWriteLockResponse
  | C_ShmReadLockRequest
  | C_ShmReadLockResponse
  | C_ShmUnLockRequest
  | C_ShmUnLockResponse
  | C_RpcQueryInfoResponse
  | C_DLockClientReinitRequest
  | C_DLockClientReinitResponse
  | C_LockRequest
  | C_UnLockRequest
  | C_DLockResponse
  | C_RpcJoinInfoResponse
  | C_RpcVoteInfoResponse
  | C_ShmAttachRequest
  | C_ShmAttachResponse
  | C_ShmDetachRequest
  | C_ShmLookupRequest
  | C_ShmLookupResponse
  | C_QueryNodeRequest
  | C_QueryNodeResponse
  | C_QueryDlockStatusResponse
  | C_ShmListLookupRequest
  | C_ShmListLookupResponse
  | C_LookupSlotIdResponse
  | C_IpcSuspendRequest
  | C_IpcResumeRequest

primrec class_of :: "msg \<Rightarrow> msg_class" where
  "class_of (M_CheckMemoryLeaseRequest _) = C_CheckMemoryLeaseRequest"
| "class_of (M_CheckShareMemoryMapRequest _) = C_CheckShareMemoryMapRequest"
| "class_of (M_CommonRequest _) = C_CommonRequest"
| "class_of (M_CommonResponse _) = C_CommonResponse"
| "class_of (M_ShmemAllocateRequest _) = C_ShmemAllocateRequest"
| "class_of (M_ShmemDeallocateRequest _) = C_ShmemDeallocateRequest"
| "class_of (M_AppMallocMemoryRequest _) = C_AppMallocMemoryRequest"
| "class_of (M_AppMallocMemoryWithLocRequest _) = C_AppMallocMemoryWithLocRequest"
| "class_of (M_AppFreeMemoryRequest _) = C_AppFreeMemoryRequest"
| "class_of (M_AppMallocMemoryResponse _) = C_AppMallocMemoryResponse"
| "class_of (M_AppQueryClusterInfoResponse _) = C_AppQueryClusterInfoResponse"
| "class_of (M_AppQueryCachedMemoryResponse _) = C_AppQueryCachedMemoryResponse"
| "class_of (M_ShmLookRegionListRequest _) = C_ShmLookRegionListRequest"
| "class_of (M_ShmCreateRegionRequest _) = C_ShmCreateRegionRequest"
| "class_of (M_ShmLookupRegionRequest _) = C_ShmLookupRegionRequest"
| "class_of (M_ShmDestroyRegionRequest _) = C_ShmDestroyRegionRequest"
| "class_of (M_ShmCreateRequest _) = C_ShmCreateRequest"
| "class_of (M_ShmCreateWithProviderRequest _) = C_ShmCreateWithProviderRequest"
| "class_of (M_ShmDeleteRequest _) = C_ShmDeleteRequest"
| "class_of (M_ShmMapRequest _) = C_ShmMapRequest"
| "class_of (M_ShmUnmapRequest _) = C_ShmUnmapRequest"
| "class_of (M_ShmQueryMemFaultStatusRequest _) = C_ShmQueryMemFaultStatusRequest"
| "class_of (M_PingRequest _) = C_PingRequest"
| "class_of (M_VoteRequest _) = C_VoteRequest"
| "class_of (M_BroadcastRequest _) = C_BroadcastRequest"
| "class_of (M_TransElectedRequest _) = C_TransElectedRequest"
| "class_of (M_ShmLookRegionListResponse _) = C_ShmLookRegionListResponse"
| "class_of (M_ShmCreateRegionResponse _) = C_ShmCreateRegionResponse"
| "class_of (M_ShmLookupRegionResponse _) = C_ShmLookupRegionResponse"
| "class_of (M_ShmDestroyRegionResponse _) = C_ShmDestroyRegionResponse"
| "class_of (M_ShmMapResponse _) = C_ShmMapResponse"
| "class_of (M_ShmQueryMemFaultStatusResponse _) = C_ShmQueryMemFaultStatusResponse"
| "class_of (M_ShmWriteLockRequest _) = C_ShmWriteLockRequest"
| "class_of (M_ShmWriteLockResponse _) = C_ShmWriteLockResponse"
| "class_of (M_ShmReadLockRequest _) = C_ShmReadLockRequest"
| "class_of (M_ShmReadLockResponse _) = C_ShmReadLockResponse"
| "class_of (M_ShmUnLockRequest _) = C_ShmUnLockRequest"
| "class_of (M_ShmUnLockResponse _) = C_ShmUnLockResponse"
| "class_of (M_RpcQueryInfoResponse _) = C_RpcQueryInfoResponse"
| "class_of (M_DLockClientReinitRequest _) = C_DLockClientReinitRequest"
| "class_of (M_DLockClientReinitResponse _) = C_DLockClientReinitResponse"
| "class_of (M_LockRequest _) = C_LockRequest"
| "class_of (M_UnLockRequest _) = C_UnLockRequest"
| "class_of (M_DLockResponse _) = C_DLockResponse"
| "class_of (M_RpcJoinInfoResponse _) = C_RpcJoinInfoResponse"
| "class_of (M_RpcVoteInfoResponse _) = C_RpcVoteInfoResponse"
| "class_of (M_ShmAttachRequest _) = C_ShmAttachRequest"
| "class_of (M_ShmAttachResponse _) = C_ShmAttachResponse"
| "class_of (M_ShmDetachRequest _) = C_ShmDetachRequest"
| "class_of (M_ShmLookupRequest _) = C_ShmLookupRequest"
| "class_of (M_ShmLookupResponse _) = C_ShmLookupResponse"
| "class_of (M_QueryNodeRequest _) = C_QueryNodeRequest"
| "class_of (M_QueryNodeResponse _) = C_QueryNodeResponse"
| "class_of (M_QueryDlockStatusResponse _) = C_QueryDlockStatusResponse"
| "class_of (M_ShmListLookupRequest _) = C_ShmListLookupRequest"
| "class_of (M_ShmListLookupResponse _) = C_ShmListLookupResponse"
| "class_of (M_LookupSlotIdResponse _) = C_LookupSlotIdResponse"
| "class_of (M_IpcSuspendRequest _) = C_IpcSuspendRequest"
| "class_of (M_IpcResumeRequest _) = C_IpcResumeRequest"

primrec read_class :: "msg_class \<Rightarrow> msg unpack" where
  "read_class C_CheckMemoryLeaseRequest = do { m \<leftarrow> Deserialize_CheckMemoryLeaseRequest; return (M_CheckMemoryLeaseRequest m) }"
| "read_class C_CheckShareMemoryMapRequest = do { m \<leftarrow> Deserialize_CheckShareMemoryMapRequest; return (M_CheckShareMemoryMapRequest m) }"
| "read_class C_CommonRequest = do { m \<leftarrow> Deserialize_CommonRequest; return (M_CommonRequest m) }"
| "read_class C_CommonResponse = do { m \<leftarrow> Deserialize_CommonResponse; return (M_CommonResponse m) }"
| "read_class C_ShmemAllocateRequest = do { m \<leftarrow> Deserialize_ShmemAllocateRequest; return (M_ShmemAllocateRequest m) }"
| "read_class C_ShmemDeallocateRequest = do { m \<leftarrow> Deserialize_ShmemDeallocateRequest; return (M_ShmemDeallocateRequest m) }"
| "read_class C_AppMallocMemoryRequest = do { m \<leftarrow> Deserialize_AppMallocMemoryRequest; return (M_AppMallocMemoryRequest m) }"
| "read_class C_AppMallocMemoryWithLocRequest = do { m \<leftarrow> Deserialize_AppMallocMemoryWithLocRequest; return (M_AppMallocMemoryWithLocRequest m) }"
| "read_class C_AppFreeMemoryRequest = do { m \<leftarrow> Deserialize_AppFreeMemoryRequest; return (M_AppFreeMemoryRequest m) }"
| "read_class C_AppMallocMemoryResponse = do { m \<leftarrow> Deserialize_AppMallocMemoryResponse; return (M_AppMallocMemoryResponse m) }"
| "read_class C_AppQueryClusterInfoResponse = do { m \<leftarrow> Deserialize_AppQueryClusterInfoResponse; return (M_AppQueryClusterInfoResponse m) }"
| "read_class C_AppQueryCachedMemoryResponse = do { m \<leftarrow> Deserialize_AppQueryCachedMemoryResponse; return (M_AppQueryCachedMemoryResponse m) }"
| "read_class C_ShmLookRegionListRequest = do { m \<leftarrow> Deserialize_ShmLookRegionListRequest; return (M_ShmLookRegionListRequest m) }"
| "read_class C_ShmCreateRegionRequest = do { m \<leftarrow> Deserialize_ShmCreateRegionRequest; return (M_ShmCreateRegionRequest m) }"
| "read_class C_ShmLookupRegionRequest = do { m \<leftarrow> Deserialize_ShmLookupRegionRequest; return (M_ShmLookupRegionRequest m) }"
| "read_class C_ShmDestroyRegionRequest = do { m \<leftarrow> Deserialize_ShmDestroyRegionRequest; return (M_ShmDestroyRegionRequest m) }"
| "read_class C_ShmCreateRequest = do { m \<leftarrow> Deserialize_ShmCreateRequest; return (M_ShmCreateRequest m) }"
| "read_class C_ShmCreateWithProviderRequest = do { m \<leftarrow> Deserialize_ShmCreateWithProviderRequest; return (M_ShmCreateWithProviderRequest m) }"
| "read_class C_ShmDeleteRequest = do { m \<leftarrow> Deserialize_ShmDeleteRequest; return (M_ShmDeleteRequest m) }"
| "read_class C_ShmMapRequest = do { m \<leftarrow> Deserialize_ShmMapRequest; return (M_ShmMapRequest m) }"
| "read_class C_ShmUnmapRequest = do { m \<leftarrow> Deserialize_ShmUnmapRequest; return (M_ShmUnmapRequest m) }"
| "read_class C_ShmQueryMemFaultStatusRequest = do { m \<leftarrow> Deserialize_ShmQueryMemFaultStatusRequest; return (M_ShmQueryMemFaultStatusRequest m) }"
| "read_class C_PingRequest = do { m \<leftarrow> Deserialize_PingRequest; return (M_PingRequest m) }"
| "read_class C_VoteRequest = do { m \<leftarrow> Deserialize_VoteRequest; return (M_VoteRequest m) }"
| "read_class C_BroadcastRequest = do { m \<leftarrow> Deserialize_BroadcastRequest; return (M_BroadcastRequest m) }"
| "read_class C_TransElectedRequest = do { m \<leftarrow> Deserialize_TransElectedRequest; return (M_TransElectedRequest m) }"
| "read_class C_ShmLookRegionListResponse = do { m \<leftarrow> Deserialize_ShmLookRegionListResponse; return (M_ShmLookRegionListResponse m) }"
| "read_class C_ShmCreateRegionResponse = do { m \<leftarrow> Deserialize_ShmCreateRegionResponse; return (M_ShmCreateRegionResponse m) }"
| "read_class C_ShmLookupRegionResponse = do { m \<leftarrow> Deserialize_ShmLookupRegionResponse; return (M_ShmLookupRegionResponse m) }"
| "read_class C_ShmDestroyRegionResponse = do { m \<leftarrow> Deserialize_ShmDestroyRegionResponse; return (M_ShmDestroyRegionResponse m) }"
| "read_class C_ShmMapResponse = do { m \<leftarrow> Deserialize_ShmMapResponse; return (M_ShmMapResponse m) }"
| "read_class C_ShmQueryMemFaultStatusResponse = do { m \<leftarrow> Deserialize_ShmQueryMemFaultStatusResponse; return (M_ShmQueryMemFaultStatusResponse m) }"
| "read_class C_ShmWriteLockRequest = do { m \<leftarrow> Deserialize_ShmWriteLockRequest; return (M_ShmWriteLockRequest m) }"
| "read_class C_ShmWriteLockResponse = do { m \<leftarrow> Deserialize_ShmWriteLockResponse; return (M_ShmWriteLockResponse m) }"
| "read_class C_ShmReadLockRequest = do { m \<leftarrow> Deserialize_ShmReadLockRequest; return (M_ShmReadLockRequest m) }"
| "read_class C_ShmReadLockResponse = do { m \<leftarrow> Deserialize_ShmReadLockResponse; return (M_ShmReadLockResponse m) }"
| "read_class C_ShmUnLockRequest = do { m \<leftarrow> Deserialize_ShmUnLockRequest; return (M_ShmUnLockRequest m) }"
| "read_class C_ShmUnLockResponse = do { m \<leftarrow> Deserialize_ShmUnLockResponse; return (M_ShmUnLockResponse m) }"
| "read_class C_RpcQueryInfoResponse = do { m \<leftarrow> Deserialize_RpcQueryInfoResponse; return (M_RpcQueryInfoResponse m) }"
| "read_class C_DLockClientReinitRequest = do { m \<leftarrow> Deserialize_DLockClientReinitRequest; return (M_DLockClientReinitRequest m) }"
| "read_class C_DLockClientReinitResponse = do { m \<leftarrow> Deserialize_DLockClientReinitResponse; return (M_DLockClientReinitResponse m) }"
| "read_class C_LockRequest = do { m \<leftarrow> Deserialize_LockRequest; return (M_LockRequest m) }"
| "read_class C_UnLockRequest = do { m \<leftarrow> Deserialize_UnLockRequest; return (M_UnLockRequest m) }"
| "read_class C_DLockResponse = do { m \<leftarrow> Deserialize_DLockResponse; return (M_DLockResponse m) }"
| "read_class C_RpcJoinInfoResponse = do { m \<leftarrow> Deserialize_RpcJoinInfoResponse; return (M_RpcJoinInfoResponse m) }"
| "read_class C_RpcVoteInfoResponse = do { m \<leftarrow> Deserialize_RpcVoteInfoResponse; return (M_RpcVoteInfoResponse m) }"
| "read_class C_ShmAttachRequest = do { m \<leftarrow> Deserialize_ShmAttachRequest; return (M_ShmAttachRequest m) }"
| "read_class C_ShmAttachResponse = do { m \<leftarrow> Deserialize_ShmAttachResponse; return (M_ShmAttachResponse m) }"
| "read_class C_ShmDetachRequest = do { m \<leftarrow> Deserialize_ShmDetachRequest; return (M_ShmDetachRequest m) }"
| "read_class C_ShmLookupRequest = do { m \<leftarrow> Deserialize_ShmLookupRequest; return (M_ShmLookupRequest m) }"
| "read_class C_ShmLookupResponse = do { m \<leftarrow> Deserialize_ShmLookupResponse; return (M_ShmLookupResponse m) }"
| "read_class C_QueryNodeRequest = do { m \<leftarrow> Deserialize_QueryNodeRequest; return (M_QueryNodeRequest m) }"
| "read_class C_QueryNodeResponse = do { m \<leftarrow> Deserialize_QueryNodeResponse; return (M_QueryNodeResponse m) }"
| "read_class C_QueryDlockStatusResponse = do { m \<leftarrow> Deserialize_QueryDlockStatusResponse; return (M_QueryDlockStatusResponse m) }"
| "read_class C_ShmListLookupRequest = do { m \<leftarrow> Deserialize_ShmListLookupRequest; return (M_ShmListLookupRequest m) }"
| "read_class C_ShmListLookupResponse = do { m \<leftarrow> Deserialize_ShmListLookupResponse; return (M_ShmListLookupResponse m) }"
| "read_class C_LookupSlotIdResponse = do { m \<leftarrow> Deserialize_LookupSlotIdResponse; return (M_LookupSlotIdResponse m) }"
| "read_class C_IpcSuspendRequest = do { m \<leftarrow> Deserialize_IpcSuspendRequest; return (M_IpcSuspendRequest m) }"
| "read_class C_IpcResumeRequest = do { m \<leftarrow> Deserialize_IpcResumeRequest; return (M_IpcResumeRequest m) }"

definition Deserialize :: "msg \<Rightarrow> msg unpack" where
  "Deserialize obj = read_class (class_of obj)"

primrec fits :: "msg \<Rightarrow> bool" where
  "fits (M_CheckMemoryLeaseRequest m) = fits_CheckMemoryLeaseRequest m"
| "fits (M_CheckShareMemoryMapRequest m) = fits_CheckShareMemoryMapRequest m"
| "fits (M_CommonRequest m) = fits_CommonRequest m"
| "fits (M_CommonResponse m) = fits_CommonResponse m"
| "fits (M_ShmemAllocateRequest m) = fits_ShmemAllocateRequest m"
| "fits (M_ShmemDeallocateRequest m) = fits_ShmemDeallocateRequest m"
| "fits (M_AppMallocMemoryRequest m) = fits_AppMallocMemoryRequest m"
| "fits (M_AppMallocMemoryWithLocRequest m) = fits_AppMallocMemoryWithLocRequest m"
| "fits (M_AppFreeMemoryRequest m) = fits_AppFreeMemoryRequest m"
| "fits (M_AppMallocMemoryResponse m) = fits_AppMallocMemoryResponse m"
| "fits (M_AppQueryClusterInfoResponse m) = fits_AppQueryClusterInfoResponse m"
| "fits (M_AppQueryCachedMemoryResponse m) = fits_AppQueryCachedMemoryResponse m"
| "fits (M_ShmLookRegionListRequest m) = fits_ShmLookRegionListRequest m"
| "fits (M_ShmCreateRegionRequest m) = fits_ShmCreateRegionRequest m"
| "fits (M_ShmLookupRegionRequest m) = fits_ShmLookupRegionRequest m"
| "fits (M_ShmDestroyRegionRequest m) = fits_ShmDestroyRegionRequest m"
| "fits (M_ShmCreateRequest m) = fits_ShmCreateRequest m"
| "fits (M_ShmCreateWithProviderRequest m) = fits_ShmCreateWithProviderRequest m"
| "fits (M_ShmDeleteRequest m) = fits_ShmDeleteRequest m"
| "fits (M_ShmMapRequest m) = fits_ShmMapRequest m"
| "fits (M_ShmUnmapRequest m) = fits_ShmUnmapRequest m"
| "fits (M_ShmQueryMemFaultStatusRequest m) = fits_ShmQueryMemFaultStatusRequest m"
| "fits (M_PingRequest m) = fits_PingRequest m"
| "fits (M_VoteRequest m) = fits_VoteRequest m"
| "fits (M_BroadcastRequest m) = fits_BroadcastRequest m"
| "fits (M_TransElectedRequest m) = fits_TransElectedRequest m"
| "fits (M_ShmLookRegionListResponse m) = fits_ShmLookRegionListResponse m"
| "fits (M_ShmCreateRegionResponse m) = fits_ShmCreateRegionResponse m"
| "fits (M_ShmLookupRegionResponse m) = fits_ShmLookupRegionResponse m"
| "fits (M_ShmDestroyRegionResponse m) = fits_ShmDestroyRegionResponse m"
| "fits (M_ShmMapResponse m) = fits_ShmMapResponse m"
| "fits (M_ShmQueryMemFaultStatusResponse m) = fits_ShmQueryMemFaultStatusResponse m"
| "fits (M_ShmWriteLockRequest m) = fits_ShmWriteLockRequest m"
| "fits (M_ShmWriteLockResponse m) = fits_ShmWriteLockResponse m"
| "fits (M_ShmReadLockRequest m) = fits_ShmReadLockRequest m"
| "fits (M_ShmReadLockResponse m) = fits_ShmReadLockResponse m"
| "fits (M_ShmUnLockRequest m) = fits_ShmUnLockRequest m"
| "fits (M_ShmUnLockResponse m) = fits_ShmUnLockResponse m"
| "fits (M_RpcQueryInfoResponse m) = fits_RpcQueryInfoResponse m"
| "fits (M_DLockClientReinitRequest m) = fits_DLockClientReinitRequest m"
| "fits (M_DLockClientReinitResponse m) = fits_DLockClientReinitResponse m"
| "fits (M_LockRequest m) = fits_LockRequest m"
| "fits (M_UnLockRequest m) = fits_UnLockRequest m"
| "fits (M_DLockResponse m) = fits_DLockResponse m"
| "fits (M_RpcJoinInfoResponse m) = fits_RpcJoinInfoResponse m"
| "fits (M_RpcVoteInfoResponse m) = fits_RpcVoteInfoResponse m"
| "fits (M_ShmAttachRequest m) = fits_ShmAttachRequest m"
| "fits (M_ShmAttachResponse m) = fits_ShmAttachResponse m"
| "fits (M_ShmDetachRequest m) = fits_ShmDetachRequest m"
| "fits (M_ShmLookupRequest m) = fits_ShmLookupRequest m"
| "fits (M_ShmLookupResponse m) = fits_ShmLookupResponse m"
| "fits (M_QueryNodeRequest m) = fits_QueryNodeRequest m"
| "fits (M_QueryNodeResponse m) = fits_QueryNodeResponse m"
| "fits (M_QueryDlockStatusResponse m) = fits_QueryDlockStatusResponse m"
| "fits (M_ShmListLookupRequest m) = fits_ShmListLookupRequest m"
| "fits (M_ShmListLookupResponse m) = fits_ShmListLookupResponse m"
| "fits (M_LookupSlotIdResponse m) = fits_LookupSlotIdResponse m"
| "fits (M_IpcSuspendRequest m) = fits_IpcSuspendRequest m"
| "fits (M_IpcResumeRequest m) = fits_IpcResumeRequest m"

section \<open>Factories\<close>

definition requestMap :: "(u16 \<times> msg) list" where
  "requestMap = [
     (MXM_MSG_SHM_ALLOCATE, M_ShmemAllocateRequest new_ShmemAllocateRequest),
     (MXM_MSG_SHM_DEALLOCATE, M_ShmemDeallocateRequest new_ShmemDeallocateRequest),
     (IPC_MALLOC_MEMORY, M_AppMallocMemoryRequest new_AppMallocMemoryRequest),
     (IPC_MALLOC_MEMORY_LOC, M_AppMallocMemoryWithLocRequest new_AppMallocMemoryWithLocRequest),
     (IPC_FREE_RACKMEM, M_AppFreeMemoryRequest new_AppFreeMemoryRequest),
     (IPC_QUERY_CLUSTERINFO, M_CommonRequest new_CommonRequest),
     (IPC_RACKMEMSHM_LOOKUP_SHAREREGIONS, M_ShmLookRegionListRequest new_ShmLookRegionListRequest),
     (IPC_RACKMEMSHM_CREATE, M_ShmCreateRequest new_ShmCreateRequest),
     (IPC_RACKMEMSHM_CREATE_WITH_PROVIDER, M_ShmCreateWithProviderRequest new_ShmCreateWithProviderRequest),
     (IPC_RACKMEMSHM_DELETE, M_ShmDeleteRequest new_ShmDeleteRequest),
     (IPC_RACKMEMSHM_MMAP, M_ShmMapRequest new_ShmMapRequest),
     (IPC_RACKMEMSHM_UNMMAP, M_ShmUnmapRequest new_ShmUnmapRequest),
     (IPC_RACKMEMSHM_QUERY_MEM_FAULT_STATUS, M_ShmQueryMemFaultStatusRequest new_ShmQueryMemFaultStatusRequest),
     (IPC_RACKMEMSHM_WRITELOCK, M_ShmWriteLockRequest new_ShmWriteLockRequest),
     (IPC_RACKMEMSHM_READLOCK, M_ShmReadLockRequest new_ShmReadLockRequest),
     (IPC_RACKMEMSHM_UNLOCK, M_ShmUnLockRequest new_ShmUnLockRequest),
     (IPC_RACKMEMSHM_ATTACH, M_ShmAttachRequest new_ShmAttachRequest),
     (IPC_RACKMEMSHM_DETACH, M_ShmDetachRequest new_ShmDetachRequest),
     (IPC_RACKMEMSHM_LOOKUP_LIST, M_ShmListLookupRequest new_ShmListLookupRequest),
     (IPC_RACKMEMSHM_LOOKUP, M_ShmLookupRequest new_ShmLookupRequest),
     (RPC_AGENT_QUERY_NODE_INFO, M_CommonRequest new_CommonRequest),
     (RPC_DLOCK_CLIENT_REINIT, M_DLockClientReinitRequest new_DLockClientReinitRequest),
     (IPC_RACKMEMSHM_QUERY_NODE, M_QueryNodeRequest new_QueryNodeRequest),
     (IPC_RACKMEMSHM_QUERY_DLOCK_STATUS, M_CommonRequest new_CommonRequest),
     (IPC_CHECK_SHARE_MEMORY, M_CheckShareMemoryMapRequest new_CheckShareMemoryMapRequest),
     (IPC_CHECK_MEMORY_LEASE, M_CheckMemoryLeaseRequest new_CheckMemoryLeaseRequest),
     (IPC_RACKMEMSHM_QUERY_SLOT_ID, M_CommonRequest new_CommonRequest),
     (IPC_SUSPEND_CLIENT, M_IpcSuspendRequest new_IpcSuspendRequest),
     (IPC_RESUME_CLIENT, M_IpcResumeRequest new_IpcResumeRequest)]"

definition responseMap :: "(u16 \<times> msg) list" where
  "responseMap = [
     (MXM_MSG_SHM_ALLOCATE, M_CommonResponse new_CommonResponse),
     (MXM_MSG_SHM_DEALLOCATE, M_CommonResponse new_CommonResponse),
     (IPC_MALLOC_MEMORY, M_AppMallocMemoryResponse new_AppMallocMemoryResponse),
     (IPC_MALLOC_MEMORY_LOC, M_AppMallocMemoryResponse new_AppMallocMemoryResponse),
     (IPC_FREE_RACKMEM, M_CommonResponse new_CommonResponse),
     (IPC_QUERY_CLUSTERINFO, M_AppQueryClusterInfoResponse new_AppQueryClusterInfoResponse),
     (IPC_RACKMEMSHM_LOOKUP_SHAREREGIONS, M_ShmLookRegionListResponse new_ShmLookRegionListResponse),
     (IPC_RACKMEMSHM_CREATE, M_CommonResponse new_CommonResponse),
     (IPC_RACKMEMSHM_CREATE_WITH_PROVIDER, M_CommonResponse new_CommonResponse),
     (IPC_RACKMEMSHM_DELETE, M_CommonResponse new_CommonResponse),
     (IPC_RACKMEMSHM_MMAP, M_ShmMapResponse new_ShmMapResponse),
     (IPC_RACKMEMSHM_UNMMAP, M_CommonResponse new_CommonResponse),
     (IPC_RACKMEMSHM_QUERY_MEM_FAULT_STATUS, M_ShmQueryMemFaultStatusResponse new_ShmQueryMemFaultStatusResponse),
     (IPC_RACKMEMSHM_WRITELOCK, M_ShmWriteLockResponse new_ShmWriteLockResponse),
     (IPC_RACKMEMSHM_READLOCK, M_ShmReadLockResponse new_ShmReadLockResponse),
     (IPC_RACKMEMSHM_UNLOCK, M_ShmUnLockResponse new_ShmUnLockResponse),
     (IPC_RACKMEMSHM_ATTACH, M_ShmAttachResponse new_ShmAttachResponse),
     (IPC_RACKMEMSHM_DETACH, M_CommonResponse new_CommonResponse),
     (IPC_RACKMEMSHM_LOOKUP_LIST, M_ShmListLookupResponse new_ShmListLookupResponse),
     (IPC_RACKMEMSHM_LOOKUP, M_ShmLookupResponse new_ShmLookupResponse),
     (RPC_AGENT_QUERY_NODE_INFO, M_RpcQueryInfoResponse new_RpcQueryInfoResponse),
     (RPC_DLOCK_CLIENT_REINIT, M_DLockClientReinitResponse new_DLockClientReinitResponse),
     (IPC_RACKMEMSHM_QUERY_NODE, M_QueryNodeResponse new_QueryNodeResponse),
     (IPC_RACKMEMSHM_QUERY_DLOCK_STATUS, M_QueryDlockStatusResponse new_QueryDlockStatusResponse),
     (IPC_CHECK_SHARE_MEMORY, M_CommonResponse new_CommonResponse),
     (IPC_CHECK_MEMORY_LEASE, M_CommonResponse new_CommonResponse),
     (IPC_RACKMEMSHM_QUERY_SLOT_ID, M_LookupSlotIdResponse new_LookupSlotIdResponse),
     (IPC_SUSPEND_CLIENT, M_CommonResponse new_CommonResponse),
     (IPC_RESUME_CLIENT, M_CommonResponse new_CommonResponse)]"

definition CreateRequestByOpCodeInner :: "u16 \<Rightarrow> msg option" where
  "CreateRequestByOpCodeInner op =
     (if op = IPC_REGION_LOOKUP_REGION_LIST then Some (M_ShmLookRegionListRequest new_ShmLookRegionListRequest)
      else if op = IPC_REGION_CREATE_REGION then Some (M_ShmCreateRegionRequest new_ShmCreateRegionRequest)
      else if op = IPC_REGION_LOOKUP_REGION then Some (M_ShmLookupRegionRequest new_ShmLookupRegionRequest)
      else if op = IPC_REGION_DESTROY_REGION then Some (M_ShmDestroyRegionRequest new_ShmDestroyRegionRequest)
      else if op = IPC_FORCE_FREE_CACHED_MEMORY then Some (M_CommonRequest new_CommonRequest)
      else if op = IPC_QUERY_CACHED_MEMORY then Some (M_CommonRequest new_CommonRequest)
      else if op = RPC_PING_NODE_INFO then Some (M_PingRequest new_PingRequest)
      else if op = RPC_JOIN_NODE_INFO then Some (M_PingRequest new_PingRequest)
      else if op = RPC_MASTER_ELECTED_NODE_INFO then Some (M_BroadcastRequest new_BroadcastRequest)
      else if op = RPC_SEND_ELECTED_MASTER_INFO then Some (M_TransElectedRequest new_TransElectedRequest)
      else if op = RPC_VOTE_NODE_INFO then Some (M_VoteRequest new_VoteRequest)
      else if op = RPC_BROADCAST_NODE_INFO then Some (M_BroadcastRequest new_BroadcastRequest)
      else if op = RPC_LOCK then Some (M_LockRequest new_LockRequest)
      else if op = RPC_UNLOCK then Some (M_UnLockRequest new_UnLockRequest)
      else None)"

definition CreateResponseByOpCodeInner :: "u16 \<Rightarrow> msg option" where
  "CreateResponseByOpCodeInner op =
     (if op = IPC_REGION_LOOKUP_REGION_LIST then Some (M_ShmLookRegionListResponse new_ShmLookRegionListResponse)
      else if op = IPC_REGION_CREATE_REGION then Some (M_ShmCreateRegionResponse new_ShmCreateRegionResponse)
      else if op = IPC_REGION_LOOKUP_REGION then Some (M_ShmLookupRegionResponse new_ShmLookupRegionResponse)
      else if op = IPC_REGION_DESTROY_REGION then Some (M_ShmDestroyRegionResponse new_ShmDestroyRegionResponse)
      else if op = IPC_FORCE_FREE_CACHED_MEMORY then Some (M_CommonResponse new_CommonResponse)
      else if op = IPC_QUERY_CACHED_MEMORY then Some (M_AppQueryCachedMemoryResponse new_AppQueryCachedMemoryResponse)
      else if op = RPC_PING_NODE_INFO then Some (M_RpcQueryInfoResponse new_RpcQueryInfoResponse)
      else if op = RPC_JOIN_NODE_INFO then Some (M_RpcJoinInfoResponse new_RpcJoinInfoResponse)
      else if op = RPC_MASTER_ELECTED_NODE_INFO then Some (M_RpcQueryInfoResponse new_RpcQueryInfoResponse)
      else if op = RPC_SEND_ELECTED_MASTER_INFO then Some (M_RpcQueryInfoResponse new_RpcQueryInfoResponse)
      else if op = RPC_VOTE_NODE_INFO then Some (M_RpcVoteInfoResponse new_RpcVoteInfoResponse)
      else if op = RPC_BROADCAST_NODE_INFO then Some (M_RpcQueryInfoResponse new_RpcQueryInfoResponse)
      else if op = RPC_LOCK then Some (M_DLockResponse new_DLockResponse)
      else if op = RPC_UNLOCK then Some (M_DLockResponse new_DLockResponse)
      else None)"

definition CreateRequestByOpCode :: "u16 \<Rightarrow> msg option" where
  "CreateRequestByOpCode op =
     (case map_of requestMap op of Some m \<Rightarrow> Some m | None \<Rightarrow> CreateRequestByOpCodeInner op)"

definition CreateResponseByOpCode :: "u16 \<Rightarrow> msg option" where
  "CreateResponseByOpCode op =
     (case map_of responseMap op of Some m \<Rightarrow> Some m | None \<Rightarrow> CreateResponseByOpCodeInner op)"

section \<open>Every class is a codec\<close>

lemmas message_codecs =
  CheckMemoryLeaseRequest.codec_axioms
  CheckShareMemoryMapRequest.codec_axioms
  CommonRequest.codec_axioms
  CommonResponse.codec_axioms
  ShmemAllocateRequest.codec_axioms
  ShmemDeallocateRequest.codec_axioms
  AppMallocMemoryRequest.codec_axioms
  AppMallocMemoryWithLocRequest.codec_axioms
  AppFreeMemoryRequest.codec_axioms
  AppMallocMemoryResponse.codec_axioms
  AppQueryClusterInfoResponse.codec_axioms
  AppQueryCachedMemoryResponse.codec_axioms
  ShmLookRegionListRequest.codec_axioms
  ShmCreateRegionRequest.codec_axioms
  ShmLookupRegionRequest.codec_axioms
  ShmDestroyRegionRequest.codec_axioms
  ShmCreateRequest.codec_axioms
  ShmCreateWithProviderRequest.codec_axioms
  ShmDeleteRequest.codec_axioms
  ShmMapRequest.codec_axioms
  ShmUnmapRequest.codec_axioms
  ShmQueryMemFaultStatusRequest.codec_axioms
  PingRequest.codec_axioms
  VoteRequest.codec_axioms
  BroadcastRequest.codec_axioms
  TransElectedRequest.codec_axioms
  ShmLookRegionListResponse.codec_axioms
  ShmCreateRegionResponse.codec_axioms
  ShmLookupRegionResponse.codec_axioms
  ShmDestroyRegionResponse.codec_axioms
  ShmMapResponse.codec_axioms
  ShmQueryMemFaultStatusResponse.codec_axioms
  ShmWriteLockRequest.codec_axioms
  ShmWriteLockResponse.codec_axioms
  ShmReadLockRequest.codec_axioms
  ShmReadLockResponse.codec_axioms
  ShmUnLockRequest.codec_axioms
  ShmUnLockResponse.codec_axioms
  RpcQueryInfoResponse.codec_axioms
  DLockClientReinitRequest.codec_axioms
  DLockClientReinitResponse.codec_axioms
  LockRequest.codec_axioms
  UnLockRequest.codec_axioms
  DLockResponse.codec_axioms
  RpcJoinInfoResponse.codec_axioms
  RpcVoteInfoResponse.codec_axioms
  ShmAttachRequest.codec_axioms
  ShmAttachResponse.codec_axioms
  ShmDetachRequest.codec_axioms
  ShmLookupRequest.codec_axioms
  ShmLookupResponse.codec_axioms
  QueryNodeRequest.codec_axioms
  QueryNodeResponse.codec_axioms
  QueryDlockStatusResponse.codec_axioms
  ShmListLookupRequest.codec_axioms
  ShmListLookupResponse.codec_axioms
  LookupSlotIdResponse.codec_axioms
  IpcSuspendRequest.codec_axioms
  IpcResumeRequest.codec_axioms

lemma class_bind: "codec g p ok \<Longrightarrow> reader (do { m \<leftarrow> g; return (C m) })"
  using codec.axioms(1) by (intro reader_bind reader_return)

lemma Deserialize_reader: "reader (Deserialize obj)"
  by (cases obj) (simp_all add: Deserialize_def message_codecs[THEN class_bind])

lemma Deserialize_self: "fits m \<Longrightarrow> run_state (Deserialize m) (ready (Serialize m @ rest)) = (m, ready rest)"
  by (cases m) (simp_all add: Deserialize_def message_codecs[THEN codec.roundtrip])

lemma Serialize_nonempty: "fits m \<Longrightarrow> Serialize m \<noteq> []"
  by (cases m) (simp_all add: message_codecs[THEN codec.nonempty])

interpretation message: codec "Deserialize obj" Serialize "\<lambda>m. fits m \<and> class_of m = class_of obj"
proof (rule codecI)
  show "reader (Deserialize obj)" by (rule Deserialize_reader)
  show "run_state (Deserialize obj) (ready (Serialize m @ rest)) = (m, ready rest)"
    if "fits m \<and> class_of m = class_of obj" for m rest
    using that Deserialize_self[of m rest] by (simp add: Deserialize_def)
  show "Serialize m \<noteq> []" if "fits m \<and> class_of m = class_of obj" for m
    using that Serialize_nonempty by blast
qed

end
