(* ===== verification/Crc32.thy ===== *)
theory Crc32
  imports Ubsm_Prelude
begin

text \<open>
  The checksum of the message bodies: \<^verbatim>\<open>CrcUtil::SoftCrc32\<close> of \<^verbatim>\<open>common/hdagger/crc/dg_crc.h\<close>.
  The table-driven routine is proved equal to the bitwise CRC-32C, and to detect every change of
  a single byte.
\<close>

section \<open>Table-driven routine\<close>

definition gCrcTable :: "u32 list" where
  "gCrcTable = [
      0x00000000, 0xF26B8303, 0xE13B70F7, 0x1350F3F4, 0xC79A971F, 0x35F1141C, 0x26A1E7E8, 0xD4CA64EB,
      0x8AD958CF, 0x78B2DBCC, 0x6BE22838, 0x9989AB3B, 0x4D43CFD0, 0xBF284CD3, 0xAC78BF27, 0x5E133C24,
      0x105EC76F, 0xE235446C, 0xF165B798, 0x030E349B, 0xD7C45070, 0x25AFD373, 0x36FF2087, 0xC494A384,
      0x9A879FA0, 0x68EC1CA3, 0x7BBCEF57, 0x89D76C54, 0x5D1D08BF, 0xAF768BBC, 0xBC267848, 0x4E4DFB4B,
      0x20BD8EDE, 0xD2D60DDD, 0xC186FE29, 0x33ED7D2A, 0xE72719C1, 0x154C9AC2, 0x061C6936, 0xF477EA35,
      0xAA64D611, 0x580F5512, 0x4B5FA6E6, 0xB93425E5, 0x6DFE410E, 0x9F95C20D, 0x8CC531F9, 0x7EAEB2FA,
      0x30E349B1, 0xC288CAB2, 0xD1D83946, 0x23B3BA45, 0xF779DEAE, 0x05125DAD, 0x1642AE59, 0xE4292D5A,
      0xBA3A117E, 0x4851927D, 0x5B016189, 0xA96AE28A, 0x7DA08661, 0x8FCB0562, 0x9C9BF696, 0x6EF07595,
      0x417B1DBC, 0xB3109EBF, 0xA0406D4B, 0x522BEE48, 0x86E18AA3, 0x748A09A0, 0x67DAFA54, 0x95B17957,
      0xCBA24573, 0x39C9C670, 0x2A993584, 0xD8F2B687, 0x0C38D26C, 0xFE53516F, 0xED03A29B, 0x1F682198,
      0x5125DAD3, 0xA34E59D0, 0xB01EAA24, 0x42752927, 0x96BF4DCC, 0x64D4CECF, 0x77843D3B, 0x85EFBE38,
      0xDBFC821C, 0x2997011F, 0x3AC7F2EB, 0xC8AC71E8, 0x1C661503, 0xEE0D9600, 0xFD5D65F4, 0x0F36E6F7,
      0x61C69362, 0x93AD1061, 0x80FDE395, 0x72966096, 0xA65C047D, 0x5437877E, 0x4767748A, 0xB50CF789,
      0xEB1FCBAD, 0x197448AE, 0x0A24BB5A, 0xF84F3859, 0x2C855CB2, 0xDEEEDFB1, 0xCDBE2C45, 0x3FD5AF46,
      0x7198540D, 0x83F3D70E, 0x90A324FA, 0x62C8A7F9, 0xB602C312, 0x44694011, 0x5739B3E5, 0xA55230E6,
      0xFB410CC2, 0x092A8FC1, 0x1A7A7C35, 0xE811FF36, 0x3CDB9BDD, 0xCEB018DE, 0xDDE0EB2A, 0x2F8B6829,
      0x82F63B78, 0x709DB87B, 0x63CD4B8F, 0x91A6C88C, 0x456CAC67, 0xB7072F64, 0xA457DC90, 0x563C5F93,
      0x082F63B7, 0xFA44E0B4, 0xE9141340, 0x1B7F9043, 0xCFB5F4A8, 0x3DDE77AB, 0x2E8E845F, 0xDCE5075C,
      0x92A8FC17, 0x60C37F14, 0x73938CE0, 0x81F80FE3, 0x55326B08, 0xA759E80B, 0xB4091BFF, 0x466298FC,
      0x1871A4D8, 0xEA1A27DB, 0xF94AD42F, 0x0B21572C, 0xDFEB33C7, 0x2D80B0C4, 0x3ED04330, 0xCCBBC033,
      0xA24BB5A6, 0x502036A5, 0x4370C551, 0xB11B4652, 0x65D122B9, 0x97BAA1BA, 0x84EA524E, 0x7681D14D,
      0x2892ED69, 0xDAF96E6A, 0xC9A99D9E, 0x3BC21E9D, 0xEF087A76, 0x1D63F975, 0x0E330A81, 0xFC588982,
      0xB21572C9, 0x407EF1CA, 0x532E023E, 0xA145813D, 0x758FE5D6, 0x87E466D5, 0x94B49521, 0x66DF1622,
      0x38CC2A06, 0xCAA7A905, 0xD9F75AF1, 0x2B9CD9F2, 0xFF56BD19, 0x0D3D3E1A, 0x1E6DCDEE, 0xEC064EED,
      0xC38D26C4, 0x31E6A5C7, 0x22B65633, 0xD0DDD530, 0x0417B1DB, 0xF67C32D8, 0xE52CC12C, 0x1747422F,
      0x49547E0B, 0xBB3FFD08, 0xA86F0EFC, 0x5A048DFF, 0x8ECEE914, 0x7CA56A17, 0x6FF599E3, 0x9D9E1AE0,
      0xD3D3E1AB, 0x21B862A8, 0x32E8915C, 0xC083125F, 0x144976B4, 0xE622F5B7, 0xF5720643, 0x07198540,
      0x590AB964, 0xAB613A67, 0xB831C993, 0x4A5A4A90, 0x9E902E7B, 0x6CFBAD78, 0x7FAB5E8C, 0x8DC0DD8F,
      0xE330A81A, 0x115B2B19, 0x020BD8ED, 0xF0605BEE, 0x24AA3F05, 0xD6C1BC06, 0xC5914FF2, 0x37FACCF1,
      0x69E9F0D5, 0x9B8273D6, 0x88D28022, 0x7AB90321, 0xAE7367CA, 0x5C18E4C9, 0x4F48173D, 0xBD23943E,
      0xF36E6F75, 0x0105EC76, 0x12551F82, 0xE03E9C81, 0x34F4F86A, 0xC69F7B69, 0xD5CF889D, 0x27A40B9E,
      0x79B737BA, 0x8BDCB4B9, 0x988C474D, 0x6AE7C44E, 0xBE2DA0A5, 0x4C4623A6, 0x5F16D052, 0xAD7D5351]"

definition crc_step :: "u8 \<Rightarrow> u32 \<Rightarrow> u32" where
  "crc_step p crc = drop_bit 8 crc XOR gCrcTable ! unat ((ucast p XOR crc) AND 0xFF)"

definition SoftCrc32 :: "u8 list \<Rightarrow> u32 \<Rightarrow> u32" where
  "SoftCrc32 data initValue = NOT (fold crc_step data (initValue XOR 0xFFFFFFFF))"

section \<open>Bitwise reference\<close>

definition crc_bit :: "u32 \<Rightarrow> u32" where
  "crc_bit x = drop_bit 1 x XOR (if bit x 0 then 0x82F63B78 else 0)"

definition crc_byte :: "u8 \<Rightarrow> u32 \<Rightarrow> u32" where
  "crc_byte p crc = (crc_bit ^^ 8) (crc XOR ucast p)"

definition Crc32C :: "u8 list \<Rightarrow> u32 \<Rightarrow> u32" where
  "Crc32C data initValue = NOT (fold crc_byte data (NOT initValue))"

fun evens :: "'a list \<Rightarrow> 'a list" where
  "evens (x # y # xs) = x # evens xs"
| "evens xs = xs"

fun odds :: "'a list \<Rightarrow> 'a list" where
  "odds (x # y # xs) = y # odds xs"
| "odds xs = []"

lemma unat32: "(m :: nat) < 2 ^ 32 \<Longrightarrow> unat (word_of_nat m :: u32) = m"
  by (simp add: unat_of_nat)

lemma half_word:
  assumes "(n :: nat) < 2 ^ 31"
  shows "drop_bit 1 (word_of_nat (2 * n) :: u32) = word_of_nat n"
    "drop_bit 1 (word_of_nat (2 * n + 1) :: u32) = word_of_nat n"
proof -
  have "unat (word_of_nat (2 * n) :: u32) = 2 * n" "unat (word_of_nat (2 * n + 1) :: u32) = 2 * n + 1"
    by (rule unat32, use assms in simp)+
  then show "drop_bit 1 (word_of_nat (2 * n) :: u32) = word_of_nat n"
    "drop_bit 1 (word_of_nat (2 * n + 1) :: u32) = word_of_nat n"
    using assms by (simp_all add: word_unat_eq_iff drop_bit_eq_div unat_div unat32 del: of_nat_mult of_nat_add of_nat_Suc)
qed

lemma crc_bit_numeral:
  "crc_bit 0 = 0" "crc_bit 1 = 0x82F63B78"
  "(numeral n :: nat) < 2 ^ 31 \<Longrightarrow> crc_bit (numeral (Num.Bit0 n)) = numeral n"
  "(numeral n :: nat) < 2 ^ 31 \<Longrightarrow> crc_bit (numeral (Num.Bit1 n)) = numeral n XOR 0x82F63B78"
  using half_word[of "numeral n"] by (simp_all add: crc_bit_def)

lemma crc_table_evens: "map crc_bit (evens gCrcTable) = take 128 gCrcTable"
  unfolding gCrcTable_def by (simp add: crc_bit_numeral)

lemma crc_table_odds: "odds gCrcTable = map (\<lambda>w. w XOR 0xF26B8303) (evens gCrcTable)"
  unfolding gCrcTable_def by simp

section \<open>Linearity\<close>

lemma crc_bit_xor: "crc_bit (x XOR y) = crc_bit x XOR crc_bit y"
  by (auto simp: crc_bit_def bit_xor_iff drop_bit_xor ac_simps)

lemma crc_bits_xor: "(crc_bit ^^ n) (x XOR y) = (crc_bit ^^ n) x XOR (crc_bit ^^ n) y"
  by (induction n) (simp_all add: crc_bit_xor)

lemma crc_bit_inj: "crc_bit x = crc_bit y \<Longrightarrow> x = y"
proof -
  have "z = 0" if "crc_bit z = 0" for z
  proof -
    have "bit (crc_bit z) 31 = bit z 0" by (auto simp: crc_bit_def bit_xor_iff bit_drop_bit_eq dest: bit_imp_le_length)
    then have "\<not> bit z 0" using that by simp
    then have "drop_bit 1 z = 0" using that by (simp add: crc_bit_def)
    have "\<not> bit z n" for n
      using \<open>\<not> bit z 0\<close> arg_cong[OF \<open>drop_bit 1 z = 0\<close>, of "\<lambda>w. bit w (n - 1)"]
      by (cases n) (simp_all add: bit_drop_bit_eq)
    then show ?thesis by (intro bit_eqI) simp
  qed
  note zero = this
  assume "crc_bit x = crc_bit y"
  then have "crc_bit (x XOR y) = crc_bit y XOR crc_bit y" unfolding crc_bit_xor by (rule arg_cong)
  then have "x XOR y = 0" by (rule zero[OF trans]) simp
  then have "(x XOR y) XOR y = 0 XOR y" by (rule arg_cong)
  then show "x = y" unfolding xor.assoc by simp
qed

lemma crc_bits_shift:
  "(\<And>i. i < n \<Longrightarrow> \<not> bit z i) \<Longrightarrow> (crc_bit ^^ n) z = drop_bit n z"
proof (induction n)
  case (Suc n)
  have "bit (drop_bit n z) 0 = bit z n" by (simp add: bit_drop_bit_eq)
  then show ?case using Suc by (simp add: crc_bit_def)
qed simp

section \<open>The table is that of CRC-32C\<close>

lemma nth_evens: "even (length xs) \<Longrightarrow> 2 * j < length xs \<Longrightarrow> evens xs ! j = xs ! (2 * j)"
  by (induction xs arbitrary: j rule: evens.induct) (auto simp: nth_Cons split: nat.split)

lemma nth_odds: "even (length xs) \<Longrightarrow> 2 * j < length xs \<Longrightarrow> odds xs ! j = xs ! Suc (2 * j)"
  by (induction xs arbitrary: j rule: odds.induct) (auto simp: nth_Cons split: nat.split)

lemma length_evens: "even (length xs) \<Longrightarrow> length (evens xs) = length xs div 2"
  by (induction xs rule: evens.induct) auto

lemma length_table: "length gCrcTable = 256"
  unfolding gCrcTable_def by simp

lemma table_even: "j < 128 \<Longrightarrow> crc_bit (gCrcTable ! (2 * j)) = gCrcTable ! j"
  using arg_cong[OF crc_table_evens, of "\<lambda>xs. xs ! j"] nth_evens[of gCrcTable j] length_evens[of gCrcTable]
  by (simp add: length_table)

lemma table_odd: "j < 128 \<Longrightarrow> gCrcTable ! Suc (2 * j) = gCrcTable ! (2 * j) XOR 0xF26B8303"
  using arg_cong[OF crc_table_odds, of "\<lambda>xs. xs ! j"] nth_evens[of gCrcTable j] nth_odds[of gCrcTable j]
    length_evens[of gCrcTable]
  by (simp add: length_table)

lemma eight: "(crc_bit ^^ 8) w = (crc_bit ^^ 7) (crc_bit w)" "(crc_bit ^^ 8) w = crc_bit ((crc_bit ^^ 7) w)"
  "(crc_bit ^^ 8) w = crc_bit (crc_bit (crc_bit (crc_bit (crc_bit (crc_bit (crc_bit (crc_bit w)))))))"
  by (simp_all add: numeral_eq_Suc)

lemma table_crc: "i < 256 \<Longrightarrow> gCrcTable ! i = (crc_bit ^^ 8) (word_of_nat i)"
proof (induction i rule: less_induct)
  case (less i)
  have even: "gCrcTable ! (2 * j) = (crc_bit ^^ 8) (word_of_nat (2 * j))" if "j < 128" "j < i \<or> j = 0" for j
  proof (cases "j = 0")
    case True
    have "gCrcTable ! 0 = 0" unfolding gCrcTable_def by simp
    moreover have "(crc_bit ^^ 8) 0 = 0" by (simp add: crc_bits_shift)
    ultimately show ?thesis using True by simp
  next
    case False
    have "\<not> bit (word_of_nat (2 * j) :: u32) 0" by (simp add: bit_0)
    then have "crc_bit (word_of_nat (2 * j)) = word_of_nat j"
      using half_word(1)[of j] that(1) by (simp add: crc_bit_def del: of_nat_mult)
    then have "(crc_bit ^^ 8) (word_of_nat (2 * j)) = (crc_bit ^^ 7) (word_of_nat j)"
      using eight(1)[of "word_of_nat (2 * j)"] by (simp only:)
    moreover have "crc_bit (gCrcTable ! (2 * j)) = crc_bit ((crc_bit ^^ 7) (word_of_nat j))"
      using table_even[OF that(1)] less.IH[of j] that False less.prems by (simp add: eight(2))
    ultimately show ?thesis using crc_bit_inj by metis
  qed
  show ?case
  proof (cases "even i")
    case True
    then obtain j where "i = 2 * j" by blast
    then show ?thesis using even[of j] less.prems by (cases "j = 0") auto
  next
    case False
    then obtain j where i: "i = Suc (2 * j)" by (metis oddE Suc_eq_plus1)
    have "(crc_bit ^^ 8) 1 = 0xF26B8303" by (simp add: eight(3) crc_bit_numeral)
    moreover have "(word_of_nat i :: u32) = word_of_nat (2 * j) XOR 1"
      by (simp add: i xor_one_eq)
    ultimately show ?thesis
      using table_odd[of j] even[of j] less.prems by (simp add: i crc_bits_xor del: of_nat_mult of_nat_Suc)
  qed
qed

lemma low_byte: "bit (0xFF :: u32) n \<longleftrightarrow> n < 8"
proof -
  have m: "(0xFF :: u32) = mask 8" by (simp add: mask_eq_exp_minus_1)
  show ?thesis unfolding m bit_mask_iff by auto
qed

lemma low_part: "bit (w AND (0xFF :: u32)) n \<longleftrightarrow> bit w n \<and> n < 8"
  unfolding bit_and_iff low_byte by blast

lemma high_part: "bit (w AND NOT (0xFF :: u32)) n \<longleftrightarrow> bit w n \<and> 8 \<le> n"
  unfolding bit_and_iff bit_not_iff low_byte by (auto dest: bit_imp_le_length)

lemma low_byte_index: "unat (w AND (0xFF :: u32)) < 256"
proof -
  have "w AND 0xFF \<le> 0xFF" by (rule word_and_le1)
  then show ?thesis by (simp add: word_le_nat_alt)
qed

lemma crc_step_byte: "crc_step p crc = crc_byte p crc"
proof -
  let ?y = "crc XOR ucast p"
  have byte: "\<not> bit p (8 + n)" for n using bit_imp_le_length[of p "8 + n"] by auto
  have "?y = (?y AND 0xFF) XOR (?y AND NOT 0xFF)"
    by (rule bit_eqI) (auto simp only: bit_xor_iff low_part high_part)
  then have "crc_byte p crc = (crc_bit ^^ 8) (?y AND 0xFF) XOR (crc_bit ^^ 8) (?y AND NOT 0xFF)"
    unfolding crc_byte_def using crc_bits_xor by metis
  also have "(crc_bit ^^ 8) (?y AND NOT 0xFF) = drop_bit 8 (?y AND NOT 0xFF)"
    by (rule crc_bits_shift, unfold high_part) linarith
  also have "\<dots> = drop_bit 8 crc"
    by (rule bit_eqI) (auto simp only: bit_drop_bit_eq high_part bit_xor_iff bit_ucast_iff comp_apply byte)
  also have "(crc_bit ^^ 8) (?y AND 0xFF) = gCrcTable ! unat (?y AND 0xFF)"
    using table_crc[of "unat (?y AND 0xFF)"] low_byte_index[of ?y] by simp
  finally show ?thesis by (simp add: crc_step_def ac_simps)
qed

section \<open>Properties\<close>

text \<open>
  C28. The table-driven checksum equals the bitwise CRC-32C (reflected polynomial 0x82F63B78) on
  every input and for every initial value.
\<close>

theorem soft_crc_is_crc32c: "SoftCrc32 data initValue = Crc32C data initValue"
proof -
  have m: "(0xFFFFFFFF :: u32) = - 1" by simp
  have "initValue XOR 0xFFFFFFFF = NOT initValue" unfolding m by simp
  moreover have "crc_step = crc_byte" using crc_step_byte by (intro ext)
  ultimately show ?thesis by (simp add: SoftCrc32_def Crc32C_def)
qed

lemma crc_bits_inj: "(crc_bit ^^ n) x = (crc_bit ^^ n) y \<Longrightarrow> x = y"
proof (induction n)
  case (Suc n)
  then have "crc_bit ((crc_bit ^^ n) x) = crc_bit ((crc_bit ^^ n) y)" by simp
  then show ?case using Suc.IH crc_bit_inj by blast
qed simp

lemma xor_cancel: "x XOR z = y XOR z \<Longrightarrow> x = (y :: 'a::len word)"
  by (metis xor.assoc xor_self_eq xor.right_neutral)

lemma crc_byte_inj: "crc_byte p x = crc_byte p y \<Longrightarrow> x = y"
  unfolding crc_byte_def by (drule crc_bits_inj) (rule xor_cancel)

lemma crc_byte_inj_byte:
  assumes "crc_byte p x = crc_byte q x"
  shows "p = q"
proof -
  have "ucast p XOR x = (ucast q XOR x :: u32)"
    using crc_bits_inj[OF assms[unfolded crc_byte_def]] by (simp add: xor.commute)
  then have "(ucast p :: u32) = ucast q" by (rule xor_cancel)
  then have e: "bit (ucast p :: u32) n = bit (ucast q :: u32) n" for n by (rule arg_cong)
  show ?thesis
  proof (rule bit_eqI)
    fix n
    assume "possible_bit TYPE(8 word) n"
    then have "n < 8" by simp
    then show "bit p n = bit q n" using e[of n, unfolded bit_ucast_iff] by simp
  qed
qed

lemma crc_fold_inj: "fold crc_byte data x = fold crc_byte data y \<Longrightarrow> x = y"
  by (induction data arbitrary: x y) (auto dest: crc_byte_inj)

lemma crc_byte_changed:
  assumes "SoftCrc32 (pre @ b # post) initValue = SoftCrc32 (pre @ c # post) initValue"
  shows "b = c"
proof -
  have "crc_step = crc_byte" using crc_step_byte by (intro ext)
  then have "fold crc_byte post (crc_byte b (fold crc_byte pre (initValue XOR 0xFFFFFFFF))) =
      fold crc_byte post (crc_byte c (fold crc_byte pre (initValue XOR 0xFFFFFFFF)))"
    using assms by (simp add: SoftCrc32_def)
  then show ?thesis by (intro crc_byte_inj_byte) (rule crc_fold_inj)
qed

text \<open>
  C29. The checksum detects every corruption of a single byte: replacing one byte of a message by
  a different one always changes its checksum.
\<close>

theorem crc_detects_byte_change:
  assumes "b \<noteq> c"
  shows "SoftCrc32 (pre @ b # post) initValue \<noteq> SoftCrc32 (pre @ c # post) initValue"
  using assms crc_byte_changed by blast

theorem crc_detects_byte_change_witness: "SoftCrc32 [1, 2, 3] 1 \<noteq> SoftCrc32 [1, 7, 3] 1"
  using crc_detects_byte_change[of 2 7 "[1]" "[3]" 1] by simp

end
