(* ===== verification/Store_Types.thy ===== *)
theory Store_Types
  imports Ubsm_Prelude
begin

text \<open>
  The data of the persistent record store: the constants and record structures of
  \<^verbatim>\<open>store/record_store_def.h\<close>, which lie in the shared-memory file, and the inputs and results
  of \<^verbatim>\<open>common/ubs_common_types.h\<close> its methods exchange.  A \<^verbatim>\<open>char name[64]\<close> field is the C
  string it holds, that is the characters before the first zero byte; array indices and element
  counts are natural numbers.
\<close>

definition RECORD_NAME_SIZE :: nat where
  "RECORD_NAME_SIZE = 64"

definition REGION_NODE_BITMAP_COUNT :: nat where
  "REGION_NODE_BITMAP_COUNT = 1024"

definition U64_BITS_COUNT :: nat where
  "U64_BITS_COUNT = 64"

definition REGION_NODE_BITMAP_U64SIZE :: nat where
  "REGION_NODE_BITMAP_U64SIZE = REGION_NODE_BITMAP_COUNT div U64_BITS_COUNT"

definition MAX_IMPORT_COUNT :: nat where
  "MAX_IMPORT_COUNT = 2 * 2 * 1024 * 4"

definition MAX_EXPORT_COUNT :: nat where
  "MAX_EXPORT_COUNT = 2 * 1024"

definition REGION_MAX_RECORD :: nat where
  "REGION_MAX_RECORD = 256"

definition MEM_LEASE_MAX_RECORD :: nat where
  "MEM_LEASE_MAX_RECORD = MAX_IMPORT_COUNT"

definition SHM_MAX_ATTACH_RECORD :: nat where
  "SHM_MAX_ATTACH_RECORD = MAX_IMPORT_COUNT + MAX_EXPORT_COUNT"

definition SHM_MAX_REFERENCE_RECORD :: nat where
  "SHM_MAX_REFERENCE_RECORD = 64 * SHM_MAX_ATTACH_RECORD"

definition MAX_SUSPEND_CLIENT :: nat where
  "MAX_SUSPEND_CLIENT = 256"

datatype RecordState = PRE_ADD | FINISH | PRE_DEL | DELETED

record AppContext =
  app_pid :: u32
  app_uid :: u32
  app_gid :: u32

record CreateRegionInput =
  cri_name :: string
  cri_size :: u64
  cri_nodeIds :: "nat list"
  cri_affinity :: "bool list"

record LeaseMallocInput =
  lmi_fdMode :: bool
  lmi_name :: string
  lmi_size :: u64
  lmi_distance :: u8
  lmi_appContext :: AppContext
  lmi_state :: RecordState

record LeaseMallocResult =
  lmr_memIds :: "u64 list"
  lmr_numaId :: u64
  lmr_unitSize :: u64
  lmr_slotId :: u32

record ShareMemImportInput =
  smi_name :: string
  smi_size :: u64
  smi_pid :: u32

record ShareMemImportResult =
  smr_memIds :: "u64 list"
  smr_unitSize :: u64
  smr_createFlags :: u64
  smr_openFlag :: u32
  smr_ownerUserId :: u32
  smr_ownerGroupId :: u32

record ShareMemImportInfo =
  sii_name :: string
  sii_size :: u64
  sii_appContext :: AppContext
  sii_memIds :: "u64 list"
  sii_unitSize :: u64
  sii_flag :: u64
  sii_oflag :: u32
  sii_state :: RecordState

section \<open>Records of the shared-memory file\<close>

record RegionRecord =
  rg_name :: string
  rg_size :: u64
  rg_bitmap :: "u64 list"
  rg_bitmapAffinity :: "u64 list"

record MemLeaseRecord =
  ml_name :: string
  ml_size :: u64
  ml_pid :: u32
  ml_uid :: u32
  ml_gid :: u32
  ml_fdMode :: u8
  ml_distance :: u8
  ml_numaId :: u64
  ml_unitSize :: u64
  ml_memIdCount :: nat
  ml_memIdBuffer :: nat
  ml_slotId :: u32
  ml_recordState :: RecordState

record MemShareImportRecord =
  si_name :: string
  si_shmSize :: u64
  si_pid :: u32
  si_uid :: u32
  si_gid :: u32
  si_unitSize :: u64
  si_memIdCount :: nat
  si_memIdBuffer :: nat
  si_flag :: u64
  si_oflag :: u32
  si_recordState :: RecordState

record MemShareRefRecord =
  sr_pid :: u32
  sr_shmImportIndex :: nat

record SuspendClientArray =
  sc_count :: nat
  sc_pids :: "nat \<Rightarrow> u32"

text \<open>\<^verbatim>\<open>std::string::c_str()\<close> as the callee of a C function sees it, and \<^verbatim>\<open>strcpy_s\<close>.\<close>

definition c_str :: "string \<Rightarrow> string" where
  "c_str s = takeWhile (\<lambda>c. c \<noteq> CHR 0x00) s"

definition strcpy_s :: "nat \<Rightarrow> string \<Rightarrow> string option" where
  "strcpy_s destMax src = (if length src < destMax then Some src else None)"

text \<open>A name the store keeps as given: non-empty, no zero byte, and shorter than the field.\<close>

definition good_name :: "string \<Rightarrow> bool" where
  "good_name n \<longleftrightarrow> n \<noteq> [] \<and> CHR 0x00 \<notin> set n \<and> length n < RECORD_NAME_SIZE"

lemma c_str_good [simp]: "good_name n \<Longrightarrow> c_str n = n"
  unfolding c_str_def good_name_def by (induction n) auto

lemma strcpy_c_str [simp]: "length n < k \<Longrightarrow> strcpy_s k (c_str n) = Some (c_str n)"
  unfolding strcpy_s_def c_str_def by (meson le_less_trans length_takeWhile_le)

lemma strcpy_good [simp]: "good_name n \<Longrightarrow> strcpy_s RECORD_NAME_SIZE n = Some n"
  by (simp add: strcpy_s_def good_name_def)

lemma good_name_length [simp]: "good_name n \<Longrightarrow> \<not> RECORD_NAME_SIZE \<le> length n" "good_name n \<Longrightarrow> n \<noteq> []"
  by (simp_all add: good_name_def)

end
