(* ===== verification/Str_Util.thy ===== *)
theory Str_Util
  imports Store_Types
begin

text \<open>
  The string helpers of \<^verbatim>\<open>common/hdagger/strings/dg_str_util.h\<close> that the rest of the program uses:
  decimal conversion over \<^verbatim>\<open>strtoul\<close> and splitting at a separator, with what the standard library
  does for them.
\<close>

section \<open>Decimal numbers\<close>

definition digit :: "nat \<Rightarrow> char" where
  "digit d = char_of (48 + d)"

fun to_string :: "nat \<Rightarrow> string" where
  "to_string n = (if n < 10 then [digit n] else to_string (n div 10) @ [digit (n mod 10)])"

declare to_string.simps [simp del]

definition is_digit :: "char \<Rightarrow> bool" where
  "is_digit c \<longleftrightarrow> 48 \<le> (of_char c :: nat) \<and> (of_char c :: nat) \<le> 57"

definition is_space :: "char \<Rightarrow> bool" where
  "is_space c \<longleftrightarrow> (of_char c :: nat) \<in> {9, 10, 11, 12, 13, 32}"

definition digits_value :: "string \<Rightarrow> nat" where
  "digits_value ds = foldl (\<lambda>n c. 10 * n + (of_char c - 48)) 0 ds"

text \<open>
  \<^verbatim>\<open>std::strtoul\<close> to base 10: the value, the unparsed rest and whether \<^verbatim>\<open>errno\<close> is \<^verbatim>\<open>ERANGE\<close>.  A
  minus sign negates modulo \<open>2 ^ 64\<close>; without digits nothing is consumed.
\<close>

definition strtoul :: "string \<Rightarrow> u64 \<times> string \<times> bool" where
  "strtoul s =
     (let s1 = dropWhile is_space s;
          neg = (s1 \<noteq> [] \<and> hd s1 = CHR ''-'');
          s2 = (if s1 \<noteq> [] \<and> (hd s1 = CHR ''-'' \<or> hd s1 = CHR ''+'') then tl s1 else s1);
          ds = takeWhile is_digit s2;
          n = digits_value ds
      in if ds = [] then (0, s, False)
         else if n \<ge> 2 ^ 64 then (- 1, dropWhile is_digit s2, True)
         else (if neg then - word_of_nat n else word_of_nat n, dropWhile is_digit s2, False))"

definition StrToULong :: "string \<Rightarrow> bool \<times> u64" where
  "StrToULong src =
     (let (v, remain, erange) = strtoul (c_str src) in
      (\<not> ((v = 0 \<and> src \<noteq> ''0'') \<or> remain \<noteq> [] \<or> erange), v))"

definition StrToUint :: "string \<Rightarrow> bool \<times> u32" where
  "StrToUint src =
     (let (l, remain, erange) = strtoul (c_str src); v = ucast l :: u32 in
      (\<not> ((v = 0 \<and> src \<noteq> ''0'') \<or> remain \<noteq> [] \<or> erange), v))"

section \<open>Splitting\<close>

text \<open>\<^verbatim>\<open>std::string::find\<close>: the first position at which the pattern starts.\<close>

fun find_sub :: "string \<Rightarrow> string \<Rightarrow> nat option" where
  "find_sub sep [] = (if sep = [] then Some 0 else None)"
| "find_sub sep (c # s) = (if take (length sep) (c # s) = sep then Some 0 else map_option Suc (find_sub sep s))"

text \<open>The loop does not end for an empty separator.\<close>

partial_function (option) Split :: "string \<Rightarrow> string \<Rightarrow> string list option" where
  "Split src sep =
     (case find_sub sep src of
        None \<Rightarrow> Some (if src = [] then [] else [src])
      | Some i \<Rightarrow> Option.bind (Split (drop (i + length sep) src) sep) (\<lambda>out. Some (take i src # out)))"

section \<open>Facts about decimal numbers\<close>

lemma of_char_digit: "d < 10 \<Longrightarrow> (of_char (digit d) :: nat) = 48 + d"
  by (simp add: digit_def)

lemma is_digit_digit: "d < 10 \<Longrightarrow> is_digit (digit d)"
  by (simp add: is_digit_def of_char_digit)

lemma to_string_digits: "\<forall>c\<in>set (to_string n). is_digit c"
proof (induction n rule: to_string.induct)
  case (1 n)
  then show ?case by (subst to_string.simps) (auto intro: is_digit_digit)
qed

lemma to_string_nonempty: "to_string n \<noteq> []"
  by (subst to_string.simps) simp

lemma digits_value_append: "digits_value (xs @ [c]) = 10 * digits_value xs + (of_char c - 48)"
  by (simp add: digits_value_def)

lemma digits_value_to_string: "digits_value (to_string n) = n"
proof (induction n rule: to_string.induct)
  case (1 n)
  show ?case
  proof (cases "n < 10")
    case True
    then show ?thesis by (subst to_string.simps) (simp add: digits_value_def of_char_digit)
  next
    case False
    then have "digits_value (to_string n) = 10 * (n div 10) + n mod 10"
      using 1 by (subst to_string.simps) (simp add: digits_value_append of_char_digit)
    then show ?thesis by simp
  qed
qed

lemma to_string_inj: "to_string m = to_string n \<longleftrightarrow> m = n"
  by (metis digits_value_to_string)

lemma digits_plain:
  assumes "\<forall>c\<in>set ds. is_digit c" "ds \<noteq> []"
  shows "dropWhile is_space ds = ds" "hd ds \<noteq> CHR ''-''" "hd ds \<noteq> CHR ''+''" "c_str ds = ds"
    "takeWhile is_digit ds = ds" "dropWhile is_digit ds = []"
proof -
  obtain c cs where ds: "ds = c # cs" "is_digit c" using assms by (cases ds) auto
  then show "dropWhile is_space ds = ds" by (auto simp: is_digit_def is_space_def)
  show "hd ds \<noteq> CHR ''-''" "hd ds \<noteq> CHR ''+''" using ds by (auto simp: is_digit_def)
  have "\<not> is_digit CHR 0x00" by (simp add: is_digit_def)
  then have "\<forall>c\<in>set ds. c \<noteq> CHR 0x00" using assms by blast
  then show "c_str ds = ds" by (auto simp: c_str_def)
  show "takeWhile is_digit ds = ds" "dropWhile is_digit ds = []" using assms by auto
qed

lemma strtoul_to_string:
  "strtoul (to_string n) = (if n < 2 ^ 64 then (word_of_nat n, [], False) else (- 1, [], True))"
  by (simp add: strtoul_def Let_def digits_value_to_string to_string_nonempty
      digits_plain[OF to_string_digits to_string_nonempty])

lemma to_string_zero: "to_string n = ''0'' \<longleftrightarrow> n = 0"
proof -
  have "to_string 0 = ''0''" by code_simp
  then show ?thesis using to_string_inj by metis
qed

section \<open>Facts about splitting\<close>

lemma find_sub_bound: "find_sub sep s = Some i \<Longrightarrow> i + length sep \<le> length s"
proof (induction s arbitrary: i)
  case (Cons c s)
  then show ?case
    by (auto split: if_splits dest: arg_cong[where f = length])
qed (auto split: if_splits)

lemma Split_total: "sep \<noteq> [] \<Longrightarrow> \<exists>out. Split src sep = Some out"
proof (induction src rule: length_induct)
  case (1 src)
  show ?case
  proof (cases "find_sub sep src")
    case (Some i)
    then have "length (drop (i + length sep) src) < length src"
      using find_sub_bound[OF Some] 1(2) by (cases sep) auto
    then show ?thesis using 1 Some by (subst Split.simps) fastforce
  qed (subst Split.simps, simp)
qed

lemma find_sub_char:
  "c \<notin> set xs \<Longrightarrow> find_sub [c] (xs @ c # ys) = Some (length xs)"
  "c \<notin> set xs \<Longrightarrow> find_sub [c] xs = None"
  by (induction xs) (auto simp: take_Cons')

lemma Split_char:
  "c \<notin> set xs \<Longrightarrow> Split (xs @ c # ys) [c] = Option.bind (Split ys [c]) (\<lambda>out. Some (xs # out))"
  "c \<notin> set xs \<Longrightarrow> Split xs [c] = Some (if xs = [] then [] else [xs])"
  by (subst Split.simps, simp add: find_sub_char)+

text \<open>The fields, each but the last followed by the separator.\<close>

fun join :: "char \<Rightarrow> string list \<Rightarrow> string" where
  "join c [] = []"
| "join c [x] = x"
| "join c (x # y # ys) = x @ c # join c (y # ys)"

lemma Split_join:
  "(\<forall>x\<in>set xs. c \<notin> set x) \<Longrightarrow> xs \<noteq> [] \<Longrightarrow> last xs \<noteq> [] \<Longrightarrow> Split (join c xs) [c] = Some xs"
proof (induction c xs rule: join.induct)
  case (3 c x y ys)
  then show ?case by (simp add: Split_char)
qed (auto simp: Split_char)

section \<open>Properties\<close>

text \<open>
  C33. Splitting a string returns for every non-empty separator, and splitting at a character
  undoes joining: fields free of the separator, the last one not empty, come back as they were.
\<close>

theorem split_terminates_roundtrip:
  "(sep \<noteq> [] \<longrightarrow> (\<exists>out. Split src sep = Some out)) \<and>
   ((\<forall>x\<in>set xs. c \<notin> set x) \<and> xs \<noteq> [] \<and> last xs \<noteq> [] \<longrightarrow> Split (join c xs) [c] = Some xs)"
  using Split_total Split_join by blast

theorem split_terminates_roundtrip_witness:
  "(\<exists>out. Split ''a:b'' '':'' = Some out) \<and> Split (join (CHR '':'') [''10.0.0.1'', [], ''80'']) '':'' = Some [''10.0.0.1'', [], ''80'']"
  using split_terminates_roundtrip[of "'':''" "''a:b''" "[''10.0.0.1'', [], ''80'']" "CHR '':''"] by simp

text \<open>
  C34. Decimal conversion: \<^verbatim>\<open>StrToULong\<close> reads back every 64-bit number, and \<^verbatim>\<open>StrToUint\<close> every 32-bit
  number.  But \<^verbatim>\<open>StrToUint\<close> also accepts larger numbers up to 64 bits, with the value reduced modulo
  \<open>2 ^ 32\<close>, unless the reduced value is zero.
\<close>

theorem decimal_conversion:
  assumes "n < 2 ^ 64"
  shows "StrToULong (to_string n) = (True, word_of_nat n) \<and>
    StrToUint (to_string n) = (n < 2 ^ 32 \<or> n mod 2 ^ 32 \<noteq> 0, word_of_nat n)"
proof -
  have "c_str (to_string n) = to_string n"
    using digits_plain(4)[OF to_string_digits to_string_nonempty] .
  moreover have "(word_of_nat n :: u64) = 0 \<longleftrightarrow> n = 0" 
    using assms nat_dvd_not_less[of n "2 ^ 64"] by (auto simp: word_of_nat_eq_0_iff)
  moreover have "(ucast (word_of_nat n :: u64) :: u32) = word_of_nat n" 
    using assms by (simp add: unsigned_of_nat take_bit_nat_eq_self)
  moreover have "(word_of_nat n :: u32) = 0 \<longleftrightarrow> n mod 2 ^ 32 = 0" by (simp add: word_of_nat_eq_0_iff mod_eq_0_iff_dvd)
  ultimately show ?thesis
    using assms by (auto simp: StrToULong_def StrToUint_def strtoul_to_string to_string_zero)
qed

theorem decimal_conversion_witness: "StrToUint (to_string 4294967297) = (True, 1)"
  using decimal_conversion[of 4294967297] by simp

end
