(* ===== verification/Com_Message.thy ===== *)
theory Com_Message
  imports Message_Factory Crc32 Str_Util
begin

text \<open>
  The message path of \<^verbatim>\<open>communication/adapter\<close>: framing of a request with its checksum
  (\<^verbatim>\<open>mxm_com_def.cpp\<close>), the checks and the dispatch on the receiving side (\<^verbatim>\<open>mxm_com_engine.cpp\<close>,
  \<^verbatim>\<open>mxm_com_base.h\<close>, \<^verbatim>\<open>mxm_message_handler.h\<close>) and the synchronous call of the sender.  The transport
  library is a parameter: a function from the frame sent to the result of its \<^verbatim>\<open>Call\<close>.
\<close>

section \<open>Channel payloads\<close>

datatype MxmChannelType = SINGLE_SIDE | NORMAL | EMERGENCY | HEARTBEAT

definition StringToChannelType :: "string \<Rightarrow> MxmChannelType" where
  "StringToChannelType type =
     (if type = ''Normal'' then NORMAL
      else if type = ''Emergency'' then EMERGENCY
      else if type = ''Heartbeat'' then HEARTBEAT
      else SINGLE_SIDE)"

definition ChannelTypeToString :: "MxmChannelType \<Rightarrow> string" where
  "ChannelTypeToString type =
     (if type = NORMAL then ''Normal''
      else if type = EMERGENCY then ''Emergency''
      else if type = HEARTBEAT then ''Heartbeat''
      else ''SingleSide'')"

definition PAYLOAD_SPLIT_SEP :: string where
  "PAYLOAD_SPLIT_SEP = ''@''"

definition ChannelTypeToPayload :: "string \<Rightarrow> MxmChannelType \<Rightarrow> string" where
  "ChannelTypeToPayload nodeId type = nodeId @ PAYLOAD_SPLIT_SEP @ ChannelTypeToString type"

definition SplitPayload :: "string \<Rightarrow> (string \<times> MxmChannelType) option" where
  "SplitPayload payload =
     map_option (\<lambda>payloadPair.
       if payloadPair = [] then (payload, SINGLE_SIDE)
       else if length payloadPair < 2 then ([], SINGLE_SIDE)
       else (payloadPair ! 0, StringToChannelType (payloadPair ! 1)))
     (Split payload PAYLOAD_SPLIT_SEP)"

section \<open>Frames\<close>

record MxmComMessageHead =
  mh_opCode :: u16
  mh_moduleCode :: u16
  mh_bodyLen :: u32
  mh_crc :: u32

text \<open>\<open>mm_body\<close> is what follows the head in the buffer, as many bytes as were received.\<close>

record MxmComMessage =
  mm_head :: MxmComMessageHead
  mm_body :: string

definition sizeof_MxmComMessageHead :: nat where
  "sizeof_MxmComMessageHead = 12"

definition AllocMessage :: "u32 \<Rightarrow> bool" where
  "AllocMessage len = (\<not> unat len > 2 ^ 32 - 1 - sizeof_MxmComMessageHead)"

definition crc_of :: "string \<Rightarrow> u32" where
  "crc_of data = SoftCrc32 (map of_char data) 1"

definition TransRequestMsg :: "string \<Rightarrow> u16 \<Rightarrow> u16 \<Rightarrow> MxmComMessage option" where
  "TransRequestMsg serializedData op moduleCode =
     (if serializedData = [] then None
      else let bodyLen = word_of_nat (length serializedData) :: u32;
               reqMsgData = take (unat bodyLen) serializedData in
           if \<not> AllocMessage bodyLen then None
           else Some \<lparr>mm_head = \<lparr>mh_opCode = op, mh_moduleCode = moduleCode, mh_bodyLen = bodyLen,
                                 mh_crc = crc_of reqMsgData\<rparr>,
                      mm_body = reqMsgData\<rparr>)"

definition CheckMessageBodyLen :: "MxmComMessage \<Rightarrow> bool" where
  "CheckMessageBodyLen m \<longleftrightarrow>
     sizeof_MxmComMessageHead + length (mm_body m) = sizeof_MxmComMessageHead + unat (mh_bodyLen (mm_head m))"

section \<open>Handlers\<close>

text \<open>
  A handler fills the response object from the request.  The engine keeps which codes have a
  handler; all of them dispatch through \<^verbatim>\<open>HandleRequest\<close>, which finds the handler proper by its key.
  \<open>replyBuffer n\<close> tells whether the allocation of \<open>n\<close> bytes for a reply and the \<^verbatim>\<open>memcpy_s\<close> of \<open>n\<close>
  bytes into them succeed.
\<close>

type_synonym handler = "msg \<Rightarrow> msg \<Rightarrow> msg"

record com_server =
  engineName :: string
  handlerMap :: "((u16 \<times> u16) \<times> unit) list"
  gHandlerMap :: "(string \<times> handler) list"
  replyBuffer :: "u32 \<Rightarrow> bool"

definition MODULES_SIZE :: nat where
  "MODULES_SIZE = 1000"

definition OP_CODE_SIZE :: nat where
  "OP_CODE_SIZE = 1000"

definition MXM_COM_ERROR_MESSAGE_CHECK_SIZE_FAIL :: int where
  "MXM_COM_ERROR_MESSAGE_CHECK_SIZE_FAIL = 0x10011002"

definition MXM_COM_ERROR_MESSAGE_INVALID_OP_CODE :: int where
  "MXM_COM_ERROR_MESSAGE_INVALID_OP_CODE = 0x10011003"

definition MXM_COM_ERROR_SYNC_CALL_FAIL :: int where
  "MXM_COM_ERROR_SYNC_CALL_FAIL = 0x1001100A"

definition handler_key :: "string \<Rightarrow> u16 \<Rightarrow> u16 \<Rightarrow> string" where
  "handler_key engine moduleCode op = engine @ ''-'' @ to_string (unat moduleCode) @ ''-'' @ to_string (unat op)"

definition AddHandler :: "u16 \<Rightarrow> u16 \<Rightarrow> handler \<Rightarrow> com_server \<Rightarrow> com_server" where
  "AddHandler moduleCode op h srv =
     srv\<lparr>gHandlerMap := emplace (handler_key (engineName srv) moduleCode op) h (gHandlerMap srv)\<rparr>"

definition RemoveHandler :: "u16 \<Rightarrow> u16 \<Rightarrow> com_server \<Rightarrow> com_server" where
  "RemoveHandler moduleCode op srv =
     srv\<lparr>gHandlerMap := erase (handler_key (engineName srv) moduleCode op) (gHandlerMap srv)\<rparr>"

definition GetHandler :: "u16 \<Rightarrow> u16 \<Rightarrow> com_server \<Rightarrow> handler option" where
  "GetHandler moduleCode op srv = map_of (gHandlerMap srv) (handler_key (engineName srv) moduleCode op)"

definition RegMxmComMsgHandler :: "u16 \<Rightarrow> u16 \<Rightarrow> com_server \<Rightarrow> int \<times> com_server" where
  "RegMxmComMsgHandler moduleCode op srv =
     (if unat moduleCode \<ge> MODULES_SIZE \<or> unat op \<ge> OP_CODE_SIZE then (MXM_COM_ERROR_MESSAGE_INVALID_OP_CODE, srv)
      else (HOK, srv\<lparr>handlerMap := assign (moduleCode, op) () (handlerMap srv)\<rparr>))"

definition RegMessageHandler :: "u16 \<Rightarrow> u16 \<Rightarrow> handler \<Rightarrow> com_server \<Rightarrow> int \<times> com_server" where
  "RegMessageHandler moduleCode op h srv = RegMxmComMsgHandler moduleCode op (AddHandler moduleCode op h srv)"

definition GetMessageHandler :: "u16 \<Rightarrow> u16 \<Rightarrow> com_server \<Rightarrow> bool" where
  "GetMessageHandler moduleCode op srv \<longleftrightarrow>
     \<not> (unat moduleCode \<ge> MODULES_SIZE \<or> unat op \<ge> OP_CODE_SIZE) \<and>
     map_of (handlerMap srv) (moduleCode, op) \<noteq> None"

section \<open>Server\<close>

text \<open>
  \<^verbatim>\<open>MxmNetMessageHandler::Handle\<close>: run the handler and reply with the serialized response, if the
  engine has a name, the response is not empty and its bytes can be copied.  The length of the
  reply is a 32-bit number: of a longer response only the first bytes, as many as its length modulo
  \<open>2 ^ 32\<close>, are sent.  \<^verbatim>\<open>NeedReply\<close> is false for these handlers: there is no second reply.
\<close>

definition Handle :: "com_server \<Rightarrow> handler \<Rightarrow> msg \<Rightarrow> msg \<Rightarrow> string option" where
  "Handle srv h req rsp =
     (let rsp' = h req rsp in
      if engineName srv \<noteq> []
      then (let respStr = Serialize rsp' in
            if respStr = [] then None
            else (let rspLen = word_of_nat (length respStr) :: u32 in
                  if \<not> replyBuffer srv rspLen then None
                  else Some (take (unat rspLen) respStr)))
      else None)"

definition HandleRequest :: "com_server \<Rightarrow> MxmComMessage \<Rightarrow> string option" where
  "HandleRequest srv m =
     (let moduleCode = mh_moduleCode (mm_head m); op = mh_opCode (mm_head m) in
      case GetHandler moduleCode op srv of
        None \<Rightarrow> None
      | Some h \<Rightarrow> (case CreateRequestByOpCode op of
          None \<Rightarrow> None
        | Some reqPtr \<Rightarrow> (case CreateResponseByOpCode op of
            None \<Rightarrow> None
          | Some respPtr \<Rightarrow>
              (let (req, u) = run_state (Deserialize reqPtr)
                     (ready (take (unat (mh_bodyLen (mm_head m))) (mm_body m))) in
               if \<not> valid u then None else Handle srv h req respPtr))))"

definition ReceivedRequest :: "com_server \<Rightarrow> MxmComMessage \<Rightarrow> int \<times> string option" where
  "ReceivedRequest srv m =
     (if \<not> CheckMessageBodyLen m then (MXM_COM_ERROR_MESSAGE_CHECK_SIZE_FAIL, None)
      else if mh_crc (mm_head m) \<noteq> crc_of (mm_body m) then (MXM_COM_ERROR_MESSAGE_CHECK_SIZE_FAIL, None)
      else if \<not> GetMessageHandler (mh_moduleCode (mm_head m)) (mh_opCode (mm_head m)) srv
      then (MXM_COM_ERROR_MESSAGE_INVALID_OP_CODE, None)
      else (HOK, HandleRequest srv m))"

section \<open>Client\<close>

text \<open>
  \<open>call\<close> is the transport: \<^const>\<open>None\<close> when the call fails (as when no reply comes), otherwise the
  bytes of the reply.
\<close>

definition MxmComMsgSend :: "(MxmComMessage \<Rightarrow> string option) \<Rightarrow> MxmComMessage \<Rightarrow> int \<times> string" where
  "MxmComMsgSend call m = (case call m of None \<Rightarrow> (MXM_COM_ERROR_SYNC_CALL_FAIL, []) | Some r \<Rightarrow> (HOK, r))"

definition Send :: "(MxmComMessage \<Rightarrow> string option) \<Rightarrow> u16 \<Rightarrow> u16 \<Rightarrow> msg \<Rightarrow> msg \<Rightarrow> int \<times> msg" where
  "Send call moduleCode op request response =
     (case TransRequestMsg (Serialize request) op moduleCode of
        None \<Rightarrow> (HFAIL, response)
      | Some m \<Rightarrow>
          (let (ret, respStr) = MxmComMsgSend call m in
           if ret \<noteq> HOK then (ret, response)
           else let (response', u) = run_state (Deserialize response) (ready respStr) in
                if \<not> valid u then (HFAIL, response') else (ret, response')))"

section \<open>Facts\<close>

lemma frame_checks:
  assumes "TransRequestMsg data op moduleCode = Some m" "length data < 2 ^ 32"
  shows "CheckMessageBodyLen m" "mh_crc (mm_head m) = crc_of (mm_body m)" "mm_body m = data"
    "unat (mh_bodyLen (mm_head m)) = length data" "mh_opCode (mm_head m) = op" "mh_moduleCode (mm_head m) = moduleCode"
  using assms
  by (auto simp: TransRequestMsg_def CheckMessageBodyLen_def unat_of_nat Let_def split: if_splits)

lemma frame_exists:
  assumes "data \<noteq> []" "length data < 2 ^ 32 - 12"
  obtains m where "TransRequestMsg data op moduleCode = Some m"
  using assms by (auto simp: TransRequestMsg_def AllocMessage_def sizeof_MxmComMessageHead_def unat_of_nat Let_def)

lemma of_char_byte: "(of_char c :: u8) = of_char b \<Longrightarrow> c = b"
proof -
  assume "(of_char c :: u8) = of_char b"
  then have "(word_of_nat (of_char c) :: u8) = word_of_nat (of_char b)" by (simp add: of_nat_of_char)
  then have "unat (word_of_nat (of_char c) :: u8) = unat (word_of_nat (of_char b) :: u8)" by (rule arg_cong)
  then have "(of_char c :: nat) = of_char b" by (simp add: unat_of_nat del: of_char_eq_iff)
  then show "c = b" by simp
qed

definition serve :: "com_server \<Rightarrow> MxmComMessage \<Rightarrow> string option" where
  "serve srv m = snd (ReceivedRequest srv m)"

lemma serve_request:
  assumes "TransRequestMsg (Serialize req) op moduleCode = Some m" "length (Serialize req) < 2 ^ 32"
    "GetMessageHandler moduleCode op srv" "GetHandler moduleCode op srv = Some h" "engineName srv \<noteq> []"
    "CreateRequestByOpCode op = Some q" "fits req" "class_of req = class_of q"
    "CreateResponseByOpCode op = Some r" "Serialize (h req r) \<noteq> []"
    "length (Serialize (h req r)) < 2 ^ 32" "replyBuffer srv (word_of_nat (length (Serialize (h req r))))"
  shows "serve srv m = Some (Serialize (h req r))"
proof -
  note F = frame_checks[OF assms(1,2)]
  have "run_state (Deserialize q) (ready (Serialize req)) = (req, ready [])"
    using message.roundtrip_end[of req q] assms(7,8) by blast
  then show ?thesis
    using assms(3-6,9-12) F
    by (simp add: unat_of_nat serve_def ReceivedRequest_def HandleRequest_def Handle_def Let_def)
qed

lemma handler_key_inj:
  assumes "handler_key e m k = handler_key e' m' k'"
  shows "e = e' \<and> m = m' \<and> k = k'"
proof -
  have split: "x = y \<and> d = d'"
    if eq: "x @ CHR ''-'' # d = y @ CHR ''-'' # d'" and D: "\<forall>c\<in>set d. is_digit c" "\<forall>c\<in>set d'. is_digit c" for x y d d'
  proof -
    have "CHR ''-'' \<notin> set d" "CHR ''-'' \<notin> set d'" using D by (auto simp: is_digit_def)
    then show ?thesis using eq by (auto simp: append_eq_append_conv2 append_eq_Cons_conv Cons_eq_append_conv)
  qed
  have "(e @ CHR ''-'' # to_string (unat m)) @ CHR ''-'' # to_string (unat k) =
      (e' @ CHR ''-'' # to_string (unat m')) @ CHR ''-'' # to_string (unat k')"
    using assms by (simp add: handler_key_def)
  then have "e @ CHR ''-'' # to_string (unat m) = e' @ CHR ''-'' # to_string (unat m')" "to_string (unat k) = to_string (unat k')"
    using split to_string_digits by blast+
  moreover from this(1) have "e = e'" "to_string (unat m) = to_string (unat m')"
    using split to_string_digits by blast+
  ultimately show ?thesis by (simp add: to_string_inj word_unat_eq_iff)
qed

lemma inner_none:
  "CreateRequestByOpCodeInner op = None \<longleftrightarrow> CreateResponseByOpCodeInner op = None"
  by (simp add: CreateRequestByOpCodeInner_def CreateResponseByOpCodeInner_def)

lemma map_none: "map_of requestMap op = None \<longleftrightarrow> map_of responseMap op = None"
proof -
  have "map fst requestMap = map fst responseMap" by (simp add: requestMap_def responseMap_def)
  then show ?thesis unfolding map_of_eq_None_iff by (metis list.set_map)
qed

text \<open>A server with one handler, for the check of leases.\<close>

definition lease_check :: handler where
  "lease_check req resp = M_CommonResponse (new_CommonResponse\<lparr>CommonResp_errCode := 7\<rparr>)"

definition lease_server :: com_server where
  "lease_server = snd (RegMessageHandler 1 IPC_CHECK_MEMORY_LEASE lease_check
     \<lparr>engineName = ''e'', handlerMap = [], gHandlerMap = [],
      replyBuffer = \<lambda>n. 0 < n\<rparr>)"

definition lease_request :: msg where
  "lease_request = M_CheckMemoryLeaseRequest (new_CheckMemoryLeaseRequest\<lparr>CheckMemoryLeaseReq_names := [''a'']\<rparr>)"

lemma lease_server_ready:
  "GetMessageHandler 1 IPC_CHECK_MEMORY_LEASE lease_server"
  "GetHandler 1 IPC_CHECK_MEMORY_LEASE lease_server = Some lease_check" "engineName lease_server \<noteq> []"
  "replyBuffer lease_server n \<longleftrightarrow> 0 < n"
  by (simp_all add: lease_server_def RegMessageHandler_def RegMxmComMsgHandler_def AddHandler_def GetMessageHandler_def
      GetHandler_def MODULES_SIZE_def OP_CODE_SIZE_def op_codes emplace_def)

lemma lease_factories:
  "CreateRequestByOpCode IPC_CHECK_MEMORY_LEASE = Some (M_CheckMemoryLeaseRequest new_CheckMemoryLeaseRequest)"
  "CreateResponseByOpCode IPC_CHECK_MEMORY_LEASE = Some (M_CommonResponse new_CommonResponse)"
  by (simp_all add: CreateRequestByOpCode_def CreateResponseByOpCode_def requestMap_def responseMap_def op_codes)

lemma lease_request_fits: "fits lease_request" "length (Serialize lease_request) < 2 ^ 32 - 12"
  by (simp_all add: lease_request_def fits_CheckMemoryLeaseRequest_def names_fit_def MAX_ALLOWED_SIZE_def
      Serialize_CheckMemoryLeaseRequest_def put_pod_def put_vector_def put_string_def sizeof_def)

section \<open>Properties\<close>

text \<open>
  C18. Every message survives the wire: reading the bytes written for it into an object of its
  class gives the message back and leaves exactly the bytes that followed; no message can be read
  from a proper prefix of its bytes.
\<close>

theorem message_wire:
  assumes "fits m" "class_of m = class_of obj"
  shows "run_state (Deserialize obj) (ready (Serialize m @ rest)) = (m, ready rest) \<and>
    (\<forall>p q. Serialize m = p @ q \<and> q \<noteq> [] \<longrightarrow> \<not> valid (snd (run_state (Deserialize obj) (ready p))))"
  using message.roundtrip message.truncated assms by blast

text \<open>
  C6. A remote call is transparent: if the operation has a handler on the server, the request is
  of the class the server decodes for the operation and the handler's response of the class the
  caller reads, both fit the limits of the packer and the 32-bit lengths of their frames, and the
  server can copy the reply, then the caller receives exactly the response that the handler made
  from exactly the request it sent.
\<close>

theorem rpc_transparent:
  assumes "GetMessageHandler moduleCode op srv" "GetHandler moduleCode op srv = Some h" "engineName srv \<noteq> []"
    "CreateRequestByOpCode op = Some q" "fits req" "class_of req = class_of q" "length (Serialize req) < 2 ^ 32 - 12"
    "CreateResponseByOpCode op = Some r" "fits (h req r)" "class_of (h req r) = class_of resp"
    "length (Serialize (h req r)) < 2 ^ 32" "replyBuffer srv (word_of_nat (length (Serialize (h req r))))"
  shows "Send (serve srv) moduleCode op req resp = (HOK, h req r)"
proof -
  have ne: "Serialize req \<noteq> []" "Serialize (h req r) \<noteq> []" using Serialize_nonempty assms(5,9) by blast+
  obtain m where m: "TransRequestMsg (Serialize req) op moduleCode = Some m"
    using frame_exists[OF ne(1) assms(7)] by blast
  have "serve srv m = Some (Serialize (h req r))"
    using serve_request[OF m _ assms(1-6,8) ne(2) assms(11,12)] assms(7) by simp
  moreover have "run_state (Deserialize resp) (ready (Serialize (h req r))) = (h req r, ready [])"
    using message.roundtrip_end[of "h req r" resp] assms(9,10) by blast
  ultimately show ?thesis by (simp add: Send_def m MxmComMsgSend_def)
qed

text \<open>
  C27. A frame whose body was corrupted in one byte, or whose length does not match its head, is
  refused by the receiving engine before any handler sees it.
\<close>

theorem frame_corruption_refused:
  assumes "TransRequestMsg (pre @ b # post) op moduleCode = Some m" "length (pre @ b # post) < 2 ^ 32"
    "(c \<noteq> b \<and> body = pre @ c # post) \<or> length body \<noteq> length (pre @ b # post)"
  shows "ReceivedRequest srv (m\<lparr>mm_body := body\<rparr>) = (MXM_COM_ERROR_MESSAGE_CHECK_SIZE_FAIL, None)"
proof (cases "length body = length (pre @ b # post)")
  case True
  note F = frame_checks[OF assms(1,2)]
  have c: "c \<noteq> b" "body = pre @ c # post" using assms(3) True by auto
  have "crc_of body \<noteq> crc_of (pre @ b # post)"
    using crc_byte_changed[of "map of_char pre" "of_char c" "map of_char post" 1 "of_char b"] c of_char_byte[of c b]
    by (auto simp: crc_of_def)
  then show ?thesis using F by (simp add: ReceivedRequest_def CheckMessageBodyLen_def)
next
  case False
  then show ?thesis
    using frame_checks(4)[OF assms(1,2)] by (simp add: ReceivedRequest_def CheckMessageBodyLen_def)
qed

theorem message_wire_witness:
  "run_state (Deserialize (M_CheckMemoryLeaseRequest new_CheckMemoryLeaseRequest))
     (ready (Serialize lease_request @ ''rest'')) = (lease_request, ready ''rest'')"
  using message_wire[of lease_request "M_CheckMemoryLeaseRequest new_CheckMemoryLeaseRequest" "''rest''"]
    lease_request_fits by (simp add: lease_request_def)

theorem rpc_transparent_witness:
  "Send (serve lease_server) 1 IPC_CHECK_MEMORY_LEASE lease_request (M_CommonResponse new_CommonResponse) =
   (HOK, M_CommonResponse (new_CommonResponse\<lparr>CommonResp_errCode := 7\<rparr>))"
  using rpc_transparent[OF lease_server_ready(1-3) lease_factories(1) lease_request_fits(1) _ lease_request_fits(2)
      lease_factories(2), of "M_CommonResponse new_CommonResponse"]
  by (simp add: lease_check_def lease_request_def fits_CommonResponse_def lease_server_ready(4)
      Serialize_CommonResponse_def put_pod_def sizeof_def)

theorem frame_corruption_refused_witness:
  "ReceivedRequest lease_server (the (TransRequestMsg ''abc'' 4 1)\<lparr>mm_body := ''axc''\<rparr>) =
   (MXM_COM_ERROR_MESSAGE_CHECK_SIZE_FAIL, None)"
  using frame_corruption_refused[of "''a''" "CHR ''b''" "''c''" 4 1 _ "CHR ''x''" "''axc''" lease_server]
  by (simp add: TransRequestMsg_def AllocMessage_def sizeof_MxmComMessageHead_def Let_def)

text \<open>
  C31. The two factories cover the same operations: a request that can be decoded always has a
  response object, so that dispatch never stops between the two.
\<close>

theorem factories_agree: "CreateRequestByOpCode op = None \<longleftrightarrow> CreateResponseByOpCode op = None"
proof (cases "map_of requestMap op")
  case None
  then have "map_of responseMap op = None" using map_none[of op] by simp
  then show ?thesis using None inner_none by (simp add: CreateRequestByOpCode_def CreateResponseByOpCode_def)
next
  case (Some m)
  then obtain r where "map_of responseMap op = Some r" using map_none[of op] by auto
  then show ?thesis using Some by (simp add: CreateRequestByOpCode_def CreateResponseByOpCode_def)
qed

text \<open>
  C30. Registration: keys of different engines, modules or operations never collide, so that
  registering a handler for free codes in range makes it the one found for them and changes no
  other; a second registration of the same codes does not replace the first.
\<close>

theorem register_handler:
  assumes "unat moduleCode < MODULES_SIZE" "unat op < OP_CODE_SIZE" "RegMessageHandler moduleCode op h srv = (ret, srv')"
  shows "ret = HOK \<and> GetMessageHandler moduleCode op srv' \<and>
    GetHandler moduleCode op srv' = (case GetHandler moduleCode op srv of None \<Rightarrow> Some h | Some h0 \<Rightarrow> Some h0) \<and>
    (\<forall>m' op'. (m', op') \<noteq> (moduleCode, op) \<longrightarrow> GetHandler m' op' srv' = GetHandler m' op' srv)"
proof -
  let ?key = "handler_key (engineName srv)"
  have r: "ret = HOK" and srv': "srv' = srv\<lparr>gHandlerMap := emplace (?key moduleCode op) h (gHandlerMap srv),
      handlerMap := assign (moduleCode, op) () (handlerMap srv)\<rparr>"
    using assms by (simp_all add: RegMessageHandler_def RegMxmComMsgHandler_def AddHandler_def not_le)
  have "?key m' op' \<noteq> ?key moduleCode op" if "(m', op') \<noteq> (moduleCode, op)" for m' op'
    using handler_key_inj[of "engineName srv" m' op'] that by blast
  then have "\<forall>m' op'. (m', op') \<noteq> (moduleCode, op) \<longrightarrow> GetHandler m' op' srv' = GetHandler m' op' srv"
    by (simp add: GetHandler_def srv' map_of_emplace)
  moreover have "GetMessageHandler moduleCode op srv'"
    using assms(1,2) by (simp add: GetMessageHandler_def srv' map_of_assign not_le)
  moreover have "GetHandler moduleCode op srv' = (case GetHandler moduleCode op srv of None \<Rightarrow> Some h | Some h0 \<Rightarrow> Some h0)"
    by (simp add: GetHandler_def srv' map_of_emplace split: option.split)
  ultimately show ?thesis using r by blast
qed

theorem register_handler_witness:
  "GetHandler 1 4 (snd (RegMessageHandler 1 4 (\<lambda>_ r. r) lease_server)) = Some lease_check"
  using register_handler[of 1 4 "\<lambda>_ r. r" lease_server "fst (RegMessageHandler 1 4 (\<lambda>_ r. r) lease_server)"
      "snd (RegMessageHandler 1 4 (\<lambda>_ r. r) lease_server)"] lease_server_ready(2)
  by (simp add: MODULES_SIZE_def OP_CODE_SIZE_def op_codes)

text \<open>
  C32. The payload of a connection request carries the node and the channel type: a node
  identifier without the separator is recovered together with the type.
\<close>

theorem payload_roundtrip:
  assumes "CHR ''@'' \<notin> set nodeId"
  shows "SplitPayload (ChannelTypeToPayload nodeId type) = Some (nodeId, type)"
proof -
  have "CHR ''@'' \<notin> set (ChannelTypeToString type)" "ChannelTypeToString type \<noteq> []"
    by (simp_all add: ChannelTypeToString_def)
  then have "Split (ChannelTypeToPayload nodeId type) PAYLOAD_SPLIT_SEP = Some [nodeId, ChannelTypeToString type]"
    using assms by (simp add: ChannelTypeToPayload_def PAYLOAD_SPLIT_SEP_def Split_char)
  moreover have "StringToChannelType (ChannelTypeToString type) = type"
    by (cases type) (simp_all add: StringToChannelType_def ChannelTypeToString_def)
  ultimately show ?thesis by (simp add: SplitPayload_def)
qed

theorem payload_roundtrip_witness:
  "SplitPayload (ChannelTypeToPayload ''10.0.0.1:80'' HEARTBEAT) = Some (''10.0.0.1:80'', HEARTBEAT)"
  using payload_roundtrip[of "''10.0.0.1:80''" HEARTBEAT] by simp

end
