(* ===== verification/Record_Allocator.thy ===== *)
theory Record_Allocator
  imports Ubsm_Prelude
begin

text \<open>
  The slot allocator \<^verbatim>\<open>BaseRecordAllocator\<close> (\<^verbatim>\<open>store/base_record_allocator.h\<close>) that the record
  store instantiates for its four record arrays.  The array lies in the shared-memory file; the
  list of idle slots is rebuilt from it by \<^verbatim>\<open>Restore\<close>.  The template's two function arguments,
  the idle test and the clear function, are arguments of the operations; what they must satisfy
  is the locale \<open>record_slots\<close>.
\<close>

record 'r allocator =
  recordAddress :: "nat \<Rightarrow> 'r"
  idleIndexes :: "nat list"

definition Allocator_Restore :: "nat \<Rightarrow> ('r \<Rightarrow> bool) \<Rightarrow> 'r allocator \<Rightarrow> nat list \<times> 'r allocator" where
  "Allocator_Restore recordCount checkIdleFunc a =
     (filter (\<lambda>i. \<not> checkIdleFunc (recordAddress a i)) [0..<recordCount],
      a\<lparr>idleIndexes := idleIndexes a @ filter (\<lambda>i. checkIdleFunc (recordAddress a i)) [0..<recordCount]\<rparr>)"

definition Allocator_Allocate :: "'r allocator \<Rightarrow> (nat \<times> 'r allocator) option" where
  "Allocator_Allocate a =
     (if idleIndexes a = [] then None
      else Some (last (idleIndexes a), a\<lparr>idleIndexes := butlast (idleIndexes a)\<rparr>))"

definition Allocator_Release :: "nat \<Rightarrow> ('r \<Rightarrow> 'r) \<Rightarrow> nat \<Rightarrow> 'r allocator \<Rightarrow> 'r allocator" where
  "Allocator_Release recordCount clearRecordFun index a =
     (if index \<ge> recordCount then a
      else a\<lparr>recordAddress := (recordAddress a)(index := clearRecordFun (recordAddress a index)),
             idleIndexes := idleIndexes a @ [index]\<rparr>)"

text \<open>Writing through a record pointer.\<close>

definition put_record :: "nat \<Rightarrow> 'r \<Rightarrow> 'r allocator \<Rightarrow> 'r allocator" where
  "put_record i r a = a\<lparr>recordAddress := (recordAddress a)(i := r)\<rparr>"

lemma put_record_simps [simp]:
  "recordAddress (put_record i r a) = (recordAddress a)(i := r)"
  "idleIndexes (put_record i r a) = idleIndexes a"
  by (simp_all add: put_record_def)

section \<open>Slots\<close>

locale record_slots =
  fixes idle :: "'r \<Rightarrow> bool" and clear :: "'r \<Rightarrow> 'r" and count :: nat
  assumes idle_clear: "idle (clear r)"
begin

definition slots_inv :: "'r allocator \<Rightarrow> bool" where
  "slots_inv a \<longleftrightarrow> distinct (idleIndexes a) \<and>
     set (idleIndexes a) = {i. i < count \<and> idle (recordAddress a i)}"

lemma allocate_slot:
  assumes "slots_inv a" "Allocator_Allocate a = Some (i, a')"
  shows "i < count" "idle (recordAddress a i)" "recordAddress a' = recordAddress a"
    "idleIndexes a = idleIndexes a' @ [i]" "i \<notin> set (idleIndexes a')"
proof -
  have ne: "idleIndexes a \<noteq> []" and i: "i = last (idleIndexes a)"
    and a': "a' = a\<lparr>idleIndexes := butlast (idleIndexes a)\<rparr>"
    using assms(2) by (auto simp: Allocator_Allocate_def split: if_splits)
  then have "i \<in> set (idleIndexes a)" by simp
  then show "i < count" "idle (recordAddress a i)" using assms(1) by (auto simp: slots_inv_def)
  show "recordAddress a' = recordAddress a" using a' by simp
  show eq: "idleIndexes a = idleIndexes a' @ [i]" using ne i a' by simp
  show "i \<notin> set (idleIndexes a')" using assms(1) unfolding slots_inv_def eq by simp
qed

lemma allocate_put:
  assumes "slots_inv a" "Allocator_Allocate a = Some (i, a')" "\<not> idle r"
  shows "slots_inv (put_record i r a')"
proof -
  note s = allocate_slot[OF assms(1,2)]
  have "set (idleIndexes a) = insert i (set (idleIndexes a'))" using s(4) by simp
  then show ?thesis
    using assms s(3,5) s(4) unfolding slots_inv_def by (auto split: if_splits)
qed

lemma allocate_put_release:
  assumes "slots_inv a" "Allocator_Allocate a = Some (i, a')"
  shows "Allocator_Release count clear i (put_record i r a') = put_record i (clear r) a"
    "slots_inv (put_record i (clear r) a)"
proof -
  note s = allocate_slot[OF assms]
  show "Allocator_Release count clear i (put_record i r a') = put_record i (clear r) a"
    using s by (simp add: Allocator_Release_def put_record_def)
  show "slots_inv (put_record i (clear r) a)"
    using assms(1) s idle_clear by (auto simp: slots_inv_def split: if_splits)
qed

lemma release_slot:
  assumes "slots_inv a" "i < count" "\<not> idle (recordAddress a i)"
  shows "slots_inv (Allocator_Release count clear i a)"
  using assms idle_clear by (auto simp: slots_inv_def Allocator_Release_def split: if_splits)

lemma put_live:
  assumes "slots_inv a" "\<not> idle (recordAddress a i)" "\<not> idle r"
  shows "slots_inv (put_record i r a)"
  using assms by (auto simp: slots_inv_def split: if_splits)

lemma restore_slots:
  assumes "idleIndexes a = []"
  shows "slots_inv (snd (Allocator_Restore count idle a))"
    "recordAddress (snd (Allocator_Restore count idle a)) = recordAddress a"
    "set (fst (Allocator_Restore count idle a)) = {i. i < count \<and> \<not> idle (recordAddress a i)}"
    "sorted (fst (Allocator_Restore count idle a))" "distinct (fst (Allocator_Restore count idle a))"
  using assms by (auto simp: slots_inv_def Allocator_Restore_def sorted_wrt_filter)

end

section \<open>Named records and their cache\<close>

text \<open>
  Regions, leases and imports are records with a name; a slot is idle when the name is empty,
  and the store keeps a hash map from names to slots.  \<open>cached a c\<close>: the map lists exactly the
  live slots, under their names.
\<close>

locale named_slots = record_slots idle clear count
  for idle :: "'r \<Rightarrow> bool" and clear :: "'r \<Rightarrow> 'r" and count :: nat +
  fixes nm :: "'r \<Rightarrow> string" and ix :: "'e \<Rightarrow> nat"
  assumes idle_nm: "idle r \<longleftrightarrow> nm r = []"
begin

lemma nm_clear [simp]: "nm (clear r) = []"
  using idle_clear idle_nm by blast

definition cached :: "'r allocator \<Rightarrow> (string \<times> 'e) list \<Rightarrow> bool" where
  "cached a c \<longleftrightarrow> distinct (map fst c) \<and>
     (\<forall>n e. map_of c n = Some e \<longrightarrow> ix e < count \<and> nm (recordAddress a (ix e)) = n \<and> n \<noteq> []) \<and>
     (\<forall>i<count. nm (recordAddress a i) \<noteq> [] \<longrightarrow>
        (\<exists>e. map_of c (nm (recordAddress a i)) = Some e \<and> ix e = i))"

lemma cached_entry:
  "cached a c \<Longrightarrow> map_of c n = Some e \<Longrightarrow>
   ix e < count \<and> nm (recordAddress a (ix e)) = n \<and> n \<noteq> [] \<and> \<not> idle (recordAddress a (ix e))"
  by (auto simp: cached_def idle_nm)

lemma cached_live:
  assumes "cached a c" "i < count" "\<not> idle (recordAddress a i)"
  obtains e where "map_of c (nm (recordAddress a i)) = Some e" "ix e = i"
  using assms unfolding cached_def idle_nm by blast

lemma cached_ix_inj:
  "cached a c \<Longrightarrow> map_of c n = Some e \<Longrightarrow> map_of c n' = Some e' \<Longrightarrow> ix e = ix e' \<Longrightarrow> n = n'"
  by (metis cached_entry)

lemma cached_nm_inj:
  assumes "cached a c" "map_of c n = Some e" "i < count" "nm (recordAddress a i) = n"
  shows "i = ix e"
proof -
  have "\<not> idle (recordAddress a i)" using cached_entry[OF assms(1,2)] assms(4) idle_nm by simp
  then obtain e' where "map_of c n = Some e'" "ix e' = i"
    using cached_live[OF assms(1,3)] assms(4) by blast
  then show ?thesis using assms(2) by simp
qed

lemma cachedI:
  assumes "distinct (map fst c)"
    and "\<And>n e. map_of c n = Some e \<Longrightarrow> ix e < count \<and> nm (recordAddress a (ix e)) = n \<and> n \<noteq> []"
    and "\<And>i. i < count \<Longrightarrow> nm (recordAddress a i) \<noteq> [] \<Longrightarrow>
      \<exists>e. map_of c (nm (recordAddress a i)) = Some e \<and> ix e = i"
  shows "cached a c"
  using assms unfolding cached_def by blast

lemma cached_distinct: "cached a c \<Longrightarrow> distinct (map fst c)"
  by (simp add: cached_def)

lemma cached_not_idle_slot:
  assumes "slots_inv a" "Allocator_Allocate a = Some (i, a')" "cached a c" "map_of c n = Some e"
  shows "ix e \<noteq> i"
  using allocate_slot(2)[OF assms(1,2)] cached_entry[OF assms(3,4)] by auto

lemma cached_add:
  assumes "slots_inv a" "Allocator_Allocate a = Some (i, a')" "cached a c"
    "map_of c n = None" "nm r = n" "n \<noteq> []" "ix e = i"
  shows "cached (put_record i r a') (emplace n e c)"
proof (rule cachedI)
  note s = allocate_slot[OF assms(1,2)]
  show "distinct (map fst (emplace n e c))"
    using cached_distinct[OF assms(3)] by (rule distinct_emplace)
  show "ix x < count \<and> nm (recordAddress (put_record i r a') (ix x)) = m \<and> m \<noteq> []"
    if "map_of (emplace n e c) m = Some x" for m x
  proof (cases "m = n")
    case True
    then show ?thesis using that assms(4-7) s(1) by (simp add: map_of_emplace)
  next
    case False
    then have "map_of c m = Some x" using that assms(4) by (simp add: map_of_emplace)
    then show ?thesis
      using cached_entry[OF assms(3)] cached_not_idle_slot[OF assms(1-3)] s(3) by simp
  qed
  show "\<exists>x. map_of (emplace n e c) (nm (recordAddress (put_record i r a') j)) = Some x \<and> ix x = j"
    if j: "j < count" "nm (recordAddress (put_record i r a') j) \<noteq> []" for j
  proof (cases "j = i")
    case True
    then show ?thesis using assms(4,5,7) by (simp add: map_of_emplace)
  next
    case False
    then have nm: "nm (recordAddress (put_record i r a') j) = nm (recordAddress a j)" using s(3) by simp
    then obtain x where "map_of c (nm (recordAddress a j)) = Some x" "ix x = j"
      using cached_live[OF assms(3) j(1)] j(2) idle_nm by metis
    then show ?thesis using assms(4) nm by (auto simp: map_of_emplace)
  qed
qed

lemma cached_put_idle:
  assumes "slots_inv a" "Allocator_Allocate a = Some (i, a')" "cached a c"
  shows "cached (put_record i (clear r) a) c"
proof (rule cachedI)
  show "ix x < count \<and> nm (recordAddress (put_record i (clear r) a) (ix x)) = m \<and> m \<noteq> []"
    if "map_of c m = Some x" for m x
    using cached_entry[OF assms(3) that] cached_not_idle_slot[OF assms that] by simp
  show "\<exists>x. map_of c (nm (recordAddress (put_record i (clear r) a) j)) = Some x \<and> ix x = j"
    if "j < count" "nm (recordAddress (put_record i (clear r) a) j) \<noteq> []" for j
    using that cached_live[OF assms(3) that(1)] idle_nm by (cases "j = i") (simp, metis fun_upd_other put_record_simps(1))
qed (rule cached_distinct[OF assms(3)])

lemma cached_del:
  assumes "cached a c" "map_of c n = Some e"
  shows "cached (Allocator_Release count clear (ix e) a) (erase n c)"
proof (rule cachedI)
  let ?a = "Allocator_Release count clear (ix e) a"
  have arr: "recordAddress ?a j = (if j = ix e then clear (recordAddress a j) else recordAddress a j)" for j
    using cached_entry[OF assms] by (simp add: Allocator_Release_def)
  show "distinct (map fst (erase n c))"
    using cached_distinct[OF assms(1)] by (rule distinct_erase)
  show "ix x < count \<and> nm (recordAddress ?a (ix x)) = m \<and> m \<noteq> []"
    if "map_of (erase n c) m = Some x" for m x
  proof -
    have m: "m \<noteq> n" "map_of c m = Some x" using that by (auto simp: map_of_erase split: if_splits)
    then have "ix x \<noteq> ix e" using cached_ix_inj[OF assms(1) m(2) assms(2)] by blast
    then show ?thesis using cached_entry[OF assms(1) m(2)] arr by simp
  qed
  show "\<exists>x. map_of (erase n c) (nm (recordAddress ?a j)) = Some x \<and> ix x = j"
    if j: "j < count" "nm (recordAddress ?a j) \<noteq> []" for j
  proof -
    have ne: "j \<noteq> ix e" "nm (recordAddress a j) \<noteq> []" using j(2) arr by (auto split: if_splits)
    then have "nm (recordAddress a j) \<noteq> n" using cached_nm_inj[OF assms j(1)] by blast
    moreover obtain x where "map_of c (nm (recordAddress a j)) = Some x" "ix x = j"
      using cached_live[OF assms(1) j(1)] ne(2) idle_nm by metis
    ultimately show ?thesis using arr ne(1) by (simp add: map_of_erase)
  qed
qed

lemma cached_update:
  assumes "cached a c" "map_of c n = Some e" "nm r = n" "ix e' = ix e"
  shows "cached (put_record (ix e) r a) (assign n e' c)"
proof (rule cachedI)
  let ?a = "put_record (ix e) r a"
  have nm: "nm (recordAddress ?a j) = nm (recordAddress a j)" for j
    using cached_entry[OF assms(1,2)] assms(3) by simp
  show "distinct (map fst (assign n e' c))"
    using cached_distinct[OF assms(1)] by (rule distinct_assign)
  show "ix x < count \<and> nm (recordAddress ?a (ix x)) = m \<and> m \<noteq> []"
    if "map_of (assign n e' c) m = Some x" for m x
    unfolding nm using that cached_entry[OF assms(1)] assms(2,4)
    by (auto simp: map_of_assign split: if_splits)
  show "\<exists>x. map_of (assign n e' c) (nm (recordAddress ?a j)) = Some x \<and> ix x = j"
    if j: "j < count" "nm (recordAddress ?a j) \<noteq> []" for j
  proof -
    obtain x where x: "map_of c (nm (recordAddress a j)) = Some x" "ix x = j"
      using cached_live[OF assms(1) j(1)] j(2) idle_nm nm by metis
    show ?thesis
      unfolding nm using x assms(2,4) by (cases "nm (recordAddress a j) = n") (auto simp: map_of_assign)
  qed
qed

lemma cached_put:
  assumes "cached a c" "map_of c n = Some e" "nm r = n"
  shows "cached (put_record (ix e) r a) c"
proof -
  have eq: "nm (recordAddress (put_record (ix e) r a) j) = nm (recordAddress a j)" for j
    using cached_entry[OF assms(1,2)] assms(3) by simp
  show ?thesis using assms(1) unfolding cached_def eq .
qed

text \<open>
  The restore loops: one \<open>emplace\<close> per live slot for which an entry can be built.
\<close>

definition restore_cache :: "'r allocator \<Rightarrow> (nat \<Rightarrow> 'e option) \<Rightarrow> nat list \<Rightarrow> (string \<times> 'e) list" where
  "restore_cache a mk is = fold (\<lambda>i c. case mk i of None \<Rightarrow> c
     | Some e \<Rightarrow> emplace (nm (recordAddress a i)) e c) is []"

lemma restore_cache_map:
  assumes "\<And>i. i \<in> set is \<Longrightarrow> mk i = Some (f i)" "inj_on (\<lambda>i. nm (recordAddress a i)) (set is)"
    "distinct is"
  shows "map_of (restore_cache a mk is) n = Some e \<longleftrightarrow>
      (\<exists>i\<in>set is. nm (recordAddress a i) = n \<and> e = f i)"
  using assms
proof (induction "is" arbitrary: n e rule: rev_induct)
  case (snoc x xs)
  have IH: "map_of (restore_cache a mk xs) n = Some e \<longleftrightarrow>
      (\<exists>i\<in>set xs. nm (recordAddress a i) = n \<and> e = f i)" for n e
    using snoc.prems by (intro snoc.IH) (auto intro: inj_on_subset)
  have "map_of (restore_cache a mk xs) (nm (recordAddress a x)) = None"
  proof (rule ccontr)
    assume "map_of (restore_cache a mk xs) (nm (recordAddress a x)) \<noteq> None"
    then obtain i where "i \<in> set xs" "nm (recordAddress a i) = nm (recordAddress a x)"
      using IH by blast
    then show False using snoc.prems(2,3) by (auto simp: inj_on_def)
  qed
  moreover have "restore_cache a mk (xs @ [x]) =
      emplace (nm (recordAddress a x)) (f x) (restore_cache a mk xs)"
    using snoc.prems(1)[of x] by (simp add: restore_cache_def)
  ultimately show ?case by (auto simp: map_of_emplace_iff IH)
qed (simp add: restore_cache_def)

lemma restore_cache_distinct: "distinct (map fst (restore_cache a mk is))"
proof (induction "is" rule: rev_induct)
  case (snoc x xs)
  then show ?case by (auto simp: restore_cache_def distinct_emplace split: option.splits)
qed (simp add: restore_cache_def)

lemma restore_cached:
  assumes "cached a c" "set is = {i. i < count \<and> \<not> idle (recordAddress a i)}" "distinct is"
    "\<And>n e. map_of c n = Some e \<Longrightarrow> mk (ix e) = Some e"
  shows "map_of (restore_cache a mk is) = map_of c" "cached a (restore_cache a mk is)"
proof -
  define f where "f i = the (mk i)" for i
  have live: "\<exists>e. map_of c (nm (recordAddress a i)) = Some e \<and> ix e = i \<and> mk i = Some e" if "i \<in> set is" for i
  proof -
    from that have "i < count" "\<not> idle (recordAddress a i)" using assms(2) by auto
    then obtain e where "map_of c (nm (recordAddress a i)) = Some e" "ix e = i"
      using cached_live[OF assms(1)] by blast
    then show ?thesis using assms(4) by blast
  qed
  have "map_of (restore_cache a mk is) n = Some e \<longleftrightarrow> (\<exists>i\<in>set is. nm (recordAddress a i) = n \<and> e = f i)" for n e
  proof (rule restore_cache_map[where f = f])
    show "mk i = Some (f i)" if i: "i \<in> set is" for i
    proof -
      obtain e where "mk i = Some e" using live[OF i] by blast
      then show ?thesis by (simp add: f_def)
    qed
    show "inj_on (\<lambda>i. nm (recordAddress a i)) (set is)"
    proof (rule inj_onI)
      fix i j
      assume ij: "i \<in> set is" "j \<in> set is" "nm (recordAddress a i) = nm (recordAddress a j)"
      obtain e where e: "map_of c (nm (recordAddress a i)) = Some e" "ix e = i" using live[OF ij(1)] by blast
      obtain e' where e': "map_of c (nm (recordAddress a j)) = Some e'" "ix e' = j" using live[OF ij(2)] by blast
      have "e = e'" using e(1) e'(1) unfolding ij(3) by simp
      then show "i = j" using e(2) e'(2) by simp
    qed
  qed (rule assms(3))
  moreover have "(\<exists>i\<in>set is. nm (recordAddress a i) = n \<and> e = f i) \<longleftrightarrow> map_of c n = Some e" for n e
  proof
    assume "\<exists>i\<in>set is. nm (recordAddress a i) = n \<and> e = f i"
    then obtain i where i: "i \<in> set is" "nm (recordAddress a i) = n" "e = f i" by blast
    then show "map_of c n = Some e" using live[OF i(1)] by (auto simp: f_def)
  next
    assume "map_of c n = Some e"
    moreover from this have "ix e \<in> set is" "nm (recordAddress a (ix e)) = n"
      using cached_entry[OF assms(1)] assms(2) by auto
    ultimately show "\<exists>i\<in>set is. nm (recordAddress a i) = n \<and> e = f i"
      using assms(4) by (intro bexI[of _ "ix e"]) (auto simp: f_def)
  qed
  ultimately show eq: "map_of (restore_cache a mk is) = map_of c"
    by (intro ext option_ext) blast
  show "cached a (restore_cache a mk is)"
    using assms(1) restore_cache_distinct unfolding cached_def eq by blast
qed

text \<open>
  What a client reads through the cache: \<open>view F a c n\<close> applies \<open>F\<close> to the record and the cache
  entry stored under the name \<open>n\<close>.  Each store operation acts on it as a map update.
\<close>

definition view :: "('r \<Rightarrow> 'e \<Rightarrow> 'v) \<Rightarrow> 'r allocator \<Rightarrow> (string \<times> 'e) list \<Rightarrow> string \<rightharpoonup> 'v" where
  "view F a c n = map_option (\<lambda>e. F (recordAddress a (ix e)) e) (map_of c n)"

lemma view_SomeD: "view F a c n = Some v \<Longrightarrow> \<exists>e. map_of c n = Some e \<and> v = F (recordAddress a (ix e)) e"
  by (auto simp: view_def)

lemma view_add:
  assumes "slots_inv a" "Allocator_Allocate a = Some (i, a')" "cached a c" "map_of c n = None" "ix e = i"
  shows "view F (put_record i r a') (emplace n e c) = (view F a c)(n \<mapsto> F r e)"
proof
  fix m
  show "view F (put_record i r a') (emplace n e c) m = ((view F a c)(n \<mapsto> F r e)) m"
    using cached_not_idle_slot[OF assms(1-3), of m] allocate_slot(3)[OF assms(1,2)] assms(4,5)
    by (cases "map_of c m") (auto simp: view_def map_of_emplace)
qed

lemma view_put_idle:
  assumes "slots_inv a" "Allocator_Allocate a = Some (i, a')" "cached a c"
  shows "view F (put_record i r a) c = view F a c"
proof
  fix m
  show "view F (put_record i r a) c m = view F a c m"
    using cached_not_idle_slot[OF assms, of m] by (cases "map_of c m") (auto simp: view_def)
qed

lemma view_del:
  assumes "cached a c" "map_of c n = Some e"
  shows "view F (Allocator_Release count clear (ix e) a) (erase n c) = (view F a c)(n := None)"
proof
  fix m
  show "view F (Allocator_Release count clear (ix e) a) (erase n c) m = ((view F a c)(n := None)) m"
    using cached_ix_inj[OF assms, of m] by (cases "map_of c m") (auto simp: view_def map_of_erase Allocator_Release_def)
qed

lemma view_update:
  assumes "cached a c" "map_of c n = Some e" "ix e' = ix e"
  shows "view F (put_record (ix e) r a) (assign n e' c) = (view F a c)(n \<mapsto> F r e')"
proof
  fix m
  show "view F (put_record (ix e) r a) (assign n e' c) m = ((view F a c)(n \<mapsto> F r e')) m"
    using cached_ix_inj[OF assms(1,2), of m] assms(3)
    by (cases "map_of c m") (auto simp: view_def map_of_assign)
qed

lemma view_put:
  assumes "cached a c" "map_of c n = Some e"
  shows "view F (put_record (ix e) r a) c = (view F a c)(n \<mapsto> F r e)"
proof
  fix m
  show "view F (put_record (ix e) r a) c m = ((view F a c)(n \<mapsto> F r e)) m"
    using cached_ix_inj[OF assms, of m] assms(2) by (cases "map_of c m") (auto simp: view_def)
qed

lemma view_cong:
  "recordAddress a = recordAddress a' \<Longrightarrow> map_of c = map_of c' \<Longrightarrow> view F a c = view F a' c'"
  by (simp add: view_def fun_eq_iff)

lemma ran_view:
  assumes "cached a c"
  shows "ran (view F a c) = (\<lambda>(n, e). F (recordAddress a (ix e)) e) ` set c"
proof (rule set_eqI)
  fix x
  have "x \<in> ran (view F a c) \<longleftrightarrow> (\<exists>n e. map_of c n = Some e \<and> x = F (recordAddress a (ix e)) e)"
    by (auto simp: ran_def view_def)
  also have "\<dots> \<longleftrightarrow> (\<exists>n e. (n, e) \<in> set c \<and> x = F (recordAddress a (ix e)) e)"
    using cached_distinct[OF assms] by simp
  finally show "x \<in> ran (view F a c) \<longleftrightarrow> x \<in> (\<lambda>(n, e). F (recordAddress a (ix e)) e) ` set c"
    by force
qed

lemma cached_member: "cached a c \<Longrightarrow> (n, e) \<in> set c \<Longrightarrow> nm (recordAddress a (ix e)) = n"
  using cached_entry cached_distinct by (metis map_of_is_SomeI)

text \<open>Every slot is either idle or cached under one name.\<close>

lemma slots_count:
  assumes "slots_inv a" "cached a c"
  shows "card (dom (map_of c)) + length (idleIndexes a) = count"
proof -
  let ?live = "{i. i < count \<and> \<not> idle (recordAddress a i)}"
  have "bij_betw (\<lambda>n. ix (the (map_of c n))) (dom (map_of c)) ?live"
  proof (rule bij_betw_imageI)
    show "inj_on (\<lambda>n. ix (the (map_of c n))) (dom (map_of c))"
      using cached_ix_inj[OF assms(2)] by (auto simp: inj_on_def dom_def)
    have "\<exists>n. map_of c n \<noteq> None \<and> i = ix (the (map_of c n))" if "i < count" "\<not> idle (recordAddress a i)" for i
      using cached_live[OF assms(2) that] by (metis option.sel option.distinct(1))
    then show "(\<lambda>n. ix (the (map_of c n))) ` dom (map_of c) = ?live"
      using cached_entry[OF assms(2)] by (auto simp: dom_def image_iff)
  qed
  then have "card (dom (map_of c)) = card ?live" by (rule bij_betw_same_card)
  moreover have "length (idleIndexes a) = card {i. i < count \<and> idle (recordAddress a i)}"
    using assms(1) distinct_card[of "idleIndexes a"] by (simp add: slots_inv_def)
  moreover have "card ?live + card {i. i < count \<and> idle (recordAddress a i)} = count"
  proof -
    have un: "?live \<union> {i. i < count \<and> idle (recordAddress a i)} = {..<count}" by auto
    have "?live \<inter> {i. i < count \<and> idle (recordAddress a i)} = {}" by auto
    from card_Un_disjoint[OF _ _ this] show ?thesis unfolding un by simp
  qed
  ultimately show ?thesis by simp
qed

text \<open>Restoring over the array of an allocator whose cache is correct gives an equal cache.\<close>

lemma restore_all:
  assumes "cached a c" "recordAddress a0 = recordAddress a" "idleIndexes a0 = []"
    "Allocator_Restore count idle a0 = (live, a')"
    "\<And>n e. map_of c n = Some e \<Longrightarrow> mk (ix e) = Some e"
  shows "slots_inv a'" "recordAddress a' = recordAddress a"
    "map_of (restore_cache a' mk live) = map_of c" "cached a' (restore_cache a' mk live)"
proof -
  note r = restore_slots[OF assms(3), unfolded assms(4), simplified]
  show "slots_inv a'" and arr: "recordAddress a' = recordAddress a" using r(1,2) assms(2) by simp_all
  have "cached a' c" using assms(1) unfolding cached_def arr .
  then show "map_of (restore_cache a' mk live) = map_of c" "cached a' (restore_cache a' mk live)"
    using restore_cached[of a' c live mk] r(3,5) arr assms(2,5) by simp_all
qed

end

end
