(* ===== verification/Id_Pool.thy ===== *)
theory Id_Pool
  imports Ubsm_Prelude
begin

text \<open>
  The memory-id pool of the daemon's persistent record store
  (\<^verbatim>\<open>store/record_id_pool_allocator.cpp\<close>).  The pool is an array of lines of 64 words in a
  shared-memory file.  Word 0 of a line is a bit-field head; a list of ids occupies a chain of
  lines, linked through the heads, 63 ids in every line but the last.  The definitions follow
  the four methods of \<^verbatim>\<open>RecordIdPoolAllocator\<close>; the lemmas show that on a well-formed pool the
  allocator implements a finite map from head lines to id lists, that no line is lost, and that
  the two chain walks stop and stay inside the array on any contents of the file.
\<close>

section \<open>Definitions\<close>

definition RECORD_MEM_ID_POOL_LINE_SIZE :: nat where
  "RECORD_MEM_ID_POOL_LINE_SIZE = 64"

definition RECORD_MEM_ID_POOL_LINE_COUNT :: nat where
  "RECORD_MEM_ID_POOL_LINE_COUNT = 32 * 1024"

abbreviation LINE_COUNT :: nat where
  "LINE_COUNT \<equiv> RECORD_MEM_ID_POOL_LINE_COUNT"

text \<open>\<^verbatim>\<open>memIds[line][column]\<close>: only indices below the two constants are ever read.\<close>

type_synonym pool_mem = "nat \<Rightarrow> nat \<Rightarrow> u64"

text \<open>
  The union \<^verbatim>\<open>IdHead\<close>: bit fields from the least significant bit on: used, head, tail, 29
  reserved bits, and the 32-bit \<^verbatim>\<open>nextIndex\<close>.
\<close>

definition idHead_used :: "u64 \<Rightarrow> bool" where
  "idHead_used w = bit w 0"

definition idHead_head :: "u64 \<Rightarrow> bool" where
  "idHead_head w = bit w 1"

definition idHead_tail :: "u64 \<Rightarrow> bool" where
  "idHead_tail w = bit w 2"

definition idHead_nextIndex :: "u64 \<Rightarrow> nat" where
  "idHead_nextIndex w = unat (drop_bit 32 w)"

definition mkIdHead :: "bool \<Rightarrow> bool \<Rightarrow> bool \<Rightarrow> nat \<Rightarrow> u64" where
  "mkIdHead used head tail nextIndex =
     of_bool used OR push_bit 1 (of_bool head) OR push_bit 2 (of_bool tail) OR
     push_bit 32 (of_nat (take_bit 32 nextIndex))"

text \<open>
  The allocator object.  \<open>pool_attached\<close> is \<^verbatim>\<open>memIdRecordPool_ != nullptr\<close>; \<open>memIds\<close> is the
  array it points to, which lives in the shared-memory file and outlives the object.
\<close>

record id_pool =
  pool_attached :: bool
  memIds :: pool_mem
  idleIdIndexes :: "nat list"

definition IdPool_Initialize :: "pool_mem option \<Rightarrow> id_pool \<Rightarrow> id_pool option" where
  "IdPool_Initialize address p = (case address of
     None \<Rightarrow> None
   | Some m \<Rightarrow> Some (p\<lparr>pool_attached := True, memIds := m,
       idleIdIndexes := idleIdIndexes p @ filter (\<lambda>line. \<not> idHead_used (m line 0)) [0..<LINE_COUNT]\<rparr>))"

definition IdPool_Destroy :: "id_pool \<Rightarrow> id_pool" where
  "IdPool_Destroy p = p\<lparr>pool_attached := False, idleIdIndexes := []\<rparr>"

text \<open>The two loops of \<^verbatim>\<open>Allocate\<close>: the heads of the lines taken, then the ids.\<close>

definition write_cell :: "nat \<Rightarrow> nat \<Rightarrow> u64 \<Rightarrow> pool_mem \<Rightarrow> pool_mem" where
  "write_cell line col v m = m(line := (m line)(col := v))"

definition write_heads :: "nat list \<Rightarrow> nat \<Rightarrow> pool_mem \<Rightarrow> pool_mem" where
  "write_heads allocatedLines lastLineItems m =
     fold (\<lambda>i. write_cell (allocatedLines ! i) 0
             (let lst = (i = length allocatedLines - 1) in
              mkIdHead True (i = 0) lst (if lst then lastLineItems else allocatedLines ! (i + 1))))
       [0..<length allocatedLines] m"

definition write_ids :: "nat list \<Rightarrow> u64 list \<Rightarrow> pool_mem \<Rightarrow> pool_mem" where
  "write_ids allocatedLines ids m =
     fold (\<lambda>i. write_cell (allocatedLines ! (i div (RECORD_MEM_ID_POOL_LINE_SIZE - 1)))
             (i mod (RECORD_MEM_ID_POOL_LINE_SIZE - 1) + 1) (ids ! i))
       [0..<length ids] m"

definition IdPool_Allocate :: "u64 list \<Rightarrow> id_pool \<Rightarrow> (nat \<times> id_pool) option" where
  "IdPool_Allocate ids p =
     (let lineSize = RECORD_MEM_ID_POOL_LINE_SIZE - 1;
          idCount = length ids;
          linesNeed = (idCount + lineSize - 1) div lineSize;
          lastLineItems = idCount - (linesNeed - 1) * lineSize;
          idle = idleIdIndexes p
      in if \<not> pool_attached p then None
         else if linesNeed = 0 then None
         else if length idle < linesNeed then None
         else let allocatedLines = map (\<lambda>i. idle ! (length idle - 1 - i)) [0..<linesNeed]
              in Some (allocatedLines ! 0,
                   p\<lparr>idleIdIndexes := take (length idle - linesNeed) idle,
                     memIds := write_ids allocatedLines ids
                                 (write_heads allocatedLines lastLineItems (memIds p))\<rparr>))"

text \<open>
  The loop of \<^verbatim>\<open>FillAllocated\<close>; \<open>visited\<close> is the \<^verbatim>\<open>std::array<bool>\<close>.  \<^const>\<open>None\<close> is the
  return of -1 (with \<^verbatim>\<open>ids\<close> cleared).
\<close>

function fill_loop :: "pool_mem \<Rightarrow> nat \<Rightarrow> u64 \<Rightarrow> nat \<Rightarrow> (nat \<Rightarrow> bool) \<Rightarrow> u64 list \<Rightarrow>
    (nat \<times> u64 \<times> u64 list) option" where
  "fill_loop m currentIndex idHead traversed visited ids =
     (if idHead_tail idHead then Some (currentIndex, idHead, ids)
      else if Suc traversed \<ge> LINE_COUNT \<or> idHead_nextIndex idHead \<ge> LINE_COUNT then None
      else if visited (idHead_nextIndex idHead) then None
      else let ids' = ids @ map (m currentIndex) [1..<RECORD_MEM_ID_POOL_LINE_SIZE];
               currentIndex' = idHead_nextIndex idHead;
               idHead' = m currentIndex' 0
           in if \<not> idHead_used idHead' then None
              else fill_loop m currentIndex' idHead' (Suc traversed) (visited(currentIndex' := True)) ids')"
  by pat_completeness auto
termination
  by (relation "measure (\<lambda>(m, c, h, t, v, ids). LINE_COUNT - t)") auto

declare fill_loop.simps [simp del]

definition IdPool_FillAllocated :: "nat \<Rightarrow> id_pool \<Rightarrow> u64 list option" where
  "IdPool_FillAllocated headIndex p =
     (if \<not> pool_attached p then None
      else if headIndex \<ge> LINE_COUNT then None
      else let m = memIds p; idHead = m headIndex 0 in
        if \<not> idHead_used idHead then None
        else if \<not> idHead_head idHead then None
        else case fill_loop m headIndex idHead 0 ((\<lambda>_. False)(headIndex := True)) [] of
            None \<Rightarrow> None
          | Some (currentIndex, idHead', ids) \<Rightarrow>
              if idHead_nextIndex idHead' \<ge> RECORD_MEM_ID_POOL_LINE_SIZE then None
              else Some (ids @ map (\<lambda>i. m currentIndex (i + 1)) [0..<idHead_nextIndex idHead']))"

function release_loop :: "pool_mem \<Rightarrow> nat \<Rightarrow> u64 \<Rightarrow> nat \<Rightarrow> (nat \<Rightarrow> bool) \<Rightarrow> nat list \<Rightarrow> nat list option" where
  "release_loop m currentIndex idHead traversed visited releasedIndexes =
     (if idHead_tail idHead then Some (releasedIndexes @ [currentIndex])
      else let releasedIndexes' = releasedIndexes @ [currentIndex] in
        if Suc traversed \<ge> LINE_COUNT \<or> idHead_nextIndex idHead \<ge> LINE_COUNT then None
        else if visited (idHead_nextIndex idHead) then None
        else let currentIndex' = idHead_nextIndex idHead; idHead' = m currentIndex' 0 in
          if \<not> idHead_used idHead' then None
          else release_loop m currentIndex' idHead' (Suc traversed) (visited(currentIndex' := True)) releasedIndexes')"
  by pat_completeness auto
termination
  by (relation "measure (\<lambda>(m, c, h, t, v, r). LINE_COUNT - t)") auto

declare release_loop.simps [simp del]

definition IdPool_Release :: "nat \<Rightarrow> id_pool \<Rightarrow> id_pool option" where
  "IdPool_Release headIndex p =
     (if \<not> pool_attached p then None
      else if headIndex \<ge> LINE_COUNT then None
      else let m = memIds p; idHead = m headIndex 0 in
        if \<not> idHead_used idHead then None
        else if \<not> idHead_head idHead then None
        else case release_loop m headIndex idHead 0 ((\<lambda>_. False)(headIndex := True)) [] of
            None \<Rightarrow> None
          | Some releasedIndexes \<Rightarrow>
              Some (p\<lparr>memIds := fold (\<lambda>index. write_cell index 0 0) releasedIndexes m,
                      idleIdIndexes := idleIdIndexes p @ releasedIndexes\<rparr>))"


section \<open>Heads and cells\<close>

lemma line_size [simp]: "RECORD_MEM_ID_POOL_LINE_SIZE = 64"
  by (simp add: RECORD_MEM_ID_POOL_LINE_SIZE_def)

lemma line_count_bounds: "0 < LINE_COUNT" "LINE_COUNT < 2 ^ 32"
  by (simp_all add: RECORD_MEM_ID_POOL_LINE_COUNT_def)

lemma mkIdHead_flags [simp]:
  "idHead_used (mkIdHead u h t n) = u"
  "idHead_head (mkIdHead u h t n) = h"
  "idHead_tail (mkIdHead u h t n) = t"
  by (auto simp: idHead_used_def idHead_head_def idHead_tail_def mkIdHead_def bit_simps)

lemma mkIdHead_nextIndex [simp]: "n < 2 ^ 32 \<Longrightarrow> idHead_nextIndex (mkIdHead u h t n) = n"
proof -
  assume n: "n < 2 ^ 32"
  have "drop_bit 32 (mkIdHead u h t n) = (of_nat (take_bit 32 n) :: u64)"
    by (rule bit_word_eqI) (auto simp: mkIdHead_def bit_simps)
  moreover have "take_bit 32 n = n"
    using n by (simp add: take_bit_nat_eq_self)
  ultimately show ?thesis
    using n by (simp add: idHead_nextIndex_def unat_of_nat)
qed

lemma idHead_zero [simp]: "\<not> idHead_used 0"
  by (simp add: idHead_used_def)

lemma write_cell_same [simp]: "write_cell l c v m l c = v"
  by (simp add: write_cell_def)

lemma write_cell_other [simp]: "i \<noteq> l \<or> j \<noteq> c \<Longrightarrow> write_cell l c v m i j = m i j"
  by (auto simp: write_cell_def)

lemma fold_write_other:
  "\<forall>i\<in>set xs. a i \<noteq> l \<or> b i \<noteq> c \<Longrightarrow>
   fold (\<lambda>i. write_cell (a i) (b i) (v i)) xs m l c = m l c"
proof (induction xs arbitrary: m)
  case (Cons x xs)
  then have "l \<noteq> a x \<or> c \<noteq> b x" by auto
  with Cons show ?case by simp
qed simp

lemma fold_write_at:
  "i \<in> set xs \<Longrightarrow> (\<And>j. j \<in> set xs \<Longrightarrow> a j = a i \<Longrightarrow> b j = b i \<Longrightarrow> v j = v i) \<Longrightarrow>
   fold (\<lambda>i. write_cell (a i) (b i) (v i)) xs m (a i) (b i) = v i"
proof (induction xs rule: rev_induct)
  case (snoc x xs)
  show ?case
  proof (cases "a x = a i \<and> b x = b i")
    case True
    then have "v x = v i" by (intro snoc.prems(2)) auto
    with True show ?thesis using write_cell_same[of "a i" "b i" "v i"] by simp
  next
    case False
    then have "i \<in> set xs" using snoc.prems(1) by auto
    then have "fold (\<lambda>i. write_cell (a i) (b i) (v i)) xs m (a i) (b i) = v i"
      by (rule snoc.IH) (rule snoc.prems(2), auto)
    with False show ?thesis by auto
  qed
qed simp

section \<open>Chains\<close>

fun linked :: "pool_mem \<Rightarrow> nat list \<Rightarrow> bool" where
  "linked m [] = False"
| "linked m [l] = (idHead_used (m l 0) \<and> idHead_tail (m l 0))"
| "linked m (l # l' # ls) =
     (idHead_used (m l 0) \<and> \<not> idHead_tail (m l 0) \<and> idHead_nextIndex (m l 0) = l' \<and> linked m (l' # ls))"

lemma linked_used: "linked m ls \<Longrightarrow> l \<in> set ls \<Longrightarrow> idHead_used (m l 0)"
  by (induction m ls rule: linked.induct) auto

lemma linked_cong: "(\<And>l. l \<in> set ls \<Longrightarrow> m l 0 = m' l 0) \<Longrightarrow> linked m ls = linked m' ls"
  by (induction m ls rule: linked.induct) auto

lemma linked_det: "linked m (l # xs) \<Longrightarrow> linked m (l # ys) \<Longrightarrow> xs = ys"
proof (induction xs arbitrary: l ys)
  case Nil
  then show ?case by (cases ys) auto
next
  case (Cons x xs)
  then show ?case by (cases ys) auto
qed

lemma distinct_lines_length: "distinct ls \<Longrightarrow> set ls \<subseteq> {..<n::nat} \<Longrightarrow> length ls \<le> n"
  using card_mono[of "{..<n}" "set ls"] by (simp add: distinct_card)

lemma release_loop_tail: "idHead_tail h \<Longrightarrow> release_loop m c h t v r = Some (r @ [c])"
  by (simp add: release_loop.simps)

lemma release_loop_step:
  "\<not> idHead_tail h \<Longrightarrow> release_loop m c h t v r =
    (let n = idHead_nextIndex h in
     if Suc t \<ge> LINE_COUNT \<or> n \<ge> LINE_COUNT \<or> v n \<or> \<not> idHead_used (m n 0) then None
     else release_loop m n (m n 0) (Suc t) (v(n := True)) (r @ [c]))"
  by (subst release_loop.simps) (simp add: Let_def)

lemma release_loop_complete:
  assumes "linked m (c # ls)" "distinct ls" "\<forall>l\<in>set ls. \<not> v l" "set ls \<subseteq> {..<LINE_COUNT}"
    "t + length ls < LINE_COUNT"
  shows "release_loop m c (m c 0) t v r = Some (r @ c # ls)"
  using assms
proof (induction ls arbitrary: c t v r)
  case Nil
  then show ?case by (simp add: release_loop_tail)
next
  case (Cons l ls)
  have "release_loop m l (m l 0) (Suc t) (v(l := True)) (r @ [c]) = Some ((r @ [c]) @ l # ls)"
    using Cons.prems by (intro Cons.IH) auto
  with Cons.prems linked_used[of m "l # ls" l] show ?case
    by (simp add: release_loop_step Let_def)
qed

lemma release_loop_sound:
  assumes "release_loop m c h t v r = Some r'" "h = m c 0" "idHead_used h" "v c"
  shows "\<exists>ls. r' = r @ c # ls \<and> linked m (c # ls) \<and> distinct ls \<and> (\<forall>l\<in>set ls. \<not> v l)
    \<and> set ls \<subseteq> {..<LINE_COUNT}"
  using assms
proof (induction m c h t v r arbitrary: r' rule: release_loop.induct)
  case (1 m c h t v r)
  show ?case
  proof (cases "idHead_tail h")
    case True
    with 1 show ?thesis by (intro exI[of _ "[]"]) (simp add: release_loop_tail)
  next
    case False
    let ?n = "idHead_nextIndex h"
    have *: "\<not> (Suc t \<ge> LINE_COUNT \<or> ?n \<ge> LINE_COUNT)" "\<not> v ?n" "idHead_used (m ?n 0)"
      "release_loop m ?n (m ?n 0) (Suc t) (v(?n := True)) (r @ [c]) = Some r'"
      using 1(2) by (simp_all add: release_loop_step[OF False] Let_def split: if_splits)
    obtain ls where "r' = (r @ [c]) @ ?n # ls" "linked m (?n # ls)" "distinct ls"
      "\<forall>l\<in>set ls. \<not> (v(?n := True)) l" "set ls \<subseteq> {..<LINE_COUNT}"
      using 1(1)[OF False refl *(1,2) refl refl _ *(4)] *(3) by auto
    with 1(3,4) False * show ?thesis
      by (intro exI[of _ "?n # ls"]) (auto split: if_splits)
  qed
qed


lemma release_loop_acc:
  "release_loop m c h t v (r @ s) = map_option ((@) r) (release_loop m c h t v s)"
proof (induction m c h t v s rule: release_loop.induct)
  case (1 m c h t v s)
  show ?case
  proof (cases "idHead_tail h")
    case False
    show ?thesis
      using 1[OF False refl _ _ refl refl]
      by (simp add: release_loop_step[OF False] Let_def del: fun_upd_apply)
  qed (simp add: release_loop_tail)
qed

lemmas release_loop_cons = release_loop_acc[of _ _ _ _ _ "[c]" "[]" for c, simplified]

text \<open>The ids held by a chain: all 63 words of every line but the last, a prefix of the last.\<close>

definition chain_ids :: "pool_mem \<Rightarrow> nat list \<Rightarrow> u64 list" where
  "chain_ids m ls = concat (map (\<lambda>l. map (m l) [1..<RECORD_MEM_ID_POOL_LINE_SIZE]) (butlast ls)) @
     map (\<lambda>i. m (last ls) (i + 1)) [0..<idHead_nextIndex (m (last ls) 0)]"

lemma fill_loop_step:
  "\<not> idHead_tail h \<Longrightarrow> fill_loop m c h t v ids =
    (let n = idHead_nextIndex h in
     if Suc t \<ge> LINE_COUNT \<or> n \<ge> LINE_COUNT \<or> v n \<or> \<not> idHead_used (m n 0) then None
     else fill_loop m n (m n 0) (Suc t) (v(n := True)) (ids @ map (m c) [1..<RECORD_MEM_ID_POOL_LINE_SIZE]))"
  by (subst fill_loop.simps) (simp add: Let_def)

lemma release_loop_nonempty: "release_loop m c h t v r \<noteq> Some []"
proof (induction m c h t v r rule: release_loop.induct)
  case (1 m c h t v r)
  show ?case
  proof (cases "idHead_tail h")
    case False
    show ?thesis
      using 1[OF False refl _ _ refl refl]
      by (simp add: release_loop_step[OF False] Let_def del: fun_upd_apply)
  qed (simp add: release_loop_tail)
qed

lemma fill_loop_release_loop:
  "h = m c 0 \<Longrightarrow> fill_loop m c h t v ids = (case release_loop m c h t v [] of None \<Rightarrow> None
     | Some ls \<Rightarrow> Some (last ls, m (last ls) 0,
         ids @ concat (map (\<lambda>l. map (m l) [1..<RECORD_MEM_ID_POOL_LINE_SIZE]) (butlast ls))))"
proof (induction m c h t v ids rule: fill_loop.induct)
  case (1 m c h t v ids)
  show ?case
  proof (cases "idHead_tail h")
    case True
    with 1(2) show ?thesis by (simp add: release_loop_tail fill_loop.simps)
  next
    case False
    let ?n = "idHead_nextIndex h"
    show ?thesis
      using 1(1)[OF False _ _ refl refl refl]
        release_loop_nonempty[of m ?n "m ?n 0" "Suc t" "v(?n := True)" "[]"]
      by (simp add: release_loop_step[OF False] fill_loop_step[OF False] Let_def
          release_loop_cons del: fun_upd_apply line_size split: option.split)
  qed
qed

definition chain :: "pool_mem \<Rightarrow> nat list \<Rightarrow> bool" where
  "chain m ls \<longleftrightarrow> linked m ls \<and> distinct ls \<and> set ls \<subseteq> {..<LINE_COUNT} \<and> idHead_head (m (hd ls) 0)"

lemma release_loop_iff_chain:
  assumes "h < LINE_COUNT" "idHead_used (m h 0)" "idHead_head (m h 0)"
  shows "release_loop m h (m h 0) 0 ((\<lambda>_. False)(h := True)) [] = Some ls \<longleftrightarrow> chain m ls \<and> hd ls = h"
proof
  assume "release_loop m h (m h 0) 0 ((\<lambda>_. False)(h := True)) [] = Some ls"
  from release_loop_sound[OF this refl] assms show "chain m ls \<and> hd ls = h"
    by (auto simp: chain_def split: if_splits)
next
  assume *: "chain m ls \<and> hd ls = h"
  then obtain ls' where ls: "ls = h # ls'" by (cases ls) (auto simp: chain_def)
  have "length ls' < LINE_COUNT"
    using distinct_lines_length[of ls LINE_COUNT] * by (simp add: chain_def ls)
  moreover have "\<forall>l\<in>set ls'. \<not> ((\<lambda>_. False)(h := True)) l"
    using * by (auto simp: chain_def ls)
  ultimately show "release_loop m h (m h 0) 0 ((\<lambda>_. False)(h := True)) [] = Some ls"
    using release_loop_complete[of m h ls' "(\<lambda>_. False)(h := True)" 0 "[]"] *
    by (simp add: chain_def ls del: fun_upd_apply)
qed

lemma chain_hd:
  "chain m ls \<Longrightarrow> hd ls < LINE_COUNT \<and> idHead_used (m (hd ls) 0) \<and> idHead_head (m (hd ls) 0)"
  by (cases ls) (auto simp: chain_def dest: linked_used[of _ _ "hd ls"])

abbreviation walk :: "pool_mem \<Rightarrow> nat \<Rightarrow> nat list option" where
  "walk m h \<equiv> release_loop m h (m h 0) 0 ((\<lambda>_. False)(h := True)) []"

lemma ex_chain_iff_walk:
  assumes "h < LINE_COUNT" "idHead_used (m h 0)" "idHead_head (m h 0)"
  shows "(\<exists>ls. chain m ls \<and> hd ls = h \<and> P ls) \<longleftrightarrow> (\<exists>ls. walk m h = Some ls \<and> P ls)"
  using release_loop_iff_chain[of h m, OF assms] by auto

lemma FillAllocated_iff:
  "IdPool_FillAllocated h p = Some ids \<longleftrightarrow> pool_attached p \<and>
     (\<exists>ls. chain (memIds p) ls \<and> hd ls = h \<and> ids = chain_ids (memIds p) ls \<and>
        idHead_nextIndex (memIds p (last ls) 0) < RECORD_MEM_ID_POOL_LINE_SIZE)"
proof (cases "pool_attached p \<and> h < LINE_COUNT \<and> idHead_used (memIds p h 0) \<and> idHead_head (memIds p h 0)")
  case True
  then show ?thesis
    using ex_chain_iff_walk[of h "memIds p"]
    by (cases "walk (memIds p) h")
      (auto simp: IdPool_FillAllocated_def Let_def fill_loop_release_loop chain_ids_def
        simp del: line_size)
next
  case False
  then show ?thesis
    using chain_hd by (auto simp: IdPool_FillAllocated_def Let_def)
qed

lemma Release_iff:
  "IdPool_Release h p = Some p' \<longleftrightarrow> pool_attached p \<and>
     (\<exists>ls. chain (memIds p) ls \<and> hd ls = h \<and>
        p' = p\<lparr>memIds := fold (\<lambda>index. write_cell index 0 0) ls (memIds p),
               idleIdIndexes := idleIdIndexes p @ ls\<rparr>)"
proof (cases "pool_attached p \<and> h < LINE_COUNT \<and> idHead_used (memIds p h 0) \<and> idHead_head (memIds p h 0)")
  case True
  then show ?thesis
    using ex_chain_iff_walk[of h "memIds p"]
    by (cases "walk (memIds p) h") (auto simp: IdPool_Release_def Let_def)
next
  case False
  then show ?thesis
    using chain_hd by (auto simp: IdPool_Release_def Let_def)
qed

lemma chain_det: "chain m xs \<Longrightarrow> chain m ys \<Longrightarrow> hd xs = hd ys \<Longrightarrow> xs = ys"
  by (cases xs; cases ys) (auto simp: chain_def dest: linked_det)

section \<open>Well-formed pools\<close>

text \<open>
  \<open>pool_chain\<close>: a chain as \<^verbatim>\<open>Allocate\<close> lays it out.  \<open>pool_layout p cs\<close>: the lines of the
  pool are partitioned into the chains \<open>cs\<close> and the idle lines.
\<close>

definition pool_chain :: "pool_mem \<Rightarrow> nat list \<Rightarrow> bool" where
  "pool_chain m ls \<longleftrightarrow> chain m ls \<and> (\<forall>l\<in>set (tl ls). \<not> idHead_head (m l 0)) \<and>
     idHead_nextIndex (m (last ls) 0) < RECORD_MEM_ID_POOL_LINE_SIZE"

definition pool_layout :: "id_pool \<Rightarrow> nat list list \<Rightarrow> bool" where
  "pool_layout p cs \<longleftrightarrow> pool_attached p \<and> (\<forall>c\<in>set cs. pool_chain (memIds p) c) \<and>
     distinct (concat cs @ idleIdIndexes p) \<and> set (concat cs @ idleIdIndexes p) = {..<LINE_COUNT} \<and>
     (\<forall>l\<in>set (idleIdIndexes p). \<not> idHead_used (memIds p l 0))"

definition pool_inv :: "id_pool \<Rightarrow> bool" where
  "pool_inv p \<longleftrightarrow> (\<exists>cs. pool_layout p cs)"

lemma chain_nonempty: "chain m ls \<Longrightarrow> ls \<noteq> []"
  by (auto simp: chain_def)

lemma pool_chain_cong:
  assumes "\<And>l. l \<in> set ls \<Longrightarrow> m l = m' l"
  shows "pool_chain m ls = pool_chain m' ls"
proof (cases ls)
  case (Cons a list)
  have "m (last ls) = m' (last ls)" "m (hd ls) = m' (hd ls)"
    using assms Cons by auto
  moreover have "\<forall>l\<in>set (tl ls). m l = m' l" using assms Cons by auto
  ultimately show ?thesis
    using linked_cong[of ls m m'] assms by (auto simp: pool_chain_def chain_def)
qed (simp add: pool_chain_def chain_def)

lemma chain_ids_cong:
  assumes "ls \<noteq> []" "\<And>l. l \<in> set ls \<Longrightarrow> m l = m' l"
  shows "chain_ids m ls = chain_ids m' ls"
proof -
  have "map (\<lambda>l. map (m l) [1..<64]) (butlast ls) = map (\<lambda>l. map (m' l) [1..<64]) (butlast ls)"
    using assms by (auto dest: in_set_butlastD)
  moreover have "m (last ls) = m' (last ls)"
    using assms by simp
  ultimately show ?thesis
    unfolding chain_ids_def line_size by (simp only:)
qed

lemma layout_disjoint:
  assumes "pool_layout p cs" "c \<in> set cs" "c' \<in> set cs" "c \<noteq> c'"
  shows "set c \<inter> set c' = {}"
  using assms by (auto simp: pool_layout_def distinct_concat_iff)

lemma layout_chain: "pool_layout p cs \<Longrightarrow> c \<in> set cs \<Longrightarrow> chain (memIds p) c"
  by (simp add: pool_layout_def pool_chain_def)

lemma layout_head_inj:
  "pool_layout p cs \<Longrightarrow> c \<in> set cs \<Longrightarrow> c' \<in> set cs \<Longrightarrow> hd c = hd c' \<Longrightarrow> c = c'"
  using chain_det layout_chain by blast

lemma layout_fill:
  "pool_layout p cs \<Longrightarrow> c \<in> set cs \<Longrightarrow> IdPool_FillAllocated (hd c) p = Some (chain_ids (memIds p) c)"
  by (auto simp: FillAllocated_iff pool_layout_def pool_chain_def)

lemma layout_fill_None:
  assumes "pool_layout p cs" "h \<notin> hd ` set cs"
  shows "IdPool_FillAllocated h p = None"
proof (cases "h < LINE_COUNT \<and> h \<notin> set (idleIdIndexes p)")
  case True
  moreover have "set (concat cs @ idleIdIndexes p) = {..<LINE_COUNT}"
    using assms(1) by (simp only: pool_layout_def)
  ultimately have "h \<in> set (concat cs)" by (metis UnE lessThan_iff set_append)
  then obtain c where c: "c \<in> set cs" "h \<in> set c" by auto
  moreover have "h \<noteq> hd c" using assms(2) c(1) by auto
  ultimately have "h \<in> set (tl c)" by (cases c rule: list.exhaust) auto
  then have "\<not> idHead_head (memIds p h 0)"
    using assms(1) c by (auto simp: pool_layout_def pool_chain_def)
  then show ?thesis by (simp add: IdPool_FillAllocated_def Let_def)
next
  case False
  then show ?thesis
    using assms(1) by (auto simp: IdPool_FillAllocated_def Let_def pool_layout_def)
qed

section \<open>Allocate\<close>

lemma linked_nth:
  "linked m ls \<longleftrightarrow> ls \<noteq> [] \<and> (\<forall>i<length ls. idHead_used (m (ls ! i) 0) \<and>
     idHead_tail (m (ls ! i) 0) = (i = length ls - 1) \<and>
     (i + 1 < length ls \<longrightarrow> idHead_nextIndex (m (ls ! i) 0) = ls ! (i + 1)))"
proof (induction m ls rule: linked.induct)
  case (3 m l l' ls)
  show ?case
    by (auto simp: 3 All_less_Suc2)
qed auto

lemma concat_chunks: "concat (map (\<lambda>r. take k (drop (r * k) xs)) [0..<n]) = take (n * k) xs"
proof (induction n)
  case (Suc n)
  then show ?case by (simp add: take_add[symmetric] add.commute)
qed simp


lemma write_heads_at:
  assumes "distinct ls" "i < length ls"
  shows "write_heads ls k m (ls ! i) 0 = mkIdHead True (i = 0) (i = length ls - 1)
           (if i = length ls - 1 then k else ls ! (i + 1))"
  unfolding write_heads_def Let_def
  by (subst fold_write_at[where a = "\<lambda>i. ls ! i" and b = "\<lambda>_. 0"])
    (use assms in \<open>auto simp: nth_eq_iff_index_eq\<close>)

lemma write_heads_other: "l \<notin> set ls \<or> c \<noteq> 0 \<Longrightarrow> write_heads ls k m l c = m l c"
  unfolding write_heads_def Let_def by (rule fold_write_other) auto

lemma write_ids_other:
  assumes "l \<notin> set ls \<or> c = 0" "length ids \<le> length ls * 63"
  shows "write_ids ls ids m l c = m l c"
  unfolding write_ids_def
proof (rule fold_write_other, intro ballI)
  fix i assume "i \<in> set [0..<length ids]"
  then have "i div 63 < length ls" using assms(2) by (simp add: div_less_iff_less_mult)
  then have "ls ! (i div 63) \<in> set ls" by simp
  then show "ls ! (i div (RECORD_MEM_ID_POOL_LINE_SIZE - 1)) \<noteq> l \<or>
      i mod (RECORD_MEM_ID_POOL_LINE_SIZE - 1) + 1 \<noteq> c"
    using assms(1) by auto
qed

lemma div_mod_63_eq: "i div 63 = j div 63 \<Longrightarrow> i mod 63 = j mod 63 \<Longrightarrow> i = (j :: nat)"
  by (metis div_mult_mod_eq)

lemma write_ids_at:
  assumes "distinct ls" "length ids \<le> length ls * 63" "j < length ids"
  shows "write_ids ls ids m (ls ! (j div 63)) (j mod 63 + 1) = ids ! j"
proof -
  have uniq: "ids ! i = ids ! j"
    if "i \<in> set [0..<length ids]" "ls ! (i div 63) = ls ! (j div 63)" "i mod 63 + 1 = j mod 63 + 1" for i
  proof -
    have "i div 63 < length ls" "j div 63 < length ls"
      using assms that by (simp_all add: div_less_iff_less_mult)
    then have "i div 63 = j div 63" using that(2) assms(1) by (simp add: nth_eq_iff_index_eq)
    then show ?thesis using that(3) div_mod_63_eq[of i j] by simp
  qed
  have "fold (\<lambda>i. write_cell (ls ! (i div 63)) (i mod 63 + 1) (ids ! i)) [0..<length ids] m
      (ls ! (j div 63)) (j mod 63 + 1) = ids ! j"
    by (rule fold_write_at, simp add: assms(3)) (rule uniq)
  then show ?thesis by (simp add: write_ids_def)
qed

text \<open>The number of lines a list of ids needs, and the ids its last line holds.\<close>

lemma lines_need:
  assumes "n = (a + 62) div 63" "n \<noteq> (0::nat)"
  shows "a \<le> n * 63" "(n - 1) * 63 < a"
proof -
  have "n * 63 + (a + 62) mod 63 = a + 62" "(a + 62) mod 63 < 63"
    unfolding assms(1) by (rule div_mult_mod_eq) simp
  then show "a \<le> n * 63" "(n - 1) * 63 < a"
    using assms(2) by linarith+
qed

lemma lines_data:
  assumes "distinct ls" "length ls = (length ids + 62) div 63" "ls \<noteq> []"
    "k = length ids - (length ls - 1) * 63"
    "\<And>l c. l \<in> set ls \<Longrightarrow> m' l (Suc c) = write_ids ls ids m l (Suc c)"
    "idHead_nextIndex (m' (last ls) 0) = k"
  shows "chain_ids m' ls = ids"
proof -
  let ?n = "length ls"
  have n: "length ids \<le> ?n * 63" "(?n - 1) * 63 < length ids"
    using lines_need[OF assms(2)] assms(3) by simp_all
  have at: "m' (ls ! r) (Suc c) = ids ! (r * 63 + c)" if "r * 63 + c < length ids" "c < 63" "r < ?n" for r c
    using write_ids_at[OF assms(1) n(1) that(1), of m] that assms(5) by simp
  have full: "map (m' (ls ! r)) [1..<64] = take 63 (drop (r * 63) ids)" if "r < ?n - 1" for r
  proof -
    have "r * 63 + 63 \<le> (?n - 1) * 63" using that mult_le_mono1[of "Suc r" "?n - 1" 63] by simp
    then have "r * 63 + 63 \<le> length ids" using n(2) by linarith
    then show ?thesis using that at
      by (intro nth_equalityI) (auto simp del: upt_rec_numeral)
  qed
  have "concat (map (\<lambda>l. map (m' l) [1..<64]) (butlast ls)) =
        concat (map (\<lambda>r. map (m' (ls ! r)) [1..<64]) [0..<?n - 1])"
    by (intro arg_cong[where f = concat] nth_equalityI) (auto simp: nth_butlast simp del: upt_rec_numeral)
  also have "\<dots> = concat (map (\<lambda>r. take 63 (drop (r * 63) ids)) [0..<?n - 1])"
    using full by (intro arg_cong[where f = concat] map_cong) auto
  also have "\<dots> = take ((?n - 1) * 63) ids" by (rule concat_chunks)
  finally have front: "concat (map (\<lambda>l. map (m' l) [1..<64]) (butlast ls)) = take ((?n - 1) * 63) ids" .
  have rest: "map (\<lambda>i. m' (last ls) (i + 1)) [0..<k] = drop ((?n - 1) * 63) ids"
    using n assms(3,4) at[of "?n - 1"]
    by (intro nth_equalityI) (auto simp: last_conv_nth)
  show ?thesis
    unfolding chain_ids_def line_size assms(6) front rest by simp
qed


lemma taken_lines: "n \<le> length idle \<Longrightarrow>
    map (\<lambda>i. idle ! (length idle - 1 - i)) [0..<n] = take n (rev idle)"
  by (intro nth_equalityI) (auto simp: rev_nth)

lemma split_idle: "n \<le> length idle \<Longrightarrow> idle = take (length idle - n) idle @ rev (take n (rev idle))"
  by (simp add: take_rev)

lemma allocated_chain:
  assumes "distinct ls" "set ls \<subseteq> {..<LINE_COUNT}" "length ls = (length ids + 62) div 63" "ls \<noteq> []"
    "m' = write_ids ls ids (write_heads ls (length ids - (length ls - 1) * 63) m)"
  shows "pool_chain m' ls" "chain_ids m' ls = ids" "l \<notin> set ls \<Longrightarrow> m' l = m l"
proof -
  let ?n = "length ls" and ?k = "length ids - (length ls - 1) * 63"
  have n: "length ids \<le> ?n * 63" "(?n - 1) * 63 < length ids"
    using lines_need[OF assms(3)] assms(4) by simp_all
  have k: "?k < 64" "0 < ?n" using n assms(4) by (cases ?n; simp)+
  have next_ok: "ls ! i < 2 ^ 32" if "i < ?n" for i
    using that assms(2) line_count_bounds(2) by (meson lessThan_iff less_trans nth_mem subsetD)
  have head: "m' (ls ! i) 0 = mkIdHead True (i = 0) (i = ?n - 1) (if i = ?n - 1 then ?k else ls ! (i + 1))"
    if "i < ?n" for i
    using that assms(1,5) n(1) by (simp add: write_ids_other write_heads_at)
  have "linked m' ls"
    unfolding linked_nth using assms(4) by (auto simp: head next_ok[simplified])
  moreover have "hd ls = ls ! 0" "last ls = ls ! (?n - 1)"
    using assms(4) by (simp_all add: hd_conv_nth last_conv_nth)
  moreover have "\<not> idHead_head (m' l 0)" if "l \<in> set (tl ls)" for l
  proof -
    from that obtain i where "i < length (tl ls)" "tl ls ! i = l" by (metis in_set_conv_nth)
    then have "l = ls ! Suc i" "Suc i < ?n" by (auto simp: nth_tl)
    then show ?thesis using head[of "Suc i"] by simp
  qed
  moreover have last_next: "idHead_nextIndex (m' (ls ! (?n - 1)) 0) = ?k"
    using head[of "?n - 1"] k by simp
  ultimately show "pool_chain m' ls"
    using assms(1,2) head[of 0] k by (simp add: pool_chain_def chain_def)
  show "chain_ids m' ls = ids"
    using assms(1,3,4) refl
    by (rule lines_data[where m = "write_heads ls ?k m"])
      (use last_next assms(4,5) in \<open>simp_all add: last_conv_nth\<close>)
  show "m' l = m l" if "l \<notin> set ls"
    using that assms(5) n(1) by (auto simp: write_ids_other write_heads_other)
qed

lemma Allocate_eq:
  assumes "n = (length ids + 62) div 63" "ls = take n (rev (idleIdIndexes p))"
  shows "IdPool_Allocate ids p =
    (if pool_attached p \<and> n \<noteq> 0 \<and> n \<le> length (idleIdIndexes p)
     then Some (ls ! 0, p\<lparr>idleIdIndexes := take (length (idleIdIndexes p) - n) (idleIdIndexes p),
        memIds := write_ids ls ids (write_heads ls (length ids - (n - 1) * 63) (memIds p))\<rparr>)
     else None)"
proof -
  have n: "(length ids + (64 - 1) - 1) div (64 - 1) = n" by (simp add: assms(1) add.commute)
  show ?thesis
    unfolding IdPool_Allocate_def Let_def line_size n
    by (cases "n \<le> length (idleIdIndexes p)") (simp_all only: taken_lines assms(2)[symmetric], auto)
qed

lemma Allocate_SomeD:
  assumes "IdPool_Allocate ids p = Some (h, p')"
  obtains ls where "ls = take ((length ids + 62) div 63) (rev (idleIdIndexes p))" "ls \<noteq> []" "h = hd ls"
    "length ls = (length ids + 62) div 63"
    "idleIdIndexes p = idleIdIndexes p' @ rev ls" "pool_attached p'"
    "memIds p' = write_ids ls ids (write_heads ls (length ids - (length ls - 1) * 63) (memIds p))"
proof -
  let ?n = "(length ids + 62) div 63" and ?idle = "idleIdIndexes p"
  let ?ls = "take ?n (rev ?idle)"
  note A = assms[unfolded Allocate_eq[OF refl refl]]
  have n: "?n \<noteq> 0" "?n \<le> length ?idle"
    using A by (metis option.distinct(1))+
  have p': "h = ?ls ! 0" "p' = p\<lparr>idleIdIndexes := take (length ?idle - ?n) ?idle,
      memIds := write_ids ?ls ids (write_heads ?ls (length ids - (?n - 1) * 63) (memIds p))\<rparr>"
    "pool_attached p"
    using A by (simp_all split: if_splits)
  have ls: "length ?ls = ?n" "?ls \<noteq> []" using n by auto
  have h: "h = hd ?ls" using ls(2) p'(1) by (simp add: hd_conv_nth)
  have i': "idleIdIndexes p' = take (length ?idle - ?n) ?idle" and a': "pool_attached p'"
    and m': "memIds p' = write_ids ?ls ids (write_heads ?ls (length ids - (?n - 1) * 63) (memIds p))"
    by (simp_all add: p'(2,3))
  have i: "?idle = idleIdIndexes p' @ rev ?ls"
    unfolding i' by (rule split_idle[OF n(2)])
  show thesis by (rule that[OF refl ls(2) h ls(1) i a']) (simp only: m' ls(1))
qed

lemma Allocate_layout:
  assumes L: "pool_layout p cs" and A: "IdPool_Allocate ids p = Some (h, p')"
  obtains ls where "pool_layout p' (ls # cs)" "hd ls = h" "chain_ids (memIds p') ls = ids"
    "\<And>c. c \<in> set cs \<Longrightarrow> chain_ids (memIds p') c = chain_ids (memIds p) c"
proof -
  from A obtain ls where ls: "ls \<noteq> []" "h = hd ls" "length ls = (length ids + 62) div 63"
    and p': "idleIdIndexes p = idleIdIndexes p' @ rev ls" "pool_attached p'"
      "memIds p' = write_ids ls ids (write_heads ls (length ids - (length ls - 1) * 63) (memIds p))"
    by (rule Allocate_SomeD)
  have "distinct ls" "set ls \<subseteq> {..<LINE_COUNT}"
    using L p'(1) by (auto simp: pool_layout_def)
  note new = allocated_chain[OF this ls(3,1) p'(3)]
  have old: "memIds p' l = memIds p l" if "c \<in> set cs" "l \<in> set c" for c l
    using new(3)[of l] that L p'(1) by (auto simp: pool_layout_def)
  have idle: "memIds p' l = memIds p l" if "l \<in> set (idleIdIndexes p')" for l
    using new(3)[of l] that L p'(1) by (auto simp: pool_layout_def)
  have "pool_chain (memIds p') c" if "c \<in> set cs" for c
    using pool_chain_cong[of c "memIds p'" "memIds p"] old[OF that] that L by (auto simp: pool_layout_def)
  then have "pool_layout p' (ls # cs)"
    using new(1) L p'(1,2) idle by (auto simp: pool_layout_def)
  moreover have "chain_ids (memIds p') c = chain_ids (memIds p) c" if "c \<in> set cs" for c
    using chain_ids_cong[of c "memIds p'" "memIds p"] old[OF that] chain_nonempty[OF layout_chain[OF L that]]
    by blast
  ultimately show thesis using that[of ls] ls(2) new(2) by blast
qed

lemma clear_heads_other: "l \<notin> set ls \<Longrightarrow> fold (\<lambda>i. write_cell i 0 0) ls m l = m l"
  by (rule ext) (rule fold_write_other, auto)

lemma clear_heads_at: "l \<in> set ls \<Longrightarrow> fold (\<lambda>i. write_cell i 0 0) ls m l 0 = 0"
  by (rule fold_write_at[where a = "\<lambda>i. i" and b = "\<lambda>_. 0" and v = "\<lambda>_. 0"]) auto

lemma layout_distinct: "pool_layout p cs \<Longrightarrow> distinct cs"
proof -
  assume L: "pool_layout p cs"
  then have "[] \<notin> set cs" using layout_chain chain_nonempty by blast
  then show ?thesis using L by (auto simp: pool_layout_def distinct_concat_iff removeAll_id)
qed

lemma mset_concat_remove1: "c \<in> set cs \<Longrightarrow> mset (concat cs) = mset c + mset (concat (remove1 c cs))"
  by (induction cs) auto

lemma Release_layout:
  assumes L: "pool_layout p cs" and c: "c \<in> set cs"
  obtains p' where "IdPool_Release (hd c) p = Some p'" "pool_layout p' (remove1 c cs)"
    "\<And>c'. c' \<in> set (remove1 c cs) \<Longrightarrow> chain_ids (memIds p') c' = chain_ids (memIds p) c'"
proof -
  let ?m' = "fold (\<lambda>index. write_cell index 0 0) c (memIds p)"
  let ?p' = "p\<lparr>memIds := ?m', idleIdIndexes := idleIdIndexes p @ c\<rparr>"
  have cs: "set (remove1 c cs) = set cs - {c}"
    using layout_distinct[OF L] by simp
  have old: "?m' l = memIds p l" if "c' \<in> set (remove1 c cs)" "l \<in> set c'" for c' l
    using that layout_disjoint[OF L c, of c'] by (intro clear_heads_other) (auto simp: cs)
  have perm: "mset (concat (remove1 c cs) @ (idleIdIndexes p @ c)) = mset (concat cs @ idleIdIndexes p)"
    using mset_concat_remove1[OF c] by simp
  have "distinct (concat cs @ idleIdIndexes p)" "set (concat cs @ idleIdIndexes p) = {..<LINE_COUNT}"
    using L unfolding pool_layout_def by blast+
  then have part: "distinct (concat (remove1 c cs) @ (idleIdIndexes p @ c))"
    "set (concat (remove1 c cs) @ (idleIdIndexes p @ c)) = {..<LINE_COUNT}"
    using mset_eq_imp_distinct_iff[OF perm] mset_eq_setD[OF perm] by (simp_all only:)
  have "\<not> idHead_used (?m' l 0)" if "l \<in> set (idleIdIndexes p @ c)" for l
    using that L clear_heads_at[of l c] clear_heads_other[of l c]
    by (cases "l \<in> set c") (auto simp: pool_layout_def)
  moreover have "pool_chain ?m' c'" if "c' \<in> set (remove1 c cs)" for c'
    using pool_chain_cong[of c' ?m' "memIds p"] old[OF that] that L by (auto simp: pool_layout_def cs)
  ultimately have "pool_layout ?p' (remove1 c cs)"
    using part L by (simp add: pool_layout_def)
  moreover have "IdPool_Release (hd c) p = Some ?p'"
    using L layout_chain[OF L c] by (auto simp: Release_iff pool_layout_def)
  moreover have "chain_ids ?m' c' = chain_ids (memIds p) c'" if "c' \<in> set (remove1 c cs)" for c'
    using chain_ids_cong[of c' ?m' "memIds p"] old[OF that] layout_chain[OF L, of c'] chain_nonempty that
    by (auto simp: cs)
  ultimately show thesis using that[of ?p'] by simp
qed

text \<open>The map from head lines to id lists that a well-formed pool holds.\<close>

lemma layout_fill_map:
  assumes "pool_layout p cs"
  shows "IdPool_FillAllocated h p = map_of (map (\<lambda>c. (hd c, chain_ids (memIds p) c)) cs) h"
proof (cases "h \<in> hd ` set cs")
  case True
  then obtain c where c: "c \<in> set cs" "h = hd c" by auto
  have "inj_on hd (set cs)" using layout_head_inj[OF assms] by (auto intro: inj_onI)
  then have "map_of (map (\<lambda>c. (hd c, chain_ids (memIds p) c)) cs) h = Some (chain_ids (memIds p) c)"
    using layout_distinct[OF assms] c by (intro map_of_is_SomeI) (auto simp: comp_def distinct_map)
  then show ?thesis using layout_fill[OF assms c(1)] c(2) by simp
next
  case False
  then have "map_of (map (\<lambda>c. (hd c, chain_ids (memIds p) c)) cs) h = None"
    by (simp add: map_of_eq_None_iff image_image)
  then show ?thesis
    using layout_fill_None[OF assms False] by simp
qed


section \<open>The contract of the pool\<close>

text \<open>
  What the record store relies on: on a state satisfying the invariant, \<open>alloc\<close> enters a fresh
  key into the finite map read by \<open>fill\<close> and changes no other, \<open>release\<close> removes exactly one.
\<close>

locale id_store =
  fixes inv :: "'p \<Rightarrow> bool"
    and alloc :: "u64 list \<Rightarrow> 'p \<Rightarrow> (nat \<times> 'p) option"
    and fill :: "nat \<Rightarrow> 'p \<Rightarrow> u64 list option"
    and release :: "nat \<Rightarrow> 'p \<Rightarrow> 'p option"
  assumes alloc_inv: "inv p \<Longrightarrow> alloc ids p = Some (h, p') \<Longrightarrow> inv p'"
    and alloc_fresh: "inv p \<Longrightarrow> alloc ids p = Some (h, p') \<Longrightarrow> fill h p = None"
    and alloc_fill: "inv p \<Longrightarrow> alloc ids p = Some (h, p') \<Longrightarrow>
      fill x p' = (if x = h then Some ids else fill x p)"
    and release_ex: "inv p \<Longrightarrow> fill h p \<noteq> None \<Longrightarrow> \<exists>p'. release h p = Some p'"
    and release_inv: "inv p \<Longrightarrow> fill h p \<noteq> None \<Longrightarrow> release h p = Some p' \<Longrightarrow> inv p'"
    and release_fill: "inv p \<Longrightarrow> fill h p \<noteq> None \<Longrightarrow> release h p = Some p' \<Longrightarrow>
      fill x p' = (if x = h then None else fill x p)"
begin

text \<open>
  \<open>owned own p\<close>: every owner \<open>o\<close> with \<open>own o = Some (h, ids)\<close> finds its ids under the head \<open>h\<close>,
  and no head has two owners.
\<close>

definition owned :: "('o \<rightharpoonup> nat \<times> u64 list) \<Rightarrow> 'p \<Rightarrow> bool" where
  "owned own p \<longleftrightarrow> inv p \<and> (\<forall>a h ids. own a = Some (h, ids) \<longrightarrow> fill h p = Some ids) \<and>
     (\<forall>a b h x y. own a = Some (h, x) \<longrightarrow> own b = Some (h, y) \<longrightarrow> a = b)"

lemma owned_fill: "owned own p \<Longrightarrow> own a = Some (h, ids) \<Longrightarrow> fill h p = Some ids"
  by (simp add: owned_def)

lemma owned_inv: "owned own p \<Longrightarrow> inv p"
  by (simp add: owned_def)

lemma owned_mono: "owned own p \<Longrightarrow> own' \<subseteq>\<^sub>m own \<Longrightarrow> owned own' p"
  unfolding owned_def map_le_def by (metis domI)

lemma owned_alloc:
  assumes "owned own p" "alloc ids p = Some (h, p')"
  shows "owned (own(a \<mapsto> (h, ids))) p'"
proof -
  have I: "inv p" using assms(1) by (rule owned_inv)
  have "own b \<noteq> Some (h, x)" for b x
    using alloc_fresh[OF I assms(2)] owned_fill[OF assms(1)] by fastforce
  then show ?thesis
    using assms alloc_inv[OF I assms(2)] alloc_fill[OF I assms(2)] by (auto simp: owned_def)
qed

lemma owned_release:
  assumes "owned own p" "own a = Some (h, ids)"
  obtains p' where "release h p = Some p'" "owned (own(a := None)) p'"
proof -
  have I: "inv p" and F: "fill h p \<noteq> None" using assms by (auto simp: owned_def)
  then obtain p' where p': "release h p = Some p'" using release_ex by blast
  have "own b = Some (h, x) \<Longrightarrow> b = a" for b x
    using assms by (auto simp: owned_def)
  then have "owned (own(a := None)) p'"
    using assms release_inv[OF I F p'] release_fill[OF I F p'] by (auto simp: owned_def)
  with p' show thesis using that by blast
qed

lemma alloc_release:
  assumes "inv p" "alloc ids p = Some (h, p')"
  obtains p'' where "release h p' = Some p''" "inv p''" "\<And>x. fill x p'' = fill x p"
proof -
  have I: "inv p'" and F: "fill h p' \<noteq> None"
    using alloc_inv[OF assms] alloc_fill[OF assms] by simp_all
  then obtain p'' where "release h p' = Some p''" using release_ex by blast
  moreover from this have "fill x p'' = fill x p" for x
    using release_fill[OF I F] alloc_fill[OF assms] alloc_fresh[OF assms] by simp
  ultimately show thesis using that release_inv[OF I F] by blast
qed

end

lemma allocate_map:
  assumes "pool_layout p cs" "IdPool_Allocate ids p = Some (h, p')"
  shows "pool_inv p'" "IdPool_FillAllocated h p = None"
    "IdPool_FillAllocated x p' = (if x = h then Some ids else IdPool_FillAllocated x p)"
proof -
  obtain ls where ls: "pool_layout p' (ls # cs)" "hd ls = h" "chain_ids (memIds p') ls = ids"
    "\<And>c. c \<in> set cs \<Longrightarrow> chain_ids (memIds p') c = chain_ids (memIds p) c"
    using Allocate_layout[OF assms] by blast
  show "pool_inv p'" using ls(1) by (auto simp: pool_inv_def)
  have "h \<notin> hd ` set cs"
    using layout_head_inj[OF ls(1)] layout_distinct[OF ls(1)] ls(2) by fastforce
  then show "IdPool_FillAllocated h p = None" by (rule layout_fill_None[OF assms(1)])
  have eq: "map (\<lambda>c. (hd c, chain_ids (memIds p') c)) cs = map (\<lambda>c. (hd c, chain_ids (memIds p) c)) cs"
    using ls(4) by simp
  show "IdPool_FillAllocated x p' = (if x = h then Some ids else IdPool_FillAllocated x p)"
    unfolding layout_fill_map[OF ls(1)] layout_fill_map[OF assms(1)] list.map eq using ls(2,3) by auto
qed

lemma release_map:
  assumes "pool_layout p cs" "IdPool_FillAllocated h p \<noteq> None"
  obtains p' where "IdPool_Release h p = Some p'" "pool_inv p'"
    "\<And>x. IdPool_FillAllocated x p' = (if x = h then None else IdPool_FillAllocated x p)"
proof -
  have "h \<in> hd ` set cs"
    using layout_fill_None[OF assms(1), of h] assms(2) by auto
  then obtain c where c: "c \<in> set cs" "h = hd c" by blast
  obtain p' where p': "IdPool_Release (hd c) p = Some p'" "pool_layout p' (remove1 c cs)"
    "\<And>c'. c' \<in> set (remove1 c cs) \<Longrightarrow> chain_ids (memIds p') c' = chain_ids (memIds p) c'"
    using Release_layout[OF assms(1) c(1)] by blast
  have cs: "set (remove1 c cs) = set cs - {c}" using layout_distinct[OF assms(1)] by simp
  have "IdPool_FillAllocated x p' = (if x = h then None else IdPool_FillAllocated x p)" for x
  proof (cases "x \<in> hd ` set (remove1 c cs)")
    case True
    then obtain c' where c': "c' \<in> set (remove1 c cs)" "x = hd c'" by blast
    then have "x \<noteq> h" "c' \<in> set cs" using layout_head_inj[OF assms(1) _ c(1), of c'] c(2) by (auto simp: cs)
    then show ?thesis
      using layout_fill[OF p'(2) c'(1)] layout_fill[OF assms(1), of c'] p'(3)[OF c'(1)] c'(2) by simp
  next
    case False
    then have "x = h \<or> x \<notin> hd ` set cs" using c(2) by (auto simp: cs)
    then show ?thesis
      using layout_fill_None[OF p'(2) False] layout_fill_None[OF assms(1)] by auto
  qed
  with p' c(2) that show thesis unfolding pool_inv_def by blast
qed

interpretation pool: id_store pool_inv IdPool_Allocate IdPool_FillAllocated IdPool_Release
proof (unfold_locales, goal_cases)
  case (1 p ids h p') then show ?case using allocate_map(1) by (auto simp: pool_inv_def)
next
  case (2 p ids h p') then show ?case using allocate_map(2) by (auto simp: pool_inv_def)
next
  case (3 p ids h p' x) then show ?case using allocate_map(3) by (metis pool_inv_def)
next
  case (4 p h) then show ?case using release_map by (metis pool_inv_def)
next
  case (5 p h p') then show ?case using release_map by (metis pool_inv_def option.inject)
next
  case (6 p h p' x) then show ?case using release_map by (metis pool_inv_def option.inject)
qed


section \<open>Restart, capacity, and arbitrary file contents\<close>

lemma Initialize_layout:
  assumes "pool_layout p cs"
  obtains p' where "IdPool_Initialize (Some (memIds p)) (IdPool_Destroy p) = Some p'"
    "pool_layout p' cs" "memIds p' = memIds p" "mset (idleIdIndexes p') = mset (idleIdIndexes p)"
proof -
  let ?idle = "filter (\<lambda>l. \<not> idHead_used (memIds p l 0)) [0..<LINE_COUNT]"
  let ?p' = "p\<lparr>pool_attached := True, idleIdIndexes := ?idle\<rparr>"
  have used: "idHead_used (memIds p l 0)" if "c \<in> set cs" "l \<in> set c" for c l
    using layout_chain[OF assms that(1)] that(2) linked_used by (auto simp: chain_def)
  have all: "set (concat cs) \<union> set (idleIdIndexes p) = {..<LINE_COUNT}" "distinct (idleIdIndexes p)"
    "\<forall>l\<in>set (idleIdIndexes p). \<not> idHead_used (memIds p l 0)"
    using assms by (auto simp: pool_layout_def)
  have "l \<in> set (idleIdIndexes p) \<longleftrightarrow> l < LINE_COUNT \<and> \<not> idHead_used (memIds p l 0)" for l
    using all(1,3) used by (metis UN_E Un_iff lessThan_iff set_concat)
  then have idle: "set ?idle = set (idleIdIndexes p)" by auto
  then have "mset ?idle = mset (idleIdIndexes p)"
    using all(2) by (simp add: set_eq_iff_mset_eq_distinct del: set_filter)
  moreover have "pool_layout ?p' cs"
    using assms idle by (auto simp: pool_layout_def simp del: set_filter)
  ultimately show thesis
    using that[of ?p'] by (simp add: IdPool_Initialize_def IdPool_Destroy_def)
qed

lemma layout_fill_mem:
  "pool_layout p cs \<Longrightarrow> pool_layout p' cs \<Longrightarrow> memIds p' = memIds p \<Longrightarrow>
   IdPool_FillAllocated h p' = IdPool_FillAllocated h p"
  by (simp add: layout_fill_map)

text \<open>A new shared-memory file is zero-filled.\<close>

definition fresh_pool :: id_pool where
  "fresh_pool = \<lparr>pool_attached = True, memIds = (\<lambda>_ _. 0), idleIdIndexes = [0..<LINE_COUNT]\<rparr>"

lemma fresh_pool_Initialize:
  "IdPool_Initialize (Some (\<lambda>_ _. 0)) (IdPool_Destroy p) = Some (id_pool.extend fresh_pool (id_pool.more p))"
  by (simp add: IdPool_Initialize_def IdPool_Destroy_def fresh_pool_def id_pool.defs)

lemma fresh_pool_inv: "pool_inv fresh_pool"
  unfolding pool_inv_def
  by (rule exI[of _ "[]"]) (auto simp: pool_layout_def fresh_pool_def)

lemma chain_in_range_cong:
  assumes "\<And>l c. l < LINE_COUNT \<Longrightarrow> c < RECORD_MEM_ID_POOL_LINE_SIZE \<Longrightarrow> m l c = m' l c"
    "chain m ls" "idHead_nextIndex (m (last ls) 0) < RECORD_MEM_ID_POOL_LINE_SIZE"
  shows "chain m' ls" "chain_ids m' ls = chain_ids m ls" "m' (last ls) 0 = m (last ls) 0"
proof -
  have ls: "l < LINE_COUNT" if "l \<in> set ls" for l using assms(2) that by (auto simp: chain_def)
  have "last ls \<in> set ls" "hd ls \<in> set ls" using chain_nonempty[OF assms(2)] by simp_all
  note hl = this[THEN ls]
  show "chain m' ls"
    using assms(2) linked_cong[of ls m m'] assms(1)[OF ls] assms(1)[OF hl(2)] by (simp add: chain_def)
  show last: "m' (last ls) 0 = m (last ls) 0" using assms(1)[OF hl(1)] by simp
  have "map (m' l) [1..<RECORD_MEM_ID_POOL_LINE_SIZE] = map (m l) [1..<RECORD_MEM_ID_POOL_LINE_SIZE]"
    if "l \<in> set (butlast ls)" for l
    using assms(1)[OF ls[OF in_set_butlastD[OF that]]] by (simp del: upt_rec_numeral)
  then have "map (\<lambda>l. map (m' l) [1..<RECORD_MEM_ID_POOL_LINE_SIZE]) (butlast ls) =
      map (\<lambda>l. map (m l) [1..<RECORD_MEM_ID_POOL_LINE_SIZE]) (butlast ls)"
    by (intro map_cong) simp_all
  moreover have "map (\<lambda>i. m' (last ls) (i + 1)) [0..<idHead_nextIndex (m (last ls) 0)] =
      map (\<lambda>i. m (last ls) (i + 1)) [0..<idHead_nextIndex (m (last ls) 0)]"
    using assms(1)[OF hl(1)] assms(3) by simp
  ultimately show "chain_ids m' ls = chain_ids m ls"
    unfolding chain_ids_def last by (simp only:)
qed

lemma FillAllocated_in_range:
  assumes "\<And>l c. l < LINE_COUNT \<Longrightarrow> c < RECORD_MEM_ID_POOL_LINE_SIZE \<Longrightarrow> memIds p l c = memIds p' l c"
    "pool_attached p = pool_attached p'" "IdPool_FillAllocated h p = Some ids"
  shows "IdPool_FillAllocated h p' = Some ids"
proof -
  obtain ls where ls: "chain (memIds p) ls" "hd ls = h" "ids = chain_ids (memIds p) ls"
    "idHead_nextIndex (memIds p (last ls) 0) < RECORD_MEM_ID_POOL_LINE_SIZE" "pool_attached p"
    using assms(3) unfolding FillAllocated_iff by blast
  note eq = chain_in_range_cong[of "memIds p" "memIds p'", OF assms(1) ls(1,4)]
  show ?thesis unfolding FillAllocated_iff using ls eq assms(2) by (auto intro!: exI[of _ ls])
qed

lemma chain_ids_length:
  assumes "chain m ls" "idHead_nextIndex (m (last ls) 0) < RECORD_MEM_ID_POOL_LINE_SIZE"
  shows "length (chain_ids m ls) \<le> 63 * LINE_COUNT"
proof -
  have "length ls \<le> LINE_COUNT" "ls \<noteq> []"
    using assms(1) distinct_lines_length chain_nonempty by (auto simp: chain_def)
  moreover have "length (concat (map (\<lambda>l. map (m l) [1..<64]) xs)) = 63 * length xs" for xs
    by (induction xs) auto
  then have "length (chain_ids m ls) = 63 * (length ls - 1) + idHead_nextIndex (m (last ls) 0)"
    by (simp add: chain_ids_def del: upt_rec_numeral length_concat)
  ultimately show ?thesis using assms(2) by (cases ls) auto
qed

lemma allocate_iff:
  "IdPool_Allocate ids p \<noteq> None \<longleftrightarrow>
     pool_attached p \<and> ids \<noteq> [] \<and> length ids \<le> 63 * length (idleIdIndexes p)"
proof -
  have "(length ids + 62) div 63 \<noteq> 0 \<longleftrightarrow> ids \<noteq> []" by (cases ids) auto
  moreover have "(length ids + 62) div 63 \<le> n \<longleftrightarrow> length ids \<le> 63 * n" for n
    unfolding less_Suc_eq_le[symmetric] by (simp add: div_less_iff_less_mult) linarith
  ultimately show ?thesis by (simp add: Allocate_eq[OF refl refl])
qed

lemma pool_inv_attached: "pool_inv p \<Longrightarrow> pool_attached p"
  by (auto simp: pool_inv_def pool_layout_def)

section \<open>Properties\<close>

text \<open>
  C19. Storing a list of memory ids and reading it back: when \<^verbatim>\<open>Allocate\<close> succeeds on a
  well-formed pool, the returned head line was free before, \<^verbatim>\<open>FillAllocated\<close> on it now returns
  exactly the list stored, every other allocation reads back as before, and the pool stays
  well-formed.
\<close>

theorem pool_allocate_refines_map:
  assumes "pool_inv p" "IdPool_Allocate ids p = Some (headIndex, p')"
  shows "pool_inv p' \<and> IdPool_FillAllocated headIndex p = None \<and>
    (\<forall>x. IdPool_FillAllocated x p' = (if x = headIndex then Some ids else IdPool_FillAllocated x p))"
  using pool.alloc_inv[OF assms] pool.alloc_fresh[OF assms] pool.alloc_fill[OF assms] by blast

lemma fresh_pool_allocate:
  "\<exists>p'. IdPool_Allocate [7, 8] fresh_pool = Some (LINE_COUNT - 1, p')"
  using line_count_bounds(1)
  by (simp add: Allocate_eq[OF refl refl] fresh_pool_def rev_nth Suc_le_eq)

theorem pool_allocate_refines_map_witness:
  "\<exists>p'. IdPool_Allocate [7, 8] fresh_pool = Some (LINE_COUNT - 1, p') \<and>
     IdPool_FillAllocated (LINE_COUNT - 1) p' = Some [7, 8]"
  using fresh_pool_allocate pool_allocate_refines_map[OF fresh_pool_inv] by (metis (no_types, lifting))

text \<open>
  C20. Releasing: every head line that can be read can be released; its id list disappears, all
  others stay, and the pool stays well-formed.
\<close>

theorem pool_release_removes:
  assumes "pool_inv p" "IdPool_FillAllocated headIndex p = Some ids"
  shows "\<exists>p'. IdPool_Release headIndex p = Some p' \<and> pool_inv p' \<and>
    (\<forall>x. IdPool_FillAllocated x p' = (if x = headIndex then None else IdPool_FillAllocated x p))"
  using pool.release_ex[OF assms(1)] pool.release_inv[OF assms(1)] pool.release_fill[OF assms(1)] assms(2)
  by blast

theorem pool_release_removes_witness:
  "\<exists>p' p''. IdPool_Allocate [7, 8] fresh_pool = Some (LINE_COUNT - 1, p') \<and>
     IdPool_Release (LINE_COUNT - 1) p' = Some p'' \<and> IdPool_FillAllocated (LINE_COUNT - 1) p'' = None"
proof -
  obtain p' where p': "IdPool_Allocate [7, 8] fresh_pool = Some (LINE_COUNT - 1, p')"
    using fresh_pool_allocate by blast
  then have "pool_inv p'" "IdPool_FillAllocated (LINE_COUNT - 1) p' = Some [7, 8]"
    using pool.alloc_inv[OF fresh_pool_inv] pool.alloc_fill[OF fresh_pool_inv] by auto
  from pool_release_removes[OF this] p' show ?thesis by auto
qed

text \<open>
  C21. Capacity: \<^verbatim>\<open>Allocate\<close> on an attached pool fails exactly on the empty list and when the
  ids need more lines, at 63 ids a line, than are idle.
\<close>

theorem pool_allocate_succeeds_iff:
  "IdPool_Allocate ids p \<noteq> None \<longleftrightarrow>
     pool_attached p \<and> ids \<noteq> [] \<and> length ids \<le> 63 * length (idleIdIndexes p)"
  by (rule allocate_iff)

text \<open>
  C22. Restart: re-initialising the allocator over the array left in the shared-memory file
  yields a well-formed pool that reads back every allocation and has the same idle lines.
\<close>

theorem pool_restart:
  assumes "pool_inv p"
  shows "\<exists>p'. IdPool_Initialize (Some (memIds p)) (IdPool_Destroy p) = Some p' \<and> pool_inv p' \<and>
    mset (idleIdIndexes p') = mset (idleIdIndexes p) \<and>
    (\<forall>h. IdPool_FillAllocated h p' = IdPool_FillAllocated h p)"
proof -
  obtain cs where L: "pool_layout p cs" using assms by (auto simp: pool_inv_def)
  then show ?thesis
    using Initialize_layout[OF L] layout_fill_mem[OF L] pool_inv_def by metis
qed

theorem pool_restart_witness:
  "\<exists>p' p''. IdPool_Allocate [7, 8] fresh_pool = Some (LINE_COUNT - 1, p') \<and>
     IdPool_Initialize (Some (memIds p')) (IdPool_Destroy p') = Some p'' \<and>
     IdPool_FillAllocated (LINE_COUNT - 1) p'' = Some [7, 8]"
proof -
  obtain p' where p': "IdPool_Allocate [7, 8] fresh_pool = Some (LINE_COUNT - 1, p')"
    using fresh_pool_allocate by blast
  then have "pool_inv p'" "IdPool_FillAllocated (LINE_COUNT - 1) p' = Some [7, 8]"
    using pool.alloc_inv[OF fresh_pool_inv] pool.alloc_fill[OF fresh_pool_inv] by auto
  with pool_restart[OF this(1)] p' show ?thesis by auto
qed

text \<open>
  C23. Robustness: whatever the file holds, \<^verbatim>\<open>FillAllocated\<close> returns (it is a total function),
  its result does not depend on anything outside the array of lines, and it never returns more
  ids than the array holds.
\<close>

theorem pool_fill_in_bounds:
  assumes "\<And>l c. l < LINE_COUNT \<Longrightarrow> c < RECORD_MEM_ID_POOL_LINE_SIZE \<Longrightarrow> memIds p l c = memIds p' l c"
    and "pool_attached p = pool_attached p'"
  shows "IdPool_FillAllocated h p = IdPool_FillAllocated h p' \<and>
    (\<forall>ids. IdPool_FillAllocated h p = Some ids \<longrightarrow> length ids \<le> 63 * LINE_COUNT)"
proof -
  have "IdPool_FillAllocated h p = Some ids \<longleftrightarrow> IdPool_FillAllocated h p' = Some ids" for ids
    using FillAllocated_in_range[of p p', OF assms] FillAllocated_in_range[of p' p, OF assms[symmetric]]
    by blast
  then have "IdPool_FillAllocated h p = IdPool_FillAllocated h p'"
    by (rule option_ext)
  moreover have "length ids \<le> 63 * LINE_COUNT" if "IdPool_FillAllocated h p = Some ids" for ids
    using that chain_ids_length unfolding FillAllocated_iff by blast
  ultimately show ?thesis by blast
qed

text \<open>A file whose line 0 is a head linked to itself: the walk detects the cycle.\<close>

definition cyclic_pool :: "u64 \<Rightarrow> id_pool" where
  "cyclic_pool garbage = \<lparr>pool_attached = True,
     memIds = (\<lambda>l c. if l < LINE_COUNT then mkIdHead True True False 0 else garbage), idleIdIndexes = []\<rparr>"

lemma cyclic_fill: "IdPool_FillAllocated 0 (cyclic_pool g) = None"
proof -
  have "fill_loop m 0 (mkIdHead True True False 0) 0 ((\<lambda>_. False)(0 := True)) [] = None" for m
    by (subst fill_loop.simps) simp
  then show ?thesis
    using line_count_bounds(1) by (simp add: cyclic_pool_def IdPool_FillAllocated_def)
qed

theorem pool_fill_in_bounds_witness:
  "IdPool_FillAllocated 0 (cyclic_pool 1) = IdPool_FillAllocated 0 (cyclic_pool 2) \<and>
   IdPool_FillAllocated 0 (cyclic_pool 1) = None"
proof -
  have "memIds (cyclic_pool 1) l c = memIds (cyclic_pool 2) l c" if "l < LINE_COUNT" for l c
    using that by (simp add: cyclic_pool_def)
  moreover have "pool_attached (cyclic_pool 1) = pool_attached (cyclic_pool 2)"
    by (simp add: cyclic_pool_def)
  ultimately show ?thesis
    using pool_fill_in_bounds[of "cyclic_pool 1" "cyclic_pool 2" 0] cyclic_fill by blast
qed

end
