(* ===== verification/Multi_Map.thy ===== *)
theory Multi_Map
  imports Ubsm_Prelude
begin

text \<open>
  The two-level hash maps \<^verbatim>\<open>unordered_map<K, unordered_map<L, vector<V>>>\<close> that the record store
  keeps for shared-memory references, with the operations its code performs on them.
  \<open>mm_get\<close> is the abstraction: the list under two keys, empty when a key is absent.  A well-formed
  map (\<open>mm_ok\<close>) has no empty inner map and no empty vector, which is what makes the presence of
  an outer key mean that something is stored under it.
\<close>

type_synonym ('a, 'b, 'v) mmap = "('a \<times> ('b \<times> 'v list) list) list"

definition EraseLastMultiValue :: "('k \<times> 'v list) list \<Rightarrow> 'k \<Rightarrow> ('k \<times> 'v list) list \<times> 'v option" where
  "EraseLastMultiValue m k = (case map_of m k of
     None \<Rightarrow> (m, None)
   | Some vs \<Rightarrow> if vs = [] then (erase k m, None)
       else (if butlast vs = [] then erase k m else assign k (butlast vs) m, Some (last vs)))"

definition find_or_empty :: "('k \<times> 'v list) list \<Rightarrow> 'k \<Rightarrow> 'v list" where
  "find_or_empty m k = (case map_of m k of None \<Rightarrow> [] | Some vs \<Rightarrow> vs)"

text \<open>\<^verbatim>\<open>m[a][b].emplace_back(v)\<close>\<close>

definition mm_push :: "'a \<Rightarrow> 'b \<Rightarrow> 'v \<Rightarrow> ('a, 'b, 'v) mmap \<Rightarrow> ('a, 'b, 'v) mmap" where
  "mm_push a b v m =
     (let inner = find_or_empty m a in assign a (assign b (find_or_empty inner b @ [v]) inner) m)"

text \<open>\<^verbatim>\<open>find(a)\<close>, \<^verbatim>\<open>EraseLastMultiValue\<close> on the inner map, and erasing the inner map once empty.\<close>

definition mm_pop :: "'a \<Rightarrow> 'b \<Rightarrow> ('a, 'b, 'v) mmap \<Rightarrow> ('a, 'b, 'v) mmap \<times> 'v option" where
  "mm_pop a b m = (case map_of m a of
     None \<Rightarrow> (m, None)
   | Some inner \<Rightarrow> (let (inner', r) = EraseLastMultiValue inner b in
       (if inner' = [] then erase a m else assign a inner' m, r)))"

text \<open>\<^verbatim>\<open>m[a].erase(b)\<close>, and erasing \<^verbatim>\<open>m[a]\<close> once empty.\<close>

definition mm_drop :: "'a \<Rightarrow> 'b \<Rightarrow> ('a, 'b, 'v) mmap \<Rightarrow> ('a, 'b, 'v) mmap" where
  "mm_drop a b m =
     (let inner' = erase b (find_or_empty m a) in if inner' = [] then erase a m else assign a inner' m)"

definition mm_get :: "('a, 'b, 'v) mmap \<Rightarrow> 'a \<Rightarrow> 'b \<Rightarrow> 'v list" where
  "mm_get m a b = find_or_empty (find_or_empty m a) b"

definition vm_ok :: "('k \<times> 'v list) list \<Rightarrow> bool" where
  "vm_ok m \<longleftrightarrow> distinct (map fst m) \<and> (\<forall>k. map_of m k \<noteq> Some [])"

definition mm_ok :: "('a, 'b, 'v) mmap \<Rightarrow> bool" where
  "mm_ok m \<longleftrightarrow> vm_ok m \<and> (\<forall>a inner. map_of m a = Some inner \<longrightarrow> vm_ok inner)"

section \<open>One level\<close>

lemma find_assign [simp]: "find_or_empty (assign k v m) = (find_or_empty m)(k := v)"
  by (auto simp: find_or_empty_def map_of_assign)

lemma find_erase [simp]: "find_or_empty (erase k m) = (find_or_empty m)(k := [])"
  by (auto simp: find_or_empty_def map_of_erase)

lemma find_Nil [simp]: "find_or_empty [] k = []"
  by (simp add: find_or_empty_def)

lemma vm_ok_Nil [simp]: "vm_ok []"
  by (simp add: vm_ok_def)

lemma vm_ok_assign: "vm_ok m \<Longrightarrow> v \<noteq> [] \<Longrightarrow> vm_ok (assign k v m)"
  unfolding vm_ok_def by (simp add: distinct_assign map_of_assign)

lemma vm_ok_erase: "vm_ok m \<Longrightarrow> vm_ok (erase k m)"
  unfolding vm_ok_def by (simp add: distinct_erase map_of_erase)

lemma vm_find_None: "vm_ok m \<Longrightarrow> map_of m k = None \<longleftrightarrow> find_or_empty m k = []"
  by (auto simp: vm_ok_def find_or_empty_def split: option.splits)

lemma vm_empty: "vm_ok m \<Longrightarrow> m = [] \<longleftrightarrow> (\<forall>k. find_or_empty m k = [])"
proof
  assume "vm_ok m" "\<forall>k. find_or_empty m k = []"
  then have "map_of m = Map.empty" using vm_find_None by fastforce
  then show "m = []" by simp
qed simp

lemma erase_last:
  assumes "vm_ok m"
  shows "snd (EraseLastMultiValue m k) = (if find_or_empty m k = [] then None else Some (last (find_or_empty m k)))"
    "find_or_empty (fst (EraseLastMultiValue m k)) = (find_or_empty m)(k := butlast (find_or_empty m k))"
    "vm_ok (fst (EraseLastMultiValue m k))"
proof -
  show "snd (EraseLastMultiValue m k) = (if find_or_empty m k = [] then None else Some (last (find_or_empty m k)))"
    by (auto simp: EraseLastMultiValue_def find_or_empty_def split: option.splits)
  show "find_or_empty (fst (EraseLastMultiValue m k)) = (find_or_empty m)(k := butlast (find_or_empty m k))"
    by (auto simp: EraseLastMultiValue_def split: option.splits) (auto simp: find_or_empty_def)
  show "vm_ok (fst (EraseLastMultiValue m k))"
    using assms by (auto simp: EraseLastMultiValue_def vm_ok_assign vm_ok_erase split: option.splits)
qed

section \<open>Two levels\<close>

lemma mm_ok_inner: "mm_ok m \<Longrightarrow> vm_ok (find_or_empty m a)"
  by (auto simp: mm_ok_def find_or_empty_def split: option.splits)

lemma mm_ok_outer: "mm_ok m \<Longrightarrow> vm_ok m"
  by (simp add: mm_ok_def)

lemma mm_ok_Nil [simp]: "mm_ok []"
  by (simp add: mm_ok_def)

text \<open>Replacing the inner map of a key, erasing the key when the new inner map is empty.\<close>

definition mm_set :: "'a \<Rightarrow> ('b \<times> 'v list) list \<Rightarrow> ('a, 'b, 'v) mmap \<Rightarrow> ('a, 'b, 'v) mmap" where
  "mm_set a inner m = (if inner = [] then erase a m else assign a inner m)"

lemma find_mm_set: "find_or_empty (mm_set a inner m) = (find_or_empty m)(a := inner)"
  by (simp add: mm_set_def)

lemma mm_ok_set: "mm_ok m \<Longrightarrow> vm_ok inner \<Longrightarrow> mm_ok (mm_set a inner m)"
  unfolding mm_ok_def mm_set_def
  by (auto simp: vm_ok_assign vm_ok_erase map_of_erase map_of_assign split: if_splits)

lemma assign_nonempty: "assign b v inner \<noteq> []"
  by (cases inner) (auto split: if_splits)

lemma mm_push_set: "mm_push a b v m =
    mm_set a (assign b (find_or_empty (find_or_empty m a) b @ [v]) (find_or_empty m a)) m"
  by (simp add: mm_push_def mm_set_def assign_nonempty Let_def)

lemma mm_pop_set: "vm_ok m \<Longrightarrow> mm_pop a b m =
    (if find_or_empty m a = [] then (m, None)
     else (mm_set a (fst (EraseLastMultiValue (find_or_empty m a) b)) m,
           snd (EraseLastMultiValue (find_or_empty m a) b)))"
  by (auto simp: mm_pop_def mm_set_def vm_ok_def find_or_empty_def split: option.splits prod.splits)

lemma mm_drop_set: "mm_drop a b m = mm_set a (erase b (find_or_empty m a)) m"
  by (simp add: mm_drop_def mm_set_def Let_def)

lemma mm_push_get: "mm_get (mm_push a b v m) x y = (if x = a \<and> y = b then mm_get m a b @ [v] else mm_get m x y)"
  by (simp add: mm_get_def mm_push_set find_mm_set)

lemma mm_push_ok: "mm_ok m \<Longrightarrow> mm_ok (mm_push a b v m)"
  by (simp add: mm_push_set mm_ok_set vm_ok_assign mm_ok_inner)

lemma mm_pop_get:
  assumes "mm_ok m"
  shows "mm_get (fst (mm_pop a b m)) x y = (if x = a \<and> y = b then butlast (mm_get m a b) else mm_get m x y)"
    "snd (mm_pop a b m) = (if mm_get m a b = [] then None else Some (last (mm_get m a b)))"
    "mm_ok (fst (mm_pop a b m))"
  using mm_ok_inner[OF assms, of a] assms mm_ok_outer[OF assms]
  by (auto simp: mm_pop_set mm_get_def find_mm_set erase_last mm_ok_set)

lemma mm_drop_get:
  assumes "mm_ok m"
  shows "mm_get (mm_drop a b m) x y = (if x = a \<and> y = b then [] else mm_get m x y)"
    "mm_ok (mm_drop a b m)"
  using mm_ok_inner[OF assms, of a] assms by (auto simp: mm_drop_set mm_get_def find_mm_set mm_ok_set vm_ok_erase)

lemma mm_find_None:
  assumes "mm_ok m"
  shows "map_of m a = None \<longleftrightarrow> (\<forall>b. mm_get m a b = [])"
  using vm_find_None[OF mm_ok_outer[OF assms]] vm_empty[OF mm_ok_inner[OF assms]] by (simp add: mm_get_def)

lemma mm_erase_get:
  assumes "mm_ok m"
  shows "mm_get (erase a m) x y = (if x = a then [] else mm_get m x y)" "mm_ok (erase a m)"
  using mm_ok_set[OF assms, of "[]" a] by (auto simp: mm_get_def mm_set_def)

lemma fold_mm_push:
  "mm_get (fold (\<lambda>v. mm_push (f v) (g v) v) vs m) x y =
   mm_get m x y @ filter (\<lambda>v. f v = x \<and> g v = y) vs"
  by (induction vs arbitrary: m) (auto simp: mm_push_get)

lemma fold_mm_push_ok: "mm_ok m \<Longrightarrow> mm_ok (fold (\<lambda>v. mm_push (f v) (g v) v) vs m)"
  by (induction vs arbitrary: m) (auto simp: mm_push_ok)

end
