(* ===== verification/Region_Bitmap.thy ===== *)
theory Region_Bitmap
  imports Store_Types
begin

text \<open>
  The node set of a region record: \<^verbatim>\<open>AddRegionRecord\<close> writes the node ids and their affinity
  flags into two bitmaps of 1024 bits and \<^verbatim>\<open>ListRegionRecord\<close> reads them back, lowest bit first,
  with \<^verbatim>\<open>__builtin_ffsl\<close>.
\<close>

section \<open>Definitions\<close>

definition set_node_bit :: "nat \<Rightarrow> u64 list \<Rightarrow> u64 list" where
  "set_node_bit nid bm =
     bm[nid div U64_BITS_COUNT := bm ! (nid div U64_BITS_COUNT) OR push_bit (nid mod U64_BITS_COUNT) 1]"

definition mark_nodes :: "nat list \<Rightarrow> bool list \<Rightarrow> u64 list \<times> u64 list \<Rightarrow> u64 list \<times> u64 list" where
  "mark_nodes nodeIds affinity =
     fold (\<lambda>i (bm, af). (set_node_bit (nodeIds ! i) bm,
                         if affinity ! i then set_node_bit (nodeIds ! i) af else af))
       [0..<length nodeIds]"

definition zero_bitmap :: "u64 list" where
  "zero_bitmap = replicate REGION_NODE_BITMAP_U64SIZE 0"

definition ffsl :: "u64 \<Rightarrow> nat" where
  "ffsl w = (case filter (bit w) [0..<64] of [] \<Rightarrow> 0 | b # _ \<Rightarrow> Suc b)"

lemma filter_bits_nonempty: "w \<noteq> (0 :: u64) \<Longrightarrow> filter (bit w) [0..<64] \<noteq> []"
proof
  assume "w \<noteq> 0" "filter (bit w) [0..<64] = []"
  then have "\<not> bit w n" if "n < 64" for n
    using that by (metis atLeast_upt filter_False filter_empty_conv lessThan_iff)
  then have "w = 0" by (intro bit_word_eqI) simp
  with \<open>w \<noteq> 0\<close> show False by simp
qed

lemma clear_lowest:
  assumes "filter (bit w) [0..<64] = b # bs"
  shows "filter (bit (w AND NOT (push_bit b 1) :: u64)) [0..<64] = bs"
proof -
  have eq: "bit (w AND NOT (push_bit b 1)) = (\<lambda>n. n \<noteq> b \<and> bit w n)"
    by (rule ext) (auto simp: bit_simps dest: bit_imp_le_length)
  have "filter (bit (w AND NOT (push_bit b 1))) [0..<64] =
      filter (\<lambda>n. n \<noteq> b) (filter (bit w) [0..<64])"
    unfolding eq by (simp add: conj_commute)
  also have "\<dots> = bs"
  proof -
    have "distinct (b # bs)" unfolding assms[symmetric] by simp
    then show ?thesis unfolding assms by (simp add: filter_id_conv) blast
  qed
  finally show ?thesis .
qed

function list_word :: "u64 \<Rightarrow> u64 \<Rightarrow> nat \<Rightarrow> (nat \<times> bool) list" where
  "list_word bitmap bitmapAffinity base =
     (if bitmap = 0 then []
      else let b = ffsl bitmap - 1 in
        (base + b, (drop_bit b bitmapAffinity AND 1) \<noteq> 0) #
        list_word (bitmap AND NOT (push_bit b 1)) bitmapAffinity base)"
  by pat_completeness auto
termination
proof (relation "measure (\<lambda>(w, _, _). length (filter (bit w) [0..<64]))")
  fix w a :: u64 and base b :: nat
  assume "w \<noteq> 0" "b = ffsl w - 1"
  moreover from this obtain c cs where cs: "filter (bit w) [0..<64] = c # cs"
    using filter_bits_nonempty by (meson list.exhaust)
  ultimately have b: "b = c" unfolding ffsl_def cs by simp
  show "((w AND NOT (push_bit b 1), a, base), (w, a, base))
      \<in> measure (\<lambda>(w, _, _). length (filter (bit w) [0..<64]))"
    using clear_lowest[OF cs] cs b by (simp del: upt_rec_numeral)
qed simp

declare list_word.simps [simp del]

definition list_bitmap :: "u64 list \<Rightarrow> u64 list \<Rightarrow> (nat \<times> bool) list" where
  "list_bitmap bitmap bitmapAffinity =
     concat (map (\<lambda>index. list_word (bitmap ! index) (bitmapAffinity ! index) (index * U64_BITS_COUNT))
       [0..<REGION_NODE_BITMAP_U64SIZE])"

section \<open>Reading back what was written\<close>

lemma sizes [simp]: "U64_BITS_COUNT = 64" "REGION_NODE_BITMAP_U64SIZE = 16"
  by (simp_all add: U64_BITS_COUNT_def REGION_NODE_BITMAP_U64SIZE_def REGION_NODE_BITMAP_COUNT_def)

lemma affinity_bit: "((drop_bit b w AND 1) \<noteq> 0) = bit (w :: u64) b"
  by (simp add: and_one_eq bit_iff_odd_drop_bit odd_iff_mod_2_eq_one)

lemma list_word_eq:
  "list_word w a base = map (\<lambda>b. (base + b, bit a b)) (filter (bit w) [0..<64])"
proof (induction w a base rule: list_word.induct)
  case (1 w a base)
  show ?case
  proof (cases "w = 0")
    case False
    obtain c cs where cs: "filter (bit w) [0..<64] = c # cs"
      using filter_bits_nonempty[OF False] by (meson list.exhaust)
    have c: "ffsl w - 1 = c" unfolding ffsl_def cs by simp
    have "list_word (w AND NOT (push_bit c 1)) a base = map (\<lambda>b. (base + b, bit a b)) cs"
      using 1[OF False refl] unfolding c clear_lowest[OF cs] .
    then show ?thesis
      unfolding cs by (subst list_word.simps) (simp only: Let_def c False if_False list.map affinity_bit)
  qed (simp add: list_word.simps)
qed

definition node_bit :: "u64 list \<Rightarrow> nat \<Rightarrow> bool" where
  "node_bit bm n = bit (bm ! (n div 64)) (n mod 64)"

lemma concat_blocks:
  "concat (map (\<lambda>i. map (\<lambda>b. f (i * k + b)) (filter (\<lambda>b. P (i * k + b)) [0..<k])) [0..<n]) =
   map f (filter P [0..<n * k])"
proof (induction n)
  case (Suc n)
  have "[0..<Suc n * k] = [0..<n * k] @ map (\<lambda>b. n * k + b) [0..<k]"
    using upt_add_eq_append[of 0 "n * k" k] map_add_upt[of "n * k" k] by (simp add: add.commute)
  then have "filter P [0..<Suc n * k] =
      filter P [0..<n * k] @ map (\<lambda>b. n * k + b) (filter (\<lambda>b. P (n * k + b)) [0..<k])"
    by (simp add: filter_map comp_def)
  with Suc show ?case by (simp add: comp_def)
qed simp

lemma list_bitmap_eq:
  "list_bitmap bm af = map (\<lambda>n. (n, node_bit af n)) (filter (node_bit bm) [0..<1024])"
proof -
  have "list_word (bm ! i) (af ! i) (i * 64) =
      map (\<lambda>b. (i * 64 + b, node_bit af (i * 64 + b))) (filter (\<lambda>b. node_bit bm (i * 64 + b)) [0..<64])" for i
    unfolding list_word_eq by (rule map_cong) (auto simp: node_bit_def intro: filter_cong)
  then have "list_bitmap bm af = concat (map (\<lambda>i. map (\<lambda>b. (i * 64 + b, node_bit af (i * 64 + b)))
      (filter (\<lambda>b. node_bit bm (i * 64 + b)) [0..<64])) [0..<16])"
    unfolding list_bitmap_def sizes by (simp only:)
  also have "\<dots> = map (\<lambda>n. (n, node_bit af n)) (filter (node_bit bm) [0..<16 * 64])"
    by (rule concat_blocks)
  finally show ?thesis by simp
qed


lemma set_node_bit_length [simp]: "length (set_node_bit n bm) = length bm"
  by (simp add: set_node_bit_def)

lemma set_node_bit:
  assumes "length bm = 16" "n < 1024"
  shows "node_bit (set_node_bit n bm) m \<longleftrightarrow> m = n \<or> node_bit bm m"
proof -
  have "n div 64 < length bm" using assms by simp
  moreover have "m div 64 = n div 64 \<Longrightarrow> m mod 64 = n mod 64 \<Longrightarrow> m = n"
    by (metis div_mult_mod_eq)
  ultimately show ?thesis
    by (auto simp: node_bit_def set_node_bit_def nth_list_update bit_simps)
qed

lemma mark_nodes_Suc:
  "fold f [0..<Suc n] x = f n (fold f [0..<n] x)"
  by simp

lemma mark_nodes_prefix:
  assumes "\<forall>n\<in>set ns. n < 1024" "k \<le> length ns" "length bm = 16" "length af = 16"
  shows "case fold (\<lambda>i (bm, af). (set_node_bit (ns ! i) bm, if as ! i then set_node_bit (ns ! i) af else af))
        [0..<k] (bm, af) of (bm', af') \<Rightarrow> length bm' = 16 \<and> length af' = 16 \<and>
      (\<forall>m. node_bit bm' m \<longleftrightarrow> (\<exists>i<k. ns ! i = m) \<or> node_bit bm m) \<and>
      (\<forall>m. node_bit af' m \<longleftrightarrow> (\<exists>i<k. ns ! i = m \<and> as ! i) \<or> node_bit af m)"
  using assms(2)
proof (induction k)
  case 0
  then show ?case using assms(3,4) by simp
next
  case (Suc k)
  then have n: "ns ! k < 1024" using assms(1) by simp
  show ?case
    using Suc by (simp only: mark_nodes_Suc split: prod.splits)
      (auto simp: less_Suc_eq set_node_bit[OF _ n])
qed

lemma zero_bitmap: "length zero_bitmap = 16" "n < 1024 \<Longrightarrow> \<not> node_bit zero_bitmap n"
  by (simp_all add: zero_bitmap_def node_bit_def)

lemma mark_then_list:
  assumes "\<forall>n\<in>set ns. n < REGION_NODE_BITMAP_COUNT"
    "mark_nodes ns as (zero_bitmap, zero_bitmap) = (bm, af)"
  shows "list_bitmap bm af =
    map (\<lambda>n. (n, \<exists>i<length ns. ns ! i = n \<and> as ! i)) (filter (\<lambda>n. n \<in> set ns) [0..<REGION_NODE_BITMAP_COUNT])"
proof -
  have "\<forall>n\<in>set ns. n < 1024" using assms(1) by (simp add: REGION_NODE_BITMAP_COUNT_def)
  from mark_nodes_prefix[OF this order_refl zero_bitmap(1) zero_bitmap(1), of as] assms(2)
  have bm: "node_bit bm m \<longleftrightarrow> (\<exists>i<length ns. ns ! i = m) \<or> node_bit zero_bitmap m"
    and af: "node_bit af m \<longleftrightarrow> (\<exists>i<length ns. ns ! i = m \<and> as ! i) \<or> node_bit zero_bitmap m" for m
    by (auto simp: mark_nodes_def)
  show ?thesis
    unfolding list_bitmap_eq REGION_NODE_BITMAP_COUNT_def
    by (intro map_cong filter_cong) (auto simp: bm af zero_bitmap(2) in_set_conv_nth)
qed

end
