(* ===== verification/Record_Store.thy ===== *)
theory Record_Store
  imports Store_Types Record_Allocator Id_Pool Multi_Map Region_Bitmap
begin

text \<open>
  The class \<^verbatim>\<open>RecordStore\<close> (\<^verbatim>\<open>store/record_store.cpp\<close>): the daemon's persistent state.  Each
  record array lives in a shared-memory file; beside it the object keeps hash-map caches, which
  are lost with the process and rebuilt from the file by \<^verbatim>\<open>Restore\<close>.  This theory holds the
  state and one definition per method.  A method returns its \<^verbatim>\<open>int\<close> result and the new state;
  the mutexes are not modelled, so that a method is one atomic step.
\<close>

section \<open>State\<close>

text \<open>
  The array part of an allocator and of the id pool is the contents of the file.  A record
  pointer is the index of its slot.  The last two maps list, per import slot and process (and the
  other way round), the slots of the reference records.
\<close>

record record_store =
  mapped :: bool
  regionAllocator :: "RegionRecord allocator"
  memLeaseAllocator :: "MemLeaseRecord allocator"
  shmImportAllocator :: "MemShareImportRecord allocator"
  shmRefAllocator :: "MemShareRefRecord allocator"
  poolAllocator :: id_pool
  createSeqNo :: u32
  suspendClientArray :: SuspendClientArray
  cachedRegionRecords :: "(string \<times> nat) list"
  cachedLeaseRecords :: "(string \<times> nat \<times> u64 list) list"
  cachedImportShmRecords :: "(string \<times> nat \<times> u64 list) list"
  cachedRefShmIdxRecords :: "(nat, u32, nat) mmap"
  cachedRefShmPidRecords :: "(u32, nat, nat) mmap"

type_synonym store_result = "int \<times> record_store"

text \<open>The contents of the shared-memory file.\<close>

record shm_image =
  img_regions :: "nat \<Rightarrow> RegionRecord"
  img_leases :: "nat \<Rightarrow> MemLeaseRecord"
  img_imports :: "nat \<Rightarrow> MemShareImportRecord"
  img_refs :: "nat \<Rightarrow> MemShareRefRecord"
  img_memIds :: pool_mem
  img_seqNo :: u32
  img_suspend :: SuspendClientArray

definition image_of :: "record_store \<Rightarrow> shm_image" where
  "image_of st = \<lparr>img_regions = recordAddress (regionAllocator st),
     img_leases = recordAddress (memLeaseAllocator st),
     img_imports = recordAddress (shmImportAllocator st),
     img_refs = recordAddress (shmRefAllocator st),
     img_memIds = memIds (poolAllocator st),
     img_seqNo = createSeqNo st, img_suspend = suspendClientArray st\<rparr>"

section \<open>Idle tests and clear functions\<close>

definition RegionIdle :: "RegionRecord \<Rightarrow> bool" where
  "RegionIdle r \<longleftrightarrow> rg_name r = []"

definition ClearRegion :: "RegionRecord \<Rightarrow> RegionRecord" where
  "ClearRegion r = r\<lparr>rg_name := []\<rparr>"

definition MemLeaseIdle :: "MemLeaseRecord \<Rightarrow> bool" where
  "MemLeaseIdle r \<longleftrightarrow> ml_name r = []"

definition ClearMemLease :: "MemLeaseRecord \<Rightarrow> MemLeaseRecord" where
  "ClearMemLease r = r\<lparr>ml_name := []\<rparr>"

definition MemShareImportIdle :: "MemShareImportRecord \<Rightarrow> bool" where
  "MemShareImportIdle r \<longleftrightarrow> si_name r = []"

definition ClearMemShareImport :: "MemShareImportRecord \<Rightarrow> MemShareImportRecord" where
  "ClearMemShareImport r = r\<lparr>si_name := []\<rparr>"

definition MemShareRefIdle :: "MemShareRefRecord \<Rightarrow> bool" where
  "MemShareRefIdle r \<longleftrightarrow> sr_pid r = 0"

definition ClearMemShareRef :: "MemShareRefRecord \<Rightarrow> MemShareRefRecord" where
  "ClearMemShareRef r = r\<lparr>sr_pid := 0\<rparr>"

abbreviation release_region :: "nat \<Rightarrow> RegionRecord allocator \<Rightarrow> RegionRecord allocator" where
  "release_region \<equiv> Allocator_Release REGION_MAX_RECORD ClearRegion"

abbreviation release_lease :: "nat \<Rightarrow> MemLeaseRecord allocator \<Rightarrow> MemLeaseRecord allocator" where
  "release_lease \<equiv> Allocator_Release MEM_LEASE_MAX_RECORD ClearMemLease"

abbreviation release_import :: "nat \<Rightarrow> MemShareImportRecord allocator \<Rightarrow> MemShareImportRecord allocator" where
  "release_import \<equiv> Allocator_Release SHM_MAX_ATTACH_RECORD ClearMemShareImport"

abbreviation release_ref :: "nat \<Rightarrow> MemShareRefRecord allocator \<Rightarrow> MemShareRefRecord allocator" where
  "release_ref \<equiv> Allocator_Release SHM_MAX_REFERENCE_RECORD ClearMemShareRef"

section \<open>Regions\<close>

definition AddRegionRecord :: "CreateRegionInput \<Rightarrow> record_store \<Rightarrow> store_result" where
  "AddRegionRecord input st =
     (if length (cri_name input) \<ge> RECORD_NAME_SIZE then (-1, st)
      else if list_ex (\<lambda>nid. nid \<ge> REGION_NODE_BITMAP_COUNT) (cri_nodeIds input) then (-1, st)
      else if length (cri_nodeIds input) \<noteq> length (cri_affinity input) then (-1, st)
      else if \<not> mapped st then (-1, st)
      else case Allocator_Allocate (regionAllocator st) of
        None \<Rightarrow> (-1, st)
      | Some (i, a) \<Rightarrow> (case strcpy_s RECORD_NAME_SIZE (c_str (cri_name input)) of
          None \<Rightarrow> (-1, st\<lparr>regionAllocator := release_region i a\<rparr>)
        | Some nm \<Rightarrow>
            (let (bm, af) = mark_nodes (cri_nodeIds input) (cri_affinity input) (zero_bitmap, zero_bitmap);
                 a' = put_record i \<lparr>rg_name = nm, rg_size = cri_size input, rg_bitmap = bm,
                                    rg_bitmapAffinity = af\<rparr> a
             in if map_of (cachedRegionRecords st) (cri_name input) \<noteq> None
                then (-1, st\<lparr>regionAllocator := release_region i a'\<rparr>)
                else (0, st\<lparr>regionAllocator := a',
                            cachedRegionRecords := emplace (cri_name input) i (cachedRegionRecords st)\<rparr>))))"

definition DelRegionRecord :: "string \<Rightarrow> record_store \<Rightarrow> store_result" where
  "DelRegionRecord name st =
     (if \<not> mapped st then (-1, st)
      else case map_of (cachedRegionRecords st) name of
        None \<Rightarrow> (-1, st)
      | Some i \<Rightarrow> (0, st\<lparr>cachedRegionRecords := erase name (cachedRegionRecords st),
                         regionAllocator := release_region i (regionAllocator st)\<rparr>))"

definition region_info :: "string \<Rightarrow> RegionRecord \<Rightarrow> CreateRegionInput" where
  "region_info name r =
     (let ns = list_bitmap (rg_bitmap r) (rg_bitmapAffinity r) in
      \<lparr>cri_name = name, cri_size = rg_size r, cri_nodeIds = map fst ns, cri_affinity = map snd ns\<rparr>)"

definition ListRegionRecord :: "record_store \<Rightarrow> CreateRegionInput list" where
  "ListRegionRecord st =
     map (\<lambda>(name, i). region_info name (recordAddress (regionAllocator st) i)) (cachedRegionRecords st)"

section \<open>Memory leases\<close>

definition DelMemLeaseRecord :: "string \<Rightarrow> record_store \<Rightarrow> store_result" where
  "DelMemLeaseRecord name st =
     (if \<not> mapped st then (-1, st)
      else case map_of (cachedLeaseRecords st) name of
        None \<Rightarrow> (-1, st)
      | Some (i, ids) \<Rightarrow>
          (let r = (recordAddress (memLeaseAllocator st) i)\<lparr>ml_name := []\<rparr>;
               st1 = st\<lparr>cachedLeaseRecords := erase name (cachedLeaseRecords st),
                        memLeaseAllocator := release_lease i (put_record i r (memLeaseAllocator st))\<rparr>
           in (0, if ml_memIdCount r \<noteq> 0
                  then (case IdPool_Release (ml_memIdBuffer r) (poolAllocator st1) of
                          None \<Rightarrow> st1 | Some p \<Rightarrow> st1\<lparr>poolAllocator := p\<rparr>)
                  else st1)))"

definition lease_record_of :: "LeaseMallocInput \<Rightarrow> string \<Rightarrow> MemLeaseRecord" where
  "lease_record_of input nm =
     \<lparr>ml_name = nm, ml_size = lmi_size input,
      ml_pid = app_pid (lmi_appContext input), ml_uid = app_uid (lmi_appContext input),
      ml_gid = app_gid (lmi_appContext input), ml_fdMode = (if lmi_fdMode input then 1 else 0),
      ml_distance = lmi_distance input, ml_numaId = - 1, ml_unitSize = 0, ml_memIdCount = 0,
      ml_memIdBuffer = 0, ml_slotId = 0, ml_recordState = lmi_state input\<rparr>"

definition AddMemLeaseInput :: "LeaseMallocInput \<Rightarrow> record_store \<Rightarrow> store_result" where
  "AddMemLeaseInput input st =
     (if length (lmi_name input) \<ge> RECORD_NAME_SIZE then (-1, st)
      else if \<not> mapped st then (-1, st)
      else case Allocator_Allocate (memLeaseAllocator st) of
        None \<Rightarrow> (-1, st)
      | Some (i, a) \<Rightarrow> (case strcpy_s RECORD_NAME_SIZE (c_str (lmi_name input)) of
          None \<Rightarrow> (-1, st\<lparr>memLeaseAllocator := release_lease i a\<rparr>)
        | Some nm \<Rightarrow>
            (let a' = put_record i (lease_record_of input nm) a
             in if map_of (cachedLeaseRecords st) (lmi_name input) \<noteq> None
                then (-1, st\<lparr>memLeaseAllocator := release_lease i a'\<rparr>)
                else (0, st\<lparr>memLeaseAllocator := a',
                            cachedLeaseRecords := emplace (lmi_name input) (i, []) (cachedLeaseRecords st)\<rparr>))))"

definition AddMemLeaseResult :: "string \<Rightarrow> LeaseMallocResult \<Rightarrow> record_store \<Rightarrow> store_result" where
  "AddMemLeaseResult name result st =
     (if \<not> mapped st then (-1, st)
      else case map_of (cachedLeaseRecords st) name of
        None \<Rightarrow> (-1, st)
      | Some (i, _) \<Rightarrow> (case IdPool_Allocate (lmr_memIds result) (poolAllocator st) of
          None \<Rightarrow> (-1, st)
        | Some (memIdHeadIndex, p) \<Rightarrow>
            (let r = (recordAddress (memLeaseAllocator st) i)
                   \<lparr>ml_recordState := FINISH, ml_memIdCount := length (lmr_memIds result),
                    ml_memIdBuffer := memIdHeadIndex, ml_numaId := lmr_numaId result,
                    ml_unitSize := lmr_unitSize result, ml_slotId := lmr_slotId result\<rparr>
             in (0, st\<lparr>poolAllocator := p, memLeaseAllocator := put_record i r (memLeaseAllocator st),
                       cachedLeaseRecords := assign name (i, lmr_memIds result) (cachedLeaseRecords st)\<rparr>))))"

definition UpdateMemLeaseRecordState :: "string \<Rightarrow> RecordState \<Rightarrow> record_store \<Rightarrow> store_result" where
  "UpdateMemLeaseRecordState name state st =
     (if \<not> mapped st then (-1, st)
      else case map_of (cachedLeaseRecords st) name of
        None \<Rightarrow> (-1, st)
      | Some (i, _) \<Rightarrow> (0, st\<lparr>memLeaseAllocator :=
          put_record i ((recordAddress (memLeaseAllocator st) i)\<lparr>ml_recordState := state\<rparr>) (memLeaseAllocator st)\<rparr>))"

definition UpdateMemLeaseRecord :: "string \<Rightarrow> AppContext \<Rightarrow> u64 \<Rightarrow> record_store \<Rightarrow> store_result" where
  "UpdateMemLeaseRecord name context sz st =
     (if \<not> mapped st then (-1, st)
      else case map_of (cachedLeaseRecords st) name of
        None \<Rightarrow> (-1, st)
      | Some (i, _) \<Rightarrow> (0, st\<lparr>memLeaseAllocator :=
          put_record i ((recordAddress (memLeaseAllocator st) i)
            \<lparr>ml_pid := app_pid context, ml_uid := app_uid context, ml_gid := app_gid context, ml_size := sz\<rparr>)
            (memLeaseAllocator st)\<rparr>))"

definition ConvertMemLease :: "MemLeaseRecord \<Rightarrow> u64 list \<Rightarrow> LeaseMallocInput \<times> LeaseMallocResult" where
  "ConvertMemLease r ids =
     (\<lparr>lmi_fdMode = (ml_fdMode r = 1), lmi_name = ml_name r, lmi_size = ml_size r,
       lmi_distance = ml_distance r,
       lmi_appContext = \<lparr>app_pid = ml_pid r, app_uid = ml_uid r, app_gid = ml_gid r\<rparr>,
       lmi_state = ml_recordState r\<rparr>,
      \<lparr>lmr_memIds = ids, lmr_numaId = ml_numaId r, lmr_unitSize = ml_unitSize r, lmr_slotId = ml_slotId r\<rparr>)"

definition ListMemLeaseRecord :: "record_store \<Rightarrow> (LeaseMallocInput \<times> LeaseMallocResult) list" where
  "ListMemLeaseRecord st =
     (if \<not> mapped st then []
      else map (\<lambda>(_, i, ids). ConvertMemLease (recordAddress (memLeaseAllocator st) i) ids) (cachedLeaseRecords st))"

section \<open>Shared-memory imports\<close>

definition DelShmImportRecord :: "string \<Rightarrow> record_store \<Rightarrow> store_result" where
  "DelShmImportRecord name st =
     (if \<not> mapped st then (-1, st)
      else case map_of (cachedImportShmRecords st) name of
        None \<Rightarrow> (-1, st)
      | Some (i, ids) \<Rightarrow>
          if map_of (cachedRefShmIdxRecords st) i \<noteq> None then (-1, st)
          else (let r = recordAddress (shmImportAllocator st) i;
                    st1 = st\<lparr>cachedImportShmRecords := erase name (cachedImportShmRecords st),
                             shmImportAllocator := release_import i (shmImportAllocator st)\<rparr>
                in (0, if si_memIdCount r \<noteq> 0
                       then (case IdPool_Release (si_memIdBuffer r) (poolAllocator st1) of
                               None \<Rightarrow> st1 | Some p \<Rightarrow> st1\<lparr>poolAllocator := p\<rparr>)
                       else st1)))"

definition import_record_of :: "ShareMemImportInput \<Rightarrow> string \<Rightarrow> MemShareImportRecord" where
  "import_record_of input nm =
     \<lparr>si_name = nm, si_shmSize = smi_size input, si_pid = smi_pid input, si_uid = 0, si_gid = 0,
      si_unitSize = 0, si_memIdCount = 0, si_memIdBuffer = 0, si_flag = 0, si_oflag = 0,
      si_recordState = PRE_ADD\<rparr>"

definition AddShmImportInput :: "ShareMemImportInput \<Rightarrow> record_store \<Rightarrow> store_result" where
  "AddShmImportInput input st =
     (if length (smi_name input) \<ge> RECORD_NAME_SIZE then (-1, st)
      else if \<not> mapped st then (-1, st)
      else case Allocator_Allocate (shmImportAllocator st) of
        None \<Rightarrow> (-1, st)
      | Some (i, a) \<Rightarrow> (case strcpy_s RECORD_NAME_SIZE (c_str (smi_name input)) of
          None \<Rightarrow> (-1, st\<lparr>shmImportAllocator := release_import i a\<rparr>)
        | Some nm \<Rightarrow>
            (let a' = put_record i (import_record_of input nm) a
             in if map_of (cachedImportShmRecords st) (smi_name input) \<noteq> None
                then (-1, st\<lparr>shmImportAllocator := release_import i a'\<rparr>)
                else (0, st\<lparr>shmImportAllocator := a',
                            cachedImportShmRecords :=
                              emplace (smi_name input) (i, []) (cachedImportShmRecords st)\<rparr>))))"

definition AddShmImportResult :: "string \<Rightarrow> ShareMemImportResult \<Rightarrow> record_store \<Rightarrow> store_result" where
  "AddShmImportResult name result st =
     (if length name \<ge> RECORD_NAME_SIZE then (-1, st)
      else if \<not> mapped st then (-1, st)
      else case map_of (cachedImportShmRecords st) name of
        None \<Rightarrow> (-1, st)
      | Some (i, _) \<Rightarrow> (case IdPool_Allocate (smr_memIds result) (poolAllocator st) of
          None \<Rightarrow> (-1, st)
        | Some (memIdHeadIndex, p) \<Rightarrow>
            (let r = (recordAddress (shmImportAllocator st) i)
                   \<lparr>si_uid := smr_ownerUserId result, si_gid := smr_ownerGroupId result,
                    si_memIdCount := length (smr_memIds result), si_memIdBuffer := memIdHeadIndex,
                    si_recordState := FINISH, si_unitSize := smr_unitSize result,
                    si_oflag := smr_openFlag result, si_flag := smr_createFlags result\<rparr>
             in (0, st\<lparr>poolAllocator := p, shmImportAllocator := put_record i r (shmImportAllocator st),
                       cachedImportShmRecords := assign name (i, smr_memIds result) (cachedImportShmRecords st)\<rparr>))))"

definition UpdateShmImportRecordState :: "string \<Rightarrow> RecordState \<Rightarrow> record_store \<Rightarrow> store_result" where
  "UpdateShmImportRecordState name state st =
     (if \<not> mapped st then (-1, st)
      else case map_of (cachedImportShmRecords st) name of
        None \<Rightarrow> (-1, st)
      | Some (i, _) \<Rightarrow> (0, st\<lparr>shmImportAllocator :=
          put_record i ((recordAddress (shmImportAllocator st) i)\<lparr>si_recordState := state\<rparr>)
            (shmImportAllocator st)\<rparr>))"

definition import_info :: "string \<Rightarrow> MemShareImportRecord \<Rightarrow> u64 list \<Rightarrow> ShareMemImportInfo" where
  "import_info name r ids =
     \<lparr>sii_name = name, sii_size = si_shmSize r,
      sii_appContext = \<lparr>app_pid = si_pid r, app_uid = si_uid r, app_gid = si_gid r\<rparr>,
      sii_memIds = ids, sii_unitSize = si_unitSize r, sii_flag = si_flag r, sii_oflag = si_oflag r,
      sii_state = si_recordState r\<rparr>"

definition ListShmImportRecord :: "record_store \<Rightarrow> ShareMemImportInfo list" where
  "ListShmImportRecord st =
     (if \<not> mapped st then []
      else map (\<lambda>(name, i, ids). import_info name (recordAddress (shmImportAllocator st) i) ids)
             (cachedImportShmRecords st))"

section \<open>Shared-memory references\<close>

definition AddShmRefRecord :: "u32 \<Rightarrow> string \<Rightarrow> record_store \<Rightarrow> store_result" where
  "AddShmRefRecord pid name st =
     (if pid = 0 \<or> name = [] \<or> length name \<ge> RECORD_NAME_SIZE then (-1, st)
      else if \<not> mapped st then (-1, st)
      else case Allocator_Allocate (shmRefAllocator st) of
        None \<Rightarrow> (-1, st)
      | Some (shm, a) \<Rightarrow> (case map_of (cachedImportShmRecords st) name of
          None \<Rightarrow> (-1, st\<lparr>shmRefAllocator := release_ref shm a\<rparr>)
        | Some (index, _) \<Rightarrow>
            (0, st\<lparr>cachedRefShmIdxRecords := mm_push index pid shm (cachedRefShmIdxRecords st),
                   cachedRefShmPidRecords := mm_push pid index shm (cachedRefShmPidRecords st),
                   shmRefAllocator := put_record shm
                     ((recordAddress a shm)\<lparr>sr_pid := pid, sr_shmImportIndex := index\<rparr>) a\<rparr>)))"

definition DelShmRefRecord :: "u32 \<Rightarrow> string \<Rightarrow> record_store \<Rightarrow> store_result" where
  "DelShmRefRecord pid name st =
     (if pid = 0 \<or> name = [] \<or> length name \<ge> RECORD_NAME_SIZE then (-1, st)
      else if \<not> mapped st then (-1, st)
      else case map_of (cachedImportShmRecords st) name of
        None \<Rightarrow> (-1, st)
      | Some (index, _) \<Rightarrow>
          (let (idxMap, record1) = mm_pop index pid (cachedRefShmIdxRecords st);
               (pidMap, record2) = mm_pop pid index (cachedRefShmPidRecords st);
               record = (case record2 of None \<Rightarrow> record1 | Some r \<Rightarrow> Some r);
               st1 = st\<lparr>cachedRefShmIdxRecords := idxMap, cachedRefShmPidRecords := pidMap\<rparr>
           in case record of
                None \<Rightarrow> (-1, st1)
              | Some r \<Rightarrow> (0, st1\<lparr>shmRefAllocator := release_ref r (shmRefAllocator st1)\<rparr>)))"

definition DelShmRefRecordsByPid :: "u32 \<Rightarrow> record_store \<Rightarrow> store_result" where
  "DelShmRefRecordsByPid pid st =
     (if pid = 0 then (-1, st)
      else if \<not> mapped st then (-1, st)
      else case map_of (cachedRefShmPidRecords st) pid of
        None \<Rightarrow> (0, st)
      | Some inner \<Rightarrow>
          (let idxMap = fold (\<lambda>(index, _). mm_drop index pid) inner (cachedRefShmIdxRecords st);
               removedRecords = concat (map snd inner)
           in (0, st\<lparr>cachedRefShmIdxRecords := idxMap,
                     cachedRefShmPidRecords := erase pid (cachedRefShmPidRecords st),
                     shmRefAllocator := fold release_ref removedRecords (shmRefAllocator st)\<rparr>)))"

text \<open>\<^verbatim>\<open>result[a][b] += n\<close>\<close>

definition add_count :: "'a \<Rightarrow> 'b \<Rightarrow> nat \<Rightarrow> ('a \<times> ('b \<times> nat) list) list \<Rightarrow> ('a \<times> ('b \<times> nat) list) list" where
  "add_count a b n m =
     (let inner = find_or_empty m a;
          old = (case map_of inner b of None \<Rightarrow> 0 | Some c \<Rightarrow> c)
      in assign a (assign b (old + n) inner) m)"

definition ListShmRefRecordNameF :: "record_store \<Rightarrow> (string \<times> (u32 \<times> nat) list) list" where
  "ListShmRefRecordNameF st =
     (if \<not> mapped st then []
      else fold (\<lambda>(index, inner). fold (\<lambda>(pid, refs).
              add_count (si_name (recordAddress (shmImportAllocator st) index)) pid (length refs)) inner)
            (cachedRefShmIdxRecords st) [])"

definition ListShmRefRecordPidF :: "record_store \<Rightarrow> (u32 \<times> (string \<times> nat) list) list" where
  "ListShmRefRecordPidF st =
     (if \<not> mapped st then []
      else fold (\<lambda>(pid, inner). fold (\<lambda>(index, refs).
              add_count pid (si_name (recordAddress (shmImportAllocator st) index)) (length refs)) inner)
            (cachedRefShmPidRecords st) [])"

definition GetCreateSeqNo :: "record_store \<Rightarrow> u32 \<times> record_store" where
  "GetCreateSeqNo st = (createSeqNo st, st\<lparr>createSeqNo := createSeqNo st + 1\<rparr>)"

section \<open>Suspended clients\<close>

definition suspended_pids :: "SuspendClientArray \<Rightarrow> u32 list" where
  "suspended_pids s = map (sc_pids s) [0..<sc_count s]"

definition AddSuspendClient :: "u32 \<Rightarrow> record_store \<Rightarrow> store_result" where
  "AddSuspendClient pid st =
     (let s = suspendClientArray st in
      if sint pid \<le> 0 \<or> \<not> mapped st then (-1, st)
      else if sc_count s > MAX_SUSPEND_CLIENT then (-1, st)
      else if list_ex (\<lambda>i. sc_pids s i = pid) [0..<sc_count s] then (0, st)
      else if sc_count s = MAX_SUSPEND_CLIENT then (-2, st)
      else (0, st\<lparr>suspendClientArray :=
                    \<lparr>sc_count = sc_count s + 1, sc_pids = (sc_pids s)(sc_count s := pid)\<rparr>\<rparr>))"

definition DelSuspendClient :: "u32 \<Rightarrow> record_store \<Rightarrow> store_result" where
  "DelSuspendClient pid st =
     (let s = suspendClientArray st in
      if sint pid \<le> 0 \<or> \<not> mapped st then (-1, st)
      else if sc_count s > MAX_SUSPEND_CLIENT then (-1, st)
      else case find (\<lambda>i. sc_pids s i = pid) [0..<sc_count s] of
        None \<Rightarrow> (0, st)
      | Some i \<Rightarrow> (0, st\<lparr>suspendClientArray :=
            \<lparr>sc_count = sc_count s - 1, sc_pids = (sc_pids s)(i := sc_pids s (sc_count s - 1))\<rparr>\<rparr>))"

definition IsClientSuspended :: "u32 \<Rightarrow> record_store \<Rightarrow> bool" where
  "IsClientSuspended pid st =
     (let s = suspendClientArray st in
      if sint pid \<le> 0 \<or> \<not> mapped st then False
      else if sc_count s > MAX_SUSPEND_CLIENT then False
      else list_ex (\<lambda>i. sc_pids s i = pid) [0..<sc_count s])"

definition ListSuspendClients :: "record_store \<Rightarrow> u32 list" where
  "ListSuspendClients st =
     (if \<not> mapped st \<or> sc_count (suspendClientArray st) > MAX_SUSPEND_CLIENT then []
      else suspended_pids (suspendClientArray st))"

section \<open>Initialize, Restore and Destroy\<close>

text \<open>
  \<open>alive pid\<close> is \<^verbatim>\<open>kill(pid, 0) == 0 || errno == EPERM\<close>.  The loop keeps the live processes,
  compacting the array in place.
\<close>

definition compact_suspended :: "(u32 \<Rightarrow> bool) \<Rightarrow> SuspendClientArray \<Rightarrow> SuspendClientArray" where
  "compact_suspended alive s =
     (if sc_count s > MAX_SUSPEND_CLIENT then \<lparr>sc_count = 0, sc_pids = (\<lambda>_. 0)\<rparr>
      else let (writeIndex, pids) = fold (\<lambda>i (w, pids).
                 if 0 < sint (pids i) \<and> alive (pids i) then (w + 1, pids(w := pids i)) else (w, pids))
               [0..<sc_count s] (0, sc_pids s)
           in \<lparr>sc_count = writeIndex, sc_pids = pids\<rparr>)"

definition RestoreRegion :: "record_store \<Rightarrow> record_store" where
  "RestoreRegion st =
     (let (regions, a) = Allocator_Restore REGION_MAX_RECORD RegionIdle (regionAllocator st)
      in st\<lparr>regionAllocator := a,
            cachedRegionRecords := fold (\<lambda>i. emplace (rg_name (recordAddress a i)) i) regions
              (cachedRegionRecords st)\<rparr>)"

definition RestoreMemLease :: "record_store \<Rightarrow> record_store" where
  "RestoreMemLease st =
     (let (leases, a) = Allocator_Restore MEM_LEASE_MAX_RECORD MemLeaseIdle (memLeaseAllocator st)
      in st\<lparr>memLeaseAllocator := a,
            cachedLeaseRecords := fold (\<lambda>i c.
                let r = recordAddress a i in
                if ml_memIdCount r \<noteq> 0
                then (case IdPool_FillAllocated (ml_memIdBuffer r) (poolAllocator st) of
                        None \<Rightarrow> c | Some ids \<Rightarrow> emplace (ml_name r) (i, ids) c)
                else emplace (ml_name r) (i, []) c) leases (cachedLeaseRecords st)\<rparr>)"

definition RestoreShmImport :: "record_store \<Rightarrow> record_store" where
  "RestoreShmImport st =
     (let (shares, a) = Allocator_Restore SHM_MAX_ATTACH_RECORD MemShareImportIdle (shmImportAllocator st)
      in st\<lparr>shmImportAllocator := a,
            cachedImportShmRecords := fold (\<lambda>i c.
                let r = recordAddress a i in
                if si_memIdCount r \<noteq> 0
                then (case IdPool_FillAllocated (si_memIdBuffer r) (poolAllocator st) of
                        None \<Rightarrow> c | Some ids \<Rightarrow> emplace (si_name r) (i, ids) c)
                else emplace (si_name r) (i, []) c) shares (cachedImportShmRecords st)\<rparr>)"

definition RestoreShmReference :: "record_store \<Rightarrow> record_store" where
  "RestoreShmReference st =
     (let (shares, a) = Allocator_Restore SHM_MAX_REFERENCE_RECORD MemShareRefIdle (shmRefAllocator st)
      in st\<lparr>shmRefAllocator := a,
            cachedRefShmPidRecords := fold (\<lambda>j. mm_push (sr_pid (recordAddress a j))
                (sr_shmImportIndex (recordAddress a j)) j) shares (cachedRefShmPidRecords st),
            cachedRefShmIdxRecords := fold (\<lambda>j. mm_push (sr_shmImportIndex (recordAddress a j))
                (sr_pid (recordAddress a j)) j) shares (cachedRefShmIdxRecords st)\<rparr>)"

definition RecordStore_Restore :: "record_store \<Rightarrow> record_store" where
  "RecordStore_Restore st = RestoreShmReference (RestoreShmImport (RestoreMemLease (RestoreRegion st)))"

text \<open>
  \<^verbatim>\<open>Initialize\<close> takes the outcome of \<^verbatim>\<open>ftruncate\<close> and the mapped file contents (\<^const>\<open>None\<close> when
  \<^verbatim>\<open>mmap\<close> fails) as arguments.
\<close>

definition RecordStore_Initialize ::
  "(u32 \<Rightarrow> bool) \<Rightarrow> int \<Rightarrow> bool \<Rightarrow> shm_image option \<Rightarrow> record_store \<Rightarrow> store_result" where
  "RecordStore_Initialize alive fd truncateOk addr st =
     (if fd < 0 then (-1, st)
      else if \<not> truncateOk then (-1, st)
      else case addr of
        None \<Rightarrow> (-1, st)
      | Some img \<Rightarrow>
          (let st1 = st\<lparr>mapped := True, createSeqNo := img_seqNo img,
                 suspendClientArray := compact_suspended alive (img_suspend img),
                 regionAllocator := \<lparr>recordAddress = img_regions img, idleIndexes = []\<rparr>,
                 memLeaseAllocator := \<lparr>recordAddress = img_leases img, idleIndexes = []\<rparr>,
                 shmImportAllocator := \<lparr>recordAddress = img_imports img, idleIndexes = []\<rparr>,
                 shmRefAllocator := \<lparr>recordAddress = img_refs img, idleIndexes = []\<rparr>\<rparr>
           in case IdPool_Initialize (Some (img_memIds img)) (poolAllocator st1) of
                None \<Rightarrow> (-1, st1\<lparr>mapped := False\<rparr>)
              | Some p \<Rightarrow> (0, RecordStore_Restore (st1\<lparr>poolAllocator := p\<rparr>))))"

definition RecordStore_Destroy :: "record_store \<Rightarrow> record_store" where
  "RecordStore_Destroy st =
     (if \<not> mapped st then st
      else st\<lparr>poolAllocator := IdPool_Destroy (poolAllocator st), cachedRegionRecords := [],
              cachedLeaseRecords := [], cachedImportShmRecords := [], cachedRefShmIdxRecords := [],
              cachedRefShmPidRecords := [], mapped := False\<rparr>)"

end
