(* ===== verification/Record_Store_Inv.thy ===== *)
theory Record_Store_Inv
  imports Record_Store
begin

text \<open>
  The representation invariant of the record store: the caches agree with the record arrays, the
  memory ids of a record are its own allocation in the id pool, the two reference maps mirror
  each other and the reference array, and no reference points to a free import slot.  Every
  method keeps it.
\<close>

section \<open>The four record arrays\<close>

interpretation region: named_slots RegionIdle ClearRegion REGION_MAX_RECORD rg_name "\<lambda>i :: nat. i"
  by unfold_locales (simp_all add: RegionIdle_def ClearRegion_def)

interpretation lease: named_slots MemLeaseIdle ClearMemLease MEM_LEASE_MAX_RECORD ml_name
  "fst :: nat \<times> u64 list \<Rightarrow> nat"
  by unfold_locales (simp_all add: MemLeaseIdle_def ClearMemLease_def)

interpretation shmimp: named_slots MemShareImportIdle ClearMemShareImport SHM_MAX_ATTACH_RECORD si_name
  "fst :: nat \<times> u64 list \<Rightarrow> nat"
  by unfold_locales (simp_all add: MemShareImportIdle_def ClearMemShareImport_def)

interpretation shmref: record_slots MemShareRefIdle ClearMemShareRef SHM_MAX_REFERENCE_RECORD
  by unfold_locales (simp add: MemShareRefIdle_def ClearMemShareRef_def)

section \<open>The invariant\<close>

definition region_inv :: "record_store \<Rightarrow> bool" where
  "region_inv st \<longleftrightarrow> region.slots_inv (regionAllocator st) \<and>
     region.cached (regionAllocator st) (cachedRegionRecords st)"

definition lease_inv :: "record_store \<Rightarrow> bool" where
  "lease_inv st \<longleftrightarrow> lease.slots_inv (memLeaseAllocator st) \<and>
     lease.cached (memLeaseAllocator st) (cachedLeaseRecords st)"

definition import_inv :: "record_store \<Rightarrow> bool" where
  "import_inv st \<longleftrightarrow> shmimp.slots_inv (shmImportAllocator st) \<and>
     shmimp.cached (shmImportAllocator st) (cachedImportShmRecords st)"

text \<open>
  The allocation a record owns in the id pool.  A record without memory ids owns none; its cached
  list is then empty.
\<close>

definition lease_owns :: "MemLeaseRecord \<Rightarrow> nat \<times> u64 list \<Rightarrow> (nat \<times> u64 list) option" where
  "lease_owns r e = (if ml_memIdCount r = 0 then None else Some (ml_memIdBuffer r, snd e))"

definition import_owns :: "MemShareImportRecord \<Rightarrow> nat \<times> u64 list \<Rightarrow> (nat \<times> u64 list) option" where
  "import_owns r e = (if si_memIdCount r = 0 then None else Some (si_memIdBuffer r, snd e))"

definition owners :: "(string \<rightharpoonup> (nat \<times> u64 list) option) \<Rightarrow> (string \<rightharpoonup> (nat \<times> u64 list) option) \<Rightarrow>
    string + string \<rightharpoonup> nat \<times> u64 list" where
  "owners l s x = (case x of Inl n \<Rightarrow> Option.bind (l n) id | Inr n \<Rightarrow> Option.bind (s n) id)"

abbreviation lease_owners :: "record_store \<Rightarrow> string \<rightharpoonup> (nat \<times> u64 list) option" where
  "lease_owners st \<equiv> lease.view lease_owns (memLeaseAllocator st) (cachedLeaseRecords st)"

abbreviation import_owners :: "record_store \<Rightarrow> string \<rightharpoonup> (nat \<times> u64 list) option" where
  "import_owners st \<equiv> shmimp.view import_owns (shmImportAllocator st) (cachedImportShmRecords st)"

definition ids_inv :: "record_store \<Rightarrow> bool" where
  "ids_inv st \<longleftrightarrow> pool.owned (owners (lease_owners st) (import_owners st)) (poolAllocator st) \<and>
     (\<forall>n. lease.view (\<lambda>r e. ml_memIdCount r = length (snd e)) (memLeaseAllocator st) (cachedLeaseRecords st) n
        \<noteq> Some False) \<and>
     (\<forall>n. shmimp.view (\<lambda>r e. si_memIdCount r = length (snd e)) (shmImportAllocator st) (cachedImportShmRecords st) n
        \<noteq> Some False)"

text \<open>The live reference records of an import slot and a process.\<close>

definition refs_in :: "MemShareRefRecord allocator \<Rightarrow> nat \<Rightarrow> u32 \<Rightarrow> nat set" where
  "refs_in a idx pid = {j. j < SHM_MAX_REFERENCE_RECORD \<and> \<not> MemShareRefIdle (recordAddress a j) \<and>
     sr_pid (recordAddress a j) = pid \<and> sr_shmImportIndex (recordAddress a j) = idx}"

definition ref_inv :: "record_store \<Rightarrow> bool" where
  "ref_inv st \<longleftrightarrow> shmref.slots_inv (shmRefAllocator st) \<and>
     mm_ok (cachedRefShmIdxRecords st) \<and> mm_ok (cachedRefShmPidRecords st) \<and>
     (\<forall>idx pid. mm_get (cachedRefShmPidRecords st) pid idx = mm_get (cachedRefShmIdxRecords st) idx pid \<and>
        distinct (mm_get (cachedRefShmIdxRecords st) idx pid) \<and>
        set (mm_get (cachedRefShmIdxRecords st) idx pid) = refs_in (shmRefAllocator st) idx pid)"

definition ref_import_inv :: "record_store \<Rightarrow> bool" where
  "ref_import_inv st \<longleftrightarrow> (\<forall>idx pid. mm_get (cachedRefShmIdxRecords st) idx pid \<noteq> [] \<longrightarrow>
     idx < SHM_MAX_ATTACH_RECORD \<and> \<not> MemShareImportIdle (recordAddress (shmImportAllocator st) idx))"

definition suspend_inv :: "SuspendClientArray \<Rightarrow> bool" where
  "suspend_inv s \<longleftrightarrow> sc_count s \<le> MAX_SUSPEND_CLIENT \<and> distinct (suspended_pids s) \<and>
     (\<forall>p\<in>set (suspended_pids s). 0 < sint p)"

definition store_inv :: "record_store \<Rightarrow> bool" where
  "store_inv st \<longleftrightarrow> mapped st \<and> region_inv st \<and> lease_inv st \<and> import_inv st \<and> ids_inv st \<and>
     ref_inv st \<and> ref_import_inv st \<and> suspend_inv (suspendClientArray st)"

lemmas store_inv_defs = store_inv_def region_inv_def lease_inv_def import_inv_def ids_inv_def
  ref_inv_def ref_import_inv_def

section \<open>Regions\<close>

lemma AddRegionRecord_cases:
  assumes "store_inv st" "good_name (cri_name input)" "AddRegionRecord input st = (ret, st')"
  obtains (fail) "ret = -1" "st' = st"
  | (dup) i a' r where "ret = -1" "st' = st\<lparr>regionAllocator := put_record i (ClearRegion r) (regionAllocator st)\<rparr>"
      "Allocator_Allocate (regionAllocator st) = Some (i, a')"
      "map_of (cachedRegionRecords st) (cri_name input) \<noteq> None"
  | (ok) i a' bm af where "ret = 0" "Allocator_Allocate (regionAllocator st) = Some (i, a')"
      "\<forall>n\<in>set (cri_nodeIds input). n < REGION_NODE_BITMAP_COUNT"
      "length (cri_nodeIds input) = length (cri_affinity input)"
      "map_of (cachedRegionRecords st) (cri_name input) = None"
      "mark_nodes (cri_nodeIds input) (cri_affinity input) (zero_bitmap, zero_bitmap) = (bm, af)"
      "st' = st\<lparr>regionAllocator := put_record i \<lparr>rg_name = cri_name input, rg_size = cri_size input,
           rg_bitmap = bm, rg_bitmapAffinity = af\<rparr> a',
         cachedRegionRecords := emplace (cri_name input) i (cachedRegionRecords st)\<rparr>"
proof (cases "Allocator_Allocate (regionAllocator st) = None \<or>
    list_ex (\<lambda>nid. nid \<ge> REGION_NODE_BITMAP_COUNT) (cri_nodeIds input) \<or>
    length (cri_nodeIds input) \<noteq> length (cri_affinity input)")
  case True
  then show thesis
    using assms(3) fail by (auto simp: AddRegionRecord_def split: if_splits)
next
  case False
  then have c: "\<not> list_ex (\<lambda>nid. nid \<ge> REGION_NODE_BITMAP_COUNT) (cri_nodeIds input)"
    "length (cri_nodeIds input) = length (cri_affinity input)" by simp_all
  obtain i a' where a': "Allocator_Allocate (regionAllocator st) = Some (i, a')" using False by auto
  obtain bm af where mark:
    "mark_nodes (cri_nodeIds input) (cri_affinity input) (zero_bitmap, zero_bitmap) = (bm, af)"
    by fastforce
  have "region.slots_inv (regionAllocator st)" and m: "mapped st"
    using assms(1) by (simp_all add: store_inv_defs)
  note rel = region.allocate_put_release(1)[OF this(1) a']
  let ?r = "\<lparr>rg_name = cri_name input, rg_size = cri_size input, rg_bitmap = bm, rg_bitmapAffinity = af\<rparr>"
  show thesis
  proof (cases "map_of (cachedRegionRecords st) (cri_name input)")
    case None
    have "AddRegionRecord input st = (0, st\<lparr>regionAllocator := put_record i ?r a',
         cachedRegionRecords := emplace (cri_name input) i (cachedRegionRecords st)\<rparr>)"
      by (simp add: AddRegionRecord_def c a' m mark None assms(2))
    then show thesis
      using c(1) assms(3) by (intro ok[OF _ a' _ c(2) None mark]) (simp_all add: list_ex_iff not_le)
  next
    case (Some x)
    then have "AddRegionRecord input st = (-1, st\<lparr>regionAllocator := put_record i (ClearRegion ?r) (regionAllocator st)\<rparr>)"
      by (simp add: AddRegionRecord_def c a' m mark assms(2) rel)
    then show thesis
      using assms(3) Some by (intro dup[OF _ _ a', where r = ?r]) simp_all
  qed
qed

lemma AddRegionRecord_inv:
  assumes "store_inv st" "good_name (cri_name input)" "AddRegionRecord input st = (ret, st')"
  shows "store_inv st'"
proof -
  have I: "region.slots_inv (regionAllocator st)" "region.cached (regionAllocator st) (cachedRegionRecords st)"
    using assms(1) by (simp_all add: store_inv_defs)
  from assms show ?thesis
  proof (cases rule: AddRegionRecord_cases)
    case (dup i a' r)
    then show ?thesis
      using assms(1) region.allocate_put_release(2)[OF I(1) dup(3)] region.cached_put_idle[OF I(1) dup(3) I(2)]
      by (simp add: store_inv_defs)
  next
    case (ok i a' bm af)
    let ?r = "\<lparr>rg_name = cri_name input, rg_size = cri_size input, rg_bitmap = bm, rg_bitmapAffinity = af\<rparr>"
    have "cri_name input \<noteq> []" using assms(2) by (simp add: good_name_def)
    then show ?thesis
      using assms(1) ok region.allocate_put[OF I(1) ok(2), of ?r]
        region.cached_add[OF I(1) ok(2) I(2) ok(5), of ?r i]
      by (simp add: store_inv_defs RegionIdle_def)
  qed (use assms(1) in simp)
qed

lemma DelRegionRecord_inv:
  assumes "store_inv st" "DelRegionRecord name st = (ret, st')"
  shows "store_inv st'"
proof (cases "map_of (cachedRegionRecords st) name")
  case (Some i)
  have I: "region.slots_inv (regionAllocator st)" "region.cached (regionAllocator st) (cachedRegionRecords st)"
    using assms(1) by (simp_all add: store_inv_defs)
  have "st' = st\<lparr>cachedRegionRecords := erase name (cachedRegionRecords st),
      regionAllocator := release_region i (regionAllocator st)\<rparr>"
    using assms Some by (simp add: DelRegionRecord_def store_inv_def)
  then show ?thesis
    using assms(1) region.cached_del[OF I(2) Some] region.release_slot[OF I(1)]
      region.cached_entry[OF I(2) Some]
    by (simp add: store_inv_defs)
qed (use assms in \<open>simp add: DelRegionRecord_def store_inv_def\<close>)

section \<open>Owners of memory ids\<close>

lemma owners_upd [simp]:
  "owners (l(n \<mapsto> Some x)) s = (owners l s)(Inl n \<mapsto> x)"
  "owners (l(n \<mapsto> None)) s = (owners l s)(Inl n := None)"
  "owners (l(n := None)) s = (owners l s)(Inl n := None)"
  "owners l (s(n \<mapsto> Some x)) = (owners l s)(Inr n \<mapsto> x)"
  "owners l (s(n \<mapsto> None)) = (owners l s)(Inr n := None)"
  "owners l (s(n := None)) = (owners l s)(Inr n := None)"
  by (auto simp: owners_def split: sum.splits)

lemma owned_drop: "pool.owned own p \<Longrightarrow> pool.owned (own(x := None)) p"
  by (erule pool.owned_mono) (simp add: map_le_def)

lemma owned_same: "pool.owned own p \<Longrightarrow> own x = y \<Longrightarrow> pool.owned (own(x := y)) p"
  by (simp add: fun_upd_idem)

section \<open>Memory leases\<close>

lemma store_leaseD:
  assumes "store_inv st"
  shows "mapped st" "lease.slots_inv (memLeaseAllocator st)"
    "lease.cached (memLeaseAllocator st) (cachedLeaseRecords st)"
    "pool.owned (owners (lease_owners st) (import_owners st)) (poolAllocator st)"
  using assms by (simp_all add: store_inv_defs)

text \<open>
  A change to the lease array and cache and to the pool keeps the invariant if it keeps its lease
  part.
\<close>

lemma store_inv_lease_update:
  assumes "store_inv st" "lease.slots_inv a" "lease.cached a c"
    "pool.owned (owners (lease.view lease_owns a c) (import_owners st)) p"
    "\<forall>n. lease.view (\<lambda>r e. ml_memIdCount r = length (snd e)) a c n \<noteq> Some False"
  shows "store_inv (st\<lparr>memLeaseAllocator := a, cachedLeaseRecords := c, poolAllocator := p\<rparr>)"
  using assms by (simp add: store_inv_defs)

lemma store_lease_len:
  assumes "store_inv st"
  shows "\<forall>n. lease.view (\<lambda>r e. ml_memIdCount r = length (snd e)) (memLeaseAllocator st) (cachedLeaseRecords st) n
    \<noteq> Some False"
  using assms by (simp add: store_inv_defs)

lemma AddMemLeaseInput_cases:
  assumes "store_inv st" "good_name (lmi_name input)" "AddMemLeaseInput input st = (ret, st')"
  obtains (fail) "ret = -1" "st' = st"
  | (dup) i a' where "ret = -1" "Allocator_Allocate (memLeaseAllocator st) = Some (i, a')"
      "map_of (cachedLeaseRecords st) (lmi_name input) \<noteq> None"
      "st' = st\<lparr>memLeaseAllocator :=
         put_record i (ClearMemLease (lease_record_of input (lmi_name input))) (memLeaseAllocator st)\<rparr>"
  | (ok) i a' where "ret = 0" "Allocator_Allocate (memLeaseAllocator st) = Some (i, a')"
      "map_of (cachedLeaseRecords st) (lmi_name input) = None"
      "st' = st\<lparr>memLeaseAllocator := put_record i (lease_record_of input (lmi_name input)) a',
         cachedLeaseRecords := emplace (lmi_name input) (i, []) (cachedLeaseRecords st)\<rparr>"
proof (cases "Allocator_Allocate (memLeaseAllocator st)")
  case None
  then show thesis using assms fail by (auto simp: AddMemLeaseInput_def store_inv_def)
next
  case (Some x)
  then obtain i a' where a': "Allocator_Allocate (memLeaseAllocator st) = Some (i, a')" by (cases x) auto
  note D = store_leaseD[OF assms(1)]
  note rel = lease.allocate_put_release(1)[OF D(2) a']
  show thesis
  proof (cases "map_of (cachedLeaseRecords st) (lmi_name input)")
    case None
    then show thesis
      using assms(2,3) D(1) a' by (intro ok[OF _ a' None]) (simp_all add: AddMemLeaseInput_def)
  next
    case (Some y)
    then show thesis
      using assms(2,3) D(1) a' by (intro dup[OF _ a']) (simp_all add: AddMemLeaseInput_def rel)
  qed
qed

lemma AddMemLeaseInput_inv:
  assumes "store_inv st" "good_name (lmi_name input)" "AddMemLeaseInput input st = (ret, st')"
  shows "store_inv st'"
proof -
  note D = store_leaseD[OF assms(1)]
  let ?n = "lmi_name input" and ?r = "lease_record_of input (lmi_name input)"
  from assms show ?thesis
  proof (cases rule: AddMemLeaseInput_cases)
    case (dup i a')
    have "store_inv (st\<lparr>memLeaseAllocator := put_record i (ClearMemLease ?r) (memLeaseAllocator st),
        cachedLeaseRecords := cachedLeaseRecords st, poolAllocator := poolAllocator st\<rparr>)"
      using lease.allocate_put_release(2)[OF D(2) dup(2)] lease.cached_put_idle[OF D(2) dup(2) D(3)] D(4)
        store_lease_len[OF assms(1)]
      by (intro store_inv_lease_update[OF assms(1)]) (simp_all add: lease.view_put_idle[OF D(2) dup(2) D(3)])
    then show ?thesis using dup by simp
  next
    case (ok i a')
    have r: "ml_name ?r = ?n" "\<not> MemLeaseIdle ?r"
      using assms(2) by (simp_all add: lease_record_of_def MemLeaseIdle_def)
    have e: "fst (i, [] :: u64 list) = i" by simp
    note v = lease.view_add[OF D(2) ok(2) D(3) ok(3) e]
    have "store_inv (st\<lparr>memLeaseAllocator := put_record i ?r a',
        cachedLeaseRecords := emplace ?n (i, []) (cachedLeaseRecords st), poolAllocator := poolAllocator st\<rparr>)"
      using lease.allocate_put[OF D(2) ok(2) r(2)] lease.cached_add[OF D(2) ok(2) D(3) ok(3) r(1) _ e] assms(2)
        owned_drop[OF D(4)] store_lease_len[OF assms(1)]
      by (intro store_inv_lease_update[OF assms(1)])
        (simp_all add: v lease_owns_def lease_record_of_def)
    then show ?thesis using ok by simp
  qed (use assms(1) in simp)
qed

lemma AddMemLeaseResult_cases:
  assumes "store_inv st" "AddMemLeaseResult name result st = (ret, st')"
  obtains (fail) "ret = -1" "st' = st"
  | (ok) i ids h p r where "ret = 0" "map_of (cachedLeaseRecords st) name = Some (i, ids)"
      "IdPool_Allocate (lmr_memIds result) (poolAllocator st) = Some (h, p)"
      "r = (recordAddress (memLeaseAllocator st) i)
         \<lparr>ml_recordState := FINISH, ml_memIdCount := length (lmr_memIds result), ml_memIdBuffer := h,
          ml_numaId := lmr_numaId result, ml_unitSize := lmr_unitSize result, ml_slotId := lmr_slotId result\<rparr>"
      "st' = st\<lparr>poolAllocator := p, memLeaseAllocator := put_record i r (memLeaseAllocator st),
         cachedLeaseRecords := assign name (i, lmr_memIds result) (cachedLeaseRecords st)\<rparr>"
proof (cases "map_of (cachedLeaseRecords st) name")
  case None
  then show thesis using assms fail by (auto simp: AddMemLeaseResult_def store_inv_def)
next
  case (Some x)
  then obtain i ids where e: "map_of (cachedLeaseRecords st) name = Some (i, ids)" by (cases x) auto
  show thesis
  proof (cases "IdPool_Allocate (lmr_memIds result) (poolAllocator st)")
    case None
    then show thesis using assms e fail by (auto simp: AddMemLeaseResult_def store_inv_def)
  next
    case (Some y)
    then obtain h p where hp: "IdPool_Allocate (lmr_memIds result) (poolAllocator st) = Some (h, p)" by (cases y) auto
    then show thesis
      using assms by (intro ok[OF _ e hp refl]) (simp_all add: AddMemLeaseResult_def store_inv_def e)
  qed
qed

lemma allocate_nonempty: "IdPool_Allocate ids p = Some x \<Longrightarrow> ids \<noteq> []"
  by (auto simp: IdPool_Allocate_def Let_def split: if_splits)

lemma AddMemLeaseResult_inv:
  assumes "store_inv st" "AddMemLeaseResult name result st = (ret, st')"
  shows "store_inv st'"
proof -
  note D = store_leaseD[OF assms(1)]
  from assms show ?thesis
  proof (cases rule: AddMemLeaseResult_cases)
    case (ok i ids h p r)
    have e: "fst (i, lmr_memIds result) = fst (i, ids)" by simp
    have nm: "ml_name r = name" "\<not> MemLeaseIdle r" "\<not> MemLeaseIdle (recordAddress (memLeaseAllocator st) i)"
      using lease.cached_entry[OF D(3) ok(2)] ok(4) by (simp_all add: MemLeaseIdle_def)
    note v = lease.view_update[OF D(3) ok(2) e, simplified]
    have "store_inv (st\<lparr>memLeaseAllocator := put_record i r (memLeaseAllocator st),
         cachedLeaseRecords := assign name (i, lmr_memIds result) (cachedLeaseRecords st), poolAllocator := p\<rparr>)"
      using lease.put_live[OF D(2) nm(3,2)] lease.cached_update[OF D(3) ok(2) nm(1) e]
        pool.owned_alloc[OF D(4) ok(3), of "Inl name"] store_lease_len[OF assms(1)] allocate_nonempty[OF ok(3)]
      by (intro store_inv_lease_update[OF assms(1)]) (simp_all add: v lease_owns_def ok(4))
    then show ?thesis using ok(5) by (simp add: store_inv_defs)
  qed (use assms(1) in simp)
qed

text \<open>Overwriting fields other than the name and the memory ids of a cached lease.\<close>

lemma lease_field_update_inv:
  assumes "store_inv st" "map_of (cachedLeaseRecords st) name = Some (i, ids)"
    "ml_name r = ml_name (recordAddress (memLeaseAllocator st) i)"
    "ml_memIdCount r = ml_memIdCount (recordAddress (memLeaseAllocator st) i)"
    "ml_memIdBuffer r = ml_memIdBuffer (recordAddress (memLeaseAllocator st) i)"
  shows "store_inv (st\<lparr>memLeaseAllocator := put_record i r (memLeaseAllocator st)\<rparr>)"
proof -
  note D = store_leaseD[OF assms(1)]
  let ?r = "recordAddress (memLeaseAllocator st) i"
  have nm: "ml_name r = name" "\<not> MemLeaseIdle r" "\<not> MemLeaseIdle ?r"
    using lease.cached_entry[OF D(3) assms(2)] assms(3) by (simp_all add: MemLeaseIdle_def)
  note v = lease.view_put[OF D(3) assms(2), simplified]
  have own: "lease_owners st name = Some (lease_owns r (i, ids))"
    and len: "lease.view (\<lambda>r e. ml_memIdCount r = length (snd e)) (memLeaseAllocator st) (cachedLeaseRecords st) name
      = Some (ml_memIdCount r = length ids)"
    using assms(2,4,5) by (simp_all add: lease.view_def lease_owns_def)
  have "ml_memIdCount r = length ids"
    using spec[OF store_lease_len[OF assms(1)], of name] len by simp
  then have "store_inv (st\<lparr>memLeaseAllocator := put_record i r (memLeaseAllocator st),
      cachedLeaseRecords := cachedLeaseRecords st, poolAllocator := poolAllocator st\<rparr>)"
    using lease.put_live[OF D(2) nm(3,2)] lease.cached_put[OF D(3) assms(2) nm(1)] D(4)
      store_lease_len[OF assms(1)]
    by (intro store_inv_lease_update[OF assms(1)]) (auto simp: v fun_upd_idem[of "lease_owners st" name] own)
  then show ?thesis by simp
qed

lemma UpdateMemLeaseRecordState_inv:
  assumes "store_inv st" "UpdateMemLeaseRecordState name state st = (ret, st')"
  shows "store_inv st'"
proof (cases "map_of (cachedLeaseRecords st) name")
  case (Some x)
  then show ?thesis
    using assms lease_field_update_inv[OF assms(1), of name "fst x" "snd x"]
    by (auto simp: UpdateMemLeaseRecordState_def store_inv_def split: prod.splits)
qed (use assms in \<open>auto simp: UpdateMemLeaseRecordState_def store_inv_def\<close>)

lemma UpdateMemLeaseRecord_inv:
  assumes "store_inv st" "UpdateMemLeaseRecord name context sz st = (ret, st')"
  shows "store_inv st'"
proof (cases "map_of (cachedLeaseRecords st) name")
  case (Some x)
  then show ?thesis
    using assms lease_field_update_inv[OF assms(1), of name "fst x" "snd x"]
    by (auto simp: UpdateMemLeaseRecord_def store_inv_def split: prod.splits)
qed (use assms in \<open>auto simp: UpdateMemLeaseRecord_def store_inv_def\<close>)

lemma recordAddress_release [simp]:
  "recordAddress (Allocator_Release n clear i a) j =
     (if i < n \<and> j = i then clear (recordAddress a j) else recordAddress a j)"
  by (simp add: Allocator_Release_def)

lemma release_cleared:
  "i < n \<Longrightarrow> clear (clear (recordAddress a i)) = clear (recordAddress a i) \<Longrightarrow>
   Allocator_Release n clear i (put_record i (clear (recordAddress a i)) a) = Allocator_Release n clear i a"
  by (simp add: Allocator_Release_def put_record_def)

lemma DelMemLeaseRecord_cases:
  assumes "store_inv st" "DelMemLeaseRecord name st = (ret, st')"
  obtains (fail) "ret = -1" "st' = st" "map_of (cachedLeaseRecords st) name = None"
  | (ok) i ids p where "ret = 0" "map_of (cachedLeaseRecords st) name = Some (i, ids)"
      "pool.owned ((owners (lease_owners st) (import_owners st))(Inl name := None)) p"
      "st' = st\<lparr>cachedLeaseRecords := erase name (cachedLeaseRecords st),
         memLeaseAllocator := release_lease i (memLeaseAllocator st), poolAllocator := p\<rparr>"
proof (cases "map_of (cachedLeaseRecords st) name")
  case None
  then show thesis using assms fail by (auto simp: DelMemLeaseRecord_def store_inv_def)
next
  case (Some x)
  then obtain i ids where e: "map_of (cachedLeaseRecords st) name = Some (i, ids)" by (cases x) auto
  note D = store_leaseD[OF assms(1)]
  let ?r = "recordAddress (memLeaseAllocator st) i"
  have rel: "release_lease i (put_record i (?r\<lparr>ml_name := []\<rparr>) (memLeaseAllocator st)) =
      release_lease i (memLeaseAllocator st)"
    using release_cleared[of i MEM_LEASE_MAX_RECORD ClearMemLease "memLeaseAllocator st"]
      lease.cached_entry[OF D(3) e] by (simp add: ClearMemLease_def)
  show thesis
  proof (cases "ml_memIdCount ?r = 0")
    case True
    then show thesis
      using owned_drop[OF D(4), of "Inl name"] assms(2) D(1)
      by (intro ok[OF _ e, of "poolAllocator st"]) (auto simp: DelMemLeaseRecord_def e rel)
  next
    case False
    then have "owners (lease_owners st) (import_owners st) (Inl name) = Some (ml_memIdBuffer ?r, ids)"
      using e by (simp add: owners_def lease.view_def lease_owns_def)
    from pool.owned_release[OF D(4) this] obtain p where p: "IdPool_Release (ml_memIdBuffer ?r) (poolAllocator st) = Some p"
      "pool.owned ((owners (lease_owners st) (import_owners st))(Inl name := None)) p" by blast
    show thesis
      using assms(2) D(1) False p(1)
      by (intro ok[OF _ e p(2)]) (simp_all add: DelMemLeaseRecord_def e rel)
  qed
qed

lemma DelMemLeaseRecord_inv:
  assumes "store_inv st" "DelMemLeaseRecord name st = (ret, st')"
  shows "store_inv st'"
proof -
  note D = store_leaseD[OF assms(1)]
  from assms show ?thesis
  proof (cases rule: DelMemLeaseRecord_cases)
    case (ok i ids p)
    note entry = lease.cached_entry[OF D(3) ok(2)]
    note v = lease.view_del[OF D(3) ok(2), simplified]
    have "store_inv (st\<lparr>memLeaseAllocator := release_lease i (memLeaseAllocator st),
         cachedLeaseRecords := erase name (cachedLeaseRecords st), poolAllocator := p\<rparr>)"
      using lease.release_slot[OF D(2)] entry lease.cached_del[OF D(3) ok(2)] ok(3) store_lease_len[OF assms(1)]
      by (intro store_inv_lease_update[OF assms(1)]) (simp_all add: v)
    then show ?thesis using ok(4) by (simp add: store_inv_defs)
  qed (use assms(1) in simp)
qed

section \<open>Shared-memory imports\<close>

lemma store_importD:
  assumes "store_inv st"
  shows "mapped st" "shmimp.slots_inv (shmImportAllocator st)"
    "shmimp.cached (shmImportAllocator st) (cachedImportShmRecords st)"
    "pool.owned (owners (lease_owners st) (import_owners st)) (poolAllocator st)"
    "\<forall>n. shmimp.view (\<lambda>r e. si_memIdCount r = length (snd e)) (shmImportAllocator st) (cachedImportShmRecords st) n
      \<noteq> Some False"
    "mm_ok (cachedRefShmIdxRecords st)" "ref_import_inv st"
  using assms by (simp_all add: store_inv_def region_inv_def import_inv_def ids_inv_def ref_inv_def)

text \<open>
  A change to the import array and cache and to the pool: it must also leave every referenced
  slot live.
\<close>

lemma store_inv_import_update:
  assumes "store_inv st" "shmimp.slots_inv a" "shmimp.cached a c"
    "pool.owned (owners (lease_owners st) (shmimp.view import_owns a c)) p"
    "\<forall>n. shmimp.view (\<lambda>r e. si_memIdCount r = length (snd e)) a c n \<noteq> Some False"
    "\<And>idx. map_of (cachedRefShmIdxRecords st) idx \<noteq> None \<Longrightarrow>
      \<not> MemShareImportIdle (recordAddress (shmImportAllocator st) idx) \<Longrightarrow>
      \<not> MemShareImportIdle (recordAddress a idx)"
  shows "store_inv (st\<lparr>shmImportAllocator := a, cachedImportShmRecords := c, poolAllocator := p\<rparr>)"
proof -
  have "ref_import_inv (st\<lparr>shmImportAllocator := a, cachedImportShmRecords := c, poolAllocator := p\<rparr>)"
    using store_importD(7)[OF assms(1)] assms(6) mm_find_None[OF store_importD(6)[OF assms(1)]]
    unfolding ref_import_inv_def by simp
  then show ?thesis
    using assms(1-5) by (simp add: store_inv_def region_inv_def lease_inv_def import_inv_def ids_inv_def ref_inv_def)
qed

lemma AddShmImportInput_cases:
  assumes "store_inv st" "good_name (smi_name input)" "AddShmImportInput input st = (ret, st')"
  obtains (fail) "ret = -1" "st' = st"
  | (dup) i a' where "ret = -1" "Allocator_Allocate (shmImportAllocator st) = Some (i, a')"
      "map_of (cachedImportShmRecords st) (smi_name input) \<noteq> None"
      "st' = st\<lparr>shmImportAllocator :=
         put_record i (ClearMemShareImport (import_record_of input (smi_name input))) (shmImportAllocator st)\<rparr>"
  | (ok) i a' where "ret = 0" "Allocator_Allocate (shmImportAllocator st) = Some (i, a')"
      "map_of (cachedImportShmRecords st) (smi_name input) = None"
      "st' = st\<lparr>shmImportAllocator := put_record i (import_record_of input (smi_name input)) a',
         cachedImportShmRecords := emplace (smi_name input) (i, []) (cachedImportShmRecords st)\<rparr>"
proof (cases "Allocator_Allocate (shmImportAllocator st)")
  case None
  then show thesis using assms fail by (auto simp: AddShmImportInput_def store_inv_def)
next
  case (Some x)
  then obtain i a' where a': "Allocator_Allocate (shmImportAllocator st) = Some (i, a')" by (cases x) auto
  note D = store_importD[OF assms(1)]
  note rel = shmimp.allocate_put_release(1)[OF D(2) a']
  show thesis
  proof (cases "map_of (cachedImportShmRecords st) (smi_name input)")
    case None
    then show thesis
      using assms(2,3) D(1) a' by (intro ok[OF _ a' None]) (simp_all add: AddShmImportInput_def)
  next
    case (Some y)
    then show thesis
      using assms(2,3) D(1) a' by (intro dup[OF _ a']) (simp_all add: AddShmImportInput_def rel)
  qed
qed

lemma AddShmImportInput_inv:
  assumes "store_inv st" "good_name (smi_name input)" "AddShmImportInput input st = (ret, st')"
  shows "store_inv st'"
proof -
  note D = store_importD[OF assms(1)]
  let ?n = "smi_name input" and ?r = "import_record_of input (smi_name input)"
  from assms show ?thesis
  proof (cases rule: AddShmImportInput_cases)
    case (dup i a')
    have "store_inv (st\<lparr>shmImportAllocator := put_record i (ClearMemShareImport ?r) (shmImportAllocator st),
        cachedImportShmRecords := cachedImportShmRecords st, poolAllocator := poolAllocator st\<rparr>)"
      using shmimp.allocate_put_release(2)[OF D(2) dup(2)] shmimp.cached_put_idle[OF D(2) dup(2) D(3)] D(4,5)
        shmimp.allocate_slot(2)[OF D(2) dup(2)]
      by (intro store_inv_import_update[OF assms(1)])
        (auto simp: shmimp.view_put_idle[OF D(2) dup(2) D(3)] split: if_splits)
    then show ?thesis using dup by simp
  next
    case (ok i a')
    have r: "si_name ?r = ?n" "\<not> MemShareImportIdle ?r"
      using assms(2) by (simp_all add: import_record_of_def MemShareImportIdle_def)
    have e: "fst (i, [] :: u64 list) = i" by simp
    note v = shmimp.view_add[OF D(2) ok(2) D(3) ok(3) e]
    have "store_inv (st\<lparr>shmImportAllocator := put_record i ?r a',
        cachedImportShmRecords := emplace ?n (i, []) (cachedImportShmRecords st), poolAllocator := poolAllocator st\<rparr>)"
      using shmimp.allocate_put[OF D(2) ok(2) r(2)] shmimp.cached_add[OF D(2) ok(2) D(3) ok(3) r(1) _ e] assms(2)
        owned_drop[OF D(4)] D(5) r(2) shmimp.allocate_slot(3)[OF D(2) ok(2)]
      by (intro store_inv_import_update[OF assms(1)])
        (simp_all add: v import_owns_def import_record_of_def)
    then show ?thesis using ok by simp
  qed (use assms(1) in simp)
qed

lemma AddShmImportResult_cases:
  assumes "store_inv st" "AddShmImportResult name result st = (ret, st')"
  obtains (fail) "ret = -1" "st' = st"
  | (ok) i ids h p r where "ret = 0" "map_of (cachedImportShmRecords st) name = Some (i, ids)"
      "IdPool_Allocate (smr_memIds result) (poolAllocator st) = Some (h, p)"
      "r = (recordAddress (shmImportAllocator st) i)
         \<lparr>si_uid := smr_ownerUserId result, si_gid := smr_ownerGroupId result,
          si_memIdCount := length (smr_memIds result), si_memIdBuffer := h,
          si_recordState := FINISH, si_unitSize := smr_unitSize result,
          si_oflag := smr_openFlag result, si_flag := smr_createFlags result\<rparr>"
      "st' = st\<lparr>poolAllocator := p, shmImportAllocator := put_record i r (shmImportAllocator st),
         cachedImportShmRecords := assign name (i, smr_memIds result) (cachedImportShmRecords st)\<rparr>"
proof (cases "length name \<ge> RECORD_NAME_SIZE \<or> map_of (cachedImportShmRecords st) name = None")
  case True
  then show thesis using assms fail by (auto simp: AddShmImportResult_def store_inv_def split: if_splits)
next
  case False
  then obtain i ids where e: "map_of (cachedImportShmRecords st) name = Some (i, ids)" by auto
  show thesis
  proof (cases "IdPool_Allocate (smr_memIds result) (poolAllocator st)")
    case None
    then show thesis using assms e False fail by (auto simp: AddShmImportResult_def store_inv_def)
  next
    case (Some y)
    then obtain h p where hp: "IdPool_Allocate (smr_memIds result) (poolAllocator st) = Some (h, p)" by (cases y) auto
    then show thesis
      using assms False by (intro ok[OF _ e hp refl]) (simp_all add: AddShmImportResult_def store_inv_def e)
  qed
qed

lemma AddShmImportResult_inv:
  assumes "store_inv st" "AddShmImportResult name result st = (ret, st')"
  shows "store_inv st'"
proof -
  note D = store_importD[OF assms(1)]
  from assms show ?thesis
  proof (cases rule: AddShmImportResult_cases)
    case (ok i ids h p r)
    have e: "fst (i, smr_memIds result) = fst (i, ids)" by simp
    have nm: "si_name r = name" "\<not> MemShareImportIdle r" "\<not> MemShareImportIdle (recordAddress (shmImportAllocator st) i)"
      using shmimp.cached_entry[OF D(3) ok(2)] ok(4) by (simp_all add: MemShareImportIdle_def)
    note v = shmimp.view_update[OF D(3) ok(2) e, simplified]
    have "store_inv (st\<lparr>shmImportAllocator := put_record i r (shmImportAllocator st),
         cachedImportShmRecords := assign name (i, smr_memIds result) (cachedImportShmRecords st), poolAllocator := p\<rparr>)"
      using shmimp.put_live[OF D(2) nm(3,2)] shmimp.cached_update[OF D(3) ok(2) nm(1) e] nm(2)
        pool.owned_alloc[OF D(4) ok(3), of "Inr name"] D(5) allocate_nonempty[OF ok(3)]
      by (intro store_inv_import_update[OF assms(1)]) (simp_all add: v import_owns_def ok(4))
    then show ?thesis using ok(5) by (simp add: store_inv_defs)
  qed (use assms(1) in simp)
qed

lemma UpdateShmImportRecordState_inv:
  assumes "store_inv st" "UpdateShmImportRecordState name state st = (ret, st')"
  shows "store_inv st'"
proof (cases "map_of (cachedImportShmRecords st) name")
  case (Some x)
  then obtain i ids where e: "map_of (cachedImportShmRecords st) name = Some (i, ids)" by (cases x) auto
  note D = store_importD[OF assms(1)]
  let ?r = "(recordAddress (shmImportAllocator st) i)\<lparr>si_recordState := state\<rparr>"
  have nm: "si_name ?r = name" "\<not> MemShareImportIdle ?r" "\<not> MemShareImportIdle (recordAddress (shmImportAllocator st) i)"
    using shmimp.cached_entry[OF D(3) e] by (simp_all add: MemShareImportIdle_def)
  note v = shmimp.view_put[OF D(3) e, simplified]
  have own: "import_owners st name = Some (import_owns ?r (i, ids))"
    and len: "shmimp.view (\<lambda>r e. si_memIdCount r = length (snd e)) (shmImportAllocator st) (cachedImportShmRecords st) name
      = Some (si_memIdCount ?r = length ids)"
    using e by (simp_all add: shmimp.view_def import_owns_def)
  have "si_memIdCount ?r = length ids" using spec[OF D(5), of name] len by simp
  then have "store_inv (st\<lparr>shmImportAllocator := put_record i ?r (shmImportAllocator st),
      cachedImportShmRecords := cachedImportShmRecords st, poolAllocator := poolAllocator st\<rparr>)"
    using shmimp.put_live[OF D(2) nm(3,2)] shmimp.cached_put[OF D(3) e nm(1)] D(4,5) nm(2)
    by (intro store_inv_import_update[OF assms(1)])
      (auto simp: v fun_upd_idem[of "import_owners st" name] own)
  then show ?thesis using assms(2) D(1) e by (simp add: UpdateShmImportRecordState_def)
qed (use assms in \<open>auto simp: UpdateShmImportRecordState_def store_inv_def\<close>)

lemma DelShmImportRecord_cases:
  assumes "store_inv st" "DelShmImportRecord name st = (ret, st')"
  obtains (fail) "ret = -1" "st' = st" "map_of (cachedImportShmRecords st) name = None"
  | (used) i ids where "ret = -1" "st' = st" "map_of (cachedImportShmRecords st) name = Some (i, ids)"
      "map_of (cachedRefShmIdxRecords st) i \<noteq> None"
  | (ok) i ids p where "ret = 0" "map_of (cachedImportShmRecords st) name = Some (i, ids)"
      "map_of (cachedRefShmIdxRecords st) i = None"
      "pool.owned ((owners (lease_owners st) (import_owners st))(Inr name := None)) p"
      "st' = st\<lparr>cachedImportShmRecords := erase name (cachedImportShmRecords st),
         shmImportAllocator := release_import i (shmImportAllocator st), poolAllocator := p\<rparr>"
proof (cases "map_of (cachedImportShmRecords st) name")
  case None
  then show thesis using assms fail by (auto simp: DelShmImportRecord_def store_inv_def)
next
  case (Some x)
  then obtain i ids where e: "map_of (cachedImportShmRecords st) name = Some (i, ids)" by (cases x) auto
  note D = store_importD[OF assms(1)]
  let ?r = "recordAddress (shmImportAllocator st) i"
  show thesis
  proof (cases "map_of (cachedRefShmIdxRecords st) i")
    case (Some y)
    then show thesis using assms(2) D(1) e by (intro used[OF _ _ e]) (simp_all add: DelShmImportRecord_def)
  next
    case unref: None
    show thesis
    proof (cases "si_memIdCount ?r = 0")
      case True
      then show thesis
        using owned_drop[OF D(4), of "Inr name"] assms(2) D(1)
        by (intro ok[OF _ e unref, of "poolAllocator st"]) (auto simp: DelShmImportRecord_def e unref)
    next
      case False
      then have "owners (lease_owners st) (import_owners st) (Inr name) = Some (si_memIdBuffer ?r, ids)"
        using e by (simp add: owners_def shmimp.view_def import_owns_def)
      from pool.owned_release[OF D(4) this] obtain p where p: "IdPool_Release (si_memIdBuffer ?r) (poolAllocator st) = Some p"
        "pool.owned ((owners (lease_owners st) (import_owners st))(Inr name := None)) p" by blast
      show thesis
        using assms(2) D(1) False p(1)
        by (intro ok[OF _ e unref p(2)]) (simp_all add: DelShmImportRecord_def e unref)
    qed
  qed
qed

lemma DelShmImportRecord_inv:
  assumes "store_inv st" "DelShmImportRecord name st = (ret, st')"
  shows "store_inv st'"
proof -
  note D = store_importD[OF assms(1)]
  from assms show ?thesis
  proof (cases rule: DelShmImportRecord_cases)
    case (ok i ids p)
    note entry = shmimp.cached_entry[OF D(3) ok(2)]
    note v = shmimp.view_del[OF D(3) ok(2), simplified]
    have "store_inv (st\<lparr>shmImportAllocator := release_import i (shmImportAllocator st),
         cachedImportShmRecords := erase name (cachedImportShmRecords st), poolAllocator := p\<rparr>)"
      using shmimp.release_slot[OF D(2)] entry shmimp.cached_del[OF D(3) ok(2)] ok(3,4) D(5)
      by (intro store_inv_import_update[OF assms(1)]) (auto simp: v)
    then show ?thesis using ok(5) by (simp add: store_inv_defs)
  qed (use assms(1) in simp_all)
qed

section \<open>Shared-memory references\<close>

lemma store_refD:
  assumes "store_inv st"
  shows "mapped st" "shmref.slots_inv (shmRefAllocator st)"
    "mm_ok (cachedRefShmIdxRecords st)" "mm_ok (cachedRefShmPidRecords st)"
    "mm_get (cachedRefShmPidRecords st) pid idx = mm_get (cachedRefShmIdxRecords st) idx pid"
    "distinct (mm_get (cachedRefShmIdxRecords st) idx pid)"
    "set (mm_get (cachedRefShmIdxRecords st) idx pid) = refs_in (shmRefAllocator st) idx pid"
  using assms by (simp_all add: store_inv_def ref_inv_def)

lemma store_inv_ref_update:
  assumes "store_inv st" "shmref.slots_inv a" "mm_ok im" "mm_ok pm"
    "\<And>idx pid. mm_get pm pid idx = mm_get im idx pid"
    "\<And>idx pid. distinct (mm_get im idx pid)"
    "\<And>idx pid. set (mm_get im idx pid) = refs_in a idx pid"
    "\<And>idx pid. mm_get im idx pid \<noteq> [] \<Longrightarrow> mm_get (cachedRefShmIdxRecords st) idx pid \<noteq> [] \<or>
      (idx < SHM_MAX_ATTACH_RECORD \<and> \<not> MemShareImportIdle (recordAddress (shmImportAllocator st) idx))"
  shows "store_inv (st\<lparr>cachedRefShmIdxRecords := im, cachedRefShmPidRecords := pm, shmRefAllocator := a\<rparr>)"
proof -
  have "ref_import_inv (st\<lparr>cachedRefShmIdxRecords := im, cachedRefShmPidRecords := pm, shmRefAllocator := a\<rparr>)"
    using assms(1,8) unfolding store_inv_def ref_import_inv_def by simp blast
  then show ?thesis
    using assms(1-7) by (simp add: store_inv_def region_inv_def lease_inv_def import_inv_def ids_inv_def ref_inv_def)
qed

lemma refs_in_put:
  "j < SHM_MAX_REFERENCE_RECORD \<Longrightarrow> MemShareRefIdle (recordAddress a j) \<Longrightarrow> pid \<noteq> 0 \<Longrightarrow>
   recordAddress a' = recordAddress a \<Longrightarrow>
   refs_in (put_record j (r\<lparr>sr_pid := pid, sr_shmImportIndex := idx\<rparr>) a') x y =
     (if x = idx \<and> y = pid then insert j (refs_in a x y) else refs_in a x y)"
  by (auto simp: refs_in_def MemShareRefIdle_def split: if_splits)

lemma refs_in_release:
  "refs_in (release_ref j a) x y = refs_in a x y - {j}"
  by (auto simp: refs_in_def MemShareRefIdle_def ClearMemShareRef_def split: if_splits)

lemma release_unwritten:
  assumes "store_inv st" "Allocator_Allocate (shmRefAllocator st) = Some (j, a')"
  shows "release_ref j a' = shmRefAllocator st"
proof -
  note s = shmref.allocate_slot[OF store_refD(2)[OF assms(1)] assms(2)]
  have "put_record j (recordAddress a' j) a' = a'" by (simp add: put_record_def)
  then have "release_ref j a' = put_record j (ClearMemShareRef (recordAddress a' j)) (shmRefAllocator st)"
    using shmref.allocate_put_release(1)[OF store_refD(2)[OF assms(1)] assms(2)] by metis
  moreover have "ClearMemShareRef (recordAddress a' j) = recordAddress (shmRefAllocator st) j"
    using s(2,3) by (simp add: MemShareRefIdle_def ClearMemShareRef_def)
  ultimately show ?thesis by (simp add: put_record_def)
qed

lemma AddShmRefRecord_cases:
  assumes "store_inv st" "AddShmRefRecord pid name st = (ret, st')"
  obtains (fail) "ret = -1" "st' = st"
  | (ok) i ids j a' where "ret = 0" "pid \<noteq> 0" "map_of (cachedImportShmRecords st) name = Some (i, ids)"
      "Allocator_Allocate (shmRefAllocator st) = Some (j, a')"
      "st' = st\<lparr>cachedRefShmIdxRecords := mm_push i pid j (cachedRefShmIdxRecords st),
         cachedRefShmPidRecords := mm_push pid i j (cachedRefShmPidRecords st),
         shmRefAllocator := put_record j ((recordAddress a' j)\<lparr>sr_pid := pid, sr_shmImportIndex := i\<rparr>) a'\<rparr>"
proof (cases "pid = 0 \<or> name = [] \<or> length name \<ge> RECORD_NAME_SIZE \<or>
    Allocator_Allocate (shmRefAllocator st) = None")
  case True
  then show thesis using assms(2) fail by (auto simp: AddShmRefRecord_def split: if_splits)
next
  case False
  then obtain j a' where a': "Allocator_Allocate (shmRefAllocator st) = Some (j, a')" by auto
  note D = store_refD(1)[OF assms(1)]
  show thesis
  proof (cases "map_of (cachedImportShmRecords st) name")
    case None
    then show thesis
      using assms(2) False D a' fail release_unwritten[OF assms(1) a'] by (simp add: AddShmRefRecord_def)
  next
    case (Some x)
    then obtain i ids where e: "map_of (cachedImportShmRecords st) name = Some (i, ids)" by (cases x) auto
    show thesis
      using assms(2) False D a' e by (intro ok[OF _ _ e a']) (simp_all add: AddShmRefRecord_def)
  qed
qed

lemma AddShmRefRecord_inv:
  assumes "store_inv st" "AddShmRefRecord pid name st = (ret, st')"
  shows "store_inv st'"
proof -
  note D = store_refD[OF assms(1)]
  from assms show ?thesis
  proof (cases rule: AddShmRefRecord_cases)
    case (ok i ids j a')
    note s = shmref.allocate_slot[OF D(2) ok(4)]
    let ?r = "(recordAddress a' j)\<lparr>sr_pid := pid, sr_shmImportIndex := i\<rparr>"
    have "j \<notin> refs_in (shmRefAllocator st) x y" for x y using s(2) by (simp add: refs_in_def)
    moreover have "\<not> MemShareRefIdle ?r" using ok(2) by (simp add: MemShareRefIdle_def)
    ultimately show ?thesis
      unfolding ok(5)
      using shmref.allocate_put[OF D(2) ok(4), of ?r] D refs_in_put[OF s(1,2) ok(2) s(3)]
        shmimp.cached_entry[OF store_importD(3)[OF assms(1)] ok(3)]
      by (intro store_inv_ref_update[OF assms(1)]) (auto simp: mm_push_ok mm_push_get split: if_splits)
  qed (use assms(1) in simp)
qed

lemma DelShmRefRecord_cases:
  assumes "store_inv st" "DelShmRefRecord pid name st = (ret, st')"
  obtains (fail) "ret = -1" "st' = st"
  | (none) i ids where "ret = -1" "map_of (cachedImportShmRecords st) name = Some (i, ids)"
      "mm_get (cachedRefShmIdxRecords st) i pid = []"
      "st' = st\<lparr>cachedRefShmIdxRecords := fst (mm_pop i pid (cachedRefShmIdxRecords st)),
         cachedRefShmPidRecords := fst (mm_pop pid i (cachedRefShmPidRecords st)),
         shmRefAllocator := shmRefAllocator st\<rparr>"
  | (ok) i ids where "ret = 0" "map_of (cachedImportShmRecords st) name = Some (i, ids)"
      "mm_get (cachedRefShmIdxRecords st) i pid \<noteq> []"
      "st' = st\<lparr>cachedRefShmIdxRecords := fst (mm_pop i pid (cachedRefShmIdxRecords st)),
         cachedRefShmPidRecords := fst (mm_pop pid i (cachedRefShmPidRecords st)),
         shmRefAllocator := release_ref (last (mm_get (cachedRefShmIdxRecords st) i pid)) (shmRefAllocator st)\<rparr>"
proof (cases "pid = 0 \<or> name = [] \<or> length name \<ge> RECORD_NAME_SIZE \<or>
    map_of (cachedImportShmRecords st) name = None")
  case True
  then show thesis using assms fail by (auto simp: DelShmRefRecord_def store_inv_def split: if_splits)
next
  case False
  then obtain i ids where e: "map_of (cachedImportShmRecords st) name = Some (i, ids)" by auto
  note D = store_refD[OF assms(1)]
  note p1 = mm_pop_get[OF D(3), of i pid] and p2 = mm_pop_get[OF D(4), of pid i]
  show thesis
  proof (cases "mm_get (cachedRefShmIdxRecords st) i pid = []")
    case True
    then show thesis
      using assms(2) False D(1,5) p1(2) p2(2)
      by (intro none[OF _ e]) (auto simp: DelShmRefRecord_def e Let_def split: prod.splits)
  next
    case ne: False
    then show thesis
      using assms(2) False D(1,5) p1(2) p2(2)
      by (intro ok[OF _ e]) (auto simp: DelShmRefRecord_def e Let_def split: prod.splits)
  qed
qed

lemma in_butlast_iff: "distinct xs \<Longrightarrow> set (butlast xs) = set xs - {last xs}"
  by (cases xs rule: rev_cases) auto

lemma DelShmRefRecord_inv:
  assumes "store_inv st" "DelShmRefRecord pid name st = (ret, st')"
  shows "store_inv st'"
proof -
  note D = store_refD[OF assms(1)]
  from assms show ?thesis
  proof (cases rule: DelShmRefRecord_cases)
    case (none i ids)
    have im: "mm_get (fst (mm_pop i pid (cachedRefShmIdxRecords st))) x y = mm_get (cachedRefShmIdxRecords st) x y"
      and pm: "mm_get (fst (mm_pop pid i (cachedRefShmPidRecords st))) y x = mm_get (cachedRefShmIdxRecords st) x y" for x y
      using none(3) D(5) mm_pop_get(1)[OF D(3), of i pid] mm_pop_get(1)[OF D(4), of pid i] by simp_all
    show ?thesis
      unfolding none(4)
      by (rule store_inv_ref_update[OF assms(1) D(2)]) (simp_all add: im pm D mm_pop_get(3))
  next
    case (ok i ids)
    let ?L = "mm_get (cachedRefShmIdxRecords st) i pid" and ?a = "shmRefAllocator st"
    have im: "mm_get (fst (mm_pop i pid (cachedRefShmIdxRecords st))) x y =
        (if x = i \<and> y = pid then butlast ?L else mm_get (cachedRefShmIdxRecords st) x y)"
      and pm: "mm_get (fst (mm_pop pid i (cachedRefShmPidRecords st))) y x =
        (if x = i \<and> y = pid then butlast ?L else mm_get (cachedRefShmIdxRecords st) x y)" for x y
      using D(5) mm_pop_get(1)[OF D(3), of i pid] mm_pop_get(1)[OF D(4), of pid i] by simp_all
    have last: "last ?L \<in> refs_in ?a i pid"
      using ok(3) D(7)[of i pid] last_in_set by blast
    then have rel: "shmref.slots_inv (release_ref (last ?L) ?a)"
      by (intro shmref.release_slot[OF D(2)]) (auto simp: refs_in_def)
    have other: "refs_in ?a x y - {last ?L} = refs_in ?a x y" if "\<not> (x = i \<and> y = pid)" for x y
      using last that by (auto simp: refs_in_def)
    show ?thesis
      unfolding ok(4)
    proof (rule store_inv_ref_update[OF assms(1) rel])
      show "set (mm_get (fst (mm_pop i pid (cachedRefShmIdxRecords st))) x y) = refs_in (release_ref (last ?L) ?a) x y" for x y
        using in_butlast_iff[OF D(6)[of i pid]] D(7) other[of x y] by (simp add: im refs_in_release)
    qed (auto simp: im pm D(3,4,6) mm_pop_get(3) distinct_butlast split: if_splits)
  qed (use assms(1) in simp)
qed

lemma fold_mm_drop:
  assumes "mm_ok m"
  shows "mm_ok (fold (\<lambda>(index, _). mm_drop index b) inner m)"
    "mm_get (fold (\<lambda>(index, _). mm_drop index b) inner m) x y =
      (if y = b \<and> x \<in> fst ` set inner then [] else mm_get m x y)"
  using assms
  by (induction inner arbitrary: m) (simp_all add: mm_drop_get split_beta, blast)

lemma release_many:
  assumes "shmref.slots_inv a" "distinct js"
    "\<forall>j\<in>set js. j < SHM_MAX_REFERENCE_RECORD \<and> \<not> MemShareRefIdle (recordAddress a j)"
  shows "shmref.slots_inv (fold release_ref js a) \<and>
    (\<forall>x y. refs_in (fold release_ref js a) x y = refs_in a x y - set js)"
  using assms
proof (induction js arbitrary: a)
  case (Cons j js)
  have "shmref.slots_inv (release_ref j a)" using Cons.prems by (intro shmref.release_slot) auto
  moreover have "\<forall>k\<in>set js. k < SHM_MAX_REFERENCE_RECORD \<and> \<not> MemShareRefIdle (recordAddress (release_ref j a) k)"
    using Cons.prems by auto
  ultimately show ?case
    using Cons.IH[of "release_ref j a"] Cons.prems(2) by (auto simp: refs_in_release)
qed simp

lemma vm_entries: "vm_ok m \<Longrightarrow> (k, vs) \<in> set m \<longleftrightarrow> vs \<noteq> [] \<and> find_or_empty m k = vs"
  by (auto simp: vm_ok_def find_or_empty_def split: option.splits dest: eq_key_imp_eq_value)

lemma distinct_keyed_concat:
  "distinct (map fst ls) \<Longrightarrow> (\<And>x l. (x, l) \<in> set ls \<Longrightarrow> distinct l \<and> (\<forall>j\<in>set l. key j = x)) \<Longrightarrow>
   distinct (concat (map snd ls))"
proof (induction ls)
  case (Cons p ls)
  obtain x l where p: "p = (x, l)" by (cases p)
  have "key j \<noteq> x" if "(y, l') \<in> set ls" "j \<in> set l'" for y l' j
    using that Cons.prems(1) Cons.prems(2)[of y l'] by (force simp: p)
  then have "set l \<inter> set (concat (map snd ls)) = {}"
    using Cons.prems(2)[of x l] by (fastforce simp: p)
  moreover have "distinct (concat (map snd ls))"
    using Cons.prems(1) by (intro Cons.IH Cons.prems(2)) auto
  ultimately show ?case using Cons.prems(2)[of x l] by (simp add: p)
qed simp

lemma DelShmRefRecordsByPid_cases:
  assumes "store_inv st" "DelShmRefRecordsByPid pid st = (ret, st')"
  obtains (fail) "ret = -1" "pid = 0" "st' = st"
  | (none) "ret = 0" "pid \<noteq> 0" "st' = st" "\<And>idx. mm_get (cachedRefShmIdxRecords st) idx pid = []"
  | (ok) js im pm where "ret = 0" "pid \<noteq> 0" "distinct js" "set js = (\<Union>idx. refs_in (shmRefAllocator st) idx pid)"
      "mm_ok im" "\<And>x y. mm_get im x y = (if y = pid then [] else mm_get (cachedRefShmIdxRecords st) x y)"
      "mm_ok pm" "\<And>x y. mm_get pm y x = (if y = pid then [] else mm_get (cachedRefShmIdxRecords st) x y)"
      "st' = st\<lparr>cachedRefShmIdxRecords := im, cachedRefShmPidRecords := pm,
         shmRefAllocator := fold release_ref js (shmRefAllocator st)\<rparr>"
proof -
  note D = store_refD[OF assms(1)]
  consider "pid = 0" | "pid \<noteq> 0" "map_of (cachedRefShmPidRecords st) pid = None"
    | inner where "pid \<noteq> 0" "map_of (cachedRefShmPidRecords st) pid = Some inner" by fastforce
  then show thesis
  proof cases
    case 1
    then show thesis using assms fail by (simp add: DelShmRefRecordsByPid_def)
  next
    case 2
    then show thesis
      using assms none D(1,5) mm_find_None[OF D(4), of pid] by (simp add: DelShmRefRecordsByPid_def)
  next
    case (3 inner)
    let ?js = "concat (map snd inner)"
    let ?im = "fold (\<lambda>(index, _). mm_drop index pid) inner (cachedRefShmIdxRecords st)"
    have inner: "vm_ok inner" "find_or_empty inner = mm_get (cachedRefShmPidRecords st) pid"
      using mm_ok_inner[OF D(4), of pid] 3(2) by (auto simp: find_or_empty_def mm_get_def)
    have entry: "(x, l) \<in> set inner \<longleftrightarrow> l \<noteq> [] \<and> l = mm_get (cachedRefShmIdxRecords st) x pid" for x l
      using vm_entries[OF inner(1)] inner(2) D(5) by metis
    have "distinct ?js"
    proof (rule distinct_keyed_concat[where key = "\<lambda>j. sr_shmImportIndex (recordAddress (shmRefAllocator st) j)"])
      show "distinct (map fst inner)" using inner(1) by (simp add: vm_ok_def)
      show "distinct l \<and> (\<forall>j\<in>set l. sr_shmImportIndex (recordAddress (shmRefAllocator st) j) = x)"
        if "(x, l) \<in> set inner" for x l
        using that D(6)[of x pid] D(7)[of x pid] by (auto simp: entry refs_in_def)
    qed
    moreover have "set ?js = (\<Union>idx. refs_in (shmRefAllocator st) idx pid)"
    proof -
      have "j \<in> set ?js \<longleftrightarrow> (\<exists>x l. (x, l) \<in> set inner \<and> j \<in> set l)" for j by force
      moreover have "(\<exists>x l. (x, l) \<in> set inner \<and> j \<in> set l) \<longleftrightarrow> (\<exists>x. j \<in> set (mm_get (cachedRefShmIdxRecords st) x pid))" for j
        unfolding entry by (metis list.set_cases list.distinct(1))
      ultimately show ?thesis unfolding D(7) by blast
    qed
    moreover have "mm_get ?im x y = (if y = pid then [] else mm_get (cachedRefShmIdxRecords st) x y)" for x y
    proof -
      have "x \<in> fst ` set inner \<longleftrightarrow> mm_get (cachedRefShmIdxRecords st) x pid \<noteq> []"
        using entry by force
      then show ?thesis using fold_mm_drop(2)[OF D(3), of pid inner x y] by auto
    qed
    moreover have "mm_get (erase pid (cachedRefShmPidRecords st)) y x =
        (if y = pid then [] else mm_get (cachedRefShmIdxRecords st) x y)" for x y
      using mm_erase_get(1)[OF D(4), of pid y x] D(5) by simp
    moreover have "mm_ok ?im" "mm_ok (erase pid (cachedRefShmPidRecords st))"
      using fold_mm_drop(1)[OF D(3)] mm_erase_get(2)[OF D(4)] by blast+
    moreover have "ret = 0" "st' = st\<lparr>cachedRefShmIdxRecords := ?im,
        cachedRefShmPidRecords := erase pid (cachedRefShmPidRecords st),
        shmRefAllocator := fold release_ref ?js (shmRefAllocator st)\<rparr>"
      using assms(2) D(1) 3 by (simp_all add: DelShmRefRecordsByPid_def)
    ultimately show thesis using ok[of ?js ?im "erase pid (cachedRefShmPidRecords st)"] 3(1) by blast
  qed
qed

lemma DelShmRefRecordsByPid_inv:
  assumes "store_inv st" "DelShmRefRecordsByPid pid st = (ret, st')"
  shows "store_inv st'"
proof -
  note D = store_refD[OF assms(1)]
  from assms show ?thesis
  proof (cases rule: DelShmRefRecordsByPid_cases)
    case (ok js im pm)
    have live: "\<forall>j\<in>set js. j < SHM_MAX_REFERENCE_RECORD \<and> \<not> MemShareRefIdle (recordAddress (shmRefAllocator st) j)"
      unfolding ok(4) by (auto simp: refs_in_def)
    note rm = release_many[OF D(2) ok(3) live, THEN conjunct1]
      release_many[OF D(2) ok(3) live, THEN conjunct2, rule_format]
    have "refs_in (shmRefAllocator st) x y - set js = (if y = pid then {} else refs_in (shmRefAllocator st) x y)" for x y
      unfolding ok(4) by (auto simp: refs_in_def)
    then show ?thesis
      unfolding ok(9)
      by (intro store_inv_ref_update[OF assms(1) rm(1) ok(5,7)])
        (auto simp: ok(6,8) D(6,7) rm(2) split: if_splits)
  qed (use assms(1) in simp_all)
qed

section \<open>Suspended clients and the sequence number\<close>

lemma suspend_update_inv:
  assumes "store_inv st" "suspend_inv s"
  shows "store_inv (st\<lparr>suspendClientArray := s\<rparr>)"
  using assms by (simp add: store_inv_defs)

lemma suspended_pids_add:
  "suspended_pids \<lparr>sc_count = sc_count s + 1, sc_pids = (sc_pids s)(sc_count s := pid)\<rparr> = suspended_pids s @ [pid]"
  by (simp add: suspended_pids_def)

lemma list_ex_suspended: "list_ex (\<lambda>i. sc_pids s i = pid) [0..<sc_count s] \<longleftrightarrow> pid \<in> set (suspended_pids s)"
  by (auto simp: suspended_pids_def list_ex_iff)

text \<open>Removing an element by moving the last one into its place.\<close>

lemma swap_remove_snoc:
  assumes "distinct (xs @ [z])" "i < length (xs @ [z])"
  shows "set (take (length xs) ((xs @ [z])[i := z])) = set (xs @ [z]) - {(xs @ [z]) ! i} \<and>
    distinct (take (length xs) ((xs @ [z])[i := z]))"
proof (cases "i < length xs")
  case True
  then have "take (length xs) ((xs @ [z])[i := z]) = xs[i := z]" by (simp add: list_update_append)
  moreover have "set (xs[i := z]) = insert z (set xs - {xs ! i})" "distinct (xs[i := z])"
    using assms True by (simp_all add: set_update_distinct distinct_list_update)
  ultimately show ?thesis
    using assms True by (auto simp: nth_append)
next
  case False
  then have "i = length xs" using assms(2) by simp
  then show ?thesis using assms(1) by auto
qed

lemma suspended_pids_del:
  assumes "distinct (suspended_pids s)" "i < sc_count s"
    "s' = \<lparr>sc_count = sc_count s - 1, sc_pids = (sc_pids s)(i := sc_pids s (sc_count s - 1))\<rparr>"
  shows "set (suspended_pids s') = set (suspended_pids s) - {sc_pids s i}" "distinct (suspended_pids s')"
proof -
  obtain k where k: "sc_count s = Suc k" using assms(2) by (cases "sc_count s") auto
  let ?xs = "map (sc_pids s) [0..<k]" and ?z = "sc_pids s k"
  have xs: "suspended_pids s = ?xs @ [?z]" by (simp add: suspended_pids_def k)
  have "suspended_pids s' = take (length ?xs) ((?xs @ [?z])[i := ?z])"
    using assms(2,3) k by (intro nth_equalityI) (auto simp: suspended_pids_def nth_list_update nth_append)
  moreover have "(?xs @ [?z]) ! i = sc_pids s i" using assms(2) k by (auto simp: nth_append less_Suc_eq)
  ultimately show "set (suspended_pids s') = set (suspended_pids s) - {sc_pids s i}" "distinct (suspended_pids s')"
    using swap_remove_snoc[of ?xs ?z i] assms(1,2) unfolding xs by (simp_all add: k)
qed

lemma AddSuspendClient_cases:
  assumes "store_inv st" "AddSuspendClient pid st = (ret, st')"
  obtains (fail) "ret \<noteq> 0" "st' = st" "sint pid \<le> 0 \<or> (pid \<notin> set (suspended_pids (suspendClientArray st)) \<and>
        length (suspended_pids (suspendClientArray st)) = MAX_SUSPEND_CLIENT)"
  | (old) "ret = 0" "st' = st" "0 < sint pid" "pid \<in> set (suspended_pids (suspendClientArray st))"
  | (ok) s where "ret = 0" "0 < sint pid" "pid \<notin> set (suspended_pids (suspendClientArray st))"
      "length (suspended_pids (suspendClientArray st)) < MAX_SUSPEND_CLIENT"
      "suspended_pids s = suspended_pids (suspendClientArray st) @ [pid]" "sc_count s \<le> MAX_SUSPEND_CLIENT"
      "st' = st\<lparr>suspendClientArray := s\<rparr>"
proof -
  let ?s = "suspendClientArray st"
  have I: "mapped st" "sc_count ?s \<le> MAX_SUSPEND_CLIENT" "length (suspended_pids ?s) = sc_count ?s"
    using assms(1) by (simp_all add: store_inv_def suspend_inv_def suspended_pids_def)
  consider "sint pid \<le> 0" | "0 < sint pid" "pid \<in> set (suspended_pids ?s)"
    | "0 < sint pid" "pid \<notin> set (suspended_pids ?s)" "sc_count ?s = MAX_SUSPEND_CLIENT"
    | "0 < sint pid" "pid \<notin> set (suspended_pids ?s)" "sc_count ?s < MAX_SUSPEND_CLIENT"
    using I(2) by fastforce
  then show thesis
  proof cases
    case 1
    then show thesis using assms(2) fail by (simp add: AddSuspendClient_def Let_def)
  next
    case 2
    then show thesis using assms(2) I old by (simp add: AddSuspendClient_def Let_def list_ex_suspended)
  next
    case 3
    then show thesis
      using assms(2) I fail list_ex_suspended[of ?s pid] by (simp add: AddSuspendClient_def Let_def)
  next
    case 4
    then show thesis
      using assms(2) I suspended_pids_add[of ?s pid]
      by (intro ok[of "\<lparr>sc_count = sc_count ?s + 1, sc_pids = (sc_pids ?s)(sc_count ?s := pid)\<rparr>"])
        (simp_all add: AddSuspendClient_def Let_def list_ex_suspended)
  qed
qed

lemma AddSuspendClient_inv:
  assumes "store_inv st" "AddSuspendClient pid st = (ret, st')"
  shows "store_inv st'"
  using assms
proof (cases rule: AddSuspendClient_cases)
  case (ok s)
  moreover have "suspend_inv (suspendClientArray st)" using assms(1) by (simp add: store_inv_def)
  ultimately show ?thesis
    unfolding ok(7) by (intro suspend_update_inv[OF assms(1)]) (simp add: suspend_inv_def)
qed (use assms(1) in simp_all)

lemma DelSuspendClient_cases:
  assumes "store_inv st" "DelSuspendClient pid st = (ret, st')"
  obtains (fail) "ret = -1" "st' = st" "sint pid \<le> 0"
  | (none) "ret = 0" "st' = st" "0 < sint pid" "pid \<notin> set (suspended_pids (suspendClientArray st))"
  | (ok) s where "ret = 0" "0 < sint pid"
      "set (suspended_pids s) = set (suspended_pids (suspendClientArray st)) - {pid}"
      "distinct (suspended_pids s)" "sc_count s \<le> MAX_SUSPEND_CLIENT"
      "st' = st\<lparr>suspendClientArray := s\<rparr>"
proof -
  let ?s = "suspendClientArray st"
  have I: "mapped st" "sc_count ?s \<le> MAX_SUSPEND_CLIENT" "distinct (suspended_pids ?s)"
    using assms(1) by (simp_all add: store_inv_def suspend_inv_def)
  show thesis
  proof (cases "sint pid \<le> 0")
    case True
    then show thesis using assms(2) fail by (simp add: DelSuspendClient_def Let_def)
  next
    case pos: False
    show thesis
    proof (cases "find (\<lambda>i. sc_pids ?s i = pid) [0..<sc_count ?s]")
      case None
      then have "pid \<notin> set (suspended_pids ?s)" by (auto simp: find_None_iff suspended_pids_def)
      then show thesis using assms(2) pos I none None by (simp add: DelSuspendClient_def Let_def)
    next
      case (Some i)
      then have i: "i < sc_count ?s" "sc_pids ?s i = pid" by (auto simp: find_Some_iff)
      let ?s' = "\<lparr>sc_count = sc_count ?s - 1, sc_pids = (sc_pids ?s)(i := sc_pids ?s (sc_count ?s - 1))\<rparr>"
      show thesis
        using assms(2) pos I Some suspended_pids_del[OF I(3) i(1) refl] i(2)
        by (intro ok[of ?s']) (simp_all add: DelSuspendClient_def Let_def)
    qed
  qed
qed

lemma DelSuspendClient_inv:
  assumes "store_inv st" "DelSuspendClient pid st = (ret, st')"
  shows "store_inv st'"
  using assms
proof (cases rule: DelSuspendClient_cases)
  case (ok s)
  moreover have "suspend_inv (suspendClientArray st)" using assms(1) by (simp add: store_inv_def)
  ultimately show ?thesis
    unfolding ok(6) by (intro suspend_update_inv[OF assms(1)]) (simp add: suspend_inv_def)
qed (use assms(1) in simp_all)

lemma GetCreateSeqNo_inv: "store_inv st \<Longrightarrow> store_inv (snd (GetCreateSeqNo st))"
  by (simp add: GetCreateSeqNo_def store_inv_defs)

end
