(* ===== verification/Record_Store_Spec.thy ===== *)
theory Record_Store_Spec
  imports Record_Store_Inv
begin

text \<open>
  What the record store promises its clients, as an abstract state of maps and one update per
  operation, and the proof that the store implements it: each method succeeds exactly when the
  abstract precondition holds and there is room, has exactly the abstract effect when it returns
  0 and none otherwise, and restarting the daemon on the shared-memory file changes nothing but
  to forget suspended clients that died.
\<close>

section \<open>Abstract store\<close>

record abs_store =
  as_regions :: "string \<rightharpoonup> CreateRegionInput"
  as_leases :: "string \<rightharpoonup> LeaseMallocInput \<times> LeaseMallocResult"
  as_imports :: "string \<rightharpoonup> ShareMemImportInfo"
  as_refs :: "string \<Rightarrow> u32 \<Rightarrow> nat"
  as_suspended :: "u32 set"

definition region_of :: "RegionRecord \<Rightarrow> nat \<Rightarrow> CreateRegionInput" where
  "region_of r e = region_info (rg_name r) r"

definition lease_of :: "MemLeaseRecord \<Rightarrow> nat \<times> u64 list \<Rightarrow> LeaseMallocInput \<times> LeaseMallocResult" where
  "lease_of r e = ConvertMemLease r (snd e)"

definition import_of :: "MemShareImportRecord \<Rightarrow> nat \<times> u64 list \<Rightarrow> ShareMemImportInfo" where
  "import_of r e = import_info (si_name r) r (snd e)"

definition ref_count :: "(string \<times> nat \<times> u64 list) list \<Rightarrow> (nat, u32, nat) mmap \<Rightarrow> string \<Rightarrow> u32 \<Rightarrow> nat" where
  "ref_count c m n pid = (case map_of c n of None \<Rightarrow> 0 | Some (i, _) \<Rightarrow> length (mm_get m i pid))"

abbreviation store_refs :: "record_store \<Rightarrow> string \<Rightarrow> u32 \<Rightarrow> nat" where
  "store_refs st \<equiv> ref_count (cachedImportShmRecords st) (cachedRefShmIdxRecords st)"

definition abs_of :: "record_store \<Rightarrow> abs_store" where
  "abs_of st = \<lparr>as_regions = region.view region_of (regionAllocator st) (cachedRegionRecords st),
     as_leases = lease.view lease_of (memLeaseAllocator st) (cachedLeaseRecords st),
     as_imports = shmimp.view import_of (shmImportAllocator st) (cachedImportShmRecords st),
     as_refs = store_refs st,
     as_suspended = set (suspended_pids (suspendClientArray st))\<rparr>"

text \<open>
  A region is listed with its nodes in ascending order and without repetition; a node has
  affinity when one of its occurrences in the input has.
\<close>

definition region_norm :: "CreateRegionInput \<Rightarrow> CreateRegionInput" where
  "region_norm input =
     (let ns = filter (\<lambda>n. n \<in> set (cri_nodeIds input)) [0..<REGION_NODE_BITMAP_COUNT] in
      input\<lparr>cri_nodeIds := ns,
            cri_affinity := map (\<lambda>n. \<exists>i<length (cri_nodeIds input).
              cri_nodeIds input ! i = n \<and> cri_affinity input ! i) ns\<rparr>)"

definition lease_new :: "LeaseMallocInput \<Rightarrow> LeaseMallocInput \<times> LeaseMallocResult" where
  "lease_new input = (input, \<lparr>lmr_memIds = [], lmr_numaId = - 1, lmr_unitSize = 0, lmr_slotId = 0\<rparr>)"

definition import_new :: "ShareMemImportInput \<Rightarrow> ShareMemImportInfo" where
  "import_new input = \<lparr>sii_name = smi_name input, sii_size = smi_size input,
     sii_appContext = \<lparr>app_pid = smi_pid input, app_uid = 0, app_gid = 0\<rparr>, sii_memIds = [],
     sii_unitSize = 0, sii_flag = 0, sii_oflag = 0, sii_state = PRE_ADD\<rparr>"

definition import_done :: "ShareMemImportResult \<Rightarrow> ShareMemImportInfo \<Rightarrow> ShareMemImportInfo" where
  "import_done res i = i\<lparr>sii_appContext := \<lparr>app_pid = app_pid (sii_appContext i),
       app_uid = smr_ownerUserId res, app_gid = smr_ownerGroupId res\<rparr>,
     sii_memIds := smr_memIds res, sii_unitSize := smr_unitSize res,
     sii_flag := smr_createFlags res, sii_oflag := smr_openFlag res, sii_state := FINISH\<rparr>"

section \<open>Operations\<close>

datatype store_op =
    OpAddRegion CreateRegionInput | OpDelRegion string
  | OpAddLease LeaseMallocInput | OpLeaseResult string LeaseMallocResult
  | OpLeaseState string RecordState | OpLeaseUpdate string AppContext u64 | OpDelLease string
  | OpAddImport ShareMemImportInput | OpImportResult string ShareMemImportResult
  | OpImportState string RecordState | OpDelImport string
  | OpAddRef u32 string | OpDelRef u32 string | OpDelRefs u32
  | OpSuspend u32 | OpResume u32

fun exec_op :: "store_op \<Rightarrow> record_store \<Rightarrow> store_result" where
  "exec_op (OpAddRegion input) st = AddRegionRecord input st"
| "exec_op (OpDelRegion n) st = DelRegionRecord n st"
| "exec_op (OpAddLease input) st = AddMemLeaseInput input st"
| "exec_op (OpLeaseResult n res) st = AddMemLeaseResult n res st"
| "exec_op (OpLeaseState n s) st = UpdateMemLeaseRecordState n s st"
| "exec_op (OpLeaseUpdate n ctx sz) st = UpdateMemLeaseRecord n ctx sz st"
| "exec_op (OpDelLease n) st = DelMemLeaseRecord n st"
| "exec_op (OpAddImport input) st = AddShmImportInput input st"
| "exec_op (OpImportResult n res) st = AddShmImportResult n res st"
| "exec_op (OpImportState n s) st = UpdateShmImportRecordState n s st"
| "exec_op (OpDelImport n) st = DelShmImportRecord n st"
| "exec_op (OpAddRef pid n) st = AddShmRefRecord pid n st"
| "exec_op (OpDelRef pid n) st = DelShmRefRecord pid n st"
| "exec_op (OpDelRefs pid) st = DelShmRefRecordsByPid pid st"
| "exec_op (OpSuspend pid) st = AddSuspendClient pid st"
| "exec_op (OpResume pid) st = DelSuspendClient pid st"

text \<open>The names a client may add: the store does not check them itself.\<close>

fun op_named :: "store_op \<Rightarrow> bool" where
  "op_named (OpAddRegion input) = good_name (cri_name input)"
| "op_named (OpAddLease input) = good_name (lmi_name input)"
| "op_named (OpAddImport input) = good_name (smi_name input)"
| "op_named _ = True"

fun op_pre :: "store_op \<Rightarrow> abs_store \<Rightarrow> bool" where
  "op_pre (OpAddRegion input) A \<longleftrightarrow> cri_name input \<notin> dom (as_regions A) \<and>
     (\<forall>n\<in>set (cri_nodeIds input). n < REGION_NODE_BITMAP_COUNT) \<and>
     length (cri_nodeIds input) = length (cri_affinity input)"
| "op_pre (OpDelRegion n) A \<longleftrightarrow> n \<in> dom (as_regions A)"
| "op_pre (OpAddLease input) A \<longleftrightarrow> lmi_name input \<notin> dom (as_leases A)"
| "op_pre (OpLeaseResult n res) A \<longleftrightarrow> n \<in> dom (as_leases A)"
| "op_pre (OpLeaseState n s) A \<longleftrightarrow> n \<in> dom (as_leases A)"
| "op_pre (OpLeaseUpdate n ctx sz) A \<longleftrightarrow> n \<in> dom (as_leases A)"
| "op_pre (OpDelLease n) A \<longleftrightarrow> n \<in> dom (as_leases A)"
| "op_pre (OpAddImport input) A \<longleftrightarrow> smi_name input \<notin> dom (as_imports A)"
| "op_pre (OpImportResult n res) A \<longleftrightarrow> n \<in> dom (as_imports A) \<and> length n < RECORD_NAME_SIZE"
| "op_pre (OpImportState n s) A \<longleftrightarrow> n \<in> dom (as_imports A)"
| "op_pre (OpDelImport n) A \<longleftrightarrow> n \<in> dom (as_imports A) \<and> (\<forall>pid. as_refs A n pid = 0)"
| "op_pre (OpAddRef pid n) A \<longleftrightarrow> pid \<noteq> 0 \<and> length n < RECORD_NAME_SIZE \<and> n \<in> dom (as_imports A)"
| "op_pre (OpDelRef pid n) A \<longleftrightarrow> pid \<noteq> 0 \<and> length n < RECORD_NAME_SIZE \<and> as_refs A n pid \<noteq> 0"
| "op_pre (OpDelRefs pid) A \<longleftrightarrow> pid \<noteq> 0"
| "op_pre (OpSuspend pid) A \<longleftrightarrow> 0 < sint pid \<and> (pid \<in> as_suspended A \<or> card (as_suspended A) < MAX_SUSPEND_CLIENT)"
| "op_pre (OpResume pid) A \<longleftrightarrow> 0 < sint pid"

text \<open>Free slots, and free lines of the id pool.\<close>

fun op_room :: "store_op \<Rightarrow> record_store \<Rightarrow> bool" where
  "op_room (OpAddRegion _) st \<longleftrightarrow> idleIndexes (regionAllocator st) \<noteq> []"
| "op_room (OpAddLease _) st \<longleftrightarrow> idleIndexes (memLeaseAllocator st) \<noteq> []"
| "op_room (OpAddImport _) st \<longleftrightarrow> idleIndexes (shmImportAllocator st) \<noteq> []"
| "op_room (OpAddRef _ _) st \<longleftrightarrow> idleIndexes (shmRefAllocator st) \<noteq> []"
| "op_room (OpLeaseResult _ res) st \<longleftrightarrow> lmr_memIds res \<noteq> [] \<and>
     length (lmr_memIds res) \<le> 63 * length (idleIdIndexes (poolAllocator st))"
| "op_room (OpImportResult _ res) st \<longleftrightarrow> smr_memIds res \<noteq> [] \<and>
     length (smr_memIds res) \<le> 63 * length (idleIdIndexes (poolAllocator st))"
| "op_room _ st \<longleftrightarrow> True"

fun abs_op :: "store_op \<Rightarrow> abs_store \<Rightarrow> abs_store" where
  "abs_op (OpAddRegion input) A = A\<lparr>as_regions := (as_regions A)(cri_name input \<mapsto> region_norm input)\<rparr>"
| "abs_op (OpDelRegion n) A = A\<lparr>as_regions := (as_regions A)(n := None)\<rparr>"
| "abs_op (OpAddLease input) A = A\<lparr>as_leases := (as_leases A)(lmi_name input \<mapsto> lease_new input)\<rparr>"
| "abs_op (OpLeaseResult n res) A =
     A\<lparr>as_leases := (as_leases A)(n := map_option (\<lambda>(i, r). (i\<lparr>lmi_state := FINISH\<rparr>, res)) (as_leases A n))\<rparr>"
| "abs_op (OpLeaseState n s) A =
     A\<lparr>as_leases := (as_leases A)(n := map_option (\<lambda>(i, r). (i\<lparr>lmi_state := s\<rparr>, r)) (as_leases A n))\<rparr>"
| "abs_op (OpLeaseUpdate n ctx sz) A =
     A\<lparr>as_leases := (as_leases A)(n := map_option (\<lambda>(i, r). (i\<lparr>lmi_appContext := ctx, lmi_size := sz\<rparr>, r))
        (as_leases A n))\<rparr>"
| "abs_op (OpDelLease n) A = A\<lparr>as_leases := (as_leases A)(n := None)\<rparr>"
| "abs_op (OpAddImport input) A = A\<lparr>as_imports := (as_imports A)(smi_name input \<mapsto> import_new input)\<rparr>"
| "abs_op (OpImportResult n res) A =
     A\<lparr>as_imports := (as_imports A)(n := map_option (import_done res) (as_imports A n))\<rparr>"
| "abs_op (OpImportState n s) A =
     A\<lparr>as_imports := (as_imports A)(n := map_option (\<lambda>i. i\<lparr>sii_state := s\<rparr>) (as_imports A n))\<rparr>"
| "abs_op (OpDelImport n) A = A\<lparr>as_imports := (as_imports A)(n := None)\<rparr>"
| "abs_op (OpAddRef pid n) A = A\<lparr>as_refs := (as_refs A)(n := (as_refs A n)(pid := Suc (as_refs A n pid)))\<rparr>"
| "abs_op (OpDelRef pid n) A = A\<lparr>as_refs := (as_refs A)(n := (as_refs A n)(pid := as_refs A n pid - 1))\<rparr>"
| "abs_op (OpDelRefs pid) A = A\<lparr>as_refs := (\<lambda>n. (as_refs A n)(pid := 0))\<rparr>"
| "abs_op (OpSuspend pid) A = A\<lparr>as_suspended := insert pid (as_suspended A)\<rparr>"
| "abs_op (OpResume pid) A = A\<lparr>as_suspended := as_suspended A - {pid}\<rparr>"

section \<open>When an operation succeeds\<close>

lemma dom_views:
  "n \<in> dom (as_regions (abs_of st)) \<longleftrightarrow> map_of (cachedRegionRecords st) n \<noteq> None"
  "n \<in> dom (as_leases (abs_of st)) \<longleftrightarrow> map_of (cachedLeaseRecords st) n \<noteq> None"
  "n \<in> dom (as_imports (abs_of st)) \<longleftrightarrow> map_of (cachedImportShmRecords st) n \<noteq> None"
  by (auto simp: abs_of_def region.view_def lease.view_def shmimp.view_def)

lemma refs_abs: "as_refs (abs_of st) = store_refs st"
  by (simp add: abs_of_def)

lemma suspended_abs: "as_suspended (abs_of st) = set (suspended_pids (suspendClientArray st))"
  by (simp add: abs_of_def)

lemma allocate_None: "Allocator_Allocate a = None \<longleftrightarrow> idleIndexes a = []"
  by (simp add: Allocator_Allocate_def)

lemma cached_name_nonempty:
  assumes "store_inv st"
  shows "map_of (cachedImportShmRecords st) n \<noteq> None \<Longrightarrow> n \<noteq> []"
  using shmimp.cached_entry[OF store_importD(3)[OF assms]] by blast

lemma pool_room: "store_inv st \<Longrightarrow>
    IdPool_Allocate ids (poolAllocator st) \<noteq> None \<longleftrightarrow>
    ids \<noteq> [] \<and> length ids \<le> 63 * length (idleIdIndexes (poolAllocator st))"
  using pool.owned_inv[OF store_importD(4)] pool_inv_attached allocate_iff by blast

lemma bad_node: "list_ex (\<lambda>n. (k :: nat) \<le> n) ns \<longleftrightarrow> \<not> (\<forall>n\<in>set ns. n < k)"
  by (auto simp: list_ex_iff not_less)

lemma region_ret:
  assumes "store_inv st" "good_name (cri_name input)"
  shows "fst (AddRegionRecord input st) = 0 \<longleftrightarrow>
    op_pre (OpAddRegion input) (abs_of st) \<and> op_room (OpAddRegion input) st"
  using assms
  by (auto simp: AddRegionRecord_def dom_views allocate_None[symmetric] bad_node store_inv_def Let_def
      split: option.splits prod.splits)

lemma lease_ret:
  assumes "store_inv st"
  shows "good_name (lmi_name input) \<Longrightarrow> fst (AddMemLeaseInput input st) = 0 \<longleftrightarrow>
      op_pre (OpAddLease input) (abs_of st) \<and> op_room (OpAddLease input) st"
    "fst (AddMemLeaseResult n res st) = 0 \<longleftrightarrow>
      op_pre (OpLeaseResult n res) (abs_of st) \<and> op_room (OpLeaseResult n res) st"
  using assms pool_room[OF assms, of "lmr_memIds res"]
  by (auto simp: AddMemLeaseInput_def AddMemLeaseResult_def dom_views allocate_None[symmetric] store_inv_def
      split: option.splits prod.splits)

lemma import_ret:
  assumes "store_inv st"
  shows "good_name (smi_name input) \<Longrightarrow> fst (AddShmImportInput input st) = 0 \<longleftrightarrow>
      op_pre (OpAddImport input) (abs_of st) \<and> op_room (OpAddImport input) st"
    "fst (AddShmImportResult n ires st) = 0 \<longleftrightarrow>
      op_pre (OpImportResult n ires) (abs_of st) \<and> op_room (OpImportResult n ires) st"
  using assms pool_room[OF assms, of "smr_memIds ires"]
  by (auto simp: AddShmImportInput_def AddShmImportResult_def dom_views allocate_None[symmetric] store_inv_def not_le
      split: option.splits prod.splits if_splits)

lemma del_import_ret:
  assumes "store_inv st"
  shows "fst (DelShmImportRecord n st) = 0 \<longleftrightarrow> op_pre (OpDelImport n) (abs_of st)"
proof (cases "map_of (cachedImportShmRecords st) n")
  case (Some e)
  obtain i ids where e: "e = (i, ids)" by (cases e)
  have "(\<forall>pid. store_refs st n pid = 0) \<longleftrightarrow> map_of (cachedRefShmIdxRecords st) i = None"
    using mm_find_None[OF store_importD(6)[OF assms], of i] Some e by (simp add: ref_count_def)
  then show ?thesis
    using assms Some e by (auto simp: DelShmImportRecord_def dom_views refs_abs store_inv_def Let_def)
qed (use assms in \<open>auto simp: DelShmImportRecord_def dom_views store_inv_def\<close>)

lemma ref_ret:
  assumes "store_inv st"
  shows "fst (AddShmRefRecord pid n st) = 0 \<longleftrightarrow> op_pre (OpAddRef pid n) (abs_of st) \<and> op_room (OpAddRef pid n) st"
    "fst (DelShmRefRecord pid n st) = 0 \<longleftrightarrow> op_pre (OpDelRef pid n) (abs_of st)"
    "fst (DelShmRefRecordsByPid pid st) = 0 \<longleftrightarrow> op_pre (OpDelRefs pid) (abs_of st)"
proof -
  show "fst (AddShmRefRecord pid n st) = 0 \<longleftrightarrow> op_pre (OpAddRef pid n) (abs_of st) \<and> op_room (OpAddRef pid n) st"
    using assms cached_name_nonempty[OF assms, of n]
    by (auto simp: AddShmRefRecord_def dom_views allocate_None[symmetric] store_inv_def not_le
        split: option.splits prod.splits if_splits)
  show "fst (DelShmRefRecordsByPid pid st) = 0 \<longleftrightarrow> op_pre (OpDelRefs pid) (abs_of st)"
    using assms by (auto simp: DelShmRefRecordsByPid_def store_inv_def split: option.splits)
  note D = store_refD[OF assms]
  show "fst (DelShmRefRecord pid n st) = 0 \<longleftrightarrow> op_pre (OpDelRef pid n) (abs_of st)"
  proof (cases "map_of (cachedImportShmRecords st) n")
    case (Some e)
    obtain i ids where e: "e = (i, ids)" by (cases e)
    show ?thesis
      using D(1,5) Some e cached_name_nonempty[OF assms, of n] mm_pop_get(2)[OF D(3), of i pid] mm_pop_get(2)[OF D(4), of pid i]
      by (auto simp: DelShmRefRecord_def refs_abs ref_count_def not_le split: prod.splits option.splits if_splits)
  qed (use D(1) in \<open>auto simp: DelShmRefRecord_def refs_abs ref_count_def\<close>)
qed

lemma suspend_ret:
  assumes "store_inv st"
  shows "fst (AddSuspendClient pid st) = 0 \<longleftrightarrow> op_pre (OpSuspend pid) (abs_of st)"
    "fst (DelSuspendClient pid st) = 0 \<longleftrightarrow> op_pre (OpResume pid) (abs_of st)"
proof -
  have d: "distinct (suspended_pids (suspendClientArray st))"
    using assms by (simp add: store_inv_def suspend_inv_def)
  obtain ret st' where e: "AddSuspendClient pid st = (ret, st')" by fastforce
  from assms e show "fst (AddSuspendClient pid st) = 0 \<longleftrightarrow> op_pre (OpSuspend pid) (abs_of st)"
    by (cases rule: AddSuspendClient_cases) (use d in \<open>auto simp: e suspended_abs distinct_card\<close>)
  obtain ret st' where e: "DelSuspendClient pid st = (ret, st')" by fastforce
  from assms e show "fst (DelSuspendClient pid st) = 0 \<longleftrightarrow> op_pre (OpResume pid) (abs_of st)"
    by (cases rule: DelSuspendClient_cases) (auto simp: e)
qed

lemma exec_ret:
  assumes "store_inv st" "op_named op"
  shows "fst (exec_op op st) = 0 \<longleftrightarrow> op_pre op (abs_of st) \<and> op_room op st"
proof (cases op)
  case (OpDelRegion n) then show ?thesis using assms
    by (auto simp: DelRegionRecord_def dom_views store_inv_def split: option.splits)
next
  case (OpDelLease n) then show ?thesis using assms
    by (auto simp: DelMemLeaseRecord_def dom_views store_inv_def Let_def split: option.splits)
next
  case (OpLeaseState n s) then show ?thesis using assms
    by (auto simp: UpdateMemLeaseRecordState_def dom_views store_inv_def split: option.splits)
next
  case (OpLeaseUpdate n c sz) then show ?thesis using assms
    by (auto simp: UpdateMemLeaseRecord_def dom_views store_inv_def split: option.splits)
next
  case (OpImportState n s) then show ?thesis using assms
    by (auto simp: UpdateShmImportRecordState_def dom_views store_inv_def split: option.splits)
qed (use assms in \<open>simp_all add: region_ret lease_ret import_ret del_import_ret ref_ret suspend_ret del: op_pre.simps\<close>)

section \<open>Effect of an operation\<close>

lemma record_eta [simp]:
  "\<lparr>lmr_memIds = lmr_memIds r, lmr_numaId = lmr_numaId r, lmr_unitSize = lmr_unitSize r, lmr_slotId = lmr_slotId r\<rparr> = r"
  "\<lparr>app_pid = app_pid c, app_uid = app_uid c, app_gid = app_gid c\<rparr> = c"
  by simp_all

lemma region_eff:
  assumes "store_inv st" "good_name (cri_name input)" "AddRegionRecord input st = (ret, st')"
  shows "abs_of st' = (if ret = 0 then abs_op (OpAddRegion input) (abs_of st) else abs_of st)"
proof -
  have I: "region.slots_inv (regionAllocator st)" "region.cached (regionAllocator st) (cachedRegionRecords st)"
    using assms(1) by (simp_all add: store_inv_defs)
  from assms show ?thesis
  proof (cases rule: AddRegionRecord_cases)
    case (dup i a' r)
    then show ?thesis by (simp add: abs_of_def region.view_put_idle[OF I(1) dup(3) I(2)])
  next
    case (ok i a' bm af)
    let ?r = "\<lparr>rg_name = cri_name input, rg_size = cri_size input, rg_bitmap = bm, rg_bitmapAffinity = af\<rparr>"
    have "region_of ?r i = region_norm input"
      using mark_then_list[OF ok(3,6)]
      by (simp add: region_of_def region_info_def region_norm_def Let_def comp_def)
    then show ?thesis
      using ok by (simp add: abs_of_def region.view_add[OF I(1) ok(2) I(2) ok(5)])
  qed simp
qed

lemma region_del_eff:
  assumes "store_inv st" "DelRegionRecord name st = (ret, st')"
  shows "abs_of st' = (if ret = 0 then abs_op (OpDelRegion name) (abs_of st) else abs_of st)"
proof -
  have I: "region.cached (regionAllocator st) (cachedRegionRecords st)" "mapped st"
    using assms(1) by (simp_all add: store_inv_defs)
  show ?thesis
    using assms(2) I region.view_del[OF I(1)]
    by (cases "map_of (cachedRegionRecords st) name") (auto simp: DelRegionRecord_def abs_of_def)
qed

lemma lease_of_new: "lease_of (lease_record_of input (lmi_name input)) (i, []) = lease_new input"
  by (simp add: lease_of_def ConvertMemLease_def lease_record_of_def lease_new_def)

lemma lease_add_eff:
  assumes "store_inv st" "good_name (lmi_name input)" "AddMemLeaseInput input st = (ret, st')"
  shows "abs_of st' = (if ret = 0 then abs_op (OpAddLease input) (abs_of st) else abs_of st)"
proof -
  note D = store_leaseD[OF assms(1)]
  from assms show ?thesis
  proof (cases rule: AddMemLeaseInput_cases)
    case (dup i a')
    then show ?thesis by (simp add: abs_of_def lease.view_put_idle[OF D(2) dup(2) D(3)])
  next
    case (ok i a')
    then show ?thesis
      by (simp add: abs_of_def lease.view_add[OF D(2) ok(2) D(3) ok(3)] lease_of_new)
  qed simp
qed

lemma lease_result_eff:
  assumes "store_inv st" "AddMemLeaseResult name res st = (ret, st')"
  shows "abs_of st' = (if ret = 0 then abs_op (OpLeaseResult name res) (abs_of st) else abs_of st)"
proof -
  note D = store_leaseD[OF assms(1)]
  from assms show ?thesis
  proof (cases rule: AddMemLeaseResult_cases)
    case (ok i ids h p r)
    have "as_leases (abs_of st) name = Some (lease_of (recordAddress (memLeaseAllocator st) i) (i, ids))"
      using ok(2) by (simp add: abs_of_def lease.view_def)
    moreover have "lease.view lease_of (put_record i r (memLeaseAllocator st))
        (assign name (i, lmr_memIds res) (cachedLeaseRecords st)) =
        (as_leases (abs_of st))(name \<mapsto> lease_of r (i, lmr_memIds res))"
      using lease.view_update[OF D(3) ok(2), of "(i, lmr_memIds res)"] by (simp add: abs_of_def)
    ultimately show ?thesis
      using ok by (simp add: abs_of_def lease_of_def ConvertMemLease_def)
  qed simp
qed

lemma lease_field_eff:
  assumes "store_inv st" "map_of (cachedLeaseRecords st) name = Some (i, ids)"
    "lease_of r (i, ids) = f (lease_of (recordAddress (memLeaseAllocator st) i) (i, ids))"
  shows "abs_of (st\<lparr>memLeaseAllocator := put_record i r (memLeaseAllocator st)\<rparr>) =
    (abs_of st)\<lparr>as_leases := (as_leases (abs_of st))(name := map_option f (as_leases (abs_of st) name))\<rparr>"
proof -
  note D = store_leaseD[OF assms(1)]
  have "as_leases (abs_of st) name = Some (lease_of (recordAddress (memLeaseAllocator st) i) (i, ids))"
    using assms(2) by (simp add: abs_of_def lease.view_def)
  then show ?thesis
    using lease.view_put[OF D(3) assms(2), of lease_of r] assms(3) by (simp add: abs_of_def)
qed

lemma lease_state_eff:
  assumes "store_inv st" "UpdateMemLeaseRecordState name s st = (ret, st')"
  shows "abs_of st' = (if ret = 0 then abs_op (OpLeaseState name s) (abs_of st) else abs_of st)"
proof (cases "map_of (cachedLeaseRecords st) name")
  case (Some e)
  then show ?thesis
    using assms lease_field_eff[OF assms(1), of name "fst e" "snd e" _ "\<lambda>(i, r). (i\<lparr>lmi_state := s\<rparr>, r)"]
    by (cases e) (auto simp: UpdateMemLeaseRecordState_def store_inv_def lease_of_def ConvertMemLease_def)
qed (use assms in \<open>auto simp: UpdateMemLeaseRecordState_def store_inv_def\<close>)

lemma lease_update_eff:
  assumes "store_inv st" "UpdateMemLeaseRecord name ctx sz st = (ret, st')"
  shows "abs_of st' = (if ret = 0 then abs_op (OpLeaseUpdate name ctx sz) (abs_of st) else abs_of st)"
proof (cases "map_of (cachedLeaseRecords st) name")
  case (Some e)
  then show ?thesis
    using assms lease_field_eff[OF assms(1), of name "fst e" "snd e" _
        "\<lambda>(i, r). (i\<lparr>lmi_appContext := ctx, lmi_size := sz\<rparr>, r)"]
    by (cases e) (auto simp: UpdateMemLeaseRecord_def store_inv_def lease_of_def ConvertMemLease_def)
qed (use assms in \<open>auto simp: UpdateMemLeaseRecord_def store_inv_def\<close>)

lemma lease_del_eff:
  assumes "store_inv st" "DelMemLeaseRecord name st = (ret, st')"
  shows "abs_of st' = (if ret = 0 then abs_op (OpDelLease name) (abs_of st) else abs_of st)"
proof -
  note D = store_leaseD[OF assms(1)]
  from assms show ?thesis
  proof (cases rule: DelMemLeaseRecord_cases)
    case (ok i ids p)
    then show ?thesis using lease.view_del[OF D(3) ok(2)] by (simp add: abs_of_def)
  qed simp
qed

lemma ref_count_name:
  "map_of (cachedImportShmRecords st) n = Some (i, ids) \<Longrightarrow>
   store_refs st n = (\<lambda>pid. length (mm_get (cachedRefShmIdxRecords st) i pid))"
  "map_of (cachedImportShmRecords st) n = None \<Longrightarrow> store_refs st n = (\<lambda>_. 0)"
  by (auto simp: ref_count_def)

lemma unref_slot:
  assumes "store_inv st" "Allocator_Allocate (shmImportAllocator st) = Some (i, a')"
  shows "mm_get (cachedRefShmIdxRecords st) i pid = []"
  using store_importD(7)[OF assms(1)] shmimp.allocate_slot(2)[OF store_importD(2)[OF assms(1)] assms(2)]
  unfolding ref_import_inv_def by blast

lemma import_add_eff:
  assumes "store_inv st" "good_name (smi_name input)" "AddShmImportInput input st = (ret, st')"
  shows "abs_of st' = (if ret = 0 then abs_op (OpAddImport input) (abs_of st) else abs_of st)"
proof -
  note D = store_importD[OF assms(1)]
  from assms show ?thesis
  proof (cases rule: AddShmImportInput_cases)
    case (dup i a')
    then show ?thesis by (simp add: abs_of_def shmimp.view_put_idle[OF D(2) dup(2) D(3)])
  next
    case (ok i a')
    have "import_of (import_record_of input (smi_name input)) (i, []) = import_new input"
      by (simp add: import_of_def import_info_def import_record_of_def import_new_def)
    moreover have "ref_count (emplace (smi_name input) (i, []) (cachedImportShmRecords st)) (cachedRefShmIdxRecords st)
        = store_refs st"
      using ok(3) unref_slot[OF assms(1) ok(2)]
      by (auto simp: ref_count_def fun_eq_iff map_of_emplace split: option.split)
    ultimately show ?thesis
      using ok by (simp add: abs_of_def shmimp.view_add[OF D(2) ok(2) D(3) ok(3)])
  qed simp
qed

lemma ref_count_assign:
  assumes "map_of (cachedImportShmRecords st) name = Some (i, ids)"
  shows "ref_count (assign name (i, ids') (cachedImportShmRecords st)) (cachedRefShmIdxRecords st) = store_refs st"
  using assms by (auto simp: ref_count_def fun_eq_iff map_of_assign split: option.split)

lemma import_result_eff:
  assumes "store_inv st" "AddShmImportResult name res st = (ret, st')"
  shows "abs_of st' = (if ret = 0 then abs_op (OpImportResult name res) (abs_of st) else abs_of st)"
proof -
  note D = store_importD[OF assms(1)]
  from assms show ?thesis
  proof (cases rule: AddShmImportResult_cases)
    case (ok i ids h p r)
    have "as_imports (abs_of st) name = Some (import_of (recordAddress (shmImportAllocator st) i) (i, ids))"
      using ok(2) by (simp add: abs_of_def shmimp.view_def)
    moreover have "shmimp.view import_of (put_record i r (shmImportAllocator st))
        (assign name (i, smr_memIds res) (cachedImportShmRecords st)) =
        (as_imports (abs_of st))(name \<mapsto> import_of r (i, smr_memIds res))"
      using shmimp.view_update[OF D(3) ok(2), of "(i, smr_memIds res)"] by (simp add: abs_of_def)
    ultimately show ?thesis
      using ok ref_count_assign[OF ok(2)] by (simp add: abs_of_def import_of_def import_info_def import_done_def)
  qed simp
qed

lemma import_state_eff:
  assumes "store_inv st" "UpdateShmImportRecordState name s st = (ret, st')"
  shows "abs_of st' = (if ret = 0 then abs_op (OpImportState name s) (abs_of st) else abs_of st)"
proof (cases "map_of (cachedImportShmRecords st) name")
  case (Some e)
  obtain i ids where e: "e = (i, ids)" by (cases e)
  have "as_imports (abs_of st) name = Some (import_of (recordAddress (shmImportAllocator st) i) (i, ids))"
    using Some e by (simp add: abs_of_def shmimp.view_def)
  then show ?thesis
    using assms Some e
      shmimp.view_put[OF store_importD(3)[OF assms(1)] Some, of import_of]
    by (auto simp: UpdateShmImportRecordState_def store_inv_def abs_of_def import_of_def import_info_def)
qed (use assms in \<open>auto simp: UpdateShmImportRecordState_def store_inv_def\<close>)

lemma import_del_eff:
  assumes "store_inv st" "DelShmImportRecord name st = (ret, st')"
  shows "abs_of st' = (if ret = 0 then abs_op (OpDelImport name) (abs_of st) else abs_of st)"
proof -
  note D = store_importD[OF assms(1)]
  from assms show ?thesis
  proof (cases rule: DelShmImportRecord_cases)
    case (ok i ids p)
    have "mm_get (cachedRefShmIdxRecords st) i pid = []" for pid
      using mm_find_None[OF D(6)] ok(3) by blast
    then have "ref_count (erase name (cachedImportShmRecords st)) (cachedRefShmIdxRecords st) = store_refs st"
      using ok(2) by (auto simp: ref_count_def fun_eq_iff map_of_erase split: option.split)
    then show ?thesis using ok shmimp.view_del[OF D(3) ok(2)] by (simp add: abs_of_def)
  qed simp_all
qed

text \<open>Two imports have different slots, so a change to the references of one slot is a change to
  the references of one name.\<close>

lemma ref_count_upd:
  assumes "store_inv st" "map_of (cachedImportShmRecords st) name = Some (i, ids)"
    "\<And>x y. mm_get im x y = (if x = i \<and> y = pid then l else mm_get (cachedRefShmIdxRecords st) x y)"
  shows "ref_count (cachedImportShmRecords st) (im) =
    (store_refs st)(name := (store_refs st name)(pid := length l))"
proof (intro ext)
  fix n y
  show "ref_count (cachedImportShmRecords st) (im) n y =
      ((store_refs st)(name := (store_refs st name)(pid := length l))) n y"
  proof (cases "map_of (cachedImportShmRecords st) n")
    case (Some e)
    obtain j ids' where e: "e = (j, ids')" by (cases e)
    have "j = i \<longleftrightarrow> n = name"
      using shmimp.cached_ix_inj[OF store_importD(3)[OF assms(1)] Some assms(2)] Some e assms(2) by auto
    then show ?thesis
      using Some e assms(2,3) by (auto simp: ref_count_def)
  qed (use assms(2) in \<open>auto simp: ref_count_def\<close>)
qed

lemma ref_add_eff:
  assumes "store_inv st" "AddShmRefRecord pid name st = (ret, st')"
  shows "abs_of st' = (if ret = 0 then abs_op (OpAddRef pid name) (abs_of st) else abs_of st)"
  using assms
proof (cases rule: AddShmRefRecord_cases)
  case (ok i ids j a')
  have "ref_count (cachedImportShmRecords st) (mm_push i pid j (cachedRefShmIdxRecords st)) =
      (store_refs st)(name := (store_refs st name)(pid := Suc (store_refs st name pid)))"
    using ref_count_upd[OF assms(1) ok(3), of _ pid "mm_get (cachedRefShmIdxRecords st) i pid @ [j]"]
      ref_count_name(1)[OF ok(3)] by (simp add: mm_push_get)
  then show ?thesis using ok by (simp add: abs_of_def)
qed simp

lemma ref_del_eff:
  assumes "store_inv st" "DelShmRefRecord pid name st = (ret, st')"
  shows "abs_of st' = (if ret = 0 then abs_op (OpDelRef pid name) (abs_of st) else abs_of st)"
proof -
  note D = store_refD[OF assms(1)]
  have pop: "ref_count (cachedImportShmRecords st) (fst (mm_pop i pid (cachedRefShmIdxRecords st))) =
      (store_refs st)(name := (store_refs st name)(pid := store_refs st name pid - 1))"
    if "map_of (cachedImportShmRecords st) name = Some (i, ids)" for i ids
    using ref_count_upd[OF assms(1) that, of _ pid "butlast (mm_get (cachedRefShmIdxRecords st) i pid)"]
      ref_count_name(1)[OF that] mm_pop_get(1)[OF D(3), of i pid] by simp
  from assms show ?thesis
  proof (cases rule: DelShmRefRecord_cases)
    case (none i ids)
    then have "store_refs st name pid = 0" by (simp add: ref_count_name(1))
    then show ?thesis using none pop[OF none(2)] by (simp add: abs_of_def fun_upd_idem)
  next
    case (ok i ids)
    then show ?thesis using pop[OF ok(2)] by (simp add: abs_of_def)
  qed simp
qed

lemma ref_del_pid_eff:
  assumes "store_inv st" "DelShmRefRecordsByPid pid st = (ret, st')"
  shows "abs_of st' = (if ret = 0 then abs_op (OpDelRefs pid) (abs_of st) else abs_of st)"
  using assms
proof (cases rule: DelShmRefRecordsByPid_cases)
  case none
  then have "(\<lambda>n. (store_refs st n)(pid := 0)) = store_refs st"
    by (auto simp: ref_count_def fun_eq_iff split: option.split)
  then show ?thesis using none by (simp add: abs_of_def)
next
  case (ok js im pm)
  have "ref_count (cachedImportShmRecords st) (im) = (\<lambda>n. (store_refs st n)(pid := 0))"
    by (auto simp: ref_count_def fun_eq_iff ok(6) split: option.split)
  then show ?thesis using ok(1,9) by (simp add: abs_of_def)
qed simp

lemma suspend_eff:
  assumes "store_inv st"
  shows "AddSuspendClient pid st = (ret, st') \<Longrightarrow>
      abs_of st' = (if ret = 0 then abs_op (OpSuspend pid) (abs_of st) else abs_of st)"
    "DelSuspendClient pid st = (ret, st') \<Longrightarrow>
      abs_of st' = (if ret = 0 then abs_op (OpResume pid) (abs_of st) else abs_of st)"
proof -
  assume "AddSuspendClient pid st = (ret, st')"
  with assms show "abs_of st' = (if ret = 0 then abs_op (OpSuspend pid) (abs_of st) else abs_of st)"
    by (cases rule: AddSuspendClient_cases) (simp_all add: abs_of_def insert_absorb)
next
  assume "DelSuspendClient pid st = (ret, st')"
  with assms show "abs_of st' = (if ret = 0 then abs_op (OpResume pid) (abs_of st) else abs_of st)"
    by (cases rule: DelSuspendClient_cases) (simp_all add: abs_of_def)
qed

lemmas exec_effs = region_eff region_del_eff lease_add_eff lease_result_eff lease_state_eff lease_update_eff
  lease_del_eff import_add_eff import_result_eff import_state_eff import_del_eff ref_add_eff ref_del_eff
  ref_del_pid_eff suspend_eff

lemmas exec_invs = AddRegionRecord_inv DelRegionRecord_inv AddMemLeaseInput_inv AddMemLeaseResult_inv
  UpdateMemLeaseRecordState_inv UpdateMemLeaseRecord_inv DelMemLeaseRecord_inv AddShmImportInput_inv
  AddShmImportResult_inv UpdateShmImportRecordState_inv DelShmImportRecord_inv AddShmRefRecord_inv
  DelShmRefRecord_inv DelShmRefRecordsByPid_inv AddSuspendClient_inv DelSuspendClient_inv

lemma exec_eff:
  assumes "store_inv st" "op_named op" "exec_op op st = (ret, st')"
  shows "abs_of st' = (if ret = 0 then abs_op op (abs_of st) else abs_of st)"
  using assms by (cases op) (simp_all add: exec_effs[OF assms(1)] del: abs_op.simps)

lemma exec_inv:
  assumes "store_inv st" "op_named op" "exec_op op st = (ret, st')"
  shows "store_inv st'"
  using assms by (cases op) (auto intro: exec_invs[OF assms(1)])

end
