(* ===== verification/Record_Store_Restart.thy ===== *)
theory Record_Store_Restart
  imports Record_Store_Spec
begin

text \<open>
  Crash recovery: a daemon that initialises its record store on the shared-memory file left by
  its predecessor holds the same abstract state.
\<close>

section \<open>Suspended clients\<close>

definition live_pid :: "(u32 \<Rightarrow> bool) \<Rightarrow> u32 \<Rightarrow> bool" where
  "live_pid alive p \<longleftrightarrow> 0 < sint p \<and> alive p"

lemma compact_prefix:
  assumes "fold (\<lambda>i (w, pids). if 0 < sint (pids i) \<and> alive (pids i) then (w + 1, pids(w := pids i)) else (w, pids))
      [0..<k] (0, p0) = (w, pids)"
  shows "map pids [0..<w] = filter (live_pid alive) (map p0 [0..<k]) \<and> w \<le> k \<and> (\<forall>i\<ge>k. pids i = p0 i)"
  using assms
proof (induction k arbitrary: w pids)
  case (Suc k)
  obtain w' pids' where IH: "fold (\<lambda>i (w, pids). if 0 < sint (pids i) \<and> alive (pids i) then (w + 1, pids(w := pids i)) else (w, pids))
      [0..<k] (0, p0) = (w', pids')" by fastforce
  note I = Suc.IH[OF IH]
  have "map (pids'(w' := x)) [0..<w'] = map pids' [0..<w']" for x by simp
  with I Suc.prems IH show ?case
    by (auto simp: live_pid_def split: if_splits)
qed simp

lemma compact_suspended:
  assumes "suspend_inv s"
  shows "suspended_pids (compact_suspended alive s) = filter (live_pid alive) (suspended_pids s)"
    "sc_count (compact_suspended alive s) \<le> MAX_SUSPEND_CLIENT"
proof -
  obtain w pids where e: "fold (\<lambda>i (w, pids). if 0 < sint (pids i) \<and> alive (pids i) then (w + 1, pids(w := pids i)) else (w, pids))
      [0..<sc_count s] (0, sc_pids s) = (w, pids)" by fastforce
  have "compact_suspended alive s = \<lparr>sc_count = w, sc_pids = pids\<rparr>"
    using assms e by (simp add: compact_suspended_def suspend_inv_def)
  then show "suspended_pids (compact_suspended alive s) = filter (live_pid alive) (suspended_pids s)"
    "sc_count (compact_suspended alive s) \<le> MAX_SUSPEND_CLIENT"
    using compact_prefix[OF e] assms by (auto simp: suspended_pids_def suspend_inv_def)
qed

lemma compact_inv: "suspend_inv s \<Longrightarrow> suspend_inv (compact_suspended alive s)"
  using compact_suspended[of s alive] by (auto simp: suspend_inv_def)

section \<open>The restore loops\<close>

definition lease_entry :: "id_pool \<Rightarrow> (nat \<Rightarrow> MemLeaseRecord) \<Rightarrow> nat \<Rightarrow> (nat \<times> u64 list) option" where
  "lease_entry p arr i =
     (if ml_memIdCount (arr i) \<noteq> 0 then map_option (Pair i) (IdPool_FillAllocated (ml_memIdBuffer (arr i)) p)
      else Some (i, []))"

definition import_entry :: "id_pool \<Rightarrow> (nat \<Rightarrow> MemShareImportRecord) \<Rightarrow> nat \<Rightarrow> (nat \<times> u64 list) option" where
  "import_entry p arr i =
     (if si_memIdCount (arr i) \<noteq> 0 then map_option (Pair i) (IdPool_FillAllocated (si_memIdBuffer (arr i)) p)
      else Some (i, []))"

lemma RestoreRegion_eq:
  assumes "cachedRegionRecords st = []" "Allocator_Restore REGION_MAX_RECORD RegionIdle (regionAllocator st) = (live, a)"
  shows "RestoreRegion st = st\<lparr>regionAllocator := a, cachedRegionRecords := region.restore_cache a Some live\<rparr>"
  using assms by (simp add: RestoreRegion_def region.restore_cache_def)

lemma RestoreMemLease_eq:
  assumes "cachedLeaseRecords st = []" "Allocator_Restore MEM_LEASE_MAX_RECORD MemLeaseIdle (memLeaseAllocator st) = (live, a)"
  shows "RestoreMemLease st = st\<lparr>memLeaseAllocator := a,
    cachedLeaseRecords := lease.restore_cache a (lease_entry (poolAllocator st) (recordAddress a)) live\<rparr>"
proof -
  have "(\<lambda>i c. let r = recordAddress a i in
       if ml_memIdCount r \<noteq> 0
       then (case IdPool_FillAllocated (ml_memIdBuffer r) (poolAllocator st) of
               None \<Rightarrow> c | Some ids \<Rightarrow> emplace (ml_name r) (i, ids) c)
       else emplace (ml_name r) (i, []) c) =
     (\<lambda>i c. case lease_entry (poolAllocator st) (recordAddress a) i of None \<Rightarrow> c
       | Some e \<Rightarrow> emplace (ml_name (recordAddress a i)) e c)"
    by (auto simp: fun_eq_iff lease_entry_def Let_def split: option.split)
  then show ?thesis
    using assms by (simp add: RestoreMemLease_def lease.restore_cache_def)
qed

lemma RestoreShmImport_eq:
  assumes "cachedImportShmRecords st = []"
    "Allocator_Restore SHM_MAX_ATTACH_RECORD MemShareImportIdle (shmImportAllocator st) = (live, a)"
  shows "RestoreShmImport st = st\<lparr>shmImportAllocator := a,
    cachedImportShmRecords := shmimp.restore_cache a (import_entry (poolAllocator st) (recordAddress a)) live\<rparr>"
proof -
  have "(\<lambda>i c. let r = recordAddress a i in
       if si_memIdCount r \<noteq> 0
       then (case IdPool_FillAllocated (si_memIdBuffer r) (poolAllocator st) of
               None \<Rightarrow> c | Some ids \<Rightarrow> emplace (si_name r) (i, ids) c)
       else emplace (si_name r) (i, []) c) =
     (\<lambda>i c. case import_entry (poolAllocator st) (recordAddress a) i of None \<Rightarrow> c
       | Some e \<Rightarrow> emplace (si_name (recordAddress a i)) e c)"
    by (auto simp: fun_eq_iff import_entry_def Let_def split: option.split)
  then show ?thesis
    using assms by (simp add: RestoreShmImport_def shmimp.restore_cache_def)
qed

section \<open>Restart\<close>

text \<open>An object whose caches are empty: a new one, or one after \<^verbatim>\<open>Destroy\<close>.\<close>

definition unmapped :: "record_store \<Rightarrow> bool" where
  "unmapped st \<longleftrightarrow> \<not> mapped st \<and> idleIdIndexes (poolAllocator st) = [] \<and> cachedRegionRecords st = [] \<and>
     cachedLeaseRecords st = [] \<and> cachedImportShmRecords st = [] \<and> cachedRefShmIdxRecords st = [] \<and>
     cachedRefShmPidRecords st = []"

lemma Destroy_unmapped: "store_inv st \<Longrightarrow> unmapped (RecordStore_Destroy st)"
  by (simp add: unmapped_def RecordStore_Destroy_def IdPool_Destroy_def store_inv_def)

lemma pool_reinit:
  assumes "pool.owned own p" "idleIdIndexes p0 = []"
  obtains p' where "IdPool_Initialize (Some (memIds p)) p0 = Some p'" "pool.owned own p'"
    "\<And>h. IdPool_FillAllocated h p' = IdPool_FillAllocated h p"
proof -
  obtain cs where L: "pool_layout p cs" using pool.owned_inv[OF assms(1)] by (auto simp: pool_inv_def)
  obtain p' where p': "IdPool_Initialize (Some (memIds p)) (IdPool_Destroy p) = Some p'"
    "pool_layout p' cs" "memIds p' = memIds p"
    using Initialize_layout[OF L] by blast
  have "IdPool_Initialize (Some (memIds p)) p0 = Some p'"
    using p'(1) assms(2) by (auto simp: IdPool_Initialize_def IdPool_Destroy_def)
  moreover have fill: "IdPool_FillAllocated h p' = IdPool_FillAllocated h p" for h
    using layout_fill_mem[OF L p'(2,3)] .
  moreover have "pool.owned own p'"
    using assms(1) p'(2) fill by (auto simp: pool.owned_def pool_inv_def)
  ultimately show thesis using that by blast
qed

lemma lease_entry_cached:
  assumes "store_inv st" "map_of (cachedLeaseRecords st) n = Some e"
    "\<And>h. IdPool_FillAllocated h p = IdPool_FillAllocated h (poolAllocator st)"
  shows "lease_entry p (recordAddress (memLeaseAllocator st)) (fst e) = Some e"
proof -
  note D = store_leaseD[OF assms(1)]
  obtain i ids where e: "e = (i, ids)" by (cases e)
  let ?r = "recordAddress (memLeaseAllocator st) i"
  have len: "ml_memIdCount ?r = length ids"
    using spec[OF store_lease_len[OF assms(1)], of n] assms(2) e by (simp add: lease.view_def)
  have "owners (lease_owners st) (import_owners st) (Inl n) =
      (if length ids = 0 then None else Some (ml_memIdBuffer ?r, ids))"
    using assms(2) e len by (simp add: owners_def lease.view_def lease_owns_def)
  then show ?thesis
    using pool.owned_fill[OF D(4), of "Inl n"] assms(3) e len by (auto simp: lease_entry_def split: if_splits)
qed

lemma import_entry_cached:
  assumes "store_inv st" "map_of (cachedImportShmRecords st) n = Some e"
    "\<And>h. IdPool_FillAllocated h p = IdPool_FillAllocated h (poolAllocator st)"
  shows "import_entry p (recordAddress (shmImportAllocator st)) (fst e) = Some e"
proof -
  note D = store_importD[OF assms(1)]
  obtain i ids where e: "e = (i, ids)" by (cases e)
  let ?r = "recordAddress (shmImportAllocator st) i"
  have len: "si_memIdCount ?r = length ids"
    using spec[OF D(5), of n] assms(2) e by (simp add: shmimp.view_def)
  have "owners (lease_owners st) (import_owners st) (Inr n) =
      (if length ids = 0 then None else Some (si_memIdBuffer ?r, ids))"
    using assms(2) e len by (simp add: owners_def shmimp.view_def import_owns_def)
  then show ?thesis
    using pool.owned_fill[OF D(4), of "Inr n"] assms(3) e len by (auto simp: import_entry_def split: if_splits)
qed

lemma refs_restored:
  assumes "recordAddress a0 = recordAddress a" "idleIndexes a0 = []"
    "Allocator_Restore SHM_MAX_REFERENCE_RECORD MemShareRefIdle a0 = (live, a')"
    "f = (\<lambda>j. sr_shmImportIndex (recordAddress a j))" "g = (\<lambda>j. sr_pid (recordAddress a j))"
  shows "shmref.slots_inv a'" "recordAddress a' = recordAddress a"
    "mm_get (fold (\<lambda>j. mm_push (f j) (g j) j) live []) idx pid = filter (\<lambda>j. f j = idx \<and> g j = pid) live"
    "mm_get (fold (\<lambda>j. mm_push (g j) (f j) j) live []) pid idx = filter (\<lambda>j. f j = idx \<and> g j = pid) live"
    "distinct (filter (\<lambda>j. f j = idx \<and> g j = pid) live)"
    "set (filter (\<lambda>j. f j = idx \<and> g j = pid) live) = refs_in a' idx pid"
proof -
  note r = shmref.restore_slots[OF assms(2), unfolded assms(3), simplified]
  show "shmref.slots_inv a'" "recordAddress a' = recordAddress a" using r(1,2) assms(1) by simp_all
  then show "set (filter (\<lambda>j. f j = idx \<and> g j = pid) live) = refs_in a' idx pid"
    using r(3) assms(1,4,5) by (auto simp: refs_in_def)
  show "distinct (filter (\<lambda>j. f j = idx \<and> g j = pid) live)" using r(5) by simp
  have "mm_get ([] :: (nat, u32, nat) mmap) x y = []" "mm_get ([] :: (u32, nat, nat) mmap) y x = []" for x y
    by (simp_all add: mm_get_def)
  then show "mm_get (fold (\<lambda>j. mm_push (f j) (g j) j) live []) idx pid = filter (\<lambda>j. f j = idx \<and> g j = pid) live"
    "mm_get (fold (\<lambda>j. mm_push (g j) (f j) j) live []) pid idx = filter (\<lambda>j. f j = idx \<and> g j = pid) live"
    unfolding fold_mm_push by (auto intro: filter_cong)
qed

text \<open>What \<^verbatim>\<open>Initialize\<close> computes on the file image of a correct store.\<close>

lemma Initialize_components:
  assumes "store_inv st" "unmapped st0" "0 \<le> fd"
    "RecordStore_Initialize alive fd True (Some (image_of st)) st0 = (ret, st')"
  shows "ret = 0" "mapped st'"
    "pool.owned (owners (lease_owners st) (import_owners st)) (poolAllocator st')"
    "region.slots_inv (regionAllocator st')" "recordAddress (regionAllocator st') = recordAddress (regionAllocator st)"
    "map_of (cachedRegionRecords st') = map_of (cachedRegionRecords st)"
    "region.cached (regionAllocator st') (cachedRegionRecords st')"
    "lease.slots_inv (memLeaseAllocator st')"
    "recordAddress (memLeaseAllocator st') = recordAddress (memLeaseAllocator st)"
    "map_of (cachedLeaseRecords st') = map_of (cachedLeaseRecords st)"
    "lease.cached (memLeaseAllocator st') (cachedLeaseRecords st')"
    "shmimp.slots_inv (shmImportAllocator st')"
    "recordAddress (shmImportAllocator st') = recordAddress (shmImportAllocator st)"
    "map_of (cachedImportShmRecords st') = map_of (cachedImportShmRecords st)"
    "shmimp.cached (shmImportAllocator st') (cachedImportShmRecords st')"
    "shmref.slots_inv (shmRefAllocator st')"
    "recordAddress (shmRefAllocator st') = recordAddress (shmRefAllocator st)"
    "mm_ok (cachedRefShmIdxRecords st')" "mm_ok (cachedRefShmPidRecords st')"
    "mm_get (cachedRefShmPidRecords st') pid idx = mm_get (cachedRefShmIdxRecords st') idx pid"
    "distinct (mm_get (cachedRefShmIdxRecords st') idx pid)"
    "set (mm_get (cachedRefShmIdxRecords st') idx pid) = refs_in (shmRefAllocator st') idx pid"
    "suspendClientArray st' = compact_suspended alive (suspendClientArray st)"
proof -
  obtain p where p: "IdPool_Initialize (Some (memIds (poolAllocator st))) (poolAllocator st0) = Some p"
    "pool.owned (owners (lease_owners st) (import_owners st)) p"
    "\<And>h. IdPool_FillAllocated h p = IdPool_FillAllocated h (poolAllocator st)"
    using pool_reinit[OF store_leaseD(4)[OF assms(1)]] assms(2) unfolding unmapped_def by blast
  define ra where "ra = \<lparr>recordAddress = recordAddress (regionAllocator st), idleIndexes = []\<rparr>"
  define la where "la = \<lparr>recordAddress = recordAddress (memLeaseAllocator st), idleIndexes = []\<rparr>"
  define ia where "ia = \<lparr>recordAddress = recordAddress (shmImportAllocator st), idleIndexes = []\<rparr>"
  define fa where "fa = \<lparr>recordAddress = recordAddress (shmRefAllocator st), idleIndexes = []\<rparr>"
  obtain rl ra' where r: "Allocator_Restore REGION_MAX_RECORD RegionIdle ra = (rl, ra')" by fastforce
  obtain ll la' where l: "Allocator_Restore MEM_LEASE_MAX_RECORD MemLeaseIdle la = (ll, la')" by fastforce
  obtain il ia' where i: "Allocator_Restore SHM_MAX_ATTACH_RECORD MemShareImportIdle ia = (il, ia')" by fastforce
  obtain fl fa' where f: "Allocator_Restore SHM_MAX_REFERENCE_RECORD MemShareRefIdle fa = (fl, fa')" by fastforce
  have I: "region.cached (regionAllocator st) (cachedRegionRecords st)"
    "lease.cached (memLeaseAllocator st) (cachedLeaseRecords st)"
    "shmimp.cached (shmImportAllocator st) (cachedImportShmRecords st)"
    using assms(1) by (simp_all add: store_inv_defs)
  have arrs: "recordAddress ra' = recordAddress (regionAllocator st)"
    "recordAddress la' = recordAddress (memLeaseAllocator st)"
    "recordAddress ia' = recordAddress (shmImportAllocator st)"
    "recordAddress fa' = recordAddress (shmRefAllocator st)"
    using r l i f by (auto simp: Allocator_Restore_def ra_def la_def ia_def fa_def)
  have mk: "map_of (cachedLeaseRecords st) n = Some e \<Longrightarrow> lease_entry p (recordAddress (memLeaseAllocator st)) (fst e) = Some e"
    "map_of (cachedImportShmRecords st) n = Some e \<Longrightarrow> import_entry p (recordAddress (shmImportAllocator st)) (fst e) = Some e"
    for n e using lease_entry_cached[OF assms(1)] import_entry_cached[OF assms(1)] p(3) by blast+
  let ?f = "\<lambda>j. sr_shmImportIndex (recordAddress fa' j)" and ?g = "\<lambda>j. sr_pid (recordAddress fa' j)"
  define st1 where "st1 = st0\<lparr>mapped := True, createSeqNo := createSeqNo st,
      suspendClientArray := compact_suspended alive (suspendClientArray st),
      regionAllocator := ra, memLeaseAllocator := la, shmImportAllocator := ia, shmRefAllocator := fa,
      poolAllocator := p\<rparr>"
  have st': "ret = 0" "st' = RecordStore_Restore st1"
    using assms(2-4) p(1)
    by (simp_all add: RecordStore_Initialize_def image_of_def unmapped_def st1_def ra_def la_def ia_def fa_def)
  have caches: "cachedRegionRecords st1 = []" "cachedLeaseRecords st1 = []" "cachedImportShmRecords st1 = []"
    "cachedRefShmIdxRecords st1 = []" "cachedRefShmPidRecords st1 = []"
    using assms(2) by (simp_all add: st1_def unmapped_def)
  have sel: "mapped st'" "poolAllocator st' = p"
      "suspendClientArray st' = compact_suspended alive (suspendClientArray st)"
      "regionAllocator st' = ra'" "memLeaseAllocator st' = la'" "shmImportAllocator st' = ia'" "shmRefAllocator st' = fa'"
      "cachedRegionRecords st' = region.restore_cache ra' Some rl"
      "cachedLeaseRecords st' = lease.restore_cache la' (lease_entry p (recordAddress la')) ll"
      "cachedImportShmRecords st' = shmimp.restore_cache ia' (import_entry p (recordAddress ia')) il"
      "cachedRefShmPidRecords st' = fold (\<lambda>j. mm_push (?g j) (?f j) j) fl []"
      "cachedRefShmIdxRecords st' = fold (\<lambda>j. mm_push (?f j) (?g j) j) fl []"
    using caches r l i f
    by (simp_all add: st'(2) RecordStore_Restore_def RestoreRegion_eq[where live = rl and a = ra']
        RestoreMemLease_eq[where live = ll and a = la'] RestoreShmImport_eq[where live = il and a = ia']
        RestoreShmReference_def st1_def)
  show "ret = 0" "mapped st'" "suspendClientArray st' = compact_suspended alive (suspendClientArray st)"
    "pool.owned (owners (lease_owners st) (import_owners st)) (poolAllocator st')"
    using st'(1) sel p(2) by simp_all
  show "region.slots_inv (regionAllocator st')" "recordAddress (regionAllocator st') = recordAddress (regionAllocator st)"
    "map_of (cachedRegionRecords st') = map_of (cachedRegionRecords st)"
    "region.cached (regionAllocator st') (cachedRegionRecords st')"
    unfolding sel using region.restore_all[OF I(1) _ _ r, of Some] by (simp_all add: ra_def)
  show "lease.slots_inv (memLeaseAllocator st')"
    "recordAddress (memLeaseAllocator st') = recordAddress (memLeaseAllocator st)"
    "map_of (cachedLeaseRecords st') = map_of (cachedLeaseRecords st)"
    "lease.cached (memLeaseAllocator st') (cachedLeaseRecords st')"
    unfolding sel arrs(2)
    using lease.restore_all[OF I(2) _ _ l, of "lease_entry p (recordAddress (memLeaseAllocator st))"] mk(1)
    by (simp_all add: la_def)
  show "shmimp.slots_inv (shmImportAllocator st')"
    "recordAddress (shmImportAllocator st') = recordAddress (shmImportAllocator st)"
    "map_of (cachedImportShmRecords st') = map_of (cachedImportShmRecords st)"
    "shmimp.cached (shmImportAllocator st') (cachedImportShmRecords st')"
    unfolding sel arrs(3)
    using shmimp.restore_all[OF I(3) _ _ i, of "import_entry p (recordAddress (shmImportAllocator st))"] mk(2)
    by (simp_all add: ia_def)
  note F = refs_restored[of fa fa', OF _ _ f refl refl]
  show "shmref.slots_inv (shmRefAllocator st')" "recordAddress (shmRefAllocator st') = recordAddress (shmRefAllocator st)"
    "mm_ok (cachedRefShmIdxRecords st')" "mm_ok (cachedRefShmPidRecords st')"
    "mm_get (cachedRefShmPidRecords st') pid idx = mm_get (cachedRefShmIdxRecords st') idx pid"
    "distinct (mm_get (cachedRefShmIdxRecords st') idx pid)"
    "set (mm_get (cachedRefShmIdxRecords st') idx pid) = refs_in (shmRefAllocator st') idx pid"
    unfolding sel using F arrs(4) fold_mm_push_ok[OF mm_ok_Nil] by (simp_all add: fa_def)
qed

lemma Initialize_inv:
  assumes "store_inv st" "unmapped st0" "0 \<le> fd"
    "RecordStore_Initialize alive fd True (Some (image_of st)) st0 = (ret, st')"
  shows "store_inv st'"
proof -
  note C = Initialize_components[OF assms]
  have v: "lease.view F (memLeaseAllocator st') (cachedLeaseRecords st') = lease.view F (memLeaseAllocator st) (cachedLeaseRecords st)"
    "shmimp.view G (shmImportAllocator st') (cachedImportShmRecords st') = shmimp.view G (shmImportAllocator st) (cachedImportShmRecords st)"
    for F :: "MemLeaseRecord \<Rightarrow> nat \<times> u64 list \<Rightarrow> 'v" and G :: "MemShareImportRecord \<Rightarrow> nat \<times> u64 list \<Rightarrow> 'v"
    using lease.view_cong[OF C(9,10)] shmimp.view_cong[OF C(13,14)] by blast+
  have refs: "refs_in (shmRefAllocator st') = refs_in (shmRefAllocator st)"
    using C(17) by (simp add: refs_in_def fun_eq_iff)
  have "mm_get (cachedRefShmIdxRecords st) x y \<noteq> []" if "mm_get (cachedRefShmIdxRecords st') x y \<noteq> []" for x y
    using that C(22)[of x y] store_refD(7)[OF assms(1), of x y] unfolding refs by (metis set_empty)
  then have "ref_import_inv st'"
    using store_importD(7)[OF assms(1)] C(13) unfolding ref_import_inv_def by metis
  moreover have "ids_inv st'"
    using assms(1) C(3) unfolding store_inv_def ids_inv_def v by simp
  moreover have "ref_inv st'" using C(16,18-22) unfolding ref_inv_def by simp
  moreover have "suspend_inv (suspendClientArray st')"
    using assms(1) C(23) compact_inv by (simp add: store_inv_def)
  ultimately show ?thesis
    using C by (simp add: store_inv_def region_inv_def lease_inv_def import_inv_def)
qed

lemma Initialize_abs:
  assumes "store_inv st" "unmapped st0" "0 \<le> fd"
    "RecordStore_Initialize alive fd True (Some (image_of st)) st0 = (ret, st')"
  shows "abs_of st' = (abs_of st)\<lparr>as_suspended := {p \<in> as_suspended (abs_of st). alive p}\<rparr>"
proof -
  note C = Initialize_components[OF assms]
  have "refs_in (shmRefAllocator st') = refs_in (shmRefAllocator st)"
    using C(17) by (simp add: refs_in_def fun_eq_iff)
  then have "length (mm_get (cachedRefShmIdxRecords st') x y) = length (mm_get (cachedRefShmIdxRecords st) x y)" for x y
    using C(21,22)[of x y] store_refD(6,7)[OF assms(1), of x y] by (metis distinct_card)
  then have "store_refs st' = store_refs st" using C(14) by (simp add: ref_count_def fun_eq_iff split: option.split)
  moreover have "suspend_inv (suspendClientArray st)" using assms(1) by (simp add: store_inv_def)
  then have "set (suspended_pids (suspendClientArray st')) = {p \<in> set (suspended_pids (suspendClientArray st)). alive p}"
    using compact_suspended(1)[of "suspendClientArray st" alive] unfolding C(23)
    by (auto simp: suspend_inv_def live_pid_def)
  ultimately show ?thesis
    by (simp add: abs_of_def region.view_cong[OF C(5,6)] lease.view_cong[OF C(9,10)] shmimp.view_cong[OF C(13,14)])
qed

section \<open>First boot and reachable states\<close>

definition idle_region :: RegionRecord where
  "idle_region = \<lparr>rg_name = [], rg_size = 0, rg_bitmap = zero_bitmap, rg_bitmapAffinity = zero_bitmap\<rparr>"

definition idle_lease :: MemLeaseRecord where
  "idle_lease = \<lparr>ml_name = [], ml_size = 0, ml_pid = 0, ml_uid = 0, ml_gid = 0, ml_fdMode = 0,
     ml_distance = 0, ml_numaId = 0, ml_unitSize = 0, ml_memIdCount = 0, ml_memIdBuffer = 0, ml_slotId = 0,
     ml_recordState = PRE_ADD\<rparr>"

definition idle_import :: MemShareImportRecord where
  "idle_import = \<lparr>si_name = [], si_shmSize = 0, si_pid = 0, si_uid = 0, si_gid = 0, si_unitSize = 0,
     si_memIdCount = 0, si_memIdBuffer = 0, si_flag = 0, si_oflag = 0, si_recordState = PRE_ADD\<rparr>"

definition idle_ref :: MemShareRefRecord where
  "idle_ref = \<lparr>sr_pid = 0, sr_shmImportIndex = 0\<rparr>"

text \<open>The zero-filled file of a first boot, the store over it, and a newly constructed object.\<close>

definition zero_image :: shm_image where
  "zero_image = \<lparr>img_regions = (\<lambda>_. idle_region), img_leases = (\<lambda>_. idle_lease),
     img_imports = (\<lambda>_. idle_import), img_refs = (\<lambda>_. idle_ref), img_memIds = (\<lambda>_ _. 0),
     img_seqNo = 0, img_suspend = \<lparr>sc_count = 0, sc_pids = (\<lambda>_. 0)\<rparr>\<rparr>"

definition empty_store :: record_store where
  "empty_store = \<lparr>mapped = True,
     regionAllocator = \<lparr>recordAddress = (\<lambda>_. idle_region), idleIndexes = [0..<REGION_MAX_RECORD]\<rparr>,
     memLeaseAllocator = \<lparr>recordAddress = (\<lambda>_. idle_lease), idleIndexes = [0..<MEM_LEASE_MAX_RECORD]\<rparr>,
     shmImportAllocator = \<lparr>recordAddress = (\<lambda>_. idle_import), idleIndexes = [0..<SHM_MAX_ATTACH_RECORD]\<rparr>,
     shmRefAllocator = \<lparr>recordAddress = (\<lambda>_. idle_ref), idleIndexes = [0..<SHM_MAX_REFERENCE_RECORD]\<rparr>,
     poolAllocator = fresh_pool, createSeqNo = 0,
     suspendClientArray = \<lparr>sc_count = 0, sc_pids = (\<lambda>_. 0)\<rparr>,
     cachedRegionRecords = [], cachedLeaseRecords = [], cachedImportShmRecords = [],
     cachedRefShmIdxRecords = [], cachedRefShmPidRecords = []\<rparr>"

definition new_store :: record_store where
  "new_store = empty_store\<lparr>mapped := False, poolAllocator := IdPool_Destroy fresh_pool\<rparr>"

lemma empty_store_image: "image_of empty_store = zero_image"
  by (simp add: image_of_def empty_store_def zero_image_def fresh_pool_def)

lemma new_store_unmapped: "unmapped new_store"
  by (simp add: unmapped_def new_store_def empty_store_def IdPool_Destroy_def)

lemma empty_store_inv: "store_inv empty_store"
proof -
  have "owners (\<lambda>_. None) (\<lambda>_. None) = Map.empty" by (auto simp: owners_def fun_eq_iff split: sum.split)
  then have own: "pool.owned (owners (\<lambda>_. None) (\<lambda>_. None)) fresh_pool"
    using fresh_pool_inv by (simp add: pool.owned_def)
  have nil: "lease.view F a [] = (\<lambda>_. None)" "shmimp.view G b [] = (\<lambda>_. None)"
    for F :: "MemLeaseRecord \<Rightarrow> nat \<times> u64 list \<Rightarrow> 'v" and G :: "MemShareImportRecord \<Rightarrow> nat \<times> u64 list \<Rightarrow> 'v" and a b
    by (auto simp: lease.view_def shmimp.view_def)
  show ?thesis
    using own
    by (auto simp: store_inv_defs nil empty_store_def region.slots_inv_def lease.slots_inv_def shmimp.slots_inv_def
        shmref.slots_inv_def region.cached_def lease.cached_def shmimp.cached_def
        RegionIdle_def MemLeaseIdle_def MemShareImportIdle_def MemShareRefIdle_def
        idle_region_def idle_lease_def idle_import_def idle_ref_def
        mm_get_def refs_in_def suspend_inv_def suspended_pids_def)
qed

text \<open>
  States of a daemon: boot on a zero-filled file, calls, and restarts, also after a crash, in any
  order.
\<close>

inductive reachable_store :: "record_store \<Rightarrow> bool" where
  boot: "0 \<le> fd \<Longrightarrow> RecordStore_Initialize alive fd True (Some zero_image) new_store = (ret, st) \<Longrightarrow>
    reachable_store st"
| call: "reachable_store st \<Longrightarrow> op_named op \<Longrightarrow> exec_op op st = (ret, st') \<Longrightarrow> reachable_store st'"
| seqno: "reachable_store st \<Longrightarrow> GetCreateSeqNo st = (n, st') \<Longrightarrow> reachable_store st'"
| restart: "reachable_store st \<Longrightarrow> 0 \<le> fd \<Longrightarrow>
    RecordStore_Initialize alive fd True (Some (image_of st)) new_store = (ret, st') \<Longrightarrow> reachable_store st'"

lemma reachable_inv: "reachable_store st \<Longrightarrow> store_inv st"
proof (induction rule: reachable_store.induct)
  case (boot fd alive ret st)
  then show ?case
    using Initialize_inv[OF empty_store_inv new_store_unmapped] by (simp add: empty_store_image)
next
  case (call st op ret st')
  then show ?case using exec_inv by blast
next
  case (seqno st n st')
  then show ?case using GetCreateSeqNo_inv by (metis snd_conv)
next
  case (restart st fd alive ret st')
  then show ?case using Initialize_inv[OF _ new_store_unmapped] by blast
qed

end
