(* ===== verification/Record_Store_Props.thy ===== *)
theory Record_Store_Props
  imports Record_Store_Restart
begin

text \<open>
  The properties of the record store, each over the states a daemon can reach
  (\<^const>\<open>reachable_store\<close>) or over the representation invariant \<^const>\<open>store_inv\<close>.
\<close>

section \<open>Lists and views\<close>

lemma set_ListRegionRecord:
  assumes "store_inv st"
  shows "set (ListRegionRecord st) = ran (as_regions (abs_of st))"
proof -
  have I: "region.cached (regionAllocator st) (cachedRegionRecords st)" using assms by (simp add: store_inv_defs)
  have "(\<lambda>(n, i). region_info n (recordAddress (regionAllocator st) i)) ` set (cachedRegionRecords st) =
      (\<lambda>(n, e). region_of (recordAddress (regionAllocator st) e) e) ` set (cachedRegionRecords st)"
    using region.cached_member[OF I] by (intro image_cong) (auto simp: region_of_def)
  then show ?thesis
    using region.ran_view[OF I, of region_of] by (simp add: ListRegionRecord_def abs_of_def)
qed

lemma set_ListMemLeaseRecord:
  assumes "store_inv st"
  shows "set (ListMemLeaseRecord st) = ran (as_leases (abs_of st))"
proof -
  have "(\<lambda>(_, i, ids). ConvertMemLease (recordAddress (memLeaseAllocator st) i) ids) ` set (cachedLeaseRecords st) =
      (\<lambda>(n, e). lease_of (recordAddress (memLeaseAllocator st) (fst e)) e) ` set (cachedLeaseRecords st)"
    by (intro image_cong) (auto simp: lease_of_def)
  then show ?thesis
    using lease.ran_view[OF store_leaseD(3)[OF assms], of lease_of] store_leaseD(1)[OF assms]
    by (simp add: ListMemLeaseRecord_def abs_of_def)
qed

lemma set_ListShmImportRecord:
  assumes "store_inv st"
  shows "set (ListShmImportRecord st) = ran (as_imports (abs_of st))"
proof -
  have "(\<lambda>(n, i, ids). import_info n (recordAddress (shmImportAllocator st) i) ids) ` set (cachedImportShmRecords st) =
      (\<lambda>(n, e). import_of (recordAddress (shmImportAllocator st) (fst e)) e) ` set (cachedImportShmRecords st)"
    using shmimp.cached_member[OF store_importD(3)[OF assms]] by (intro image_cong) (fastforce simp: import_of_def)+
  then show ?thesis
    using shmimp.ran_view[OF store_importD(3)[OF assms], of import_of] store_importD(1)[OF assms]
    by (simp add: ListShmImportRecord_def abs_of_def)
qed

section \<open>Counting references\<close>

definition count_at :: "('a \<times> ('b \<times> nat) list) list \<Rightarrow> 'a \<Rightarrow> 'b \<Rightarrow> nat" where
  "count_at m a b = (case map_of (find_or_empty m a) b of None \<Rightarrow> 0 | Some c \<Rightarrow> c)"

lemma count_at_add:
  "count_at (add_count a b n m) x y = count_at m x y + (if x = a \<and> y = b then n else 0)"
  by (auto simp: count_at_def add_count_def Let_def map_of_assign)

lemma count_at_fold:
  "count_at (fold (\<lambda>(a, b, n). add_count a b n) ts m) x y =
   count_at m x y + sum_list (map (\<lambda>(a, b, n). if x = a \<and> y = b then n else 0) ts)"
  by (induction ts arbitrary: m) (auto simp: count_at_add)

text \<open>The entries of a two-level map, flattened.\<close>

definition mm_entries :: "('a, 'b, 'v) mmap \<Rightarrow> ('a \<times> 'b \<times> nat) list" where
  "mm_entries m = concat (map (\<lambda>(a, inner). map (\<lambda>(b, vs). (a, b, length vs)) inner) m)"

lemma fold_nested:
  "fold (\<lambda>(a, inner). fold (\<lambda>(b, vs). g a b (length vs)) inner) m s =
   fold (\<lambda>(a, b, n). g a b n) (mm_entries m) s"
proof (induction m arbitrary: s)
  case (Cons p m)
  have E: "fold (\<lambda>(b, vs). g a b (length vs)) inner s =
      fold (\<lambda>(a, b, n). g a b n) (map (\<lambda>(b, vs). (a, b, length vs)) inner) s" for a inner s
    by (induction inner arbitrary: s) auto
  obtain a inner where p: "p = (a, inner)" by (cases p)
  show ?case
    using Cons.IH[of "fold (\<lambda>(b, vs). g a b (length vs)) inner s"] E[of a inner s]
    by (simp only: p fold.simps comp_def split_conv mm_entries_def list.map concat.simps fold_append)
qed (simp add: mm_entries_def)

text \<open>Summing over the only entry whose key satisfies a predicate.\<close>

lemma sum_only:
  "distinct (map fst m) \<Longrightarrow> (\<And>a. a \<in> fst ` set m \<Longrightarrow> P a \<longleftrightarrow> ao = Some a) \<Longrightarrow>
   sum_list (map (\<lambda>(a, i). if P a then F i else 0) m) =
     (case ao of None \<Rightarrow> 0 | Some a \<Rightarrow> (case map_of m a of None \<Rightarrow> 0 | Some i \<Rightarrow> F i))"
proof (induction m)
  case Nil
  then show ?case by (cases ao) auto
next
  case (Cons p m)
  obtain a i where p: "p = (a, i)" by (cases p)
  have IH: "sum_list (map (\<lambda>(a, i). if P a then F i else 0) m) =
      (case ao of None \<Rightarrow> 0 | Some a \<Rightarrow> (case map_of m a of None \<Rightarrow> 0 | Some i \<Rightarrow> F i))"
    using Cons.prems by (intro Cons.IH) auto
  have "P a \<longleftrightarrow> ao = Some a" using Cons.prems(2)[of a] by (simp add: p)
  moreover have "map_of m a = None" using Cons.prems(1) by (simp add: p map_of_eq_None_iff)
  ultimately show ?case using IH by (cases ao) (auto simp: p)
qed

definition get_opt :: "('a, 'b, 'v) mmap \<Rightarrow> 'a option \<Rightarrow> 'b option \<Rightarrow> 'v list" where
  "get_opt m ao bo = (case (ao, bo) of (Some a, Some b) \<Rightarrow> mm_get m a b | _ \<Rightarrow> [])"

lemma mm_key: "mm_ok m \<Longrightarrow> a \<in> fst ` set m \<longleftrightarrow> map_of m a \<noteq> None"
  by (simp add: map_of_eq_None_iff)

lemma sum_entries:
  assumes "mm_ok m" "\<And>a b. mm_get m a b \<noteq> [] \<Longrightarrow> (P a \<longleftrightarrow> ao = Some a) \<and> (Q b \<longleftrightarrow> bo = Some b)"
  shows "sum_list (map (\<lambda>(a, b, n). if P a \<and> Q b then n else 0) (mm_entries m)) = length (get_opt m ao bo)"
proof -
  let ?S = "\<lambda>i. sum_list (map (\<lambda>(b, vs). if Q b then length vs else 0) i)"
  have E: "sum_list (map (\<lambda>(a, b, n). if P a \<and> Q b then n else 0) (map (\<lambda>(b, vs). (a, b, length vs)) i)) =
      (if P a then ?S i else 0)" for a i
    by (induction i) auto
  have "sum_list (map (\<lambda>(a, b, n). if P a \<and> Q b then n else 0) (mm_entries m)) =
      sum_list (map (\<lambda>(a, i). if P a then ?S i else 0) m)"
    unfolding mm_entries_def
  proof (induction m)
    case (Cons p m)
    then show ?case using E[of "fst p" "snd p"] by (cases p) (simp del: map_map)
  qed simp
  also have "\<dots> = (case ao of None \<Rightarrow> 0 | Some a \<Rightarrow> (case map_of m a of None \<Rightarrow> 0 | Some i \<Rightarrow> ?S i))"
  proof (rule sum_only)
    show "distinct (map fst m)" using assms(1) by (simp add: mm_ok_def vm_ok_def)
    show "P a \<longleftrightarrow> ao = Some a" if "a \<in> fst ` set m" for a
      using that assms(2)[of a] mm_find_None[OF assms(1)] by (auto simp: mm_key[OF assms(1)])
  qed
  also have "\<dots> = length (get_opt m ao bo)"
  proof (cases "\<exists>a i. ao = Some a \<and> map_of m a = Some i")
    case True
    then obtain a i where a: "ao = Some a" "map_of m a = Some i" by blast
    then have i: "vm_ok i" "find_or_empty i = mm_get m a"
      using assms(1) by (auto simp: mm_ok_def mm_get_def find_or_empty_def)
    have "?S i = (case bo of None \<Rightarrow> 0 | Some b \<Rightarrow> (case map_of i b of None \<Rightarrow> 0 | Some vs \<Rightarrow> length vs))"
    proof (rule sum_only)
      show "distinct (map fst i)" using i(1) by (simp add: vm_ok_def)
      show "Q b \<longleftrightarrow> bo = Some b" if "b \<in> fst ` set i" for b
        using that assms(2)[of a b] vm_find_None[OF i(1), of b] i(2) by (auto simp: map_of_eq_None_iff)
    qed
    then show ?thesis
      using a i(2) by (auto simp: get_opt_def find_or_empty_def fun_eq_iff split: option.splits)
        (metis option.simps(4,5) list.size(3))+
  next
    case False
    then show ?thesis
      by (auto simp: get_opt_def mm_get_def find_or_empty_def split: option.splits)
  qed
  finally show ?thesis .
qed

lemma ref_slot_name:
  assumes "store_inv st" "mm_get (cachedRefShmIdxRecords st) idx pid \<noteq> []"
  shows "n = si_name (recordAddress (shmImportAllocator st) idx) \<longleftrightarrow>
    map_option fst (map_of (cachedImportShmRecords st) n) = Some idx"
proof -
  note D = store_importD[OF assms(1)]
  have live: "idx < SHM_MAX_ATTACH_RECORD" "\<not> MemShareImportIdle (recordAddress (shmImportAllocator st) idx)"
    using D(7) assms(2) unfolding ref_import_inv_def by blast+
  then obtain e where "map_of (cachedImportShmRecords st) (si_name (recordAddress (shmImportAllocator st) idx)) = Some e"
    "fst e = idx" using shmimp.cached_live[OF D(3)] by blast
  then show ?thesis using shmimp.cached_entry[OF D(3), of n] by (cases e) auto
qed

lemma ref_named:
  assumes "store_inv st" "mm_get (cachedRefShmIdxRecords st) idx pid \<noteq> []"
  obtains n ids where "map_of (cachedImportShmRecords st) n = Some (idx, ids)" "0 < store_refs st n pid"
proof -
  have "map_option fst (map_of (cachedImportShmRecords st) (si_name (recordAddress (shmImportAllocator st) idx))) = Some idx"
    using ref_slot_name[OF assms] by blast
  then show thesis using that assms(2) by (auto simp: ref_count_def)
qed

lemma NameF_count:
  assumes "store_inv st"
  shows "count_at (ListShmRefRecordNameF st) n pid = store_refs st n pid"
proof -
  note D = store_refD[OF assms]
  let ?nm = "\<lambda>a. si_name (recordAddress (shmImportAllocator st) a)"
  have "ListShmRefRecordNameF st = fold (\<lambda>(a, b, k). add_count (?nm a) b k) (mm_entries (cachedRefShmIdxRecords st)) []"
    using D(1) fold_nested[of "\<lambda>a. add_count (?nm a)"] by (simp add: ListShmRefRecordNameF_def)
  also have "\<dots> = fold (\<lambda>(a, b, k). add_count a b k)
      (map (\<lambda>(a, b, k). (?nm a, b, k)) (mm_entries (cachedRefShmIdxRecords st))) []"
    unfolding fold_map by (intro arg_cong2[where f = "\<lambda>f xs. fold f xs []"]) auto
  finally have L: "ListShmRefRecordNameF st = fold (\<lambda>(a, b, k). add_count a b k)
      (map (\<lambda>(a, b, k). (?nm a, b, k)) (mm_entries (cachedRefShmIdxRecords st))) []" .
  have "count_at (ListShmRefRecordNameF st) n pid =
      sum_list (map (\<lambda>(a, b, k). if n = ?nm a \<and> pid = b then k else 0) (mm_entries (cachedRefShmIdxRecords st)))"
    unfolding L count_at_fold map_map
    by (auto simp: count_at_def find_or_empty_def intro!: arg_cong[where f = sum_list] map_cong)
  also have "\<dots> = length (get_opt (cachedRefShmIdxRecords st)
      (map_option fst (map_of (cachedImportShmRecords st) n)) (Some pid))"
    using ref_slot_name[OF assms] by (intro sum_entries[OF D(3)]) auto
  also have "\<dots> = store_refs st n pid"
    by (auto simp: get_opt_def ref_count_def split: option.splits)
  finally show ?thesis .
qed

lemma PidF_count:
  assumes "store_inv st"
  shows "count_at (ListShmRefRecordPidF st) pid n = store_refs st n pid"
proof -
  note D = store_refD[OF assms]
  let ?nm = "\<lambda>a. si_name (recordAddress (shmImportAllocator st) a)"
  have "ListShmRefRecordPidF st = fold (\<lambda>(a, b, k). add_count a (?nm b) k) (mm_entries (cachedRefShmPidRecords st)) []"
    using D(1) fold_nested[of "\<lambda>a b. add_count a (?nm b)"] by (simp add: ListShmRefRecordPidF_def)
  also have "\<dots> = fold (\<lambda>(a, b, k). add_count a b k)
      (map (\<lambda>(a, b, k). (a, ?nm b, k)) (mm_entries (cachedRefShmPidRecords st))) []"
    unfolding fold_map by (intro arg_cong2[where f = "\<lambda>f xs. fold f xs []"]) auto
  finally have L: "ListShmRefRecordPidF st = fold (\<lambda>(a, b, k). add_count a b k)
      (map (\<lambda>(a, b, k). (a, ?nm b, k)) (mm_entries (cachedRefShmPidRecords st))) []" .
  have "count_at (ListShmRefRecordPidF st) pid n =
      sum_list (map (\<lambda>(a, b, k). if pid = a \<and> n = ?nm b then k else 0) (mm_entries (cachedRefShmPidRecords st)))"
    unfolding L count_at_fold map_map
    by (auto simp: count_at_def find_or_empty_def intro!: arg_cong[where f = sum_list] map_cong)
  also have "\<dots> = length (get_opt (cachedRefShmPidRecords st) (Some pid)
      (map_option fst (map_of (cachedImportShmRecords st) n)))"
    using ref_slot_name[OF assms] by (intro sum_entries[OF D(4)]) (auto simp: D(5))
  also have "\<dots> = store_refs st n pid"
    by (auto simp: get_opt_def ref_count_def D(5) split: option.splits)
  finally show ?thesis .
qed

section \<open>A first boot\<close>

definition booted_store :: record_store where
  "booted_store = snd (RecordStore_Initialize (\<lambda>_. True) 3 True (Some zero_image) new_store)"

lemma booted_reachable: "reachable_store booted_store"
  unfolding booted_store_def
  by (rule reachable_store.boot[of 3 "\<lambda>_. True"
        "fst (RecordStore_Initialize (\<lambda>_. True) 3 True (Some zero_image) new_store)"]) simp_all

lemma empty_store_abs: "abs_of empty_store = \<lparr>as_regions = Map.empty, as_leases = Map.empty,
    as_imports = Map.empty, as_refs = (\<lambda>_ _. 0), as_suspended = {}\<rparr>"
  by (simp add: abs_of_def empty_store_def region.view_def lease.view_def shmimp.view_def ref_count_def
      suspended_pids_def fun_eq_iff)

lemma booted_abs: "abs_of booted_store = \<lparr>as_regions = Map.empty, as_leases = Map.empty,
    as_imports = Map.empty, as_refs = (\<lambda>_ _. 0), as_suspended = {}\<rparr>"
  using Initialize_abs[OF empty_store_inv new_store_unmapped, of 3 "\<lambda>_. True"
        "fst (RecordStore_Initialize (\<lambda>_. True) 3 True (Some zero_image) new_store)" booted_store]
  by (simp add: booted_store_def empty_store_image empty_store_abs)

lemma capacity:
  assumes "store_inv st"
  shows "idleIndexes (regionAllocator st) \<noteq> [] \<longleftrightarrow> card (dom (as_regions (abs_of st))) < REGION_MAX_RECORD"
    "idleIndexes (memLeaseAllocator st) \<noteq> [] \<longleftrightarrow> card (dom (as_leases (abs_of st))) < MEM_LEASE_MAX_RECORD"
    "idleIndexes (shmImportAllocator st) \<noteq> [] \<longleftrightarrow> card (dom (as_imports (abs_of st))) < SHM_MAX_ATTACH_RECORD"
proof -
  have d: "dom (as_regions (abs_of st)) = dom (map_of (cachedRegionRecords st))"
    "dom (as_leases (abs_of st)) = dom (map_of (cachedLeaseRecords st))"
    "dom (as_imports (abs_of st)) = dom (map_of (cachedImportShmRecords st))"
    using dom_views[of _ st] by blast+
  have r: "region.slots_inv (regionAllocator st)" "region.cached (regionAllocator st) (cachedRegionRecords st)"
    using assms by (simp_all add: store_inv_defs)
  show "idleIndexes (regionAllocator st) \<noteq> [] \<longleftrightarrow> card (dom (as_regions (abs_of st))) < REGION_MAX_RECORD"
    using region.slots_count[OF r] unfolding d(1) by (cases "idleIndexes (regionAllocator st)") auto
  show "idleIndexes (memLeaseAllocator st) \<noteq> [] \<longleftrightarrow> card (dom (as_leases (abs_of st))) < MEM_LEASE_MAX_RECORD"
    using lease.slots_count[OF store_leaseD(2,3)[OF assms]] unfolding d(2)
    by (cases "idleIndexes (memLeaseAllocator st)") auto
  show "idleIndexes (shmImportAllocator st) \<noteq> [] \<longleftrightarrow> card (dom (as_imports (abs_of st))) < SHM_MAX_ATTACH_RECORD"
    using shmimp.slots_count[OF store_importD(2,3)[OF assms]] unfolding d(3)
    by (cases "idleIndexes (shmImportAllocator st)") auto
qed

definition region_r1 :: CreateRegionInput where
  "region_r1 = \<lparr>cri_name = ''r1'', cri_size = 4096, cri_nodeIds = [3, 1, 3], cri_affinity = [False, True, True]\<rparr>"

lemma region_r1_fits:
  "good_name (cri_name region_r1)" "op_pre (OpAddRegion region_r1) (abs_of booted_store)"
  "op_room (OpAddRegion region_r1) booted_store"
  using capacity(1)[OF reachable_inv[OF booted_reachable]]
  by (simp_all add: region_r1_def good_name_def booted_abs REGION_NODE_BITMAP_COUNT_def RECORD_NAME_SIZE_def REGION_MAX_RECORD_def)

lemma restored_names:
  "fst ` set (fold (\<lambda>i. emplace (nm i) (i :: nat)) is c) \<subseteq> fst ` set c \<union> nm ` set is"
proof (induction "is" arbitrary: c)
  case (Cons i "is")
  have "fst ` set (emplace (nm i) i c) \<subseteq> insert (nm i) (fst ` set c)" by (auto simp: emplace_def)
  then show ?case
    using Cons.IH[of "emplace (nm i) i c"] unfolding fold.simps comp_def list.set image_insert by blast
qed simp

lemma restored_unnamed:
  assumes "unmapped st0" "RecordStore_Initialize alive fd ok (Some img) st0 = (ret, st)"
  shows "[] \<notin> fst ` set (cachedRegionRecords st)"
proof -
  have r: "([], i) \<notin> set (cachedRegionRecords (RestoreRegion s))" if "cachedRegionRecords s = []" for s i
    using that restored_names[of "\<lambda>i. rg_name (recordAddress (regionAllocator s) i)"
        "filter (\<lambda>i. \<not> RegionIdle (recordAddress (regionAllocator s) i)) [0..<REGION_MAX_RECORD]" "[]"]
    by (force simp: RestoreRegion_def Allocator_Restore_def RegionIdle_def)
  have e: "cachedRegionRecords (RecordStore_Restore s) = cachedRegionRecords (RestoreRegion s)" for s
    by (simp add: RecordStore_Restore_def RestoreShmReference_def RestoreShmImport_def RestoreMemLease_def
        split: prod.split)
  show ?thesis
    using assms by (auto simp: RecordStore_Initialize_def unmapped_def Let_def e r split: if_splits option.splits)
qed

definition import_s :: ShareMemImportInput where
  "import_s = \<lparr>smi_name = ''s'', smi_size = 128, smi_pid = 7\<rparr>"

definition attached_store :: record_store where
  "attached_store = snd (exec_op (OpAddRef 7 ''s'') (snd (exec_op (OpAddImport import_s) booted_store)))"

lemma no_refs_room:
  assumes "store_inv st" "\<forall>n pid. as_refs (abs_of st) n pid = 0"
  shows "idleIndexes (shmRefAllocator st) \<noteq> []"
proof -
  let ?r = "recordAddress (shmRefAllocator st) 0"
  have "MemShareRefIdle ?r"
  proof (rule ccontr)
    assume "\<not> MemShareRefIdle ?r"
    then have "0 \<in> refs_in (shmRefAllocator st) (sr_shmImportIndex ?r) (sr_pid ?r)"
      by (simp add: refs_in_def SHM_MAX_REFERENCE_RECORD_def SHM_MAX_ATTACH_RECORD_def MAX_IMPORT_COUNT_def)
    then have ne: "mm_get (cachedRefShmIdxRecords st) (sr_shmImportIndex ?r) (sr_pid ?r) \<noteq> []"
      using store_refD(7)[OF assms(1), of "sr_shmImportIndex ?r" "sr_pid ?r"] by auto
    show False by (rule ref_named[OF assms(1) ne]) (use assms(2) in \<open>simp add: refs_abs\<close>)
  qed
  moreover have "0 < SHM_MAX_REFERENCE_RECORD"
    by (simp add: SHM_MAX_REFERENCE_RECORD_def SHM_MAX_ATTACH_RECORD_def MAX_IMPORT_COUNT_def)
  ultimately show ?thesis
    using store_refD(2)[OF assms(1)] unfolding shmref.slots_inv_def by fastforce
qed

lemma exec_step:
  assumes "reachable_store st" "op_named op"
  shows "reachable_store (snd (exec_op op st))"
    "op_pre op (abs_of st) \<Longrightarrow> op_room op st \<Longrightarrow> abs_of (snd (exec_op op st)) = abs_op op (abs_of st)"
  using reachable_store.call[OF assms, of "fst (exec_op op st)" "snd (exec_op op st)"]
    exec_eff[OF reachable_inv[OF assms(1)] assms(2), of "fst (exec_op op st)" "snd (exec_op op st)"]
    exec_ret[OF reachable_inv[OF assms(1)] assms(2)] by simp_all

lemma attached:
  "reachable_store attached_store" "as_refs (abs_of attached_store) ''s'' 7 = 1"
proof -
  have n: "op_named (OpAddImport import_s)" by (simp add: import_s_def good_name_def RECORD_NAME_SIZE_def)
  have c: "op_room (OpAddImport import_s) booted_store"
    using capacity(3)[OF reachable_inv[OF booted_reachable]]
    by (simp add: booted_abs SHM_MAX_ATTACH_RECORD_def MAX_IMPORT_COUNT_def)
  define b where "b = snd (exec_op (OpAddImport import_s) booted_store)"
  have R: "reachable_store b" and A: "abs_of b = abs_op (OpAddImport import_s) (abs_of booted_store)"
    using exec_step[OF booted_reachable n] c by (simp_all add: b_def booted_abs)
  have "op_room (OpAddRef 7 ''s'') b" using no_refs_room[OF reachable_inv[OF R]] by (simp add: A booted_abs)
  moreover have "op_pre (OpAddRef 7 ''s'') (abs_of b)" by (simp add: A booted_abs RECORD_NAME_SIZE_def import_s_def)
  moreover have "attached_store = snd (exec_op (OpAddRef 7 ''s'') b)" by (simp only: attached_store_def b_def)
  ultimately show "as_refs (abs_of attached_store) ''s'' 7 = 1" "reachable_store attached_store"
    using exec_step[OF R, of "OpAddRef 7 ''s''"] by (simp_all add: A booted_abs import_s_def RECORD_NAME_SIZE_def del: exec_op.simps)
qed

section \<open>Properties\<close>

text \<open>
  C1. Every operation of the record store implements its abstract specification.  In a store reached by
  calls that add records under legal names only (not empty, without NUL and shorter than the field), such a call returns 0 exactly when its precondition on the abstract maps holds and there is
  room for it; then the abstract state changes as specified, otherwise it does not change.
\<close>

theorem store_op_refines:
  assumes "reachable_store st" "op_named op" "exec_op op st = (ret, st')"
  shows "(ret = 0 \<longleftrightarrow> op_pre op (abs_of st) \<and> op_room op st) \<and>
    abs_of st' = (if ret = 0 then abs_op op (abs_of st) else abs_of st)"
  using exec_ret[OF reachable_inv[OF assms(1)] assms(2)] exec_eff[OF reachable_inv[OF assms(1)] assms(2,3)] assms(3)
  by simp

theorem store_op_refines_witness:
  "fst (exec_op (OpAddRegion region_r1) booted_store) = 0 \<and>
   as_regions (abs_of (snd (exec_op (OpAddRegion region_r1) booted_store))) = [''r1'' \<mapsto> region_norm region_r1]"
  using store_op_refines[OF booted_reachable, of "OpAddRegion region_r1"] region_r1_fits
  by (cases "exec_op (OpAddRegion region_r1) booted_store") (simp add: booted_abs region_r1_def)

text \<open>
  C3. The file alone keeps the store.  Restarting on what a reachable store has written to the
  shared-memory file, after a clean stop or a crash, succeeds and restores regions, leases,
  imports and reference counts unchanged, and of the suspended clients those still alive.
\<close>

theorem store_restart_preserves:
  assumes "reachable_store st" "0 \<le> fd"
    "RecordStore_Initialize alive fd True (Some (image_of st)) new_store = (ret, st')"
  shows "ret = 0 \<and> abs_of st' = (abs_of st)\<lparr>as_suspended := {p \<in> as_suspended (abs_of st). alive p}\<rparr>"
  using Initialize_components(1) Initialize_abs reachable_inv[OF assms(1)] new_store_unmapped assms(2,3) by blast

theorem store_restart_preserves_witness:
  "as_regions (abs_of (snd (RecordStore_Initialize (\<lambda>_. False) 3 True
     (Some (image_of (snd (exec_op (OpAddRegion region_r1) booted_store)))) new_store))) =
   [''r1'' \<mapsto> region_norm region_r1]"
proof -
  let ?st = "snd (exec_op (OpAddRegion region_r1) booted_store)"
  let ?i = "RecordStore_Initialize (\<lambda>_. False) 3 True (Some (image_of ?st)) new_store"
  have r: "reachable_store ?st" and "as_regions (abs_of ?st) = [''r1'' \<mapsto> region_norm region_r1]"
    using exec_step[OF booted_reachable, of "OpAddRegion region_r1"] region_r1_fits
    by (simp_all add: booted_abs region_r1_def)
  then show ?thesis using store_restart_preserves[OF r, of 3 "\<lambda>_. False" "fst ?i" "snd ?i"] by simp
qed

text \<open>
  C11. No reference dangles.  In a reachable store the import slot of every reference record in
  the file holds a live import, under a name that the cache maps to this slot, and the process of
  the record is counted as a user of that name in both listings.
\<close>

theorem store_no_dangling_refs:
  assumes "reachable_store st" "j < SHM_MAX_REFERENCE_RECORD"
    "r = recordAddress (shmRefAllocator st) j" "\<not> MemShareRefIdle r"
  shows "\<exists>n ids. map_of (cachedImportShmRecords st) n = Some (sr_shmImportIndex r, ids) \<and>
    \<not> MemShareImportIdle (recordAddress (shmImportAllocator st) (sr_shmImportIndex r)) \<and>
    0 < count_at (ListShmRefRecordNameF st) n (sr_pid r) \<and> 0 < count_at (ListShmRefRecordPidF st) (sr_pid r) n"
proof -
  note I = reachable_inv[OF assms(1)]
  have "j \<in> refs_in (shmRefAllocator st) (sr_shmImportIndex r) (sr_pid r)" using assms by (simp add: refs_in_def)
  then have ne: "mm_get (cachedRefShmIdxRecords st) (sr_shmImportIndex r) (sr_pid r) \<noteq> []"
    using store_refD(7)[OF I, of "sr_shmImportIndex r" "sr_pid r"] by auto
  then have "\<not> MemShareImportIdle (recordAddress (shmImportAllocator st) (sr_shmImportIndex r))"
    using store_importD(7)[OF I] unfolding ref_import_inv_def by blast
  moreover obtain n ids where "map_of (cachedImportShmRecords st) n = Some (sr_shmImportIndex r, ids)"
    "0 < store_refs st n (sr_pid r)" by (rule ref_named[OF I ne])
  ultimately show ?thesis by (metis NameF_count[OF I] PidF_count[OF I])
qed

theorem store_no_dangling_refs_witness:
  "\<exists>j n ids. j < SHM_MAX_REFERENCE_RECORD \<and> map_of (cachedImportShmRecords attached_store) n =
     Some (sr_shmImportIndex (recordAddress (shmRefAllocator attached_store) j), ids)"
proof -
  obtain i ids where "map_of (cachedImportShmRecords attached_store) ''s'' = Some (i, ids)"
    "mm_get (cachedRefShmIdxRecords attached_store) i 7 \<noteq> []"
    using attached(2) by (force simp: refs_abs ref_count_def split: option.splits)
  then obtain j where "j \<in> refs_in (shmRefAllocator attached_store) i 7"
    using store_refD(7)[OF reachable_inv[OF attached(1)], of i 7] by (metis all_not_in_conv set_empty)
  then show ?thesis
    using store_no_dangling_refs[OF attached(1), of j, OF _ refl] by (auto simp: refs_in_def)
qed

text \<open>
  C24. The listings give the abstract state back: the listed regions, leases and imports are the
  values of the abstract maps, the two reference listings agree with the reference counts, and
  the suspended clients are those listed and those recognised.
\<close>

theorem store_listings:
  assumes "reachable_store st"
  shows "set (ListRegionRecord st) = ran (as_regions (abs_of st)) \<and>
    set (ListMemLeaseRecord st) = ran (as_leases (abs_of st)) \<and>
    set (ListShmImportRecord st) = ran (as_imports (abs_of st)) \<and>
    count_at (ListShmRefRecordNameF st) n pid = as_refs (abs_of st) n pid \<and>
    count_at (ListShmRefRecordPidF st) pid n = as_refs (abs_of st) n pid \<and>
    (IsClientSuspended pid st \<longleftrightarrow> pid \<in> as_suspended (abs_of st)) \<and>
    set (ListSuspendClients st) = as_suspended (abs_of st) \<and> distinct (ListSuspendClients st)"
proof -
  note I = reachable_inv[OF assms]
  have "mapped st" "suspend_inv (suspendClientArray st)" using I by (simp_all add: store_inv_def)
  then have "IsClientSuspended pid st \<longleftrightarrow> pid \<in> as_suspended (abs_of st)"
    "set (ListSuspendClients st) = as_suspended (abs_of st)" "distinct (ListSuspendClients st)"
    by (auto simp: IsClientSuspended_def ListSuspendClients_def suspended_abs suspend_inv_def Let_def
        list_ex_iff suspended_pids_def)
  then show ?thesis
    using set_ListRegionRecord[OF I] set_ListMemLeaseRecord[OF I] set_ListShmImportRecord[OF I]
      NameF_count[OF I] PidF_count[OF I] by (simp add: refs_abs)
qed

theorem store_listings_witness: "set (ListRegionRecord booted_store) = {} \<and> ListSuspendClients booted_store = []"
  using store_listings[OF booted_reachable] by (simp add: booted_abs)

text \<open>
  C25. The capacity of the store: in a reachable store an add under a new, legal name succeeds
  exactly when fewer than the maximal number of regions (with valid nodes), leases or imports
  exist.  No slot is ever lost, whatever calls, failures and restarts came before.
\<close>

theorem store_capacity:
  assumes "reachable_store st"
  shows "(op_named (OpAddRegion reg) \<and> op_pre (OpAddRegion reg) (abs_of st) \<longrightarrow>
      (fst (AddRegionRecord reg st) = 0 \<longleftrightarrow> card (dom (as_regions (abs_of st))) < REGION_MAX_RECORD)) \<and>
    (op_named (OpAddLease l) \<and> op_pre (OpAddLease l) (abs_of st) \<longrightarrow>
      (fst (AddMemLeaseInput l st) = 0 \<longleftrightarrow> card (dom (as_leases (abs_of st))) < MEM_LEASE_MAX_RECORD)) \<and>
    (op_named (OpAddImport i) \<and> op_pre (OpAddImport i) (abs_of st) \<longrightarrow>
      (fst (AddShmImportInput i st) = 0 \<longleftrightarrow> card (dom (as_imports (abs_of st))) < SHM_MAX_ATTACH_RECORD))"
  using capacity[OF reachable_inv[OF assms]] exec_ret[OF reachable_inv[OF assms], of "OpAddRegion reg"]
    exec_ret[OF reachable_inv[OF assms], of "OpAddLease l"] exec_ret[OF reachable_inv[OF assms], of "OpAddImport i"]
  by (simp del: op_pre.simps)

theorem store_capacity_witness:
  "op_named (OpAddRegion region_r1) \<and> op_pre (OpAddRegion region_r1) (abs_of booted_store) \<and>
   fst (AddRegionRecord region_r1 booted_store) = 0"
  using store_capacity[OF booted_reachable, of region_r1] region_r1_fits
  by (simp add: booted_abs REGION_MAX_RECORD_def)

text \<open>
  C26. A region with the empty name is accepted and listed but is not durable: its record in the
  file looks idle, and after any restart the store has no region of that name.
\<close>

theorem store_empty_name_lost:
  assumes "cri_name input = []" "AddRegionRecord input st = (0, st')" "unmapped st0"
    "RecordStore_Initialize alive fd ok (Some (image_of st')) st0 = (ret, st'')"
  shows "[] \<in> fst ` set (cachedRegionRecords st') \<and> [] \<notin> fst ` set (cachedRegionRecords st'')"
proof -
  have "[] \<in> fst ` set (cachedRegionRecords st')"
    using assms(1,2) by (auto simp: AddRegionRecord_def Let_def emplace_def split: if_splits option.splits prod.splits)
  then show ?thesis using restored_unnamed[OF assms(3,4)] by blast
qed

theorem store_empty_name_lost_witness:
  "[] \<in> fst ` set (cachedRegionRecords (snd (AddRegionRecord (region_r1\<lparr>cri_name := []\<rparr>) booted_store))) \<and>
   [] \<notin> fst ` set (cachedRegionRecords (snd (RecordStore_Initialize (\<lambda>_. True) 3 True
     (Some (image_of (snd (AddRegionRecord (region_r1\<lparr>cri_name := []\<rparr>) booted_store)))) new_store)))"
proof -
  let ?a = "AddRegionRecord (region_r1\<lparr>cri_name := []\<rparr>) booted_store"
  have "fst ?a = 0"
    using region_r1_fits(3) reachable_inv[OF booted_reachable] dom_views(1)[of "[]" booted_store]
    by (auto simp: AddRegionRecord_def region_r1_def RECORD_NAME_SIZE_def REGION_NODE_BITMAP_COUNT_def store_inv_def
        Allocator_Allocate_def c_str_def strcpy_s_def booted_abs Let_def split: prod.split)
  then show ?thesis
    using store_empty_name_lost[OF _ _ new_store_unmapped, of "region_r1\<lparr>cri_name := []\<rparr>" booted_store "snd ?a"
        "\<lambda>_. True" 3 True _ "snd (RecordStore_Initialize (\<lambda>_. True) 3 True (Some (image_of (snd ?a))) new_store)"]
    by (metis (no_types, lifting) CreateRegionInput.select_convs(1) CreateRegionInput.surjective CreateRegionInput.update_convs(1) prod.collapse)
qed

end
