(* ===== verification/Ordered_Map.thy ===== *)
theory Ordered_Map
  imports Msg_Packer
begin

text \<open>
  \<^verbatim>\<open>std::map\<close> and \<^verbatim>\<open>std::set\<close>: the list of entries in the order of the keys.  \<^const>\<open>map_emplace\<close>
  is \<^verbatim>\<open>emplace\<close> and \<^verbatim>\<open>insert\<close>, which keep an existing entry; \<open>map_assign\<close> is assignment to an element;
  \<^const>\<open>AList.delete\<close> is \<^verbatim>\<open>erase\<close>; \<open>lower_bound\<close> is what follows from the first key not less than
  the given one.
\<close>

definition map_assign :: "'k::linorder \<Rightarrow> 'v \<Rightarrow> ('k \<times> 'v) list \<Rightarrow> ('k \<times> 'v) list" where
  "map_assign k v m = map_emplace k v (erase k m)"

definition lower_bound :: "'k::linorder \<Rightarrow> ('k \<times> 'v) list \<Rightarrow> ('k \<times> 'v) list" where
  "lower_bound k m = dropWhile (\<lambda>(k', _). k' < k) m"

lemma set_insort_entry: "set (insort_key fst x m) = insert x (set m)"
  by (induction m) auto

lemma map_of_insort: "k \<notin> fst ` set m \<Longrightarrow> map_of (insort_key fst (k, v) m) = (map_of m)(k \<mapsto> v)"
  by (induction m) (auto simp: fun_eq_iff)

lemma map_of_map_emplace:
  "map_of (map_emplace k v m) = (if map_of m k = None then (map_of m)(k \<mapsto> v) else map_of m)"
  by (auto simp: map_emplace_def map_of_insort map_of_eq_None_iff)

lemma set_map_emplace: "map_of m k = None \<Longrightarrow> set (map_emplace k v m) = insert (k, v) (set m)"
  by (simp add: map_emplace_def set_insort_entry map_of_eq_None_iff)

lemma set_map_emplace_sub: "set (map_emplace k v m) \<subseteq> insert (k, v) (set m)"
  by (auto simp: map_emplace_def set_insort_entry)

lemma length_map_emplace: "length (map_emplace k v m) \<le> Suc (length m)"
  by (simp add: map_emplace_def)

lemma map_ok_erase: "map_ok m \<Longrightarrow> map_ok (erase k m)"
proof -
  have "sorted (map fst m) \<Longrightarrow> sorted (map fst (erase k m))"
    by (induction m) (auto simp: AList.delete_eq)
  then show "map_ok m \<Longrightarrow> map_ok (erase k m)" by (simp add: map_ok_def distinct_delete)
qed

lemma map_of_map_assign: "map_of (map_assign k v m) = (map_of m)(k \<mapsto> v)"
  by (simp add: map_assign_def map_of_map_emplace map_of_erase)

lemma map_ok_assign: "map_ok m \<Longrightarrow> map_ok (map_assign k v m)"
  by (simp add: map_assign_def map_emplace_ok map_ok_erase)

lemma map_ok_Nil [simp]: "map_ok []"
  by (simp add: map_ok_def)

lemmas ordered_map = map_of_map_emplace map_of_map_assign map_of_erase

lemmas ordered_map_ok = map_emplace_ok map_ok_assign map_ok_erase map_ok_Nil

lemma map_ok_of: "map_ok m \<Longrightarrow> (k, v) \<in> set m \<Longrightarrow> map_of m k = Some v"
  by (simp add: map_ok_def)

lemma erase_entries: "map_ok m \<Longrightarrow> set (erase k m) = {e \<in> set m. fst e \<noteq> k}"
  by (auto simp: AList.delete_eq)

lemma length_erase: "length (erase k m) \<le> length m"
  by (simp add: AList.delete_eq)

lemma lower_bound_sub: "set (lower_bound k m) \<subseteq> set m"
  by (auto simp: lower_bound_def dest: set_dropWhileD)

lemma lower_bound_ge:
  assumes "map_ok m"
  shows "(k', v) \<in> set (lower_bound k m) \<longleftrightarrow> (k', v) \<in> set m \<and> k \<le> k'"
  using assms
proof (induction m)
  case (Cons e m)
  obtain k0 v0 where e: "e = (k0, v0)" by (cases e)
  have ok: "map_ok m" and le: "\<forall>x\<in>set m. k0 < fst x"
    using Cons.prems by (auto simp: map_ok_def e less_le image_iff)
  show ?case
  proof (cases "k0 < k")
    case True
    then show ?thesis using Cons.IH[OF ok] by (auto simp: e lower_bound_def)
  next
    case False
    then show ?thesis using le by (fastforce simp: e lower_bound_def)
  qed
qed (simp add: lower_bound_def)

end
