(* ===== verification/Daemon_State.thy ===== *)
theory Daemon_State
  imports Record_Store_Props Error_Codes Str_Util State_Logic Ordered_Map
    "HOL-Library.Product_Lexorder"
begin

text \<open>
  The state of the daemon and what surrounds it.  A record \<open>daemon\<close> holds the singletons of the
  program: the record store, the lease manager, the region manager, the shared-memory manager, the
  monitor of delayed removals and the static members of the adapter to the UBS engine.  The engine
  library (\<^verbatim>\<open>libubse\<close>, opened at run time), clocks, thread and process identities are not part of
  the program: they are the fields of a record \<open>env\<close> of functions over a world of any type, which
  every action takes as a parameter and about which nothing is assumed.
\<close>

section \<open>Codes and stages of the UBS engine\<close>

definition UBS_SUCCESS :: int where [err_codes]: "UBS_SUCCESS = 0"

definition UBS_ERR_NOT_SUPPORTED :: int where [err_codes]: "UBS_ERR_NOT_SUPPORTED = 41"

definition UBS_ERR_TIMED_OUT :: int where [err_codes]: "UBS_ERR_TIMED_OUT = 43"

definition UBS_ENGINE_ERR_EXISTED :: int where [err_codes]: "UBS_ENGINE_ERR_EXISTED = 1006"

definition UBS_ENGINE_ERR_NOT_EXIST :: int where [err_codes]: "UBS_ENGINE_ERR_NOT_EXIST = 1007"

definition UBS_ENGINE_ERR_UNIMPORT_SUCCESS :: int where [err_codes]: "UBS_ENGINE_ERR_UNIMPORT_SUCCESS = 1012"

definition UBS_ENGINE_ERR_SHM_NO_ATTACH :: int where [err_codes]: "UBS_ENGINE_ERR_SHM_NO_ATTACH = 1015"

definition UBS_ENGINE_ERR_SHM_ATTACH_USING :: int where [err_codes]: "UBS_ENGINE_ERR_SHM_ATTACH_USING = 1024"

datatype ubs_mem_stage = UBSE_NOT_EXIST | UBSE_CREATING | UBSE_DELETING | UBSE_EXIST
  | UBSE_ERR_ONLY_IMPORT | UBSE_ERR_WAIT_UNEXPORT | UBSE_END

section \<open>Data exchanged with the engine\<close>

text \<open>Of a node of the topology: its slot, host name and the NUMA nodes of its sockets.\<close>

record ubs_topo_node =
  tn_slot_id :: u32
  tn_host_name :: string
  tn_sockets :: "(u32 \<times> u32 list) list"

record ubs_topo_link =
  tl_slot_id :: u32
  tl_peer_slot_id :: u32

record ubs_mem_fd_desc =
  fd_memids :: "u64 list"
  fd_unit_size :: u64
  fd_export_slot :: u32
  fd_mem_stage :: ubs_mem_stage

record ubs_mem_numa_desc =
  nd_numaid :: u64
  nd_export_slot :: u32
  nd_mem_stage :: ubs_mem_stage

record ubs_mem_lender =
  ln_lender_size :: u64
  ln_slot_id :: u32
  ln_socket_id :: u32
  ln_numa_id :: u32
  ln_port_id :: u32

record ubse_user_info =
  ui_uid :: u32
  ui_gid :: u32
  ui_pid :: u32
  ui_mode :: u32
  ui_flag :: u64
  ui_seqNo :: u64

record ubs_mem_shm_import =
  im_memids :: "u64 list"
  im_import_slot :: u32
  im_mem_stage :: ubs_mem_stage

record ubs_mem_shm_desc =
  sd_name :: string
  sd_mem_size :: u64
  sd_unit_size :: u64
  sd_export_slot :: u32
  sd_usr_info :: ubse_user_info
  sd_mem_stage :: ubs_mem_stage
  sd_import_desc :: "ubs_mem_shm_import list"

section \<open>Regions\<close>

definition MEM_TOPOLOGY_MAX_HOSTS :: int where
  "MEM_TOPOLOGY_MAX_HOSTS = 16"

definition MEM_MAX_ID_LENGTH :: nat where
  "MEM_MAX_ID_LENGTH = 48"

definition MAX_HOST_NAME_DESC_LENGTH :: nat where
  "MAX_HOST_NAME_DESC_LENGTH = 64"

definition MAX_REGIONS_NUM :: int where
  "MAX_REGIONS_NUM = 6"

definition UBS_MEM_MAX_SLOT_NUM :: nat where
  "UBS_MEM_MAX_SLOT_NUM = 16"

text \<open>An array of characters is the string before its first zero byte, all of it when there is none.\<close>

record SHMRegionDesc =
  rd_perfLevel :: u32
  rd_type :: u32
  rd_num :: int
  rd_affinity :: "nat \<Rightarrow> bool"
  rd_nodeId :: "nat \<Rightarrow> string"
  rd_hostName :: "nat \<Rightarrow> string"

record SHMRegions =
  rs_num :: int
  rs_region :: "nat \<Rightarrow> SHMRegionDesc"

record RegionInfo =
  ri_name :: string
  ri_size :: u64
  ri_region :: SHMRegionDesc

section \<open>The environment\<close>

record 'w env =
  os_now :: "'w \<Rightarrow> u64 \<times> 'w"
  os_monotonic_ns :: "'w \<Rightarrow> u64 \<times> 'w"
  os_thread_self :: "'w \<Rightarrow> u64 \<times> 'w"
  os_alive :: "u32 \<Rightarrow> 'w \<Rightarrow> bool \<times> 'w"
  os_numa_of :: "u32 \<Rightarrow> 'w \<Rightarrow> int \<times> 'w"
  os_read_ubfeature :: "'w \<Rightarrow> u64 option \<times> 'w"
  os_self :: AppContext
  securec_error :: int
  cfg_LeaseCachedSwitch :: bool
  ubse_dlopen :: "'w \<Rightarrow> int \<times> 'w"
  ubse_node_list :: "'w \<Rightarrow> (int \<times> ubs_topo_node list) \<times> 'w"
  ubse_node_local_get :: "'w \<Rightarrow> (int \<times> ubs_topo_node) \<times> 'w"
  ubse_link_list :: "'w \<Rightarrow> (int \<times> ubs_topo_link list option) \<times> 'w"
  ubse_numa_create_with_candidate :: "string \<Rightarrow> u64 \<Rightarrow> u32 list \<Rightarrow> 'w \<Rightarrow> (int \<times> ubs_mem_numa_desc) \<times> 'w"
  ubse_fd_create_with_candidate ::
    "string \<Rightarrow> u64 \<Rightarrow> AppContext \<Rightarrow> u32 \<Rightarrow> u32 list \<Rightarrow> 'w \<Rightarrow> (int \<times> ubs_mem_fd_desc) \<times> 'w"
  ubse_numa_create_with_lender :: "string \<Rightarrow> ubs_mem_lender \<Rightarrow> 'w \<Rightarrow> (int \<times> ubs_mem_numa_desc) \<times> 'w"
  ubse_fd_create_with_lender ::
    "string \<Rightarrow> AppContext \<Rightarrow> u32 \<Rightarrow> ubs_mem_lender \<Rightarrow> 'w \<Rightarrow> (int \<times> ubs_mem_fd_desc) \<times> 'w"
  ubse_fd_permission :: "string \<Rightarrow> AppContext \<Rightarrow> u32 \<Rightarrow> 'w \<Rightarrow> int \<times> 'w"
  ubse_fd_get :: "string \<Rightarrow> 'w \<Rightarrow> (int \<times> ubs_mem_fd_desc) \<times> 'w"
  ubse_numa_get :: "string \<Rightarrow> 'w \<Rightarrow> (int \<times> ubs_mem_numa_desc) \<times> 'w"
  ubse_fd_delete :: "string \<Rightarrow> 'w \<Rightarrow> int \<times> 'w"
  ubse_numa_delete :: "string \<Rightarrow> 'w \<Rightarrow> int \<times> 'w"
  ubse_shm_get :: "string \<Rightarrow> 'w \<Rightarrow> (int \<times> ubs_mem_shm_desc option) \<times> 'w"
  ubse_shm_list :: "'w \<Rightarrow> (int \<times> ubs_mem_shm_desc list) \<times> 'w"
  ubse_shm_create :: "string \<Rightarrow> u64 \<Rightarrow> ubse_user_info \<Rightarrow> u64 \<Rightarrow> u32 list \<Rightarrow> u32 list \<Rightarrow> 'w \<Rightarrow> int \<times> 'w"
  ubse_shm_create_with_affinity ::
    "string \<Rightarrow> u64 \<Rightarrow> u32 \<Rightarrow> ubse_user_info \<Rightarrow> u64 \<Rightarrow> u32 list \<Rightarrow> u32 list \<Rightarrow> 'w \<Rightarrow> int \<times> 'w"
  ubse_shm_create_with_lender :: "string \<Rightarrow> ubse_user_info \<Rightarrow> u64 \<Rightarrow> ubs_mem_lender \<Rightarrow> 'w \<Rightarrow> int \<times> 'w"
  ubse_shm_attach :: "string \<Rightarrow> AppContext \<Rightarrow> u32 \<Rightarrow> 'w \<Rightarrow> (int \<times> ubs_mem_shm_desc option) \<times> 'w"
  ubse_shm_detach :: "string \<Rightarrow> 'w \<Rightarrow> int \<times> 'w"
  ubse_shm_delete :: "string \<Rightarrow> 'w \<Rightarrow> int \<times> 'w"

section \<open>The services\<close>

text \<open>\<^verbatim>\<open>MLSMemKey\<close> orders cached leases by size, then by name.\<close>

datatype MLSMemKey = MLSMemKey (key_size: u64) (key_name: string)

definition MLSMemKey_less :: "MLSMemKey \<Rightarrow> MLSMemKey \<Rightarrow> bool" where
  "MLSMemKey_less a b \<longleftrightarrow> (if key_size a \<noteq> key_size b then key_size a < key_size b else key_name a < key_name b)"

text \<open>The comparison of the source is a linear order, which is what the ordered containers rely on.\<close>

instantiation MLSMemKey :: linorder
begin

definition less_MLSMemKey :: "MLSMemKey \<Rightarrow> MLSMemKey \<Rightarrow> bool" where
  "less_MLSMemKey a b \<longleftrightarrow> MLSMemKey_less a b"

definition less_eq_MLSMemKey :: "MLSMemKey \<Rightarrow> MLSMemKey \<Rightarrow> bool" where
  "less_eq_MLSMemKey a b \<longleftrightarrow> a < b \<or> a = b"

instance
proof
  fix a b c :: MLSMemKey
  show "(a < b) = (a \<le> b \<and> \<not> b \<le> a)" "a \<le> a" "a \<le> b \<or> b \<le> a"
    by (cases a; cases b; auto simp: less_eq_MLSMemKey_def less_MLSMemKey_def MLSMemKey_less_def split: if_splits)+
  show "a \<le> b \<Longrightarrow> b \<le> c \<Longrightarrow> a \<le> c" "a \<le> b \<Longrightarrow> b \<le> a \<Longrightarrow> a = b"
    by (cases a; cases b; cases c; auto simp: less_eq_MLSMemKey_def less_MLSMemKey_def MLSMemKey_less_def split: if_splits)+
qed

end

record MLSMemInfo =
  mi_name :: string
  mi_appContext :: AppContext
  mi_size :: u64
  mi_numaId :: u64
  mi_memIds :: "u64 list"
  mi_unitSize :: u64
  mi_perflevel :: u16
  mi_slotId :: u32
  mi_isNuma :: bool
  mi_state :: RecordState

record mls_manager =
  isEnableLeaseBuffered :: bool
  maxBufferedMemNum :: u32
  usedMemory :: "(string \<times> MLSMemInfo) list"
  numaBufferedMemory :: "(MLSMemKey \<times> MLSMemInfo) list"
  fdBufferedMemory :: "(MLSMemKey \<times> MLSMemInfo) list"

record AttachedShareMemory =
  am_name :: string
  am_size :: u64
  am_state :: RecordState
  am_pids :: "u32 list"
  am_result :: ShareMemImportResult

record DelayRemovedKey =
  dk_isLease :: bool
  dk_retryTimes :: u64
  dk_expiresTime :: u64
  dk_name :: string
  dk_appCtx :: AppContext
  dk_changed :: bool
  dk_isNumaLease :: bool
  dk_timeOutScene :: bool
  dk_isAttach :: bool
  dk_createSeqNo :: u64

text \<open>
  The two sets of the monitor: \<^verbatim>\<open>delayedRemoveKeys\<close> is ordered by expiry, then by name
  (\<^verbatim>\<open>DelayKeyComparator\<close>), \<^verbatim>\<open>delayedRemoveKeysByName\<close> by name.
\<close>

record mem_monitor =
  mo_running :: bool
  exitedPids :: "u32 list"
  delayedRemoveKeys :: "((u64 \<times> string) \<times> DelayRemovedKey) list"
  delayedRemoveKeysByName :: "(string \<times> DelayRemovedKey) list"

record ubse_adapter =
  ad_initialized :: bool
  ad_nodeId :: u32
  ad_ubFeature :: u64
  ad_ubFeatureLoaded :: bool
  ad_ubFeatureValid :: bool

record 'w daemon =
  d_store :: record_store
  d_mls :: mls_manager
  d_regions :: "(string \<times> RegionInfo) list"
  d_shm :: "(string \<times> AttachedShareMemory) list"
  d_mon :: mem_monitor
  d_adapter :: ubse_adapter
  d_world :: 'w

type_synonym ('w, 'a) act = "('w daemon, 'a) state"

section \<open>Calling the environment and the store\<close>

definition ask :: "('w \<Rightarrow> 'a \<times> 'w) \<Rightarrow> ('w, 'a) act" where
  "ask f = State (\<lambda>d. let (a, w) = f (d_world d) in (a, d\<lparr>d_world := w\<rparr>))"

definition call_store :: "(record_store \<Rightarrow> 'a \<times> record_store) \<Rightarrow> ('w, 'a) act" where
  "call_store f = State (\<lambda>d. let (a, st) = f (d_store d) in (a, d\<lparr>d_store := st\<rparr>))"

lemma run_ask [simp]: "run_state (ask f) d = (fst (f (d_world d)), d\<lparr>d_world := snd (f (d_world d))\<rparr>)"
  by (simp add: ask_def split: prod.split)

lemma run_call_store [simp]:
  "run_state (call_store f) d = (fst (f (d_store d)), d\<lparr>d_store := snd (f (d_store d))\<rparr>)"
  by (simp add: call_store_def split: prod.split)

end
