(* ===== verification/Ubse_Topology.thy ===== *)
theory Ubse_Topology
  imports Daemon_State Multi_Map
begin

text \<open>
  The part of \<^verbatim>\<open>under_api/ubse/ubse_mem_adapter.cpp\<close> that opens the engine library and reads the
  topology: \<^verbatim>\<open>Initialize\<close>, the identity of the local node, and the list of regions, computed from the
  links between the nodes.  The function pointers of the adapter are loaded exactly while
  \<^verbatim>\<open>initialized_\<close> is set.
\<close>

section \<open>Initialisation\<close>

definition Initialize :: "'w env \<Rightarrow> ('w, int) act" where
  "Initialize E = do {
     a \<leftarrow> gets d_adapter;
     if ad_initialized a then return MXM_OK
     else do {
       rc \<leftarrow> ask (ubse_dlopen E);
       if rc \<noteq> 0 then return MXM_ERR_UBSE_LIB
       else do {
         modify (d_adapter_update (ad_initialized_update (\<lambda>_. True)));
         if ad_ubFeatureLoaded a then return MXM_OK
         else do {
           feature \<leftarrow> ask (os_read_ubfeature E);
           modify (d_adapter_update (\<lambda>x. x\<lparr>ad_ubFeatureLoaded := True, ad_ubFeatureValid := feature \<noteq> None,
             ad_ubFeature := (case feature of None \<Rightarrow> ad_ubFeature x | Some v \<Rightarrow> v)\<rparr>));
           return MXM_OK } } } }"

definition GetLocalNodeId :: "'w env \<Rightarrow> ('w, int \<times> u32) act" where
  "GetLocalNodeId E = do {
     a \<leftarrow> gets d_adapter;
     if \<not> ad_initialized a then return (MXM_ERR_UBSE_LIB, 0)
     else do {
       (rc, localNode) \<leftarrow> ask (ubse_node_local_get E);
       if rc \<noteq> UBS_SUCCESS then return (MXM_ERR_UBSE_INNER, 0)
       else return (HOK, tn_slot_id localNode) } }"

definition EnsureGetLocalNodeId :: "'w env \<Rightarrow> ('w, int \<times> u32) act" where
  "EnsureGetLocalNodeId E = do {
     a \<leftarrow> gets d_adapter;
     if ad_nodeId a \<noteq> - 1 then return (HOK, ad_nodeId a)
     else do {
       (rc, tmpNodeId) \<leftarrow> GetLocalNodeId E;
       if rc \<noteq> HOK then return (rc, 0)
       else do {
         modify (d_adapter_update (ad_nodeId_update (\<lambda>_. tmpNodeId)));
         return (HOK, tmpNodeId) } } }"

section \<open>Regions from the links\<close>

definition new_SHMRegionDesc :: SHMRegionDesc where
  "new_SHMRegionDesc = \<lparr>rd_perfLevel = 0, rd_type = 0, rd_num = 0, rd_affinity = \<lambda>_. False,
     rd_nodeId = \<lambda>_. [], rd_hostName = \<lambda>_. []\<rparr>"

definition new_SHMRegions :: SHMRegions where
  "new_SHMRegions = \<lparr>rs_num = 0, rs_region = \<lambda>_. new_SHMRegionDesc\<rparr>"

fun fill_nodes :: "nat \<Rightarrow> u32 list \<Rightarrow> SHMRegionDesc \<Rightarrow> int \<times> SHMRegionDesc" where
  "fill_nodes index [] regionDesc = (MXM_OK, regionDesc)"
| "fill_nodes index (item # rest) regionDesc =
     (if int index \<ge> MEM_TOPOLOGY_MAX_HOSTS then (MXM_ERR_REGION_PARAM_INVALID, regionDesc)
      else case strcpy_s MEM_MAX_ID_LENGTH (to_string (unat item)) of
        None \<Rightarrow> (MXM_ERR_MEMORY, regionDesc)
      | Some s \<Rightarrow> fill_nodes (Suc index) rest (regionDesc\<lparr>rd_nodeId := (rd_nodeId regionDesc)(index := s)\<rparr>))"

definition FillRegionDesc :: "u32 list \<Rightarrow> int \<times> SHMRegionDesc" where
  "FillRegionDesc intersection =
     fill_nodes 0 intersection (new_SHMRegionDesc\<lparr>rd_num := int (length intersection)\<rparr>)"

text \<open>A \<^verbatim>\<open>std::set\<close> of slots is its ascending list.\<close>

definition add_neighbor :: "u32 \<Rightarrow> u32 \<Rightarrow> (u32 \<times> u32 list) list \<Rightarrow> (u32 \<times> u32 list) list" where
  "add_neighbor a b m = assign a (insort_insert b (find_or_empty m a)) m"

definition neiBorNode :: "ubs_topo_link list \<Rightarrow> (u32 \<times> u32 list) list" where
  "neiBorNode links =
     fold (\<lambda>l m. add_neighbor (tl_peer_slot_id l) (tl_slot_id l) (add_neighbor (tl_slot_id l) (tl_peer_slot_id l) m))
       links []"

definition push_region :: "u32 list \<Rightarrow> int \<times> SHMRegions \<Rightarrow> int \<times> SHMRegions" where
  "push_region nodes acc =
     (let (rc, regions) = acc in
      if rc \<noteq> 0 \<or> length nodes \<le> 1 then acc
      else let (rc', regionDesc) = FillRegionDesc nodes in
           if rc' \<noteq> 0 then (rc', regions)
           else (0, regions\<lparr>rs_region := (rs_region regions)(nat (rs_num regions) := regionDesc),
                            rs_num := rs_num regions + 1\<rparr>))"

definition UBS_TOPO_MAX_CPU_LINK_NUM :: nat where
  "UBS_TOPO_MAX_CPU_LINK_NUM = 1024"

definition region_lists :: "u32 \<Rightarrow> (u32 \<times> u32 list) list \<Rightarrow> u32 list \<times> u32 list" where
  "region_lists slot m =
     (let mine = find_or_empty m slot;
          first = hd mine;
          intersection1 = insort_insert first (insort_insert slot
            (filter (\<lambda>n. n \<in> set (find_or_empty m first)) mine));
          intersection2 = insort_insert slot (filter (\<lambda>n. n \<notin> set intersection1) mine)
      in (intersection1, intersection2))"

definition InitializeRegionList :: "'w env \<Rightarrow> ('w, int \<times> SHMRegions) act" where
  "InitializeRegionList E = do {
     a \<leftarrow> gets d_adapter;
     if \<not> ad_initialized a then return (MXM_ERR_UBSE_INNER, new_SHMRegions)
     else do {
       (res, localNode) \<leftarrow> ask (ubse_node_local_get E);
       if res \<noteq> 0 then return (MXM_ERR_UBSE_INNER, new_SHMRegions)
       else do {
         (res, linkPtr) \<leftarrow> ask (ubse_link_list E);
         case linkPtr of
           None \<Rightarrow> return (MXM_ERR_UBSE_INNER, new_SHMRegions)
         | Some links \<Rightarrow>
             if res \<noteq> 0 \<or> length links > UBS_TOPO_MAX_CPU_LINK_NUM then return (MXM_ERR_UBSE_INNER, new_SHMRegions)
             else let m = neiBorNode links; slot = tn_slot_id localNode in
               if map_of m slot = None \<or> find_or_empty m slot = [] then return (MXM_ERR_REGION_PARAM_INVALID, new_SHMRegions)
               else let (intersection1, intersection2) = region_lists slot m;
                        (rc, regions) = push_region intersection2 (push_region intersection1 (0, new_SHMRegions)) in
                 if rc \<noteq> 0 then return (rc, regions)
                 else if rs_num regions = 0 then return (MXM_ERR_REGION_PARAM_INVALID, regions)
                 else return (UBSM_OK, regions) } } }"

section \<open>Host names\<close>

definition MIN_NODE_NUM :: nat where
  "MIN_NODE_NUM = 2"

definition slotToHostName :: "ubs_topo_node list \<Rightarrow> (u32 \<times> string) list" where
  "slotToHostName nodes = fold (\<lambda>n m. assign (tn_slot_id n) (tn_host_name n) m) nodes []"

text \<open>
  \<open>copy_error\<close> is the code the bounds-checked string copy of the platform returns for a source
  that does not fit.
\<close>

fun fill_hosts :: "int \<Rightarrow> (u32 \<times> string) list \<Rightarrow> nat list \<Rightarrow> SHMRegionDesc \<Rightarrow> int \<times> SHMRegionDesc" where
  "fill_hosts copy_error m [] region = (MXM_OK, region)"
| "fill_hosts copy_error m (j # js) region =
     (let (ok, nodeId) = StrToUint (rd_nodeId region j) in
      if \<not> ok then (MXM_ERR_PARAM_INVALID, region)
      else case map_of m nodeId of
        None \<Rightarrow> fill_hosts copy_error m js region
      | Some host \<Rightarrow> (case strcpy_s MAX_HOST_NAME_DESC_LENGTH host of
          None \<Rightarrow> (copy_error, region)
        | Some s \<Rightarrow> fill_hosts copy_error m js (region\<lparr>rd_hostName := (rd_hostName region)(j := s)\<rparr>)))"

fun fill_regions :: "int \<Rightarrow> (u32 \<times> string) list \<Rightarrow> nat list \<Rightarrow> SHMRegions \<Rightarrow> int \<times> SHMRegions" where
  "fill_regions copy_error m [] regions = (MXM_OK, regions)"
| "fill_regions copy_error m (i # rest) regions =
     (let region = rs_region regions i in
      if rd_num region < 0 \<or> rd_num region > MEM_TOPOLOGY_MAX_HOSTS then (MXM_ERR_REGION_PARAM_INVALID, regions)
      else let (rc, region') = fill_hosts copy_error m [0..<nat (rd_num region)] region;
               regions' = regions\<lparr>rs_region := (rs_region regions)(i := region')\<rparr> in
           if rc \<noteq> MXM_OK then (rc, regions') else fill_regions copy_error m rest regions')"

definition PopulateHostNameMap :: "'w env \<Rightarrow> SHMRegions \<Rightarrow> ('w, int \<times> SHMRegions) act" where
  "PopulateHostNameMap E regions = do {
     a \<leftarrow> gets d_adapter;
     if \<not> ad_initialized a then return (MXM_ERR_UBSE_INNER, regions)
     else do {
       (rc, nodeList) \<leftarrow> ask (ubse_node_list E);
       if rc \<noteq> UBS_SUCCESS then return (MXM_ERR_UBSE_INNER, regions)
       else if nodeList = [] \<or> length nodeList > UBS_MEM_MAX_SLOT_NUM then return (MXM_ERR_UBSE_INNER, regions)
       else if length nodeList < MIN_NODE_NUM then return (MXM_ERR_UBSE_INNER, regions)
       else if rs_num regions < 0 \<or> rs_num regions > MAX_REGIONS_NUM then return (MXM_ERR_REGION_PARAM_INVALID, regions)
       else return (fill_regions (securec_error E) (slotToHostName nodeList) [0..<nat (rs_num regions)] regions) } }"

section \<open>Regions with named nodes\<close>

text \<open>The nodes of a region that have an identifier and a host name, moved to the front.\<close>

definition named_node :: "SHMRegionDesc \<Rightarrow> nat \<Rightarrow> bool" where
  "named_node region j \<longleftrightarrow> rd_nodeId region j \<noteq> [] \<and> rd_hostName region j \<noteq> []"

definition copy_nodes :: "SHMRegionDesc \<Rightarrow> SHMRegionDesc \<Rightarrow> SHMRegionDesc" where
  "copy_nodes region active =
     (let js = filter (named_node region) [0..<nat (rd_num region)] in
      active\<lparr>rd_type := rd_type region, rd_perfLevel := rd_perfLevel region, rd_num := int (length js),
             rd_nodeId := (\<lambda>i. if i < length js then rd_nodeId region (js ! i) else rd_nodeId active i),
             rd_hostName := (\<lambda>i. if i < length js then rd_hostName region (js ! i) else rd_hostName active i)\<rparr>)"

fun copy_regions :: "nat list \<Rightarrow> SHMRegions \<Rightarrow> nat \<Rightarrow> SHMRegions \<Rightarrow> int \<times> SHMRegions" where
  "copy_regions [] staticRegions regionsCnt activeRegion = (UBSM_OK, activeRegion\<lparr>rs_num := int regionsCnt\<rparr>)"
| "copy_regions (i # rest) staticRegions regionsCnt activeRegion =
     (let region = rs_region staticRegions i in
      if rd_num region > MEM_TOPOLOGY_MAX_HOSTS then (MXM_ERR_PARAM_INVALID, activeRegion)
      else let active = copy_nodes region (rs_region activeRegion regionsCnt) in
           copy_regions rest staticRegions (if rd_num active \<noteq> 0 then Suc regionsCnt else regionsCnt)
             (activeRegion\<lparr>rs_region := (rs_region activeRegion)(regionsCnt := active)\<rparr>))"

definition CheckAndCopyRegionStatus :: "SHMRegions \<Rightarrow> SHMRegions \<Rightarrow> int \<times> SHMRegions" where
  "CheckAndCopyRegionStatus staticRegions activeRegion =
     (if rs_num staticRegions > MAX_REGIONS_NUM then (MXM_ERR_PARAM_INVALID, activeRegion)
      else copy_regions [0..<nat (rs_num staticRegions)] staticRegions 0 activeRegion)"

definition LookupRegionList :: "'w env \<Rightarrow> ('w, int \<times> SHMRegions) act" where
  "LookupRegionList E = do {
     rc \<leftarrow> Initialize E;
     if rc \<noteq> 0 then return (rc, new_SHMRegions)
     else do {
       (rc, staticRegions) \<leftarrow> InitializeRegionList E;
       if rc \<noteq> UBSM_OK then return (rc, new_SHMRegions)
       else do {
         (rc, staticRegions) \<leftarrow> PopulateHostNameMap E staticRegions;
         if rc \<noteq> UBSM_OK then return (rc, new_SHMRegions)
         else return (CheckAndCopyRegionStatus staticRegions new_SHMRegions) } } }"

end
