(* ===== verification/Region_Manager.thy ===== *)
theory Region_Manager
  imports Ubse_Topology
begin

text \<open>
  The named regions: \<^verbatim>\<open>mxm_shm/region_manager.h\<close>, \<^verbatim>\<open>region_manager.cpp\<close> and
  \<^verbatim>\<open>region_repository.cpp\<close>.  The manager keeps a map of regions and writes each through to the record
  store; after a restart the map is rebuilt from the records and the current topology.
\<close>

section \<open>Repository\<close>

definition ToNodeIds :: "SHMRegionDesc \<Rightarrow> (nat list \<times> bool list) option" where
  "ToNodeIds region =
     (if rd_num region < 0 \<or> rd_num region > MEM_TOPOLOGY_MAX_HOSTS then None
      else let rs = map (\<lambda>i. (StrToUint (rd_nodeId region i), rd_affinity region i)) [0..<nat (rd_num region)] in
           if list_all (fst \<circ> fst) rs then Some (map (unat \<circ> snd \<circ> fst) rs, map snd rs) else None)"

definition UpdateRegionInfo :: "RegionInfo \<Rightarrow> ('w, bool) act" where
  "UpdateRegionInfo region =
     (case ToNodeIds (ri_region region) of
        None \<Rightarrow> return False
      | Some (nodeIds, affinitys) \<Rightarrow> do {
          hr \<leftarrow> call_store (AddRegionRecord \<lparr>cri_name = ri_name region, cri_size = ri_size region,
                                           cri_nodeIds = nodeIds, cri_affinity = affinitys\<rparr>);
          return (hr = 0) })"

definition RemoveRegionInfo :: "string \<Rightarrow> ('w, bool) act" where
  "RemoveRegionInfo name = do { hr \<leftarrow> call_store (DelRegionRecord name); return (hr = 0) }"

text \<open>
  Matching a record with a region of the topology: every node of the record takes the first free
  place with its identifier.  \<open>flag i\<close> is the affinity given to place \<open>i\<close>, if it is taken; an
  unreadable identifier makes the match fail.
\<close>

fun find_place :: "SHMRegionDesc \<Rightarrow> (nat \<Rightarrow> bool option) \<Rightarrow> nat \<Rightarrow> nat list \<Rightarrow> nat option" where
  "find_place example flag nid [] = None"
| "find_place example flag nid (i # rest) =
     (if flag i \<noteq> None then find_place example flag nid rest
      else let (ok, nodeId) = StrToUint (rd_nodeId example i) in
           if \<not> ok then None
           else if unat nodeId = nid then Some i
           else find_place example flag nid rest)"

fun match_nodes :: "SHMRegionDesc \<Rightarrow> (nat \<times> bool) list \<Rightarrow> (nat \<Rightarrow> bool option) \<Rightarrow> (nat \<Rightarrow> bool option) option" where
  "match_nodes example [] flag = Some flag"
| "match_nodes example ((nid, aff) # rest) flag =
     (case find_place example flag nid [0..<nat (rd_num example)] of
        None \<Rightarrow> None
      | Some i \<Rightarrow> match_nodes example rest (flag(i \<mapsto> aff)))"

definition CheckRegionMatched :: "CreateRegionInput \<Rightarrow> RegionInfo \<Rightarrow> SHMRegionDesc \<Rightarrow> RegionInfo option" where
  "CheckRegionMatched input output example =
     (if rd_num example < 0 \<or> rd_num example > MEM_TOPOLOGY_MAX_HOSTS \<or>
         length (cri_nodeIds input) \<noteq> length (cri_affinity input) \<or>
         int (length (cri_nodeIds input)) > rd_num example then None
      else case match_nodes example (zip (cri_nodeIds input) (cri_affinity input)) (\<lambda>_. None) of
        None \<Rightarrow> None
      | Some flag \<Rightarrow>
          let places = filter (\<lambda>i. flag i \<noteq> None) [0..<nat (rd_num example)] in
          if list_ex (\<lambda>i. strcpy_s MEM_MAX_ID_LENGTH (rd_nodeId example i) = None \<or>
                          strcpy_s MAX_HOST_NAME_DESC_LENGTH (rd_hostName example i) = None) places then None
          else Some (output\<lparr>ri_region := (ri_region output)\<lparr>rd_perfLevel := rd_perfLevel example,
                 rd_type := rd_type example, rd_num := int (length places),
                 rd_nodeId := (\<lambda>k. if k < length places then rd_nodeId example (places ! k) else rd_nodeId (ri_region output) k),
                 rd_hostName := (\<lambda>k. if k < length places then rd_hostName example (places ! k) else rd_hostName (ri_region output) k),
                 rd_affinity := (\<lambda>k. if k < length places then the (flag (places ! k)) else rd_affinity (ri_region output) k)\<rparr>\<rparr>))"

fun first_match :: "CreateRegionInput \<Rightarrow> RegionInfo \<Rightarrow> SHMRegions \<Rightarrow> nat list \<Rightarrow> RegionInfo option" where
  "first_match input region regions [] = None"
| "first_match input region regions (i # rest) =
     (case CheckRegionMatched input region (rs_region regions i) of
        Some out \<Rightarrow> Some out
      | None \<Rightarrow> first_match input region regions rest)"

definition TransRecordToRegionCache :: "CreateRegionInput \<Rightarrow> SHMRegions \<Rightarrow> RegionInfo option" where
  "TransRecordToRegionCache input regions =
     first_match input \<lparr>ri_name = cri_name input, ri_size = cri_size input, ri_region = new_SHMRegionDesc\<rparr>
       regions [0..<nat (rs_num regions)]"

definition RegionRepository_Recovery :: "'w env \<Rightarrow> ('w, RegionInfo list option) act" where
  "RegionRepository_Recovery E = do {
     records \<leftarrow> gets (ListRegionRecord \<circ> d_store);
     (hr, regionList) \<leftarrow> LookupRegionList E;
     if hr \<noteq> 0 then return None
     else let rs = map (\<lambda>elem. TransRecordToRegionCache elem regionList) records in
          return (if list_all (\<lambda>r. r \<noteq> None) rs then Some (map the rs) else None) }"

section \<open>Manager\<close>

definition CreateRegionInfo :: "RegionInfo \<Rightarrow> ('w, bool) act" where
  "CreateRegionInfo region = do {
     m \<leftarrow> gets d_regions;
     if map_of m (ri_name region) \<noteq> None then return False
     else do {
       modify (d_regions_update (map_assign (ri_name region) region));
       res \<leftarrow> UpdateRegionInfo region;
       if \<not> res then do {
         modify (d_regions_update (erase (ri_name region)));
         return False }
       else return True } }"

definition DeleteRegionInfo :: "string \<Rightarrow> ('w, bool) act" where
  "DeleteRegionInfo name = do {
     m \<leftarrow> gets d_regions;
     case map_of m name of
       None \<Rightarrow> return False
     | Some region \<Rightarrow> do {
         modify (d_regions_update (erase name));
         res \<leftarrow> RemoveRegionInfo name;
         if \<not> res then do {
           modify (d_regions_update (map_assign (ri_name region) region));
           return False }
         else return True } }"

definition RegionManager_GetRegionInfo :: "string \<Rightarrow> ('w, RegionInfo option) act" where
  "RegionManager_GetRegionInfo name = gets (\<lambda>d. map_of (d_regions d) name)"

fun recover_regions :: "RegionInfo list \<Rightarrow> ('w, bool) act" where
  "recover_regions [] = return True"
| "recover_regions (elem # rest) = do {
     m \<leftarrow> gets d_regions;
     if map_of m (ri_name elem) \<noteq> None then return False
     else do { modify (d_regions_update (map_assign (ri_name elem) elem)); recover_regions rest } }"

definition RecoverFromRamFS :: "'w env \<Rightarrow> ('w, bool) act" where
  "RecoverFromRamFS E = do {
     regions \<leftarrow> RegionRepository_Recovery E;
     case regions of None \<Rightarrow> return False | Some rs \<Rightarrow> recover_regions rs }"

definition RegionManager_Recovery :: "'w env \<Rightarrow> ('w, int) act" where
  "RegionManager_Recovery E = do {
     res \<leftarrow> RecoverFromRamFS E;
     return (if res then HOK else MXM_ERR_PARAM_INVALID) }"

section \<open>The map and the records agree\<close>

definition region_input :: "RegionInfo \<Rightarrow> CreateRegionInput option" where
  "region_input r = map_option (\<lambda>(ids, affs). \<lparr>cri_name = ri_name r, cri_size = ri_size r,
     cri_nodeIds = ids, cri_affinity = affs\<rparr>) (ToNodeIds (ri_region r))"

definition regions_inv :: "'w daemon \<Rightarrow> bool" where
  "regions_inv d \<longleftrightarrow> store_inv (d_store d) \<and> map_ok (d_regions d) \<and>
     (\<forall>n r. map_of (d_regions d) n = Some r \<longrightarrow> ri_name r = n \<and> region_input r \<noteq> None) \<and>
     as_regions (abs_of (d_store d)) =
       (\<lambda>n. Option.bind (map_of (d_regions d) n) (\<lambda>r. map_option region_norm (region_input r)))"

lemma exec_call:
  assumes "store_inv st" "op_named op"
  shows "store_inv (snd (exec_op op st))"
    "abs_of (snd (exec_op op st)) = (if fst (exec_op op st) = 0 then abs_op op (abs_of st) else abs_of st)"
    "fst (exec_op op st) = 0 \<longleftrightarrow> op_pre op (abs_of st) \<and> op_room op st"
  using exec_inv[OF assms] exec_eff[OF assms] exec_ret[OF assms] by (metis prod.collapse)+

lemma region_input_name: "region_input r = Some i \<Longrightarrow> cri_name i = ri_name r"
  by (auto simp: region_input_def)

lemma CreateRegionInfo_run:
  assumes "regions_inv d" "good_name (ri_name r)"
  defines "d' \<equiv> snd (run_state (CreateRegionInfo r) d)" and "ok \<equiv> fst (run_state (CreateRegionInfo r) d)"
  shows "regions_inv d'" "map_of (d_regions d') = (if ok then (map_of (d_regions d))(ri_name r \<mapsto> r) else map_of (d_regions d))"
proof -
  consider (old) "map_of (d_regions d) (ri_name r) \<noteq> None"
    | (bad) "map_of (d_regions d) (ri_name r) = None" "region_input r = None"
    | (call) input where "map_of (d_regions d) (ri_name r) = None" "region_input r = Some input" by auto
  then have "regions_inv d' \<and>
    map_of (d_regions d') = (if ok then (map_of (d_regions d))(ri_name r \<mapsto> r) else map_of (d_regions d))"
  proof cases
    case old
    then show ?thesis using assms(1) by (simp add: d'_def ok_def CreateRegionInfo_def)
  next
    case bad
    have "run_state (CreateRegionInfo r) d = (False, d\<lparr>d_regions := erase (ri_name r) (map_assign (ri_name r) r (d_regions d))\<rparr>)"
      using bad by (simp add: CreateRegionInfo_def UpdateRegionInfo_def region_input_def)
    then show ?thesis
      using assms(1) bad by (simp add: d'_def ok_def regions_inv_def ordered_map ordered_map_ok fun_upd_idem)
  next
    case call
    let ?x = "exec_op (OpAddRegion input) (d_store d)"
    have n: "op_named (OpAddRegion input)" using assms(2) region_input_name[OF call(2)] by simp
    have inv: "store_inv (d_store d)" using assms(1) by (simp add: regions_inv_def)
    have run: "run_state (CreateRegionInfo r) d = (fst ?x = 0,
        d\<lparr>d_regions := (if fst ?x = 0 then id else erase (ri_name r)) (map_assign (ri_name r) r (d_regions d)),
          d_store := snd ?x\<rparr>)"
      using call by (auto simp: CreateRegionInfo_def UpdateRegionInfo_def region_input_def split: prod.split)
    have abs: "as_regions (abs_of (snd ?x)) =
        (if fst ?x = 0 then (as_regions (abs_of (d_store d)))(ri_name r \<mapsto> region_norm input)
         else as_regions (abs_of (d_store d)))"
      using exec_call(2)[OF inv n] region_input_name[OF call(2)] by (simp del: exec_op.simps)
    show ?thesis
    proof (cases "fst ?x = 0")
      case True
      then show ?thesis
        using assms(1) call(2) run abs exec_call(1)[OF inv n]
        by (auto simp: d'_def ok_def regions_inv_def ordered_map ordered_map_ok fun_eq_iff simp del: exec_op.simps)
    next
      case False
      then show ?thesis
        using assms(1) call run abs exec_call(1)[OF inv n]
        by (simp add: d'_def ok_def regions_inv_def ordered_map ordered_map_ok fun_upd_idem del: exec_op.simps)
    qed
  qed
  then show "regions_inv d'"
    "map_of (d_regions d') = (if ok then (map_of (d_regions d))(ri_name r \<mapsto> r) else map_of (d_regions d))" by auto
qed

lemma DeleteRegionInfo_run:
  fixes n :: string
  assumes "regions_inv d"
  defines "d' \<equiv> snd (run_state (DeleteRegionInfo n) d)" and "ok \<equiv> fst (run_state (DeleteRegionInfo n) d)"
  shows "regions_inv d' \<and> (ok \<longleftrightarrow> map_of (d_regions d) n \<noteq> None) \<and>
    map_of (d_regions d') = (map_of (d_regions d))(n := None)"
proof (cases "map_of (d_regions d) n")
  case None
  then show ?thesis using assms(1) by (auto simp: d'_def ok_def DeleteRegionInfo_def fun_upd_idem)
next
  case (Some r)
  let ?x = "exec_op (OpDelRegion n) (d_store d)"
  have inv: "store_inv (d_store d)" using assms(1) by (simp add: regions_inv_def)
  have "op_pre (OpDelRegion n) (abs_of (d_store d))"
    using assms(1) Some by (auto simp: regions_inv_def dom_def)
  then have 0: "fst ?x = 0" using exec_call(3)[OF inv, of "OpDelRegion n"] by simp
  have run: "run_state (DeleteRegionInfo n) d = (True, d\<lparr>d_regions := erase n (d_regions d), d_store := snd ?x\<rparr>)"
    using Some 0 by (simp add: DeleteRegionInfo_def RemoveRegionInfo_def)
  then show ?thesis
    using assms(1) Some exec_call(1,2)[OF inv, of "OpDelRegion n"] 0
    by (auto simp: d'_def ok_def regions_inv_def ordered_map ordered_map_ok fun_eq_iff simp del: exec_op.simps)
qed

section \<open>Recovery\<close>

text \<open>What a successful match gives: the marked places carry exactly the nodes of the record.\<close>

definition place_id :: "SHMRegionDesc \<Rightarrow> nat \<Rightarrow> nat \<Rightarrow> bool" where
  "place_id example i nid \<longleftrightarrow> fst (StrToUint (rd_nodeId example i)) \<and> unat (snd (StrToUint (rd_nodeId example i))) = nid"

lemma find_place_Some:
  "find_place example flag nid is = Some i \<Longrightarrow> i \<in> set is \<and> flag i = None \<and> place_id example i nid"
  by (induction "is") (auto simp: place_id_def split: if_splits prod.splits)

lemma match_nodes_Some:
  assumes "match_nodes example l flag = Some flag'"
  shows "(\<forall>i a. flag i = Some a \<longrightarrow> flag' i = Some a) \<and>
    (\<forall>(nid, a)\<in>set l. \<exists>i<nat (rd_num example). flag' i = Some a \<and> place_id example i nid) \<and>
    (\<forall>i a. flag i = None \<longrightarrow> flag' i = Some a \<longrightarrow>
       i < nat (rd_num example) \<and> (\<exists>nid. (nid, a) \<in> set l \<and> place_id example i nid))"
  using assms
proof (induction l arbitrary: flag)
  case (Cons x l)
  obtain nid aff where x: "x = (nid, aff)" by (cases x)
  from Cons.prems obtain i where i: "find_place example flag nid [0..<nat (rd_num example)] = Some i"
      "match_nodes example l (flag(i \<mapsto> aff)) = Some flag'"
    by (auto simp: x split: option.splits)
  note f = find_place_Some[OF i(1)]
  note IH = Cons.IH[OF i(2)]
  have "flag' i = Some aff" using IH by simp
  moreover have "flag' j = Some a" if "flag j = Some a" for j a
  proof -
    have "(flag(i \<mapsto> aff)) j = Some a" using that f by auto
    then show ?thesis using IH by blast
  qed
  moreover have "j < nat (rd_num example) \<and> (\<exists>nid. (nid, a) \<in> set (x # l) \<and> place_id example j nid)"
    if "flag j = None" "flag' j = Some a" for j a
  proof (cases "j = i")
    case True
    then show ?thesis using f that \<open>flag' i = Some aff\<close> x by auto
  next
    case False
    then have "(flag(i \<mapsto> aff)) j = None" using that by simp
    then have "j < nat (rd_num example) \<and> (\<exists>nid. (nid, a) \<in> set l \<and> place_id example j nid)"
      using IH that(2) by blast
    then show ?thesis by auto
  qed
  moreover have "\<forall>(nid, a)\<in>set (x # l). \<exists>i<nat (rd_num example). flag' i = Some a \<and> place_id example i nid"
    using IH f x \<open>flag' i = Some aff\<close> by auto
  ultimately show ?case by blast
qed simp

lemma region_norm_cong:
  assumes "cri_name a = cri_name b" "cri_size a = cri_size b"
    "length (cri_nodeIds a) = length (cri_affinity a)" "length (cri_nodeIds b) = length (cri_affinity b)"
    "set (zip (cri_nodeIds a) (cri_affinity a)) = set (zip (cri_nodeIds b) (cri_affinity b))"
  shows "region_norm a = region_norm b"
proof -
  have ids: "set (cri_nodeIds x) = fst ` set (zip (cri_nodeIds x) (cri_affinity x))"
    if "length (cri_nodeIds x) = length (cri_affinity x)" for x :: CreateRegionInput
    using that by (metis list.set_map map_fst_zip)
  have aff: "(\<exists>i<length (cri_nodeIds x). cri_nodeIds x ! i = n \<and> cri_affinity x ! i) \<longleftrightarrow>
      (n, True) \<in> set (zip (cri_nodeIds x) (cri_affinity x))"
    if "length (cri_nodeIds x) = length (cri_affinity x)" for x :: CreateRegionInput and n
    using that by (auto simp: in_set_zip)
  have "set (cri_nodeIds a) = set (cri_nodeIds b)" using ids[of a] ids[of b] assms(3-5) by simp
  moreover have "(\<exists>i<length (cri_nodeIds a). cri_nodeIds a ! i = n \<and> cri_affinity a ! i) \<longleftrightarrow>
      (\<exists>i<length (cri_nodeIds b). cri_nodeIds b ! i = n \<and> cri_affinity b ! i)" for n
    unfolding aff[OF assms(3)] aff[OF assms(4)] assms(5) ..
  ultimately show ?thesis
    using assms(1,2) unfolding region_norm_def Let_def by (intro CreateRegionInput.equality) simp_all
qed

lemma CheckRegionMatched_Some:
  assumes "CheckRegionMatched input output example = Some r" "ri_name output = cri_name input" "ri_size output = cri_size input"
  shows "ri_name r = cri_name input \<and> (\<exists>i. region_input r = Some i \<and> region_norm i = region_norm input)"
proof -
  define ids where "ids = cri_nodeIds input"
  define affs where "affs = cri_affinity input"
  obtain flag where num: "0 \<le> rd_num example" "rd_num example \<le> MEM_TOPOLOGY_MAX_HOSTS" "length ids = length affs"
    and flag: "match_nodes example (zip ids affs) (\<lambda>_. None) = Some flag"
    using assms(1) by (auto simp: CheckRegionMatched_def ids_def affs_def not_less split: if_splits option.splits)
  define places where "places = filter (\<lambda>i. flag i \<noteq> None) [0..<nat (rd_num example)]"
  have r: "ri_name r = ri_name output" "ri_size r = ri_size output" "rd_num (ri_region r) = int (length places)"
    "\<And>k. k < length places \<Longrightarrow> rd_nodeId (ri_region r) k = rd_nodeId example (places ! k)"
    "\<And>k. k < length places \<Longrightarrow> rd_affinity (ri_region r) k = the (flag (places ! k))"
    using assms(1) flag
    by (auto simp: CheckRegionMatched_def ids_def affs_def places_def Let_def split: if_splits)
  note M = match_nodes_Some[OF flag]
  have placed: "\<exists>nid. (nid, the (flag i)) \<in> set (zip ids affs) \<and> place_id example i nid" if "i \<in> set places" for i
    using that M by (auto simp: places_def)
  have "length places \<le> nat (rd_num example)"
    unfolding places_def by (rule order_trans[OF length_filter_le]) simp
  then have small: "int (length places) \<le> MEM_TOPOLOGY_MAX_HOSTS" using num by linarith
  define ids' where "ids' = map (\<lambda>i. unat (snd (StrToUint (rd_nodeId example i)))) places"
  define affs' where "affs' = map (\<lambda>i. the (flag i)) places"
  have T: "ToNodeIds (ri_region r) = Some (ids', affs')"
    using small r placed unfolding ToNodeIds_def ids'_def affs'_def
    by (auto simp: list_all_iff place_id_def Let_def intro!: nth_equalityI)
  have zip': "zip ids' affs' = map (\<lambda>i. (unat (snd (StrToUint (rd_nodeId example i))), the (flag i))) places"
    unfolding ids'_def affs'_def by (induction places) auto
  have "set (zip ids' affs') = set (zip ids affs)"
  proof (rule set_eqI, clarify)
    fix nid a
    have "(nid, a) \<in> set (zip ids' affs')" if mem: "(nid, a) \<in> set (zip ids affs)"
    proof -
      from M mem obtain i where "i < nat (rd_num example)" "flag i = Some a" "place_id example i nid" by blast
      then show ?thesis by (force simp: zip' places_def place_id_def)
    qed
    moreover have "(nid, a) \<in> set (zip ids affs)" if mem: "(nid, a) \<in> set (zip ids' affs')"
    proof -
      from mem obtain i where "i \<in> set places" "nid = unat (snd (StrToUint (rd_nodeId example i)))" "a = the (flag i)"
        by (auto simp: zip')
      then show ?thesis using placed[of i] by (auto simp: place_id_def)
    qed
    ultimately show "(nid, a) \<in> set (zip ids' affs') \<longleftrightarrow> (nid, a) \<in> set (zip ids affs)" by blast
  qed
  then have "region_norm \<lparr>cri_name = ri_name r, cri_size = ri_size r, cri_nodeIds = ids', cri_affinity = affs'\<rparr> =
      region_norm input"
    using num(3) r(1,2) assms(2,3) by (intro region_norm_cong) (simp_all add: ids'_def affs'_def ids_def affs_def)
  then show ?thesis using T r(1) assms(2) by (simp add: region_input_def)
qed

lemma first_match_Some:
  assumes "first_match input output regions is = Some r" "ri_name output = cri_name input" "ri_size output = cri_size input"
  shows "ri_name r = cri_name input \<and> (\<exists>i. region_input r = Some i \<and> region_norm i = region_norm input)"
  using assms
proof (induction "is")
  case (Cons i "is")
  then show ?case
    using CheckRegionMatched_Some[of input _ "rs_region regions i"]
    by (cases "CheckRegionMatched input output (rs_region regions i)") auto
qed simp

lemma TransRecordToRegionCache_Some:
  "TransRecordToRegionCache input regions = Some r \<Longrightarrow>
   ri_name r = cri_name input \<and> (\<exists>i. region_input r = Some i \<and> region_norm i = region_norm input)"
  unfolding TransRecordToRegionCache_def by (erule first_match_Some) simp_all

text \<open>Regions of the store are already in normal form, under their names.\<close>

lemma stored_region:
  assumes "store_inv st" "as_regions (abs_of st) n = Some i"
  shows "cri_name i = n \<and> region_norm i = i"
proof -
  have I: "region.cached (regionAllocator st) (cachedRegionRecords st)" using assms(1) by (simp add: store_inv_defs)
  from assms(2) obtain e where e: "map_of (cachedRegionRecords st) n = Some e"
    "i = region_of (recordAddress (regionAllocator st) e) e"
    by (auto simp: abs_of_def dest: region.view_SomeD)
  define r where "r = recordAddress (regionAllocator st) e"
  define ns where "ns = filter (node_bit (rg_bitmap r)) [0..<1024]"
  have name: "rg_name r = n" using region.cached_entry[OF I e(1)] by (simp add: r_def)
  have i: "cri_name i = rg_name r" "cri_nodeIds i = ns" "cri_affinity i = map (node_bit (rg_bitmapAffinity r)) ns"
    using e(2) by (simp_all add: region_of_def region_info_def list_bitmap_eq r_def ns_def comp_def)
  have ns: "filter (\<lambda>m. m \<in> set ns) [0..<REGION_NODE_BITMAP_COUNT] = ns"
    unfolding ns_def REGION_NODE_BITMAP_COUNT_def by (rule filter_cong) auto
  have "(\<exists>k<length ns. ns ! k = m \<and> map (node_bit (rg_bitmapAffinity r)) ns ! k) \<longleftrightarrow> node_bit (rg_bitmapAffinity r) m"
    if "m \<in> set ns" for m
    using that by (auto simp: in_set_conv_nth)
  then have "region_norm i = i"
    unfolding region_norm_def Let_def i ns by (intro CreateRegionInput.equality) (simp_all add: i)
  then show ?thesis using i(1) name by simp
qed

lemma recover_regions_run:
  assumes "fst (run_state (recover_regions rs) d)" "map_ok (d_regions d)"
  defines "d' \<equiv> snd (run_state (recover_regions rs) d)"
  shows "d' = d\<lparr>d_regions := d_regions d'\<rparr> \<and> map_ok (d_regions d') \<and>
    (\<forall>n r. map_of (d_regions d') n = Some r \<longleftrightarrow> map_of (d_regions d) n = Some r \<or> r \<in> set rs \<and> ri_name r = n)"
  using assms(1,2) unfolding d'_def
proof (induction rs arbitrary: d)
  case (Cons e rs)
  let ?d = "d_regions_update (map_assign (ri_name e) e) d"
  have new: "map_of (d_regions d) (ri_name e) = None"
    and run: "run_state (recover_regions (e # rs)) d = run_state (recover_regions rs) ?d"
    using Cons.prems(1) by (auto split: if_splits)
  let ?d' = "snd (run_state (recover_regions rs) ?d)"
  have IH: "?d' = ?d\<lparr>d_regions := d_regions ?d'\<rparr>" "map_ok (d_regions ?d')"
    "\<forall>n r. map_of (d_regions ?d') n = Some r \<longleftrightarrow> map_of (d_regions ?d) n = Some r \<or> r \<in> set rs \<and> ri_name r = n"
    using Cons.IH[of ?d] Cons.prems run by (simp_all add: ordered_map_ok)
  have "?d' = d\<lparr>d_regions := d_regions ?d'\<rparr>" using IH(1) by simp
  moreover have "map_of (d_regions ?d') n = Some r \<longleftrightarrow>
      map_of (d_regions d) n = Some r \<or> r \<in> set (e # rs) \<and> ri_name r = n" for n r
    using IH(3) new by (auto simp: ordered_map)
  ultimately show ?case using IH(2) unfolding run by blast
qed simp

text \<open>After a successful recovery into an empty manager, the map agrees with the records.\<close>

lemma LookupRegionList_frame: "preserves (\<lambda>d. (d_store d, d_mls d, d_regions d, d_shm d, d_mon d)) (LookupRegionList E)"
  unfolding LookupRegionList_def Initialize_def InitializeRegionList_def PopulateHostNameMap_def
  by (intro allI keeps_intros keeps_modify) (auto simp: triple_def)

lemma RecoverFromRamFS_inv:
  assumes "store_inv (d_store d)" "d_regions d = []" "fst (run_state (RecoverFromRamFS E) d)"
  shows "regions_inv (snd (run_state (RecoverFromRamFS E) d))"
proof -
  define records where "records = ListRegionRecord (d_store d)"
  obtain hr rl d1 where L: "run_state (LookupRegionList E) d = ((hr, rl), d1)" by (metis surj_pair)
  have d1: "d_store d1 = d_store d" "d_regions d1 = []"
    using preserves_run[OF LookupRegionList_frame, of E d] assms(2) L by simp_all
  define rs where "rs = map (\<lambda>i. TransRecordToRegionCache i rl) records"
  have ok: "hr = 0" "list_all (\<lambda>r. r \<noteq> None) rs"
    and run: "run_state (RecoverFromRamFS E) d = run_state (recover_regions (map the rs)) d1"
    using assms(3) L by (auto simp: RecoverFromRamFS_def RegionRepository_Recovery_def Let_def records_def rs_def split: if_splits)
  define d' where "d' = snd (run_state (recover_regions (map the rs)) d1)"
  have R: "d' = d1\<lparr>d_regions := d_regions d'\<rparr>" "map_ok (d_regions d')"
    "\<And>n r. map_of (d_regions d') n = Some r \<longleftrightarrow> r \<in> set (map the rs) \<and> ri_name r = n"
    using recover_regions_run[of "map the rs" d1] assms(3) run d1 by (auto simp: d'_def)
  let ?A = "as_regions (abs_of (d_store d))"
  have store: "d_store d' = d_store d" using R(1) d1(1) by (metis daemon.select_convs(1) daemon.surjective daemon.update_convs(3))
  have rec: "set records = ran ?A" by (simp add: records_def set_ListRegionRecord[OF assms(1)])
  have T: "ri_name (the (TransRecordToRegionCache i rl)) = n \<and>
      map_option region_norm (region_input (the (TransRecordToRegionCache i rl))) = Some i"
    if "?A n = Some i" for n i
  proof -
    have "i \<in> set records" using that rec by (auto simp: ran_def)
    then obtain r where "TransRecordToRegionCache i rl = Some r" using ok(2) by (auto simp: rs_def list_all_iff)
    then show ?thesis
      using TransRecordToRegionCache_Some[of i rl r] stored_region[OF assms(1) that] by auto
  qed
  have origin: "\<exists>i. ?A n = Some i \<and> r = the (TransRecordToRegionCache i rl)" if "map_of (d_regions d') n = Some r" for n r
  proof -
    from that obtain i where i: "i \<in> set records" "r = the (TransRecordToRegionCache i rl)" "ri_name r = n"
      unfolding R(3) rs_def by auto
    then obtain m where "?A m = Some i" using rec by (auto simp: ran_def)
    then show ?thesis using T i by auto
  qed
  have forth: "map_of (d_regions d') n = Some (the (TransRecordToRegionCache i rl))" if "?A n = Some i" for n i
    using T[OF that] that rec by (auto simp: R(3) rs_def ran_def)
  have "?A n = Option.bind (map_of (d_regions d') n) (\<lambda>r. map_option region_norm (region_input r))" for n
  proof (cases "?A n")
    case None
    then have "map_of (d_regions d') n = None" using origin by (metis not_None_eq)
    then show ?thesis using None by simp
  next
    case (Some i)
    then show ?thesis using forth[OF Some] T[OF Some] by auto
  qed
  moreover have "ri_name r = n \<and> region_input r \<noteq> None" if "map_of (d_regions d') n = Some r" for n r
    using origin[OF that] T by auto
  ultimately show ?thesis
    using assms(1) R(2) store run unfolding regions_inv_def d'_def[symmetric] by (auto simp: d'_def)
qed

end
