(* ===== verification/Mem_Monitor.thy ===== *)
theory Mem_Monitor
  imports Daemon_State
begin

text \<open>
  The queue of delayed removals of \<^verbatim>\<open>process/monitor/ubs_mem_monitor.cpp\<close>: memory that could not be
  given back is kept with the time of the next attempt, and its name is busy as long as it is there.
\<close>

definition ONE_SECOND_MS :: u64 where
  "ONE_SECOND_MS = 1000"

definition ONE_MINUTE_MS :: u64 where
  "ONE_MINUTE_MS = 60 * ONE_SECOND_MS"

definition MAX_DELAY_TIME_MS :: u64 where
  "MAX_DELAY_TIME_MS = 60 * ONE_MINUTE_MS"

lemmas delay_times = ONE_SECOND_MS_def ONE_MINUTE_MS_def MAX_DELAY_TIME_MS_def

definition new_DelayRemovedKey ::
  "'w env \<Rightarrow> string \<Rightarrow> u64 \<Rightarrow> bool \<Rightarrow> AppContext \<Rightarrow> bool \<Rightarrow> bool \<Rightarrow> bool \<Rightarrow> ('w, DelayRemovedKey) act" where
  "new_DelayRemovedKey E nm delay isLease appCtx changed isNumaLease isTimeOutScene = do {
     nowMilli \<leftarrow> ask (os_now E);
     return \<lparr>dk_isLease = isLease, dk_retryTimes = 0, dk_expiresTime = nowMilli + delay, dk_name = nm,
             dk_appCtx = appCtx, dk_changed = changed, dk_isNumaLease = isNumaLease,
             dk_timeOutScene = isTimeOutScene, dk_isAttach = False, dk_createSeqNo = 0\<rparr> }"

definition delay_key :: "DelayRemovedKey \<Rightarrow> u64 \<times> string" where
  "delay_key k = (dk_expiresTime k, dk_name k)"

definition add_delayed :: "DelayRemovedKey \<Rightarrow> mem_monitor \<Rightarrow> mem_monitor" where
  "add_delayed key m = m\<lparr>delayedRemoveKeys := map_emplace (delay_key key) key (delayedRemoveKeys m),
     delayedRemoveKeysByName := map_emplace (dk_name key) key (delayedRemoveKeysByName m)\<rparr>"

definition erase_delayed :: "DelayRemovedKey \<Rightarrow> mem_monitor \<Rightarrow> mem_monitor" where
  "erase_delayed key m = m\<lparr>delayedRemoveKeysByName := erase (dk_name key) (delayedRemoveKeysByName m),
     delayedRemoveKeys := erase (delay_key key) (delayedRemoveKeys m)\<rparr>"

definition busy_name :: "string \<Rightarrow> mem_monitor \<Rightarrow> bool" where
  "busy_name n m \<longleftrightarrow> map_of (delayedRemoveKeysByName m) n \<noteq> None"

definition AddDelayRemoveRecord :: "DelayRemovedKey \<Rightarrow> ('w, unit) act" where
  "AddDelayRemoveRecord key = modify (d_mon_update (add_delayed key))"

definition GetDelayRemoveRecord :: "string \<Rightarrow> ('w, bool) act" where
  "GetDelayRemoveRecord name = gets (\<lambda>d. busy_name name (d_mon d))"

text \<open>The time of the next attempt; sums and products saturate.\<close>

definition linear_delay :: "u64 \<Rightarrow> u64 \<Rightarrow> u64 \<Rightarrow> u64 \<Rightarrow> u64" where
  "linear_delay nowTime retryTimes stepMs maxDelayMs =
     (let delay = (if retryTimes > 0 then
                     if stepMs > (- 1) div retryTimes then - 1
                     else let stepProduct = stepMs * retryTimes in
                          if nowTime > - 1 - stepProduct then - 1 else nowTime + stepProduct
                   else nowTime)
      in min delay (maxDelayMs + nowTime))"

definition LinearDelayMs :: "'w env \<Rightarrow> u64 \<Rightarrow> u64 \<Rightarrow> u64 \<Rightarrow> ('w, u64) act" where
  "LinearDelayMs E retryTimes stepMs maxDelayMs = do {
     nowTime \<leftarrow> ask (os_now E);
     return (linear_delay nowTime retryTimes stepMs maxDelayMs) }"

section \<open>Pending names are busy\<close>

definition pending :: "mem_monitor \<Rightarrow> string set" where
  "pending m = dk_name ` snd ` set (delayedRemoveKeys m)"

text \<open>Names of pending removals occur once, and exactly they are busy.\<close>

definition mon_inv :: "mem_monitor \<Rightarrow> bool" where
  "mon_inv m \<longleftrightarrow> map_ok (delayedRemoveKeys m) \<and> map_ok (delayedRemoveKeysByName m) \<and>
     (\<forall>(t, k)\<in>set (delayedRemoveKeys m). t = delay_key k) \<and>
     distinct (map (dk_name \<circ> snd) (delayedRemoveKeys m)) \<and>
     fst ` set (delayedRemoveKeysByName m) = pending m"

lemma busy_pending: "mon_inv m \<Longrightarrow> busy_name n m \<longleftrightarrow> n \<in> pending m"
  by (simp add: mon_inv_def busy_name_def map_of_eq_None_iff)

lemma mon_entry: "mon_inv m \<Longrightarrow> (t, k) \<in> set (delayedRemoveKeys m) \<Longrightarrow> t = delay_key k \<and> dk_name k \<in> pending m"
  unfolding mon_inv_def pending_def by (simp add: image_iff split_beta) (metis fst_conv snd_conv)

lemma distinct_insort_name:
  "distinct (map f (insort_key g x xs)) \<longleftrightarrow> f x \<notin> f ` set xs \<and> distinct (map f xs)"
  by (induction xs) (auto simp: set_insort_key)

lemma add_delayed_inv:
  assumes "mon_inv m" "\<not> busy_name (dk_name key) m"
  shows "mon_inv (add_delayed key m) \<and> pending (add_delayed key m) = insert (dk_name key) (pending m)"
proof -
  have new: "dk_name key \<notin> pending m" using assms busy_pending by blast
  have fresh: "delay_key key \<notin> fst ` set (delayedRemoveKeys m)"
  proof
    assume "delay_key key \<in> fst ` set (delayedRemoveKeys m)"
    then obtain k where "(delay_key key, k) \<in> set (delayedRemoveKeys m)" by auto
    then have "delay_key key = delay_key k" "dk_name k \<in> pending m"
      using mon_entry[OF assms(1)] by blast+
    then show False using new by (simp add: delay_key_def)
  qed
  have S: "set (delayedRemoveKeys (add_delayed key m)) = insert (delay_key key, key) (set (delayedRemoveKeys m))"
    using fresh by (simp add: add_delayed_def map_emplace_def set_insort_entry)
  have N: "set (delayedRemoveKeysByName (add_delayed key m)) =
      insert (dk_name key, key) (set (delayedRemoveKeysByName m))"
    using assms(2) by (simp add: add_delayed_def busy_name_def set_map_emplace)
  have P: "pending (add_delayed key m) = insert (dk_name key) (pending m)"
    by (simp add: pending_def S)
  have "distinct (map (dk_name \<circ> snd) (delayedRemoveKeys (add_delayed key m)))"
    using assms(1) fresh new
    by (auto simp: add_delayed_def map_emplace_def distinct_insort_name mon_inv_def pending_def image_image)
  then show ?thesis
    using assms(1) P S N by (simp add: mon_inv_def) (simp add: add_delayed_def map_emplace_ok)
qed

lemma erase_delayed_inv:
  assumes "mon_inv m" "(delay_key key, key') \<in> set (delayedRemoveKeys m)"
  shows "mon_inv (erase_delayed key m) \<and> pending (erase_delayed key m) = pending m - {dk_name key}"
proof -
  have key': "dk_name key' = dk_name key" using mon_entry[OF assms] by (simp add: delay_key_def)
  have S: "set (delayedRemoveKeys (erase_delayed key m)) = {e \<in> set (delayedRemoveKeys m). fst e \<noteq> delay_key key}"
    using assms(1) by (simp add: erase_delayed_def mon_inv_def erase_entries)
  have E: "dk_name (snd e) = dk_name key \<longleftrightarrow> fst e = delay_key key" if "e \<in> set (delayedRemoveKeys m)" for e
  proof
    assume "dk_name (snd e) = dk_name key"
    moreover have "inj_on (dk_name \<circ> snd) (set (delayedRemoveKeys m))"
      using assms(1) by (simp add: mon_inv_def distinct_map)
    ultimately have "e = (delay_key key, key')"
      using assms(2) that key' by (simp add: inj_on_def)
    then show "fst e = delay_key key" by simp
  next
    assume "fst e = delay_key key"
    then show "dk_name (snd e) = dk_name key"
      using mon_entry[OF assms(1), of "fst e" "snd e"] that unfolding delay_key_def prod.collapse by simp
  qed
  have P: "pending (erase_delayed key m) = pending m - {dk_name key}"
  proof -
    have "{e \<in> set (delayedRemoveKeys m). fst e \<noteq> delay_key key} =
        {e \<in> set (delayedRemoveKeys m). dk_name (snd e) \<noteq> dk_name key}"
      by (intro Collect_cong conj_cong refl) (simp add: E)
    then show ?thesis unfolding pending_def S by auto
  qed
  have D: "distinct (map (dk_name \<circ> snd) (delayedRemoveKeys (erase_delayed key m)))"
    using assms(1) by (simp add: erase_delayed_def mon_inv_def distinct_map AList.delete_eq inj_on_def)
  have N: "fst ` set (delayedRemoveKeysByName (erase_delayed key m)) = pending m - {dk_name key}"
    using assms(1) by (auto simp: erase_delayed_def mon_inv_def erase_entries)
  then show ?thesis
    using assms(1) P D N by (simp add: mon_inv_def) (auto simp: erase_delayed_def map_ok_erase erase_entries)
qed

end
