(* ===== verification/Ubse_Adapter.thy ===== *)
theory Ubse_Adapter
  imports Region_Manager Mem_Monitor
begin

text \<open>
  The calls of the UBS engine for leased and shared memory, \<^verbatim>\<open>under_api/ubse/ubse_mem_adapter.cpp\<close>:
  each prepares the arguments, maps the codes of the engine to those of the daemon, and queues a
  delayed removal when the engine times out.
\<close>

section \<open>Slots of a region\<close>

fun affine_slots :: "SHMRegionDesc \<Rightarrow> nat list \<Rightarrow> u32 list \<Rightarrow> u32 list option" where
  "affine_slots region [] slotIds = Some slotIds"
| "affine_slots region (i # rest) slotIds =
     (if \<not> rd_affinity region i then affine_slots region rest slotIds
      else let (ok, tempSlotId) = StrToUint (rd_nodeId region i) in
           if \<not> ok then None else affine_slots region rest (slotIds @ [tempSlotId]))"

definition region_slots :: "SHMRegionDesc \<Rightarrow> int \<times> u32 list" where
  "region_slots region =
     (case affine_slots region [0..<nat (rd_num region)] [] of
        None \<Rightarrow> (MXM_ERR_PARAM_INVALID, [])
      | Some slotIds \<Rightarrow> if slotIds = [] then (MXM_ERR_PARAM_INVALID, []) else (MXM_OK, slotIds))"

definition GetRegionInfo :: "'w env \<Rightarrow> string \<Rightarrow> ('w, int \<times> u32 list) act" where
  "GetRegionInfo E regionName =
     (if regionName = ''default'' then do {
        (hr, regions) \<leftarrow> LookupRegionList E;
        if hr \<noteq> 0 \<or> rs_num regions = 0 then return (hr, [])
        else return (region_slots ((rs_region regions 0)\<lparr>rd_affinity := \<lambda>_. True\<rparr>)) }
      else do {
        r \<leftarrow> RegionManager_GetRegionInfo regionName;
        case r of None \<Rightarrow> return (MXM_ERR_REGION_NOT_FOUND, [])
        | Some regionInfo \<Rightarrow> return (region_slots (ri_region regionInfo)) })"

section \<open>Leases\<close>

record LeaseMallocParam =
  lp_name :: string
  lp_regionName :: string
  lp_size :: u64
  lp_isNuma :: bool
  lp_distance :: u16
  lp_appContext :: AppContext

record LeaseMallocWithLocParam =
  ll_name :: string
  ll_size :: u64
  ll_isNuma :: bool
  ll_appContext :: AppContext
  ll_slotId :: u32
  ll_socketId :: u32
  ll_numaId :: u32
  ll_portId :: u32

definition S_IRUSR :: u32 where "S_IRUSR = 0x100"

definition S_IWUSR :: u32 where "S_IWUSR = 0x80"

definition new_LeaseMallocResult :: LeaseMallocResult where
  "new_LeaseMallocResult = \<lparr>lmr_memIds = [], lmr_numaId = - 1, lmr_unitSize = 0, lmr_slotId = 0\<rparr>"

text \<open>What both allocations do with the answer of the engine.\<close>

definition lease_timed_out :: "'w env \<Rightarrow> string \<Rightarrow> AppContext \<Rightarrow> bool \<Rightarrow> ('w, int \<times> LeaseMallocResult) act" where
  "lease_timed_out E name ctx isNuma = do {
     removedKey \<leftarrow> new_DelayRemovedKey E name ONE_MINUTE_MS True ctx False isNuma True;
     AddDelayRemoveRecord removedKey;
     return (UBS_ERR_TIMED_OUT, new_LeaseMallocResult) }"

definition lease_failed :: "int \<Rightarrow> int" where
  "lease_failed hr = (if hr = UBS_ERR_NOT_SUPPORTED then MXM_ERR_UBSE_NOT_SUPPORTED else MXM_ERR_UBSE_INNER)"

definition numa_result :: "ubs_mem_numa_desc \<Rightarrow> LeaseMallocResult" where
  "numa_result numaDesc = new_LeaseMallocResult\<lparr>lmr_numaId := nd_numaid numaDesc, lmr_memIds := [0],
     lmr_slotId := nd_export_slot numaDesc\<rparr>"

definition fd_result :: "ubs_mem_fd_desc \<Rightarrow> LeaseMallocResult" where
  "fd_result fdDesc = new_LeaseMallocResult\<lparr>lmr_memIds := fd_memids fdDesc, lmr_numaId := - 1,
     lmr_unitSize := fd_unit_size fdDesc, lmr_slotId := fd_export_slot fdDesc\<rparr>"

definition LeaseMalloc :: "'w env \<Rightarrow> LeaseMallocParam \<Rightarrow> ('w, int \<times> LeaseMallocResult) act" where
  "LeaseMalloc E param = do {
     rt \<leftarrow> Initialize E;
     if rt \<noteq> 0 then return (rt, new_LeaseMallocResult)
     else do {
       (hr, slotIds) \<leftarrow> GetRegionInfo E (lp_regionName param);
       if hr \<noteq> 0 then return (hr, new_LeaseMallocResult)
       else do {
         (hr, localNode) \<leftarrow> ask (ubse_node_local_get E);
         if hr \<noteq> 0 then return (MXM_ERR_UBSE_INNER, new_LeaseMallocResult)
         else if lp_isNuma param then do {
           (hr, numaDesc) \<leftarrow> ask (ubse_numa_create_with_candidate E (c_str (lp_name param)) (lp_size param) slotIds);
           if hr \<noteq> UBS_SUCCESS \<and> hr \<noteq> UBS_ERR_TIMED_OUT then return (lease_failed hr, new_LeaseMallocResult)
           else if hr = UBS_ERR_TIMED_OUT then lease_timed_out E (lp_name param) (lp_appContext param) True
           else return (hr, numa_result numaDesc) }
         else do {
           (hr, fdDesc) \<leftarrow> ask (ubse_fd_create_with_candidate E (c_str (lp_name param)) (lp_size param)
             (lp_appContext param) (S_IRUSR OR S_IWUSR) slotIds);
           if hr \<noteq> UBS_SUCCESS \<and> hr \<noteq> UBS_ERR_TIMED_OUT then return (lease_failed hr, new_LeaseMallocResult)
           else if hr = UBS_ERR_TIMED_OUT then lease_timed_out E (lp_name param) (lp_appContext param) False
           else return (hr, fd_result fdDesc) } } } }"

definition LeaseMallocWithLoc :: "'w env \<Rightarrow> LeaseMallocWithLocParam \<Rightarrow> ('w, int \<times> LeaseMallocResult) act" where
  "LeaseMallocWithLoc E param = do {
     rc \<leftarrow> Initialize E;
     if rc \<noteq> 0 then return (rc, new_LeaseMallocResult)
     else let lender = \<lparr>ln_lender_size = ll_size param, ln_slot_id = ll_slotId param, ln_socket_id = ll_socketId param,
                        ln_numa_id = ll_numaId param, ln_port_id = ll_portId param\<rparr> in
       if ll_isNuma param then do {
         (rc, numaDesc) \<leftarrow> ask (ubse_numa_create_with_lender E (c_str (ll_name param)) lender);
         if rc \<noteq> UBS_SUCCESS \<and> rc \<noteq> UBS_ERR_TIMED_OUT then return (lease_failed rc, new_LeaseMallocResult)
         else if rc = UBS_ERR_TIMED_OUT then lease_timed_out E (ll_name param) (ll_appContext param) True
         else return (rc, numa_result numaDesc) }
       else do {
         (rc, fdDesc) \<leftarrow> ask (ubse_fd_create_with_lender E (c_str (ll_name param)) (ll_appContext param)
           (S_IRUSR OR S_IWUSR) lender);
         if rc \<noteq> UBS_SUCCESS \<and> rc \<noteq> UBS_ERR_TIMED_OUT then return (lease_failed rc, new_LeaseMallocResult)
         else if rc = UBS_ERR_TIMED_OUT then lease_timed_out E (ll_name param) (ll_appContext param) False
         else return (rc, fd_result fdDesc) } }"

definition FdPermissionChange :: "'w env \<Rightarrow> string \<Rightarrow> AppContext \<Rightarrow> u32 \<Rightarrow> ('w, int) act" where
  "FdPermissionChange E name appContext mode = do {
     rc \<leftarrow> Initialize E;
     if rc \<noteq> 0 then return rc
     else do {
       rc \<leftarrow> ask (ubse_fd_permission E (c_str name) appContext mode);
       return (if rc \<noteq> 0 then MXM_ERR_UBSE_INNER else MXM_OK) } }"

definition free_code :: "int \<Rightarrow> int" where
  "free_code res = (if res = 0 \<or> res = UBS_ENGINE_ERR_UNIMPORT_SUCCESS then MXM_OK
     else if res = UBS_ENGINE_ERR_NOT_EXIST then MXM_ERR_LEASE_NOT_EXIST
     else if res = UBS_ERR_NOT_SUPPORTED then MXM_ERR_UBSE_NOT_SUPPORTED
     else MXM_ERR_UBSE_INNER)"

definition LeaseFree :: "'w env \<Rightarrow> string \<Rightarrow> bool \<Rightarrow> ('w, int) act" where
  "LeaseFree E name isNuma = do {
     rc \<leftarrow> Initialize E;
     if rc \<noteq> 0 then return rc
     else do {
       res \<leftarrow> ask (if isNuma then ubse_numa_delete E (c_str name) else ubse_fd_delete E (c_str name));
       return (free_code res) } }"

definition stage_code :: "int \<Rightarrow> int" where
  "stage_code rc = (if rc = UBS_ENGINE_ERR_NOT_EXIST then MXM_ERR_LEASE_NOT_EXIST
     else if rc \<noteq> 0 then MXM_ERR_UBSE_INNER else MXM_OK)"

definition GetLeaseMemoryStage :: "'w env \<Rightarrow> string \<Rightarrow> bool \<Rightarrow> ('w, int \<times> ubs_mem_stage) act" where
  "GetLeaseMemoryStage E name isNuma = do {
     a \<leftarrow> gets d_adapter;
     if \<not> ad_initialized a then return (MXM_ERR_UBSE_LIB, UBSE_END)
     else if isNuma then do {
       (rc, desc) \<leftarrow> ask (ubse_numa_get E (c_str name));
       return (stage_code rc, nd_mem_stage desc) }
     else do {
       (rc, desc) \<leftarrow> ask (ubse_fd_get E (c_str name));
       return (stage_code rc, fd_mem_stage desc) } }"

text \<open>The stage stays \<^const>\<open>UBSE_END\<close>, as the only caller sets it, when the query fails.\<close>

definition GetTimeOutTaskStatus :: "'w env \<Rightarrow> string \<Rightarrow> bool \<Rightarrow> ('w, int \<times> ubs_mem_stage) act" where
  "GetTimeOutTaskStatus E name isNumaLease =
     (if \<not> isNumaLease then do {
        (res, fdDesc) \<leftarrow> ask (ubse_fd_get E (c_str name));
        return (if res \<noteq> 0 then (stage_code res, UBSE_END) else (MXM_OK, fd_mem_stage fdDesc)) }
      else do {
        (res, numaDesc) \<leftarrow> ask (ubse_numa_get E (c_str name));
        return (if res \<noteq> 0 then (stage_code res, UBSE_END) else (MXM_OK, nd_mem_stage numaDesc)) })"

section \<open>The adapter leaves the services alone\<close>

definition services :: "'w daemon \<Rightarrow> record_store \<times> mls_manager \<times> (string \<times> RegionInfo) list \<times> (string \<times> AttachedShareMemory) list" where
  "services d = (d_store d, d_mls d, d_regions d, d_shm d)"

named_theorems adapter_frames \<open>actions that do not change the services\<close>

lemma ask_frame [adapter_frames]: "preserves services (ask f)"
  by (simp add: triple_def services_def)

lemma AddDelayRemoveRecord_frame [adapter_frames]: "preserves services (AddDelayRemoveRecord k)"
  by (simp add: triple_def services_def AddDelayRemoveRecord_def)

lemma adapter_update_frame: "preserves services (modify (d_adapter_update f))"
  by (simp add: triple_def services_def)

lemma frame_keeps: "preserves services m \<Longrightarrow> keeps (\<lambda>d. services d = v) m"
  by blast

lemmas frame_intros = keeps_intros frame_keeps[OF ask_frame] frame_keeps[OF AddDelayRemoveRecord_frame]
  frame_keeps[OF adapter_update_frame]

lemma Initialize_frame [adapter_frames]: "preserves services (Initialize E)"
  unfolding Initialize_def by (intro allI frame_intros)

lemma new_DelayRemovedKey_frame [adapter_frames]:
  "preserves services (new_DelayRemovedKey E nm delay l ctx c u t)"
  unfolding new_DelayRemovedKey_def by (intro allI frame_intros)

lemma LookupRegionList_services [adapter_frames]: "preserves services (LookupRegionList E)"
  unfolding LookupRegionList_def InitializeRegionList_def PopulateHostNameMap_def
  by (intro allI frame_intros frame_keeps[OF Initialize_frame])

lemma GetRegionInfo_frame [adapter_frames]: "preserves services (GetRegionInfo E n)"
  unfolding GetRegionInfo_def RegionManager_GetRegionInfo_def
  by (intro allI frame_intros frame_keeps[OF LookupRegionList_services])

lemma lease_timed_out_frame [adapter_frames]: "preserves services (lease_timed_out E n ctx b)"
  unfolding lease_timed_out_def by (intro allI frame_intros frame_keeps[OF new_DelayRemovedKey_frame])

lemma LeaseMalloc_frame [adapter_frames]: "preserves services (LeaseMalloc E p)"
  unfolding LeaseMalloc_def
  by (intro allI frame_intros frame_keeps[OF Initialize_frame] frame_keeps[OF GetRegionInfo_frame]
      frame_keeps[OF lease_timed_out_frame])

lemma LeaseMallocWithLoc_frame [adapter_frames]: "preserves services (LeaseMallocWithLoc E q)"
  unfolding LeaseMallocWithLoc_def
  by (intro allI frame_intros frame_keeps[OF Initialize_frame] frame_keeps[OF lease_timed_out_frame])

lemma FdPermissionChange_frame [adapter_frames]: "preserves services (FdPermissionChange E n ctx mode)"
  unfolding FdPermissionChange_def by (intro allI frame_intros frame_keeps[OF Initialize_frame])

lemma LeaseFree_frame [adapter_frames]: "preserves services (LeaseFree E n b)"
  unfolding LeaseFree_def by (intro allI frame_intros frame_keeps[OF Initialize_frame])

lemma GetLeaseMemoryStage_frame [adapter_frames]: "preserves services (GetLeaseMemoryStage E n b)"
  unfolding GetLeaseMemoryStage_def by (intro allI frame_intros)

lemma GetTimeOutTaskStatus_frame [adapter_frames]: "preserves services (GetTimeOutTaskStatus E n b)"
  unfolding GetTimeOutTaskStatus_def by (intro allI frame_intros)

text \<open>An invariant of the services is kept.\<close>

lemma services_keep: "preserves services m \<Longrightarrow> (\<And>d d'. services d = services d' \<Longrightarrow> I d \<Longrightarrow> I d') \<Longrightarrow> keeps I m"
  by (metis preserves_run tripleI)

end
