(* ===== verification/Lease_Manager.thy ===== *)
theory Lease_Manager
  imports Ubse_Adapter
begin

text \<open>
  The manager of leased memory, \<^verbatim>\<open>mxm_lease/mls_manager.cpp\<close> over \<^verbatim>\<open>mls_repository.cpp\<close>: leases in
  use by name, and freed leases kept for reuse, ordered by size, one map for NUMA memory and one for
  memory with a file descriptor.  Each method runs under the lock of the manager and is one action;
  every change is written to the record store before the maps.
\<close>

section \<open>Repository\<close>

definition PreAddMemRecord :: "LeaseMallocInput \<Rightarrow> ('w, int) act" where
  "PreAddMemRecord input = call_store (AddMemLeaseInput input)"

definition UpdateMemResultRecord :: "string \<Rightarrow> LeaseMallocResult \<Rightarrow> ('w, int) act" where
  "UpdateMemResultRecord name result = call_store (AddMemLeaseResult name result)"

definition Repository_UpdateMemRecordState :: "string \<Rightarrow> RecordState \<Rightarrow> ('w, int) act" where
  "Repository_UpdateMemRecordState name state = call_store (UpdateMemLeaseRecordState name state)"

definition UpdateMemRecord :: "string \<Rightarrow> AppContext \<Rightarrow> u64 \<Rightarrow> ('w, int) act" where
  "UpdateMemRecord name context sz = call_store (UpdateMemLeaseRecord name context sz)"

definition DeleteMemRecord :: "string \<Rightarrow> ('w, int) act" where
  "DeleteMemRecord name = call_store (DelMemLeaseRecord name)"

definition RecoverMemRecord :: "('w, (LeaseMallocInput \<times> LeaseMallocResult) list) act" where
  "RecoverMemRecord = gets (ListMemLeaseRecord \<circ> d_store)"

lemmas repository_defs = PreAddMemRecord_def UpdateMemResultRecord_def Repository_UpdateMemRecordState_def
  UpdateMemRecord_def DeleteMemRecord_def

section \<open>Leases in use\<close>

definition DEFAULT_MAX_BUFFER_MEM_NUM :: u32 where
  "DEFAULT_MAX_BUFFER_MEM_NUM = 5"

definition new_mls_manager :: mls_manager where
  "new_mls_manager = \<lparr>isEnableLeaseBuffered = True, maxBufferedMemNum = DEFAULT_MAX_BUFFER_MEM_NUM,
     usedMemory = [], numaBufferedMemory = [], fdBufferedMemory = []\<rparr>"

definition SetBufferedNum :: "u32 \<Rightarrow> ('w, unit) act" where
  "SetBufferedNum num = modify (d_mls_update (maxBufferedMemNum_update (\<lambda>_. num)))"

definition find_used :: "string \<Rightarrow> ('w, MLSMemInfo option) act" where
  "find_used name = gets (\<lambda>d. map_of (usedMemory (d_mls d)) name)"

abbreviation update_used :: "((string \<times> MLSMemInfo) list \<Rightarrow> (string \<times> MLSMemInfo) list) \<Rightarrow> ('w, unit) act" where
  "update_used f \<equiv> modify (d_mls_update (usedMemory_update f))"

definition PreAddUsedMem :: "string \<Rightarrow> u64 \<Rightarrow> AppContext \<Rightarrow> bool \<Rightarrow> u16 \<Rightarrow> ('w, int) act" where
  "PreAddUsedMem name sz usr isNuma perfLevel = do {
     pos \<leftarrow> find_used name;
     if pos \<noteq> None then return MXM_ERR_SHM_ALREADY_EXIST
     else do {
       rc \<leftarrow> PreAddMemRecord \<lparr>lmi_fdMode = \<not> isNuma, lmi_name = name, lmi_size = sz, lmi_distance = ucast perfLevel,
               lmi_appContext = usr, lmi_state = PRE_ADD\<rparr>;
       if rc \<noteq> 0 then return MXM_ERR_RECORD_ADD
       else do {
         update_used (map_emplace name \<lparr>mi_name = name, mi_appContext = usr, mi_size = sz, mi_numaId = 0,
           mi_memIds = [], mi_unitSize = 0, mi_perflevel = perfLevel, mi_slotId = 0, mi_isNuma = isNuma,
           mi_state = PRE_ADD\<rparr>);
         return MXM_OK } } }"

definition FinishAddUsedMem :: "string \<Rightarrow> u64 \<Rightarrow> u64 \<Rightarrow> u32 \<Rightarrow> u64 list \<Rightarrow> ('w, int) act" where
  "FinishAddUsedMem name numaId unitSize slotId ids = do {
     pos \<leftarrow> find_used name;
     case pos of
       None \<Rightarrow> return MXM_ERR_LEASE_NOT_FOUND
     | Some memory \<Rightarrow> do {
         rc \<leftarrow> UpdateMemResultRecord name \<lparr>lmr_memIds = ids, lmr_numaId = numaId, lmr_unitSize = unitSize,
                 lmr_slotId = slotId\<rparr>;
         if rc \<noteq> 0 then return MXM_ERR_RECORD_ADD
         else do {
           update_used (map_assign name (memory\<lparr>mi_numaId := numaId, mi_memIds := ids, mi_unitSize := unitSize,
             mi_slotId := slotId, mi_state := FINISH\<rparr>));
           return MXM_OK } } }"

definition UpdateMemRecordState :: "string \<Rightarrow> RecordState \<Rightarrow> ('w, int) act" where
  "UpdateMemRecordState name state = do {
     pos \<leftarrow> find_used name;
     case pos of
       None \<Rightarrow> return MXM_ERR_LEASE_NOT_FOUND
     | Some memory \<Rightarrow> do {
         rc \<leftarrow> Repository_UpdateMemRecordState name state;
         if rc \<noteq> 0 then return MXM_ERR_RECORD_CHANGE_STATE
         else do {
           update_used (map_assign name (memory\<lparr>mi_state := state\<rparr>));
           return MXM_OK } } }"

definition DeleteUsedMem :: "string \<Rightarrow> ('w, int) act" where
  "DeleteUsedMem name = do {
     pos \<leftarrow> find_used name;
     if pos = None then return MXM_ERR_LEASE_NOT_FOUND
     else do {
       rc \<leftarrow> DeleteMemRecord name;
       if rc \<noteq> 0 then return rc
       else do { update_used (erase name); return 0 } } }"

definition GetUsedMemByName :: "string \<Rightarrow> ('w, int \<times> MLSMemInfo option) act" where
  "GetUsedMemByName name = do {
     pos \<leftarrow> find_used name;
     return (if pos = None then MXM_ERR_LEASE_NOT_FOUND else 0, pos) }"

definition GetUsedMemByPid :: "u32 \<Rightarrow> ('w, MLSMemInfo list) act" where
  "GetUsedMemByPid pid =
     gets (\<lambda>d. filter (\<lambda>i. app_pid (mi_appContext i) = pid) (map snd (usedMemory (d_mls d))))"

definition ListAllMem :: "('w, MLSMemInfo list) act" where
  "ListAllMem = gets (\<lambda>d. map snd (usedMemory (d_mls d)) @
     (if isEnableLeaseBuffered (d_mls d)
      then map snd (numaBufferedMemory (d_mls d)) @ map snd (fdBufferedMemory (d_mls d)) else []))"

definition GenerateMemName :: "'w env \<Rightarrow> u64 \<Rightarrow> ('w, string) act" where
  "GenerateMemName E sz = do {
     timeStamp \<leftarrow> ask (os_monotonic_ns E);
     self \<leftarrow> ask (os_thread_self E);
     return (''N'' @ to_string (unat sz) @ ''_'' @ to_string (unat self) @ ''_'' @ to_string (unat timeStamp)) }"

section \<open>Leases kept for reuse\<close>

definition buffered :: "bool \<Rightarrow> mls_manager \<Rightarrow> (MLSMemKey \<times> MLSMemInfo) list" where
  "buffered isNuma m = (if isNuma then numaBufferedMemory m else fdBufferedMemory m)"

definition buffered_update ::
  "bool \<Rightarrow> ((MLSMemKey \<times> MLSMemInfo) list \<Rightarrow> (MLSMemKey \<times> MLSMemInfo) list) \<Rightarrow> mls_manager \<Rightarrow> mls_manager" where
  "buffered_update isNuma f m =
     (if isNuma then m\<lparr>numaBufferedMemory := f (numaBufferedMemory m)\<rparr> else m\<lparr>fdBufferedMemory := f (fdBufferedMemory m)\<rparr>)"

definition BufferUsedMemory :: "MLSMemInfo \<Rightarrow> ('w, int) act" where
  "BufferUsedMemory usedInfo = do {
     m \<leftarrow> gets d_mls;
     if length (buffered (mi_isNuma usedInfo) m) < unat (maxBufferedMemNum m) then
       let context = (mi_appContext usedInfo)\<lparr>app_pid := 0\<rparr>;
           newSize = mi_unitSize usedInfo * word_of_nat (length (mi_memIds usedInfo)) in do {
         rc \<leftarrow> UpdateMemRecord (mi_name usedInfo) context newSize;
         if rc \<noteq> 0 then return rc
         else do {
           modify (d_mls_update (buffered_update (mi_isNuma usedInfo)
             (map_emplace (MLSMemKey newSize (mi_name usedInfo)) (usedInfo\<lparr>mi_appContext := context, mi_size := newSize\<rparr>))));
           return 1 } }
     else return 0 }"

definition PreDeleteUsedMem :: "string \<Rightarrow> ('w, int) act" where
  "PreDeleteUsedMem name = do {
     pos \<leftarrow> find_used name;
     case pos of
       None \<Rightarrow> return MXM_ERR_LEASE_NOT_FOUND
     | Some info \<Rightarrow> do {
         m \<leftarrow> gets d_mls;
         rc \<leftarrow> (if isEnableLeaseBuffered m then BufferUsedMemory info else return 0);
         if rc = 1 then do { update_used (erase name); return 1 }
         else if rc \<noteq> 0 then return rc
         else Repository_UpdateMemRecordState name PRE_DEL } }"

definition ReuseMemInSlotId :: "u64 \<Rightarrow> bool \<Rightarrow> u32 list \<Rightarrow> AppContext \<Rightarrow> ('w, int \<times> MLSMemInfo option) act" where
  "ReuseMemInSlotId sz isNuma slotIds context = do {
     m \<leftarrow> gets d_mls;
     case find (\<lambda>(_, i). mi_slotId i \<in> set slotIds) (lower_bound (MLSMemKey sz []) (buffered isNuma m)) of
       None \<Rightarrow> return (-1, None)
     | Some (key, bufferInfo) \<Rightarrow> do {
         rc \<leftarrow> UpdateMemRecord (mi_name bufferInfo) context sz;
         if rc \<noteq> 0 then return (rc, None)
         else do {
           modify (d_mls_update (buffered_update isNuma (erase key)));
           return (0, Some bufferInfo) } } }"

definition ReuseBufferedMem :: "'w env \<Rightarrow> u64 \<Rightarrow> bool \<Rightarrow> string \<Rightarrow> AppContext \<Rightarrow> ('w, int \<times> MLSMemInfo option) act" where
  "ReuseBufferedMem E sz isNuma regionName context = do {
     m \<leftarrow> gets d_mls;
     if \<not> isEnableLeaseBuffered m then return (-1, None)
     else do {
       (hr, slotIds) \<leftarrow> GetRegionInfo E regionName;
       if hr \<noteq> 0 then return (hr, None)
       else do {
         (rc, found) \<leftarrow> ReuseMemInSlotId sz isNuma slotIds context;
         case found of
           None \<Rightarrow> return (-1, None)
         | Some bufferInfo \<Rightarrow>
             let info = bufferInfo\<lparr>mi_appContext := context, mi_size := sz, mi_isNuma := isNuma\<rparr> in do {
               update_used (map_emplace (mi_name info) info);
               if mi_unitSize info = 0 then return (-1, None)
               else if sz > - 1 - mi_unitSize info then return (-1, None)
               else let unitCount = unat ((sz + mi_unitSize info - 1) div mi_unitSize info) in
                    return (0, Some (info\<lparr>mi_memIds := take unitCount (mi_memIds info) @
                      replicate (unitCount - length (mi_memIds info)) 0\<rparr>)) } } } }"

section \<open>Giving back what is kept\<close>

definition LeaseFreeMemory :: "'w env \<Rightarrow> string \<Rightarrow> bool \<Rightarrow> ('w, int) act" where
  "LeaseFreeMemory E name isNuma = do {
     rc \<leftarrow> Repository_UpdateMemRecordState name PRE_DEL;
     if rc \<noteq> 0 then return rc
     else do {
       rc \<leftarrow> LeaseFree E name isNuma;
       if rc \<noteq> 0 \<and> rc \<noteq> MXM_ERR_LEASE_NOT_EXIST then do {
         Repository_UpdateMemRecordState name FINISH;
         return rc }
       else do {
         rc \<leftarrow> DeleteMemRecord name;
         return (if rc \<noteq> 0 then MXM_ERR_RECORD_DELETE else rc) } } }"

definition free_buffered :: "'w env \<Rightarrow> bool \<Rightarrow> MLSMemKey \<times> MLSMemInfo \<Rightarrow> ('w, unit) act" where
  "free_buffered E isNuma pos = do {
     rc \<leftarrow> LeaseFreeMemory E (mi_name (snd pos)) isNuma;
     if rc \<noteq> 0 then return () else modify (d_mls_update (buffered_update isNuma (erase (fst pos)))) }"

definition DeleteAllBufferedMem :: "'w env \<Rightarrow> ('w, int) act" where
  "DeleteAllBufferedMem E = do {
     m \<leftarrow> gets d_mls;
     if \<not> isEnableLeaseBuffered m then return 0
     else if numaBufferedMemory m = [] \<and> fdBufferedMemory m = [] then return 0
     else do {
       for_each (numaBufferedMemory m) (free_buffered E True);
       for_each (fdBufferedMemory m) (free_buffered E False);
       return 0 } }"

section \<open>Recovery\<close>

text \<open>
  After a restart each record is looked up in the engine: an allocation that was not finished is
  dropped or queued for removal, one that was being given back is rolled back or marked as deleted.
\<close>

definition RemovePreAddRecord :: "'w env \<Rightarrow> LeaseMallocInput \<times> LeaseMallocResult \<Rightarrow> ('w, int \<times> bool) act" where
  "RemovePreAddRecord E record = do {
     (rc, stage) \<leftarrow> GetLeaseMemoryStage E (lmi_name (fst record)) (\<not> lmi_fdMode (fst record));
     if rc = MXM_ERR_LEASE_NOT_EXIST then do { DeleteMemRecord (lmi_name (fst record)); return (MXM_OK, True) }
     else if rc \<noteq> 0 then return (rc, False)
     else if stage = UBSE_NOT_EXIST \<or> stage = UBSE_DELETING then do {
       DeleteMemRecord (lmi_name (fst record)); return (MXM_OK, True) }
     else do {
       key \<leftarrow> new_DelayRemovedKey E (lmi_name (fst record)) ONE_MINUTE_MS True (lmi_appContext (fst record)) True
         (\<not> lmi_fdMode (fst record)) True;
       AddDelayRemoveRecord key;
       return (MXM_OK, False) } }"

definition RollbackPreDeleteRecord ::
  "'w env \<Rightarrow> LeaseMallocInput \<times> LeaseMallocResult \<Rightarrow> ('w, int \<times> RecordState) act" where
  "RollbackPreDeleteRecord E record = do {
     (rc, stage) \<leftarrow> GetLeaseMemoryStage E (lmi_name (fst record)) (\<not> lmi_fdMode (fst record));
     if rc = MXM_ERR_LEASE_NOT_EXIST then do {
       Repository_UpdateMemRecordState (lmi_name (fst record)) DELETED; return (MXM_OK, DELETED) }
     else if rc \<noteq> 0 then return (rc, lmi_state (fst record))
     else if stage = UBSE_NOT_EXIST \<or> stage = UBSE_DELETING \<or> stage = UBSE_ERR_WAIT_UNEXPORT then do {
       Repository_UpdateMemRecordState (lmi_name (fst record)) DELETED; return (MXM_OK, DELETED) }
     else do {
       Repository_UpdateMemRecordState (lmi_name (fst record)) FINISH; return (0, FINISH) } }"

definition info_of_record :: "LeaseMallocInput \<times> LeaseMallocResult \<Rightarrow> RecordState \<Rightarrow> MLSMemInfo" where
  "info_of_record record state = \<lparr>mi_name = lmi_name (fst record), mi_appContext = lmi_appContext (fst record),
     mi_size = lmi_size (fst record), mi_numaId = lmr_numaId (snd record), mi_memIds = lmr_memIds (snd record),
     mi_unitSize = lmr_unitSize (snd record), mi_perflevel = ucast (lmi_distance (fst record)),
     mi_slotId = lmr_slotId (snd record), mi_isNuma = (\<not> lmi_fdMode (fst record)), mi_state = state\<rparr>"

definition recover_lease :: "MLSMemInfo \<Rightarrow> ('w, unit) act" where
  "recover_lease info =
     (if app_pid (mi_appContext info) = 0
      then modify (d_mls_update (buffered_update (mi_isNuma info) (map_emplace (MLSMemKey (mi_size info) (mi_name info)) info)))
      else update_used (map_emplace (mi_name info) info))"

definition recover_record :: "'w env \<Rightarrow> LeaseMallocInput \<times> LeaseMallocResult \<Rightarrow> ('w, unit) act" where
  "recover_record E record = do {
     (rc, needToDelete) \<leftarrow> (if lmi_state (fst record) = PRE_ADD then RemovePreAddRecord E record else return (0, False));
     if rc \<noteq> 0 then return ()
     else if needToDelete then return ()
     else do {
       (rc, state) \<leftarrow> (if lmi_state (fst record) = PRE_DEL then RollbackPreDeleteRecord E record
                      else return (0, lmi_state (fst record)));
       if rc \<noteq> 0 then return ()
       else if state = DELETED then do { DeleteMemRecord (lmi_name (fst record)); return () }
       else recover_lease (info_of_record record state) } }"

definition RecoverFromRecord :: "'w env \<Rightarrow> ('w, int) act" where
  "RecoverFromRecord E = do {
     records \<leftarrow> RecoverMemRecord;
     for_each records (recover_record E);
     modify (d_mls_update (isEnableLeaseBuffered_update (\<lambda>_. cfg_LeaseCachedSwitch E)));
     return 0 }"

end
