(* ===== verification/Sample_World.thy ===== *)
theory Sample_World
  imports Lease_Manager
begin

text \<open>
  An engine that accepts every request and a daemon that has just started on an empty record file:
  the concrete instance the examples of the properties run on.
\<close>

definition quiet_user :: ubse_user_info where
  "quiet_user = \<lparr>ui_uid = 1000, ui_gid = 1000, ui_pid = 42, ui_mode = 0x180, ui_flag = 0, ui_seqNo = 0\<rparr>"

definition quiet_shm :: "string \<Rightarrow> ubs_mem_shm_desc" where
  "quiet_shm n = \<lparr>sd_name = n, sd_mem_size = 4096, sd_unit_size = 4096, sd_export_slot = 1, sd_usr_info = quiet_user,
     sd_mem_stage = UBSE_EXIST, sd_import_desc = []\<rparr>"

definition quiet_env :: "unit env" where
  "quiet_env = \<lparr>os_now = Pair 1000, os_monotonic_ns = Pair 5, os_thread_self = Pair 7,
     os_alive = (\<lambda>_. Pair True), os_numa_of = (\<lambda>_. Pair 0), os_read_ubfeature = Pair (Some 0),
     os_self = \<lparr>app_pid = 1, app_uid = 0, app_gid = 0\<rparr>, securec_error = -1, cfg_LeaseCachedSwitch = True,
     ubse_dlopen = Pair 0, ubse_node_list = Pair (0, []),
     ubse_node_local_get = Pair (0, \<lparr>tn_slot_id = 1, tn_host_name = ''a'', tn_sockets = []\<rparr>),
     ubse_link_list = Pair (0, Some []),
     ubse_numa_create_with_candidate = (\<lambda>_ _ _. Pair (0, \<lparr>nd_numaid = 4, nd_export_slot = 1, nd_mem_stage = UBSE_EXIST\<rparr>)),
     ubse_fd_create_with_candidate = (\<lambda>_ _ _ _ _. Pair (0, \<lparr>fd_memids = [9], fd_unit_size = 4096, fd_export_slot = 1, fd_mem_stage = UBSE_EXIST\<rparr>)),
     ubse_numa_create_with_lender = (\<lambda>_ _. Pair (0, \<lparr>nd_numaid = 4, nd_export_slot = 1, nd_mem_stage = UBSE_EXIST\<rparr>)),
     ubse_fd_create_with_lender = (\<lambda>_ _ _ _. Pair (0, \<lparr>fd_memids = [9], fd_unit_size = 4096, fd_export_slot = 1, fd_mem_stage = UBSE_EXIST\<rparr>)),
     ubse_fd_permission = (\<lambda>_ _ _. Pair 0),
     ubse_fd_get = (\<lambda>_. Pair (0, \<lparr>fd_memids = [9], fd_unit_size = 4096, fd_export_slot = 1, fd_mem_stage = UBSE_EXIST\<rparr>)),
     ubse_numa_get = (\<lambda>_. Pair (0, \<lparr>nd_numaid = 4, nd_export_slot = 1, nd_mem_stage = UBSE_EXIST\<rparr>)),
     ubse_fd_delete = (\<lambda>_. Pair 0), ubse_numa_delete = (\<lambda>_. Pair 0),
     ubse_shm_get = (\<lambda>n. Pair (0, Some (quiet_shm n))), ubse_shm_list = Pair (0, []),
     ubse_shm_create = (\<lambda>_ _ _ _ _ _. Pair 0), ubse_shm_create_with_affinity = (\<lambda>_ _ _ _ _ _ _. Pair 0),
     ubse_shm_create_with_lender = (\<lambda>_ _ _ _. Pair 0),
     ubse_shm_attach = (\<lambda>n _ _. Pair (0, Some (quiet_shm n))),
     ubse_shm_detach = (\<lambda>_. Pair 0), ubse_shm_delete = (\<lambda>_. Pair 0)\<rparr>"

lemma quiet_env_simps [simp]:
  "os_now quiet_env = Pair 1000"
  "os_monotonic_ns quiet_env = Pair 5"
  "os_thread_self quiet_env = Pair 7"
  "os_alive quiet_env = (\<lambda>_. Pair True)"
  "os_numa_of quiet_env = (\<lambda>_. Pair 0)"
  "os_read_ubfeature quiet_env = Pair (Some 0)"
  "os_self quiet_env = \<lparr>app_pid = 1, app_uid = 0, app_gid = 0\<rparr>"
  "securec_error quiet_env = -1"
  "cfg_LeaseCachedSwitch quiet_env = True"
  "ubse_dlopen quiet_env = Pair 0"
  "ubse_node_list quiet_env = Pair (0, [])"
  "ubse_node_local_get quiet_env = Pair (0, \<lparr>tn_slot_id = 1, tn_host_name = ''a'', tn_sockets = []\<rparr>)"
  "ubse_link_list quiet_env = Pair (0, Some [])"
  "ubse_numa_create_with_candidate quiet_env = (\<lambda>_ _ _. Pair (0, \<lparr>nd_numaid = 4, nd_export_slot = 1, nd_mem_stage = UBSE_EXIST\<rparr>))"
  "ubse_fd_create_with_candidate quiet_env = (\<lambda>_ _ _ _ _. Pair (0, \<lparr>fd_memids = [9], fd_unit_size = 4096, fd_export_slot = 1, fd_mem_stage = UBSE_EXIST\<rparr>))"
  "ubse_numa_create_with_lender quiet_env = (\<lambda>_ _. Pair (0, \<lparr>nd_numaid = 4, nd_export_slot = 1, nd_mem_stage = UBSE_EXIST\<rparr>))"
  "ubse_fd_create_with_lender quiet_env = (\<lambda>_ _ _ _. Pair (0, \<lparr>fd_memids = [9], fd_unit_size = 4096, fd_export_slot = 1, fd_mem_stage = UBSE_EXIST\<rparr>))"
  "ubse_fd_permission quiet_env = (\<lambda>_ _ _. Pair 0)"
  "ubse_fd_get quiet_env = (\<lambda>_. Pair (0, \<lparr>fd_memids = [9], fd_unit_size = 4096, fd_export_slot = 1, fd_mem_stage = UBSE_EXIST\<rparr>))"
  "ubse_numa_get quiet_env = (\<lambda>_. Pair (0, \<lparr>nd_numaid = 4, nd_export_slot = 1, nd_mem_stage = UBSE_EXIST\<rparr>))"
  "ubse_fd_delete quiet_env = (\<lambda>_. Pair 0)"
  "ubse_numa_delete quiet_env = (\<lambda>_. Pair 0)"
  "ubse_shm_get quiet_env = (\<lambda>n. Pair (0, Some (quiet_shm n)))"
  "ubse_shm_list quiet_env = Pair (0, [])"
  "ubse_shm_create quiet_env = (\<lambda>_ _ _ _ _ _. Pair 0)"
  "ubse_shm_create_with_affinity quiet_env = (\<lambda>_ _ _ _ _ _ _. Pair 0)"
  "ubse_shm_create_with_lender quiet_env = (\<lambda>_ _ _ _. Pair 0)"
  "ubse_shm_attach quiet_env = (\<lambda>n _ _. Pair (0, Some (quiet_shm n)))"
  "ubse_shm_detach quiet_env = (\<lambda>_. Pair 0)"
  "ubse_shm_delete quiet_env = (\<lambda>_. Pair 0)"
  by (simp_all add: quiet_env_def)

lemma same_world [simp]: "(d :: unit daemon)\<lparr>d_world := ()\<rparr> = d"
  by simp

definition idle_daemon :: "unit daemon" where
  "idle_daemon = \<lparr>d_store = booted_store, d_mls = new_mls_manager, d_regions = [], d_shm = [],
     d_mon = \<lparr>mo_running = True, exitedPids = [], delayedRemoveKeys = [], delayedRemoveKeysByName = []\<rparr>,
     d_adapter = \<lparr>ad_initialized = True, ad_nodeId = 1, ad_ubFeature = 0, ad_ubFeatureLoaded = False, ad_ubFeatureValid = False\<rparr>,
     d_world = ()\<rparr>"

lemma booted_inv: "store_inv booted_store"
  by (rule reachable_inv[OF booted_reachable])

lemma booted_pool: "idleIdIndexes (poolAllocator booted_store) \<noteq> []"
  by (simp add: booted_store_def RecordStore_Initialize_def Let_def zero_image_def IdPool_Initialize_def
      RecordStore_Restore_def RestoreShmReference_def RestoreShmImport_def RestoreMemLease_def RestoreRegion_def
      line_count_bounds split_beta)

lemma AddMemLeaseInput_pool: "poolAllocator (snd (AddMemLeaseInput input st)) = poolAllocator st"
  by (simp add: AddMemLeaseInput_def Let_def split: option.split prod.split)

end
