(* ===== verification/Region_Props.thy ===== *)
theory Region_Props
  imports Lease_Manager Sample_World
begin

text \<open>
  Properties of the regions: the topology computed from the links of the engine, and the region
  manager over the record store.
\<close>

section \<open>The two regions of a node\<close>

definition linked_to :: "ubs_topo_link list \<Rightarrow> u32 \<Rightarrow> u32 set" where
  "linked_to links s = {t. \<exists>l\<in>set links. (tl_slot_id l = s \<and> tl_peer_slot_id l = t) \<or> (tl_peer_slot_id l = s \<and> tl_slot_id l = t)}"

lemma find_add_neighbor: "find_or_empty (add_neighbor a b m) s = (if s = a then insort_insert b (find_or_empty m a) else find_or_empty m s)"
  by (simp add: add_neighbor_def find_or_empty_def map_of_assign)

lemma neighbors:
  "set (find_or_empty (neiBorNode links) s) = linked_to links s \<and>
   sorted (find_or_empty (neiBorNode links) s) \<and> distinct (find_or_empty (neiBorNode links) s)"
proof -
  let ?f = "\<lambda>l m. add_neighbor (tl_peer_slot_id l) (tl_slot_id l) (add_neighbor (tl_slot_id l) (tl_peer_slot_id l) m)"
  have "set (find_or_empty (fold ?f ls m) s) = linked_to ls s \<union> set (find_or_empty m s) \<and>
     sorted (find_or_empty (fold ?f ls m) s) \<and> distinct (find_or_empty (fold ?f ls m) s)"
    if "\<forall>s. sorted (find_or_empty m s) \<and> distinct (find_or_empty m s)" for ls m
    using that
  proof (induction ls arbitrary: m)
    case (Cons l ls)
    have ok: "\<forall>s. sorted (find_or_empty (?f l m) s) \<and> distinct (find_or_empty (?f l m) s)"
      using Cons.prems by (simp add: find_add_neighbor sorted_insort_insert distinct_insort_insert)
    have "set (find_or_empty (?f l m) s) = linked_to [l] s \<union> set (find_or_empty m s)"
      by (auto simp: find_add_neighbor set_insort_insert linked_to_def)
    moreover have "linked_to (l # ls) s = linked_to ls s \<union> linked_to [l] s" by (auto simp: linked_to_def)
    ultimately show ?case using Cons.IH[OF ok] by auto
  qed (simp add: linked_to_def)
  from this[of "[]" links] show ?thesis by (simp add: neiBorNode_def find_or_empty_def)
qed

text \<open>
  C36. The regions of a node.  Whatever links the engine reports, the two lists the regions are built
  from are ascending without repetition, have exactly the local node in common, and together are the
  local node and the nodes it is linked to, in either direction.
\<close>

theorem regions_cover:
  assumes "find_or_empty (neiBorNode links) slot \<noteq> []" "region_lists slot (neiBorNode links) = (i1, i2)"
  shows "set i1 \<inter> set i2 = {slot} \<and> set i1 \<union> set i2 = insert slot (linked_to links slot) \<and>
    sorted i1 \<and> distinct i1 \<and> sorted i2 \<and> distinct i2"
proof -
  let ?mine = "find_or_empty (neiBorNode links) slot" and ?N = "find_or_empty (neiBorNode links)"
  note n = neighbors[of links slot]
  have h: "hd ?mine \<in> linked_to links slot" using n hd_in_set[OF assms(1)] by simp
  have i1: "i1 = insort_insert (hd ?mine) (insort_insert slot (filter (\<lambda>n. n \<in> set (?N (hd ?mine))) ?mine))"
    and i2: "i2 = insort_insert slot (filter (\<lambda>n. n \<notin> set i1) ?mine)"
    using assms(2) by (auto simp: region_lists_def Let_def)
  have s1: "set i1 = insert (hd ?mine) (insert slot {n \<in> linked_to links slot. n \<in> set (?N (hd ?mine))})"
    using n by (auto simp: i1 set_insort_insert)
  have s2: "set i2 = insert slot (linked_to links slot - set i1)" using n by (auto simp: i2 set_insort_insert)
  have "sorted i1 \<and> distinct i1 \<and> sorted i2 \<and> distinct i2"
    unfolding i2 i1 using n
    by (simp add: sorted_insort_insert distinct_insort_insert sorted_wrt_filter)
  then show ?thesis using s1 s2 h by auto
qed

theorem regions_cover_witness:
  "region_lists 1 (neiBorNode [\<lparr>tl_slot_id = 1, tl_peer_slot_id = 2\<rparr>, \<lparr>tl_slot_id = 3, tl_peer_slot_id = 1\<rparr>]) = ([1, 2], [1, 3]) \<and>
   linked_to [\<lparr>tl_slot_id = 1, tl_peer_slot_id = 2\<rparr>, \<lparr>tl_slot_id = 3, tl_peer_slot_id = 1\<rparr>] 1 \<subseteq> {1, 2, 3}"
proof -
  let ?l = "[\<lparr>tl_slot_id = 1, tl_peer_slot_id = 2\<rparr>, \<lparr>tl_slot_id = 3, tl_peer_slot_id = 1\<rparr>]"
  have e: "region_lists 1 (neiBorNode ?l) = ([1, 2], [1, 3])" "find_or_empty (neiBorNode ?l) 1 \<noteq> []"
    by (simp_all add: region_lists_def neiBorNode_def add_neighbor_def find_or_empty_def insort_insert_key_def Let_def word_le_nat_alt)
  show ?thesis using regions_cover[OF e(2,1)] e(1) by auto
qed

section \<open>The region manager\<close>

text \<open>
  C37. The region manager implements a map.  With map and records in agreement, creating a region
  under a legal name either adds exactly this region, which then was not there before, or changes no
  region; deleting removes exactly the named one and succeeds exactly when it exists.  Map and record
  store agree again afterwards, on success and on failure.
\<close>

theorem region_manager_map:
  assumes "regions_inv d" "good_name (ri_name r)"
    "run_state (CreateRegionInfo r) d = (ok, d1)" "run_state (DeleteRegionInfo n) d = (ok', d2)"
  shows "regions_inv d1 \<and>
    (if ok then map_of (d_regions d) (ri_name r) = None \<and> map_of (d_regions d1) = (map_of (d_regions d))(ri_name r \<mapsto> r)
     else map_of (d_regions d1) = map_of (d_regions d)) \<and>
    regions_inv d2 \<and> (ok' \<longleftrightarrow> map_of (d_regions d) n \<noteq> None) \<and> map_of (d_regions d2) = (map_of (d_regions d))(n := None)"
proof -
  have "map_of (d_regions d) (ri_name r) = None" if ok
  proof (rule ccontr)
    assume "map_of (d_regions d) (ri_name r) \<noteq> None"
    then have "\<not> ok" using assms(3) by (auto simp: CreateRegionInfo_def)
    then show False using that by simp
  qed
  then show ?thesis
    using CreateRegionInfo_run[OF assms(1,2)] DeleteRegionInfo_run[OF assms(1), of n] assms(3,4) by simp
qed

definition region_one :: RegionInfo where
  "region_one = \<lparr>ri_name = ''r1'', ri_size = 0,
     ri_region = new_SHMRegionDesc\<lparr>rd_num := 1, rd_affinity := \<lambda>_. True, rd_nodeId := \<lambda>_. ''1''\<rparr>\<rparr>"

lemma region_one_input: "region_input region_one = Some \<lparr>cri_name = ''r1'', cri_size = 0, cri_nodeIds = [1], cri_affinity = [True]\<rparr>"
proof -
  have "to_string 1 = ''1''" by (simp add: to_string.simps digit_def char_of_def bit_0)
  then have "strtoul ''1'' = (1, [], False)" using strtoul_to_string[of 1] by simp
  then have "StrToUint ''1'' = (True, 1)" by (simp add: StrToUint_def c_str_def)
  then show ?thesis by (simp add: region_input_def region_one_def ToNodeIds_def new_SHMRegionDesc_def MEM_TOPOLOGY_MAX_HOSTS_def)
qed

lemma idle_regions_inv: "regions_inv idle_daemon"
  using booted_inv by (simp add: regions_inv_def idle_daemon_def map_ok_Nil booted_abs)

lemma region_one_created: "fst (run_state (CreateRegionInfo region_one) idle_daemon)"
proof -
  let ?i = "\<lparr>cri_name = ''r1'', cri_size = 0, cri_nodeIds = [1], cri_affinity = [True]\<rparr>"
  have n: "op_named (OpAddRegion ?i)" by (simp add: good_name_def RECORD_NAME_SIZE_def)
  have "fst (exec_op (OpAddRegion ?i) booted_store) = 0"
    using exec_call(3)[OF booted_inv n] capacity(1)[OF booted_inv]
    by (simp add: booted_abs REGION_NODE_BITMAP_COUNT_def REGION_MAX_RECORD_def del: exec_op.simps)
  then show ?thesis
    using region_one_input
    by (auto simp: CreateRegionInfo_def UpdateRegionInfo_def idle_daemon_def region_input_def region_one_def)
qed

theorem region_manager_map_witness:
  "map_of (d_regions (snd (run_state (CreateRegionInfo region_one) idle_daemon))) = [''r1'' \<mapsto> region_one]"
proof -
  have g: "good_name (ri_name region_one)" by (simp add: region_one_def good_name_def RECORD_NAME_SIZE_def)
  obtain ok d1 where c: "run_state (CreateRegionInfo region_one) idle_daemon = (ok, d1)" by (metis surj_pair)
  obtain ok' d2 where x: "run_state (DeleteRegionInfo ''x'') idle_daemon = (ok', d2)" by (metis surj_pair)
  have "ok" using region_one_created c by simp
  then show ?thesis
    using region_manager_map[OF idle_regions_inv g c x] unfolding c by (simp add: idle_daemon_def region_one_def)
qed

text \<open>
  C38. Recovery of the regions.  A recovery that succeeds, from an empty map and any consistent store,
  leaves map and store in agreement: every stored region is back under its name, with the nodes and
  affinities of its record found among the regions the engine reports now, and no other region.
\<close>

theorem region_recovery:
  assumes "store_inv (d_store d)" "d_regions d = []" "run_state (RegionManager_Recovery E) d = (HOK, d')"
  shows "regions_inv d'"
proof -
  have ok: "fst (run_state (RecoverFromRamFS E) d)" "d' = snd (run_state (RecoverFromRamFS E) d)"
    using assms(3) by (auto simp: RegionManager_Recovery_def split_beta HOK_def MXM_ERR_PARAM_INVALID_def split: if_splits)
  show ?thesis using RecoverFromRamFS_inv[OF assms(1,2) ok(1)] ok(2) by simp
qed

definition linked_env :: "unit env" where
  "linked_env = quiet_env\<lparr>ubse_node_list := Pair (0, [\<lparr>tn_slot_id = 1, tn_host_name = ''a'', tn_sockets = []\<rparr>,
       \<lparr>tn_slot_id = 2, tn_host_name = ''b'', tn_sockets = []\<rparr>]),
     ubse_link_list := Pair (0, Some [\<lparr>tl_slot_id = 1, tl_peer_slot_id = 2\<rparr>])\<rparr>"

lemma small_numbers: "StrToUint ''1'' = (True, 1)" "StrToUint ''2'' = (True, 2)" "to_string (Suc 0) = ''1''" "to_string 2 = ''2''"
proof -
  have n: "to_string 1 = ''1''" "to_string 2 = ''2''" by (simp_all add: to_string.simps digit_def char_of_def bit_0)
  then have "strtoul ''1'' = (1, [], False)" "strtoul ''2'' = (2, [], False)"
    using strtoul_to_string[of 1] strtoul_to_string[of 2] by simp_all
  then show "StrToUint ''1'' = (True, 1)" "StrToUint ''2'' = (True, 2)" by (simp_all add: StrToUint_def c_str_def)
  show "to_string (Suc 0) = ''1''" "to_string 2 = ''2''" using n by simp_all
qed

lemma linked_env_simps [simp]:
  "ubse_node_list linked_env = Pair (0, [\<lparr>tn_slot_id = 1, tn_host_name = ''a'', tn_sockets = []\<rparr>,
     \<lparr>tn_slot_id = 2, tn_host_name = ''b'', tn_sockets = []\<rparr>])"
  "ubse_link_list linked_env = Pair (0, Some [\<lparr>tl_slot_id = 1, tl_peer_slot_id = 2\<rparr>])"
  "ubse_node_local_get linked_env = Pair (0, \<lparr>tn_slot_id = 1, tn_host_name = ''a'', tn_sockets = []\<rparr>)"
  by (simp_all add: linked_env_def)

abbreviation linked_desc :: SHMRegionDesc where
  "linked_desc \<equiv> new_SHMRegionDesc\<lparr>rd_num := 2, rd_nodeId := (\<lambda>_. [])(0 := ''1'', Suc 0 := ''2'')\<rparr>"

lemma linked_static:
  assumes "ad_initialized (d_adapter d)"
  shows "run_state (InitializeRegionList linked_env) d =
    ((UBSM_OK, \<lparr>rs_num = 1, rs_region = (\<lambda>_. new_SHMRegionDesc)(0 := linked_desc)\<rparr>), d)"
proof -
  have m: "neiBorNode [\<lparr>tl_slot_id = 1, tl_peer_slot_id = 2\<rparr>] = [(1, [2]), (2, [1])]"
    by (simp add: neiBorNode_def add_neighbor_def find_or_empty_def insort_insert_key_def)
  have l: "region_lists 1 [(1, [2]), (2, [1])] = ([1, 2], [1])"
    by (simp add: region_lists_def find_or_empty_def insort_insert_key_def Let_def word_le_nat_alt)
  have p: "push_region [1, 2] (0, new_SHMRegions) = (0, \<lparr>rs_num = 1, rs_region = (\<lambda>_. new_SHMRegionDesc)(0 := linked_desc)\<rparr>)"
    using small_numbers
    by (simp add: push_region_def FillRegionDesc_def strcpy_s_def new_SHMRegionDesc_def new_SHMRegions_def MEM_TOPOLOGY_MAX_HOSTS_def
        MEM_MAX_ID_LENGTH_def MXM_OK_def)
  have q: "push_region [1] (0, R) = (0, R)" for R by (simp add: push_region_def)
  show ?thesis
    using assms by (simp add: InitializeRegionList_def m l p q Let_def find_or_empty_def UBS_TOPO_MAX_CPU_LINK_NUM_def)
qed

lemma linked_regions:
  "\<exists>rl. run_state (LookupRegionList linked_env) d = ((0, rl), d) \<and> rs_num rl = 1 \<and> rd_num (rs_region rl 0) = 2 \<and>
     rd_nodeId (rs_region rl 0) 0 = ''1'' \<and> rd_hostName (rs_region rl 0) 0 = ''a''" if "ad_initialized (d_adapter d)"
proof -
  have s: "slotToHostName [\<lparr>tn_slot_id = 1, tn_host_name = ''a'', tn_sockets = []\<rparr>, \<lparr>tn_slot_id = 2, tn_host_name = ''b'', tn_sockets = []\<rparr>] =
     [(1, ''a''), (2, ''b'')]" by (simp add: slotToHostName_def)
  have f: "\<exists>R. fill_regions e [(1, ''a''), (2, ''b'')] [0] \<lparr>rs_num = 1, rs_region = (\<lambda>_. new_SHMRegionDesc)(0 := linked_desc)\<rparr> =
     (UBSM_OK, \<lparr>rs_num = 1, rs_region = (\<lambda>_. new_SHMRegionDesc)(0 := linked_desc\<lparr>rd_hostName := (\<lambda>_. [])(0 := ''a'', Suc 0 := ''b'')\<rparr>)\<rparr>)" for e
    using small_numbers
    by (simp add: strcpy_s_def new_SHMRegionDesc_def MEM_TOPOLOGY_MAX_HOSTS_def MAX_HOST_NAME_DESC_LENGTH_def MXM_OK_def UBSM_OK_def Let_def
        upt_conv_Cons)
  then have p: "run_state (PopulateHostNameMap linked_env \<lparr>rs_num = 1, rs_region = (\<lambda>_. new_SHMRegionDesc)(0 := linked_desc)\<rparr>) d =
     ((UBSM_OK, \<lparr>rs_num = 1, rs_region = (\<lambda>_. new_SHMRegionDesc)(0 := linked_desc\<lparr>rd_hostName := (\<lambda>_. [])(0 := ''a'', Suc 0 := ''b'')\<rparr>)\<rparr>), d)"
    using that s by (simp add: PopulateHostNameMap_def UBS_SUCCESS_def UBS_MEM_MAX_SLOT_NUM_def MIN_NODE_NUM_def MAX_REGIONS_NUM_def)
  let ?R = "\<lparr>rs_num = 1, rs_region = (\<lambda>_. new_SHMRegionDesc)(0 := linked_desc\<lparr>rd_hostName := (\<lambda>_. [])(0 := ''a'', Suc 0 := ''b'')\<rparr>)\<rparr>"
  have run: "run_state (LookupRegionList linked_env) d = (CheckAndCopyRegionStatus ?R new_SHMRegions, d)"
    using that by (simp add: LookupRegionList_def Initialize_def linked_static p MXM_OK_def)
  have "\<exists>rl. CheckAndCopyRegionStatus ?R new_SHMRegions = (0, rl) \<and> rs_num rl = 1 \<and> rd_num (rs_region rl 0) = 2 \<and>
     rd_nodeId (rs_region rl 0) 0 = ''1'' \<and> rd_hostName (rs_region rl 0) 0 = ''a''"
    by (simp add: CheckAndCopyRegionStatus_def MAX_REGIONS_NUM_def MEM_TOPOLOGY_MAX_HOSTS_def copy_nodes_def Let_def UBSM_OK_def
        named_node_def upt_conv_Cons)
  then show ?thesis using run by auto
qed

definition region_store :: record_store where
  "region_store = d_store (snd (run_state (CreateRegionInfo region_one) idle_daemon))"

abbreviation region_one_record :: CreateRegionInput where
  "region_one_record \<equiv> \<lparr>cri_name = ''r1'', cri_size = 0, cri_nodeIds = [1], cri_affinity = [True]\<rparr>"

lemma upt_two: "2 \<le> n \<Longrightarrow> [0..<n] = 0 # 1 # [2..<n]"
  by (simp add: upt_conv_Cons numeral_2_eq_2)

lemma region_one_norm: "region_norm region_one_record = region_one_record"
proof -
  have "[0..<REGION_NODE_BITMAP_COUNT] = 0 # 1 # [2..<REGION_NODE_BITMAP_COUNT]"
    by (rule upt_two) (simp add: REGION_NODE_BITMAP_COUNT_def)
  then have "filter (\<lambda>n. n = 1) [0..<REGION_NODE_BITMAP_COUNT] = [1]" by simp
  then show ?thesis by (simp add: region_norm_def)
qed

lemma region_store_facts: "store_inv region_store" "ListRegionRecord region_store = [region_one_record]"
proof -
  have g: "good_name (ri_name region_one)" by (simp add: region_one_def good_name_def RECORD_NAME_SIZE_def)
  note C = CreateRegionInfo_run[OF idle_regions_inv g]
  show inv: "store_inv region_store" using C(1) by (simp add: regions_inv_def region_store_def)
  have "map_of (d_regions (snd (run_state (CreateRegionInfo region_one) idle_daemon))) = [''r1'' \<mapsto> region_one]"
    using C(2) region_one_created by (simp add: idle_daemon_def region_one_def)
  then have "as_regions (abs_of region_store) = (\<lambda>n. Option.bind ([''r1'' \<mapsto> region_one] n) (\<lambda>r. map_option region_norm (region_input r)))"
    using C(1) unfolding regions_inv_def region_store_def by presburger
  also have A: "\<dots> = [''r1'' \<mapsto> region_one_record]" by (simp add: fun_eq_iff region_one_input region_one_norm[simplified])
  finally have A: "as_regions (abs_of region_store) = [''r1'' \<mapsto> region_one_record]" .
  then have L: "set (ListRegionRecord region_store) = {region_one_record}" using set_ListRegionRecord[OF inv] by simp
  have "region.cached (regionAllocator region_store) (cachedRegionRecords region_store)" using inv by (simp add: store_inv_defs)
  from region.cached_distinct[OF this] have "distinct (map fst (cachedRegionRecords region_store))" .
  moreover have "set (map fst (cachedRegionRecords region_store)) = {''r1''}"
  proof -
    have "n \<in> dom (map_of (cachedRegionRecords region_store)) \<longleftrightarrow> n = ''r1''" for n
      using dom_views(1)[of n region_store] unfolding A by (simp add: domIff split: if_splits)
    then have "dom (map_of (cachedRegionRecords region_store)) = {''r1''}" by blast
    then show ?thesis by (simp add: dom_map_of_conv_image_fst)
  qed
  ultimately have "length (map fst (cachedRegionRecords region_store)) = 1" using distinct_card by fastforce
  then have "length (ListRegionRecord region_store) = 1" by (simp add: ListRegionRecord_def)
  then show "ListRegionRecord region_store = [region_one_record]" using L by (cases "ListRegionRecord region_store") auto
qed

theorem region_recovery_witness:
  "regions_inv (snd (run_state (RegionManager_Recovery linked_env) (idle_daemon\<lparr>d_store := region_store\<rparr>)))"
proof -
  let ?d = "idle_daemon\<lparr>d_store := region_store\<rparr>"
  have "ad_initialized (d_adapter ?d)" by (simp add: idle_daemon_def)
  from linked_regions[OF this] obtain rl where L: "run_state (LookupRegionList linked_env) ?d = ((0, rl), ?d)"
    "rs_num rl = 1" "rd_num (rs_region rl 0) = 2" "rd_nodeId (rs_region rl 0) 0 = ''1''" "rd_hostName (rs_region rl 0) 0 = ''a''" by blast
  let ?e = "rs_region rl 0" and ?out = "\<lparr>ri_name = ''r1'', ri_size = 0, ri_region = new_SHMRegionDesc\<rparr>"
  have z: "[0..<nat (rd_num ?e)] = [0, 1]" "[0..<nat (rs_num rl)] = [0]" using L(2,3) by (simp_all add: upt_two)
  have "find_place ?e (\<lambda>_. None) 1 [0, 1] = Some 0" using L(4) small_numbers by simp
  then have "match_nodes ?e [(1, True)] (\<lambda>_. None) = Some [0 \<mapsto> True]" unfolding match_nodes.simps z by simp
  then have "CheckRegionMatched region_one_record ?out ?e \<noteq> None"
    unfolding CheckRegionMatched_def z using L(3-5)
    by (simp add: MEM_TOPOLOGY_MAX_HOSTS_def strcpy_s_def MEM_MAX_ID_LENGTH_def MAX_HOST_NAME_DESC_LENGTH_def Let_def)
  then have T: "TransRecordToRegionCache region_one_record rl \<noteq> None"
    unfolding TransRecordToRegionCache_def z by (auto split: option.split)
  then obtain r where r: "TransRecordToRegionCache region_one_record rl = Some r" by blast
  have "fst (run_state (RecoverFromRamFS linked_env) ?d)"
    using L(1) r[simplified] region_store_facts(2) by (simp add: RecoverFromRamFS_def RegionRepository_Recovery_def idle_daemon_def)
  then have "run_state (RegionManager_Recovery linked_env) ?d = (HOK, snd (run_state (RegionManager_Recovery linked_env) ?d))"
    by (simp add: RegionManager_Recovery_def split_beta)
  from region_recovery[OF _ _ this] show ?thesis using region_store_facts(1) by (simp add: idle_daemon_def)
qed

end
