(* ===== verification/Ubse_Shm.thy ===== *)
theory Ubse_Shm
  imports Ubse_Adapter
begin

text \<open>
  The calls of the UBS engine for shared memory, the second half of
  \<^verbatim>\<open>under_api/ubse/ubse_mem_adapter.cpp\<close>.  The user data the engine keeps with a shared memory is
  exactly one \<^typ>\<open>ubse_user_info\<close>, 32 bytes.
\<close>

section \<open>Flags and parameters\<close>

definition UBSM_FLAG_CACHE :: u64 where "UBSM_FLAG_CACHE = 0x0"

definition UBSM_FLAG_WITH_LOCK :: u64 where "UBSM_FLAG_WITH_LOCK = 0x1"

definition UBSM_FLAG_NONCACHE :: u64 where "UBSM_FLAG_NONCACHE = 0x2"

definition UBSM_FLAG_WR_DELAY_COMP :: u64 where "UBSM_FLAG_WR_DELAY_COMP = 0x4"

definition UBSM_FLAG_ONLY_IMPORT_NONCACHE :: u64 where "UBSM_FLAG_ONLY_IMPORT_NONCACHE = 0x8"

definition UBSM_FLAG_MEM_ANONYMOUS :: u64 where "UBSM_FLAG_MEM_ANONYMOUS = 0x10"

definition UBS_MEM_FLAG_NO_WR_DELAY :: u64 where "UBS_MEM_FLAG_NO_WR_DELAY = 0x1"

definition UBS_MEM_FLAG_SHM_ANONYMOUS :: u64 where "UBS_MEM_FLAG_SHM_ANONYMOUS = 0x2"

definition UBS_MEM_FLAG_CACHEABLE :: u64 where "UBS_MEM_FLAG_CACHEABLE = 0x4"

definition UBS_FEATURE_BIT_CC_CACHEABLE :: u64 where "UBS_FEATURE_BIT_CC_CACHEABLE = 0x8"

definition UBS_TOPO_MAX_NODE_NUM :: nat where "UBS_TOPO_MAX_NODE_NUM = 512"

definition MAX_SHM_NAME_LENGTH :: nat where "MAX_SHM_NAME_LENGTH = 48"

definition flag_set :: "u64 \<Rightarrow> u64 \<Rightarrow> bool" where
  "flag_set flags f \<longleftrightarrow> flags AND f \<noteq> 0"

record CreateShmParam =
  cp_name :: string
  cp_size :: u64
  cp_appContext :: AppContext
  cp_desc :: SHMRegionDesc
  cp_flag :: u64
  cp_mode :: u32
  cp_privider :: "u32 list"

record CreateShmWithProviderParam =
  pp_hostName :: string
  pp_socketId :: u32
  pp_numaId :: u32
  pp_portId :: u32
  pp_name :: string
  pp_size :: u64
  pp_appContext :: AppContext
  pp_flag :: u64
  pp_mode :: u32

record AttachShmResult =
  ar_shmSize :: u64
  ar_unitSize :: u64
  ar_memIds :: "u64 list"
  ar_flag :: u64
  ar_oflag :: u32

definition new_user_info :: ubse_user_info where
  "new_user_info = \<lparr>ui_uid = 0, ui_gid = 0, ui_pid = 0, ui_mode = 0, ui_flag = 0, ui_seqNo = 0\<rparr>"

definition new_AttachShmResult :: AttachShmResult where
  "new_AttachShmResult = \<lparr>ar_shmSize = 0, ar_unitSize = 0, ar_memIds = [], ar_flag = 0, ar_oflag = 0\<rparr>"

section \<open>Creation\<close>

definition GenerateCreateSeqNo :: "u32 \<Rightarrow> ('w, u64) act" where
  "GenerateCreateSeqNo slotId = do {
     no \<leftarrow> call_store GetCreateSeqNo;
     return (push_bit 32 (ucast slotId) OR ucast no) }"

definition FillUserInfo :: "'w env \<Rightarrow> AppContext \<Rightarrow> u64 \<Rightarrow> u32 \<Rightarrow> ('w, int \<times> ubse_user_info) act" where
  "FillUserInfo E ownner flags mode = (let info = new_user_info\<lparr>ui_uid := app_uid ownner, ui_gid := app_gid ownner, ui_pid := app_pid ownner,
       ui_flag := flags, ui_mode := mode\<rparr> in do {
     (ret, nodeId) \<leftarrow> EnsureGetLocalNodeId E;
     if ret \<noteq> HOK then return (ret, info)
     else do {
       seqNo \<leftarrow> GenerateCreateSeqNo nodeId;
       return (HOK, info\<lparr>ui_seqNo := seqNo\<rparr>) } })"

definition PrepareUserInfoAndFlags :: "ubse_user_info \<Rightarrow> u64" where
  "PrepareUserInfoAndFlags info =
     (if flag_set (ui_flag info) UBSM_FLAG_WR_DELAY_COMP then UBS_MEM_FLAG_NO_WR_DELAY else 0) OR
     (if flag_set (ui_flag info) UBSM_FLAG_MEM_ANONYMOUS then UBS_MEM_FLAG_SHM_ANONYMOUS else 0) OR
     (if \<not> flag_set (ui_flag info) UBSM_FLAG_NONCACHE \<and> \<not> flag_set (ui_flag info) UBSM_FLAG_ONLY_IMPORT_NONCACHE
      then UBS_MEM_FLAG_CACHEABLE else 0)"

definition CheckFeatureCompatibility :: "u64 \<Rightarrow> ('w, int) act" where
  "CheckFeatureCompatibility flags = do {
     a \<leftarrow> gets d_adapter;
     if \<not> ad_ubFeatureValid a then return MXM_OK
     else if flag_set flags UBSM_FLAG_ONLY_IMPORT_NONCACHE then
       return (if flag_set (ad_ubFeature a) UBS_FEATURE_BIT_CC_CACHEABLE then MXM_ERR_UBSE_NOT_SUPPORTED else MXM_OK)
     else if \<not> flag_set flags UBSM_FLAG_NONCACHE then
       return (if \<not> flag_set (ad_ubFeature a) UBS_FEATURE_BIT_CC_CACHEABLE then MXM_ERR_UBSE_NOT_SUPPORTED else MXM_OK)
     else return MXM_OK }"

definition GetSocketIdWithNumaNode :: "'w env \<Rightarrow> int \<Rightarrow> ('w, int \<times> u32) act" where
  "GetSocketIdWithNumaNode E numaNode = do {
     a \<leftarrow> gets d_adapter;
     if \<not> ad_initialized a then return (MXM_ERR_UBSE_INNER, 0)
     else do {
       (res, localNode) \<leftarrow> ask (ubse_node_local_get E);
       if res \<noteq> 0 then return (MXM_ERR_UBSE_INNER, 0)
       else case find (\<lambda>(_, numa_ids). word_of_int numaNode \<in> set numa_ids) (tn_sockets localNode) of
         Some (socket_id, _) \<Rightarrow> return (MXM_OK, socket_id)
       | None \<Rightarrow> return (MXM_ERR_SHM_INVALID_NUMA, 0) } }"

text \<open>The delayed removal of a shared memory whose creation or attachment timed out.\<close>

definition shm_timed_out :: "'w env \<Rightarrow> string \<Rightarrow> AppContext \<Rightarrow> bool \<Rightarrow> u64 \<Rightarrow> ('w, int) act" where
  "shm_timed_out E name ctx isAttach seqNo = do {
     removedKey \<leftarrow> new_DelayRemovedKey E name ONE_MINUTE_MS False ctx False False True;
     AddDelayRemoveRecord (removedKey\<lparr>dk_isAttach := isAttach, dk_createSeqNo := seqNo\<rparr>);
     return UBS_ERR_TIMED_OUT }"

definition create_failed :: "int \<Rightarrow> int" where
  "create_failed ret = (if ret = UBS_ENGINE_ERR_EXISTED then MXM_ERR_SHM_ALREADY_EXIST
     else if ret = UBS_ERR_NOT_SUPPORTED then MXM_ERR_UBSE_NOT_SUPPORTED else MXM_ERR_UBSE_INNER)"

definition ShmCreateWithAffinity :: "'w env \<Rightarrow> CreateShmParam \<Rightarrow> u32 list \<Rightarrow> u64 \<Rightarrow> ubse_user_info \<Rightarrow> u64 \<Rightarrow> ('w, int) act" where
  "ShmCreateWithAffinity E param region ubseFlags usrInfo seqNo = do {
     a \<leftarrow> gets d_adapter;
     if \<not> ad_initialized a then return MXM_ERR_UBSE_INNER
     else do {
       numaNode \<leftarrow> ask (os_numa_of E (app_pid (cp_appContext param)));
       if numaNode = -1 then return MXM_ERR_SHM_INVALID_NUMA
       else do {
         (res, socketId) \<leftarrow> GetSocketIdWithNumaNode E numaNode;
         if res = MXM_OK then do {
           ret \<leftarrow> ask (ubse_shm_create_with_affinity E (c_str (cp_name param)) (cp_size param) socketId usrInfo ubseFlags
             region (cp_privider param));
           if ret \<noteq> UBS_SUCCESS \<and> ret \<noteq> UBS_ERR_TIMED_OUT then return (lease_failed ret)
           else if ret = UBS_ERR_TIMED_OUT then shm_timed_out E (cp_name param) (cp_appContext param) False seqNo
           else return MXM_OK }
         else return res } } }"

definition region_nodes :: "SHMRegionDesc \<Rightarrow> u32 list option" where
  "region_nodes desc = (let ids = map (\<lambda>i. StrToUint (rd_nodeId desc i)) [0..<nat (rd_num desc)] in
     if list_all fst ids then Some (map snd ids) else None)"

definition Ubse_ShmCreate :: "'w env \<Rightarrow> CreateShmParam \<Rightarrow> ('w, int) act" where
  "Ubse_ShmCreate E param = do {
     ret \<leftarrow> Initialize E;
     if ret \<noteq> 0 then return ret
     else case region_nodes (cp_desc param) of
       None \<Rightarrow> return MXM_ERR_PARAM_INVALID
     | Some region \<Rightarrow> do {
         (ret, info) \<leftarrow> FillUserInfo E (cp_appContext param) (cp_flag param) (cp_mode param);
         if ret \<noteq> HOK then return ret
         else let ubseFlags = PrepareUserInfoAndFlags info; seqNo = ui_seqNo info in do {
           ret \<leftarrow> CheckFeatureCompatibility (cp_flag param);
           if ret \<noteq> MXM_OK then return ret
           else do {
             ret \<leftarrow> ShmCreateWithAffinity E param region ubseFlags info seqNo;
             if ret = MXM_OK then return ret
             else do {
               ret \<leftarrow> ask (ubse_shm_create E (c_str (cp_name param)) (cp_size param) info ubseFlags region (cp_privider param));
               if ret \<noteq> UBS_SUCCESS \<and> ret \<noteq> UBS_ERR_TIMED_OUT then return (create_failed ret)
               else if ret = UBS_ERR_TIMED_OUT then shm_timed_out E (cp_name param) (cp_appContext param) False seqNo
               else return MXM_OK } } } } }"

definition GetSlotIdFromHostName :: "'w env \<Rightarrow> string \<Rightarrow> ('w, int \<times> u32) act" where
  "GetSlotIdFromHostName E hostName = do {
     ret \<leftarrow> Initialize E;
     if ret \<noteq> 0 then return (ret, - 1)
     else if hostName = [] then return (MXM_ERR_PARAM_INVALID, - 1)
     else do {
       (ret, nodeList) \<leftarrow> ask (ubse_node_list E);
       if ret \<noteq> UBS_SUCCESS then return (MXM_ERR_UBSE_INNER, - 1)
       else if nodeList = [] \<or> length nodeList > UBS_MEM_MAX_SLOT_NUM then return (MXM_ERR_UBSE_INNER, - 1)
       else let hostToSlotId = fold (\<lambda>n m. assign (tn_host_name n) (tn_slot_id n) m) nodeList [] in
         case map_of hostToSlotId hostName of
           None \<Rightarrow> return (MXM_ERR_SHM_NOT_FOUND, - 1)
         | Some slotId \<Rightarrow> return (MXM_OK, slotId) } }"

definition PrepareShmCreateWithProviderParams ::
  "'w env \<Rightarrow> CreateShmWithProviderParam \<Rightarrow> ('w, int \<times> ubse_user_info \<times> u32) act" where
  "PrepareShmCreateWithProviderParams E param = do {
     (ret, slotId) \<leftarrow> GetSlotIdFromHostName E (pp_hostName param);
     if ret \<noteq> MXM_OK then return (ret, new_user_info, slotId)
     else do {
       (ret, info) \<leftarrow> FillUserInfo E (pp_appContext param) (pp_flag param) (pp_mode param);
       if ret \<noteq> HOK then return (ret, info, slotId) else return (MXM_OK, info, slotId) } }"

definition ShmCreateWithProvider :: "'w env \<Rightarrow> CreateShmWithProviderParam \<Rightarrow> ('w, int) act" where
  "ShmCreateWithProvider E param = do {
     ret \<leftarrow> Initialize E;
     if ret \<noteq> 0 then return ret
     else do {
       (ret, info, slotId) \<leftarrow> PrepareShmCreateWithProviderParams E param;
       if ret \<noteq> MXM_OK then return ret
       else do {
         ret \<leftarrow> CheckFeatureCompatibility (pp_flag param);
         if ret \<noteq> MXM_OK then return ret
         else do {
           ret \<leftarrow> ask (ubse_shm_create_with_lender E (c_str (pp_name param)) info (PrepareUserInfoAndFlags info)
             \<lparr>ln_lender_size = pp_size param, ln_slot_id = slotId, ln_socket_id = pp_socketId param,
              ln_numa_id = pp_numaId param, ln_port_id = pp_portId param\<rparr>);
           if ret \<noteq> UBS_SUCCESS \<and> ret \<noteq> UBS_ERR_TIMED_OUT then return (create_failed ret)
           else if ret = UBS_ERR_TIMED_OUT then shm_timed_out E (pp_name param) (pp_appContext param) False (ui_seqNo info)
           else return MXM_OK } } } }"

section \<open>Deletion and queries\<close>

definition delete_code :: "int \<Rightarrow> int" where
  "delete_code ret = (if ret = UBS_SUCCESS then MXM_OK
     else if ret = UBS_ENGINE_ERR_SHM_ATTACH_USING then MXM_ERR_SHM_IN_USING
     else if ret = UBS_ENGINE_ERR_NOT_EXIST then MXM_ERR_SHM_NOT_EXIST
     else if ret = UBS_ERR_NOT_SUPPORTED then MXM_ERR_UBSE_NOT_SUPPORTED
     else MXM_ERR_UBSE_INNER)"

definition Ubse_ShmDelete :: "'w env \<Rightarrow> string \<Rightarrow> ('w, int) act" where
  "Ubse_ShmDelete E name = do {
     ret \<leftarrow> Initialize E;
     if ret \<noteq> 0 then return ret
     else do {
       ret \<leftarrow> ask (ubse_shm_delete E (c_str name));
       return (delete_code ret) } }"

definition ShmGetUserData :: "'w env \<Rightarrow> string \<Rightarrow> ('w, int \<times> ubse_user_info) act" where
  "ShmGetUserData E name = do {
     ret \<leftarrow> Initialize E;
     if ret \<noteq> 0 then return (ret, new_user_info)
     else do {
       (ret, desc) \<leftarrow> ask (ubse_shm_get E (c_str name));
       if ret \<noteq> UBS_SUCCESS then
         return (if ret = UBS_ENGINE_ERR_NOT_EXIST then MXM_ERR_SHM_NOT_EXIST else MXM_ERR_UBSE_INNER, new_user_info)
       else case desc of
         None \<Rightarrow> return (MXM_ERR_UBSE_INNER, new_user_info)
       | Some desc \<Rightarrow> return (MXM_OK, sd_usr_info desc) } }"

definition local_import :: "u32 \<Rightarrow> ubs_mem_shm_desc \<Rightarrow> ubs_mem_shm_import option" where
  "local_import slot desc = find (\<lambda>i. im_import_slot i = slot) (sd_import_desc desc)"

text \<open>The stage is \<^const>\<open>UBSE_END\<close> where the code leaves it as its caller has set it.\<close>

definition GetTimeOutShmTaskStatus :: "'w env \<Rightarrow> string \<Rightarrow> bool \<Rightarrow> ('w, int \<times> ubs_mem_stage \<times> u64 option) act" where
  "GetTimeOutShmTaskStatus E name isAttach = do {
     (ret, desc) \<leftarrow> ask (ubse_shm_get E (c_str name));
     if ret \<noteq> UBS_SUCCESS then
       return (if ret = UBS_ENGINE_ERR_NOT_EXIST then MXM_ERR_SHM_NOT_EXIST else MXM_ERR_UBSE_INNER, UBSE_END, None)
     else case desc of
       None \<Rightarrow> return (MXM_ERR_UBSE_INNER, UBSE_END, None)
     | Some desc \<Rightarrow>
         if length (sd_import_desc desc) > UBS_TOPO_MAX_NODE_NUM then return (MXM_ERR_UBSE_INNER, UBSE_END, None)
         else do {
           (ret, localNode) \<leftarrow> ask (ubse_node_local_get E);
           if ret \<noteq> UBS_SUCCESS then return (MXM_ERR_UBSE_INNER, UBSE_END, None)
           else if \<not> isAttach then
             if sd_import_desc desc \<noteq> [] then return (MXM_ERR_SHM_IN_USING, UBSE_END, None)
             else return (MXM_OK, sd_mem_stage desc, Some (ui_seqNo (sd_usr_info desc)))
           else if sd_import_desc desc = [] then return (MXM_ERR_SHM_NOT_EXIST, UBSE_END, None)
           else case local_import (tn_slot_id localNode) desc of
             None \<Rightarrow> return (MXM_ERR_SHM_NOT_EXIST, UBSE_END, None)
           | Some i \<Rightarrow> return (MXM_OK, im_mem_stage i, None) } }"

definition GetShareMemoryStage :: "'w env \<Rightarrow> string \<Rightarrow> ('w, int \<times> ubs_mem_stage) act" where
  "GetShareMemoryStage E name = do {
     a \<leftarrow> gets d_adapter;
     if \<not> ad_initialized a then return (MXM_ERR_UBSE_LIB, UBSE_END)
     else do {
       (ret, localNode) \<leftarrow> ask (ubse_node_local_get E);
       if ret \<noteq> 0 then return (MXM_ERR_UBSE_INNER, UBSE_END)
       else do {
         (ret, desc) \<leftarrow> ask (ubse_shm_get E (c_str name));
         if ret = UBS_ENGINE_ERR_NOT_EXIST then return (MXM_ERR_SHM_NOT_EXIST, UBSE_END)
         else if ret \<noteq> 0 then return (MXM_ERR_UBSE_INNER, UBSE_END)
         else case desc of
           None \<Rightarrow> return (MXM_ERR_UBSE_INNER, UBSE_END)
         | Some desc \<Rightarrow>
             if sd_import_desc desc = [] then return (MXM_ERR_SHM_NOT_EXIST, UBSE_END)
             else case local_import (tn_slot_id localNode) desc of
               None \<Rightarrow> return (MXM_OK, UBSE_NOT_EXIST)
             | Some i \<Rightarrow> return (MXM_OK, im_mem_stage i) } } }"

section \<open>Attachment\<close>

definition attach_result :: "ubse_user_info \<Rightarrow> ubs_mem_shm_desc \<Rightarrow> ubs_mem_shm_import \<Rightarrow> AttachShmResult" where
  "attach_result info shmDes i = \<lparr>ar_shmSize = sd_mem_size shmDes, ar_unitSize = sd_unit_size shmDes, ar_memIds = im_memids i,
     ar_flag = (if flag_set (ui_flag info) UBSM_FLAG_ONLY_IMPORT_NONCACHE \<and> sd_export_slot shmDes = im_import_slot i
                then ui_flag info AND NOT UBSM_FLAG_ONLY_IMPORT_NONCACHE else ui_flag info),
     ar_oflag = 0\<rparr>"

definition Ubse_ShmAttach :: "'w env \<Rightarrow> string \<Rightarrow> ubse_user_info \<Rightarrow> ('w, int \<times> AttachShmResult) act" where
  "Ubse_ShmAttach E name info = do {
     ret \<leftarrow> Initialize E;
     if ret \<noteq> 0 then return (ret, new_AttachShmResult)
     else let owner = \<lparr>app_pid = ui_pid info, app_uid = ui_uid info, app_gid = ui_gid info\<rparr> in do {
       (ret, shmDes) \<leftarrow> ask (ubse_shm_attach E (c_str name) owner (ui_mode info));
       if ret = UBS_ERR_TIMED_OUT then do {
         rc \<leftarrow> shm_timed_out E name owner True 0;
         return (rc, new_AttachShmResult) }
       else if ret \<noteq> UBS_SUCCESS \<and> ret \<noteq> UBS_ENGINE_ERR_EXISTED then return (lease_failed ret, new_AttachShmResult)
       else case shmDes of
         None \<Rightarrow> return (MXM_ERR_UBSE_INNER, new_AttachShmResult)
       | Some shmDes \<Rightarrow> (case sd_import_desc shmDes of
           [i] \<Rightarrow> return (MXM_OK, attach_result info shmDes i)
         | _ \<Rightarrow> return (MXM_ERR_UBSE_INNER, new_AttachShmResult)) } }"

definition detach_code :: "int \<Rightarrow> int" where
  "detach_code ret = (if ret = UBS_SUCCESS then MXM_OK
     else if ret = UBS_ENGINE_ERR_SHM_NO_ATTACH then MXM_ERR_UBSE_NOT_ATTACH
     else if ret = UBS_ERR_NOT_SUPPORTED then MXM_ERR_UBSE_NOT_SUPPORTED else MXM_ERR_UBSE_INNER)"

definition Ubse_ShmDetach :: "'w env \<Rightarrow> string \<Rightarrow> ('w, int) act" where
  "Ubse_ShmDetach E name = do {
     ret \<leftarrow> Initialize E;
     if ret \<noteq> 0 then return ret
     else do {
       ret \<leftarrow> ask (ubse_shm_detach E (c_str name));
       return (detach_code ret) } }"

text \<open>\<^verbatim>\<open>strncmp\<close> with the length of the prefix, and copies into names of bounded length.\<close>

fun copy_descs :: "int \<Rightarrow> string \<Rightarrow> ubs_mem_shm_desc list \<Rightarrow> (string \<times> u64) list \<Rightarrow> int \<times> (string \<times> u64) list" where
  "copy_descs copy_error prefix [] nameList = (MXM_OK, nameList)"
| "copy_descs copy_error prefix (desc # rest) nameList =
     (if take (length prefix) (sd_name desc) = c_str prefix then
        case strcpy_s (MAX_SHM_NAME_LENGTH + 1) (sd_name desc) of
          None \<Rightarrow> (copy_error, nameList)
        | Some n \<Rightarrow> copy_descs copy_error prefix rest (nameList @ [(n, sd_mem_size desc)])
      else copy_descs copy_error prefix rest nameList)"

definition ShmListLookup :: "'w env \<Rightarrow> string \<Rightarrow> ('w, int \<times> (string \<times> u64) list) act" where
  "ShmListLookup E prefix = do {
     ret \<leftarrow> Initialize E;
     if ret \<noteq> 0 then return (ret, [])
     else do {
       (ret, descs) \<leftarrow> ask (ubse_shm_list E);
       if ret \<noteq> UBS_SUCCESS then
         return (if ret = UBS_ENGINE_ERR_NOT_EXIST then MXM_ERR_SHM_NOT_FOUND
           else if ret = UBS_ERR_NOT_SUPPORTED then MXM_ERR_UBSE_NOT_SUPPORTED else MXM_ERR_UBSE_INNER, [])
       else return (copy_descs (securec_error E) prefix descs []) } }"

record ubsmem_shmem_info =
  shi_name :: string
  shi_size :: u64
  shi_mem_num :: u32
  shi_mem_unit_size :: u64
  shi_mem_id_list :: "u64 list"

definition new_shmem_info :: ubsmem_shmem_info where
  "new_shmem_info = \<lparr>shi_name = [], shi_size = 0, shi_mem_num = 0, shi_mem_unit_size = 0, shi_mem_id_list = []\<rparr>"

definition ShmLookup :: "'w env \<Rightarrow> string \<Rightarrow> ('w, int \<times> ubsmem_shmem_info) act" where
  "ShmLookup E name = do {
     ret \<leftarrow> Initialize E;
     if ret \<noteq> 0 then return (MXM_ERR_UBSE_LIB, new_shmem_info)
     else do {
       (ret, localNode) \<leftarrow> ask (ubse_node_local_get E);
       if ret \<noteq> 0 then return (MXM_ERR_UBSE_INNER, new_shmem_info)
       else do {
         (ret, desc) \<leftarrow> ask (ubse_shm_get E (c_str name));
         if ret \<noteq> UBS_SUCCESS then
           return (if ret = UBS_ENGINE_ERR_NOT_EXIST then MXM_ERR_SHM_NOT_FOUND
             else if ret = UBS_ERR_NOT_SUPPORTED then MXM_ERR_UBSE_NOT_SUPPORTED else MXM_ERR_UBSE_INNER, new_shmem_info)
         else case desc of
           None \<Rightarrow> return (MXM_ERR_UBSE_INNER, new_shmem_info)
         | Some desc \<Rightarrow> (case local_import (tn_slot_id localNode) desc of
             None \<Rightarrow> return (MXM_ERR_SHM_NOT_FOUND, new_shmem_info)
           | Some i \<Rightarrow> (case strcpy_s (MAX_SHM_NAME_LENGTH + 1) (sd_name desc) of
               None \<Rightarrow> return (MXM_ERR_MEMORY, new_shmem_info)
             | Some n \<Rightarrow> return (MXM_OK, \<lparr>shi_name = n, shi_size = sd_mem_size desc,
                 shi_mem_num = word_of_nat (length (im_memids i)), shi_mem_unit_size = sd_unit_size desc,
                 shi_mem_id_list = im_memids i\<rparr>))) } } }"

section \<open>What the calls leave alone\<close>

lemma shm_timed_out_frame [adapter_frames]: "preserves services (shm_timed_out E n ctx a s)"
  unfolding shm_timed_out_def by (intro allI frame_intros frame_keeps[OF new_DelayRemovedKey_frame])

lemma GetLocalNodeId_frame [adapter_frames]: "preserves services (GetLocalNodeId E)"
  unfolding GetLocalNodeId_def by (intro allI frame_intros)

lemma EnsureGetLocalNodeId_frame [adapter_frames]: "preserves services (EnsureGetLocalNodeId E)"
  unfolding EnsureGetLocalNodeId_def
  by (intro allI frame_intros frame_keeps[OF GetLocalNodeId_frame] frame_keeps[OF adapter_update_frame])

lemma shm_query_frames [adapter_frames]:
  "preserves services (Ubse_ShmDelete E n)" "preserves services (ShmGetUserData E n)"
  "preserves services (GetTimeOutShmTaskStatus E n a)" "preserves services (GetShareMemoryStage E n)"
  "preserves services (Ubse_ShmDetach E n)" "preserves services (ShmListLookup E n)" "preserves services (ShmLookup E n)"
  "preserves services (CheckFeatureCompatibility f)" "preserves services (GetSocketIdWithNumaNode E k)"
  "preserves services (GetSlotIdFromHostName E n)"
  unfolding Ubse_ShmDelete_def ShmGetUserData_def GetTimeOutShmTaskStatus_def GetShareMemoryStage_def Ubse_ShmDetach_def
    ShmListLookup_def ShmLookup_def CheckFeatureCompatibility_def GetSocketIdWithNumaNode_def GetSlotIdFromHostName_def
  by (intro allI frame_intros frame_keeps[OF Initialize_frame])+

end
