(* ===== verification/Shm_Manager.thy ===== *)
theory Shm_Manager
  imports Ubse_Shm
begin

text \<open>
  The manager of attached shared memory, \<^verbatim>\<open>mxm_shm/shm_manager.cpp\<close>: which shared memories this node
  has attached, by name, and which processes use them.  Each method runs under the lock of the
  manager and is one action; every change is written to the record store before the map.  The set
  of processes of a memory is a list without repetition.
\<close>

section \<open>Users of a memory\<close>

definition find_shm :: "string \<Rightarrow> ('w, AttachedShareMemory option) act" where
  "find_shm name = gets (\<lambda>d. map_of (d_shm d) name)"

abbreviation update_shm ::
  "((string \<times> AttachedShareMemory) list \<Rightarrow> (string \<times> AttachedShareMemory) list) \<Rightarrow> ('w, unit) act" where
  "update_shm f \<equiv> modify (d_shm_update f)"

definition AddMemoryUserInfo :: "string \<Rightarrow> u32 \<Rightarrow> ('w, int) act" where
  "AddMemoryUserInfo name userProcessId = do {
     pos \<leftarrow> find_shm name;
     case pos of
       None \<Rightarrow> return MXM_ERR_SHM_NOT_FOUND
     | Some memory \<Rightarrow> do {
         ret \<leftarrow> call_store (AddShmRefRecord userProcessId name);
         if ret \<noteq> 0 then return MXM_ERR_SHM_NOT_FOUND
         else do {
           update_shm (assign name (memory\<lparr>am_pids := List.insert userProcessId (am_pids memory)\<rparr>));
           return UBSM_OK } } }"

definition RemoveMemoryUserInfo :: "string \<Rightarrow> u32 \<Rightarrow> ('w, int) act" where
  "RemoveMemoryUserInfo name userProcessId = do {
     pos \<leftarrow> find_shm name;
     case pos of
       None \<Rightarrow> return MXM_ERR_SHM_NOT_FOUND
     | Some memory \<Rightarrow>
         if userProcessId \<notin> set (am_pids memory) then return MXM_ERR_SHM_NOT_FOUND
         else do {
           ret \<leftarrow> call_store (DelShmRefRecord userProcessId name);
           if ret \<noteq> 0 then return MXM_ERR_SHM_NOT_FOUND
           else do {
             update_shm (assign name (memory\<lparr>am_pids := removeAll userProcessId (am_pids memory)\<rparr>));
             return UBSM_OK } } }"

section \<open>Attached memories\<close>

definition new_import_result :: ShareMemImportResult where
  "new_import_result = \<lparr>smr_memIds = [], smr_unitSize = 0, smr_createFlags = 0, smr_openFlag = 0,
     smr_ownerUserId = 0, smr_ownerGroupId = 0\<rparr>"

definition PrepareAddShareMemoryInfo :: "string \<Rightarrow> u64 \<Rightarrow> u32 \<Rightarrow> ('w, int) act" where
  "PrepareAddShareMemoryInfo name sz processId = do {
     pos \<leftarrow> find_shm name;
     if pos \<noteq> None then return MXM_ERR_SHM_ALREADY_EXIST
     else do {
       ret \<leftarrow> call_store (AddShmImportInput \<lparr>smi_name = name, smi_size = sz, smi_pid = processId\<rparr>);
       if ret \<noteq> 0 then return MXM_ERR_RECORD_ADD
       else do {
         update_shm (emplace name \<lparr>am_name = name, am_size = sz, am_state = PRE_ADD, am_pids = [],
           am_result = new_import_result\<rparr>);
         return MXM_OK } } }"

definition AddFullShareMemoryInfo :: "string \<Rightarrow> u32 \<Rightarrow> ShareMemImportResult \<Rightarrow> ('w, int) act" where
  "AddFullShareMemoryInfo name pid result = do {
     pos \<leftarrow> find_shm name;
     case pos of
       None \<Rightarrow> return MXM_ERR_SHM_NOT_FOUND
     | Some memory \<Rightarrow> do {
         ret \<leftarrow> call_store (AddShmImportResult name result);
         if ret \<noteq> 0 then return MXM_ERR_RECORD_ADD
         else do {
           ret \<leftarrow> call_store (AddShmRefRecord pid name);
           if ret \<noteq> 0 then do {
             call_store (DelShmImportRecord name);
             return MXM_ERR_SHM_NOT_FOUND }
           else do {
             update_shm (assign name (memory\<lparr>am_state := FINISH, am_result := result,
               am_pids := List.insert pid (am_pids memory)\<rparr>));
             return MXM_OK } } } }"

definition UpdateShareMemoryRecordState :: "string \<Rightarrow> RecordState \<Rightarrow> ('w, int) act" where
  "UpdateShareMemoryRecordState name state = do {
     pos \<leftarrow> find_shm name;
     case pos of
       None \<Rightarrow> return MXM_ERR_SHM_NOT_FOUND
     | Some memory \<Rightarrow> do {
         ret \<leftarrow> call_store (UpdateShmImportRecordState name state);
         if ret \<noteq> 0 then return MXM_ERR_RECORD_CHANGE_STATE
         else do {
           update_shm (assign name (memory\<lparr>am_state := state\<rparr>));
           return MXM_OK } } }"

text \<open>The references of the given processes, up to the first that cannot be deleted.\<close>

primrec drop_refs :: "string \<Rightarrow> u32 list \<Rightarrow> ('w, bool) act" where
  "drop_refs name [] = return True"
| "drop_refs name (pid # pids) = do {
     ret \<leftarrow> call_store (DelShmRefRecord pid name);
     if ret \<noteq> 0 then return False else drop_refs name pids }"

definition RemoveMemoryInfo :: "string \<Rightarrow> bool \<Rightarrow> ('w, int) act" where
  "RemoveMemoryInfo name force = do {
     pos \<leftarrow> find_shm name;
     case pos of
       None \<Rightarrow> return MXM_ERR_SHM_NOT_FOUND
     | Some memory \<Rightarrow> do {
         ok \<leftarrow> (if force \<and> am_state memory = DELETED then do {
                 ok \<leftarrow> drop_refs name (am_pids memory);
                 if ok then do { update_shm (assign name (memory\<lparr>am_pids := []\<rparr>)); return True } else return False }
               else return True);
         if \<not> ok then return MXM_ERR_SHM_NOT_FOUND
         else if \<not> (force \<and> am_state memory = DELETED) \<and> am_pids memory \<noteq> [] then return MXM_ERR_SHM_IN_USING
         else do {
           ret \<leftarrow> call_store (DelShmImportRecord name);
           if ret \<noteq> 0 then return MXM_ERR_SHM_NOT_FOUND
           else do { update_shm (erase name); return UBSM_OK } } } }"

definition GetShareMemoryInfo :: "string \<Rightarrow> ('w, int \<times> AttachedShareMemory option) act" where
  "GetShareMemoryInfo name = do {
     pos \<leftarrow> find_shm name;
     return (if pos = None then MXM_ERR_SHM_NOT_FOUND else UBSM_OK, pos) }"

definition GetMemoryUsersByPid :: "u32 \<Rightarrow> ('w, AttachedShareMemory list) act" where
  "GetMemoryUsersByPid pid = gets (\<lambda>d. filter (\<lambda>memory. pid \<in> set (am_pids memory)) (map snd (d_shm d)))"

definition GetMemoryUsersCountByName :: "string \<Rightarrow> ('w, int \<times> nat) act" where
  "GetMemoryUsersCountByName name = do {
     pos \<leftarrow> find_shm name;
     return (UBSM_OK, case pos of None \<Rightarrow> 0 | Some memory \<Rightarrow> length (am_pids memory)) }"

definition GetAllUsers :: "('w, u32 list) act" where
  "GetAllUsers = gets (\<lambda>d. remdups (concat (map (am_pids \<circ> snd) (d_shm d))))"

section \<open>Recovery\<close>

definition Shm_RemovePreAddRecord :: "'w env \<Rightarrow> ShareMemImportInfo \<Rightarrow> ('w, int \<times> bool) act" where
  "Shm_RemovePreAddRecord E record = do {
     (ret, stage) \<leftarrow> GetShareMemoryStage E (sii_name record);
     if ret = MXM_ERR_SHM_NOT_EXIST then do { call_store (DelShmImportRecord (sii_name record)); return (MXM_OK, True) }
     else if ret \<noteq> 0 then return (ret, False)
     else if stage = UBSE_NOT_EXIST \<or> stage = UBSE_DELETING then do {
       call_store (DelShmImportRecord (sii_name record)); return (MXM_OK, True) }
     else do {
       key \<leftarrow> new_DelayRemovedKey E (sii_name record) ONE_MINUTE_MS False (sii_appContext record) False False True;
       AddDelayRemoveRecord (key\<lparr>dk_isAttach := True\<rparr>);
       return (MXM_OK, False) } }"

definition Shm_RollbackPreDeleteRecord :: "'w env \<Rightarrow> ShareMemImportInfo \<Rightarrow> ('w, int \<times> RecordState) act" where
  "Shm_RollbackPreDeleteRecord E record = do {
     (ret, stage) \<leftarrow> GetShareMemoryStage E (sii_name record);
     if ret = MXM_ERR_SHM_NOT_EXIST then do {
       call_store (UpdateShmImportRecordState (sii_name record) DELETED); return (MXM_OK, DELETED) }
     else if ret \<noteq> 0 then return (ret, sii_state record)
     else if stage = UBSE_NOT_EXIST \<or> stage = UBSE_DELETING \<or> stage = UBSE_ERR_WAIT_UNEXPORT then do {
       call_store (UpdateShmImportRecordState (sii_name record) DELETED); return (MXM_OK, DELETED) }
     else do {
       call_store (UpdateShmImportRecordState (sii_name record) FINISH); return (0, FINISH) } }"

definition memory_of_record :: "ShareMemImportInfo \<Rightarrow> RecordState \<Rightarrow> AttachedShareMemory" where
  "memory_of_record record state = \<lparr>am_name = sii_name record, am_size = sii_size record, am_state = state, am_pids = [],
     am_result = \<lparr>smr_memIds = sii_memIds record, smr_unitSize = sii_unitSize record, smr_createFlags = sii_flag record,
       smr_openFlag = sii_oflag record, smr_ownerUserId = app_uid (sii_appContext record),
       smr_ownerGroupId = app_gid (sii_appContext record)\<rparr>\<rparr>"

definition recover_import :: "'w env \<Rightarrow> ShareMemImportInfo \<Rightarrow> ('w, unit) act" where
  "recover_import E record = do {
     needToDelete \<leftarrow> (if sii_state record = PRE_ADD then do {
         (_, needToDelete) \<leftarrow> Shm_RemovePreAddRecord E record; return needToDelete }
       else return False);
     if needToDelete then return ()
     else do {
       (ret, state) \<leftarrow> (if sii_state record = PRE_DEL then Shm_RollbackPreDeleteRecord E record
                      else return (0, sii_state record));
       if ret \<noteq> 0 then return ()
       else update_shm (emplace (sii_name record) (memory_of_record record state)) } }"

primrec recover_imports :: "'w env \<Rightarrow> ShareMemImportInfo list \<Rightarrow> ('w, int) act" where
  "recover_imports E [] = return UBSM_OK"
| "recover_imports E (record # records) = do {
     pos \<leftarrow> find_shm (sii_name record);
     if pos \<noteq> None then return MXM_ERR_SHM_ALREADY_EXIST
     else do { recover_import E record; recover_imports E records } }"

definition Shm_RecoverFromRecord :: "'w env \<Rightarrow> ('w, int) act" where
  "Shm_RecoverFromRecord E = do {
     attachRecords \<leftarrow> gets (ListShmImportRecord \<circ> d_store);
     recover_imports E attachRecords }"

primrec recover_users :: "(string \<times> (u32 \<times> nat) list) list \<Rightarrow> ('w, int) act" where
  "recover_users [] = return UBSM_OK"
| "recover_users (ref # refs) = do {
     pos \<leftarrow> find_shm (fst ref);
     case pos of
       None \<Rightarrow> return MXM_ERR_SHM_NOT_FOUND
     | Some memory \<Rightarrow> do {
         update_shm (assign (fst ref) (memory\<lparr>am_pids := fold (List.insert \<circ> fst) (snd ref) (am_pids memory)\<rparr>));
         recover_users refs } }"

definition drop_unused :: "string \<times> AttachedShareMemory \<Rightarrow> ('w, unit) act" where
  "drop_unused entry =
     (if am_state (snd entry) = PRE_ADD then return ()
      else if am_pids (snd entry) = [] then do {
        ret \<leftarrow> call_store (DelShmImportRecord (fst entry));
        if ret \<noteq> 0 then return () else update_shm (erase (fst entry)) }
      else return ())"

definition RecoverFromRefRecord :: "('w, int) act" where
  "RecoverFromRefRecord = do {
     refRecords \<leftarrow> gets (ListShmRefRecordNameF \<circ> d_store);
     ret \<leftarrow> recover_users refRecords;
     if ret \<noteq> UBSM_OK then return ret
     else do {
       backup \<leftarrow> gets d_shm;
       for_each backup drop_unused;
       return UBSM_OK } }"

definition SHMManager_Recovery :: "'w env \<Rightarrow> ('w, int) act" where
  "SHMManager_Recovery E = do {
     ret \<leftarrow> Shm_RecoverFromRecord E;
     if ret \<noteq> UBSM_OK then return ret
     else RecoverFromRefRecord }"

end
