(* ===== verification/Lease_Inv.thy ===== *)
theory Lease_Inv
  imports Lease_Manager
begin

text \<open>
  The lease manager and the record store agree.  The invariant says that every lease the manager
  holds, in use or kept for reuse, has a record with the same contents, that no two leases share a
  name, and that no record but a given set of orphans is forgotten by the manager.  Every method of
  the manager keeps it.  Since the methods exclude each other by the lock of the manager, it holds
  in every interleaving of requests.
\<close>

section \<open>Invariant\<close>

definition held :: "mls_manager \<Rightarrow> MLSMemInfo set" where
  "held m = snd ` set (usedMemory m) \<union> snd ` set (buffered True m) \<union> snd ` set (buffered False m)"

abbreviation info_pid :: "MLSMemInfo \<Rightarrow> u32" where
  "info_pid i \<equiv> app_pid (mi_appContext i)"

definition info_key :: "MLSMemInfo \<Rightarrow> MLSMemKey" where
  "info_key i = MLSMemKey (mi_size i) (mi_name i)"

definition used_entry :: "string \<times> MLSMemInfo \<Rightarrow> bool" where
  "used_entry e \<longleftrightarrow> fst e = mi_name (snd e) \<and> info_pid (snd e) \<noteq> 0"

definition buffered_entry :: "bool \<Rightarrow> MLSMemKey \<times> MLSMemInfo \<Rightarrow> bool" where
  "buffered_entry b e \<longleftrightarrow> fst e = info_key (snd e) \<and> mi_isNuma (snd e) = b \<and> info_pid (snd e) = 0"

definition placed :: "mls_manager \<Rightarrow> bool" where
  "placed m \<longleftrightarrow> map_ok (usedMemory m) \<and> (\<forall>b. map_ok (buffered b m)) \<and>
     (\<forall>e\<in>set (usedMemory m). used_entry e) \<and> (\<forall>b. \<forall>e\<in>set (buffered b m). buffered_entry b e)"

definition lease_matches :: "MLSMemInfo \<Rightarrow> LeaseMallocInput \<times> LeaseMallocResult \<Rightarrow> bool" where
  "lease_matches i r \<longleftrightarrow> lmi_name (fst r) = mi_name i \<and> lmi_size (fst r) = mi_size i \<and>
     lmi_appContext (fst r) = mi_appContext i \<and> lmi_fdMode (fst r) = (\<not> mi_isNuma i) \<and>
     lmi_distance (fst r) = ucast (mi_perflevel i) \<and> lmr_memIds (snd r) = mi_memIds i \<and>
     lmr_unitSize (snd r) = mi_unitSize i \<and> lmr_slotId (snd r) = mi_slotId i \<and>
     (mi_memIds i \<noteq> [] \<longrightarrow> lmr_numaId (snd r) = mi_numaId i)"

text \<open>A record without a process is a lease kept for reuse, of the size of its blocks.\<close>

definition kept_size :: "LeaseMallocInput \<times> LeaseMallocResult \<Rightarrow> bool" where
  "kept_size r \<longleftrightarrow> (app_pid (lmi_appContext (fst r)) = 0 \<longrightarrow>
     lmi_size (fst r) = lmr_unitSize (snd r) * word_of_nat (length (lmr_memIds (snd r))))"

definition agree :: "string set \<Rightarrow> MLSMemInfo set \<Rightarrow> (string \<rightharpoonup> LeaseMallocInput \<times> LeaseMallocResult) \<Rightarrow> bool" where
  "agree Orph H A \<longleftrightarrow> inj_on mi_name H \<and> (\<forall>i\<in>H. \<exists>r. A (mi_name i) = Some r \<and> lease_matches i r) \<and>
     dom A \<subseteq> mi_name ` H \<union> Orph \<and> (\<forall>n r. A n = Some r \<longrightarrow> kept_size r)"

abbreviation leases :: "record_store \<Rightarrow> string \<rightharpoonup> LeaseMallocInput \<times> LeaseMallocResult" where
  "leases st \<equiv> as_leases (abs_of st)"

definition lease_inv :: "string set \<Rightarrow> 'w daemon \<Rightarrow> bool" where
  "lease_inv Orph d \<longleftrightarrow> store_inv (d_store d) \<and> placed (d_mls d) \<and> agree Orph (held (d_mls d)) (leases (d_store d))"

section \<open>Moving one lease\<close>

lemma agree_add:
  assumes "agree Orph H A" "A (mi_name i) = None" "lease_matches i r" "kept_size r"
  shows "agree Orph (insert i H) (A(mi_name i \<mapsto> r))"
proof -
  have "mi_name j \<noteq> mi_name i" if "j \<in> H" for j using assms(1,2) that by (auto simp: agree_def)
  then show ?thesis using assms by (cases r) (auto simp: agree_def inj_on_def)
qed

lemma agree_del:
  assumes "agree Orph H A" "i \<in> H"
  shows "agree Orph (H - {i}) (A(mi_name i := None))"
proof -
  have ne: "mi_name j \<noteq> mi_name i" if "j \<in> H - {i}" for j using assms that by (auto simp: agree_def inj_on_def)
  have "dom (A(mi_name i := None)) \<subseteq> mi_name ` (H - {i}) \<union> Orph" using assms(1) by (auto simp: agree_def)
  then show ?thesis using assms ne by (auto simp: agree_def inj_on_diff)
qed

lemma agree_change:
  assumes "agree Orph H A" "i \<in> H" "mi_name i' = mi_name i" "lease_matches i' r" "kept_size r"
  shows "agree Orph (insert i' (H - {i})) (A(mi_name i \<mapsto> r))"
  using agree_add[OF agree_del[OF assms(1,2)], of i' r] assms(3-5) by simp

lemma agree_entry:
  assumes "agree Orph H A" "i \<in> H"
  obtains r where "A (mi_name i) = Some r" "lease_matches i r" "kept_size r"
  using assms by (auto simp: agree_def)

section \<open>Where a lease is held\<close>

lemma keyed_by: "\<forall>e\<in>set xs. fst e = f (snd e) \<Longrightarrow> j \<in> snd ` set xs \<longleftrightarrow> (f j, j) \<in> set xs"
  by (force simp: image_iff)

lemma erase_keyed:
  assumes "map_ok xs" "\<forall>e\<in>set xs. fst e = f (snd e)" "(f i, i) \<in> set xs"
  shows "snd ` set (erase (f i) xs) = snd ` set xs - {i}"
proof (rule set_eqI)
  fix j
  have K: "\<forall>e\<in>set (erase (f i) xs). fst e = f (snd e)" using assms(2) unfolding erase_entries[OF assms(1)] by blast
  have "j \<in> snd ` set (erase (f i) xs) \<longleftrightarrow> (f j, j) \<in> set xs \<and> f j \<noteq> f i"
    by (subst keyed_by[OF K]) (simp add: erase_entries[OF assms(1)])
  moreover have "f j = f i \<longleftrightarrow> j = i" if "(f j, j) \<in> set xs"
    using map_ok_of[OF assms(1) that] map_ok_of[OF assms(1,3)] by (metis option.inject)
  ultimately show "j \<in> snd ` set (erase (f i) xs) \<longleftrightarrow> j \<in> snd ` set xs - {i}"
    using keyed_by[OF assms(2), of j] by blast
qed

lemma placedD:
  assumes "placed m"
  shows "map_ok (usedMemory m)" "map_ok (buffered b m)" "\<forall>e\<in>set (usedMemory m). fst e = mi_name (snd e)"
    "\<forall>e\<in>set (buffered b m). fst e = info_key (snd e)"
  using assms by (simp_all add: placed_def used_entry_def buffered_entry_def)

lemma placed_used:
  assumes "placed m" "map_of (usedMemory m) n = Some i"
  shows "i \<in> held m \<and> mi_name i = n \<and> info_pid i \<noteq> 0"
proof -
  have e: "(n, i) \<in> set (usedMemory m)" using assms(2) by (rule map_of_SomeD)
  then have "used_entry (n, i)" using assms(1) by (simp add: placed_def)
  moreover have "i \<in> snd ` set (usedMemory m)" using e by (rule rev_image_eqI) simp
  ultimately show ?thesis by (simp add: held_def used_entry_def)
qed

lemma placed_buffered:
  assumes "placed m" "(k, i) \<in> set (buffered b m)"
  shows "i \<in> held m \<and> k = info_key i \<and> mi_isNuma i = b \<and> info_pid i = 0"
proof -
  have "buffered_entry b (k, i)" using assms by (simp add: placed_def)
  moreover have "i \<in> snd ` set (buffered b m)" using assms(2) by (rule rev_image_eqI) simp
  ultimately show ?thesis by (cases b) (simp_all add: held_def buffered_entry_def)
qed

lemma buffered_simps [simp]:
  "buffered b (usedMemory_update f m) = buffered b m"
  "usedMemory (buffered_update b g m) = usedMemory m"
  "buffered b (buffered_update c g m) = (if b = c then g (buffered c m) else buffered b m)"
  "maxBufferedMemNum (buffered_update b g m) = maxBufferedMemNum m"
  "isEnableLeaseBuffered (buffered_update b g m) = isEnableLeaseBuffered m"
  by (auto simp: buffered_def buffered_update_def)

lemma held_used_insert:
  assumes "placed m" "map_of (usedMemory m) (mi_name i) = None" "info_pid i \<noteq> 0"
  shows "placed (usedMemory_update (map_emplace (mi_name i) i) m)"
    "held (usedMemory_update (map_emplace (mi_name i) i) m) = insert i (held m)"
  using assms by (auto simp: placed_def held_def set_map_emplace map_emplace_ok used_entry_def)

lemma held_used_erase:
  assumes "placed m" "map_of (usedMemory m) n = Some i"
  shows "placed (usedMemory_update (erase n) m)"
    "held (usedMemory_update (erase n) m) = held m - {i}"
proof -
  show "placed (usedMemory_update (erase n) m)"
    using assms(1) by (simp add: placed_def map_ok_erase erase_entries)
  have i: "mi_name i = n" "info_pid i \<noteq> 0" using placed_used[OF assms] by auto
  have U: "snd ` set (erase n (usedMemory m)) = snd ` set (usedMemory m) - {i}"
    using erase_keyed[OF placedD(1,3)[OF assms(1)], of i] i(1) map_of_SomeD[OF assms(2)] by simp
  have "i \<notin> snd ` set (buffered b m)" for b
    using placed_buffered[OF assms(1), of _ i b] i(2) keyed_by[OF placedD(4)[OF assms(1), of b], of i] by blast
  then show "held (usedMemory_update (erase n) m) = held m - {i}" by (simp add: held_def U) blast
qed

lemma held_used_assign:
  assumes "placed m" "map_of (usedMemory m) n = Some i" "mi_name i' = n" "info_pid i' \<noteq> 0"
  shows "placed (usedMemory_update (map_assign n i') m)"
    "held (usedMemory_update (map_assign n i') m) = insert i' (held m - {i})"
proof -
  let ?m = "usedMemory_update (erase n) m"
  have eq: "usedMemory_update (map_assign n i') m = usedMemory_update (map_emplace (mi_name i') i') ?m"
    by (simp add: map_assign_def comp_def assms(3))
  have "map_of (usedMemory ?m) (mi_name i') = None" by (simp add: assms(3) map_of_erase)
  from held_used_insert[OF held_used_erase(1)[OF assms(1,2)] this assms(4)]
  show "placed (usedMemory_update (map_assign n i') m)"
    "held (usedMemory_update (map_assign n i') m) = insert i' (held m - {i})"
    unfolding eq using held_used_erase(2)[OF assms(1,2)] by simp_all
qed

lemma held_buffered_insert:
  assumes "placed m" "mi_isNuma i = b" "info_pid i = 0" "\<forall>j\<in>held m. mi_name j = mi_name i \<longrightarrow> info_pid j \<noteq> 0"
  shows "placed (buffered_update b (map_emplace (info_key i) i) m)"
    "held (buffered_update b (map_emplace (info_key i) i) m) = insert i (held m)"
proof -
  have "map_of (buffered b m) (info_key i) = None"
  proof (rule ccontr)
    assume "map_of (buffered b m) (info_key i) \<noteq> None"
    then obtain j where "(info_key i, j) \<in> set (buffered b m)" by (auto dest: map_of_SomeD)
    then have "j \<in> held m" "info_key i = info_key j" "info_pid j = 0" using placed_buffered[OF assms(1)] by blast+
    then show False using assms(4) by (auto simp: info_key_def)
  qed
  note S = set_map_emplace[OF this, of i]
  show "placed (buffered_update b (map_emplace (info_key i) i) m)"
    using assms(1-3) by (auto simp: placed_def S map_emplace_ok buffered_entry_def)
  show "held (buffered_update b (map_emplace (info_key i) i) m) = insert i (held m)"
    using S by (cases b) (simp_all add: held_def)
qed

lemma held_buffered_erase:
  assumes "placed m" "(k, i) \<in> set (buffered b m)"
  shows "placed (buffered_update b (erase k) m)"
    "held (buffered_update b (erase k) m) = held m - {i}"
proof -
  show "placed (buffered_update b (erase k) m)"
    using assms(1) by (auto simp: placed_def map_ok_erase erase_entries)
  have i: "k = info_key i" "mi_isNuma i = b" "info_pid i = 0" using placed_buffered[OF assms] by auto
  have B: "snd ` set (erase k (buffered b m)) = snd ` set (buffered b m) - {i}"
    using erase_keyed[OF placedD(2,4)[OF assms(1)], of i b] i(1) assms(2) by simp
  have "i \<notin> snd ` set (usedMemory m)" using assms(1) i(3) by (auto simp: placed_def used_entry_def)
  moreover have "i \<notin> snd ` set (buffered c m)" if "c \<noteq> b" for c
    using placed_buffered[OF assms(1), of _ i c] i(2) keyed_by[OF placedD(4)[OF assms(1), of c], of i] that by blast
  ultimately show "held (buffered_update b (erase k) m) = held m - {i}"
    using B by (cases b) (auto simp: held_def)
qed

section \<open>Every method keeps the invariant\<close>

text \<open>The calls of the repository as operations of the store.\<close>

lemma repository_op:
  "PreAddMemRecord input = call_store (exec_op (OpAddLease input))"
  "UpdateMemResultRecord n result = call_store (exec_op (OpLeaseResult n result))"
  "Repository_UpdateMemRecordState n s = call_store (exec_op (OpLeaseState n s))"
  "UpdateMemRecord n ctx sz = call_store (exec_op (OpLeaseUpdate n ctx sz))"
  "DeleteMemRecord n = call_store (exec_op (OpDelLease n))"
  by (simp_all add: repository_defs call_store_def)

lemma lease_call:
  assumes "store_inv st" "op_named op"
  shows "store_inv (snd (exec_op op st))"
    "leases (snd (exec_op op st)) = (if fst (exec_op op st) = 0 then as_leases (abs_op op (abs_of st)) else leases st)"
  using exec_call[OF assms] by simp_all

lemma lease_invI:
  "store_inv (d_store d) \<Longrightarrow> placed (d_mls d) \<Longrightarrow> agree Orph (held (d_mls d)) (leases (d_store d)) \<Longrightarrow> lease_inv Orph d"
  by (simp add: lease_inv_def)

lemma lease_invD:
  assumes "lease_inv Orph d"
  shows "store_inv (d_store d)" "placed (d_mls d)" "agree Orph (held (d_mls d)) (leases (d_store d))"
  using assms by (simp_all add: lease_inv_def)

text \<open>A call of the store that fails, or that only changes fields the manager does not mirror.\<close>

lemma lease_failed_call:
  assumes "lease_inv Orph d" "op_named op" "fst (exec_op op (d_store d)) \<noteq> 0"
  shows "lease_inv Orph (d\<lparr>d_store := snd (exec_op op (d_store d))\<rparr>)"
  using lease_invD[OF assms(1)] lease_call[OF lease_invD(1)[OF assms(1)] assms(2)] assms(3)
  by (intro lease_invI) simp_all

lemma lease_matches_state: "lease_matches i (inp\<lparr>lmi_state := s\<rparr>, res) \<longleftrightarrow> lease_matches i (inp, res)"
  by (simp add: lease_matches_def)

lemma kept_size_state: "kept_size (inp\<lparr>lmi_state := s\<rparr>, res) \<longleftrightarrow> kept_size (inp, res)"
  by (simp add: kept_size_def)

lemma agree_state:
  assumes "agree Orph H A"
  shows "agree Orph H (A(n := map_option (\<lambda>(i, r). (i\<lparr>lmi_state := s\<rparr>, r)) (A n)))"
proof -
  have "\<exists>r. (A(n := map_option (\<lambda>(i, r). (i\<lparr>lmi_state := s\<rparr>, r)) (A n))) (mi_name j) = Some r \<and> lease_matches j r"
    if "j \<in> H" for j
  proof -
    from agree_entry[OF assms that] obtain inp res where "A (mi_name j) = Some (inp, res)" "lease_matches j (inp, res)"
      by (metis surj_pair)
    then show ?thesis by (cases "mi_name j = n") (simp_all add: lease_matches_state)
  qed
  moreover have "kept_size r" if upd: "(A(n := map_option (\<lambda>(i, r). (i\<lparr>lmi_state := s\<rparr>, r)) (A n))) m = Some r" for m r
  proof -
    have K: "kept_size r" if "A m = Some r" for m r using assms that unfolding agree_def by blast
    show ?thesis
    proof (cases "m = n")
      case True
      then obtain inp res where "A n = Some (inp, res)" "r = (inp\<lparr>lmi_state := s\<rparr>, res)" using upd by auto
      then show ?thesis using K by (simp add: kept_size_state)
    qed (use upd K in simp)
  qed
  moreover have "dom (A(n := map_option (\<lambda>(i, r). (i\<lparr>lmi_state := s\<rparr>, r)) (A n))) = dom A"
    by (cases "A n") (auto simp: dom_def)
  ultimately show ?thesis using assms unfolding agree_def by auto
qed

lemma state_call_keeps: "keeps (lease_inv Orph) (Repository_UpdateMemRecordState n s)"
proof (rule tripleI)
  fix d :: "'w daemon"
  assume inv: "lease_inv Orph d"
  let ?x = "exec_op (OpLeaseState n s) (d_store d)"
  show "lease_inv Orph (snd (run_state (Repository_UpdateMemRecordState n s) d))"
  proof (cases "fst ?x = 0")
    case True
    then have "agree Orph (held (d_mls d)) (leases (snd ?x))"
      using lease_call(2)[OF lease_invD(1)[OF inv], of "OpLeaseState n s"] agree_state[OF lease_invD(3)[OF inv], of n s]
      by (simp del: exec_op.simps)
    then show ?thesis
      using lease_invD[OF inv] lease_call(1)[OF lease_invD(1)[OF inv], of "OpLeaseState n s"]
      unfolding repository_op by (intro lease_invI) (simp_all del: exec_op.simps)
  qed (use lease_failed_call[OF inv, of "OpLeaseState n s"] in \<open>simp add: repository_op del: exec_op.simps\<close>)
qed

lemma PreAddUsedMem_keeps:
  assumes "good_name name" "app_pid usr \<noteq> 0"
  shows "keeps (lease_inv Orph) (PreAddUsedMem name sz usr isNuma perfLevel)"
proof (rule tripleI)
  fix d :: "'w daemon"
  assume inv: "lease_inv Orph d"
  define input where "input = \<lparr>lmi_fdMode = \<not> isNuma, lmi_name = name, lmi_size = sz, lmi_distance = ucast perfLevel,
               lmi_appContext = usr, lmi_state = PRE_ADD\<rparr>"
  define info where "info = \<lparr>mi_name = name, mi_appContext = usr, mi_size = sz, mi_numaId = 0,
           mi_memIds = [], mi_unitSize = 0, mi_perflevel = perfLevel, mi_slotId = 0, mi_isNuma = isNuma,
           mi_state = PRE_ADD\<rparr>"
  let ?x = "exec_op (OpAddLease input) (d_store d)"
  have n: "op_named (OpAddLease input)" using assms(1) by (simp add: input_def)
  note D = lease_invD[OF inv]
  let ?d' = "snd (run_state (PreAddUsedMem name sz usr isNuma perfLevel) d)"
  consider "map_of (usedMemory (d_mls d)) name \<noteq> None"
    | (fail) "map_of (usedMemory (d_mls d)) name = None" "fst ?x \<noteq> 0"
    | (ok) "map_of (usedMemory (d_mls d)) name = None" "fst ?x = 0" by blast
  then show "lease_inv Orph ?d'"
  proof cases
    case fail
    then have "?d' = d\<lparr>d_store := snd ?x\<rparr>"
      by (simp add: PreAddUsedMem_def find_used_def repository_op input_def del: exec_op.simps)
    then show ?thesis using lease_failed_call[OF inv n fail(2)] by (simp del: exec_op.simps)
  next
    case ok
    then have d': "?d' = d\<lparr>d_store := snd ?x, d_mls := usedMemory_update (map_emplace (mi_name info) info) (d_mls d)\<rparr>"
      by (simp add: PreAddUsedMem_def find_used_def repository_op input_def info_def del: exec_op.simps)
    have fresh: "leases (d_store d) (mi_name info) = None"
    proof -
      have "op_pre (OpAddLease input) (abs_of (d_store d))" using exec_call(3)[OF D(1) n] ok(2) by blast
      moreover have "mi_name info = lmi_name input" by (simp add: info_def input_def)
      ultimately show ?thesis unfolding op_pre.simps domIff by metis
    qed
    have H: "placed (d_mls ?d')" "held (d_mls ?d') = insert info (held (d_mls d))"
      using held_used_insert[OF D(2), of info] ok(1) assms(2) by (simp_all add: d' info_def)
    have "leases (snd ?x) = (leases (d_store d))(mi_name info \<mapsto> lease_new input)"
      using lease_call(2)[OF D(1) n] ok(2) by (simp add: info_def input_def del: exec_op.simps)
    moreover have "lease_matches info (lease_new input)" "kept_size (lease_new input)"
      using assms(2) by (simp_all add: lease_matches_def kept_size_def lease_new_def info_def input_def)
    ultimately show ?thesis
      using agree_add[OF D(3) fresh] H lease_call(1)[OF D(1) n] unfolding d' by (intro lease_invI) (simp_all del: exec_op.simps)
  qed (use inv in \<open>auto simp: PreAddUsedMem_def find_used_def\<close>)
qed

lemma held_record:
  assumes "lease_inv Orph d" "i \<in> held (d_mls d)"
  obtains inp res where "leases (d_store d) (mi_name i) = Some (inp, res)" "lease_matches i (inp, res)" "kept_size (inp, res)"
  using agree_entry[OF lease_invD(3)[OF assms(1)] assms(2)] by (metis surj_pair)

text \<open>Replacing a lease in use, with its record, by one with the same name.\<close>

lemma change_used:
  assumes "lease_inv Orph d" "map_of (usedMemory (d_mls d)) n = Some i" "mi_name i' = n" "info_pid i' \<noteq> 0"
    "store_inv st" "leases st = (leases (d_store d))(n \<mapsto> r)" "lease_matches i' r" "kept_size r"
  shows "lease_inv Orph (d\<lparr>d_store := st, d_mls := usedMemory_update (map_assign n i') (d_mls d)\<rparr>)"
proof -
  note D = lease_invD[OF assms(1)] and U = placed_used[OF lease_invD(2)[OF assms(1)] assms(2)]
  note H = held_used_assign[OF D(2) assms(2-4)]
  have "agree Orph (insert i' (held (d_mls d) - {i})) ((leases (d_store d))(n \<mapsto> r))"
    using agree_change[OF D(3) conjunct1[OF U], of i' r] U assms(3,7,8) by simp
  then show ?thesis using H assms(5,6) by (intro lease_invI) simp_all
qed

lemma FinishAddUsedMem_keeps: "keeps (lease_inv Orph) (FinishAddUsedMem name numaId unitSize slotId ids)"
proof (rule tripleI)
  fix d :: "'w daemon"
  assume inv: "lease_inv Orph d"
  note D = lease_invD[OF inv]
  define res where "res = \<lparr>lmr_memIds = ids, lmr_numaId = numaId, lmr_unitSize = unitSize, lmr_slotId = slotId\<rparr>"
  let ?x = "exec_op (OpLeaseResult name res) (d_store d)"
  let ?d' = "snd (run_state (FinishAddUsedMem name numaId unitSize slotId ids) d)"
  show "lease_inv Orph ?d'"
  proof (cases "map_of (usedMemory (d_mls d)) name")
    case (Some i)
    note U = placed_used[OF D(2) Some]
    show ?thesis
    proof (cases "fst ?x = 0")
      case True
      let ?i = "i\<lparr>mi_numaId := numaId, mi_memIds := ids, mi_unitSize := unitSize, mi_slotId := slotId, mi_state := FINISH\<rparr>"
      have d': "?d' = d\<lparr>d_store := snd ?x, d_mls := usedMemory_update (map_assign name ?i) (d_mls d)\<rparr>"
        using Some True by (simp add: FinishAddUsedMem_def find_used_def repository_op res_def del: exec_op.simps)
      obtain inp res0 where r: "leases (d_store d) (mi_name i) = Some (inp, res0)" "lease_matches i (inp, res0)"
        using held_record[OF inv conjunct1[OF U]] by metis
      have pid: "app_pid (lmi_appContext inp) \<noteq> 0" using r(2) U by (simp add: lease_matches_def)
      have "leases (snd ?x) = (leases (d_store d))(name \<mapsto> (inp\<lparr>lmi_state := FINISH\<rparr>, res))"
        using lease_call(2)[OF D(1), of "OpLeaseResult name res"] True r(1) U by (simp del: exec_op.simps)
      moreover have "lease_matches ?i (inp\<lparr>lmi_state := FINISH\<rparr>, res)" "kept_size (inp\<lparr>lmi_state := FINISH\<rparr>, res)"
        using r(2) pid by (simp_all add: lease_matches_def kept_size_def res_def)
      ultimately show ?thesis
        unfolding d' using U lease_call(1)[OF D(1), of "OpLeaseResult name res"]
        by (intro change_used[OF inv Some]) (simp_all del: exec_op.simps)
    next
      case False
      then have "?d' = d\<lparr>d_store := snd ?x\<rparr>"
        using Some by (simp add: FinishAddUsedMem_def find_used_def repository_op res_def del: exec_op.simps)
      then show ?thesis using lease_failed_call[OF inv _ False] by (simp del: exec_op.simps)
    qed
  qed (use inv in \<open>simp add: FinishAddUsedMem_def find_used_def\<close>)
qed

text \<open>Calls about a lease that has a record succeed.\<close>

lemma held_call_ok:
  assumes "lease_inv Orph d" "i \<in> held (d_mls d)"
  shows "fst (exec_op (OpLeaseState (mi_name i) s) (d_store d)) = 0"
    "fst (exec_op (OpLeaseUpdate (mi_name i) ctx sz) (d_store d)) = 0"
    "fst (exec_op (OpDelLease (mi_name i)) (d_store d)) = 0"
proof -
  obtain r where "leases (d_store d) (mi_name i) = Some r" using held_record[OF assms] by metis
  then have "mi_name i \<in> dom (leases (d_store d))" by blast
  then show "fst (exec_op (OpLeaseState (mi_name i) s) (d_store d)) = 0"
    "fst (exec_op (OpLeaseUpdate (mi_name i) ctx sz) (d_store d)) = 0"
    "fst (exec_op (OpDelLease (mi_name i)) (d_store d)) = 0"
    using exec_call(3)[OF lease_invD(1)[OF assms(1)]] by (simp_all del: exec_op.simps)
qed

lemma UpdateMemRecordState_keeps: "keeps (lease_inv Orph) (UpdateMemRecordState name state)"
proof (rule tripleI)
  fix d :: "'w daemon"
  assume inv: "lease_inv Orph d"
  note D = lease_invD[OF inv]
  let ?x = "exec_op (OpLeaseState name state) (d_store d)"
  let ?d' = "snd (run_state (UpdateMemRecordState name state) d)"
  show "lease_inv Orph ?d'"
  proof (cases "map_of (usedMemory (d_mls d)) name")
    case (Some i)
    note U = placed_used[OF D(2) Some]
    have ok: "fst ?x = 0" using held_call_ok(1)[OF inv conjunct1[OF U]] U by (simp del: exec_op.simps)
    let ?i = "i\<lparr>mi_state := state\<rparr>"
    have d': "?d' = d\<lparr>d_store := snd ?x, d_mls := usedMemory_update (map_assign name ?i) (d_mls d)\<rparr>"
      using Some ok by (simp add: UpdateMemRecordState_def find_used_def repository_op del: exec_op.simps)
    obtain inp res where r: "leases (d_store d) (mi_name i) = Some (inp, res)" "lease_matches i (inp, res)" "kept_size (inp, res)"
      using held_record[OF inv conjunct1[OF U]] by metis
    have "leases (snd ?x) = (leases (d_store d))(name \<mapsto> (inp\<lparr>lmi_state := state\<rparr>, res))"
      using lease_call(2)[OF D(1), of "OpLeaseState name state"] ok r(1) U by (simp del: exec_op.simps)
    moreover have "lease_matches ?i (inp\<lparr>lmi_state := state\<rparr>, res)" "kept_size (inp\<lparr>lmi_state := state\<rparr>, res)"
      using r(2,3) by (simp_all add: lease_matches_def kept_size_def)
    ultimately show ?thesis
      unfolding d' using U lease_call(1)[OF D(1), of "OpLeaseState name state"]
      by (intro change_used[OF inv Some]) (simp_all del: exec_op.simps)
  qed (use inv in \<open>simp add: UpdateMemRecordState_def find_used_def\<close>)
qed

lemma DeleteUsedMem_keeps: "keeps (lease_inv Orph) (DeleteUsedMem name)"
proof (rule tripleI)
  fix d :: "'w daemon"
  assume inv: "lease_inv Orph d"
  note D = lease_invD[OF inv]
  let ?x = "exec_op (OpDelLease name) (d_store d)"
  show "lease_inv Orph (snd (run_state (DeleteUsedMem name) d))"
  proof (cases "map_of (usedMemory (d_mls d)) name")
    case (Some i)
    note U = placed_used[OF D(2) Some]
    have ok: "fst ?x = 0" using held_call_ok(3)[OF inv conjunct1[OF U]] U by (simp del: exec_op.simps)
    have d': "snd (run_state (DeleteUsedMem name) d) =
        d\<lparr>d_store := snd ?x, d_mls := usedMemory_update (erase name) (d_mls d)\<rparr>"
      using Some ok by (simp add: DeleteUsedMem_def find_used_def repository_op del: exec_op.simps)
    have "leases (snd ?x) = (leases (d_store d))(mi_name i := None)"
      using lease_call(2)[OF D(1), of "OpDelLease name"] ok U by (simp del: exec_op.simps)
    then show ?thesis
      unfolding d' using agree_del[OF D(3) conjunct1[OF U]] held_used_erase[OF D(2) Some]
        lease_call(1)[OF D(1), of "OpDelLease name"]
      by (intro lease_invI) (simp_all del: exec_op.simps)
  qed (use inv in \<open>simp add: DeleteUsedMem_def find_used_def\<close>)
qed

text \<open>What \<^const>\<open>PreDeleteUsedMem\<close> does to a lease in use: keep it for reuse, or mark its record.\<close>

definition kept_info :: "MLSMemInfo \<Rightarrow> MLSMemInfo" where
  "kept_info i = i\<lparr>mi_appContext := (mi_appContext i)\<lparr>app_pid := 0\<rparr>,
     mi_size := mi_unitSize i * word_of_nat (length (mi_memIds i))\<rparr>"

definition can_keep :: "mls_manager \<Rightarrow> bool \<Rightarrow> bool" where
  "can_keep m b \<longleftrightarrow> isEnableLeaseBuffered m \<and> length (buffered b m) < unat (maxBufferedMemNum m)"

lemma PreDeleteUsedMem_run:
  assumes "lease_inv Orph d" "map_of (usedMemory (d_mls d)) n = Some i"
  shows "run_state (PreDeleteUsedMem n) d =
    (if can_keep (d_mls d) (mi_isNuma i)
     then (1, d\<lparr>d_store := snd (exec_op (OpLeaseUpdate n (mi_appContext (kept_info i)) (mi_size (kept_info i))) (d_store d)),
            d_mls := usedMemory_update (erase n) (buffered_update (mi_isNuma i)
              (map_emplace (info_key (kept_info i)) (kept_info i)) (d_mls d))\<rparr>)
     else (0, d\<lparr>d_store := snd (exec_op (OpLeaseState n PRE_DEL) (d_store d))\<rparr>))"
proof -
  note U = placed_used[OF lease_invD(2)[OF assms(1)] assms(2)]
  have ok: "fst (exec_op (OpLeaseUpdate n ctx sz) (d_store d)) = 0" "fst (exec_op (OpLeaseState n PRE_DEL) (d_store d)) = 0" for ctx sz
    using held_call_ok[OF assms(1) conjunct1[OF U]] U by (simp_all del: exec_op.simps)
  show ?thesis
  proof (cases "can_keep (d_mls d) (mi_isNuma i)")
    case True
    then show ?thesis using assms(2) ok(1) U
      by (simp add: PreDeleteUsedMem_def BufferUsedMemory_def find_used_def repository_op can_keep_def Let_def
          kept_info_def info_key_def del: exec_op.simps)
  next
    case False
    then show ?thesis using assms(2) ok(2)
      by (simp add: PreDeleteUsedMem_def BufferUsedMemory_def find_used_def repository_op can_keep_def Let_def
          del: exec_op.simps)
  qed
qed

lemma kept_matches:
  assumes "lease_matches i (inp, res)"
  shows "lease_matches (kept_info i) (inp\<lparr>lmi_appContext := mi_appContext (kept_info i), lmi_size := mi_size (kept_info i)\<rparr>, res)"
    "kept_size (inp\<lparr>lmi_appContext := mi_appContext (kept_info i), lmi_size := mi_size (kept_info i)\<rparr>, res)"
  using assms by (auto simp: lease_matches_def kept_size_def kept_info_def)

lemma PreDeleteUsedMem_keeps: "keeps (lease_inv Orph) (PreDeleteUsedMem n)"
proof (rule tripleI)
  fix d :: "'w daemon"
  assume inv: "lease_inv Orph d"
  note D = lease_invD[OF inv]
  show "lease_inv Orph (snd (run_state (PreDeleteUsedMem n) d))"
  proof (cases "map_of (usedMemory (d_mls d)) n")
    case (Some i)
    note U = placed_used[OF D(2) Some]
    show ?thesis
    proof (cases "can_keep (d_mls d) (mi_isNuma i)")
      case True
      let ?i = "kept_info i"
      let ?op = "OpLeaseUpdate n (mi_appContext ?i) (mi_size ?i)"
      let ?m = "buffered_update (mi_isNuma i) (map_emplace (info_key ?i) ?i) (d_mls d)"
      have i: "mi_name ?i = n" "mi_isNuma ?i = mi_isNuma i" "info_pid ?i = 0" using U by (simp_all add: kept_info_def)
      have "info_pid j \<noteq> 0" if "j \<in> held (d_mls d)" "mi_name j = mi_name ?i" for j
      proof -
        have "j = i" using D(3) that U i(1) unfolding agree_def inj_on_def by metis
        then show ?thesis using U by simp
      qed
      then have H: "placed ?m" "held ?m = insert ?i (held (d_mls d))"
        using held_buffered_insert[OF D(2) i(2,3)] by blast+
      have "map_of (usedMemory ?m) n = Some i" using Some by simp
      note E = held_used_erase[OF H(1) this]
      have "?i \<noteq> i" using U i(3) by auto
      then have held: "held (usedMemory_update (erase n) ?m) = insert ?i (held (d_mls d) - {i})" using E(2) H(2) by auto
      obtain inp res where r: "leases (d_store d) (mi_name i) = Some (inp, res)" "lease_matches i (inp, res)"
        using held_record[OF inv conjunct1[OF U]] by metis
      let ?r = "(inp\<lparr>lmi_appContext := mi_appContext ?i, lmi_size := mi_size ?i\<rparr>, res)"
      have "fst (exec_op ?op (d_store d)) = 0" using held_call_ok(2)[OF inv conjunct1[OF U]] U by (simp del: exec_op.simps)
      then have "leases (snd (exec_op ?op (d_store d))) = (leases (d_store d))(mi_name i \<mapsto> ?r)"
        using lease_call(2)[OF D(1), of ?op] r(1) U by (simp del: exec_op.simps)
      moreover have "agree Orph (insert ?i (held (d_mls d) - {i})) ((leases (d_store d))(mi_name i \<mapsto> ?r))"
        using agree_change[OF D(3) conjunct1[OF U] _ kept_matches[OF r(2)]] i(1) U by simp
      ultimately show ?thesis
        unfolding PreDeleteUsedMem_run[OF inv Some] using True held E(1) lease_call(1)[OF D(1), of ?op]
        by (intro lease_invI) (simp_all del: exec_op.simps)
    next
      case False
      then show ?thesis
        using keeps_run[OF state_call_keeps[of Orph n PRE_DEL] inv]
        unfolding PreDeleteUsedMem_run[OF inv Some] by (simp add: repository_op del: exec_op.simps)
    qed
  qed (use inv in \<open>simp add: PreDeleteUsedMem_def find_used_def\<close>)
qed

lemma frame_lease: "preserves services m \<Longrightarrow> keeps (lease_inv Orph) m"
  by (erule services_keep) (simp add: services_def lease_inv_def)

lemmas lease_frames = adapter_frames[THEN frame_lease]

text \<open>Taking a lease out of the ones kept.\<close>

definition reuse_candidate :: "u64 \<Rightarrow> bool \<Rightarrow> u32 list \<Rightarrow> mls_manager \<Rightarrow> (MLSMemKey \<times> MLSMemInfo) option" where
  "reuse_candidate sz isNuma slotIds m =
     find (\<lambda>(_, i). mi_slotId i \<in> set slotIds) (lower_bound (MLSMemKey sz []) (buffered isNuma m))"

definition reused_info :: "u64 \<Rightarrow> AppContext \<Rightarrow> MLSMemInfo \<Rightarrow> MLSMemInfo" where
  "reused_info sz context i = i\<lparr>mi_appContext := context, mi_size := sz\<rparr>"

lemma find_SomeD: "find P xs = Some x \<Longrightarrow> x \<in> set xs \<and> P x"
  by (induction xs) (auto split: if_splits)

lemma reuse_candidateD:
  assumes "reuse_candidate sz b slots m = Some (k, i)" "placed m"
  shows "(k, i) \<in> set (buffered b m)" "MLSMemKey sz [] \<le> k" "mi_slotId i \<in> set slots"
  using find_SomeD[OF assms(1)[unfolded reuse_candidate_def]] lower_bound_ge[OF placedD(2)[OF assms(2)], of k i _ b]
  by auto

lemma ReuseMemInSlotId_run:
  assumes "lease_inv Orph d"
  shows "run_state (ReuseMemInSlotId sz b slots ctx) d =
    (case reuse_candidate sz b slots (d_mls d) of
       None \<Rightarrow> ((-1, None), d)
     | Some (k, i) \<Rightarrow> ((0, Some i), d\<lparr>d_store := snd (exec_op (OpLeaseUpdate (mi_name i) ctx sz) (d_store d)),
           d_mls := buffered_update b (erase k) (d_mls d)\<rparr>))"
proof (cases "reuse_candidate sz b slots (d_mls d)")
  case (Some e)
  obtain k i where e: "e = (k, i)" by (cases e)
  have "i \<in> held (d_mls d)"
    using reuse_candidateD(1)[OF Some[unfolded e] lease_invD(2)[OF assms]] placed_buffered[OF lease_invD(2)[OF assms]] by blast
  then show ?thesis
    using Some held_call_ok(2)[OF assms, of i ctx sz]
    by (simp add: ReuseMemInSlotId_def reuse_candidate_def repository_op e del: exec_op.simps)
qed (simp add: ReuseMemInSlotId_def reuse_candidate_def)

text \<open>The state after a lease has been taken for reuse.\<close>

definition after_reuse :: "u64 \<Rightarrow> bool \<Rightarrow> AppContext \<Rightarrow> MLSMemKey \<Rightarrow> MLSMemInfo \<Rightarrow> 'w daemon \<Rightarrow> 'w daemon" where
  "after_reuse sz b ctx k i d = d\<lparr>d_store := snd (exec_op (OpLeaseUpdate (mi_name i) ctx sz) (d_store d)),
     d_mls := usedMemory_update (map_emplace (mi_name i) (reused_info sz ctx i)) (buffered_update b (erase k) (d_mls d))\<rparr>"

lemma after_reuse_inv:
  assumes "lease_inv Orph d" "(k, i) \<in> set (buffered b (d_mls d))" "app_pid ctx \<noteq> 0"
  shows "lease_inv Orph (after_reuse sz b ctx k i d)"
proof -
  note D = lease_invD[OF assms(1)]
  note B = placed_buffered[OF D(2) assms(2)] and E = held_buffered_erase[OF D(2) assms(2)]
  let ?m = "buffered_update b (erase k) (d_mls d)" and ?i = "reused_info sz ctx i"
  let ?op = "OpLeaseUpdate (mi_name i) ctx sz"
  have i: "mi_name ?i = mi_name i" "info_pid ?i \<noteq> 0" using assms(3) by (simp_all add: reused_info_def)
  have "map_of (usedMemory ?m) (mi_name ?i) = None"
  proof (rule ccontr)
    assume "map_of (usedMemory ?m) (mi_name ?i) \<noteq> None"
    then obtain j where "map_of (usedMemory (d_mls d)) (mi_name i) = Some j" using i(1) by auto
    then have "j \<in> held (d_mls d)" "mi_name j = mi_name i" "info_pid j \<noteq> 0" using placed_used[OF D(2)] by blast+
    then show False using D(3) B unfolding agree_def inj_on_def by metis
  qed
  note U = held_used_insert[OF E(1) this i(2)]
  obtain inp res where r: "leases (d_store d) (mi_name i) = Some (inp, res)" "lease_matches i (inp, res)"
    using held_record[OF assms(1) conjunct1[OF B]] by metis
  let ?r = "(inp\<lparr>lmi_appContext := ctx, lmi_size := sz\<rparr>, res)"
  have "fst (exec_op ?op (d_store d)) = 0" using held_call_ok(2)[OF assms(1) conjunct1[OF B]] .
  then have L: "leases (snd (exec_op ?op (d_store d))) = (leases (d_store d))(mi_name i \<mapsto> ?r)"
    using lease_call(2)[OF D(1), of ?op] r(1) by (simp del: exec_op.simps)
  have "lease_matches ?i ?r" "kept_size ?r"
    using r(2) assms(3) by (simp_all add: lease_matches_def kept_size_def reused_info_def)
  then have "agree Orph (insert ?i (held (d_mls d) - {i})) ((leases (d_store d))(mi_name i \<mapsto> ?r))"
    using agree_change[OF D(3) conjunct1[OF B] i(1)] by blast
  then show ?thesis
    using U E(2) L i(1) lease_call(1)[OF D(1), of ?op] unfolding after_reuse_def
    by (intro lease_invI) (simp_all del: exec_op.simps)
qed

lemma reused_isNuma: "mi_isNuma i = b \<Longrightarrow> i\<lparr>mi_appContext := c, mi_size := s, mi_isNuma := b\<rparr> = reused_info s c i"
  by (simp add: reused_info_def)

lemma ReuseBufferedMem_state:
  assumes "lease_inv Orph d" "run_state (GetRegionInfo E regionName) d = ((hr, slots), d1)"
  shows "snd (run_state (ReuseBufferedMem E sz b regionName ctx) d) =
    (if \<not> isEnableLeaseBuffered (d_mls d) then d
     else if hr \<noteq> 0 then d1
     else case reuse_candidate sz b slots (d_mls d1) of None \<Rightarrow> d1 | Some (k, i) \<Rightarrow> after_reuse sz b ctx k i d1)"
proof -
  have inv1: "lease_inv Orph d1"
    using keeps_run[OF frame_lease[OF GetRegionInfo_frame] assms(1), of E regionName] assms(2) by simp
  show ?thesis
  proof (cases "reuse_candidate sz b slots (d_mls d1)")
    case (Some e)
    obtain k i where e: "e = (k, i)" by (cases e)
    have n: "mi_isNuma i = b"
      using reuse_candidateD(1)[OF Some[unfolded e] lease_invD(2)[OF inv1]] placed_buffered[OF lease_invD(2)[OF inv1]] by blast
    show ?thesis
      using Some assms(2) n
      by (simp add: ReuseBufferedMem_def ReuseMemInSlotId_run[OF inv1] e Let_def after_reuse_def reused_isNuma
          del: exec_op.simps)
  qed (use assms(2) in \<open>simp add: ReuseBufferedMem_def ReuseMemInSlotId_run[OF inv1]\<close>)
qed

lemma ReuseBufferedMem_keeps:
  fixes E :: "'w env"
  assumes "app_pid ctx \<noteq> 0"
  shows "keeps (lease_inv Orph) (ReuseBufferedMem E sz b regionName ctx)"
proof (rule tripleI)
  fix d :: "'w daemon"
  assume inv: "lease_inv Orph d"
  obtain hr slots d1 where G: "run_state (GetRegionInfo E regionName) d = ((hr, slots), d1)" by (metis surj_pair)
  have inv1: "lease_inv Orph d1" using keeps_run[OF frame_lease[OF GetRegionInfo_frame] inv, of E regionName] G by simp
  have "lease_inv Orph (after_reuse sz b ctx k i d1)" if "reuse_candidate sz b slots (d_mls d1) = Some (k, i)" for k i
    using after_reuse_inv[OF inv1 _ assms] reuse_candidateD(1)[OF that lease_invD(2)[OF inv1]] by blast
  then show "lease_inv Orph (snd (run_state (ReuseBufferedMem E sz b regionName ctx) d))"
    unfolding ReuseBufferedMem_state[OF inv G] using inv inv1 by (auto split: option.split prod.split)
qed

text \<open>Giving back the leases kept.\<close>

lemma LeaseFreeMemory_spec:
  assumes "lease_inv Orph d" "i \<in> held (d_mls d)" "run_state (LeaseFreeMemory E (mi_name i) b) d = (rc, d')"
  shows "d_mls d' = d_mls d \<and> (rc \<noteq> 0 \<longrightarrow> lease_inv Orph d') \<and>
    (rc = 0 \<longrightarrow> store_inv (d_store d') \<and> agree Orph (held (d_mls d) - {i}) (leases (d_store d')))"
proof -
  let ?x = "exec_op (OpLeaseState (mi_name i) PRE_DEL) (d_store d)"
  define d1 where "d1 = d\<lparr>d_store := snd ?x\<rparr>"
  have ok1: "fst ?x = 0" using held_call_ok(1)[OF assms(1,2)] .
  have inv1: "lease_inv Orph d1"
    using keeps_run[OF state_call_keeps[of Orph "mi_name i" PRE_DEL] assms(1)] by (simp add: repository_op d1_def del: exec_op.simps)
  obtain rf d2 where F: "run_state (LeaseFree E (mi_name i) b) d1 = (rf, d2)" by (metis surj_pair)
  have m2: "d_mls d2 = d_mls d" and inv2: "lease_inv Orph d2"
    using preserves_run[OF LeaseFree_frame, of E "mi_name i" b d1] keeps_run[OF frame_lease[OF LeaseFree_frame] inv1, of E "mi_name i" b] F
    by (simp_all add: services_def d1_def)
  note D = lease_invD[OF inv2]
  show ?thesis
  proof (cases "rf \<noteq> 0 \<and> rf \<noteq> MXM_ERR_LEASE_NOT_EXIST")
    case True
    then have "rc = rf" "d' = snd (run_state (Repository_UpdateMemRecordState (mi_name i) FINISH) d2)"
      using assms(3) F ok1 unfolding LeaseFreeMemory_def
      by (simp_all add: repository_op(3) d1_def del: exec_op.simps)
    then show ?thesis
      using True keeps_run[OF state_call_keeps[of Orph "mi_name i" FINISH] inv2] m2
      by (simp add: repository_op del: exec_op.simps)
  next
    case False
    let ?y = "exec_op (OpDelLease (mi_name i)) (d_store d2)"
    have ok2: "fst ?y = 0" using held_call_ok(3)[OF inv2] assms(2) m2 by (simp del: exec_op.simps)
    then have "rc = 0" "d' = d2\<lparr>d_store := snd ?y\<rparr>"
      using assms(3) F ok1 False unfolding LeaseFreeMemory_def
      by (auto simp: repository_op d1_def simp del: exec_op.simps)
    moreover have "leases (snd ?y) = (leases (d_store d2))(mi_name i := None)"
      using lease_call(2)[OF D(1), of "OpDelLease (mi_name i)"] ok2 by (simp del: exec_op.simps)
    moreover have "agree Orph (held (d_mls d) - {i}) ((leases (d_store d2))(mi_name i := None))"
      using agree_del[OF D(3)] assms(2) m2 by simp
    ultimately show ?thesis using m2 lease_call(1)[OF D(1), of "OpDelLease (mi_name i)"] by (simp del: exec_op.simps)
  qed
qed

definition to_free :: "string set \<Rightarrow> bool \<Rightarrow> (MLSMemKey \<times> MLSMemInfo) list \<Rightarrow> (MLSMemKey \<times> MLSMemInfo) list \<Rightarrow> 'w daemon \<Rightarrow> bool" where
  "to_free Orph b other xs d \<longleftrightarrow> lease_inv Orph d \<and> set xs \<subseteq> set (buffered b (d_mls d)) \<and> distinct (map fst xs) \<and>
     buffered (\<not> b) (d_mls d) = other"

lemma for_each_triple:
  assumes "\<And>x xs. triple (I (x # xs)) (f x) (\<lambda>_. I xs)"
  shows "triple (I xs) (for_each xs f) (\<lambda>_. I [])"
proof (induction xs)
  case (Cons x xs)
  show ?case unfolding for_each.simps by (rule triple_bind[OF assms]) (rule Cons.IH)
qed (simp add: triple_def)

lemma free_buffered_step:
  fixes E :: "'w env"
  shows "triple (to_free Orph b other (x # xs)) (free_buffered E b x) (\<lambda>_. to_free Orph b other xs)"
proof (rule tripleI)
  fix d :: "'w daemon"
  assume pre: "to_free Orph b other (x # xs) d"
  obtain k i where x: "x = (k, i)" by (cases x)
  have inv: "lease_inv Orph d" and mem: "(k, i) \<in> set (buffered b (d_mls d))" and sub: "set xs \<subseteq> set (buffered b (d_mls d))"
    and k: "k \<notin> fst ` set xs" and dist: "distinct (map fst xs)" and other: "buffered (\<not> b) (d_mls d) = other"
    using pre by (auto simp: to_free_def x)
  note D = lease_invD[OF inv]
  have h: "i \<in> held (d_mls d)" using placed_buffered[OF D(2) mem] by blast
  obtain rc d' where R: "run_state (LeaseFreeMemory E (mi_name i) b) d = (rc, d')" by (metis surj_pair)
  note S = LeaseFreeMemory_spec[OF inv h R]
  show "to_free Orph b other xs (snd (run_state (free_buffered E b x) d))"
  proof (cases "rc = 0")
    case True
    let ?m = "buffered_update b (erase k) (d_mls d)"
    have d'': "snd (run_state (free_buffered E b x) d) = d'\<lparr>d_mls := ?m\<rparr>"
      using R S True by (simp add: free_buffered_def x)
    note E = held_buffered_erase[OF D(2) mem]
    have "lease_inv Orph (d'\<lparr>d_mls := ?m\<rparr>)" using S True E by (intro lease_invI) simp_all
    moreover have "set xs \<subseteq> set (buffered b ?m)" using sub k by (auto simp: erase_entries[OF placedD(2)[OF D(2)]])
    ultimately show ?thesis using dist other unfolding d'' to_free_def by simp
  next
    case False
    then have "snd (run_state (free_buffered E b x) d) = d'" using R by (simp add: free_buffered_def x)
    then show ?thesis using S False sub dist other by (simp add: to_free_def)
  qed
qed

lemma DeleteAllBufferedMem_keeps:
  fixes E :: "'w env"
  shows "keeps (lease_inv Orph) (DeleteAllBufferedMem E)"
proof (rule tripleI)
  fix d :: "'w daemon"
  assume inv: "lease_inv Orph d"
  let ?numa = "numaBufferedMemory (d_mls d)" and ?fd = "fdBufferedMemory (d_mls d)"
  have ok: "map_ok ?numa" "map_ok ?fd"
    using placedD(2)[OF lease_invD(2)[OF inv], of True] placedD(2)[OF lease_invD(2)[OF inv], of False] by (simp_all add: buffered_def)
  let ?d1 = "snd (run_state (for_each ?numa (free_buffered E True)) d)"
  have "to_free Orph True ?fd ?numa d" using inv ok by (simp add: to_free_def buffered_def map_ok_def)
  from tripleD[OF for_each_triple[where I = "to_free Orph True ?fd", OF free_buffered_step] this]
  have 1: "to_free Orph True ?fd [] ?d1" .
  then have "to_free Orph False (numaBufferedMemory (d_mls ?d1)) ?fd ?d1"
    using ok by (simp add: to_free_def buffered_def map_ok_def)
  from tripleD[OF for_each_triple[where I = "to_free Orph False (numaBufferedMemory (d_mls ?d1))", OF free_buffered_step] this]
  have "lease_inv Orph (snd (run_state (for_each ?fd (free_buffered E False)) ?d1))" by (simp add: to_free_def)
  then show "lease_inv Orph (snd (run_state (DeleteAllBufferedMem E) d))"
    using inv by (simp add: DeleteAllBufferedMem_def split_beta)
qed

end
