(* ===== verification/Lease_Recovery.thy ===== *)
theory Lease_Recovery
  imports Lease_Inv
begin

text \<open>
  Recovery of the lease manager from the record store after a restart of the daemon
  (\<^verbatim>\<open>MLSManager::RecoverFromRecord\<close>): every lease of the store whose state the engine could tell is
  held by the manager again.
\<close>

section \<open>Recovery\<close>

abbreviation record_name :: "LeaseMallocInput \<times> LeaseMallocResult \<Rightarrow> string" where
  "record_name r \<equiv> lmi_name (fst r)"

lemma listed_names:
  assumes "store_inv st"
  shows "map record_name (ListMemLeaseRecord st) = map fst (cachedLeaseRecords st)"
proof -
  note D = store_leaseD[OF assms]
  have "record_name (ConvertMemLease (recordAddress (memLeaseAllocator st) i) ids) = n" if "(n, i, ids) \<in> set (cachedLeaseRecords st)" for n i ids
    using lease.cached_member[OF D(3) that] by (simp add: ConvertMemLease_def)
  then show ?thesis using D(1) by (auto simp: ListMemLeaseRecord_def)
qed

lemma stored_lease:
  assumes "store_inv st" "leases st n = Some r"
  shows "record_name r = n"
proof -
  note D = store_leaseD[OF assms(1)]
  from assms(2) obtain e where "map_of (cachedLeaseRecords st) n = Some e"
    "r = lease_of (recordAddress (memLeaseAllocator st) (fst e)) e"
    by (auto simp: abs_of_def dest: lease.view_SomeD)
  then show ?thesis using lease.cached_entry[OF D(3)] by (simp add: lease_of_def ConvertMemLease_def)
qed

lemma listed_leases:
  assumes "store_inv st"
  shows "distinct (map record_name (ListMemLeaseRecord st))" "r \<in> set (ListMemLeaseRecord st) \<longleftrightarrow> leases st (record_name r) = Some r"
proof -
  show "distinct (map record_name (ListMemLeaseRecord st))"
    unfolding listed_names[OF assms] using lease.cached_distinct[OF store_leaseD(3)[OF assms]] .
  show "r \<in> set (ListMemLeaseRecord st) \<longleftrightarrow> leases st (record_name r) = Some r"
    using stored_lease[OF assms] unfolding set_ListMemLeaseRecord[OF assms] ran_def by blast
qed

text \<open>
  The records still to be recovered, and the names that may be left out: a record whose request was
  under way when the daemon stopped.
\<close>

definition with_state :: "RecordState \<Rightarrow> LeaseMallocInput \<times> LeaseMallocResult \<Rightarrow> LeaseMallocInput \<times> LeaseMallocResult" where
  "with_state s r = ((fst r)\<lparr>lmi_state := s\<rparr>, snd r)"

definition to_recover :: "string set \<Rightarrow> 'w daemon \<Rightarrow> LeaseMallocInput \<times> LeaseMallocResult \<Rightarrow> bool" where
  "to_recover Orph d r \<longleftrightarrow> (\<exists>s. leases (d_store d) (record_name r) = Some (with_state s r)) \<and>
     record_name r \<notin> mi_name ` held (d_mls d) \<and>
     (lmi_state (fst r) \<in> {PRE_ADD, PRE_DEL} \<longrightarrow> record_name r \<in> Orph)"

definition recovering :: "string set \<Rightarrow> (LeaseMallocInput \<times> LeaseMallocResult) list \<Rightarrow> 'w daemon \<Rightarrow> bool" where
  "recovering Orph rs d \<longleftrightarrow> lease_inv (Orph \<union> record_name ` set rs) d \<and> distinct (map record_name rs) \<and>
     list_all (to_recover Orph d) rs"

lemma agree_orphans:
  "agree Orph H A \<Longrightarrow> dom A \<subseteq> mi_name ` H \<union> Orph' \<Longrightarrow> agree Orph' H A"
  unfolding agree_def by blast

lemma agree_hold:
  assumes "agree Orph H A" "A (mi_name i) = Some r" "lease_matches i r" "mi_name i \<notin> mi_name ` H"
  shows "agree Orph (insert i H) A"
proof -
  have "inj_on mi_name H" using assms(1) unfolding agree_def by blast
  then have "inj_on mi_name (insert i H)" using assms(4) by (simp add: inj_on_insert image_iff)
  then show ?thesis using assms unfolding agree_def by blast
qed

lemma agree_drop:
  assumes "agree Orph H A" "n \<notin> mi_name ` H" "Orph \<subseteq> insert n Orph'"
  shows "agree Orph' H (A(n := None))"
proof -
  have "\<exists>r. (A(n := None)) (mi_name i) = Some r \<and> lease_matches i r" if "i \<in> H" for i
  proof -
    have "mi_name i \<noteq> n" using assms(2) that by blast
    then show ?thesis using assms(1) that unfolding agree_def by simp
  qed
  moreover have "kept_size r" if "(A(n := None)) m = Some r" for m r
    using assms(1) that unfolding agree_def by (metis fun_upd_apply option.distinct(1))
  moreover have "dom (A(n := None)) \<subseteq> mi_name ` H \<union> Orph'" "inj_on mi_name H"
    using assms(1,3) unfolding agree_def dom_fun_upd by auto
  ultimately show ?thesis unfolding agree_def by blast
qed

lemma recoveringI:
  assumes "lease_inv Orph' d" "Orph' \<subseteq> Orph \<union> record_name ` set rs" "distinct (map record_name rs)"
    "\<And>r. r \<in> set rs \<Longrightarrow> to_recover Orph d r"
  shows "recovering Orph rs d"
proof -
  have "dom (leases (d_store d)) \<subseteq> mi_name ` held (d_mls d) \<union> Orph'"
    using lease_invD(3)[OF assms(1)] unfolding agree_def by blast
  then have "lease_inv (Orph \<union> record_name ` set rs) d"
    using lease_invD[OF assms(1)] assms(2) agree_orphans by (intro lease_invI) blast+
  then show ?thesis using assms(3,4) by (simp add: recovering_def list_all_iff)
qed

lemma recoveringD:
  assumes "recovering Orph (r # rs) d"
  shows "lease_inv (Orph \<union> insert (record_name r) (record_name ` set rs)) d" "distinct (map record_name rs)"
    "record_name r \<notin> record_name ` set rs" "to_recover Orph d r" "\<And>q. q \<in> set rs \<Longrightarrow> to_recover Orph d q"
    "\<And>q. q \<in> set rs \<Longrightarrow> record_name q \<noteq> record_name r"
proof -
  show n: "record_name r \<notin> record_name ` set rs" using assms by (simp add: recovering_def)
  show "record_name q \<noteq> record_name r" if "q \<in> set rs" for q using n imageI[OF that, of record_name] by metis
qed (use assms in \<open>auto simp: recovering_def list_all_iff\<close>)

text \<open>A record that is left alone, dropped, or taken over.\<close>

lemma recovering_skip:
  assumes "recovering Orph (r # rs) d" "record_name r \<in> Orph"
  shows "recovering Orph rs d"
  using recoveringD[OF assms(1)] assms(2) by (intro recoveringI[OF recoveringD(1)[OF assms(1)]]) auto

lemma recovering_frame: "preserves services m \<Longrightarrow> keeps (recovering Orph rs) m"
  by (erule services_keep) (auto simp: services_def recovering_def to_recover_def[abs_def] lease_inv_def)

lemma to_recover_other:
  assumes "to_recover Orph d q" "leases (d_store d') (record_name q) = leases (d_store d) (record_name q)"
    "record_name q \<notin> mi_name ` held (d_mls d')"
  shows "to_recover Orph d' q"
  using assms by (simp add: to_recover_def)

lemma recovering_drop: "triple (recovering Orph (r # rs)) (DeleteMemRecord (record_name r)) (\<lambda>_. recovering Orph rs)"
proof (rule tripleI)
  fix d :: "'w daemon"
  assume rec: "recovering Orph (r # rs) d"
  note R = recoveringD[OF rec] and D = lease_invD[OF recoveringD(1)[OF rec]]
  let ?x = "exec_op (OpDelLease (record_name r)) (d_store d)" and ?O = "Orph \<union> record_name ` set rs"
  have "record_name r \<in> dom (leases (d_store d))" using R(4) by (auto simp: to_recover_def)
  then have "fst ?x = 0" using exec_call(3)[OF D(1)] by (simp del: exec_op.simps)
  then have L: "leases (snd ?x) = (leases (d_store d))(record_name r := None)"
    using lease_call(2)[OF D(1), of "OpDelLease (record_name r)"] by (simp del: exec_op.simps)
  have n: "record_name r \<notin> mi_name ` held (d_mls d)" using R(4) by (simp add: to_recover_def)
  have "agree ?O (held (d_mls d)) (leases (snd ?x))"
    unfolding L by (rule agree_drop[OF D(3) n]) auto
  then have "lease_inv ?O (d\<lparr>d_store := snd ?x\<rparr>)"
    using D(1,2) lease_call(1)[OF D(1), of "OpDelLease (record_name r)"] by (intro lease_invI) (simp_all del: exec_op.simps)
  moreover have "to_recover Orph (d\<lparr>d_store := snd ?x\<rparr>) q" if "q \<in> set rs" for q
    using R(5,6)[OF that] L by (intro to_recover_other[OF R(5)[OF that]]) (simp_all add: to_recover_def del: exec_op.simps)
  ultimately show "recovering Orph rs (snd (run_state (DeleteMemRecord (record_name r)) d))"
    unfolding repository_op using R(2) by (intro recoveringI[of ?O]) (simp_all del: exec_op.simps)
qed

lemma recovering_state: "keeps (recovering Orph (r # rs)) (Repository_UpdateMemRecordState (record_name r) s)"
proof (rule tripleI)
  fix d :: "'w daemon"
  assume rec: "recovering Orph (r # rs) d"
  note R = recoveringD[OF rec] and D = lease_invD[OF recoveringD(1)[OF rec]]
  let ?x = "exec_op (OpLeaseState (record_name r) s) (d_store d)"
  let ?d' = "snd (run_state (Repository_UpdateMemRecordState (record_name r) s) d)"
  have d': "?d' = d\<lparr>d_store := snd ?x\<rparr>" by (simp add: repository_op del: exec_op.simps)
  have "record_name r \<in> dom (leases (d_store d))" using R(4) by (auto simp: to_recover_def)
  then have "fst ?x = 0" using exec_call(3)[OF D(1)] by (simp del: exec_op.simps)
  moreover obtain t where "leases (d_store d) (record_name r) = Some (with_state t r)" using R(4) by (auto simp: to_recover_def)
  ultimately have L: "leases (snd ?x) = (leases (d_store d))(record_name r \<mapsto> with_state s r)"
    using lease_call(2)[OF D(1), of "OpLeaseState (record_name r) s"] by (simp add: with_state_def del: exec_op.simps)
  have "to_recover Orph ?d' q" if "q \<in> set (r # rs)" for q
  proof (cases "q = r")
    case False
    then have q: "q \<in> set rs" using that by simp
    then show ?thesis using R(5,6)[OF q] L unfolding d'
      by (intro to_recover_other[OF R(5)[OF q]]) (simp_all add: to_recover_def del: exec_op.simps)
  next
    case True
    then show ?thesis using R(4) L unfolding d' to_recover_def by (auto simp del: exec_op.simps)
  qed
  then show "recovering Orph (r # rs) ?d'"
    using keeps_run[OF state_call_keeps R(1), of "record_name r" s] R(2,3) by (intro recoveringI) auto
qed

lemma distance_widened: "(ucast (ucast x :: u16) :: u8) = x"
  by (rule bit_word_eqI) (auto simp: bit_ucast_iff)

lemma recovering_hold: "triple (recovering Orph (r # rs)) (recover_lease (info_of_record r s)) (\<lambda>_. recovering Orph rs)"
proof (rule tripleI)
  fix d :: "'w daemon"
  assume rec: "recovering Orph (r # rs) d"
  note R = recoveringD[OF rec] and D = lease_invD[OF recoveringD(1)[OF rec]]
  let ?i = "info_of_record r s"
  define m where "m = d_mls (snd (run_state (recover_lease ?i) d))"
  let ?O = "Orph \<union> record_name ` set rs"
  have i: "mi_name ?i = record_name r" by (simp add: info_of_record_def)
  obtain t where L: "leases (d_store d) (record_name r) = Some (with_state t r)" and n: "record_name r \<notin> mi_name ` held (d_mls d)"
    using R(4) by (auto simp: to_recover_def)
  have d': "snd (run_state (recover_lease ?i) d) = d\<lparr>d_mls := m\<rparr>" by (simp add: recover_lease_def m_def)
  have "map_of (usedMemory (d_mls d)) (mi_name ?i) = None" (is ?thesis)
  proof (rule ccontr)
    assume "\<not> ?thesis"
    then obtain j where "map_of (usedMemory (d_mls d)) (mi_name ?i) = Some j" by blast
    from placed_used[OF D(2) this] have "j \<in> held (d_mls d)" "mi_name j = record_name r" using i by simp_all
    then show False using n imageI[of j "held (d_mls d)" mi_name] by simp
  qed
  moreover have "\<forall>j\<in>held (d_mls d). mi_name j = mi_name ?i \<longrightarrow> info_pid j \<noteq> 0" using n i by (metis image_eqI)
  ultimately have H: "placed m \<and> held m = insert ?i (held (d_mls d))"
    using held_used_insert[OF D(2), of ?i] held_buffered_insert[OF D(2) refl, of ?i]
    by (cases "info_pid ?i = 0") (simp_all add: recover_lease_def m_def info_key_def)
  have "lease_matches ?i (with_state t r)" by (simp add: lease_matches_def with_state_def info_of_record_def distance_widened)
  then have "agree (Orph \<union> insert (record_name r) (record_name ` set rs)) (held m) (leases (d_store d))"
    using agree_hold[OF D(3), of ?i "with_state t r"] L n H i by simp
  then have "agree ?O (held m) (leases (d_store d))"
  proof (rule agree_orphans)
    have "dom (leases (d_store d)) \<subseteq> mi_name ` held (d_mls d) \<union> (Orph \<union> insert (record_name r) (record_name ` set rs))"
      using D(3) unfolding agree_def by blast
    moreover have "mi_name ` held m = insert (record_name r) (mi_name ` held (d_mls d))" using H i by simp
    ultimately show "dom (leases (d_store d)) \<subseteq> mi_name ` held m \<union> ?O" by auto
  qed
  then have "lease_inv ?O (d\<lparr>d_mls := m\<rparr>)" using D(1) H by (intro lease_invI) simp_all
  moreover have "to_recover Orph (d\<lparr>d_mls := m\<rparr>) q" if "q \<in> set rs" for q
    using R(5,6)[OF that] H i by (intro to_recover_other[OF R(5)[OF that]]) (simp_all add: to_recover_def)
  ultimately show "recovering Orph rs (snd (run_state (recover_lease (info_of_record r s)) d))"
    using R(2) unfolding d' by (intro recoveringI[of ?O]) simp_all
qed

section \<open>The loop\<close>

lemmas recovery_frames = adapter_frames[THEN recovering_frame]

lemma RemovePreAddRecord_recovering:
  "triple (recovering Orph (r # rs)) (RemovePreAddRecord E r)
     (\<lambda>(rc, gone) d. recovering Orph (if gone then rs else r # rs) d \<and> (gone \<longrightarrow> rc = 0))"
proof -
  have drop: "triple (recovering Orph (r # rs)) (do { DeleteMemRecord (record_name r); return (MXM_OK, True) })
     (\<lambda>(rc, gone) d. recovering Orph (if gone then rs else r # rs) d \<and> (gone \<longrightarrow> rc = 0))"
    by (rule triple_bind[OF recovering_drop]) (rule triple_return, simp add: MXM_OK_def)
  have later: "triple (recovering Orph (r # rs))
     (do { key \<leftarrow> new_DelayRemovedKey E nm t l ctx u b o'; AddDelayRemoveRecord key; return (MXM_OK, False) })
     (\<lambda>(rc, gone) d. recovering Orph (if gone then rs else r # rs) d \<and> (gone \<longrightarrow> rc = 0))" for nm t l ctx u b o'
    by (rule triple_bind[OF recovering_frame[OF new_DelayRemovedKey_frame]]
          triple_bind[OF recovering_frame[OF AddDelayRemoveRecord_frame]])+ (rule triple_return, simp)
  show ?thesis
    unfolding RemovePreAddRecord_def
    by (rule triple_bind[OF recovering_frame[OF GetLeaseMemoryStage_frame]])
      (auto intro!: drop later triple_return)
qed

lemma RollbackPreDeleteRecord_recovering: "keeps (recovering Orph (r # rs)) (RollbackPreDeleteRecord E r)"
  unfolding RollbackPreDeleteRecord_def by (intro keeps_intros recovery_frames recovering_state)

text \<open>Each record is dropped, taken over, or left for the engine to decide.\<close>

lemma recover_record_step:
  fixes E :: "'w env"
  shows "triple (recovering Orph (r # rs)) (recover_record E r) (\<lambda>_. recovering Orph rs)"
proof -
  have left: "recovering Orph rs d" if "recovering Orph (r # rs) d" "lmi_state (fst r) \<in> {PRE_ADD, PRE_DEL}" for d :: "'w daemon"
    using that recoveringD(4)[OF that(1)] by (intro recovering_skip[OF that(1)]) (simp add: to_recover_def)
  then have skip: "triple (recovering Orph (r # rs)) (return () :: ('w, unit) act) (\<lambda>_. recovering Orph rs)"
    if "lmi_state (fst r) \<in> {PRE_ADD, PRE_DEL}" using that by (intro triple_return) blast
  have drop: "triple (recovering Orph (r # rs)) (do { DeleteMemRecord (record_name r); return () }) (\<lambda>_. recovering Orph rs)"
    by (rule triple_bind[OF recovering_drop]) (rule triple_return)
  have rest: "triple (recovering Orph (r # rs))
     (do { (rc, state) \<leftarrow> (if lmi_state (fst r) = PRE_DEL then RollbackPreDeleteRecord E r else return (0, lmi_state (fst r)));
       if rc \<noteq> 0 then return () else if state = DELETED then do { DeleteMemRecord (record_name r); return () }
       else recover_lease (info_of_record r state) }) (\<lambda>_. recovering Orph rs)"
    by (cases "lmi_state (fst r) = PRE_DEL")
      (auto intro!: triple_bind[OF RollbackPreDeleteRecord_recovering] skip drop recovering_hold)
  show ?thesis
  proof (cases "lmi_state (fst r) = PRE_ADD")
    case True
    show ?thesis
      unfolding recover_record_def using True
      by simp (rule triple_bind[OF RemovePreAddRecord_recovering], auto intro!: triple_return recovering_hold intro: left)
  next
    case False
    then show ?thesis using rest by (simp add: recover_record_def)
  qed
qed

lemma RecoverFromRecord_run:
  "run_state (RecoverFromRecord E) d =
    (0, d_mls_update (isEnableLeaseBuffered_update (\<lambda>_. cfg_LeaseCachedSwitch E))
      (snd (run_state (for_each (ListMemLeaseRecord (d_store d)) (recover_record E)) d)))"
  by (simp add: RecoverFromRecord_def RecoverMemRecord_def split_beta)

lemma lease_inv_switch: "lease_inv Orph (d_mls_update (isEnableLeaseBuffered_update f) d) \<longleftrightarrow> lease_inv Orph d"
proof -
  have b: "buffered b (isEnableLeaseBuffered_update f m) = buffered b m" for b m by (simp add: buffered_def)
  show ?thesis by (simp add: lease_inv_def placed_def held_def b)
qed

lemma RecoverFromRecord_inv:
  fixes E :: "'w env"
  assumes "store_inv (d_store d)" "held (d_mls d) = {}" "\<forall>n r. leases (d_store d) n = Some r \<longrightarrow> kept_size r"
  shows "lease_inv {n. \<exists>r. leases (d_store d) n = Some r \<and> lmi_state (fst r) \<in> {PRE_ADD, PRE_DEL}}
    (snd (run_state (RecoverFromRecord E) d))"
proof -
  let ?rs = "ListMemLeaseRecord (d_store d)"
  let ?O = "{n. \<exists>r. leases (d_store d) n = Some r \<and> lmi_state (fst r) \<in> {PRE_ADD, PRE_DEL}}"
  let ?d' = "snd (run_state (for_each ?rs (recover_record E)) d)"
  note L = listed_leases[OF assms(1)]
  have dom: "dom (leases (d_store d)) \<subseteq> record_name ` set ?rs"
  proof
    fix n assume "n \<in> dom (leases (d_store d))"
    then obtain r where r: "leases (d_store d) n = Some r" by blast
    then have "record_name r = n" by (rule stored_lease[OF assms(1)])
    then show "n \<in> record_name ` set ?rs" using r L(2)[of r] by force
  qed
  have "with_state (lmi_state (fst r)) r = r" for r by (cases r) (simp add: with_state_def)
  then have "to_recover ?O d r" if "r \<in> set ?rs" for r
    using that L(2)[of r] assms(2) unfolding to_recover_def by (metis (mono_tags, lifting) empty_iff image_empty mem_Collect_eq)
  moreover have "placed (d_mls d)" using assms(2) by (simp add: held_def placed_def map_ok_def buffered_def)
  moreover have "agree (record_name ` set ?rs) (held (d_mls d)) (leases (d_store d))"
    using dom assms(2,3) unfolding agree_def by simp
  ultimately have "recovering ?O ?rs d"
    using L(1) assms(1) by (intro recoveringI[of "record_name ` set ?rs"] lease_invI) auto
  from tripleD[OF for_each_triple[where I = "recovering ?O", OF recover_record_step[of _ _ _ E]] this]
  have "lease_inv ?O ?d'" by (simp add: recovering_def)
  then show ?thesis by (simp add: RecoverFromRecord_run lease_inv_switch)
qed

end
