(* ===== verification/Lease_Handlers.thy ===== *)
theory Lease_Handlers
  imports Lease_Recovery Messages_App
begin

text \<open>
  The handlers of the requests of applications for leased memory, \<^verbatim>\<open>mxm_lease/ipc_handler.cpp\<close>: each
  takes the decoded request, the response to fill in and the identity of the caller, and returns a
  code with the response.
\<close>

record MxmComUdsInfo =
  uds_pid :: u32
  uds_uid :: u32
  uds_gid :: u32

definition context_of :: "MxmComUdsInfo \<Rightarrow> AppContext" where
  "context_of udsInfo = \<lparr>app_pid = uds_pid udsInfo, app_uid = uds_uid udsInfo, app_gid = uds_gid udsInfo\<rparr>"

definition IsSameApp :: "AppContext \<Rightarrow> MxmComUdsInfo \<Rightarrow> bool" where
  "IsSameApp owner caller \<longleftrightarrow>
     app_pid owner = uds_pid caller \<and> app_uid owner = uds_uid caller \<and> app_gid owner = uds_gid caller"

abbreviation set_code :: "int \<Rightarrow> AppMallocMemoryResponse \<Rightarrow> AppMallocMemoryResponse" where
  "set_code rc \<equiv> AppMallocMemoryResp_errCode_update (\<lambda>_. word_of_int rc)"

abbreviation common_code :: "int \<Rightarrow> CommonResponse \<Rightarrow> CommonResponse" where
  "common_code rc \<equiv> CommonResp_errCode_update (\<lambda>_. word_of_int rc)"

section \<open>Allocation\<close>

definition RollBackReuseCacheMemory :: "'w env \<Rightarrow> string \<Rightarrow> bool \<Rightarrow> ('w, int) act" where
  "RollBackReuseCacheMemory E name isNuma = do {
     hr \<leftarrow> PreDeleteUsedMem name;
     if hr = 0 then do {
       ret \<leftarrow> LeaseFree E name isNuma;
       if ret \<noteq> 0 \<and> ret \<noteq> MXM_ERR_LEASE_NOT_EXIST then do {
         UpdateMemRecordState name FINISH;
         return ret }
       else do {
         ret \<leftarrow> DeleteUsedMem name;
         return (if ret \<noteq> 0 then ret else MXM_OK) } }
     else return MXM_OK }"

definition ReuseCachedLeaseMemory ::
  "'w env \<Rightarrow> u64 \<Rightarrow> string \<Rightarrow> bool \<Rightarrow> AppContext \<Rightarrow> AppMallocMemoryResponse \<Rightarrow> ('w, int \<times> AppMallocMemoryResponse) act" where
  "ReuseCachedLeaseMemory E sz regionName isNuma user response = do {
     (ret, found) \<leftarrow> ReuseBufferedMem E sz isNuma regionName user;
     case found of
       None \<Rightarrow> return (ret, response)
     | Some memory \<Rightarrow>
         let response = response\<lparr>AppMallocMemoryResp_memIds := mi_memIds memory,
               AppMallocMemoryResp_numaId := mi_numaId memory, AppMallocMemoryResp_isNuma := mi_isNuma memory,
               AppMallocMemoryResp_unitSize := mi_unitSize memory, AppMallocMemoryResp_name := mi_name memory,
               AppMallocMemoryResp_errCode := 0\<rparr> in
         if \<not> isNuma then do {
           hr \<leftarrow> FdPermissionChange E (mi_name memory) user (S_IRUSR OR S_IWUSR);
           if hr \<noteq> 0 then do {
             RollBackReuseCacheMemory E (mi_name memory) (AppMallocMemoryResp_isNuma response);
             return (hr, set_code hr response) }
           else return (MXM_OK, response) }
         else return (MXM_OK, response) }"

definition RollBackBorrowNewMemory :: "'w env \<Rightarrow> string \<Rightarrow> bool \<Rightarrow> ('w, unit) act" where
  "RollBackBorrowNewMemory E name isNuma = do {
     UpdateMemRecordState name PRE_DEL;
     LeaseFree E name isNuma;
     DeleteUsedMem name;
     return () }"

text \<open>The common end of both allocations: the response to a lease that is in place.\<close>

definition fill_response ::
  "u64 \<Rightarrow> string \<Rightarrow> LeaseMallocResult \<Rightarrow> AppMallocMemoryResponse \<Rightarrow> AppMallocMemoryResponse" where
  "fill_response sz name result response = response\<lparr>AppMallocMemoryResp_memIds := lmr_memIds result,
     AppMallocMemoryResp_numaId := lmr_numaId result, AppMallocMemoryResp_isNuma := lmr_numaId result \<noteq> - 1,
     AppMallocMemoryResp_unitSize := (if lmr_numaId result \<noteq> - 1 then sz else lmr_unitSize result),
     AppMallocMemoryResp_name := name, AppMallocMemoryResp_errCode := 0\<rparr>"

definition BorrowNewMemory ::
  "'w env \<Rightarrow> AppMallocMemoryRequest \<Rightarrow> AppMallocMemoryResponse \<Rightarrow> MxmComUdsInfo \<Rightarrow> ('w, int \<times> AppMallocMemoryResponse) act" where
  "BorrowNewMemory E request response udsInfo = do {
     name \<leftarrow> GenerateMemName E (AppMallocMemoryReq_size request);
     let isNuma = AppMallocMemoryReq_isNuma request \<noteq> 0;
         param = \<lparr>lp_name = name, lp_regionName = AppMallocMemoryReq_regionName request,
           lp_size = AppMallocMemoryReq_size request, lp_isNuma = isNuma,
           lp_distance = AppMallocMemoryReq_perflevel request, lp_appContext = context_of udsInfo\<rparr> in do {
       hr \<leftarrow> PreAddUsedMem name (lp_size param) (lp_appContext param) isNuma (AppMallocMemoryReq_perflevel request);
       if hr \<noteq> 0 then return (hr, set_code hr response)
       else do {
         (hr, result) \<leftarrow> LeaseMalloc E param;
         if hr \<noteq> 0 then do { DeleteUsedMem name; return (hr, set_code hr response) }
         else let unitSize = (if isNuma then AppMallocMemoryReq_size request else lmr_unitSize result) in do {
           hr \<leftarrow> FinishAddUsedMem name (lmr_numaId result) unitSize (lmr_slotId result) (lmr_memIds result);
           if hr \<noteq> 0 then do { RollBackBorrowNewMemory E name isNuma; return (hr, set_code hr response) }
           else return (MXM_OK, fill_response (AppMallocMemoryReq_size request) name result response) } } } }"

definition BorrowMemory ::
  "'w env \<Rightarrow> AppMallocMemoryRequest \<Rightarrow> AppMallocMemoryResponse \<Rightarrow> MxmComUdsInfo \<Rightarrow> ('w, int \<times> AppMallocMemoryResponse) act" where
  "BorrowMemory E request response udsInfo = do {
     (ret, response) \<leftarrow> ReuseCachedLeaseMemory E (AppMallocMemoryReq_size request) (AppMallocMemoryReq_regionName request)
       (AppMallocMemoryReq_isNuma request \<noteq> 0) (context_of udsInfo) response;
     if ret = MXM_OK then return (ret, response) else BorrowNewMemory E request response udsInfo }"

definition AppMallocMemory ::
  "'w env \<Rightarrow> AppMallocMemoryRequest \<Rightarrow> AppMallocMemoryResponse \<Rightarrow> MxmComUdsInfo \<Rightarrow> ('w, int \<times> AppMallocMemoryResponse) act" where
  "AppMallocMemory E request response udsInfo =
     (if AppMallocMemoryReq_size request = 0 then return (MXM_ERR_PARAM_INVALID, set_code MXM_ERR_PARAM_INVALID response)
      else do {
        (ret, response) \<leftarrow> BorrowMemory E request response udsInfo;
        return (if ret \<noteq> MXM_OK then ret else 0, response) })"

definition MEM_DISTANCE_L0 :: u16 where
  "MEM_DISTANCE_L0 = 0"

definition BorrowMemoryWithLender ::
  "'w env \<Rightarrow> AppMallocMemoryWithLocRequest \<Rightarrow> AppMallocMemoryResponse \<Rightarrow> MxmComUdsInfo \<Rightarrow> ('w, int \<times> AppMallocMemoryResponse) act" where
  "BorrowMemoryWithLender E request response udsInfo = do {
     name \<leftarrow> GenerateMemName E (AppMallocMemoryWithLocReq_size request);
     let isNuma = AppMallocMemoryWithLocReq_isNuma request \<noteq> 0;
         param = \<lparr>ll_name = name, ll_size = AppMallocMemoryWithLocReq_size request, ll_isNuma = isNuma,
           ll_appContext = context_of udsInfo, ll_slotId = AppMallocMemoryWithLocReq_slotId request,
           ll_socketId = AppMallocMemoryWithLocReq_socketId request,
           ll_numaId = AppMallocMemoryWithLocReq_numaId request, ll_portId = AppMallocMemoryWithLocReq_portId request\<rparr> in do {
       ret \<leftarrow> PreAddUsedMem name (ll_size param) (ll_appContext param) isNuma MEM_DISTANCE_L0;
       if ret \<noteq> MXM_OK then return (ret, set_code ret response)
       else do {
         (ret, result) \<leftarrow> LeaseMallocWithLoc E param;
         if ret \<noteq> 0 then do { DeleteUsedMem name; return (ret, set_code ret response) }
         else do {
           ret \<leftarrow> FinishAddUsedMem name (lmr_numaId result) (lmr_unitSize result) (lmr_slotId result) (lmr_memIds result);
           if ret \<noteq> 0 then do { RollBackBorrowNewMemory E name isNuma; return (ret, set_code ret response) }
           else return (MXM_OK, fill_response (AppMallocMemoryWithLocReq_size request) name result response) } } } }"

definition AppMallocMemoryWithLoc ::
  "'w env \<Rightarrow> AppMallocMemoryWithLocRequest \<Rightarrow> AppMallocMemoryResponse \<Rightarrow> MxmComUdsInfo \<Rightarrow> ('w, int \<times> AppMallocMemoryResponse) act" where
  "AppMallocMemoryWithLoc E request response udsInfo =
     (if AppMallocMemoryWithLocReq_size request = 0 then return (MXM_ERR_PARAM_INVALID, set_code MXM_ERR_PARAM_INVALID response)
      else do {
        (ret, response) \<leftarrow> BorrowMemoryWithLender E request response udsInfo;
        return (if ret \<noteq> MXM_OK then ret else 0, response) })"

section \<open>Release\<close>

definition AppFreeMemory ::
  "'w env \<Rightarrow> AppFreeMemoryRequest \<Rightarrow> CommonResponse \<Rightarrow> MxmComUdsInfo \<Rightarrow> ('w, int \<times> CommonResponse) act" where
  "AppFreeMemory E request response udsInfo = (let name = AppFreeMemoryReq_name request in
     if name = [] then return (MXM_ERR_PARAM_INVALID, common_code MXM_ERR_PARAM_INVALID response)
     else do {
       busy \<leftarrow> GetDelayRemoveRecord name;
       if busy then return (MXM_ERR_NAME_BUSY, common_code MXM_ERR_NAME_BUSY response)
       else do {
         (ret, found) \<leftarrow> GetUsedMemByName name;
         case found of
           None \<Rightarrow> return (ret, common_code ret response)
         | Some memory \<Rightarrow>
             if \<not> IsSameApp (mi_appContext memory) udsInfo then
               return (MXM_ERR_SHM_PERMISSION_DENIED, common_code MXM_ERR_SHM_PERMISSION_DENIED response)
             else if mi_state memory = DELETED then do {
               DeleteUsedMem name;
               return (MXM_OK, common_code MXM_OK response) }
             else do {
               hr \<leftarrow> (if \<not> mi_isNuma memory then FdPermissionChange E name (os_self E) (S_IRUSR OR S_IWUSR) else return 0);
               if hr \<noteq> 0 then return (hr, common_code hr response)
               else do {
                 ret \<leftarrow> PreDeleteUsedMem name;
                 if ret = 0 then do {
                   hr \<leftarrow> LeaseFree E name (mi_isNuma memory);
                   if hr \<noteq> 0 \<and> hr \<noteq> MXM_ERR_LEASE_NOT_EXIST then do {
                     UpdateMemRecordState (mi_name memory) FINISH;
                     return (hr, common_code hr response) }
                   else do {
                     hr \<leftarrow> DeleteUsedMem name;
                     if hr \<noteq> 0 then return (hr, common_code hr response)
                     else return (0, common_code 0 response) } }
                 else return (0, common_code 0 response) } } } })"

definition AppForceFreeCachedMemory :: "'w env \<Rightarrow> CommonResponse \<Rightarrow> ('w, int \<times> CommonResponse) act" where
  "AppForceFreeCachedMemory E response = do {
     ret \<leftarrow> DeleteAllBufferedMem E;
     return (ret, common_code ret response) }"

section \<open>Queries\<close>

definition AppContext_GetString :: "AppContext \<Rightarrow> string" where
  "AppContext_GetString c =
     to_string (unat (app_pid c)) @ '':'' @ to_string (unat (app_uid c)) @ '':'' @ to_string (unat (app_gid c))"

definition signed_to_string :: "u64 \<Rightarrow> string" where
  "signed_to_string w = (if sint w < 0 then ''-'' @ to_string (nat (- sint w)) else to_string (nat (sint w)))"

definition cached_record :: "MLSMemInfo \<Rightarrow> string" where
  "cached_record memory = mi_name memory @ ''|'' @ AppContext_GetString (mi_appContext memory) @ ''|'' @
     to_string (unat (mi_unitSize memory)) @ ''|'' @ signed_to_string (mi_numaId memory) @ ''|'' @
     concat (map (\<lambda>memId. to_string (unat memId) @ '','') (mi_memIds memory))"

definition AppQueryCachedMemory :: "AppQueryCachedMemoryResponse \<Rightarrow> ('w, int \<times> AppQueryCachedMemoryResponse) act" where
  "AppQueryCachedMemory response = do {
     memoryVec \<leftarrow> ListAllMem;
     return (0, response\<lparr>AppQueryCachedMemoryResp_errCode := 0,
       AppQueryCachedMemoryResp_records := AppQueryCachedMemoryResp_records response @ map cached_record memoryVec\<rparr>) }"

definition CleanNotUsedRecordLeaseMemory :: "'w env \<Rightarrow> MLSMemInfo \<Rightarrow> ('w, int) act" where
  "CleanNotUsedRecordLeaseMemory E memory = do {
     (ret, _) \<leftarrow> AppFreeMemory E
       (new_AppFreeMemoryRequest\<lparr>AppFreeMemoryReq_memIds := mi_memIds memory,
          AppFreeMemoryReq_regionName := ''default'', AppFreeMemoryReq_name := mi_name memory\<rparr>)
       new_CommonResponse
       \<lparr>uds_pid = app_pid (mi_appContext memory), uds_uid = app_uid (mi_appContext memory),
        uds_gid = app_gid (mi_appContext memory)\<rparr>;
     return ret }"

definition AppCheckMemoryLease ::
  "'w env \<Rightarrow> CheckMemoryLeaseRequest \<Rightarrow> CommonResponse \<Rightarrow> MxmComUdsInfo \<Rightarrow> ('w, int \<times> CommonResponse) act" where
  "AppCheckMemoryLease E request response udsInfo = do {
     records \<leftarrow> GetUsedMemByPid (uds_pid udsInfo);
     for_each records (\<lambda>record.
       if mi_name record \<notin> set (CheckMemoryLeaseReq_names request)
       then do { CleanNotUsedRecordLeaseMemory E record; return () } else return ());
     return (MXM_OK, common_code MXM_OK response) }"

end
