(* ===== verification/Shm_Handlers.thy ===== *)
theory Shm_Handlers
  imports Shm_Manager Region_Manager Lease_Handlers Messages_Shm_Req Messages_Shm_Resp
begin

text \<open>
  The handlers of the requests of applications for shared memory and regions,
  \<^verbatim>\<open>mxm_shm/ipc_handler.cpp\<close>.  Requests for the same name exclude each other by the lock of
  \<^verbatim>\<open>GetMutexByName\<close>, so each handler is one action.
\<close>

section \<open>Structs in messages\<close>

text \<open>
  A region description travels as the bytes of its struct.  A character array is its string up to
  the first zero byte, and all of it when there is none.  Bytes the code leaves unset are zero here.
\<close>

definition chars_at :: "nat \<Rightarrow> nat \<Rightarrow> string \<Rightarrow> string" where
  "chars_at off n b = takeWhile (\<lambda>c. c \<noteq> CHR 0x00) (take n (drop off b))"

definition u32_at :: "nat \<Rightarrow> string \<Rightarrow> u32" where
  "u32_at off b = word_of_nat (le_nat (take 4 (drop off b)))"

definition region_of_block :: "string \<Rightarrow> SHMRegionDesc" where
  "region_of_block b = \<lparr>rd_perfLevel = u32_at 0 b, rd_type = u32_at 4 b, rd_num = sint (u32_at 8 b),
     rd_affinity = (\<lambda>i. le_nat (take 1 (drop (12 + i) b)) \<noteq> 0),
     rd_nodeId = (\<lambda>i. chars_at (28 + MEM_MAX_ID_LENGTH * i) MEM_MAX_ID_LENGTH b),
     rd_hostName = (\<lambda>i. chars_at (796 + MAX_HOST_NAME_DESC_LENGTH * i) MAX_HOST_NAME_DESC_LENGTH b)\<rparr>"

definition pad :: "nat \<Rightarrow> string \<Rightarrow> string" where
  "pad n s = take n s @ zero_block (n - length s)"

definition block_of_region :: "SHMRegionDesc \<Rightarrow> string" where
  "block_of_region r = put_pod (rd_perfLevel r) @ put_pod (rd_type r) @ put_pod (word_of_int (rd_num r) :: u32) @
     concat (map (\<lambda>i. put_bool (rd_affinity r i)) [0..<16]) @
     concat (map (\<lambda>i. pad MEM_MAX_ID_LENGTH (rd_nodeId r i)) [0..<16]) @
     concat (map (\<lambda>i. pad MAX_HOST_NAME_DESC_LENGTH (rd_hostName r i)) [0..<16])"

definition block_of_regions :: "SHMRegions \<Rightarrow> string" where
  "block_of_regions rs = put_pod (word_of_int (rs_num rs) :: u32) @ concat (map (\<lambda>i. block_of_region (rs_region rs i)) [0..<6])"

definition block_of_desc :: "string \<times> u64 \<Rightarrow> string" where
  "block_of_desc d = pad 56 (fst d) @ put_pod (snd d)"

definition put_at :: "nat \<Rightarrow> string \<Rightarrow> string \<Rightarrow> string" where
  "put_at off bs b = take off b @ bs @ drop (off + length bs) b"

definition write_info :: "ubsmem_shmem_info \<Rightarrow> string \<Rightarrow> string" where
  "write_info i = put_at 80 (concat (map put_pod (shi_mem_id_list i))) \<circ> put_at 72 (put_pod (shi_mem_unit_size i)) \<circ>
     put_at 64 (put_pod (shi_mem_num i)) \<circ> put_at 56 (put_pod (shi_size i)) \<circ> put_at 0 (shi_name i @ [CHR 0x00])"

section \<open>Regions\<close>

definition IsBoundedString :: "string \<Rightarrow> nat \<Rightarrow> bool" where
  "IsBoundedString s capacity \<longleftrightarrow> length s < capacity"

definition ValidateRegionDesc :: "SHMRegionDesc \<Rightarrow> bool" where
  "ValidateRegionDesc region \<longleftrightarrow>
     \<not> (rd_num region < 0 \<or> rd_num region > MEM_TOPOLOGY_MAX_HOSTS \<or> nat (rd_num region) > UBS_MEM_MAX_SLOT_NUM) \<and>
     list_all (\<lambda>i. IsBoundedString (rd_nodeId region i) MEM_MAX_ID_LENGTH \<and>
       IsBoundedString (rd_hostName region i) MAX_HOST_NAME_DESC_LENGTH) [0..<nat (rd_num region)]"

definition ShmLookRegionList ::
  "'w env \<Rightarrow> ShmLookRegionListResponse \<Rightarrow> ('w, int \<times> ShmLookRegionListResponse) act" where
  "ShmLookRegionList E response = do {
     (hr, regions) \<leftarrow> LookupRegionList E;
     if hr \<noteq> 0 then return (hr, response\<lparr>ShmLookRegionListResp_errCode := word_of_int hr\<rparr>)
     else return (0, response\<lparr>ShmLookRegionListResp_errCode := 0, ShmLookRegionListResp_regions := block_of_regions regions\<rparr>) }"

definition RegionLookupRegionList ::
  "'w env \<Rightarrow> ShmLookRegionListResponse \<Rightarrow> ('w, int \<times> ShmLookRegionListResponse) act" where
  "RegionLookupRegionList E response = do {
     (hr, regions) \<leftarrow> LookupRegionList E;
     if hr \<noteq> 0 then return (hr, response\<lparr>ShmLookRegionListResp_errCode := word_of_int hr\<rparr>)
     else return (MXM_OK, response\<lparr>ShmLookRegionListResp_errCode := word_of_int MXM_OK,
       ShmLookRegionListResp_regions := block_of_regions regions\<rparr>) }"

definition RegionCreateRegion ::
  "ShmCreateRegionRequest \<Rightarrow> ShmCreateRegionResponse \<Rightarrow> ('w, int \<times> ShmCreateRegionResponse) act" where
  "RegionCreateRegion request response =
     (let region = region_of_block (ShmCreateRegionReq_region request) in
      if \<not> ValidateRegionDesc region then
        return (MXM_ERR_PARAM_INVALID, response\<lparr>ShmCreateRegionResp_errCode := word_of_int MXM_ERR_PARAM_INVALID\<rparr>)
      else do {
        ret \<leftarrow> CreateRegionInfo \<lparr>ri_name = ShmCreateRegionReq_regionName request, ri_size = 0, ri_region = region\<rparr>;
        if \<not> ret then return (MXM_ERR_REGION_EXIST, response\<lparr>ShmCreateRegionResp_errCode := word_of_int MXM_ERR_REGION_EXIST\<rparr>)
        else return (0, response\<lparr>ShmCreateRegionResp_errCode := 0\<rparr>) })"

definition RegionLookupRegion ::
  "ShmLookupRegionRequest \<Rightarrow> ShmLookupRegionResponse \<Rightarrow> ('w, int \<times> ShmLookupRegionResponse) act" where
  "RegionLookupRegion request response = do {
     regionInfo \<leftarrow> RegionManager_GetRegionInfo (ShmLookupRegionReq_regionName request);
     case regionInfo of
       None \<Rightarrow> return (MXM_ERR_REGION_NOT_EXIST, response\<lparr>ShmLookupRegionResp_errCode := word_of_int MXM_ERR_REGION_NOT_EXIST\<rparr>)
     | Some regionInfo \<Rightarrow> return (0, response\<lparr>ShmLookupRegionResp_region := block_of_region (ri_region regionInfo),
         ShmLookupRegionResp_errCode := 0\<rparr>) }"

definition RegionDestroyRegion ::
  "ShmDestroyRegionRequest \<Rightarrow> ShmDestroyRegionResponse \<Rightarrow> ('w, int \<times> ShmDestroyRegionResponse) act" where
  "RegionDestroyRegion request response = do {
     ret \<leftarrow> DeleteRegionInfo (ShmDestroyRegionReq_regionName request);
     if \<not> ret then return (MXM_ERR_REGION_NOT_EXIST, response\<lparr>ShmDestroyRegionResp_errCode := word_of_int MXM_ERR_REGION_NOT_EXIST\<rparr>)
     else return (0, response\<lparr>ShmDestroyRegionResp_errCode := 0\<rparr>) }"

section \<open>Creation and deletion\<close>

fun add_providers :: "(bool \<times> u32) list \<Rightarrow> u32 list \<Rightarrow> u32 list option" where
  "add_providers [] slot_ids = Some slot_ids"
| "add_providers ((ok, nodeId) # rest) slot_ids =
     (if \<not> ok then None
      else if length slot_ids \<ge> UBS_MEM_MAX_SLOT_NUM then None
      else add_providers rest (slot_ids @ [nodeId]))"

definition matching_nodes :: "SHMRegionDesc \<Rightarrow> SHMRegionDesc \<Rightarrow> (bool \<times> u32) list" where
  "matching_nodes region reqRegion =
     [StrToUint (rd_nodeId region i). i \<leftarrow> [0..<nat (rd_num region)], j \<leftarrow> [0..<nat (rd_num reqRegion)],
        rd_hostName region i = rd_hostName reqRegion j \<and> rd_affinity region i]"

text \<open>The nodes a new memory may come from, or the code of the error.\<close>

definition providers :: "string \<Rightarrow> SHMRegionDesc \<Rightarrow> ('w, int + u32 list) act" where
  "providers regionName desc =
     (if regionName = ''default'' then
        return (case region_nodes desc of None \<Rightarrow> Inl MXM_ERR_PARAM_INVALID | Some ids \<Rightarrow> Inr ids)
      else do {
        regionInfo \<leftarrow> RegionManager_GetRegionInfo regionName;
        return (case regionInfo of
            None \<Rightarrow> Inl MXM_ERR_REGION_NOT_EXIST
          | Some regionInfo \<Rightarrow> (case add_providers (matching_nodes (ri_region regionInfo) desc) [] of
              None \<Rightarrow> Inl MXM_ERR_PARAM_INVALID
            | Some ids \<Rightarrow> Inr ids)) })"

definition ShmCreate ::
  "'w env \<Rightarrow> ShmCreateRequest \<Rightarrow> CommonResponse \<Rightarrow> MxmComUdsInfo \<Rightarrow> ('w, int \<times> CommonResponse) act" where
  "ShmCreate E request response udsInfo =
     (let desc = region_of_block (ShmCreateReq_regionDesc request) in
      if \<not> ValidateRegionDesc desc then return (MXM_ERR_PARAM_INVALID, common_code MXM_ERR_PARAM_INVALID response)
      else do {
        busy \<leftarrow> GetDelayRemoveRecord (ShmCreateReq_name request);
        if busy then return (MXM_ERR_NAME_BUSY, common_code MXM_ERR_NAME_BUSY response)
        else do {
          p \<leftarrow> providers (ShmCreateReq_regionName request) desc;
          case p of
            Inl hr \<Rightarrow> return (hr, common_code hr response)
          | Inr slot_ids \<Rightarrow> do {
              hr \<leftarrow> Ubse_ShmCreate E \<lparr>cp_name = ShmCreateReq_name request, cp_size = ShmCreateReq_size request,
                cp_appContext = context_of udsInfo, cp_desc = desc, cp_flag = ShmCreateReq_flags request,
                cp_mode = ShmCreateReq_mode request, cp_privider = slot_ids\<rparr>;
              if hr \<noteq> 0 then return (hr, common_code hr response) else return (0, common_code 0 response) } } })"

definition Handle_ShmCreateWithProvider ::
  "'w env \<Rightarrow> ShmCreateWithProviderRequest \<Rightarrow> CommonResponse \<Rightarrow> MxmComUdsInfo \<Rightarrow> ('w, int \<times> CommonResponse) act" where
  "Handle_ShmCreateWithProvider E request response udsInfo = do {
     busy \<leftarrow> GetDelayRemoveRecord (ShmCreateWithProviderReq_name request);
     if busy then return (MXM_ERR_NAME_BUSY, common_code MXM_ERR_NAME_BUSY response)
     else do {
       hr \<leftarrow> ShmCreateWithProvider E \<lparr>pp_hostName = ShmCreateWithProviderReq_hostName request,
         pp_socketId = ShmCreateWithProviderReq_socketId request, pp_numaId = ShmCreateWithProviderReq_numaId request,
         pp_portId = ShmCreateWithProviderReq_portId request, pp_name = ShmCreateWithProviderReq_name request,
         pp_size = ShmCreateWithProviderReq_size request, pp_appContext = context_of udsInfo,
         pp_flag = ShmCreateWithProviderReq_flags request, pp_mode = ShmCreateWithProviderReq_mode request\<rparr>;
       if hr \<noteq> 0 then return (hr, common_code hr response) else return (0, common_code 0 response) } }"

definition ShmPermissionCheck :: "'w env \<Rightarrow> string \<Rightarrow> MxmComUdsInfo \<Rightarrow> ('w, int) act" where
  "ShmPermissionCheck E name udsInfo = do {
     (ret, info) \<leftarrow> ShmGetUserData E name;
     if ret \<noteq> 0 then return ret
     else return (if uds_uid udsInfo \<noteq> ui_uid info \<or> uds_gid udsInfo \<noteq> ui_gid info
                  then MXM_ERR_SHM_PERMISSION_DENIED else UBSM_OK) }"

definition ShmDelete ::
  "'w env \<Rightarrow> ShmDeleteRequest \<Rightarrow> CommonResponse \<Rightarrow> MxmComUdsInfo \<Rightarrow> ('w, int \<times> CommonResponse) act" where
  "ShmDelete E request response udsInfo = do {
     busy \<leftarrow> GetDelayRemoveRecord (ShmDeleteReq_name request);
     if busy then return (MXM_ERR_NAME_BUSY, common_code MXM_ERR_NAME_BUSY response)
     else do {
       res \<leftarrow> ShmPermissionCheck E (ShmDeleteReq_name request) udsInfo;
       if res \<noteq> 0 then return (res, common_code res response)
       else do {
         (ret, usrNum) \<leftarrow> GetMemoryUsersCountByName (ShmDeleteReq_name request);
         if ret \<noteq> UBSM_OK then return (ret, common_code ret response)
         else if usrNum > 0 then return (MXM_ERR_SHM_IN_USING, common_code MXM_ERR_SHM_IN_USING response)
         else do {
           hr \<leftarrow> Ubse_ShmDelete E (ShmDeleteReq_name request);
           if hr \<noteq> 0 then return (hr, common_code hr response) else return (0, common_code 0 response) } } } }"

section \<open>Permissions\<close>

definition PROT_READ :: u32 where "PROT_READ = 1"

definition PROT_WRITE :: u32 where "PROT_WRITE = 2"

definition PROT_EXEC :: u32 where "PROT_EXEC = 4"

definition O_RDONLY :: int where "O_RDONLY = 0"

definition O_RDWR :: int where "O_RDWR = 2"

definition any_bit :: "u32 \<Rightarrow> u32 \<Rightarrow> bool" where
  "any_bit a b \<longleftrightarrow> a AND b \<noteq> 0"

definition GetMaxOflag :: "u32 \<Rightarrow> int" where
  "GetMaxOflag provided_perms =
     (if any_bit provided_perms PROT_READ \<and> any_bit provided_perms PROT_WRITE then O_RDWR
      else if any_bit provided_perms PROT_READ then O_RDONLY
      else if any_bit provided_perms PROT_EXEC then O_RDWR
      else - 1)"

definition perms_from :: "u32 \<Rightarrow> u32 \<Rightarrow> u32 \<Rightarrow> u32 \<Rightarrow> u32" where
  "perms_from mode r w x = (if any_bit mode r then PROT_READ else 0) OR (if any_bit mode w then PROT_WRITE else 0) OR
     (if any_bit mode x then PROT_EXEC else 0)"

definition CalculateProvidedPermissions :: "u32 \<Rightarrow> u32 \<Rightarrow> u32 \<Rightarrow> u32 \<Rightarrow> u32 \<Rightarrow> u32" where
  "CalculateProvidedPermissions caller_uid caller_gid owner_uid owner_gid mode =
     (if caller_uid = owner_uid then perms_from mode 0x100 0x80 0x40
      else if caller_gid = owner_gid then perms_from mode 0x20 0x10 0x8
      else perms_from mode 0x4 0x2 0x1)"

definition CheckPermission :: "u32 \<Rightarrow> u32 \<Rightarrow> ubse_user_info \<Rightarrow> u32 \<Rightarrow> int \<times> int" where
  "CheckPermission caller_uid caller_gid info port =
     (let provided_perms = CalculateProvidedPermissions caller_uid caller_gid (ui_uid info) (ui_gid info) (ui_mode info);
          oflag = GetMaxOflag provided_perms;
          has_sufficient_perms = oflag \<noteq> - 1 \<and>
            \<not> (any_bit port PROT_READ \<and> \<not> any_bit provided_perms PROT_READ) \<and>
            \<not> (any_bit port PROT_WRITE \<and> \<not> any_bit provided_perms PROT_WRITE) \<and>
            \<not> (any_bit port PROT_EXEC \<and> \<not> any_bit provided_perms PROT_EXEC)
      in (if has_sufficient_perms then 0 else MXM_ERR_SHM_PERMISSION_DENIED, oflag))"

section \<open>Mapping\<close>

definition RollBackAttachShareMemory :: "'w env \<Rightarrow> string \<Rightarrow> ('w, unit) act" where
  "RollBackAttachShareMemory E name = do {
     ret \<leftarrow> UpdateShareMemoryRecordState name PRE_DEL;
     if ret \<noteq> 0 then return ()
     else do {
       ret \<leftarrow> Ubse_ShmDetach E name;
       if ret \<noteq> 0 \<and> ret \<noteq> MXM_ERR_UBSE_NOT_ATTACH then do {
         UpdateShareMemoryRecordState name FINISH;
         return () }
       else do { RemoveMemoryInfo name False; return () } } }"

record ImportShmParam =
  ip_name :: string
  ip_length :: u64
  ip_appContext :: AppContext
  ip_mode :: u32
  ip_prot :: u32

definition ShmMmapInner :: "'w env \<Rightarrow> ImportShmParam \<Rightarrow> ('w, int \<times> AttachShmResult) act" where
  "ShmMmapInner E importParam = do {
     (rt, info) \<leftarrow> ShmGetUserData E (ip_name importParam);
     if rt \<noteq> 0 then return (rt, new_AttachShmResult)
     else let (res, oflag) = CheckPermission (app_uid (ip_appContext importParam)) (app_gid (ip_appContext importParam)) info
                (ip_prot importParam);
              result = new_AttachShmResult\<lparr>ar_oflag := word_of_int oflag\<rparr> in
       if res \<noteq> UBSM_OK then return (res, result)
       else do {
         hr \<leftarrow> PrepareAddShareMemoryInfo (ip_name importParam) (ip_length importParam) (app_pid (ip_appContext importParam));
         if hr \<noteq> 0 then return (hr, result)
         else do {
           (hr, result) \<leftarrow> Ubse_ShmAttach E (ip_name importParam) (info\<lparr>ui_pid := app_pid (ip_appContext importParam)\<rparr>);
           let result = result\<lparr>ar_oflag := word_of_int oflag\<rparr> in
           if hr \<noteq> 0 then do {
             RemoveMemoryInfo (ip_name importParam) False;
             return (hr, result) }
           else do {
             hr \<leftarrow> AddFullShareMemoryInfo (ip_name importParam) (app_pid (ip_appContext importParam))
               \<lparr>smr_memIds = ar_memIds result, smr_unitSize = ar_unitSize result, smr_createFlags = ar_flag result,
                smr_openFlag = ar_oflag result, smr_ownerUserId = ui_uid info, smr_ownerGroupId = ui_gid info\<rparr>;
             if hr \<noteq> 0 then do {
               RollBackAttachShareMemory E (ip_name importParam);
               return (hr, result) }
             else return (UBSM_OK, result) } } } }"

abbreviation map_code :: "int \<Rightarrow> ShmMapResponse \<Rightarrow> ShmMapResponse" where
  "map_code rc \<equiv> ShmMapResp_errCode_update (\<lambda>_. word_of_int rc)"

definition HandleExistingShm ::
  "ShmMapRequest \<Rightarrow> ShmMapResponse \<Rightarrow> MxmComUdsInfo \<Rightarrow> AttachedShareMemory \<Rightarrow> ('w, int \<times> ShmMapResponse) act" where
  "HandleExistingShm request response udsInfo memory =
     (if uds_pid udsInfo \<in> set (am_pids memory) then
        return (MXM_ERR_SHM_ALREADY_EXIST, map_code MXM_ERR_SHM_ALREADY_EXIST response)
      else do {
        ret \<leftarrow> AddMemoryUserInfo (ShmMapReq_name request) (uds_pid udsInfo);
        if ret \<noteq> UBSM_OK then return (ret, map_code ret response)
        else return (UBSM_OK, response\<lparr>ShmMapResp_memIds := smr_memIds (am_result memory),
          ShmMapResp_shmSize := am_size memory, ShmMapResp_unitSize := smr_unitSize (am_result memory),
          ShmMapResp_flag := smr_createFlags (am_result memory), ShmMapResp_oflag := smr_openFlag (am_result memory)\<rparr>) })"

definition map_new ::
  "'w env \<Rightarrow> ShmMapRequest \<Rightarrow> ShmMapResponse \<Rightarrow> MxmComUdsInfo \<Rightarrow> ('w, int \<times> ShmMapResponse) act" where
  "map_new E request response udsInfo = do {
     (ret, result) \<leftarrow> ShmMmapInner E \<lparr>ip_name = ShmMapReq_name request, ip_length = ShmMapReq_size request,
       ip_appContext = context_of udsInfo, ip_mode = ShmMapReq_mode request, ip_prot = ShmMapReq_prot request\<rparr>;
     if ret \<noteq> UBSM_OK then return (ret, map_code ret response)
     else return (0, response\<lparr>ShmMapResp_memIds := ar_memIds result, ShmMapResp_shmSize := ar_shmSize result,
       ShmMapResp_unitSize := ar_unitSize result, ShmMapResp_flag := ar_flag result, ShmMapResp_oflag := ar_oflag result\<rparr>) }"

definition ShmMap ::
  "'w env \<Rightarrow> ShmMapRequest \<Rightarrow> ShmMapResponse \<Rightarrow> MxmComUdsInfo \<Rightarrow> ('w, int \<times> ShmMapResponse) act" where
  "ShmMap E request response udsInfo = do {
     busy \<leftarrow> GetDelayRemoveRecord (ShmMapReq_name request);
     if busy then return (MXM_ERR_NAME_BUSY, map_code MXM_ERR_NAME_BUSY response)
     else let response = map_code UBSM_OK response in do {
       (ret, memory) \<leftarrow> GetShareMemoryInfo (ShmMapReq_name request);
       case memory of
         None \<Rightarrow> map_new E request response udsInfo
       | Some memory \<Rightarrow>
           if am_state memory = FINISH then HandleExistingShm request response udsInfo memory
           else if am_state memory = DELETED then do {
             ret \<leftarrow> RemoveMemoryInfo (am_name memory) True;
             if ret \<noteq> 0 then return (ret, map_code ret response)
             else map_new E request response udsInfo }
           else map_new E request response udsInfo } }"

definition ShmUnMapInner :: "'w env \<Rightarrow> string \<Rightarrow> MxmComUdsInfo \<Rightarrow> ('w, int) act" where
  "ShmUnMapInner E name usrInfo = do {
     ret \<leftarrow> UpdateShareMemoryRecordState name PRE_DEL;
     if ret \<noteq> MXM_OK then return ret
     else do {
       ret \<leftarrow> Ubse_ShmDetach E name;
       if ret \<noteq> MXM_OK \<and> ret \<noteq> MXM_ERR_UBSE_NOT_ATTACH then do {
         UpdateShareMemoryRecordState name FINISH;
         return ret }
       else do {
         ret \<leftarrow> RemoveMemoryUserInfo name (uds_pid usrInfo);
         if ret \<noteq> MXM_OK then return ret
         else do {
           ret \<leftarrow> RemoveMemoryInfo name False;
           if ret \<noteq> MXM_OK then do { AddMemoryUserInfo name (uds_pid usrInfo); return ret }
           else return MXM_OK } } } }"

definition ShmUnmap ::
  "'w env \<Rightarrow> ShmUnmapRequest \<Rightarrow> CommonResponse \<Rightarrow> MxmComUdsInfo \<Rightarrow> ('w, int \<times> CommonResponse) act" where
  "ShmUnmap E request response udsInfo = do {
     (ret, memory) \<leftarrow> GetShareMemoryInfo (ShmUnmapReq_name request);
     case memory of
       None \<Rightarrow> return (ret, common_code ret response)
     | Some memory \<Rightarrow>
         if am_state memory = DELETED then do {
           ret \<leftarrow> RemoveMemoryInfo (ShmUnmapReq_name request) True;
           if ret \<noteq> 0 then return (ret, common_code ret response) else return (MXM_OK, common_code MXM_OK response) }
         else do {
           (ret, userNum) \<leftarrow> GetMemoryUsersCountByName (ShmUnmapReq_name request);
           if ret \<noteq> UBSM_OK then return (ret, common_code ret response)
           else if userNum > 1 then do {
             ret \<leftarrow> RemoveMemoryUserInfo (ShmUnmapReq_name request) (uds_pid udsInfo);
             if ret \<noteq> UBSM_OK then return (ret, common_code ret response) else return (0, common_code 0 response) }
           else do {
             ret \<leftarrow> ShmUnMapInner E (ShmUnmapReq_name request) udsInfo;
             if ret \<noteq> UBSM_OK then return (ret, common_code ret response) else return (0, common_code 0 response) } } }"

section \<open>Checks of a client after a restart\<close>

definition CleanNotUsedRecordShareMemory :: "'w env \<Rightarrow> AttachedShareMemory \<Rightarrow> MxmComUdsInfo \<Rightarrow> ('w, int) act" where
  "CleanNotUsedRecordShareMemory E memory udsInfo = do {
     (ret, _) \<leftarrow> ShmUnmap E (new_ShmUnmapRequest\<lparr>ShmUnmapReq_regionName := ''default'', ShmUnmapReq_name := am_name memory\<rparr>)
       new_CommonResponse udsInfo;
     return ret }"

definition AppCheckShareMemoryMap ::
  "'w env \<Rightarrow> CheckShareMemoryMapRequest \<Rightarrow> CommonResponse \<Rightarrow> MxmComUdsInfo \<Rightarrow> ('w, int \<times> CommonResponse) act" where
  "AppCheckShareMemoryMap E request response udsInfo = do {
     records \<leftarrow> GetMemoryUsersByPid (uds_pid udsInfo);
     for_each records (\<lambda>record.
       if am_name record \<notin> set (CheckShareMemoryMapReq_names request) then do {
         CleanNotUsedRecordShareMemory E record udsInfo; return () }
       else return ());
     return (MXM_OK, common_code MXM_OK response) }"

definition LookupLocalSlotId :: "'w env \<Rightarrow> LookupSlotIdResponse \<Rightarrow> ('w, int \<times> LookupSlotIdResponse) act" where
  "LookupLocalSlotId E response = do {
     (ret, slotId) \<leftarrow> GetLocalNodeId E;
     if ret \<noteq> MXM_OK then return (ret, response\<lparr>LookupSlotIdResp_errCode := word_of_int ret\<rparr>)
     else return (MXM_OK, response\<lparr>LookupSlotIdResp_slotId := slotId, LookupSlotIdResp_errCode := word_of_int MXM_OK\<rparr>) }"

section \<open>Attaching without mapping\<close>

abbreviation attach_code :: "int \<Rightarrow> ShmAttachResponse \<Rightarrow> ShmAttachResponse" where
  "attach_code rc \<equiv> ShmAttachResp_errCode_update (\<lambda>_. word_of_int rc)"

definition ShmAttach ::
  "'w env \<Rightarrow> ShmAttachRequest \<Rightarrow> ShmAttachResponse \<Rightarrow> MxmComUdsInfo \<Rightarrow> ('w, int \<times> ShmAttachResponse) act" where
  "ShmAttach E request response0 udsInfo = (let response = attach_code UBSM_OK response0 in do {
     (rt, info) \<leftarrow> ShmGetUserData E (ShmAttachReq_name request);
     if rt \<noteq> 0 then return (rt, attach_code rt response)
     else let oflag = GetMaxOflag (CalculateProvidedPermissions (uds_uid udsInfo) (uds_gid udsInfo) (ui_uid info)
                (ui_gid info) (ui_mode info)) in
       if oflag = - 1 then return (MXM_ERR_SHM_PERMISSION_DENIED, attach_code MXM_ERR_SHM_PERMISSION_DENIED response)
       else if uds_uid udsInfo \<noteq> ui_uid info \<or> uds_gid udsInfo \<noteq> ui_gid info then
         return (MXM_ERR_SHM_PERMISSION_DENIED, attach_code MXM_ERR_SHM_PERMISSION_DENIED response)
       else do {
         (hr, result) \<leftarrow> Ubse_ShmAttach E (ShmAttachReq_name request) info;
         if hr \<noteq> 0 then return (hr, attach_code hr response)
         else return (UBSM_OK, response\<lparr>ShmAttachResp_memIds := ar_memIds result, ShmAttachResp_shmSize := ar_shmSize result,
           ShmAttachResp_unitSize := ar_unitSize result, ShmAttachResp_flag := ar_flag result,
           ShmAttachResp_oflag := word_of_int oflag\<rparr>) } })"

definition ShmDetach ::
  "'w env \<Rightarrow> ShmDetachRequest \<Rightarrow> CommonResponse \<Rightarrow> MxmComUdsInfo \<Rightarrow> ('w, int \<times> CommonResponse) act" where
  "ShmDetach E request response udsInfo = do {
     busy \<leftarrow> GetDelayRemoveRecord (ShmDetachReq_name request);
     if busy then return (MXM_ERR_NAME_BUSY, common_code MXM_ERR_NAME_BUSY response)
     else let response = common_code UBSM_OK response in do {
       (rt, info) \<leftarrow> ShmGetUserData E (ShmDetachReq_name request);
       if rt \<noteq> 0 then return (rt, common_code rt response)
       else if uds_uid udsInfo \<noteq> ui_uid info \<or> uds_gid udsInfo \<noteq> ui_gid info then
         return (MXM_ERR_SHM_PERMISSION_DENIED, common_code MXM_ERR_SHM_PERMISSION_DENIED response)
       else do {
         hr \<leftarrow> Ubse_ShmDetach E (ShmDetachReq_name request);
         if hr \<noteq> 0 then return (hr, common_code hr response) else return (UBSM_OK, response) } } }"

definition Handle_ShmListLookup ::
  "'w env \<Rightarrow> ShmListLookupRequest \<Rightarrow> ShmListLookupResponse \<Rightarrow> ('w, int \<times> ShmListLookupResponse) act" where
  "Handle_ShmListLookup E request response = do {
     (hr, names) \<leftarrow> ShmListLookup E (ShmListLookupReq_prefix request);
     let response = response\<lparr>ShmListLookupResp_errCode := word_of_int UBSM_OK,
           ShmListLookupResp_shmNames := ShmListLookupResp_shmNames response @ map block_of_desc names\<rparr> in
     if hr \<noteq> 0 then return (hr, response\<lparr>ShmListLookupResp_errCode := word_of_int hr\<rparr>)
     else return (UBSM_OK, response) }"

definition Handle_ShmLookup ::
  "'w env \<Rightarrow> ShmLookupRequest \<Rightarrow> ShmLookupResponse \<Rightarrow> ('w, int \<times> ShmLookupResponse) act" where
  "Handle_ShmLookup E request response = do {
     (hr, shmInfo) \<leftarrow> ShmLookup E (ShmLookupReq_name request);
     if hr \<noteq> 0 then return (hr, response\<lparr>ShmLookupResp_errCode := word_of_int hr\<rparr>)
     else return (UBSM_OK, response\<lparr>ShmLookupResp_errCode := word_of_int UBSM_OK,
       ShmLookupResp_shmInfo := write_info shmInfo (ShmLookupResp_shmInfo response)\<rparr>) }"

section \<open>Suspended clients\<close>

definition IpcSuspend :: "CommonResponse \<Rightarrow> MxmComUdsInfo \<Rightarrow> ('w, int \<times> CommonResponse) act" where
  "IpcSuspend response udsInfo =
     (if sint (uds_pid udsInfo) \<le> 0 then return (MXM_ERR_PARAM_INVALID, response)
      else do {
        ret \<leftarrow> call_store (AddSuspendClient (uds_pid udsInfo));
        if ret \<noteq> 0 then let code = (if ret = - 2 then MXM_ERR_NAME_BUSY else MXM_ERR_RECORD_ADD) in
          return (code, common_code code response)
        else return (UBSM_OK, common_code UBSM_OK response) })"

definition IpcResume :: "CommonResponse \<Rightarrow> MxmComUdsInfo \<Rightarrow> ('w, int \<times> CommonResponse) act" where
  "IpcResume response udsInfo =
     (if sint (uds_pid udsInfo) \<le> 0 then return (MXM_ERR_PARAM_INVALID, response)
      else do {
        ret \<leftarrow> call_store (DelSuspendClient (uds_pid udsInfo));
        if ret \<noteq> 0 then return (MXM_ERR_RECORD_DELETE, common_code MXM_ERR_RECORD_DELETE response)
        else return (UBSM_OK, common_code UBSM_OK response) })"

end
