(* ===== verification/Shm_Inv.thy ===== *)
theory Shm_Inv
  imports Shm_Handlers
begin

text \<open>
  The manager of shared memory and the record store agree: every attached memory has an import
  record with the same contents, and the references of the store count exactly the processes the
  manager lists.  Two kinds of entries are excepted: records that recovery could not decide about,
  the orphans, and memories without users whose record is gone, left behind when the reference of
  the first user could not be stored.
\<close>

section \<open>Invariant\<close>

abbreviation shm_imports :: "record_store \<Rightarrow> string \<rightharpoonup> ShareMemImportInfo" where
  "shm_imports st \<equiv> as_imports (abs_of st)"

abbreviation shm_refs :: "record_store \<Rightarrow> string \<Rightarrow> u32 \<Rightarrow> nat" where
  "shm_refs st \<equiv> as_refs (abs_of st)"

definition import_matches :: "AttachedShareMemory \<Rightarrow> ShareMemImportInfo \<Rightarrow> bool" where
  "import_matches m r \<longleftrightarrow> sii_name r = am_name m \<and> sii_size r = am_size m \<and> sii_state r = am_state m \<and>
     sii_memIds r = smr_memIds (am_result m) \<and> sii_unitSize r = smr_unitSize (am_result m) \<and>
     sii_flag r = smr_createFlags (am_result m) \<and> sii_oflag r = smr_openFlag (am_result m) \<and>
     app_uid (sii_appContext r) = smr_ownerUserId (am_result m) \<and> app_gid (sii_appContext r) = smr_ownerGroupId (am_result m)"

definition users_match :: "u32 list \<Rightarrow> (u32 \<Rightarrow> nat) \<Rightarrow> bool" where
  "users_match pids f \<longleftrightarrow> distinct pids \<and> f = (\<lambda>p. if p \<in> set pids then 1 else 0)"

definition ghost :: "AttachedShareMemory \<Rightarrow> bool" where
  "ghost m \<longleftrightarrow> am_state m = PRE_ADD \<and> am_pids m = []"

definition shm_at :: "bool \<Rightarrow> string \<Rightarrow> AttachedShareMemory option \<Rightarrow> ShareMemImportInfo option \<Rightarrow> (u32 \<Rightarrow> nat) \<Rightarrow> bool" where
  "shm_at orphan n mem imp refs = (case mem of
       None \<Rightarrow> imp = None \<or> orphan
     | Some m \<Rightarrow> am_name m = n \<and>
         (case imp of None \<Rightarrow> ghost m | Some r \<Rightarrow> import_matches m r \<and> users_match (am_pids m) refs))"

definition short_names :: "record_store \<Rightarrow> bool" where
  "short_names st \<longleftrightarrow> (\<forall>n\<in>dom (shm_imports st). length n < RECORD_NAME_SIZE)"

definition shm_inv :: "string set \<Rightarrow> 'w daemon \<Rightarrow> bool" where
  "shm_inv Orph d \<longleftrightarrow> store_inv (d_store d) \<and> short_names (d_store d) \<and> distinct (map fst (d_shm d)) \<and>
     (\<forall>n. shm_at (n \<in> Orph) n (map_of (d_shm d) n) (shm_imports (d_store d) n) (shm_refs (d_store d) n))"

lemma shm_invD:
  assumes "shm_inv Orph d"
  shows "store_inv (d_store d)" "short_names (d_store d)" "distinct (map fst (d_shm d))"
    "shm_at (n \<in> Orph) n (map_of (d_shm d) n) (shm_imports (d_store d) n) (shm_refs (d_store d) n)"
  using assms by (simp_all add: shm_inv_def)

lemma shm_at_Some:
  "shm_at orphan n (Some m) imp refs \<longleftrightarrow> am_name m = n \<and>
     (case imp of None \<Rightarrow> ghost m | Some r \<Rightarrow> import_matches m r \<and> users_match (am_pids m) refs)"
  "shm_at orphan n None imp refs \<longleftrightarrow> imp = None \<or> orphan"
  by (simp_all add: shm_at_def)

definition uses :: "'w daemon \<Rightarrow> string \<Rightarrow> u32 \<Rightarrow> bool" where
  "uses d n pid \<longleftrightarrow> (\<exists>m. map_of (d_shm d) n = Some m \<and> pid \<in> set (am_pids m))"

section \<open>Calls of the store\<close>

fun op_touches :: "store_op \<Rightarrow> string \<Rightarrow> bool" where
  "op_touches (OpAddImport input) n \<longleftrightarrow> n = smi_name input"
| "op_touches (OpImportResult k _) n \<longleftrightarrow> n = k"
| "op_touches (OpImportState k _) n \<longleftrightarrow> n = k"
| "op_touches (OpDelImport k) n \<longleftrightarrow> n = k"
| "op_touches (OpAddRef _ k) n \<longleftrightarrow> n = k"
| "op_touches (OpDelRef _ k) n \<longleftrightarrow> n = k"
| "op_touches (OpDelRefs _) n \<longleftrightarrow> True"
| "op_touches _ n \<longleftrightarrow> False"

lemma abs_untouched:
  "\<not> op_touches op n \<Longrightarrow> as_imports (abs_op op A) n = as_imports A n \<and> as_refs (abs_op op A) n = as_refs A n"
  by (cases op) auto

definition same_at :: "string \<Rightarrow> record_store \<Rightarrow> record_store \<Rightarrow> bool" where
  "same_at n st st' \<longleftrightarrow> shm_imports st' n = shm_imports st n \<and> shm_refs st' n = shm_refs st n"

lemma call_untouched:
  assumes "store_inv st" "op_named op" "\<not> op_touches op n"
  shows "same_at n st (snd (exec_op op st))"
  using exec_call(2)[OF assms(1,2)] abs_untouched[OF assms(3), of "abs_of st"] by (simp add: same_at_def del: exec_op.simps)

text \<open>An import added under a name that is too long is refused.\<close>

definition clean_name :: "string \<Rightarrow> bool" where
  "clean_name n \<longleftrightarrow> n \<noteq> [] \<and> CHR 0x00 \<notin> set n"

lemma clean_good: "clean_name n \<Longrightarrow> length n < RECORD_NAME_SIZE \<Longrightarrow> good_name n"
  by (simp add: clean_name_def good_name_def)

lemma long_import: "\<not> length (smi_name input) < RECORD_NAME_SIZE \<Longrightarrow> exec_op (OpAddImport input) st = (- 1, st)"
  by (simp add: AddShmImportInput_def)

lemma dom_import_op:
  "dom (as_imports (abs_op op A)) \<subseteq> dom (as_imports A) \<union> {n. \<exists>input. op = OpAddImport input \<and> n = smi_name input}"
  by (cases op) (auto split: if_splits)

lemma short_call:
  assumes "store_inv st" "op_named op" "short_names st"
  shows "short_names (snd (exec_op op st))"
proof -
  have "dom (shm_imports (snd (exec_op op st))) \<subseteq> dom (shm_imports st) \<union> {n. \<exists>input. op = OpAddImport input \<and> n = smi_name input}"
    using exec_call(2)[OF assms(1,2)] dom_import_op[of op "abs_of st"] by (auto simp del: exec_op.simps)
  moreover have "length n < RECORD_NAME_SIZE" if "\<exists>input. op = OpAddImport input \<and> n = smi_name input" for n
    using assms(2) that by (auto simp: good_name_def)
  ultimately show ?thesis using assms(3) unfolding short_names_def by blast
qed

lemma ref_pid:
  assumes "store_inv st" "shm_refs st n pid \<noteq> 0"
  shows "pid \<noteq> 0" "shm_imports st n \<noteq> None"
proof -
  obtain i ids where e: "map_of (cachedImportShmRecords st) n = Some (i, ids)" "mm_get (cachedRefShmIdxRecords st) i pid \<noteq> []"
    using assms(2) by (auto simp: refs_abs ref_count_def split: option.splits)
  then obtain j where "j \<in> refs_in (shmRefAllocator st) i pid"
    using store_refD(7)[OF assms(1), of i pid] by (metis all_not_in_conv set_empty)
  then show "pid \<noteq> 0" by (auto simp: refs_in_def MemShareRefIdle_def)
  show "shm_imports st n \<noteq> None" using e(1) dom_views(3)[of n st] by (auto simp: dom_def)
qed

lemma no_import_no_refs: "store_inv st \<Longrightarrow> shm_imports st n = None \<Longrightarrow> shm_refs st n = (\<lambda>_. 0)"
  using ref_pid(2) by (intro ext) blast

section \<open>Changing one memory\<close>

lemma same_at_trans: "same_at k st st' \<Longrightarrow> same_at k st' st'' \<Longrightarrow> same_at k st st''"
  by (simp add: same_at_def)

lemma shm_change:
  assumes "shm_inv Orph d" "store_inv st" "short_names st" "\<And>k. k \<noteq> n \<Longrightarrow> same_at k (d_store d) st"
    and "distinct (map fst s)" "\<And>k. k \<noteq> n \<Longrightarrow> map_of s k = map_of (d_shm d) k"
    and "shm_at (n \<in> Orph) n (map_of s n) (shm_imports st n) (shm_refs st n)"
  shows "shm_inv Orph (d\<lparr>d_store := st, d_shm := s\<rparr>)"
proof -
  have "shm_at (k \<in> Orph) k (map_of s k) (shm_imports st k) (shm_refs st k)" for k
  proof (cases "k = n")
    case False
    then show ?thesis using shm_invD(4)[OF assms(1), of k] assms(4,6)[OF False] by (simp add: same_at_def)
  qed (use assms(7) in simp)
  then show ?thesis using assms(2,3,5) by (simp add: shm_inv_def)
qed

lemma shm_step:
  assumes "shm_inv Orph d" "op_named op" "\<And>k. k \<noteq> n \<Longrightarrow> \<not> op_touches op k"
    and "distinct (map fst s)" "\<And>k. k \<noteq> n \<Longrightarrow> map_of s k = map_of (d_shm d) k"
    and "shm_at (n \<in> Orph) n (map_of s n) (shm_imports (snd (exec_op op (d_store d))) n) (shm_refs (snd (exec_op op (d_store d))) n)"
  shows "shm_inv Orph (d\<lparr>d_store := snd (exec_op op (d_store d)), d_shm := s\<rparr>)"
  using shm_invD[OF assms(1)] call_untouched[OF shm_invD(1)[OF assms(1)] assms(2,3)]
    exec_call(1)[OF _ assms(2)] short_call[OF _ assms(2)]
  by (intro shm_change[OF assms(1) _ _ _ assms(4-6)]) (simp_all del: exec_op.simps)

lemma shm_failed:
  assumes "shm_inv Orph d" "op_named op" "fst (exec_op op (d_store d)) \<noteq> 0"
  shows "shm_inv Orph (d\<lparr>d_store := snd (exec_op op (d_store d))\<rparr>)"
  using shm_invD[OF assms(1)] exec_call(1,2)[OF shm_invD(1)[OF assms(1)] assms(2)] assms(3)
  by (simp add: shm_inv_def short_names_def del: exec_op.simps)

lemma known:
  assumes "shm_inv Orph d" "map_of (d_shm d) n = Some m"
  shows "am_name m = n"
    and "shm_imports (d_store d) n = None \<Longrightarrow> ghost m"
    and "shm_imports (d_store d) n = Some r \<Longrightarrow> import_matches m r \<and> users_match (am_pids m) (shm_refs (d_store d) n)"
  using shm_invD(4)[OF assms(1), of n] assms(2) by (simp_all add: shm_at_def)

text \<open>The calls of the store, as operations.\<close>

lemma shm_op:
  "AddShmRefRecord pid n = exec_op (OpAddRef pid n)" "DelShmRefRecord pid n = exec_op (OpDelRef pid n)"
  "AddShmImportInput input = exec_op (OpAddImport input)" "AddShmImportResult n result = exec_op (OpImportResult n result)"
  "UpdateShmImportRecordState n s = exec_op (OpImportState n s)" "DelShmImportRecord n = exec_op (OpDelImport n)"
  by (simp_all add: fun_eq_iff)

section \<open>Every method keeps the invariant\<close>

lemma users_insert:
  "users_match pids f \<Longrightarrow> pid \<notin> set pids \<Longrightarrow> users_match (List.insert pid pids) (f(pid := Suc (f pid)))"
  by (auto simp: users_match_def)

lemma users_remove:
  "users_match pids f \<Longrightarrow> pid \<in> set pids \<Longrightarrow> users_match (removeAll pid pids) (f(pid := f pid - 1))"
  by (auto simp: users_match_def distinct_removeAll)

lemma AddMemoryUserInfo_keeps: "triple (\<lambda>d. shm_inv Orph d \<and> \<not> uses d n pid) (AddMemoryUserInfo n pid) (\<lambda>_. shm_inv Orph)"
proof (rule tripleI)
  fix d :: "'w daemon"
  assume "shm_inv Orph d \<and> \<not> uses d n pid"
  then have inv: "shm_inv Orph d" and new: "\<not> uses d n pid" by auto
  let ?x = "exec_op (OpAddRef pid n) (d_store d)" and ?d' = "snd (run_state (AddMemoryUserInfo n pid) d)"
  note D = shm_invD[OF inv]
  show "shm_inv Orph ?d'"
  proof (cases "map_of (d_shm d) n")
    case (Some m)
    show ?thesis
    proof (cases "fst ?x = 0")
      case True
      let ?m = "m\<lparr>am_pids := List.insert pid (am_pids m)\<rparr>"
      have d': "?d' = d\<lparr>d_store := snd ?x, d_shm := assign n ?m (d_shm d)\<rparr>"
        using Some True by (simp add: AddMemoryUserInfo_def find_shm_def shm_op del: exec_op.simps)
      have "n \<in> dom (shm_imports (d_store d))" using exec_call(3)[OF D(1), of "OpAddRef pid n"] True by (simp del: exec_op.simps)
      then obtain r where r: "shm_imports (d_store d) n = Some r" by blast
      have "abs_of (snd ?x) = abs_op (OpAddRef pid n) (abs_of (d_store d))"
        using exec_call(2)[OF D(1), of "OpAddRef pid n"] True by (simp del: exec_op.simps)
      moreover have "pid \<notin> set (am_pids m)" using new Some by (simp add: uses_def)
      ultimately have "shm_at (n \<in> Orph) n (Some ?m) (shm_imports (snd ?x) n) (shm_refs (snd ?x) n)"
        using known[OF inv Some] r users_insert[of "am_pids m" "shm_refs (d_store d) n" pid]
        by (simp add: shm_at_Some import_matches_def del: exec_op.simps)
      then show ?thesis
        unfolding d' using D(3) by (intro shm_step[OF inv, of _ n]) (auto simp: map_of_assign distinct_assign simp del: exec_op.simps)
    next
      case False
      then have "?d' = d\<lparr>d_store := snd ?x\<rparr>"
        using Some by (simp add: AddMemoryUserInfo_def find_shm_def shm_op del: exec_op.simps)
      then show ?thesis using shm_failed[OF inv _ False] by (simp del: exec_op.simps)
    qed
  qed (use inv in \<open>simp add: AddMemoryUserInfo_def find_shm_def\<close>)
qed

lemma RemoveMemoryUserInfo_keeps:
  "triple (shm_inv Orph) (RemoveMemoryUserInfo n pid) (\<lambda>ret d. shm_inv Orph d \<and> (ret = 0 \<longrightarrow> \<not> uses d n pid))"
proof (rule tripleI)
  fix d :: "'w daemon"
  assume inv: "shm_inv Orph d"
  let ?x = "exec_op (OpDelRef pid n) (d_store d)" and ?r = "run_state (RemoveMemoryUserInfo n pid) d"
  note D = shm_invD[OF inv]
  consider "map_of (d_shm d) n = None" | m where "map_of (d_shm d) n = Some m" "pid \<notin> set (am_pids m)"
    | (fail) m where "map_of (d_shm d) n = Some m" "pid \<in> set (am_pids m)" "fst ?x \<noteq> 0"
    | (ok) m where "map_of (d_shm d) n = Some m" "pid \<in> set (am_pids m)" "fst ?x = 0" by blast
  then show "shm_inv Orph (snd ?r) \<and> (fst ?r = 0 \<longrightarrow> \<not> uses (snd ?r) n pid)"
  proof cases
    case fail
    then have "?r = (MXM_ERR_SHM_NOT_FOUND, d\<lparr>d_store := snd ?x\<rparr>)"
      by (simp add: RemoveMemoryUserInfo_def find_shm_def shm_op del: exec_op.simps)
    then show ?thesis using shm_failed[OF inv _ fail(3)] by (simp add: err_codes del: exec_op.simps)
  next
    case ok
    let ?m = "m\<lparr>am_pids := removeAll pid (am_pids m)\<rparr>"
    have d': "?r = (UBSM_OK, d\<lparr>d_store := snd ?x, d_shm := assign n ?m (d_shm d)\<rparr>)"
      using ok by (simp add: RemoveMemoryUserInfo_def find_shm_def shm_op del: exec_op.simps)
    have "shm_refs (d_store d) n pid \<noteq> 0" using exec_call(3)[OF D(1), of "OpDelRef pid n"] ok(3) by (simp del: exec_op.simps)
    then obtain r where r: "shm_imports (d_store d) n = Some r" using ref_pid(2)[OF D(1)] by blast
    have "abs_of (snd ?x) = abs_op (OpDelRef pid n) (abs_of (d_store d))"
      using exec_call(2)[OF D(1), of "OpDelRef pid n"] ok(3) by (simp del: exec_op.simps)
    then have "shm_at (n \<in> Orph) n (Some ?m) (shm_imports (snd ?x) n) (shm_refs (snd ?x) n)"
      using known[OF inv ok(1)] r users_remove[of "am_pids m" "shm_refs (d_store d) n" pid] ok(2)
      by (simp add: shm_at_Some import_matches_def del: exec_op.simps)
    then have "shm_inv Orph (snd ?r)"
      unfolding d' snd_conv using D(3)
      by (intro shm_step[OF inv, of _ n]) (auto simp: map_of_assign distinct_assign simp del: exec_op.simps)
    then show ?thesis by (simp add: d' uses_def map_of_assign)
  qed (use inv in \<open>simp_all add: RemoveMemoryUserInfo_def find_shm_def err_codes\<close>)
qed

text \<open>A memory that has been prepared: in the map and in the store, without users.\<close>

definition prepared :: "string set \<Rightarrow> string \<Rightarrow> 'w daemon \<Rightarrow> bool" where
  "prepared Orph n d \<longleftrightarrow> shm_inv Orph d \<and> shm_imports (d_store d) n \<noteq> None \<and>
     (\<exists>m. map_of (d_shm d) n = Some m \<and> ghost m)"

lemma PrepareAddShareMemoryInfo_keeps:
  assumes "clean_name n"
  shows "triple (shm_inv Orph) (PrepareAddShareMemoryInfo n sz pid)
    (\<lambda>hr d. if hr = 0 then prepared Orph n d else shm_inv Orph d)"
proof (rule tripleI)
  fix d :: "'w daemon"
  assume inv: "shm_inv Orph d"
  note D = shm_invD[OF inv]
  define input where "input = \<lparr>smi_name = n, smi_size = sz, smi_pid = pid\<rparr>"
  let ?x = "exec_op (OpAddImport input) (d_store d)" and ?r = "run_state (PrepareAddShareMemoryInfo n sz pid) d"
  consider "map_of (d_shm d) n \<noteq> None"
    | (long) "map_of (d_shm d) n = None" "\<not> length n < RECORD_NAME_SIZE"
    | (fail) "map_of (d_shm d) n = None" "good_name n" "fst ?x \<noteq> 0"
    | (ok) "map_of (d_shm d) n = None" "good_name n" "fst ?x = 0" using clean_good[OF assms] by blast
  then show "if fst ?r = 0 then prepared Orph n (snd ?r) else shm_inv Orph (snd ?r)"
  proof cases
    case long
    then have "?x = (- 1, d_store d)" by (intro long_import) (simp add: input_def)
    then have "?r = (MXM_ERR_RECORD_ADD, d)"
      using long by (simp add: PrepareAddShareMemoryInfo_def find_shm_def shm_op input_def del: exec_op.simps)
    then show ?thesis using inv by (simp add: err_codes)
  next
    case fail
    then have "?r = (MXM_ERR_RECORD_ADD, d\<lparr>d_store := snd ?x\<rparr>)"
      by (simp add: PrepareAddShareMemoryInfo_def find_shm_def shm_op input_def del: exec_op.simps)
    then show ?thesis using shm_failed[OF inv _ fail(3)] fail(2) by (simp add: err_codes input_def del: exec_op.simps)
  next
    case ok
    let ?m = "\<lparr>am_name = n, am_size = sz, am_state = PRE_ADD, am_pids = [], am_result = new_import_result\<rparr>"
    have n: "op_named (OpAddImport input)" using ok(2) by (simp add: input_def)
    have d': "?r = (MXM_OK, d\<lparr>d_store := snd ?x, d_shm := emplace n ?m (d_shm d)\<rparr>)"
      using ok by (simp add: PrepareAddShareMemoryInfo_def find_shm_def shm_op input_def del: exec_op.simps)
    have "n \<notin> dom (shm_imports (d_store d))" using exec_call(3)[OF D(1) n] ok(3) by (simp add: input_def del: exec_op.simps)
    then have refs: "shm_refs (d_store d) n = (\<lambda>_. 0)" by (intro no_import_no_refs[OF D(1)]) (simp add: domIff)
    have A: "abs_of (snd ?x) = abs_op (OpAddImport input) (abs_of (d_store d))"
      using exec_call(2)[OF D(1) n] ok(3) by (simp del: exec_op.simps)
    then have "shm_at (n \<in> Orph) n (Some ?m) (shm_imports (snd ?x) n) (shm_refs (snd ?x) n)"
      using refs by (simp add: shm_at_Some import_matches_def import_new_def new_import_result_def users_match_def input_def
          del: exec_op.simps)
    then have "shm_inv Orph (snd ?r)"
      unfolding d' snd_conv using D(3) ok(1)
      by (intro shm_step[OF inv n, of n]) (auto simp: map_of_emplace distinct_emplace input_def simp del: exec_op.simps)
    then show ?thesis using ok(1) A by (simp add: d' prepared_def map_of_emplace ghost_def input_def del: exec_op.simps)
  qed (use inv in \<open>simp_all add: PrepareAddShareMemoryInfo_def find_shm_def err_codes\<close>)
qed

lemma AddFullShareMemoryInfo_keeps: "triple (prepared Orph n) (AddFullShareMemoryInfo n pid result) (\<lambda>_. shm_inv Orph)"
proof (rule tripleI)
  fix d :: "'w daemon"
  assume "prepared Orph n d"
  then obtain m r where inv: "shm_inv Orph d" and m: "map_of (d_shm d) n = Some m" "ghost m"
    and r: "shm_imports (d_store d) n = Some r" by (auto simp: prepared_def)
  note D = shm_invD[OF inv]
  define st1 where "st1 = snd (exec_op (OpImportResult n result) (d_store d))"
  define st2 where "st2 = snd (exec_op (OpAddRef pid n) st1)"
  define st3 where "st3 = snd (exec_op (OpDelImport n) st2)"
  note sts = st1_def[symmetric] st2_def[symmetric] st3_def[symmetric]
  let ?d' = "snd (run_state (AddFullShareMemoryInfo n pid result) d)"
  have I: "store_inv st1" "store_inv st2" "store_inv st3" "short_names st1" "short_names st2" "short_names st3"
    using D(1,2) exec_call(1)[of _ "OpImportResult n result"] exec_call(1)[of _ "OpAddRef pid n"] exec_call(1)[of _ "OpDelImport n"]
      short_call[of _ "OpImportResult n result"] short_call[of _ "OpAddRef pid n"] short_call[of _ "OpDelImport n"]
    by (simp_all add: st1_def st2_def st3_def del: exec_op.simps)
  have S: "same_at k (d_store d) st1 \<and> same_at k st1 st2 \<and> same_at k st2 st3" if "k \<noteq> n" for k
    using that call_untouched[OF D(1), of "OpImportResult n result" k] call_untouched[OF I(1), of "OpAddRef pid n" k]
      call_untouched[OF I(2), of "OpDelImport n" k] by (simp add: st1_def st2_def st3_def del: exec_op.simps)
  have refs: "users_match [] (shm_refs (d_store d) n)" using known(3)[OF inv m(1) r] m(2) by (simp add: ghost_def)
  show "shm_inv Orph ?d'"
  proof (cases "fst (exec_op (OpImportResult n result) (d_store d)) = 0")
    case one: True
    then have a1: "abs_of st1 = abs_op (OpImportResult n result) (abs_of (d_store d))"
      using exec_call(2)[OF D(1), of "OpImportResult n result"] by (simp add: st1_def del: exec_op.simps)
    show ?thesis
    proof (cases "fst (exec_op (OpAddRef pid n) st1) = 0")
      case two: True
      let ?m = "m\<lparr>am_state := FINISH, am_result := result, am_pids := List.insert pid (am_pids m)\<rparr>"
      have d': "?d' = d\<lparr>d_store := st2, d_shm := assign n ?m (d_shm d)\<rparr>"
        using m one two by (simp add: AddFullShareMemoryInfo_def find_shm_def shm_op sts del: exec_op.simps)
      have a2: "abs_of st2 = abs_op (OpAddRef pid n) (abs_of st1)"
        using exec_call(2)[OF I(1), of "OpAddRef pid n"] two by (simp add: st2_def del: exec_op.simps)
      have "shm_at (n \<in> Orph) n (Some ?m) (shm_imports st2 n) (shm_refs st2 n)"
        using known[OF inv m(1)] r refs users_insert[of "[]" "shm_refs (d_store d) n" pid] m(2)
        by (simp add: a1 a2 shm_at_Some import_matches_def import_done_def ghost_def)
      then show ?thesis unfolding d'
        using I D(3) S by (intro shm_change[OF inv, of _ n]) (auto intro: same_at_trans simp: map_of_assign distinct_assign)
    next
      case two: False
      have d': "?d' = d\<lparr>d_store := st3\<rparr>"
        using m one two by (simp add: AddFullShareMemoryInfo_def find_shm_def shm_op sts del: exec_op.simps)
      have a2: "abs_of st2 = abs_of st1"
        using exec_call(2)[OF I(1), of "OpAddRef pid n"] two by (simp add: st2_def del: exec_op.simps)
      have "op_pre (OpDelImport n) (abs_of st2)" using a1 a2 r refs by (auto simp: users_match_def)
      then have "abs_of st3 = abs_op (OpDelImport n) (abs_of st2)"
        using exec_call(2,3)[OF I(2), of "OpDelImport n"] by (simp add: st3_def del: exec_op.simps op_pre.simps)
      then have "shm_at (n \<in> Orph) n (Some m) (shm_imports st3 n) (shm_refs st3 n)"
        using known(1)[OF inv m(1)] m(2) by (simp add: shm_at_Some)
      then have "shm_inv Orph (d\<lparr>d_store := st3, d_shm := d_shm d\<rparr>)"
        using I D(3) S m(1) by (intro shm_change[OF inv, of _ n]) (auto intro: same_at_trans)
      then show ?thesis by (simp add: d')
    qed
  next
    case False
    then have "?d' = d\<lparr>d_store := st1\<rparr>"
      using m by (simp add: AddFullShareMemoryInfo_def find_shm_def shm_op sts del: exec_op.simps)
    then show ?thesis using shm_failed[OF inv _ False] by (simp add: sts del: exec_op.simps)
  qed
qed

lemma UpdateShareMemoryRecordState_keeps: "keeps (shm_inv Orph) (UpdateShareMemoryRecordState n s)"
proof (rule tripleI)
  fix d :: "'w daemon"
  assume inv: "shm_inv Orph d"
  note D = shm_invD[OF inv]
  let ?x = "exec_op (OpImportState n s) (d_store d)" and ?d' = "snd (run_state (UpdateShareMemoryRecordState n s) d)"
  show "shm_inv Orph ?d'"
  proof (cases "map_of (d_shm d) n")
    case (Some m)
    show ?thesis
    proof (cases "fst ?x = 0")
      case True
      let ?m = "m\<lparr>am_state := s\<rparr>"
      have d': "?d' = d\<lparr>d_store := snd ?x, d_shm := assign n ?m (d_shm d)\<rparr>"
        using Some True by (simp add: UpdateShareMemoryRecordState_def find_shm_def shm_op del: exec_op.simps)
      have "n \<in> dom (shm_imports (d_store d))" using exec_call(3)[OF D(1), of "OpImportState n s"] True by (simp del: exec_op.simps)
      then obtain r where r: "shm_imports (d_store d) n = Some r" by blast
      have "abs_of (snd ?x) = abs_op (OpImportState n s) (abs_of (d_store d))"
        using exec_call(2)[OF D(1), of "OpImportState n s"] True by (simp del: exec_op.simps)
      then have "shm_at (n \<in> Orph) n (Some ?m) (shm_imports (snd ?x) n) (shm_refs (snd ?x) n)"
        using known[OF inv Some] r by (simp add: shm_at_Some import_matches_def del: exec_op.simps)
      then show ?thesis
        unfolding d' using D(3) by (intro shm_step[OF inv, of _ n]) (auto simp: map_of_assign distinct_assign simp del: exec_op.simps)
    next
      case False
      then have "?d' = d\<lparr>d_store := snd ?x\<rparr>"
        using Some by (simp add: UpdateShareMemoryRecordState_def find_shm_def shm_op del: exec_op.simps)
      then show ?thesis using shm_failed[OF inv _ False] by (simp del: exec_op.simps)
    qed
  qed (use inv in \<open>simp add: UpdateShareMemoryRecordState_def find_shm_def\<close>)
qed

section \<open>Removal\<close>

lemma drop_refs_run:
  assumes "store_inv (d_store d)" "short_names (d_store d)" "shm_imports (d_store d) n \<noteq> None"
    "users_match pids (shm_refs (d_store d) n)"
  shows "\<exists>st. run_state (drop_refs n pids) d = (True, d\<lparr>d_store := st\<rparr>) \<and> store_inv st \<and> short_names st \<and>
    shm_imports st = shm_imports (d_store d) \<and> shm_refs st n = (\<lambda>_. 0) \<and> (\<forall>k. k \<noteq> n \<longrightarrow> same_at k (d_store d) st)"
  using assms
proof (induction pids arbitrary: d)
  case Nil
  then show ?case by (intro exI[of _ "d_store d"]) (simp add: users_match_def same_at_def)
next
  case (Cons p pids)
  let ?x = "exec_op (OpDelRef p n) (d_store d)"
  have u: "shm_refs (d_store d) n p = 1" "users_match pids ((shm_refs (d_store d) n)(p := 0))"
    using Cons.prems(4) by (auto simp: users_match_def)
  have "n \<in> dom (shm_imports (d_store d))" using Cons.prems(3) by blast
  then have "length n < RECORD_NAME_SIZE" using Cons.prems(2) by (simp add: short_names_def)
  then have ok: "fst ?x = 0"
    using exec_call(3)[OF Cons.prems(1), of "OpDelRef p n"] ref_pid(1)[OF Cons.prems(1), of n p] u(1) by (simp del: exec_op.simps)
  then have A: "abs_of (snd ?x) = abs_op (OpDelRef p n) (abs_of (d_store d))"
    using exec_call(2)[OF Cons.prems(1), of "OpDelRef p n"] by (simp del: exec_op.simps)
  have I: "store_inv (snd ?x)" "short_names (snd ?x)"
    using exec_call(1)[OF Cons.prems(1), of "OpDelRef p n"] short_call[OF Cons.prems(1) _ Cons.prems(2), of "OpDelRef p n"]
    by (simp_all del: exec_op.simps)
  have imp: "shm_imports (snd ?x) = shm_imports (d_store d)" using A by (simp del: exec_op.simps)
  have u2: "users_match pids (shm_refs (snd ?x) n)" using u A by (simp del: exec_op.simps)
  have "same_at k (d_store d) (snd ?x)" if "k \<noteq> n" for k using that A by (simp add: same_at_def del: exec_op.simps)
  moreover obtain st where "run_state (drop_refs n pids) (d\<lparr>d_store := snd ?x\<rparr>) = (True, d\<lparr>d_store := st\<rparr>)" "store_inv st"
    "short_names st" "shm_imports st = shm_imports (snd ?x)" "shm_refs st n = (\<lambda>_. 0)" "\<forall>k. k \<noteq> n \<longrightarrow> same_at k (snd ?x) st"
    using Cons.IH[of "d\<lparr>d_store := snd ?x\<rparr>"] I Cons.prems(3) u2 imp by (auto simp del: exec_op.simps)
  ultimately show ?case
    using ok A by (intro exI[of _ st]) (auto simp: shm_op intro: same_at_trans simp del: exec_op.simps)
qed

text \<open>What a removal does: nothing, or the memory goes from the map and the store.\<close>

lemma RemoveMemoryInfo_keeps: "keeps (shm_inv Orph) (RemoveMemoryInfo n force)"
proof (rule tripleI)
  fix d :: "'w daemon"
  assume inv: "shm_inv Orph d"
  note D = shm_invD[OF inv]
  let ?r = "run_state (RemoveMemoryInfo n force) d"
  consider "map_of (d_shm d) n = None"
    | m where "map_of (d_shm d) n = Some m" "\<not> (force \<and> am_state m = DELETED)" "am_pids m \<noteq> []"
    | (unused) m where "map_of (d_shm d) n = Some m" "\<not> (force \<and> am_state m = DELETED)" "am_pids m = []"
    | (deleted) m where "map_of (d_shm d) n = Some m" "force" "am_state m = DELETED" by blast
  then show "shm_inv Orph (snd ?r)"
  proof cases
    case unused
    let ?x = "exec_op (OpDelImport n) (d_store d)"
    show ?thesis
    proof (cases "fst ?x = 0")
      case True
      have d': "snd ?r = d\<lparr>d_store := snd ?x, d_shm := erase n (d_shm d)\<rparr>"
        using unused True by (auto simp: RemoveMemoryInfo_def find_shm_def shm_op simp del: exec_op.simps)
      have "abs_of (snd ?x) = abs_op (OpDelImport n) (abs_of (d_store d))"
        using exec_call(2)[OF D(1), of "OpDelImport n"] True by (simp del: exec_op.simps)
      then show ?thesis unfolding d' using D(3)
        by (intro shm_step[OF inv, of _ n]) (auto simp: map_of_erase distinct_erase shm_at_Some simp del: exec_op.simps)
    next
      case False
      then have "snd ?r = d\<lparr>d_store := snd ?x\<rparr>"
        using unused by (auto simp: RemoveMemoryInfo_def find_shm_def shm_op simp del: exec_op.simps)
      then show ?thesis using shm_failed[OF inv _ False] by (simp del: exec_op.simps)
    qed
  next
    case deleted
    have "shm_imports (d_store d) n \<noteq> None" using known(2)[OF inv deleted(1)] deleted(3) by (auto simp: ghost_def)
    then obtain r where r: "shm_imports (d_store d) n = Some r" by blast
    then obtain st where st: "run_state (drop_refs n (am_pids m)) d = (True, d\<lparr>d_store := st\<rparr>)" "store_inv st" "short_names st"
      "shm_imports st = shm_imports (d_store d)" "shm_refs st n = (\<lambda>_. 0)" "\<forall>k. k \<noteq> n \<longrightarrow> same_at k (d_store d) st"
      using drop_refs_run[OF D(1,2), of n "am_pids m"] known(3)[OF inv deleted(1)] by auto
    let ?x = "exec_op (OpDelImport n) st"
    have ok: "fst ?x = 0" using exec_call(3)[OF st(2), of "OpDelImport n"] st(4,5) r by (simp add: domIff del: exec_op.simps)
    have d': "snd ?r = d\<lparr>d_store := snd ?x, d_shm := erase n (assign n (m\<lparr>am_pids := []\<rparr>) (d_shm d))\<rparr>"
      using deleted st(1) ok by (simp add: RemoveMemoryInfo_def find_shm_def shm_op del: exec_op.simps)
    have "abs_of (snd ?x) = abs_op (OpDelImport n) (abs_of st)"
      using exec_call(2)[OF st(2), of "OpDelImport n"] ok by (simp del: exec_op.simps)
    moreover have "same_at k st (snd ?x)" if "k \<noteq> n" for k
      using call_untouched[OF st(2), of "OpDelImport n" k] that by (simp del: exec_op.simps)
    moreover have "store_inv (snd ?x)" "short_names (snd ?x)"
      using exec_call(1)[OF st(2), of "OpDelImport n"] short_call[OF st(2) _ st(3), of "OpDelImport n"] by (simp_all del: exec_op.simps)
    ultimately show ?thesis unfolding d' using st(6) D(3)
      by (intro shm_change[OF inv, of _ n])
        (auto intro: same_at_trans simp: map_of_erase map_of_assign distinct_erase distinct_assign shm_at_Some simp del: exec_op.simps)
  qed (use inv in \<open>auto simp: RemoveMemoryInfo_def find_shm_def\<close>)
qed

end
