(* ===== verification/Lease_Props.thy ===== *)
theory Lease_Props
  imports Lease_Handlers Sample_World
begin

text \<open>
  What the requests for leased memory promise: manager and record store stay in agreement over any
  sequence of requests, a process cannot touch the leases of another one, and allocation and release
  do what their codes say.
\<close>

section \<open>Generated names\<close>

lemma to_string_length: "n < 10 ^ k \<Longrightarrow> 0 < k \<Longrightarrow> length (to_string n) \<le> k"
proof (induction n arbitrary: k rule: to_string.induct)
  case (1 n)
  show ?case
  proof (cases "n < 10")
    case True
    then show ?thesis using 1(3) by (subst to_string.simps) simp
  next
    case False
    obtain k' where k: "k = Suc k'" using 1(3) by (cases k) auto
    have "0 < k'" using False 1(2) k by (cases k') auto
    moreover have "n div 10 < 10 ^ k'" using 1(2) k by (simp add: less_mult_imp_div_less mult.commute)
    ultimately show ?thesis using 1(1)[OF False, of k'] False k by (subst to_string.simps) simp
  qed
qed

lemma to_string_u64: "length (to_string (unat (w :: u64))) \<le> 20"
proof (rule to_string_length)
  have "unat w < 2 ^ LENGTH(64)" by (rule unsigned_less)
  then show "unat w < 10 ^ 20" by simp
qed simp

lemma to_string_no_nul: "CHR 0x00 \<notin> set (to_string n)"
  using to_string_digits[of n] by (auto simp: is_digit_def)

lemma GenerateMemName_good: "good_name (fst (run_state (GenerateMemName E sz) d))"
proof -
  have "length (to_string (unat a)) + length (to_string (unat b)) + length (to_string (unat c)) \<le> 60" for a b c :: u64
    using to_string_u64[of a] to_string_u64[of b] to_string_u64[of c] by simp
  from le_less_trans[OF this, of 61] show ?thesis
    by (simp add: GenerateMemName_def good_name_def split_beta to_string_no_nul RECORD_NAME_SIZE_def add.assoc)
qed

lemma GenerateMemName_frame [adapter_frames]: "preserves services (GenerateMemName E sz)"
  unfolding GenerateMemName_def by (intro allI frame_intros)

section \<open>Requests\<close>

datatype lease_request =
  ReqMalloc AppMallocMemoryRequest
| ReqMallocWithLoc AppMallocMemoryWithLocRequest
| ReqFree AppFreeMemoryRequest
| ReqForceFree
| ReqCheck CheckMemoryLeaseRequest

fun serve_lease :: "'w env \<Rightarrow> lease_request \<times> MxmComUdsInfo \<Rightarrow> ('w, int) act" where
  "serve_lease E (ReqMalloc r, uds) = do { (ret, _) \<leftarrow> AppMallocMemory E r new_AppMallocMemoryResponse uds; return ret }"
| "serve_lease E (ReqMallocWithLoc r, uds) = do { (ret, _) \<leftarrow> AppMallocMemoryWithLoc E r new_AppMallocMemoryResponse uds; return ret }"
| "serve_lease E (ReqFree r, uds) = do { (ret, _) \<leftarrow> AppFreeMemory E r new_CommonResponse uds; return ret }"
| "serve_lease E (ReqForceFree, uds) = do { (ret, _) \<leftarrow> AppForceFreeCachedMemory E new_CommonResponse; return ret }"
| "serve_lease E (ReqCheck r, uds) = do { (ret, _) \<leftarrow> AppCheckMemoryLease E r new_CommonResponse uds; return ret }"

lemma keeps_when: "triple I m (\<lambda>a d. I d \<and> B a) \<Longrightarrow> (\<And>a. B a \<Longrightarrow> keeps I (f a)) \<Longrightarrow> keeps I (State_Monad.bind m f)"
  by (rule triple_bind[of _ _ "\<lambda>a d. I d \<and> B a"]) (auto intro: triple_assume)

text \<open>
  A property of the daemon that every method of the manager keeps, as far as the method is about a
  name the caller may touch, is kept by every request.
\<close>

locale lease_client =
  fixes E :: "'w env" and I :: "'w daemon \<Rightarrow> bool" and ok :: "string \<Rightarrow> bool" and pid :: u32
  assumes frame: "services d = services d' \<Longrightarrow> I d \<Longrightarrow> I d'"
    and pre_add: "good_name n \<Longrightarrow> app_pid ctx \<noteq> 0 \<Longrightarrow>
      triple I (PreAddUsedMem n sz ctx b p) (\<lambda>hr d. I d \<and> (hr = 0 \<longrightarrow> ok n))"
    and finish: "ok n \<Longrightarrow> keeps I (FinishAddUsedMem n numa unit slot ids)"
    and state: "ok n \<Longrightarrow> keeps I (UpdateMemRecordState n s)"
    and delete: "ok n \<Longrightarrow> keeps I (DeleteUsedMem n)"
    and pre_delete: "ok n \<Longrightarrow> keeps I (PreDeleteUsedMem n)"
    and reuse: "app_pid ctx \<noteq> 0 \<Longrightarrow> triple I (ReuseBufferedMem E sz b region ctx)
      (\<lambda>a d. I d \<and> (\<forall>i. snd a = Some i \<longrightarrow> ok (mi_name i)))"
    and delete_all: "keeps I (DeleteAllBufferedMem E)"
    and owner: "I d \<Longrightarrow> map_of (usedMemory (d_mls d)) n = Some i \<Longrightarrow> info_pid i = pid \<Longrightarrow> ok n \<and> mi_name i = n"
begin

lemma service: "preserves services m \<Longrightarrow> keeps I m"
  by (erule services_keep) (rule frame)

lemmas client_intros = keeps_intros adapter_frames[THEN service] finish state delete pre_delete delete_all

lemma roll_back_keeps:
  "ok n \<Longrightarrow> keeps I (RollBackReuseCacheMemory E n b)" "ok n \<Longrightarrow> keeps I (RollBackBorrowNewMemory E n b)"
  unfolding RollBackReuseCacheMemory_def RollBackBorrowNewMemory_def by (intro client_intros; assumption)+

lemma reuse_keeps:
  assumes "app_pid ctx \<noteq> 0"
  shows "keeps I (ReuseCachedLeaseMemory E sz region b ctx resp)"
  unfolding ReuseCachedLeaseMemory_def
  by (rule keeps_when[OF reuse[OF assms]]) (intro client_intros roll_back_keeps, simp)

lemma named: "triple I (GenerateMemName E sz) (\<lambda>n d. I d \<and> good_name n)"
  using tripleD[OF service[OF GenerateMemName_frame]] GenerateMemName_good by (intro tripleI) blast

lemma malloc_keeps:
  assumes "uds_pid uds \<noteq> 0"
  shows "keeps I (AppMallocMemory E req resp uds)"
proof -
  have ctx: "app_pid (context_of uds) \<noteq> 0" using assms by (simp add: context_of_def)
  show ?thesis
    unfolding AppMallocMemory_def BorrowMemory_def BorrowNewMemory_def Let_def LeaseMallocParam.simps
    by (rule keeps_if keeps_when[OF named] keeps_when[OF pre_add[OF _ ctx]] reuse_keeps[OF ctx] client_intros roll_back_keeps
        | assumption | simp)+
qed

lemma malloc_loc_keeps:
  assumes "uds_pid uds \<noteq> 0"
  shows "keeps I (AppMallocMemoryWithLoc E req resp uds)"
proof -
  have ctx: "app_pid (context_of uds) \<noteq> 0" using assms by (simp add: context_of_def)
  show ?thesis
    unfolding AppMallocMemoryWithLoc_def BorrowMemoryWithLender_def Let_def LeaseMallocWithLocParam.simps
    by (rule keeps_if keeps_when[OF named] keeps_when[OF pre_add[OF _ ctx]] client_intros roll_back_keeps
        | assumption | simp add: MXM_OK_def)+
qed

lemma found: "triple I (GetUsedMemByName n)
    (\<lambda>a d. I d \<and> (\<forall>i. snd a = Some i \<and> info_pid i = pid \<longrightarrow> ok n \<and> mi_name i = n))"
  using owner by (intro tripleI) (auto simp: GetUsedMemByName_def find_used_def)

lemma free_keeps:
  assumes "uds_pid uds = pid"
  shows "keeps I (AppFreeMemory E req resp uds)"
proof -
  have own: "info_pid i = pid" if "IsSameApp (mi_appContext i) uds" for i
    using that assms by (simp add: IsSameApp_def)
  show ?thesis
    unfolding AppFreeMemory_def Let_def GetDelayRemoveRecord_def
    by (rule keeps_when[OF found] client_intros | assumption | simp add: own)+
qed

lemma check_keeps: "keeps I (AppCheckMemoryLease E req resp uds)" if "uds_pid uds = pid"
proof -
  have "triple I (GetUsedMemByPid (uds_pid uds)) (\<lambda>a d. I d \<and> (\<forall>i\<in>set a. info_pid i = pid))"
    using that by (intro tripleI) (auto simp: GetUsedMemByPid_def)
  then show ?thesis
    unfolding AppCheckMemoryLease_def CleanNotUsedRecordLeaseMemory_def
    by (rule keeps_when) (intro client_intros free_keeps, simp)
qed

lemma serve_keeps:
  assumes "uds_pid uds = pid" "pid \<noteq> 0"
  shows "keeps I (serve_lease E (req, uds))"
proof -
  have "keeps I (AppForceFreeCachedMemory E resp)" for resp
    unfolding AppForceFreeCachedMemory_def by (intro client_intros)
  then show ?thesis
    using assms by (cases req) (auto intro!: keeps_intros malloc_keeps malloc_loc_keeps free_keeps check_keeps)
qed

end

section \<open>Any sequence of requests\<close>

definition within_limit :: "mls_manager \<Rightarrow> bool" where
  "within_limit m \<longleftrightarrow> length (numaBufferedMemory m) \<le> unat (maxBufferedMemNum m) \<and>
     length (fdBufferedMemory m) \<le> unat (maxBufferedMemNum m)"

lemma within_limit_used [simp]: "within_limit (usedMemory_update f m) \<longleftrightarrow> within_limit m"
  by (simp add: within_limit_def)

lemma within_limit_shrink:
  assumes "within_limit m" "length (f (buffered b m)) \<le> length (buffered b m)"
  shows "within_limit (buffered_update b f m)"
  using assms by (cases b) (simp_all add: within_limit_def buffered_def buffered_update_def)

abbreviation limit_kept :: "'w daemon \<Rightarrow> bool" where
  "limit_kept d \<equiv> within_limit (d_mls d)"

lemma limit_used:
  "keeps limit_kept (PreAddUsedMem n sz ctx b p)" "keeps limit_kept (FinishAddUsedMem n numa unit slot ids)"
  "keeps limit_kept (UpdateMemRecordState n s)" "keeps limit_kept (DeleteUsedMem n)"
  by (auto simp: triple_def PreAddUsedMem_def FinishAddUsedMem_def UpdateMemRecordState_def DeleteUsedMem_def
      find_used_def repository_defs call_store_def split: option.split prod.split)

lemma limit_pre_delete:
  assumes "lease_inv Orph d" "limit_kept d"
  shows "limit_kept (snd (run_state (PreDeleteUsedMem n) d))"
proof (cases "map_of (usedMemory (d_mls d)) n")
  case (Some i)
  have "within_limit (buffered_update b (map_emplace k v) (d_mls d))" if "length (buffered b (d_mls d)) < unat (maxBufferedMemNum (d_mls d))" for b k v
    using assms(2) that length_map_emplace[of k v "buffered b (d_mls d)"]
    by (cases b) (auto simp: within_limit_def buffered_def buffered_update_def)
  then show ?thesis using assms(2) by (simp add: PreDeleteUsedMem_run[OF assms(1) Some] can_keep_def)
qed (use assms(2) in \<open>simp add: PreDeleteUsedMem_def find_used_def\<close>)

lemma limit_reuse:
  assumes "lease_inv Orph d" "limit_kept d"
  shows "limit_kept (snd (run_state (ReuseBufferedMem E sz b region ctx) d))"
proof -
  obtain hr slots d1 where G: "run_state (GetRegionInfo E region) d = ((hr, slots), d1)" by (metis surj_pair)
  have "d_mls d1 = d_mls d" using preserves_run[OF GetRegionInfo_frame, of E region d] G by (simp add: services_def)
  then show ?thesis
    using assms(2) within_limit_shrink[of "d_mls d" "erase k" b for k]
    unfolding ReuseBufferedMem_state[OF assms(1) G] by (simp add: after_reuse_def length_erase split: option.split prod.split)
qed

lemma limit_delete_all: "keeps limit_kept (DeleteAllBufferedMem E)"
proof -
  have "preserves d_mls (LeaseFreeMemory E n b)" for n b
  proof -
    have free: "preserves d_mls (LeaseFree E n b)"
      using preserves_run[OF LeaseFree_frame] unfolding preserves_iff services_def by fast
    have store: "preserves d_mls (call_store f)" for f by (simp add: triple_def call_store_def split_beta)
    show ?thesis unfolding LeaseFreeMemory_def repository_defs using free store by (intro allI keeps_intros) blast+
  qed
  then have "keeps limit_kept (LeaseFreeMemory E n b)" for n b unfolding preserves_iff by (simp add: triple_def)
  moreover have "keeps limit_kept (modify (d_mls_update (buffered_update b (erase k))))" for b k
    by (rule keeps_modify) (simp add: within_limit_shrink length_erase)
  ultimately show ?thesis
    unfolding DeleteAllBufferedMem_def free_buffered_def by (intro keeps_intros)
qed

definition lease_safe :: "string set \<Rightarrow> 'w daemon \<Rightarrow> bool" where
  "lease_safe Orph d \<longleftrightarrow> lease_inv Orph d \<and> within_limit (d_mls d)"

lemma keeps_both:
  "keeps (lease_inv Orph) m \<Longrightarrow> (\<And>d. lease_inv Orph d \<Longrightarrow> limit_kept d \<Longrightarrow> limit_kept (snd (run_state m d))) \<Longrightarrow>
   keeps (lease_safe Orph) m"
  by (simp add: triple_def lease_safe_def)

interpretation agreeing: lease_client E "lease_safe Orph" "\<lambda>_. True" pid for E :: "'w env" and Orph pid
proof (unfold_locales, goal_cases)
  case (1 d d')
  then show ?case by (simp add: lease_safe_def lease_inv_def services_def)
next
  case (2 n ctx sz b p)
  then show ?case using keeps_both[OF PreAddUsedMem_keeps keeps_run[OF limit_used(1)]] by simp
next
  case (3 n numa unit slot ids)
  then show ?case using keeps_both[OF FinishAddUsedMem_keeps keeps_run[OF limit_used(2)]] by simp
next
  case (4 n s)
  then show ?case using keeps_both[OF UpdateMemRecordState_keeps keeps_run[OF limit_used(3)]] by simp
next
  case (5 n)
  then show ?case using keeps_both[OF DeleteUsedMem_keeps keeps_run[OF limit_used(4)]] by simp
next
  case (6 n)
  then show ?case using keeps_both[OF PreDeleteUsedMem_keeps limit_pre_delete] by simp
next
  case (7 ctx sz b region)
  then show ?case using keeps_both[OF ReuseBufferedMem_keeps limit_reuse] by simp
next
  case 8
  show ?case by (rule keeps_both[OF DeleteAllBufferedMem_keeps]) (rule keeps_run[OF limit_delete_all])
next
  case (9 d n i)
  then show ?case using placed_used[of "d_mls d" n i] by (simp add: lease_safe_def lease_inv_def)
qed

definition serve_leases :: "'w env \<Rightarrow> (lease_request \<times> MxmComUdsInfo) list \<Rightarrow> ('w, unit) act" where
  "serve_leases E rs = for_each rs (\<lambda>r. do { serve_lease E r; return () })"

section \<open>The leases of other processes\<close>

fun lease_target :: "store_op \<Rightarrow> string option" where
  "lease_target (OpAddLease input) = Some (lmi_name input)"
| "lease_target (OpLeaseResult m result) = Some m"
| "lease_target (OpLeaseState m s) = Some m"
| "lease_target (OpLeaseUpdate m ctx sz) = Some m"
| "lease_target (OpDelLease m) = Some m"
| "lease_target _ = None"

lemma other_lease:
  assumes "store_inv st" "op_named op" "lease_target op \<noteq> Some n"
  shows "leases (snd (exec_op op st)) n = leases st n"
proof -
  have "as_leases (abs_op op (abs_of st)) n = leases st n" using assms(3) by (cases op) auto
  then show ?thesis using lease_call(2)[OF assms(1,2)] by simp
qed

text \<open>A lease in use and its record, seen through its name.\<close>

definition sees :: "string \<Rightarrow> MLSMemInfo \<Rightarrow> LeaseMallocInput \<times> LeaseMallocResult \<Rightarrow> 'w daemon \<Rightarrow> bool" where
  "sees n i r d \<longleftrightarrow> store_inv (d_store d) \<and> map_of (usedMemory (d_mls d)) n = Some i \<and> leases (d_store d) n = Some r"

lemma sees_call: "op_named op \<Longrightarrow> lease_target op \<noteq> Some n \<Longrightarrow> keeps (sees n i r) (call_store (exec_op op))"
  using other_lease lease_call(1) by (simp add: triple_def sees_def)

lemma sees_used: "(\<And>xs. map_of (f xs) n = map_of xs n) \<Longrightarrow> keeps (sees n i r) (update_used f)"
  by (simp add: triple_def sees_def)

lemma sees_buffered: "keeps (sees n i r) (modify (d_mls_update (buffered_update b f)))"
  by (simp add: triple_def sees_def)

lemma sees_services: "preserves services m \<Longrightarrow> keeps (sees n i r) m"
  by (erule services_keep) (simp add: services_def sees_def)

lemmas sees_intros = keeps_intros sees_call sees_used sees_buffered adapter_frames[THEN sees_services]

text \<open>A method about another name does not change it.\<close>

lemma sees_methods:
  assumes "m \<noteq> n"
  shows "keeps (sees n i r) (FinishAddUsedMem m numa unit slot ids)" "keeps (sees n i r) (UpdateMemRecordState m s)"
    "keeps (sees n i r) (DeleteUsedMem m)"
  unfolding FinishAddUsedMem_def UpdateMemRecordState_def DeleteUsedMem_def find_used_def repository_op
  using assms by (intro sees_intros; simp add: ordered_map)+

definition kept_for :: "string set \<Rightarrow> string \<Rightarrow> MLSMemInfo \<Rightarrow> LeaseMallocInput \<times> LeaseMallocResult \<Rightarrow> u32 \<Rightarrow> 'w daemon \<Rightarrow> bool" where
  "kept_for Orph n i r pid d \<longleftrightarrow> lease_inv Orph d \<and> sees n i r d \<and> info_pid i \<noteq> pid"

lemma keeps_for:
  "keeps (lease_inv Orph) m \<Longrightarrow> (\<And>d. lease_inv Orph d \<Longrightarrow> sees n i r d \<Longrightarrow> sees n i r (snd (run_state m d))) \<Longrightarrow>
   keeps (kept_for Orph n i r pid) m"
  by (simp add: triple_def kept_for_def)

lemma used_not_buffered:
  assumes "lease_inv Orph d" "sees n i r d" "(k, j) \<in> set (buffered b (d_mls d))"
  shows "mi_name j \<noteq> n"
proof
  assume n: "mi_name j = n"
  note P = lease_invD(2)[OF assms(1)]
  have "map_of (usedMemory (d_mls d)) n = Some i" using assms(2) by (simp add: sees_def)
  note U = placed_used[OF P this] and B = placed_buffered[OF P assms(3)]
  have "i = j" using lease_invD(3)[OF assms(1)] U B n unfolding agree_def inj_on_def by metis
  then show False using U B by simp
qed

lemma sees_pre_add:
  assumes "sees n i r d" "good_name m" "run_state (PreAddUsedMem m sz ctx b p) d = (rc, d')"
  shows "sees n i r d' \<and> (rc = 0 \<longrightarrow> m \<noteq> n)"
proof (cases "m = n")
  case True
  then show ?thesis using assms(1,3) by (simp add: PreAddUsedMem_def find_used_def sees_def MXM_ERR_SHM_ALREADY_EXIST_def)
next
  case False
  have "keeps (sees n i r) (PreAddUsedMem m sz ctx b p)"
    unfolding PreAddUsedMem_def find_used_def repository_op
    using assms(2) False by (intro sees_intros; simp add: ordered_map)
  from keeps_run[OF this assms(1)] show ?thesis using assms(3) False by simp
qed

lemma sees_pre_delete:
  assumes "lease_inv Orph d" "sees n i r d" "m \<noteq> n"
  shows "sees n i r (snd (run_state (PreDeleteUsedMem m) d))"
proof (cases "map_of (usedMemory (d_mls d)) m")
  case (Some j)
  have st: "store_inv (d_store d)" using assms(2) by (simp add: sees_def)
  have "op_named op" "lease_target op \<noteq> Some n"
    if "op = OpLeaseUpdate m ctx sz \<or> op = OpLeaseState m PRE_DEL" for op ctx sz using that assms(3) by auto
  then show ?thesis
    using assms(2,3) lease_call(1)[OF st] other_lease[OF st]
    unfolding PreDeleteUsedMem_run[OF assms(1) Some] by (simp add: sees_def map_of_erase del: exec_op.simps)
qed (use assms(2) in \<open>simp add: PreDeleteUsedMem_def find_used_def\<close>)

text \<open>What a reuse hands out.\<close>

definition reuse_result :: "u64 \<Rightarrow> MLSMemInfo \<Rightarrow> int \<times> MLSMemInfo option" where
  "reuse_result sz info = (if mi_unitSize info = 0 \<or> sz > - 1 - mi_unitSize info then (-1, None)
     else let unitCount = unat ((sz + mi_unitSize info - 1) div mi_unitSize info) in
          (0, Some (info\<lparr>mi_memIds := take unitCount (mi_memIds info) @ replicate (unitCount - length (mi_memIds info)) 0\<rparr>)))"

lemma reuse_result_name: "reuse_result sz info = (rc, Some j) \<Longrightarrow> mi_name j = mi_name info"
  by (auto simp: reuse_result_def Let_def split: if_splits)

lemma reused_info_fields [simp]:
  "mi_unitSize (reused_info sz ctx i) = mi_unitSize i" "mi_memIds (reused_info sz ctx i) = mi_memIds i"
  "mi_name (reused_info sz ctx i) = mi_name i" "mi_isNuma (reused_info sz ctx i) = mi_isNuma i"
  "mi_appContext (reused_info sz ctx i) = ctx" "mi_size (reused_info sz ctx i) = sz"
  by (simp_all add: reused_info_def)

lemma ReuseBufferedMem_result:
  assumes "lease_inv Orph d" "run_state (GetRegionInfo E regionName) d = ((hr, slots), d1)"
  shows "fst (run_state (ReuseBufferedMem E sz b regionName ctx) d) =
    (if \<not> isEnableLeaseBuffered (d_mls d) then (-1, None)
     else if hr \<noteq> 0 then (hr, None)
     else case reuse_candidate sz b slots (d_mls d1) of None \<Rightarrow> (-1, None)
       | Some (k, i) \<Rightarrow> reuse_result sz (reused_info sz ctx i))"
proof -
  have inv1: "lease_inv Orph d1"
    using keeps_run[OF frame_lease[OF GetRegionInfo_frame] assms(1), of E regionName] assms(2) by simp
  show ?thesis
  proof (cases "reuse_candidate sz b slots (d_mls d1)")
    case (Some e)
    obtain k i where e: "e = (k, i)" by (cases e)
    have n: "mi_isNuma i = b"
      using reuse_candidateD(1)[OF Some[unfolded e] lease_invD(2)[OF inv1]] placed_buffered[OF lease_invD(2)[OF inv1]] by blast
    show ?thesis
      using Some assms(2) n
      by (simp add: ReuseBufferedMem_def ReuseMemInSlotId_run[OF inv1] e Let_def reuse_result_def reused_isNuma
          del: exec_op.simps)
  qed (use assms(2) in \<open>simp add: ReuseBufferedMem_def ReuseMemInSlotId_run[OF inv1]\<close>)
qed

lemma sees_reuse:
  assumes "lease_inv Orph d" "sees n i r d" "run_state (ReuseBufferedMem E sz b region ctx) d = ((rc, found), d')"
  shows "sees n i r d' \<and> (\<forall>j. found = Some j \<longrightarrow> mi_name j \<noteq> n)"
proof -
  obtain hr slots d1 where G: "run_state (GetRegionInfo E region) d = ((hr, slots), d1)" by (metis surj_pair)
  have inv1: "lease_inv Orph d1" using keeps_run[OF frame_lease[OF GetRegionInfo_frame] assms(1), of E region] G by simp
  have see1: "sees n i r d1" using keeps_run[OF sees_services[OF GetRegionInfo_frame] assms(2), of E region] G by simp
  show ?thesis
  proof (cases "isEnableLeaseBuffered (d_mls d) \<and> hr = 0")
    case True
    show ?thesis
    proof (cases "reuse_candidate sz b slots (d_mls d1)")
      case (Some e)
      obtain k j where e: "e = (k, j)" by (cases e)
      have j: "mi_name j \<noteq> n"
        using used_not_buffered[OF inv1 see1 reuse_candidateD(1)[OF Some[unfolded e] lease_invD(2)[OF inv1]]] .
      let ?op = "OpLeaseUpdate (mi_name j) ctx sz"
      have "sees n i r (after_reuse sz b ctx k j d1)"
        using see1 j lease_call(1)[of "d_store d1" ?op] other_lease[of "d_store d1" ?op n]
        by (simp add: sees_def after_reuse_def ordered_map del: exec_op.simps)
      moreover have "d' = after_reuse sz b ctx k j d1"
        using ReuseBufferedMem_state[OF assms(1) G, of sz b ctx] True Some assms(3) e by simp
      moreover have "mi_name j' \<noteq> n" if "found = Some j'" for j'
        using ReuseBufferedMem_result[OF assms(1) G, of sz b ctx] True Some assms(3) e that reuse_result_name[of sz "reused_info sz ctx j" rc j']
        j by simp
      ultimately show ?thesis by blast
    qed (use ReuseBufferedMem_result[OF assms(1) G, of sz b ctx] ReuseBufferedMem_state[OF assms(1) G, of sz b ctx] True see1 assms(3) in simp)
  qed (use ReuseBufferedMem_result[OF assms(1) G, of sz b ctx] ReuseBufferedMem_state[OF assms(1) G, of sz b ctx] see1 assms(2,3)
      in \<open>simp split: if_splits\<close>)
qed

lemma sees_delete_all:
  fixes E :: "'w env"
  assumes "lease_inv Orph d" "sees n i r d"
  shows "sees n i r (snd (run_state (DeleteAllBufferedMem E) d))"
proof -
  have other: "keeps (sees n i r) (free_buffered E b (k, j))" if "mi_name j \<noteq> n" for b k j
    unfolding free_buffered_def LeaseFreeMemory_def repository_op
    using that by (intro sees_intros; simp)
  have "keeps (sees n i r) (for_each (buffered b (d_mls d)) (free_buffered E b))" for b
  proof (rule keeps_for_each)
    fix e assume e: "e \<in> set (buffered b (d_mls d))"
    obtain k j where "e = (k, j)" by (cases e)
    then show "keeps (sees n i r) (free_buffered E b e)" using other used_not_buffered[OF assms] e by blast
  qed
  from keeps_run[OF this[of False] keeps_run[OF this[of True] assms(2)]] show ?thesis
    using assms(2) by (simp add: DeleteAllBufferedMem_def buffered_def split_beta)
qed

interpretation bystander: lease_client E "kept_for Orph n i r pid" "\<lambda>m. m \<noteq> n" pid for E :: "'w env" and Orph n i r pid
proof (unfold_locales, goal_cases)
  case (1 d d')
  then show ?case by (simp add: kept_for_def sees_def lease_inv_def services_def)
next
  case (2 m ctx sz b p)
  show ?case
  proof (rule tripleI)
    fix d :: "'w daemon"
    assume "kept_for Orph n i r pid d"
    then show "kept_for Orph n i r pid (snd (run_state (PreAddUsedMem m sz ctx b p) d)) \<and>
      (fst (run_state (PreAddUsedMem m sz ctx b p) d) = 0 \<longrightarrow> m \<noteq> n)"
      using keeps_run[OF PreAddUsedMem_keeps[OF 2], of Orph d] sees_pre_add[OF _ 2(1) prod.collapse[symmetric], of n i r d]
      by (simp add: kept_for_def)
  qed
next
  case (3 m numa unit slot ids)
  show ?case by (rule keeps_for[OF FinishAddUsedMem_keeps]) (rule keeps_run[OF sees_methods(1)[OF 3]])
next
  case (4 m s)
  show ?case by (rule keeps_for[OF UpdateMemRecordState_keeps]) (rule keeps_run[OF sees_methods(2)[OF 4]])
next
  case (5 m)
  show ?case by (rule keeps_for[OF DeleteUsedMem_keeps]) (rule keeps_run[OF sees_methods(3)[OF 5]])
next
  case (6 m)
  show ?case by (rule keeps_for[OF PreDeleteUsedMem_keeps]) (rule sees_pre_delete[OF _ _ 6])
next
  case (7 ctx sz b region)
  show ?case
  proof (rule tripleI)
    fix d :: "'w daemon"
    assume K: "kept_for Orph n i r pid d"
    obtain rc found d' where R: "run_state (ReuseBufferedMem E sz b region ctx) d = ((rc, found), d')" by (metis surj_pair)
    then show "kept_for Orph n i r pid (snd (run_state (ReuseBufferedMem E sz b region ctx) d)) \<and>
      (\<forall>j. snd (fst (run_state (ReuseBufferedMem E sz b region ctx) d)) = Some j \<longrightarrow> mi_name j \<noteq> n)"
      using keeps_run[OF ReuseBufferedMem_keeps[OF 7], of Orph d E sz b region] sees_reuse[OF _ _ R, of Orph n i r] K
      by (simp add: kept_for_def)
  qed
next
  case 8
  show ?case by (rule keeps_for[OF DeleteAllBufferedMem_keeps]) (rule sees_delete_all)
next
  case (9 d m j)
  then show ?case using placed_used[OF lease_invD(2), of Orph d m j] by (auto simp: kept_for_def sees_def)
qed

section \<open>Allocation and release\<close>

definition in_use :: "AppContext \<Rightarrow> u64 \<Rightarrow> bool \<Rightarrow> string \<Rightarrow> 'w daemon \<Rightarrow> bool" where
  "in_use ctx sz b n d \<longleftrightarrow> (case map_of (usedMemory (d_mls d)) n of None \<Rightarrow> False
     | Some i \<Rightarrow> mi_appContext i = ctx \<and> mi_size i = sz \<and> mi_isNuma i = b \<and> mi_name i = n)"

lemma in_use_services: "preserves services m \<Longrightarrow> keeps (in_use ctx sz b n) m"
  by (erule services_keep) (simp add: in_use_def services_def)

lemma in_use_added: "triple (\<lambda>_. True) (PreAddUsedMem n sz ctx b p) (\<lambda>rc d. rc = 0 \<longrightarrow> in_use ctx sz b n d)"
  by (auto simp: triple_def PreAddUsedMem_def find_used_def repository_defs call_store_def in_use_def map_of_map_emplace
      MXM_ERR_SHM_ALREADY_EXIST_def MXM_ERR_RECORD_ADD_def split: prod.split)

lemma in_use_finished: "keeps (in_use ctx sz b n) (FinishAddUsedMem n numa unit slot ids)"
  by (auto simp: triple_def FinishAddUsedMem_def find_used_def repository_defs call_store_def in_use_def map_of_map_assign
      split: prod.split option.split)

abbreviation served :: "AppContext \<Rightarrow> u64 \<Rightarrow> bool \<Rightarrow> int \<times> AppMallocMemoryResponse \<Rightarrow> 'w daemon \<Rightarrow> bool" where
  "served ctx sz b a d \<equiv> fst a = 0 \<longrightarrow> in_use ctx sz b (AppMallocMemoryResp_name (snd a)) d \<and> AppMallocMemoryResp_errCode (snd a) = 0"

lemma served_failed: "rc \<noteq> 0 \<Longrightarrow> triple P (do { m; return (rc, resp) }) (served ctx sz b)"
  by (simp add: triple_def split_beta)

lemma served_end:
  "triple (in_use ctx sz b n) (return (MXM_OK, fill_response sz n result resp)) (served ctx sz b)"
  by (simp add: triple_def fill_response_def)

lemma triple_imp: "(\<not> b \<Longrightarrow> triple (\<lambda>_. True) m Q) \<Longrightarrow> (b \<Longrightarrow> triple P m Q) \<Longrightarrow> triple (\<lambda>d. b \<longrightarrow> P d) m Q"
  by (cases b) simp_all

text \<open>The end of both allocations, from the request to the engine on.\<close>

lemma served_finish:
  "triple (in_use ctx sz b n)
     (do { hr \<leftarrow> FinishAddUsedMem n numa unit slot ids;
           if hr \<noteq> 0 then do { RollBackBorrowNewMemory E n b; return (hr, set_code hr resp) }
           else return (MXM_OK, fill_response sz n result resp) }) (served ctx sz b)"
  by (rule triple_bind[OF in_use_finished]) (auto intro: served_failed served_end)

lemma served_engine:
  fixes engine :: "('w, int \<times> LeaseMallocResult) act"
  assumes "preserves services engine"
  shows "triple (in_use ctx sz b n)
     (do { (hr, result) \<leftarrow> engine;
           if hr \<noteq> 0 then do { DeleteUsedMem n; return (hr, set_code hr resp) }
           else do { hr \<leftarrow> FinishAddUsedMem n (lmr_numaId result) (unit result) (lmr_slotId result) (lmr_memIds result);
             if hr \<noteq> 0 then do { RollBackBorrowNewMemory E n b; return (hr, set_code hr resp) }
             else return (MXM_OK, fill_response sz n result resp) } }) (served ctx sz b)"
  by (rule triple_bind[OF in_use_services[OF assms]]) (auto intro: served_failed served_finish)

lemma served_new:
  fixes engine :: "string \<Rightarrow> ('w, int \<times> LeaseMallocResult) act"
  assumes "\<And>n. preserves services (engine n)"
  shows "triple (\<lambda>_. True)
     (do { n \<leftarrow> GenerateMemName E sz;
       hr \<leftarrow> PreAddUsedMem n sz ctx b p;
       if hr \<noteq> 0 then return (hr, set_code hr resp)
       else do { (hr, result) \<leftarrow> engine n;
           if hr \<noteq> 0 then do { DeleteUsedMem n; return (hr, set_code hr resp) }
           else do { hr \<leftarrow> FinishAddUsedMem n (lmr_numaId result) (unit result) (lmr_slotId result) (lmr_memIds result);
             if hr \<noteq> 0 then do { RollBackBorrowNewMemory E n b; return (hr, set_code hr resp) }
             else return (MXM_OK, fill_response sz n result resp) } } }) (served ctx sz b)"
proof (rule triple_bind[of _ _ "\<lambda>_ _. True"])
  show "triple (\<lambda>_. True) (GenerateMemName E sz) (\<lambda>_ _. True)" by (simp add: triple_def)
qed (rule triple_bind[OF in_use_added], rule triple_imp,
  auto intro: triple_return served_engine[OF assms])

lemma BorrowNewMemory_served:
  "triple (\<lambda>_. True) (BorrowNewMemory E req resp uds)
     (served (context_of uds) (AppMallocMemoryReq_size req) (AppMallocMemoryReq_isNuma req \<noteq> 0))"
  unfolding BorrowNewMemory_def Let_def LeaseMallocParam.simps by (rule served_new) (rule LeaseMalloc_frame)

lemma AppMallocMemoryWithLoc_served:
  "triple (\<lambda>_. True) (AppMallocMemoryWithLoc E req resp uds)
     (served (context_of uds) (AppMallocMemoryWithLocReq_size req) (AppMallocMemoryWithLocReq_isNuma req \<noteq> 0))"
proof -
  have "triple (\<lambda>_. True) (BorrowMemoryWithLender E req resp uds)
     (served (context_of uds) (AppMallocMemoryWithLocReq_size req) (AppMallocMemoryWithLocReq_isNuma req \<noteq> 0))"
    unfolding BorrowMemoryWithLender_def Let_def LeaseMallocWithLocParam.simps MXM_OK_def
    by (rule served_new[unfolded MXM_OK_def]) (rule LeaseMallocWithLoc_frame)
  then show ?thesis
    unfolding AppMallocMemoryWithLoc_def
    by (auto simp: MXM_ERR_PARAM_INVALID_def MXM_OK_def intro!: triple_return triple_bind)
qed

lemma in_use_reused:
  fixes E :: "'w env"
  assumes "lease_inv Orph d" "run_state (ReuseBufferedMem E sz b region ctx) d = ((rc, found), d')"
  shows "case found of None \<Rightarrow> rc \<noteq> 0 | Some j \<Rightarrow> in_use ctx sz b (mi_name j) d'"
proof -
  obtain hr slots d1 where G: "run_state (GetRegionInfo E region) d = ((hr, slots), d1)" by (metis surj_pair)
  have inv1: "lease_inv Orph d1" using keeps_run[OF frame_lease[OF GetRegionInfo_frame] assms(1), of E region] G by simp
  note result = ReuseBufferedMem_result[OF assms(1) G, of sz b ctx] ReuseBufferedMem_state[OF assms(1) G, of sz b ctx]
  show ?thesis
  proof (cases "isEnableLeaseBuffered (d_mls d) \<and> hr = 0 \<and> reuse_candidate sz b slots (d_mls d1) \<noteq> None")
    case True
    then obtain k i where c: "reuse_candidate sz b slots (d_mls d1) = Some (k, i)" by auto
    note B = placed_buffered[OF lease_invD(2)[OF inv1] reuse_candidateD(1)[OF c lease_invD(2)[OF inv1]]]
    have "map_of (usedMemory (d_mls d1)) (mi_name i) = None"
    proof (rule ccontr)
      assume "map_of (usedMemory (d_mls d1)) (mi_name i) \<noteq> None"
      then obtain j where "map_of (usedMemory (d_mls d1)) (mi_name i) = Some j" by auto
      from placed_used[OF lease_invD(2)[OF inv1] this] show False
        using lease_invD(3)[OF inv1] B unfolding agree_def inj_on_def by metis
    qed
    then have "in_use ctx sz b (mi_name i) (after_reuse sz b ctx k i d1)"
      using B by (simp add: in_use_def after_reuse_def map_of_map_emplace del: exec_op.simps)
    moreover have "(rc, found) = reuse_result sz (reused_info sz ctx i)" "d' = after_reuse sz b ctx k i d1"
      using result True c assms(2) by simp_all
    ultimately show ?thesis by (auto simp: reuse_result_def Let_def split: if_splits)
  next
    case False
    then have "found = None \<and> rc \<noteq> 0"
      using result(1) assms(2) by (cases "reuse_candidate sz b slots (d_mls d1)") (auto split: if_splits)
    then show ?thesis by simp
  qed
qed

lemma ReuseCachedLeaseMemory_served:
  fixes E :: "'w env"
  shows "triple (lease_inv Orph) (ReuseCachedLeaseMemory E sz region b ctx resp) (served ctx sz b)"
proof -
  have reuse: "triple (lease_inv Orph) (ReuseBufferedMem E sz b region ctx)
     (\<lambda>a d. case snd a of None \<Rightarrow> fst a \<noteq> 0 | Some j \<Rightarrow> in_use ctx sz b (mi_name j) d)"
  proof (rule tripleI)
    fix d :: "'w daemon"
    assume inv: "lease_inv Orph d"
    obtain rc found d' where R: "run_state (ReuseBufferedMem E sz b region ctx) d = ((rc, found), d')" by (metis surj_pair)
    show "case snd (fst (run_state (ReuseBufferedMem E sz b region ctx) d)) of None \<Rightarrow> fst (fst (run_state (ReuseBufferedMem E sz b region ctx) d)) \<noteq> 0
      | Some j \<Rightarrow> in_use ctx sz b (mi_name j) (snd (run_state (ReuseBufferedMem E sz b region ctx) d))"
      using in_use_reused[OF inv R] unfolding R by (cases found) simp_all
  qed
  have given: "triple (in_use ctx sz b n) (return (MXM_OK, resp)) (served ctx sz b)"
    if "AppMallocMemoryResp_name resp = n" "AppMallocMemoryResp_errCode resp = 0" for n resp
    using that by (simp add: triple_def)
  have fd: "triple (in_use ctx sz b (mi_name j))
     (do { hr \<leftarrow> FdPermissionChange E (mi_name j) ctx mode;
        if hr \<noteq> 0 then do { RollBackReuseCacheMemory E (mi_name j) c; return (hr, set_code hr resp) }
        else return (MXM_OK, resp) }) (served ctx sz b)"
    if "AppMallocMemoryResp_name resp = mi_name j" "AppMallocMemoryResp_errCode resp = 0" for j mode c resp
    using that by (intro triple_bind[OF in_use_services[OF FdPermissionChange_frame]]) (auto intro: served_failed given)
  show ?thesis
    unfolding ReuseCachedLeaseMemory_def Let_def
  proof (rule triple_bind[OF reuse], goal_cases)
    case (1 a)
    obtain rc found where a: "a = (rc, found)" by (cases a)
    show ?case
    proof (cases found)
      case (Some j)
      show ?thesis unfolding a Some prod.case option.case snd_conv by (intro triple_if fd given) simp_all
    qed (simp add: a triple_def)
  qed
qed

lemma AppMallocMemory_served:
  fixes E :: "'w env"
  shows "triple (lease_inv Orph) (AppMallocMemory E req resp uds)
     (served (context_of uds) (AppMallocMemoryReq_size req) (AppMallocMemoryReq_isNuma req \<noteq> 0))"
proof -
  have new: "triple P (BorrowNewMemory E req resp uds)
     (served (context_of uds) (AppMallocMemoryReq_size req) (AppMallocMemoryReq_isNuma req \<noteq> 0))" for P resp
    by (rule triple_conseq[OF BorrowNewMemory_served]) simp_all
  have "triple (lease_inv Orph) (BorrowMemory E req resp uds)
     (served (context_of uds) (AppMallocMemoryReq_size req) (AppMallocMemoryReq_isNuma req \<noteq> 0))"
    unfolding BorrowMemory_def MXM_OK_def
    by (rule triple_bind[OF ReuseCachedLeaseMemory_served]) (auto intro!: triple_return new)
  then show ?thesis
    unfolding AppMallocMemory_def
    by (auto simp: MXM_ERR_PARAM_INVALID_def MXM_OK_def intro!: triple_return triple_bind)
qed

text \<open>The lease is gone, or kept for reuse without an owner.\<close>

definition released :: "MLSMemInfo \<Rightarrow> 'w daemon \<Rightarrow> bool" where
  "released i d \<longleftrightarrow> map_of (usedMemory (d_mls d)) (mi_name i) = None \<and>
     (leases (d_store d) (mi_name i) = None \<or> kept_info i \<in> snd ` set (buffered (mi_isNuma i) (d_mls d)))"

definition still_in_use :: "MLSMemInfo \<Rightarrow> 'w daemon \<Rightarrow> bool" where
  "still_in_use i d \<longleftrightarrow> (\<exists>s. map_of (usedMemory (d_mls d)) (mi_name i) = Some (i\<lparr>mi_state := s\<rparr>))"

lemma same_state: "(i :: MLSMemInfo)\<lparr>mi_state := mi_state i\<rparr> = i"
  by simp

lemma still_in_use_services: "preserves services m \<Longrightarrow> keeps (still_in_use i) m"
  by (erule services_keep) (simp add: still_in_use_def services_def)

lemma DeleteUsedMem_run:
  assumes "lease_inv Orph d" "map_of (usedMemory (d_mls d)) n = Some i"
  shows "fst (run_state (DeleteUsedMem n) d) = 0" "released i (snd (run_state (DeleteUsedMem n) d))"
proof -
  note U = placed_used[OF lease_invD(2)[OF assms(1)] assms(2)]
  have ok: "fst (exec_op (OpDelLease n) (d_store d)) = 0" using held_call_ok(3)[OF assms(1) conjunct1[OF U]] U by (simp del: exec_op.simps)
  then have "leases (snd (exec_op (OpDelLease n) (d_store d))) n = None"
    using lease_call(2)[OF lease_invD(1)[OF assms(1)], of "OpDelLease n"] by (simp del: exec_op.simps)
  then show "fst (run_state (DeleteUsedMem n) d) = 0" "released i (snd (run_state (DeleteUsedMem n) d))"
    using assms(2) ok U by (simp_all add: DeleteUsedMem_def find_used_def repository_op released_def map_of_erase del: exec_op.simps)
qed

lemma UpdateMemRecordState_in_use: "keeps (still_in_use i) (UpdateMemRecordState (mi_name i) s)"
  by (auto simp: triple_def UpdateMemRecordState_def find_used_def repository_defs call_store_def still_in_use_def
      map_of_map_assign split: prod.split)

lemma free_engine_spec:
  fixes E :: "'w env"
  assumes "lease_inv Orph d" "map_of (usedMemory (d_mls d)) n = Some i"
    "run_state (do {
       hr \<leftarrow> LeaseFree E n b;
       if hr \<noteq> 0 \<and> hr \<noteq> MXM_ERR_LEASE_NOT_EXIST then do {
         UpdateMemRecordState (mi_name i) FINISH;
         return (hr, common_code hr resp) }
       else do {
         hr \<leftarrow> DeleteUsedMem n;
         if hr \<noteq> 0 then return (hr, common_code hr resp)
         else return (0, common_code 0 resp) } }) d = ((ret, resp'), d')"
  shows "(ret = 0 \<longrightarrow> released i d') \<and> (ret \<noteq> 0 \<longrightarrow> still_in_use i d')"
proof -
  obtain hr d1 where F: "run_state (LeaseFree E n b) d = (hr, d1)" by (metis surj_pair)
  have inv1: "lease_inv Orph d1" and use1: "map_of (usedMemory (d_mls d1)) n = Some i"
    using keeps_run[OF frame_lease[OF LeaseFree_frame] assms(1), of E n b] preserves_run[OF LeaseFree_frame, of E n b d] F assms(2)
    by (simp_all add: services_def)
  have n: "mi_name i = n" using placed_used[OF lease_invD(2)[OF inv1] use1] by blast
  have "still_in_use i d1" using use1 n same_state[of i] unfolding still_in_use_def by metis
  from keeps_run[OF UpdateMemRecordState_in_use this]
  show ?thesis
    using assms(3) F DeleteUsedMem_run[OF inv1 use1] n
    by (cases "hr \<noteq> 0 \<and> hr \<noteq> MXM_ERR_LEASE_NOT_EXIST") (auto simp: split_beta)
qed

lemma kept_key_fresh:
  assumes "lease_inv Orph d" "map_of (usedMemory (d_mls d)) n = Some i"
  shows "map_of (buffered b (d_mls d)) (info_key (kept_info i)) = None"
proof (rule ccontr)
  note P = lease_invD(2)[OF assms(1)] and U = placed_used[OF lease_invD(2)[OF assms(1)] assms(2)]
  assume "map_of (buffered b (d_mls d)) (info_key (kept_info i)) \<noteq> None"
  then obtain j where "(info_key (kept_info i), j) \<in> set (buffered b (d_mls d))" by (auto dest: map_of_SomeD)
  from placed_buffered[OF P this] have "j \<in> held (d_mls d)" "info_key (kept_info i) = info_key j" "info_pid j = 0" by blast+
  moreover from this(2) have "mi_name j = mi_name i" by (simp add: info_key_def kept_info_def)
  ultimately show False using U lease_invD(3)[OF assms(1)] unfolding agree_def inj_on_def by metis
qed

lemma PreDeleteUsedMem_released:
  assumes "lease_inv Orph d" "map_of (usedMemory (d_mls d)) n = Some i" "run_state (PreDeleteUsedMem n) d = (rc, d')"
  shows "(rc = 1 \<and> released i d') \<or> (rc = 0 \<and> map_of (usedMemory (d_mls d')) n = Some i)"
proof (cases "can_keep (d_mls d) (mi_isNuma i)")
  case True
  note run = assms(3)[unfolded PreDeleteUsedMem_run[OF assms(1,2)]]
  have n: "mi_name i = n" using placed_used[OF lease_invD(2)[OF assms(1)] assms(2)] by blast
  have "kept_info i \<in> snd ` set (map_emplace (info_key (kept_info i)) (kept_info i) (buffered (mi_isNuma i) (d_mls d)))"
    using set_map_emplace[OF kept_key_fresh[OF assms(1,2)]] by simp
  then show ?thesis using run True n by (auto simp: released_def map_of_erase simp del: exec_op.simps)
next
  case False
  then show ?thesis using assms(2,3) unfolding PreDeleteUsedMem_run[OF assms(1,2)] by auto
qed

lemma AppFreeMemory_spec:
  fixes E :: "'w env"
  assumes inv: "lease_inv Orph d" and used: "map_of (usedMemory (d_mls d)) (AppFreeMemoryReq_name req) = Some i"
    and own: "IsSameApp (mi_appContext i) uds" and run: "run_state (AppFreeMemory E req resp uds) d = ((ret, resp'), d')"
  shows "(ret = 0 \<longrightarrow> released i d') \<and> (ret \<noteq> 0 \<longrightarrow> still_in_use i d')"
proof -
  let ?n = "AppFreeMemoryReq_name req"
  have n: "mi_name i = ?n" using placed_used[OF lease_invD(2)[OF inv] used] by blast
  have here: "still_in_use i d" using used n same_state[of i] unfolding still_in_use_def by metis
  let ?perm = "if \<not> mi_isNuma i then FdPermissionChange E ?n (os_self E) (S_IRUSR OR S_IWUSR) else return 0"
  obtain hr d1 where perm: "run_state ?perm d = (hr, d1)" by (metis surj_pair)
  have frame: "preserves services ?perm" by (intro allI frame_intros frame_keeps[OF FdPermissionChange_frame])
  have inv1: "lease_inv Orph d1" and used1: "map_of (usedMemory (d_mls d1)) ?n = Some i"
    using keeps_run[OF frame_lease[OF frame] inv] preserves_run[OF frame, of d] perm used by (simp_all add: services_def)
  have here1: "still_in_use i d1" using keeps_run[OF still_in_use_services[OF frame] here] perm by simp
  obtain rc d2 where pre: "run_state (PreDeleteUsedMem ?n) d1 = (rc, d2)" by (metis surj_pair)
  have inv2: "lease_inv Orph d2" using keeps_run[OF PreDeleteUsedMem_keeps inv1, of ?n] pre by simp
  define give_back where "give_back = do {
      hr \<leftarrow> LeaseFree E ?n (mi_isNuma i);
      if hr \<noteq> 0 \<and> hr \<noteq> MXM_ERR_LEASE_NOT_EXIST then do {
        UpdateMemRecordState (mi_name i) FINISH;
        return (hr, common_code hr resp) }
      else do {
        hr \<leftarrow> DeleteUsedMem ?n;
        if hr \<noteq> 0 then return (hr, common_code hr resp)
        else return (0, common_code 0 resp) } }"
  note P = PreDeleteUsedMem_released[OF inv1 used1 pre]
    and F = free_engine_spec[OF inv2, of ?n i E "mi_isNuma i" resp ret resp' d', folded give_back_def]
  show ?thesis
  proof (cases "?n = [] \<or> busy_name ?n (d_mon d) \<or> mi_state i = DELETED")
    case True
    then show ?thesis
      using run here used own DeleteUsedMem_run[OF inv used]
      by (auto simp: AppFreeMemory_def GetDelayRemoveRecord_def GetUsedMemByName_def find_used_def Let_def MXM_OK_def
          MXM_ERR_PARAM_INVALID_def MXM_ERR_NAME_BUSY_def split_beta split: if_splits)
  next
    case False
    then have run: "run_state (do { hr \<leftarrow> ?perm;
        if hr \<noteq> 0 then return (hr, common_code hr resp)
        else do {
          ret \<leftarrow> PreDeleteUsedMem ?n;
          if ret = 0 then give_back
          else return (0, common_code 0 resp) } }) d = ((ret, resp'), d')"
      using run used own unfolding give_back_def
      by (simp add: AppFreeMemory_def GetDelayRemoveRecord_def GetUsedMemByName_def find_used_def Let_def)
    show ?thesis
      using run P here1 F unfolding run_bind perm fst_conv snd_conv by (cases "hr = 0"; cases "rc = 0") (auto simp: pre)
  qed
qed

end
