(* ===== verification/Shm_Requests.thy ===== *)
theory Shm_Requests
  imports Shm_Inv Lease_Props
begin

text \<open>
  Requests for shared memory and regions, and what all of them keep: a property that the methods of
  the managers keep is kept by every request.
\<close>

section \<open>What the adapter may change\<close>

text \<open>Creating shared memory also advances the sequence number of the record file.\<close>

definition core :: "'w daemon \<Rightarrow> record_store \<times> mls_manager \<times> (string \<times> RegionInfo) list \<times> (string \<times> AttachedShareMemory) list" where
  "core d = ((d_store d)\<lparr>createSeqNo := 0\<rparr>, d_mls d, d_regions d, d_shm d)"

lemma store_inv_seq [simp]: "store_inv (st\<lparr>createSeqNo := x\<rparr>) \<longleftrightarrow> store_inv st"
  by (simp add: store_inv_defs)

lemma abs_of_seq [simp]: "abs_of (st\<lparr>createSeqNo := x\<rparr>) = abs_of st"
  by (simp add: abs_of_def)

lemma core_store:
  assumes "core d = core d'"
  shows "store_inv (d_store d') \<longleftrightarrow> store_inv (d_store d)" "abs_of (d_store d') = abs_of (d_store d)"
    "d_mls d' = d_mls d" "d_regions d' = d_regions d" "d_shm d' = d_shm d"
proof -
  have "(d_store d)\<lparr>createSeqNo := 0\<rparr> = (d_store d')\<lparr>createSeqNo := 0\<rparr>" using assms by (simp add: core_def)
  then show "store_inv (d_store d') \<longleftrightarrow> store_inv (d_store d)" "abs_of (d_store d') = abs_of (d_store d)"
    by (metis store_inv_seq, metis abs_of_seq)
qed (use assms in \<open>simp_all add: core_def\<close>)

lemma services_core: "preserves services m \<Longrightarrow> preserves core m"
  unfolding preserves_iff by (simp add: services_def core_def)

named_theorems core_frames \<open>actions of the adapter that change at most the sequence number\<close>

lemma core_keeps: "preserves core m \<Longrightarrow> keeps (\<lambda>d. core d = v) m"
  by blast

lemmas core_intros = keeps_intros adapter_frames[THEN services_core, THEN core_keeps]

lemma GenerateCreateSeqNo_core [core_frames]: "preserves core (GenerateCreateSeqNo slot)"
proof -
  have "preserves core (call_store GetCreateSeqNo)" by (simp add: triple_def call_store_def GetCreateSeqNo_def core_def)
  then show ?thesis unfolding GenerateCreateSeqNo_def by (intro allI core_intros) blast
qed

lemma FillUserInfo_core [core_frames]: "preserves core (FillUserInfo E ctx f mode)"
  unfolding FillUserInfo_def by (intro allI core_intros core_keeps[OF GenerateCreateSeqNo_core])

lemma ShmCreateWithAffinity_core [core_frames]: "preserves core (ShmCreateWithAffinity E p r f u s)"
  unfolding ShmCreateWithAffinity_def by (intro allI core_intros)

lemma Ubse_ShmCreate_core [core_frames]: "preserves core (Ubse_ShmCreate E p)"
  unfolding Ubse_ShmCreate_def
  by (intro allI core_intros core_keeps[OF FillUserInfo_core] core_keeps[OF ShmCreateWithAffinity_core])

lemma ShmCreateWithProvider_core [core_frames]: "preserves core (ShmCreateWithProvider E p)"
  unfolding ShmCreateWithProvider_def PrepareShmCreateWithProviderParams_def
  by (intro allI core_intros core_keeps[OF FillUserInfo_core])

lemma Ubse_ShmAttach_core [core_frames]: "preserves core (Ubse_ShmAttach E n u)"
  unfolding Ubse_ShmAttach_def by (intro allI core_intros) (auto split: list.split intro!: core_intros)

lemma core_keep: "preserves core m \<Longrightarrow> (\<And>d d'. core d = core d' \<Longrightarrow> I d \<Longrightarrow> I d') \<Longrightarrow> keeps I m"
  by (metis preserves_run tripleI)

section \<open>Requests\<close>

datatype shm_request =
  ReqMap ShmMapRequest
| ReqUnmap ShmUnmapRequest
| ReqCreate ShmCreateRequest
| ReqCreateWithProvider ShmCreateWithProviderRequest
| ReqDelete ShmDeleteRequest
| ReqAttach ShmAttachRequest
| ReqDetach ShmDetachRequest
| ReqCheckMap CheckShareMemoryMapRequest
| ReqRegionList
| ReqCreateRegion ShmCreateRegionRequest
| ReqLookupRegion ShmLookupRegionRequest
| ReqDestroyRegion ShmDestroyRegionRequest
| ReqLookup ShmLookupRequest
| ReqListLookup ShmListLookupRequest
| ReqSlotId
| ReqSuspend
| ReqResume

fun serve_shm :: "'w env \<Rightarrow> shm_request \<times> MxmComUdsInfo \<Rightarrow> ('w, int) act" where
  "serve_shm E (ReqMap r, uds) = do { (ret, _) \<leftarrow> ShmMap E r new_ShmMapResponse uds; return ret }"
| "serve_shm E (ReqUnmap r, uds) = do { (ret, _) \<leftarrow> ShmUnmap E r new_CommonResponse uds; return ret }"
| "serve_shm E (ReqCreate r, uds) = do { (ret, _) \<leftarrow> ShmCreate E r new_CommonResponse uds; return ret }"
| "serve_shm E (ReqCreateWithProvider r, uds) = do { (ret, _) \<leftarrow> Handle_ShmCreateWithProvider E r new_CommonResponse uds; return ret }"
| "serve_shm E (ReqDelete r, uds) = do { (ret, _) \<leftarrow> ShmDelete E r new_CommonResponse uds; return ret }"
| "serve_shm E (ReqAttach r, uds) = do { (ret, _) \<leftarrow> ShmAttach E r new_ShmAttachResponse uds; return ret }"
| "serve_shm E (ReqDetach r, uds) = do { (ret, _) \<leftarrow> ShmDetach E r new_CommonResponse uds; return ret }"
| "serve_shm E (ReqCheckMap r, uds) = do { (ret, _) \<leftarrow> AppCheckShareMemoryMap E r new_CommonResponse uds; return ret }"
| "serve_shm E (ReqRegionList, uds) = do { (ret, _) \<leftarrow> RegionLookupRegionList E new_ShmLookRegionListResponse; return ret }"
| "serve_shm E (ReqCreateRegion r, uds) = do { (ret, _) \<leftarrow> RegionCreateRegion r new_ShmCreateRegionResponse; return ret }"
| "serve_shm E (ReqLookupRegion r, uds) = do { (ret, _) \<leftarrow> RegionLookupRegion r new_ShmLookupRegionResponse; return ret }"
| "serve_shm E (ReqDestroyRegion r, uds) = do { (ret, _) \<leftarrow> RegionDestroyRegion r new_ShmDestroyRegionResponse; return ret }"
| "serve_shm E (ReqLookup r, uds) = do { (ret, _) \<leftarrow> Handle_ShmLookup E r new_ShmLookupResponse; return ret }"
| "serve_shm E (ReqListLookup r, uds) = do { (ret, _) \<leftarrow> Handle_ShmListLookup E r new_ShmListLookupResponse; return ret }"
| "serve_shm E (ReqSlotId, uds) = do { (ret, _) \<leftarrow> LookupLocalSlotId E new_LookupSlotIdResponse; return ret }"
| "serve_shm E (ReqSuspend, uds) = do { (ret, _) \<leftarrow> IpcSuspend new_CommonResponse uds; return ret }"
| "serve_shm E (ReqResume, uds) = do { (ret, _) \<leftarrow> IpcResume new_CommonResponse uds; return ret }"

text \<open>
  The names a request may give to a new record: not empty and without zero bytes, and for a region
  also short enough, since the store does not check them.
\<close>

fun named_request :: "shm_request \<Rightarrow> bool" where
  "named_request (ReqMap r) \<longleftrightarrow> clean_name (ShmMapReq_name r)"
| "named_request (ReqCreateRegion r) \<longleftrightarrow> good_name (ShmCreateRegionReq_regionName r)"
| "named_request _ \<longleftrightarrow> True"

lemma keeps_drop_refs: "(\<And>f :: record_store \<Rightarrow> int \<times> record_store. keeps P (call_store f)) \<Longrightarrow> keeps P (drop_refs n pids)"
  by (induction pids) (auto intro!: keeps_intros)

lemma RemoveMemoryInfo_unused: "keeps (\<lambda>d. \<not> uses d n pid) (RemoveMemoryInfo k force)"
proof -
  let ?P = "\<lambda>d. \<not> uses d n pid"
  have store: "keeps ?P (call_store f)" for f by (simp add: triple_def call_store_def uses_def split_beta)
  have map: "keeps ?P (update_shm (assign k (m\<lparr>am_pids := []\<rparr>)))" "keeps ?P (update_shm (erase k))" for m
    by (auto simp: triple_def uses_def map_of_assign map_of_erase)
  show ?thesis unfolding RemoveMemoryInfo_def find_shm_def by (intro keeps_intros keeps_drop_refs store map)
qed

locale shm_client =
  fixes E :: "'w env" and I :: "'w daemon \<Rightarrow> bool" and J :: "string \<Rightarrow> 'w daemon \<Rightarrow> bool" and pid :: u32
  assumes frame: "core d = core d' \<Longrightarrow> I d \<Longrightarrow> I d'"
    and frame_prepared: "core d = core d' \<Longrightarrow> J n d \<Longrightarrow> J n d'"
    and prepare: "clean_name n \<Longrightarrow>
      triple I (PrepareAddShareMemoryInfo n sz pid) (\<lambda>hr d. if hr = 0 then J n d else I d)"
    and full: "triple (J n) (AddFullShareMemoryInfo n pid res) (\<lambda>_. I)"
    and prepared: "J n d \<Longrightarrow> I d"
    and state: "s \<in> {PRE_DEL, FINISH} \<Longrightarrow> keeps I (UpdateShareMemoryRecordState n s)"
    and remove: "keeps I (RemoveMemoryInfo n force)"
    and add_user: "triple (\<lambda>d. I d \<and> \<not> uses d n pid) (AddMemoryUserInfo n pid) (\<lambda>_. I)"
    and remove_user: "triple I (RemoveMemoryUserInfo n pid) (\<lambda>ret d. I d \<and> (ret = 0 \<longrightarrow> \<not> uses d n pid))"
    and create_region: "good_name (ri_name r) \<Longrightarrow> keeps I (CreateRegionInfo r)"
    and delete_region: "keeps I (DeleteRegionInfo k)"
    and suspend: "keeps I (call_store (AddSuspendClient pid))"
    and resume: "keeps I (call_store (DelSuspendClient pid))"
begin

lemma service: "preserves core m \<Longrightarrow> keeps I m"
  by (erule core_keep) (rule frame)

lemma service_prepared: "preserves core m \<Longrightarrow> keeps (J n) m"
  by (erule core_keep) (rule frame_prepared)

lemmas client_intros = keeps_intros adapter_frames[THEN services_core, THEN service] core_frames[THEN service] remove
  create_region delete_region suspend resume

lemma states: "keeps I (UpdateShareMemoryRecordState n PRE_DEL)" "keeps I (UpdateShareMemoryRecordState n FINISH)"
  by (simp_all add: state)

lemma unused: "triple (\<lambda>d. I d \<and> \<not> uses d n pid) (RemoveMemoryInfo n force) (\<lambda>_ d. I d \<and> \<not> uses d n pid)"
  using remove RemoveMemoryInfo_unused by (rule triple_conj)

lemma roll_back_keeps: "keeps I (RollBackAttachShareMemory E n)"
  unfolding RollBackAttachShareMemory_def by (intro client_intros states)

lemma weaken: "triple I m Q \<Longrightarrow> triple (J n) m Q"
  by (erule triple_conseq) (auto intro: prepared)

lemma prepared_bind:
  assumes "clean_name n" "\<And>hr. hr \<noteq> 0 \<Longrightarrow> keeps I (f hr)" "triple (J n) (f 0) (\<lambda>_. I)"
  shows "keeps I (State_Monad.bind (PrepareAddShareMemoryInfo n sz pid) f)"
proof (rule triple_bind[OF prepare[OF assms(1)]])
  fix hr
  show "triple (\<lambda>d. if hr = 0 then J n d else I d) (f hr) (\<lambda>_. I)" using assms(2,3) by (cases "hr = 0") simp_all
qed

lemma attach_bind:
  "(\<And>a. triple (J n) (f a) (\<lambda>_. I)) \<Longrightarrow> triple (J n) (State_Monad.bind (Ubse_ShmAttach E k u) f) (\<lambda>_. I)"
  by (rule triple_bind[OF service_prepared[OF Ubse_ShmAttach_core]])

lemma full_bind:
  "(\<And>a. keeps I (f a)) \<Longrightarrow> triple (J n) (State_Monad.bind (AddFullShareMemoryInfo n pid r) f) (\<lambda>_. I)"
  by (rule triple_bind[OF full])

lemma map_inner_keeps:
  assumes "clean_name (ip_name p)" "app_pid (ip_appContext p) = pid"
  shows "keeps I (ShmMmapInner E p)"
proof -
  let ?n = "ip_name p"
  have rest: "triple (J ?n)
     (do { (hr, result) \<leftarrow> Ubse_ShmAttach E ?n info;
           if hr \<noteq> 0 then do { RemoveMemoryInfo ?n False; return (fail hr result) }
           else do {
             hr \<leftarrow> AddFullShareMemoryInfo ?n pid (res result);
             if hr \<noteq> 0 then do { RollBackAttachShareMemory E ?n; return (fail hr result) }
             else return (done' result) } }) (\<lambda>_. I)" for info res and fail done' :: "_ \<Rightarrow> _"
  proof (rule attach_bind)
    fix a :: "int \<times> AttachShmResult"
    show "triple (J ?n) (case a of (hr, result) \<Rightarrow>
           if hr \<noteq> 0 then do { RemoveMemoryInfo ?n False; return (fail hr result) }
           else do {
             hr \<leftarrow> AddFullShareMemoryInfo ?n pid (res result);
             if hr \<noteq> 0 then do { RollBackAttachShareMemory E ?n; return (fail hr result) }
             else return (done' result) }) (\<lambda>_. I)"
      unfolding split_beta
      by (rule triple_if) (rule weaken full_bind, intro client_intros roll_back_keeps)+
  qed
  show ?thesis
    unfolding ShmMmapInner_def assms(2) Let_def
    by (rule prepared_bind[OF assms(1)] client_intros | simp | rule rest)+
qed

lemma found: "triple I (GetShareMemoryInfo n) (\<lambda>a d. I d \<and> (\<forall>m. snd a = Some m \<longrightarrow> map_of (d_shm d) n = Some m))"
  by (intro tripleI) (auto simp: GetShareMemoryInfo_def find_shm_def)

lemma existing_keeps:
  assumes "uds_pid uds = pid"
  shows "triple (\<lambda>d. I d \<and> map_of (d_shm d) (ShmMapReq_name req) = Some m) (HandleExistingShm req resp uds m) (\<lambda>_. I)"
proof -
  have "triple (\<lambda>d. I d \<and> map_of (d_shm d) (ShmMapReq_name req) = Some m) (AddMemoryUserInfo (ShmMapReq_name req) pid) (\<lambda>_. I)"
    if "pid \<notin> set (am_pids m)"
    by (rule triple_conseq[OF add_user]) (use that in \<open>auto simp: uses_def\<close>)
  then show ?thesis
    unfolding HandleExistingShm_def assms by (auto intro!: triple_if triple_bind[where R = "\<lambda>_. I"] triple_return)
qed

lemma map_new_keeps:
  assumes "clean_name (ShmMapReq_name req)" "uds_pid uds = pid"
  shows "keeps I (map_new E req resp uds)"
  unfolding map_new_def using assms by (intro client_intros map_inner_keeps) (simp_all add: context_of_def)

lemma map_keeps:
  assumes "clean_name (ShmMapReq_name req)" "uds_pid uds = pid"
  shows "keeps I (ShmMap E req resp uds)"
proof -
  let ?n = "ShmMapReq_name req" and ?P = "\<lambda>a d. I d \<and> (\<forall>m. snd a = Some m \<longrightarrow> map_of (d_shm d) (ShmMapReq_name req) = Some m)"
  have new: "keeps I (map_new E req r uds)" for r by (rule map_new_keeps[OF assms])
  have step: "triple (?P a) (case a of (ret, memory) \<Rightarrow> (case memory of
         None \<Rightarrow> map_new E req r uds
       | Some memory \<Rightarrow>
           if am_state memory = FINISH then HandleExistingShm req r uds memory
           else if am_state memory = DELETED then do {
             ret \<leftarrow> RemoveMemoryInfo (am_name memory) True;
             if ret \<noteq> 0 then return (ret, map_code ret r) else map_new E req r uds }
           else map_new E req r uds)) (\<lambda>_. I)" for a r
  proof (cases "snd a")
    case None
    then show ?thesis using triple_conseq[OF new, of "?P a"] by (simp add: split_beta)
  next
    case (Some m)
    have w: "triple (\<lambda>d. I d \<and> P d) act (\<lambda>_. I)" if "keeps I act" for P and act :: "('w, int \<times> ShmMapResponse) act"
      by (rule triple_conseq[OF that]) auto
    have "triple (?P a) (HandleExistingShm req r uds m) (\<lambda>_. I)"
      by (rule triple_conseq[OF existing_keeps[OF assms(2)]]) (use Some in auto)
    then show ?thesis using Some by (simp add: split_beta) (intro conjI impI w client_intros new)
  qed
  show ?thesis
    unfolding ShmMap_def Let_def GetDelayRemoveRecord_def by (rule triple_bind[OF found step] keeps_intros)+
qed

lemma unmap_inner_keeps:
  assumes "uds_pid uds = pid"
  shows "keeps I (ShmUnMapInner E n uds)"
proof -
  have last: "triple (\<lambda>d. I d \<and> \<not> uses d n pid) (do { ret \<leftarrow> RemoveMemoryInfo n False;
           if ret \<noteq> MXM_OK then do { AddMemoryUserInfo n pid; return ret } else return MXM_OK }) (\<lambda>_. I)"
    by (rule triple_bind[OF unused]) (auto intro!: triple_if triple_bind[OF add_user] triple_return)
  have user: "keeps I (do { ret \<leftarrow> RemoveMemoryUserInfo n pid;
         if ret \<noteq> MXM_OK then return ret
         else do {
           ret \<leftarrow> RemoveMemoryInfo n False;
           if ret \<noteq> MXM_OK then do { AddMemoryUserInfo n pid; return ret } else return MXM_OK } })"
    by (rule triple_bind[OF remove_user], rule triple_if, rule triple_return, simp)
      (rule triple_conseq[OF last], simp_all add: MXM_OK_def)
  show ?thesis unfolding ShmUnMapInner_def assms by (rule user client_intros states)+
qed

lemma unmap_keeps:
  assumes "uds_pid uds = pid"
  shows "keeps I (ShmUnmap E req resp uds)"
proof -
  have "keeps I (RemoveMemoryUserInfo n pid)" for n by (rule triple_conseq[OF remove_user]) auto
  then show ?thesis
    unfolding ShmUnmap_def GetShareMemoryInfo_def GetMemoryUsersCountByName_def find_shm_def assms
    by (intro client_intros unmap_inner_keeps assms)
qed

lemma serve_keeps:
  assumes "uds_pid uds = pid" "named_request req"
  shows "keeps I (serve_shm E (req, uds))"
proof (cases req)
  case (ReqCreate r)
  have "keeps I (providers k desc)" for k desc
    unfolding providers_def RegionManager_GetRegionInfo_def by (intro client_intros)
  then show ?thesis
    unfolding ReqCreate serve_shm.simps ShmCreate_def GetDelayRemoveRecord_def Let_def
    by (auto intro!: client_intros split: sum.split)
next
  case (ReqDelete r)
  show ?thesis
    unfolding ReqDelete serve_shm.simps ShmDelete_def GetDelayRemoveRecord_def ShmPermissionCheck_def GetMemoryUsersCountByName_def find_shm_def
    by (intro client_intros)
next
  case (ReqCheckMap r)
  show ?thesis
    unfolding ReqCheckMap serve_shm.simps AppCheckShareMemoryMap_def CleanNotUsedRecordShareMemory_def GetMemoryUsersByPid_def
    by (intro client_intros unmap_keeps assms(1))
qed (use assms in \<open>auto simp: Handle_ShmCreateWithProvider_def GetDelayRemoveRecord_def ShmAttach_def ShmDetach_def
    RegionLookupRegionList_def RegionCreateRegion_def RegionLookupRegion_def RegionManager_GetRegionInfo_def RegionDestroyRegion_def
    Handle_ShmLookup_def Handle_ShmListLookup_def LookupLocalSlotId_def IpcSuspend_def IpcResume_def Let_def
    intro!: client_intros map_keeps unmap_keeps suspend[folded assms(1)] resume[folded assms(1)]\<close>)

end

end
