(* ===== verification/Daemon_Inv.thy ===== *)
theory Daemon_Inv
  imports Shm_Requests
begin

text \<open>
  The services together: leases, shared memory and regions share the record store, and every
  request of any of them keeps the invariants of all.
\<close>

section \<open>The part of each service\<close>

definition lease_part :: "'w daemon \<Rightarrow> mls_manager \<times> (string \<rightharpoonup> LeaseMallocInput \<times> LeaseMallocResult)" where
  "lease_part d = (d_mls d, leases (d_store d))"

definition shm_part :: "'w daemon \<Rightarrow> (string \<times> AttachedShareMemory) list \<times> (string \<rightharpoonup> ShareMemImportInfo) \<times> (string \<Rightarrow> u32 \<Rightarrow> nat)" where
  "shm_part d = (d_shm d, shm_imports (d_store d), shm_refs (d_store d))"

definition region_part :: "'w daemon \<Rightarrow> (string \<times> RegionInfo) list \<times> (string \<rightharpoonup> CreateRegionInput)" where
  "region_part d = (d_regions d, as_regions (abs_of (d_store d)))"

lemmas part_defs = lease_part_def shm_part_def region_part_def

text \<open>An action that keeps the store well-formed and a part of the daemon unchanged.\<close>

definition calm :: "('w daemon \<Rightarrow> 'v) \<Rightarrow> ('w, 'a) act \<Rightarrow> bool" where
  "calm part m \<longleftrightarrow> (\<forall>v. keeps (\<lambda>d. store_inv (d_store d) \<and> part d = v) m)"

named_theorems calm_intros \<open>actions that leave a part alone\<close>

lemma calm_bind [calm_intros]: "calm part m \<Longrightarrow> (\<And>a. calm part (f a)) \<Longrightarrow> calm part (State_Monad.bind m f)"
  unfolding calm_def by (auto intro: keeps_bind)

lemma calm_return [calm_intros]: "calm part (return a)"
  by (simp add: calm_def keeps_return)

lemma calm_gets [calm_intros]: "calm part (gets f)"
  by (simp add: calm_def keeps_gets)

lemma calm_if [calm_intros]: "(b \<Longrightarrow> calm part m) \<Longrightarrow> (\<not> b \<Longrightarrow> calm part m') \<Longrightarrow> calm part (if b then m else m')"
  by simp

lemma calm_option [calm_intros]:
  "(x = None \<Longrightarrow> calm part m) \<Longrightarrow> (\<And>a. x = Some a \<Longrightarrow> calm part (f a)) \<Longrightarrow> calm part (case x of None \<Rightarrow> m | Some a \<Rightarrow> f a)"
  by (cases x) simp_all

lemma calm_prod [calm_intros]: "(\<And>a b. x = (a, b) \<Longrightarrow> calm part (f a b)) \<Longrightarrow> calm part (case x of (a, b) \<Rightarrow> f a b)"
  by (cases x) simp

lemma calm_let [calm_intros]: "(\<And>x. x = e \<Longrightarrow> calm part (f x)) \<Longrightarrow> calm part (let x = e in f x)"
  by simp

lemma calm_for_each [calm_intros]: "(\<And>x. x \<in> set xs \<Longrightarrow> calm part (f x)) \<Longrightarrow> calm part (for_each xs f)"
  by (induction xs) (simp_all add: calm_return calm_bind)

lemma calm_part:
  assumes "calm part m" "\<And>d. I d \<Longrightarrow> store_inv (d_store d)"
    and "\<And>d d'. store_inv (d_store d') \<Longrightarrow> part d' = part d \<Longrightarrow> I d \<Longrightarrow> I d'"
  shows "keeps I m"
proof (rule tripleI)
  fix d
  assume I: "I d"
  have "keeps (\<lambda>d'. store_inv (d_store d') \<and> part d' = part d) m" using assms(1) by (simp add: calm_def)
  from keeps_run[OF this, of d] show "I (snd (run_state m d))" using assms(2)[OF I] assms(3)[OF _ _ I] by simp
qed

definition not_lease :: "'w daemon \<Rightarrow> _" where "not_lease d = (shm_part d, region_part d)"

definition not_shm :: "'w daemon \<Rightarrow> _" where "not_shm d = (lease_part d, region_part d)"

definition not_region :: "'w daemon \<Rightarrow> _" where "not_region d = (lease_part d, shm_part d)"

lemmas not_defs = not_lease_def not_shm_def not_region_def

lemma core_parts:
  assumes "core d = core d'"
  shows "not_lease d = not_lease d'" "not_shm d = not_shm d'" "not_region d = not_region d'"
  using core_store[OF assms] by (simp_all add: not_defs part_defs)

lemma calm_frame:
  assumes "preserves core m"
  shows "calm not_lease m" "calm not_shm m" "calm not_region m"
proof -
  have "calm part m" if "\<And>d d'. core d = core d' \<Longrightarrow> part d = part d'" for part :: "'a daemon \<Rightarrow> 'v"
    unfolding calm_def
  proof (intro allI core_keep[OF assms])
    fix v and d d' :: "'a daemon"
    assume "core d = core d'" "store_inv (d_store d) \<and> part d = v"
    then show "store_inv (d_store d') \<and> part d' = v" using core_store(1)[of d d'] that[of d d'] by simp
  qed
  from this[of not_lease] this[of not_shm] this[of not_region]
  show "calm not_lease m" "calm not_shm m" "calm not_region m" using core_parts by blast+
qed

lemmas calm_services = calm_frame[OF services_core]

section \<open>Calls of the store\<close>

lemma call_calm:
  assumes "op_named op" "\<And>A. f (abs_op op A) = f A" "\<And>d st. part (d\<lparr>d_store := st\<rparr>) = g d (f (abs_of st))"
  shows "calm part (call_store (exec_op op))"
proof -
  have at: "part d = g d (f (abs_of (d_store d)))" for d using assms(3)[where d = d and st = "d_store d"] by simp
  have eff: "f (abs_of (snd (exec_op op st))) = f (abs_of st)" if "store_inv st" for st
    using exec_call(2)[OF that assms(1)] assms(2) by simp
  have "part (d\<lparr>d_store := snd (exec_op op (d_store d))\<rparr>) = part d" if "store_inv (d_store d)" for d
    by (rule trans[OF assms(3)]) (simp add: eff[OF that] at[of d])
  then show ?thesis using exec_call(1)[OF _ assms(1)] by (simp add: calm_def triple_def)
qed

fun lease_op :: "store_op \<Rightarrow> bool" where
  "lease_op (OpAddLease _) = True" | "lease_op (OpLeaseResult _ _) = True" | "lease_op (OpLeaseState _ _) = True"
| "lease_op (OpLeaseUpdate _ _ _) = True" | "lease_op (OpDelLease _) = True" | "lease_op _ = False"

fun region_op :: "store_op \<Rightarrow> bool" where
  "region_op (OpAddRegion _) = True" | "region_op (OpDelRegion _) = True" | "region_op _ = False"

lemma calm_lease_op: "op_named op \<Longrightarrow> lease_op op \<Longrightarrow> calm not_lease (call_store (exec_op op))"
  by (rule call_calm[where f = "\<lambda>A. (as_imports A, as_refs A, as_regions A)"
        and g = "\<lambda>d (i, r, g). ((d_shm d, i, r), (d_regions d, g))"])
    (auto simp: not_defs part_defs elim: lease_op.elims)

lemma calm_region_op: "op_named op \<Longrightarrow> region_op op \<Longrightarrow> calm not_region (call_store (exec_op op))"
  by (rule call_calm[where f = "\<lambda>A. (as_leases A, as_imports A, as_refs A)"
        and g = "\<lambda>d (l, i, r). ((d_mls d, l), (d_shm d, i, r))"])
    (auto simp: not_defs part_defs elim: region_op.elims)

lemma calm_shm_op: "op_named op \<Longrightarrow> \<not> lease_op op \<Longrightarrow> \<not> region_op op \<Longrightarrow> calm not_shm (call_store (exec_op op))"
  by (rule call_calm[where f = "\<lambda>A. (as_leases A, as_regions A)" and g = "\<lambda>d (l, g). ((d_mls d, l), (d_regions d, g))"])
    (auto simp: not_defs part_defs elim!: region_op.elims lease_op.elims)

section \<open>Each manager leaves the other services alone\<close>

lemma calm_maps:
  "calm not_shm (modify (d_shm_update f))" "calm not_lease (modify (d_mls_update g))" "calm not_region (modify (d_regions_update h))"
  by (simp_all add: calm_def triple_def not_defs part_defs)

lemma calm_import:
  assumes "clean_name (smi_name input)"
  shows "calm not_shm (call_store (exec_op (OpAddImport input)))"
proof (cases "length (smi_name input) < RECORD_NAME_SIZE")
  case True
  then show ?thesis using clean_good[OF assms True] by (intro calm_shm_op) simp_all
next
  case False
  then show ?thesis unfolding call_store_def long_import[OF False] by (simp add: calm_def triple_def)
qed

lemma calm_drop_refs: "calm not_shm (drop_refs n pids)"
  by (induction pids) (simp_all add: shm_op calm_intros calm_shm_op del: exec_op.simps)

lemmas calm_shm_intros = calm_intros calm_maps(1) calm_shm_op calm_drop_refs calm_import

lemma shm_methods_calm:
  "calm not_shm (AddMemoryUserInfo n pid)" "calm not_shm (RemoveMemoryUserInfo n pid)"
  "calm not_shm (AddFullShareMemoryInfo n pid res)" "calm not_shm (UpdateShareMemoryRecordState n s)"
  "calm not_shm (RemoveMemoryInfo n force)" "clean_name n \<Longrightarrow> calm not_shm (PrepareAddShareMemoryInfo n sz pid)"
  "calm not_shm (call_store (AddSuspendClient pid))" "calm not_shm (call_store (DelSuspendClient pid))"
proof -
  show "calm not_shm (call_store (AddSuspendClient pid))" "calm not_shm (call_store (DelSuspendClient pid))"
    using calm_shm_op[of "OpSuspend pid"] calm_shm_op[of "OpResume pid"] by (simp_all add: call_store_def)
qed (unfold AddMemoryUserInfo_def RemoveMemoryUserInfo_def AddFullShareMemoryInfo_def UpdateShareMemoryRecordState_def
    RemoveMemoryInfo_def PrepareAddShareMemoryInfo_def find_shm_def shm_op,
    (intro calm_shm_intros; simp)+)

lemmas calm_lease_intros = calm_intros calm_maps(2) calm_lease_op adapter_frames[THEN calm_services(1)]

lemma lease_methods_calm:
  "good_name n \<Longrightarrow> calm not_lease (PreAddUsedMem n sz ctx b p)" "calm not_lease (FinishAddUsedMem n numa unit slot ids)"
  "calm not_lease (UpdateMemRecordState n s)" "calm not_lease (DeleteUsedMem n)" "calm not_lease (PreDeleteUsedMem n)"
  "calm not_lease (ReuseBufferedMem E sz b region ctx)" "calm not_lease (DeleteAllBufferedMem E)"
  unfolding PreAddUsedMem_def FinishAddUsedMem_def UpdateMemRecordState_def DeleteUsedMem_def PreDeleteUsedMem_def BufferUsedMemory_def
    ReuseBufferedMem_def ReuseMemInSlotId_def DeleteAllBufferedMem_def free_buffered_def LeaseFreeMemory_def find_used_def repository_op
  by (intro calm_lease_intros; simp)+

lemma region_ops:
  "AddRegionRecord input = exec_op (OpAddRegion input)" "DelRegionRecord k = exec_op (OpDelRegion k)"
  by (simp_all add: fun_eq_iff)

lemma region_methods_calm:
  "good_name (ri_name r) \<Longrightarrow> calm not_region (CreateRegionInfo r)" "calm not_region (DeleteRegionInfo k)"
  unfolding CreateRegionInfo_def UpdateRegionInfo_def DeleteRegionInfo_def RemoveRegionInfo_def region_ops
  by (intro calm_intros calm_maps(3) calm_region_op; simp)+

section \<open>The invariant of the daemon\<close>

definition daemon_inv :: "string set \<Rightarrow> string set \<Rightarrow> 'w daemon \<Rightarrow> bool" where
  "daemon_inv O1 O2 d \<longleftrightarrow> lease_safe O1 d \<and> shm_inv O2 d \<and> regions_inv d"

lemma calm_keeps:
  "calm not_lease m \<Longrightarrow> keeps (\<lambda>d. shm_inv O2 d \<and> regions_inv d) m"
  "calm not_shm m \<Longrightarrow> keeps (\<lambda>d. lease_safe O1 d \<and> regions_inv d) m"
  "calm not_region m \<Longrightarrow> keeps (\<lambda>d. lease_safe O1 d \<and> shm_inv O2 d) m"
  by (erule calm_part; simp add: not_defs part_defs shm_inv_def short_names_def regions_inv_def lease_safe_def lease_inv_def)+

lemma keeps_daemon:
  assumes "keeps (lease_safe O1) m" "calm not_lease m"
  shows "keeps (daemon_inv O1 O2) m"
  using triple_conj[OF assms(1) calm_keeps(1)[OF assms(2), of O2]] by (simp add: daemon_inv_def[abs_def])

interpretation whole_lease: lease_client E "daemon_inv O1 O2" "\<lambda>_. True" pid for E :: "'w env" and O1 O2 pid
proof (unfold_locales, goal_cases)
  case (1 d d')
  then have "core d = core d'" by (simp add: services_def core_def)
  then show ?case using 1 core_store[of d d']
    by (simp add: daemon_inv_def lease_safe_def lease_inv_def shm_inv_def short_names_def regions_inv_def)
next
  case (2 n ctx sz b p)
  have "keeps (lease_safe O1) (PreAddUsedMem n sz ctx b p)" using agreeing.pre_add[OF 2, of O1 sz b p] by simp
  from keeps_daemon[OF this lease_methods_calm(1)[OF 2(1)]] show ?case by simp
next
  case (9 d n i)
  then show ?case using agreeing.owner[of O1 d n i] by (simp add: daemon_inv_def)
next
  case (7 ctx sz b region)
  have "keeps (lease_safe O1) (ReuseBufferedMem E sz b region ctx)" using agreeing.reuse[OF 7, of O1 E sz b region] by simp
  from keeps_daemon[OF this lease_methods_calm(6)] show ?case by simp
qed (simp_all add: keeps_daemon[OF agreeing.finish[OF TrueI] lease_methods_calm(2)]
    keeps_daemon[OF agreeing.state[OF TrueI] lease_methods_calm(3)] keeps_daemon[OF agreeing.delete[OF TrueI] lease_methods_calm(4)]
    keeps_daemon[OF agreeing.pre_delete[OF TrueI] lease_methods_calm(5)] keeps_daemon[OF agreeing.delete_all lease_methods_calm(7)])

definition daemon_prepared :: "string set \<Rightarrow> string set \<Rightarrow> string \<Rightarrow> 'w daemon \<Rightarrow> bool" where
  "daemon_prepared O1 O2 n d \<longleftrightarrow> prepared O2 n d \<and> lease_safe O1 d \<and> regions_inv d"

lemma triple_daemon:
  assumes "triple P m Q" "calm not_shm m"
  shows "triple (\<lambda>d. P d \<and> lease_safe O1 d \<and> regions_inv d) m (\<lambda>a d. Q a d \<and> lease_safe O1 d \<and> regions_inv d)"
  using triple_conj[OF assms(1) calm_keeps(2)[OF assms(2), of O1]] .

lemma keeps_daemon_shm:
  assumes "keeps (shm_inv O2) m" "calm not_shm m"
  shows "keeps (daemon_inv O1 O2) m"
  by (rule triple_conseq[OF triple_daemon[OF assms]]) (auto simp: daemon_inv_def)

lemma keeps_daemon_region:
  assumes "keeps regions_inv m" "calm not_region m"
  shows "keeps (daemon_inv O1 O2) m"
  by (rule triple_conseq[OF triple_conj[OF assms(1) calm_keeps(3)[OF assms(2)]]]) (auto simp: daemon_inv_def)

lemma suspend_keeps:
  "keeps (shm_inv O2) (call_store (AddSuspendClient pid))" "keeps (shm_inv O2) (call_store (DelSuspendClient pid))"
proof -
  have "keeps (shm_inv O2) (call_store (exec_op op))" if "op_named op" "\<And>n. \<not> op_touches op n" for op
  proof (rule tripleI)
    fix d :: "'w daemon"
    assume "shm_inv O2 d"
    then show "shm_inv O2 (snd (run_state (call_store (exec_op op)) d))"
      using shm_step[OF _ that(1), of O2 d "[]" "d_shm d"] that call_untouched[OF shm_invD(1) that(1), of O2 d "[]"] shm_invD[of O2 d]
      by (simp add: same_at_def del: exec_op.simps)
  qed
  from this[of "OpSuspend pid"] this[of "OpResume pid"]
  show "keeps (shm_inv O2) (call_store (AddSuspendClient pid))" "keeps (shm_inv O2) (call_store (DelSuspendClient pid))"
    by (simp_all add: call_store_def)
qed

interpretation whole_shm: shm_client E "daemon_inv O1 O2" "daemon_prepared O1 O2" pid for E :: "'w env" and O1 O2 pid
proof (unfold_locales, goal_cases)
  case (1 d d')
  then show ?case using core_store[of d d']
    by (simp add: daemon_inv_def lease_safe_def lease_inv_def shm_inv_def short_names_def regions_inv_def)
next
  case (2 d d' n)
  then show ?case using core_store[of d d']
    by (simp add: daemon_prepared_def prepared_def lease_safe_def lease_inv_def shm_inv_def short_names_def regions_inv_def
        del: map_of_eq_Some_iff)
next
  case (3 n sz)
  show ?case by (rule triple_conseq[OF triple_daemon[OF PrepareAddShareMemoryInfo_keeps[OF 3, of O2] shm_methods_calm(6)[OF 3], where ?O1.0 = O1]])
      (auto simp: daemon_inv_def daemon_prepared_def)
next
  case (4 n res)
  show ?case by (rule triple_conseq[OF triple_daemon[OF AddFullShareMemoryInfo_keeps shm_methods_calm(3), where ?O1.0 = O1]])
      (auto simp: daemon_inv_def daemon_prepared_def)
next
  case (5 n d)
  then show ?case by (simp add: daemon_inv_def daemon_prepared_def prepared_def)
next
  case (8 n)
  show ?case by (rule triple_conseq[OF triple_daemon[OF AddMemoryUserInfo_keeps shm_methods_calm(1), where ?O1.0 = O1]])
      (auto simp: daemon_inv_def)
next
  case (9 n)
  show ?case by (rule triple_conseq[OF triple_daemon[OF RemoveMemoryUserInfo_keeps shm_methods_calm(2), where ?O1.0 = O1]])
      (auto simp: daemon_inv_def)
next
  case (10 r)
  have "keeps regions_inv (CreateRegionInfo r)" using CreateRegionInfo_run(1)[OF _ 10] by (rule tripleI)
  then show ?case using region_methods_calm(1)[OF 10] by (rule keeps_daemon_region)
next
  case (11 k)
  have "keeps regions_inv (DeleteRegionInfo k)" by (rule tripleI) (simp add: DeleteRegionInfo_run)
  then show ?case using region_methods_calm(2) by (rule keeps_daemon_region)
qed (simp_all add: keeps_daemon_shm[OF UpdateShareMemoryRecordState_keeps shm_methods_calm(4)]
    keeps_daemon_shm[OF RemoveMemoryInfo_keeps shm_methods_calm(5)] keeps_daemon_shm[OF suspend_keeps(1) shm_methods_calm(7)]
    keeps_daemon_shm[OF suspend_keeps(2) shm_methods_calm(8)])

section \<open>Any sequence of requests\<close>

datatype request = LeaseReq lease_request | ShmReq shm_request

fun serve :: "'w env \<Rightarrow> request \<times> MxmComUdsInfo \<Rightarrow> ('w, int) act" where
  "serve E (LeaseReq r, uds) = serve_lease E (r, uds)"
| "serve E (ShmReq r, uds) = serve_shm E (r, uds)"

fun good_request :: "request \<times> MxmComUdsInfo \<Rightarrow> bool" where
  "good_request (LeaseReq r, uds) \<longleftrightarrow> uds_pid uds \<noteq> 0"
| "good_request (ShmReq r, uds) \<longleftrightarrow> uds_pid uds \<noteq> 0 \<and> named_request r"

lemma request_keeps: "good_request r \<Longrightarrow> keeps (daemon_inv O1 O2) (serve E r)"
  by (cases "(E, r)" rule: serve.cases) (auto intro: whole_lease.serve_keeps whole_shm.serve_keeps)

definition serve_all :: "'w env \<Rightarrow> (request \<times> MxmComUdsInfo) list \<Rightarrow> ('w, unit) act" where
  "serve_all E rs = for_each rs (\<lambda>r. do { serve E r; return () })"

lemma serve_all_keeps: "\<forall>r\<in>set rs. good_request r \<Longrightarrow> keeps (daemon_inv O1 O2) (serve_all E rs)"
  unfolding serve_all_def by (intro keeps_intros request_keeps) blast

end
