(* ===== verification/Leak_Cleaner.thy ===== *)
theory Leak_Cleaner
  imports Shm_Manager Lease_Manager
begin

text \<open>
  Giving back the memory of processes that have ended: \<^verbatim>\<open>process/monitor/ubs_mem_leak_cleaner.cpp\<close> and
  the background thread of \<^verbatim>\<open>process/monitor/ubs_mem_monitor.cpp\<close>.
\<close>

section \<open>Finding leaked memory\<close>

definition queue_removal :: "DelayRemovedKey \<Rightarrow> ('w, unit) act" where
  "queue_removal removedKey = do {
     busy \<leftarrow> GetDelayRemoveRecord (dk_name removedKey);
     if \<not> busy then AddDelayRemoveRecord removedKey else return () }"

definition queue_lease :: "'w env \<Rightarrow> MLSMemInfo \<Rightarrow> ('w, unit) act" where
  "queue_lease E ls = do {
     removedKey \<leftarrow> new_DelayRemovedKey E (mi_name ls) 0 True (mi_appContext ls) False (mi_isNuma ls) False;
     queue_removal removedKey }"

definition CleanLeaseMemoryLeakWhenStart :: "'w env \<Rightarrow> ('w, int) act" where
  "CleanLeaseMemoryLeakWhenStart E = do {
     lsMap \<leftarrow> ListAllMem;
     for_each lsMap (\<lambda>ls.
       if app_pid (mi_appContext ls) = 0 then return ()
       else do {
         alive \<leftarrow> ask (os_alive E (app_pid (mi_appContext ls)));
         if alive then return () else queue_lease E ls });
     return UBSM_OK }"

definition clean_user :: "'w env \<Rightarrow> u32 \<Rightarrow> AttachedShareMemory \<Rightarrow> ('w, unit) act" where
  "clean_user E pid memory =
     (if am_pids memory = [] \<or> pid \<notin> set (am_pids memory) then return ()
      else if length (am_pids memory) > 1 then do { RemoveMemoryUserInfo (am_name memory) pid; return () }
      else do {
        let ctx = \<lparr>app_pid = pid, app_uid = smr_ownerUserId (am_result memory), app_gid = smr_ownerGroupId (am_result memory)\<rparr>;
        removedKey \<leftarrow> new_DelayRemovedKey E (am_name memory) 0 False ctx False False False;
        queue_removal removedKey })"

definition SHMProcessDeadProcess :: "'w env \<Rightarrow> u32 \<Rightarrow> ('w, int) act" where
  "SHMProcessDeadProcess E pid = do {
     memoryArr \<leftarrow> GetMemoryUsersByPid pid;
     for_each memoryArr (clean_user E pid);
     return UBSM_OK }"

fun dead_processes :: "'w env \<Rightarrow> u32 list \<Rightarrow> u32 list \<Rightarrow> ('w, u32 list) act" where
  "dead_processes E [] deadProcess = return deadProcess"
| "dead_processes E (usr # users) deadProcess = do {
     alive \<leftarrow> ask (os_alive E usr);
     dead_processes E users (if alive then deadProcess else deadProcess @ [usr]) }"

fun clean_processes :: "'w env \<Rightarrow> u32 list \<Rightarrow> ('w, int) act" where
  "clean_processes E [] = return UBSM_OK"
| "clean_processes E (pid # rest) = do {
     ret \<leftarrow> SHMProcessDeadProcess E pid;
     if ret \<noteq> UBSM_OK then return ret else clean_processes E rest }"

definition CleanShareMemoryLeakWhenStart :: "'w env \<Rightarrow> ('w, int) act" where
  "CleanShareMemoryLeakWhenStart E = do {
     users \<leftarrow> GetAllUsers;
     deadProcess \<leftarrow> dead_processes E users [];
     clean_processes E deadProcess }"

definition LeakCleaner_Start :: "'w env \<Rightarrow> ('w, int) act" where
  "LeakCleaner_Start E = do {
     ret \<leftarrow> CleanLeaseMemoryLeakWhenStart E;
     if ret \<noteq> UBSM_OK then return ret
     else do {
       ret \<leftarrow> CleanShareMemoryLeakWhenStart E;
       if ret \<noteq> UBSM_OK then return ret else return UBSM_OK } }"

section \<open>Giving it back\<close>

definition clean_timed_out_lease :: "'w env \<Rightarrow> string \<Rightarrow> bool \<Rightarrow> ('w, int) act" where
  "clean_timed_out_lease E name isNumaLease = do {
     (ret, status) \<leftarrow> GetTimeOutTaskStatus E name isNumaLease;
     if ret = MXM_ERR_LEASE_NOT_EXIST \<or> status = UBSE_NOT_EXIST then do { DeleteUsedMem name; return MXM_OK }
     else if ret \<noteq> MXM_OK \<or> status = UBSE_CREATING \<or> status = UBSE_DELETING then return MXM_TIME_OUT_TASK_NEED_RETRY
     else do {
       hr \<leftarrow> LeaseFree E name isNumaLease;
       if hr \<noteq> 0 \<and> hr \<noteq> MXM_ERR_LEASE_NOT_EXIST then return hr
       else DeleteUsedMem name } }"

text \<open>The second result is the reference parameter \<^verbatim>\<open>changed\<close>.\<close>

definition CleanLeaseMemoryLeakInner ::
  "'w env \<Rightarrow> string \<Rightarrow> AppContext \<Rightarrow> bool \<Rightarrow> bool \<Rightarrow> bool \<Rightarrow> ('w, int \<times> bool) act" where
  "CleanLeaseMemoryLeakInner E name ctx changed isTimeOutScene isNumaLease =
     (if isTimeOutScene then do { ret \<leftarrow> clean_timed_out_lease E name isNumaLease; return (ret, changed) }
      else do {
        (ret, found) \<leftarrow> GetUsedMemByName name;
        case found of
          None \<Rightarrow> return (MXM_ERR_PARAM_INVALID, changed)
        | Some memory \<Rightarrow>
            if mi_state memory = DELETED then do { DeleteUsedMem name; return (MXM_OK, changed) }
            else do {
              hr \<leftarrow> (if \<not> mi_isNuma memory \<and> \<not> changed then FdPermissionChange E name ctx (S_IRUSR OR S_IWUSR) else return 0);
              if hr \<noteq> 0 then return (hr, changed)
              else do {
                let changed = (changed \<or> \<not> mi_isNuma memory);
                ret \<leftarrow> PreDeleteUsedMem name;
                if ret = 0 then do {
                  hr \<leftarrow> LeaseFree E name (mi_isNuma memory);
                  if hr \<noteq> 0 \<and> hr \<noteq> MXM_ERR_LEASE_NOT_EXIST then return (hr, changed)
                  else do {
                    hr \<leftarrow> DeleteUsedMem name;
                    return (if hr \<noteq> 0 then MXM_ERR_RECORD_DELETE else 0, changed) } }
                else if ret \<noteq> 1 then return (ret, changed)
                else return (0, changed) } } })"

definition TryRollBackTimeoutShmTask :: "'w env \<Rightarrow> string \<Rightarrow> bool \<Rightarrow> u64 \<Rightarrow> ('w, int) act" where
  "TryRollBackTimeoutShmTask E name isAttach seqNo = do {
     (ret, status, stored) \<leftarrow> GetTimeOutShmTaskStatus E name isAttach;
     let storedSeqNo = (case stored of None \<Rightarrow> 0xFFFFFFFF | Some s \<Rightarrow> s);
     if ret = MXM_ERR_SHM_NOT_EXIST \<or> status = UBSE_NOT_EXIST then
       if isAttach then do { RemoveMemoryInfo name False; return MXM_OK } else return MXM_OK
     else if ret = MXM_ERR_SHM_IN_USING then return MXM_OK
     else if ret \<noteq> MXM_OK \<or> status = UBSE_CREATING \<or> status = UBSE_DELETING then return MXM_TIME_OUT_TASK_NEED_RETRY
     else if isAttach then do {
       hr \<leftarrow> Ubse_ShmDetach E name;
       RemoveMemoryInfo name False;
       return hr }
     else if seqNo \<noteq> storedSeqNo then return MXM_OK
     else Ubse_ShmDelete E name }"

definition CleanShareMemoryLeakInner ::
  "'w env \<Rightarrow> string \<Rightarrow> AppContext \<Rightarrow> bool \<Rightarrow> bool \<Rightarrow> u64 \<Rightarrow> ('w, int) act" where
  "CleanShareMemoryLeakInner E name ctx isTimeOutScene isAttach seqNo =
     (if name = [] then return MXM_ERR_PARAM_INVALID
      else if isTimeOutScene then TryRollBackTimeoutShmTask E name isAttach seqNo
      else do {
        ret \<leftarrow> RemoveMemoryUserInfo name (app_pid ctx);
        if ret \<noteq> HOK \<and> ret \<noteq> MXM_ERR_SHM_NOT_FOUND then return ret
        else do {
          ret \<leftarrow> UpdateShareMemoryRecordState name PRE_DEL;
          if ret \<noteq> HOK \<and> ret \<noteq> MXM_ERR_SHM_NOT_FOUND then return ret
          else do {
            hr \<leftarrow> Ubse_ShmDetach E name;
            if hr \<noteq> 0 \<and> hr \<noteq> MXM_ERR_UBSE_NOT_ATTACH then do {
              UpdateShareMemoryRecordState name FINISH;
              AddMemoryUserInfo name (app_pid ctx);
              return hr }
            else do {
              ret \<leftarrow> RemoveMemoryInfo name False;
              if ret \<noteq> HOK \<and> hr \<noteq> MXM_ERR_UBSE_NOT_ATTACH then do {
                UpdateShareMemoryRecordState name DELETED;
                AddMemoryUserInfo name (app_pid ctx);
                return ret }
              else return UBSM_OK } } } })"

section \<open>The background thread\<close>

definition ManagerEventNotified :: "u32 \<Rightarrow> ('w, u32) act" where
  "ManagerEventNotified pid = do {
     modify (d_mon_update (\<lambda>m. m\<lparr>exitedPids := exitedPids m @ [pid]\<rparr>));
     return 0 }"

definition RegisterHandler :: "u32 \<Rightarrow> ('w, u32) act" where
  "RegisterHandler pid = do {
     suspended \<leftarrow> gets (\<lambda>d. IsClientSuspended pid (d_store d));
     if suspended then return 0 else ManagerEventNotified pid }"

definition ClientProcessExited :: "'w env \<Rightarrow> u32 \<Rightarrow> ('w, unit) act" where
  "ClientProcessExited E pid = do {
     leaseRecord \<leftarrow> ListAllMem;
     for_each leaseRecord (\<lambda>record. if app_pid (mi_appContext record) \<noteq> pid then return () else queue_lease E record);
     SHMProcessDeadProcess E pid;
     call_store (DelSuspendClient pid);
     return () }"

definition RemoveImmediatelyBorrows :: "'w env \<Rightarrow> ('w, unit) act" where
  "RemoveImmediatelyBorrows E = do {
     m \<leftarrow> gets d_mon;
     if \<not> mo_running m then return ()
     else do {
       modify (d_mon_update (\<lambda>m. m\<lparr>exitedPids := []\<rparr>));
       for_each (exitedPids m) (ClientProcessExited E);
       LeakCleaner_Start E;
       return () } }"

text \<open>One attempt: the key as it is queued again, if the attempt failed.\<close>

definition attempt_removal :: "'w env \<Rightarrow> DelayRemovedKey \<Rightarrow> ('w, int \<times> DelayRemovedKey) act" where
  "attempt_removal E removedKey = do {
     let removedKey = removedKey\<lparr>dk_retryTimes := dk_retryTimes removedKey + 1\<rparr>;
     (ret, removedKey) \<leftarrow> (if dk_isLease removedKey then do {
         (ret, changed) \<leftarrow> CleanLeaseMemoryLeakInner E (dk_name removedKey) (dk_appCtx removedKey) (dk_changed removedKey)
            (dk_timeOutScene removedKey) (dk_isNumaLease removedKey);
         return (ret, removedKey\<lparr>dk_changed := changed\<rparr>) }
       else do {
         ret \<leftarrow> CleanShareMemoryLeakInner E (dk_name removedKey) (dk_appCtx removedKey) (dk_timeOutScene removedKey)
            (dk_isAttach removedKey) (dk_createSeqNo removedKey);
         return (ret, removedKey) });
     modify (d_mon_update (erase_delayed removedKey));
     return (ret, removedKey) }"

fun attempt_removals :: "'w env \<Rightarrow> DelayRemovedKey list \<Rightarrow> DelayRemovedKey list \<Rightarrow> ('w, DelayRemovedKey list) act" where
  "attempt_removals E [] failedRetryKeys = return failedRetryKeys"
| "attempt_removals E (removedKey # rest) failedRetryKeys = do {
     (ret, removedKey) \<leftarrow> attempt_removal E removedKey;
     if ret \<noteq> 0 then do {
       expires \<leftarrow> LinearDelayMs E (dk_retryTimes removedKey) ONE_MINUTE_MS MAX_DELAY_TIME_MS;
       attempt_removals E rest (failedRetryKeys @ [removedKey\<lparr>dk_expiresTime := expires\<rparr>]) }
     else attempt_removals E rest failedRetryKeys }"

definition RemoveDelayBorrows :: "'w env \<Rightarrow> ('w, unit) act" where
  "RemoveDelayBorrows E = do {
     nowTime \<leftarrow> ask (os_now E);
     m \<leftarrow> gets d_mon;
     if \<not> mo_running m \<or> delayedRemoveKeys m = [] then return ()
     else do {
       failedRetryKeys \<leftarrow> attempt_removals E
         (filter (\<lambda>item. dk_expiresTime item \<le> nowTime) (map snd (delayedRemoveKeys m))) [];
       for_each failedRetryKeys AddDelayRemoveRecord } }"

text \<open>
  The time the thread sleeps, if nobody wakes it: \<^verbatim>\<open>firstDelayMs\<close> with nothing to do, and to the next
  attempt otherwise. Then one round of the loop of \<^verbatim>\<open>BackgroundProcess\<close> after the sleep.
\<close>

definition wait_time :: "u64 \<Rightarrow> u64 \<Rightarrow> mem_monitor \<Rightarrow> u64" where
  "wait_time firstDelayMs nowTime m =
     (case delayedRemoveKeys m of
        [] \<Rightarrow> if exitedPids m = [] then firstDelayMs else 0
      | (_, key) # _ \<Rightarrow> if dk_expiresTime key > nowTime then dk_expiresTime key - nowTime else 0)"

definition background_round :: "'w env \<Rightarrow> ('w, unit) act" where
  "background_round E = do {
     m \<leftarrow> gets d_mon;
     if \<not> mo_running m then return ()
     else do { RemoveImmediatelyBorrows E; RemoveDelayBorrows E } }"

definition Monitor_Initialize :: "'w env \<Rightarrow> ('w, int) act" where
  "Monitor_Initialize E = do {
     m \<leftarrow> gets d_mon;
     if mo_running m then return 0
     else do {
       ret \<leftarrow> LeakCleaner_Start E;
       if ret \<noteq> 0 then return ret
       else do { modify (d_mon_update (\<lambda>m. m\<lparr>mo_running := True\<rparr>)); return 0 } } }"

definition Monitor_Destroy :: "('w, unit) act" where
  "Monitor_Destroy = modify (d_mon_update (\<lambda>m. m\<lparr>mo_running := False\<rparr>))"

end
