(* ===== verification/Background.thy ===== *)
theory Background
  imports Daemon_Inv Leak_Cleaner
begin

text \<open>
  The background thread keeps the invariant of the daemon, and so does every run in which requests,
  ends of processes and rounds of the thread alternate in any order.
\<close>

section \<open>Removing a user\<close>

lemma RemoveMemoryUserInfo_gone:
  "triple (shm_inv Orph) (RemoveMemoryUserInfo n pid) (\<lambda>_ d. shm_inv Orph d \<and> \<not> uses d n pid)"
proof (rule tripleI)
  fix d :: "'w daemon"
  assume inv: "shm_inv Orph d"
  let ?r = "run_state (RemoveMemoryUserInfo n pid) d"
  have "\<not> uses (snd ?r) n pid"
  proof (cases "uses d n pid")
    case False
    then show ?thesis
      by (auto simp: RemoveMemoryUserInfo_def find_shm_def uses_def split: option.split)
  next
    case True
    then obtain m where m: "map_of (d_shm d) n = Some m" "pid \<in> set (am_pids m)" by (auto simp: uses_def)
    note D = shm_invD[OF inv]
    obtain r where r: "shm_imports (d_store d) n = Some r" "users_match (am_pids m) (shm_refs (d_store d) n)"
      using D(4)[of n] m by (auto simp: shm_at_Some ghost_def split: option.splits)
    have ref: "shm_refs (d_store d) n pid \<noteq> 0" using r(2) m(2) by (simp add: users_match_def)
    have "length n < RECORD_NAME_SIZE" using D(2) r(1) by (auto simp: short_names_def)
    then have "op_pre (OpDelRef pid n) (abs_of (d_store d))" using ref ref_pid(1)[OF D(1) ref] by simp
    then have "fst (DelShmRefRecord pid n (d_store d)) = 0"
      using exec_call(3)[OF D(1), of "OpDelRef pid n"] by simp
    then have "fst ?r = 0" using m by (simp add: RemoveMemoryUserInfo_def find_shm_def UBSM_OK_def)
    then show ?thesis using tripleD[OF RemoveMemoryUserInfo_keeps inv, of n pid] by simp
  qed
  then show "shm_inv Orph (snd ?r) \<and> \<not> uses (snd ?r) n pid"
    using tripleD[OF RemoveMemoryUserInfo_keeps inv, of n pid] by simp
qed

lemma daemon_user_gone:
  "triple (daemon_inv O1 O2) (RemoveMemoryUserInfo n pid) (\<lambda>_ d. daemon_inv O1 O2 d \<and> \<not> uses d n pid)"
  by (rule triple_conseq[OF triple_daemon[OF RemoveMemoryUserInfo_gone[of O2] shm_methods_calm(2), where ?O1.0 = O1]])
    (auto simp: daemon_inv_def)

lemma daemon_user_added:
  "triple (\<lambda>d. daemon_inv O1 O2 d \<and> \<not> uses d n pid) (AddMemoryUserInfo n pid) (\<lambda>_. daemon_inv O1 O2)"
  by (rule whole_shm.add_user)

lemma daemon_state: "keeps (daemon_inv O1 O2) (UpdateShareMemoryRecordState n s)"
  by (rule keeps_daemon_shm[OF UpdateShareMemoryRecordState_keeps shm_methods_calm(4)])

lemma state_unused: "keeps (\<lambda>d. \<not> uses d n pid) (UpdateShareMemoryRecordState k s)"
  unfolding UpdateShareMemoryRecordState_def find_shm_def
  by (auto simp: triple_def uses_def map_of_assign split: option.split)

lemma unused_core: "preserves core m \<Longrightarrow> keeps (\<lambda>d. \<not> uses d n pid) m"
  by (erule core_keep) (simp add: core_def uses_def)

section \<open>The cleaner keeps the invariant\<close>

lemma mon_frame: "preserves services (modify (d_mon_update f))"
  by (simp add: triple_def services_def)

lemmas lease_keeps = whole_lease.delete[OF TrueI] whole_lease.pre_delete[OF TrueI]

lemmas background_intros = keeps_intros adapter_frames[THEN services_core, THEN whole_shm.service]
  core_frames[THEN whole_shm.service] mon_frame[THEN services_core, THEN whole_shm.service]
  lease_keeps whole_shm.remove daemon_state

lemma remove_user_keeps: "keeps (daemon_inv O1 O2) (RemoveMemoryUserInfo n pid)"
  by (rule triple_conseq[OF daemon_user_gone]) auto

lemma CleanLease_keeps: "keeps (daemon_inv O1 O2) (CleanLeaseMemoryLeakInner E n ctx c t b)"
  unfolding CleanLeaseMemoryLeakInner_def clean_timed_out_lease_def GetUsedMemByName_def find_used_def
  by (intro background_intros)

lemma without_user:
  assumes "keeps (daemon_inv O1 O2) m" "keeps (\<lambda>d. \<not> uses d n pid) m"
  shows "keeps (\<lambda>d. daemon_inv O1 O2 d \<and> \<not> uses d n pid) m"
  using assms by (rule triple_conj)

lemma put_back_keeps: "triple (\<lambda>d. daemon_inv O1 O2 d \<and> \<not> uses d n pid)
    (do { UpdateShareMemoryRecordState n s; AddMemoryUserInfo n pid; return ret }) (\<lambda>_. daemon_inv O1 O2)"
  by (rule triple_bind[OF without_user[OF daemon_state state_unused] triple_bind[OF daemon_user_added keeps_return]])

lemma CleanShare_keeps: "keeps (daemon_inv O1 O2) (CleanShareMemoryLeakInner E n ctx t a s)"
proof -
  let ?P = "\<lambda>d. daemon_inv O1 O2 d \<and> \<not> uses d n (app_pid ctx)"
  have w: "triple ?P (return x) (\<lambda>_. daemon_inv O1 O2)" for x :: int by (rule triple_conseq[OF keeps_return]) auto
  have removed: "keeps ?P (RemoveMemoryInfo n False)" by (rule without_user[OF whole_shm.remove RemoveMemoryInfo_unused])
  have detached: "keeps ?P (Ubse_ShmDetach E n)"
    by (intro without_user adapter_frames[THEN services_core, THEN whole_shm.service] adapter_frames[THEN services_core, THEN unused_core])
  have marked: "keeps ?P (UpdateShareMemoryRecordState n PRE_DEL)" by (rule without_user[OF daemon_state state_unused])
  have "keeps (daemon_inv O1 O2) (TryRollBackTimeoutShmTask E n a s)"
    unfolding TryRollBackTimeoutShmTask_def by (intro background_intros)
  then show ?thesis
    unfolding CleanShareMemoryLeakInner_def
    by (intro keeps_if keeps_return) (rule triple_if triple_bind[OF daemon_user_gone] triple_bind[OF marked] triple_bind[OF detached]
        triple_bind[OF removed] put_back_keeps w | assumption)+
qed

lemma queue_removal_keeps: "keeps (daemon_inv O1 O2) (queue_removal k)"
  unfolding queue_removal_def GetDelayRemoveRecord_def by (intro background_intros)

lemma queue_lease_keeps: "keeps (daemon_inv O1 O2) (queue_lease E i)"
  unfolding queue_lease_def by (intro background_intros queue_removal_keeps)

lemma SHMProcessDeadProcess_keeps: "keeps (daemon_inv O1 O2) (SHMProcessDeadProcess E pid)"
  unfolding SHMProcessDeadProcess_def GetMemoryUsersByPid_def clean_user_def Let_def
  by (intro background_intros queue_removal_keeps remove_user_keeps)

lemma LeakCleaner_Start_keeps: "keeps (daemon_inv O1 O2) (LeakCleaner_Start E)"
proof -
  have "keeps (daemon_inv O1 O2) (dead_processes E us ds)" for us ds
    by (induction us arbitrary: ds) (auto intro!: background_intros)
  moreover have "keeps (daemon_inv O1 O2) (clean_processes E ds)" for ds
    by (induction ds) (auto intro!: background_intros SHMProcessDeadProcess_keeps)
  ultimately show ?thesis
    unfolding LeakCleaner_Start_def CleanLeaseMemoryLeakWhenStart_def CleanShareMemoryLeakWhenStart_def ListAllMem_def GetAllUsers_def
    by (intro background_intros queue_lease_keeps)
qed

lemma ClientProcessExited_keeps: "keeps (daemon_inv O1 O2) (ClientProcessExited E pid)"
  unfolding ClientProcessExited_def ListAllMem_def
  by (intro background_intros queue_lease_keeps SHMProcessDeadProcess_keeps whole_shm.resume)

lemma attempt_removal_keeps: "keeps (daemon_inv O1 O2) (attempt_removal E k)"
  unfolding attempt_removal_def by (intro background_intros CleanLease_keeps CleanShare_keeps)

lemma attempt_removals_keeps: "keeps (daemon_inv O1 O2) (attempt_removals E ks fs)"
proof (induction ks arbitrary: fs)
  case (Cons k ks)
  show ?case unfolding attempt_removals.simps LinearDelayMs_def by (intro background_intros attempt_removal_keeps Cons.IH)
qed (simp add: keeps_return)

lemma background_keeps: "keeps (daemon_inv O1 O2) (background_round E)"
  unfolding background_round_def RemoveImmediatelyBorrows_def RemoveDelayBorrows_def
  by (intro background_intros ClientProcessExited_keeps LeakCleaner_Start_keeps attempt_removals_keeps)

section \<open>Runs of the daemon\<close>

inductive daemon_step :: "'w env \<Rightarrow> 'w daemon \<Rightarrow> 'w daemon \<Rightarrow> bool" for E where
  request: "good_request r \<Longrightarrow> run_state (serve E r) d = (ret, d') \<Longrightarrow> daemon_step E d d'"
| exited: "run_state (RegisterHandler pid) d = (ret, d') \<Longrightarrow> daemon_step E d d'"
| round: "run_state (background_round E) d = (u, d') \<Longrightarrow> daemon_step E d d'"
| elapse: "daemon_step E d (d\<lparr>d_world := w\<rparr>)"

lemma RegisterHandler_services: "preserves services (RegisterHandler pid)"
  unfolding RegisterHandler_def ManagerEventNotified_def by (intro allI frame_intros frame_keeps[OF mon_frame])

lemma step_keeps: "daemon_step E d d' \<Longrightarrow> daemon_inv O1 O2 d \<Longrightarrow> daemon_inv O1 O2 d'"
proof (induction rule: daemon_step.induct)
  case (request r d ret d')
  then show ?case using keeps_run[OF request_keeps, of r O1 O2 d E] by simp
next
  case (exited pid d ret d')
  then show ?case using keeps_run[OF whole_shm.service[OF services_core[OF RegisterHandler_services]], of O1 O2 d pid] by simp
next
  case (round d u d')
  then show ?case using keeps_run[OF background_keeps, of O1 O2 d E] by simp
next
  case (elapse d w)
  then show ?case using whole_shm.frame[of d "d\<lparr>d_world := w\<rparr>" O1 O2] by (simp add: core_def)
qed

lemma run_keeps: "(daemon_step E)\<^sup>*\<^sup>* d d' \<Longrightarrow> daemon_inv O1 O2 d \<Longrightarrow> daemon_inv O1 O2 d'"
  by (induction rule: rtranclp_induct) (auto intro: step_keeps)

end
