(* ===== verification/Removal_Queue.thy ===== *)
theory Removal_Queue
  imports Background
begin

text \<open>
  The queue of delayed removals over whole runs: requests only add to it, a busy name always has a
  removal that is still queued, and a removal that fails comes back within an hour.
\<close>

section \<open>Requests only add removals\<close>

locale queue_client =
  fixes Q :: "mem_monitor \<Rightarrow> bool"
  assumes add: "Q m \<Longrightarrow> Q (add_delayed k m)"
begin

abbreviation queued :: "'w daemon \<Rightarrow> bool" where
  "queued d \<equiv> Q (d_mon d)"

lemma base:
  "keeps queued (ask f)" "keeps queued (call_store g)" "keeps queued (modify (d_mls_update h))"
  "keeps queued (modify (d_shm_update i))" "keeps queued (modify (d_regions_update j))"
  "keeps queued (modify (d_adapter_update l))" "keeps queued (AddDelayRemoveRecord k)"
  by (simp_all add: triple_def AddDelayRemoveRecord_def add)

lemmas intros = keeps_intros base

lemma adapter:
  "keeps queued (Initialize E)" "keeps queued (new_DelayRemovedKey E nm delay l ctx c u t)"
  "keeps queued (GetLocalNodeId E)" "keeps queued (EnsureGetLocalNodeId E)"
  "keeps queued (GetLeaseMemoryStage E n b)" "keeps queued (GetTimeOutTaskStatus E n b)"
  unfolding Initialize_def new_DelayRemovedKey_def GetLocalNodeId_def EnsureGetLocalNodeId_def GetLeaseMemoryStage_def
    GetTimeOutTaskStatus_def by (intro intros)+

lemmas intros1 = intros adapter

lemma adapter_lease:
  "keeps queued (LookupRegionList E)" "keeps queued (lease_timed_out E n ctx b)" "keeps queued (FdPermissionChange E n ctx mode)"
  "keeps queued (LeaseFree E n b)" "keeps queued (shm_timed_out E n ctx a s)" "keeps queued (GenerateMemName E sz)"
  "keeps queued (GenerateCreateSeqNo slot)"
  unfolding LookupRegionList_def InitializeRegionList_def PopulateHostNameMap_def lease_timed_out_def FdPermissionChange_def
    LeaseFree_def shm_timed_out_def GenerateMemName_def GenerateCreateSeqNo_def by (intro intros1)+

lemmas intros2 = intros1 adapter_lease

lemma adapter_regions: "keeps queued (GetRegionInfo E n)" "keeps queued (FillUserInfo E ctx f mode)"
  unfolding GetRegionInfo_def RegionManager_GetRegionInfo_def FillUserInfo_def by (intro intros2)+

lemma adapter_malloc: "keeps queued (LeaseMalloc E p)" "keeps queued (LeaseMallocWithLoc E q)"
  unfolding LeaseMalloc_def LeaseMallocWithLoc_def by (intro intros2 adapter_regions)+

lemmas intros3 = intros2 adapter_regions adapter_malloc

lemma adapter_shm:
  "keeps queued (Ubse_ShmDelete E n)" "keeps queued (ShmGetUserData E n)" "keeps queued (GetTimeOutShmTaskStatus E n a)"
  "keeps queued (GetShareMemoryStage E n)" "keeps queued (Ubse_ShmDetach E n)" "keeps queued (ShmListLookup E n)"
  "keeps queued (ShmLookup E n)" "keeps queued (CheckFeatureCompatibility f)" "keeps queued (GetSocketIdWithNumaNode E sk)"
  "keeps queued (GetSlotIdFromHostName E n)" "keeps queued (ShmCreateWithAffinity E p r f u s)"
  unfolding Ubse_ShmDelete_def ShmGetUserData_def GetTimeOutShmTaskStatus_def GetShareMemoryStage_def Ubse_ShmDetach_def
    ShmListLookup_def ShmLookup_def CheckFeatureCompatibility_def GetSocketIdWithNumaNode_def GetSlotIdFromHostName_def
    ShmCreateWithAffinity_def by (intro intros3)+

lemmas intros4 = intros3 adapter_shm

lemma adapter_create:
  "keeps queued (Ubse_ShmCreate E p)" "keeps queued (ShmCreateWithProvider E q)" "keeps queued (Ubse_ShmAttach E n u)"
proof -
  show "keeps queued (Ubse_ShmAttach E n u)" unfolding Ubse_ShmAttach_def by (intro intros4) (auto split: list.split intro!: intros4)
qed (unfold Ubse_ShmCreate_def ShmCreateWithProvider_def PrepareShmCreateWithProviderParams_def, (intro intros4)+)

lemmas intros5 = intros4 adapter_create

lemma managers:
  "keeps queued (PreAddUsedMem n sz ctx b p)" "keeps queued (FinishAddUsedMem n numa unit slot ids)"
  "keeps queued (UpdateMemRecordState n s)" "keeps queued (DeleteUsedMem n)" "keeps queued (PreDeleteUsedMem n)"
  "keeps queued (ReuseBufferedMem E sz b region ctx)" "keeps queued (DeleteAllBufferedMem E)"
  "keeps queued (AddMemoryUserInfo n pid)" "keeps queued (RemoveMemoryUserInfo n pid)"
  "keeps queued (AddFullShareMemoryInfo n pid res)" "keeps queued (UpdateShareMemoryRecordState n s)"
  "keeps queued (PrepareAddShareMemoryInfo n sz pid)" "keeps queued (CreateRegionInfo r)" "keeps queued (DeleteRegionInfo n)"
  unfolding PreAddUsedMem_def PreAddMemRecord_def FinishAddUsedMem_def UpdateMemResultRecord_def Repository_UpdateMemRecordState_def
    UpdateMemRecordState_def DeleteUsedMem_def DeleteMemRecord_def PreDeleteUsedMem_def BufferUsedMemory_def UpdateMemRecord_def
    ReuseBufferedMem_def ReuseMemInSlotId_def DeleteAllBufferedMem_def free_buffered_def LeaseFreeMemory_def find_used_def
    AddMemoryUserInfo_def RemoveMemoryUserInfo_def AddFullShareMemoryInfo_def UpdateShareMemoryRecordState_def
    PrepareAddShareMemoryInfo_def CreateRegionInfo_def UpdateRegionInfo_def DeleteRegionInfo_def RemoveRegionInfo_def find_shm_def
  by (intro intros5)+

lemma remove_memory: "keeps queued (RemoveMemoryInfo n force)"
  unfolding RemoveMemoryInfo_def find_shm_def by (intro intros5 keeps_drop_refs)

lemmas intros6 = intros5 managers remove_memory

lemma lease_handlers:
  "keeps queued (AppMallocMemory E req resp uds)" "keeps queued (AppMallocMemoryWithLoc E req' resp uds)"
  "keeps queued (AppFreeMemory E req'' cresp uds)" "keeps queued (AppForceFreeCachedMemory E cresp)"
  unfolding AppMallocMemory_def BorrowMemory_def BorrowNewMemory_def RollBackBorrowNewMemory_def ReuseCachedLeaseMemory_def
    RollBackReuseCacheMemory_def AppMallocMemoryWithLoc_def BorrowMemoryWithLender_def AppFreeMemory_def GetDelayRemoveRecord_def
    GetUsedMemByName_def find_used_def AppForceFreeCachedMemory_def Let_def
  by (intro intros6)+

lemma serve_lease_keeps: "keeps queued (serve_lease E r)"
proof (cases "(E, r)" rule: serve_lease.cases)
  case (5 E' r uds)
  then show ?thesis
    by (auto simp: AppCheckMemoryLease_def CleanNotUsedRecordLeaseMemory_def GetUsedMemByPid_def intro!: intros6 lease_handlers)
qed (auto intro!: intros6 lease_handlers)

lemma shm_inner:
  "keeps queued (ShmMmapInner E p)" "keeps queued (HandleExistingShm req resp uds m)" "keeps queued (ShmUnMapInner E n uds)"
  unfolding ShmMmapInner_def RollBackAttachShareMemory_def HandleExistingShm_def ShmUnMapInner_def Let_def
  by (intro intros6)+

lemma shm_map:
  "keeps queued (ShmMap E req resp uds)" "keeps queued (ShmUnmap E req' cresp uds)"
  unfolding ShmMap_def map_new_def ShmUnmap_def GetDelayRemoveRecord_def GetShareMemoryInfo_def GetMemoryUsersCountByName_def
    find_shm_def Let_def
  by (intro intros6 shm_inner)+

lemma serve_shm_keeps: "keeps queued (serve_shm E r)"
proof -
  have P: "keeps queued (providers k desc)" for k desc
    unfolding providers_def RegionManager_GetRegionInfo_def by (intro intros6)
  obtain req uds where r: "r = (req, uds)" by (rule prod.exhaust)
  show ?thesis
  proof (cases req)
    case (ReqCreate q)
    show ?thesis
      unfolding r ReqCreate serve_shm.simps ShmCreate_def GetDelayRemoveRecord_def Let_def by (auto intro!: intros6 P split: sum.split)
  next
    case (ReqDelete q)
    show ?thesis
      unfolding r ReqDelete serve_shm.simps ShmDelete_def GetDelayRemoveRecord_def ShmPermissionCheck_def
        GetMemoryUsersCountByName_def find_shm_def
      by (intro intros6)
  next
    case (ReqCheckMap q)
    show ?thesis
      unfolding r ReqCheckMap serve_shm.simps AppCheckShareMemoryMap_def CleanNotUsedRecordShareMemory_def GetMemoryUsersByPid_def
      by (intro intros6 shm_map)
  qed (simp only: r serve_shm.simps Handle_ShmCreateWithProvider_def GetDelayRemoveRecord_def ShmAttach_def ShmDetach_def
      RegionLookupRegionList_def RegionCreateRegion_def RegionLookupRegion_def RegionManager_GetRegionInfo_def RegionDestroyRegion_def
      Handle_ShmLookup_def Handle_ShmListLookup_def LookupLocalSlotId_def IpcSuspend_def IpcResume_def Let_def,
      (intro intros6 shm_map)?)+
qed

lemma serve_queued: "keeps queued (serve E r)"
  by (cases "(E, r)" rule: serve.cases) (auto intro: serve_lease_keeps serve_shm_keeps)

lemma cleaner:
  "keeps queued (CleanLeaseMemoryLeakInner E n ctx c t b)" "keeps queued (CleanShareMemoryLeakInner E n ctx t a s)"
  unfolding CleanLeaseMemoryLeakInner_def clean_timed_out_lease_def GetUsedMemByName_def find_used_def
    CleanShareMemoryLeakInner_def TryRollBackTimeoutShmTask_def by (intro intros6)+

lemma start_keeps: "keeps queued (queue_lease E i)" "keeps queued (SHMProcessDeadProcess E pid)" "keeps queued (LeakCleaner_Start E)"
proof -
  show lease: "keeps queued (queue_lease E i)" for i
    unfolding queue_lease_def queue_removal_def GetDelayRemoveRecord_def by (intro intros6)
  show dead: "keeps queued (SHMProcessDeadProcess E pid)" for pid
    unfolding SHMProcessDeadProcess_def GetMemoryUsersByPid_def clean_user_def queue_removal_def GetDelayRemoveRecord_def Let_def
    by (intro intros6)
  have "keeps queued (dead_processes E us ds)" for us ds by (induction us arbitrary: ds) (auto intro!: intros6)
  moreover have "keeps queued (clean_processes E ds)" for ds by (induction ds) (auto intro!: intros6 dead)
  ultimately show "keeps queued (LeakCleaner_Start E)"
    unfolding LeakCleaner_Start_def CleanLeaseMemoryLeakWhenStart_def CleanShareMemoryLeakWhenStart_def ListAllMem_def GetAllUsers_def
    by (intro intros6 lease)
qed

end

section \<open>Busy names\<close>

definition queue_ok :: "mem_monitor \<Rightarrow> bool" where
  "queue_ok m \<longleftrightarrow> map_ok (delayedRemoveKeys m) \<and> map_ok (delayedRemoveKeysByName m) \<and>
     (\<forall>(t, k)\<in>set (delayedRemoveKeys m). t = delay_key k) \<and> fst ` set (delayedRemoveKeysByName m) \<subseteq> pending m"

lemma queue_ok_entry:
  assumes "queue_ok m" "e \<in> set (delayedRemoveKeys m)"
  shows "fst e = delay_key (snd e)"
  using assms(1) bspec[OF _ assms(2), of "\<lambda>(t, k). t = delay_key k"] by (simp add: queue_ok_def split_beta)

lemma add_delayed_set:
  "set (delayedRemoveKeys (add_delayed k m)) =
     (if delay_key k \<in> fst ` set (delayedRemoveKeys m) then set (delayedRemoveKeys m)
      else insert (delay_key k, k) (set (delayedRemoveKeys m)))"
  by (auto simp: add_delayed_def map_emplace_def set_insort_entry)

lemma add_delayed_pending:
  assumes "queue_ok m"
  shows "pending (add_delayed k m) = insert (dk_name k) (pending m)"
proof (cases "delay_key k \<in> fst ` set (delayedRemoveKeys m)")
  case True
  then obtain e where "e \<in> set (delayedRemoveKeys m)" "fst e = delay_key k" by auto
  then have "dk_name k = dk_name (snd e)" "e \<in> set (delayedRemoveKeys m)"
    using queue_ok_entry[OF assms] by (simp_all add: delay_key_def)
  then have "dk_name k \<in> pending m" unfolding pending_def image_image by blast
  then show ?thesis using True by (auto simp: pending_def add_delayed_set)
next
  case False
  then show ?thesis by (simp add: pending_def add_delayed_set)
qed

lemma add_delayed_ok: "queue_ok m \<Longrightarrow> queue_ok (add_delayed k m)"
proof -
  assume ok: "queue_ok m"
  have "map_ok (delayedRemoveKeys (add_delayed k m))" "map_ok (delayedRemoveKeysByName (add_delayed k m))"
    using ok by (auto simp: queue_ok_def add_delayed_def map_emplace_ok)
  moreover have "\<forall>(t, k')\<in>set (delayedRemoveKeys (add_delayed k m)). t = delay_key k'"
    using ok by (auto simp: queue_ok_def add_delayed_set)
  moreover have "fst ` set (delayedRemoveKeysByName (add_delayed k m)) \<subseteq> insert (dk_name k) (fst ` set (delayedRemoveKeysByName m))"
    by (auto simp: add_delayed_def map_emplace_def set_insort_entry)
  then have "fst ` set (delayedRemoveKeysByName (add_delayed k m)) \<subseteq> pending (add_delayed k m)"
    unfolding add_delayed_pending[OF ok] using ok by (elim order_trans) (auto simp: queue_ok_def)
  ultimately show ?thesis by (simp add: queue_ok_def)
qed

interpretation queue_order: queue_client queue_ok
  by unfold_locales (rule add_delayed_ok)

interpretation queue_stays: queue_client "\<lambda>m. e \<in> set (delayedRemoveKeys m)" for e
  by unfold_locales (auto simp: add_delayed_set)

lemma erase_delayed_set:
  "queue_ok m \<Longrightarrow> set (delayedRemoveKeys (erase_delayed k m)) = {e \<in> set (delayedRemoveKeys m). fst e \<noteq> delay_key k}"
  by (simp add: erase_delayed_def queue_ok_def erase_entries)

lemma erase_delayed_ok:
  assumes "queue_ok m"
  shows "queue_ok (erase_delayed k m)"
proof -
  have "map_ok (delayedRemoveKeys (erase_delayed k m))" "map_ok (delayedRemoveKeysByName (erase_delayed k m))"
    using assms by (auto simp: queue_ok_def erase_delayed_def map_ok_erase)
  moreover have "\<forall>(t, k')\<in>set (delayedRemoveKeys (erase_delayed k m)). t = delay_key k'"
    using assms by (auto simp: erase_delayed_set queue_ok_def)
  moreover have "n \<in> pending (erase_delayed k m)" if n: "n \<in> fst ` set (delayedRemoveKeysByName (erase_delayed k m))" for n
  proof -
    have "n \<noteq> dk_name k" "n \<in> pending m"
      using n assms by (auto simp: erase_delayed_def queue_ok_def erase_entries)
    then obtain e where e: "e \<in> set (delayedRemoveKeys m)" "dk_name (snd e) \<noteq> dk_name k" "n = dk_name (snd e)"
      by (auto simp: pending_def)
    then have "fst e \<noteq> delay_key k" using queue_ok_entry[OF assms e(1)] by (simp add: delay_key_def)
    then show ?thesis using e unfolding pending_def erase_delayed_set[OF assms] by auto
  qed
  ultimately show ?thesis by (auto simp: queue_ok_def)
qed

section \<open>The whole run\<close>

lemma pids_ok: "queue_ok (m\<lparr>exitedPids := ps\<rparr>) \<longleftrightarrow> queue_ok m"
  by (simp add: queue_ok_def pending_def)

lemma erase_keeps: "keeps (\<lambda>d. queue_ok (d_mon d)) (modify (d_mon_update (erase_delayed k)))"
  by (rule keeps_modify) (simp add: erase_delayed_ok)

lemma exit_keeps: "keeps (\<lambda>d. queue_ok (d_mon d)) (modify (d_mon_update (\<lambda>m. m\<lparr>exitedPids := f m\<rparr>)))"
  by (rule keeps_modify) (simp add: pids_ok)

lemma attempts_queue: "keeps (\<lambda>d. queue_ok (d_mon d)) (attempt_removals E ks fs)"
proof (induction ks arbitrary: fs)
  case (Cons k ks)
  show ?case
    unfolding attempt_removals.simps attempt_removal_def LinearDelayMs_def
    by (intro queue_order.intros6 queue_order.cleaner erase_keeps Cons.IH)
qed (simp add: keeps_return)

lemma round_queue: "keeps (\<lambda>d. queue_ok (d_mon d)) (background_round E)"
  unfolding background_round_def RemoveImmediatelyBorrows_def RemoveDelayBorrows_def ClientProcessExited_def ListAllMem_def
  by (intro queue_order.intros6 queue_order.start_keeps attempts_queue exit_keeps)

lemma step_queue: "daemon_step E d d' \<Longrightarrow> queue_ok (d_mon d) \<Longrightarrow> queue_ok (d_mon d')"
proof (induction rule: daemon_step.induct)
  case (request r d ret d')
  then show ?case using keeps_run[OF queue_order.serve_queued[of E r], of d] by simp
next
  case (exited pid d ret d')
  have "keeps (\<lambda>d. queue_ok (d_mon d)) (RegisterHandler pid)"
    unfolding RegisterHandler_def ManagerEventNotified_def by (intro queue_order.intros6 exit_keeps)
  from keeps_run[OF this, of d] exited show ?case by simp
next
  case (round d u d')
  then show ?case using keeps_run[OF round_queue, of d E] by simp
qed simp

section \<open>The time of the next attempt\<close>

lemma unat_max: "unat (- 1 :: u64) = 2 ^ 64 - 1"
  by (simp add: unsigned_minus_1_eq_mask mask_eq_exp_minus_1)

lemma unat_top: "unat (- 1 - x :: u64) = 2 ^ 64 - 1 - unat x"
proof -
  have "unat x \<le> 2 ^ 64 - 1" using unsigned_less[of x, where ?'a = nat] by simp
  then have "x \<le> - 1" by (simp add: word_le_nat_alt unat_max)
  then have "unat (- 1 - x) = unat (- 1 :: u64) - unat x" by (rule unat_sub)
  then show ?thesis unfolding unat_max .
qed

lemma unat_min: "unat (min a b :: u64) = min (unat a) (unat b)"
  by (simp add: min_def word_le_nat_alt)

lemma linear_delay_exact:
  assumes "unat now + 3600000 < 2 ^ 64"
  shows "unat (linear_delay now r ONE_MINUTE_MS MAX_DELAY_TIME_MS) = unat now + min (60000 * unat r) 3600000"
proof -
  have m: "unat (MAX_DELAY_TIME_MS + now) = 3600000 + unat now"
    using assms by (subst unat_plus_simple[THEN iffD1]) (simp_all add: delay_times word_le_nat_alt unat_word_ariths)
  note big = unat_max
  have div: "ONE_MINUTE_MS > - 1 div r \<longleftrightarrow> 2 ^ 64 - 1 < 60000 * unat r" if "r > 0"
  proof -
    have "0 < unat r" using that by (simp add: word_less_nat_alt)
    then have "(2 ^ 64 - 1) div unat r < 60000 \<longleftrightarrow> 2 ^ 64 - 1 < 60000 * unat r"
      by (simp add: div_less_iff_less_mult)
    then show ?thesis by (simp add: word_less_nat_alt unat_div big delay_times)
  qed
  show ?thesis
  proof (cases "r > 0 \<and> 60000 * unat r < 2 ^ 64")
    case True
    have p: "unat (ONE_MINUTE_MS * r) = 60000 * unat r" using True by (simp add: delay_times unat_word_ariths)
    show ?thesis
    proof (cases "unat now + 60000 * unat r < 2 ^ 64")
      case fits: True
      have "unat (now + ONE_MINUTE_MS * r) = unat now + 60000 * unat r" using fits p by (simp add: unat_word_ariths)
      moreover have "\<not> now > - 1 - ONE_MINUTE_MS * r" using fits by (simp add: word_less_nat_alt unat_top p)
      ultimately show ?thesis using True div by (simp add: linear_delay_def Let_def unat_min m)
    next
      case False
      then have "now > - 1 - ONE_MINUTE_MS * r" using True unfolding word_less_nat_alt unat_top p by linarith
      then show ?thesis using True div False assms by (simp add: linear_delay_def Let_def unat_min m big)
    qed
  next
    case False
    then show ?thesis using div assms by (auto simp: linear_delay_def Let_def unat_min m big word_less_nat_alt unat_eq_0)
  qed
qed

end
