(* ===== verification/Dead_Processes.thy ===== *)
theory Dead_Processes
  imports Removal_Queue
begin

text \<open>
  Progress of the background thread: what one round does to the queue of removals, and that it gives
  back the memory of processes that have ended as long as the engine accepts.
\<close>

section \<open>One round over the queue\<close>

abbreviation queue :: "'w daemon \<Rightarrow> ((u64 \<times> string) \<times> DelayRemovedKey) set" where
  "queue d \<equiv> set (delayedRemoveKeys (d_mon d))"

lemma mon_base:
  "keeps (\<lambda>d. Q (d_mon d)) (ask f)" "keeps (\<lambda>d. Q (d_mon d)) (call_store g)" "keeps (\<lambda>d. Q (d_mon d)) (modify (d_mls_update h))"
  "keeps (\<lambda>d. Q (d_mon d)) (modify (d_shm_update i))" "keeps (\<lambda>d. Q (d_mon d)) (modify (d_adapter_update l))"
  by (simp_all add: triple_def)

lemma mon_managers:
  "keeps (\<lambda>d. Q (d_mon d)) (DeleteUsedMem n)" "keeps (\<lambda>d. Q (d_mon d)) (PreDeleteUsedMem n)"
  "keeps (\<lambda>d. Q (d_mon d)) (AddMemoryUserInfo n pid)" "keeps (\<lambda>d. Q (d_mon d)) (RemoveMemoryUserInfo n pid)"
  "keeps (\<lambda>d. Q (d_mon d)) (UpdateShareMemoryRecordState n s)" "keeps (\<lambda>d. Q (d_mon d)) (RemoveMemoryInfo n force)"
  unfolding DeleteUsedMem_def DeleteMemRecord_def PreDeleteUsedMem_def BufferUsedMemory_def UpdateMemRecord_def
    Repository_UpdateMemRecordState_def find_used_def AddMemoryUserInfo_def RemoveMemoryUserInfo_def
    UpdateShareMemoryRecordState_def RemoveMemoryInfo_def find_shm_def
  by (intro keeps_intros mon_base keeps_drop_refs)+

lemma mon_adapter:
  "keeps (\<lambda>d. Q (d_mon d)) (GetTimeOutTaskStatus E n b)" "keeps (\<lambda>d. Q (d_mon d)) (LeaseFree E n b)"
  "keeps (\<lambda>d. Q (d_mon d)) (FdPermissionChange E n ctx mode)" "keeps (\<lambda>d. Q (d_mon d)) (GetTimeOutShmTaskStatus E n a)"
  "keeps (\<lambda>d. Q (d_mon d)) (Ubse_ShmDetach E n)" "keeps (\<lambda>d. Q (d_mon d)) (Ubse_ShmDelete E n)"
  unfolding GetTimeOutTaskStatus_def LeaseFree_def FdPermissionChange_def GetTimeOutShmTaskStatus_def Ubse_ShmDetach_def
    Ubse_ShmDelete_def Initialize_def
  by (intro keeps_intros mon_base)+

lemma mon_cleaner:
  "keeps (\<lambda>d. Q (d_mon d)) (CleanLeaseMemoryLeakInner E n ctx c t b)" "keeps (\<lambda>d. Q (d_mon d)) (CleanShareMemoryLeakInner E n ctx t a s)"
  unfolding CleanLeaseMemoryLeakInner_def clean_timed_out_lease_def GetUsedMemByName_def find_used_def
    CleanShareMemoryLeakInner_def TryRollBackTimeoutShmTask_def
  by (intro keeps_intros mon_base mon_managers mon_adapter)+

text \<open>A removal that is queued again: one more attempt, and the time of the next one.\<close>

definition retry_of :: "'w env \<Rightarrow> DelayRemovedKey \<Rightarrow> DelayRemovedKey \<Rightarrow> bool" where
  "retry_of E k k' \<longleftrightarrow> (\<exists>c w. k' = k\<lparr>dk_retryTimes := dk_retryTimes k + 1, dk_changed := c,
     dk_expiresTime := linear_delay (fst (os_now E w)) (dk_retryTimes k + 1) ONE_MINUTE_MS MAX_DELAY_TIME_MS\<rparr>)"

definition tried :: "DelayRemovedKey \<Rightarrow> DelayRemovedKey \<Rightarrow> bool" where
  "tried k k' \<longleftrightarrow> (\<exists>c. k' = k\<lparr>dk_retryTimes := dk_retryTimes k + 1, dk_changed := c\<rparr>)"

lemma attempt_trace:
  fixes E :: "'w env"
  shows "triple (\<lambda>d. queue_ok (d_mon d) \<and> queue d = S) (attempt_removal E k)
     (\<lambda>a d. queue_ok (d_mon d) \<and> queue d = {e \<in> S. fst e \<noteq> delay_key k} \<and> tried k (snd a))"
proof (rule tripleI)
  fix d :: "'w daemon"
  assume A: "queue_ok (d_mon d) \<and> queue d = S"
  let ?k = "k\<lparr>dk_retryTimes := dk_retryTimes k + 1\<rparr>"
  let ?m = "if dk_isLease ?k then do {
         (ret, changed) \<leftarrow> CleanLeaseMemoryLeakInner E (dk_name ?k) (dk_appCtx ?k) (dk_changed ?k)
            (dk_timeOutScene ?k) (dk_isNumaLease ?k);
         return (ret, ?k\<lparr>dk_changed := changed\<rparr>) }
       else do {
         ret \<leftarrow> CleanShareMemoryLeakInner E (dk_name ?k) (dk_appCtx ?k) (dk_timeOutScene ?k) (dk_isAttach ?k) (dk_createSeqNo ?k);
         return (ret, ?k) }"
  obtain ret k' d1 where r: "run_state ?m d = ((ret, k'), d1)" by (metis surj_pair)
  have "keeps (\<lambda>d. queue_ok (d_mon d) \<and> queue d = S) ?m"
    by (intro keeps_intros mon_cleaner)
  from keeps_run[OF this A] have A1: "queue_ok (d_mon d1)" "queue d1 = S" using r by simp_all
  have "\<exists>c. ?k = k\<lparr>dk_retryTimes := dk_retryTimes k + 1, dk_changed := c\<rparr>" by (rule exI[of _ "dk_changed k"]) simp
  then have k': "tried k k'" using r by (auto simp: tried_def split_beta split: if_splits)
  then have "delay_key k' = delay_key k" by (auto simp: tried_def delay_key_def)
  moreover have "run_state (attempt_removal E k) d = ((ret, k'), d_mon_update (erase_delayed k') d1)"
    unfolding attempt_removal_def Let_def by (subst run_bind, simp only: r) simp
  ultimately show "queue_ok (d_mon (snd (run_state (attempt_removal E k) d))) \<and>
      queue (snd (run_state (attempt_removal E k) d)) = {e \<in> S. fst e \<noteq> delay_key k} \<and> tried k (snd (fst (run_state (attempt_removal E k) d)))"
    using k' A1 erase_delayed_ok[OF A1(1), of k'] erase_delayed_set[OF A1(1), of k'] by simp
qed

text \<open>
  The keys attempted one after the other with the code of each attempt, and those of them that
  failed.  After a failure the clock is read for the time of the next attempt.
\<close>

fun outcomes :: "'w env \<Rightarrow> DelayRemovedKey list \<Rightarrow> 'w daemon \<Rightarrow> (DelayRemovedKey \<times> int) list" where
  "outcomes E [] d = []"
| "outcomes E (k # ks) d =
     (let ((ret, _), d1) = run_state (attempt_removal E k) d in
      (k, ret) # outcomes E ks (if ret \<noteq> 0 then d1\<lparr>d_world := snd (os_now E (d_world d1))\<rparr> else d1))"

definition failed :: "'w env \<Rightarrow> DelayRemovedKey list \<Rightarrow> 'w daemon \<Rightarrow> DelayRemovedKey list" where
  "failed E ks d = map fst (filter (\<lambda>a. snd a \<noteq> 0) (outcomes E ks d))"

lemma attempts_trace:
  assumes "queue_ok (d_mon d)" "run_state (attempt_removals E ks fs) d = (fs', d')"
  shows "queue_ok (d_mon d') \<and> queue d' = {e \<in> queue d. fst e \<notin> delay_key ` set ks} \<and>
    (\<exists>rs. fs' = fs @ rs \<and> list_all2 (retry_of E) (failed E ks d) rs)"
  using assms
proof (induction ks arbitrary: fs d)
  case Nil
  then show ?case by (simp add: failed_def)
next
  case (Cons k ks)
  obtain ret k' d1 where r: "run_state (attempt_removal E k) d = ((ret, k'), d1)" by (metis surj_pair)
  have A: "queue_ok (d_mon d1)" "queue d1 = {e \<in> queue d. fst e \<noteq> delay_key k}" "tried k k'"
    using tripleD[OF attempt_trace, of d "queue d" E k] Cons.prems(1) r by simp_all
  define again where "again = k'\<lparr>dk_expiresTime := linear_delay (fst (os_now E (d_world d1))) (dk_retryTimes k') ONE_MINUTE_MS MAX_DELAY_TIME_MS\<rparr>"
  define d2 where "d2 = (if ret \<noteq> 0 then d1\<lparr>d_world := snd (os_now E (d_world d1))\<rparr> else d1)"
  have run: "run_state (attempt_removals E ks (if ret \<noteq> 0 then fs @ [again] else fs)) d2 = (fs', d')"
    using Cons.prems(2) r by (simp add: run_bind LinearDelayMs_def again_def d2_def split: if_splits)
  have "queue_ok (d_mon d2)" "queue d2 = {e \<in> queue d. fst e \<noteq> delay_key k}" using A by (simp_all add: d2_def)
  note IH = Cons.IH[OF this(1) run] and q2 = this(2)
  have "retry_of E k again"
    using A(3) unfolding tried_def retry_of_def again_def by (elim exE, intro exI[of _ "d_world d1"] exI) simp
  moreover have "failed E (k # ks) d = (if ret \<noteq> 0 then k # failed E ks d2 else failed E ks d2)"
    using r by (simp add: failed_def d2_def)
  ultimately have "\<exists>rs. fs' = fs @ rs \<and> list_all2 (retry_of E) (failed E (k # ks) d) rs"
    using IH by (cases "ret = 0") auto
  then show ?case using IH q2 by auto
qed

lemma requeue:
  "queue_ok (d_mon d) \<Longrightarrow> queue_ok (d_mon (snd (run_state (for_each ks AddDelayRemoveRecord) d))) \<and>
    queue d \<subseteq> queue (snd (run_state (for_each ks AddDelayRemoveRecord) d)) \<and>
    queue (snd (run_state (for_each ks AddDelayRemoveRecord) d)) \<subseteq> queue d \<union> (\<lambda>k. (delay_key k, k)) ` set ks \<and>
    delay_key ` set ks \<subseteq> fst ` queue (snd (run_state (for_each ks AddDelayRemoveRecord) d))"
proof (induction ks arbitrary: d)
  case (Cons k ks)
  let ?d = "d_mon_update (add_delayed k) d"
  have "queue_ok (d_mon ?d)" "delay_key k \<in> fst ` queue ?d" using Cons.prems by (simp_all add: add_delayed_ok add_delayed_set)
  with Cons.IH[of ?d] show ?case by (auto simp: AddDelayRemoveRecord_def add_delayed_set split: if_splits intro: rev_image_eqI)
qed simp

text \<open>The removals due, in the order of their times, and the state in which the first one is attempted.\<close>

definition due :: "'w env \<Rightarrow> 'w daemon \<Rightarrow> DelayRemovedKey list" where
  "due E d = filter (\<lambda>k. dk_expiresTime k \<le> fst (os_now E (d_world d))) (map snd (delayedRemoveKeys (d_mon d)))"

definition clock_read :: "'w env \<Rightarrow> 'w daemon \<Rightarrow> 'w daemon" where
  "clock_read E d = d\<lparr>d_world := snd (os_now E (d_world d))\<rparr>"

lemma due_keys:
  assumes "queue_ok (d_mon d)" "e \<in> queue d"
  shows "fst e \<in> delay_key ` set (due E d) \<longleftrightarrow> dk_expiresTime (snd e) \<le> fst (os_now E (d_world d))"
proof
  assume "fst e \<in> delay_key ` set (due E d)"
  then obtain k where "k \<in> set (due E d)" "fst e = delay_key k" by blast
  then show "dk_expiresTime (snd e) \<le> fst (os_now E (d_world d))"
    using queue_ok_entry[OF assms] by (simp add: due_def delay_key_def)
next
  assume "dk_expiresTime (snd e) \<le> fst (os_now E (d_world d))"
  then have "snd e \<in> set (due E d)" using assms(2) by (simp add: due_def)
  then show "fst e \<in> delay_key ` set (due E d)" using queue_ok_entry[OF assms] by blast
qed

lemma RemoveDelayBorrows_trace:
  assumes "queue_ok (d_mon d)" "mo_running (d_mon d)" "d' = snd (run_state (RemoveDelayBorrows E) d)"
  shows "{e \<in> queue d. snd e \<notin> set (due E d)} \<subseteq> queue d'"
    "k \<in> set (failed E (due E d) (clock_read E d)) \<Longrightarrow> \<exists>e\<in>queue d'. \<exists>k'. retry_of E k k' \<and> delay_key (snd e) = delay_key k'"
    "e \<in> queue d' \<Longrightarrow> e \<in> queue d \<and> snd e \<notin> set (due E d) \<or>
       (\<exists>k\<in>set (failed E (due E d) (clock_read E d)). retry_of E k (snd e))"
proof -
  obtain fs d1 where r: "run_state (attempt_removals E (due E d) []) (clock_read E d) = (fs, d1)" by (metis surj_pair)
  have T: "queue_ok (d_mon d1)" "queue d1 = {e \<in> queue d. fst e \<notin> delay_key ` set (due E d)}"
    "list_all2 (retry_of E) (failed E (due E d) (clock_read E d)) fs"
    using attempts_trace[OF _ r] assms(1) by (auto simp: clock_read_def)
  have left: "queue d1 = {e \<in> queue d. snd e \<notin> set (due E d)}"
    unfolding T(2)
  proof (intro Collect_cong conj_cong refl)
    fix e assume e: "e \<in> queue d"
    then have "snd e \<in> set (due E d) \<longleftrightarrow> dk_expiresTime (snd e) \<le> fst (os_now E (d_world d))" by (simp add: due_def)
    then show "fst e \<notin> delay_key ` set (due E d) \<longleftrightarrow> snd e \<notin> set (due E d)" using due_keys[OF assms(1) e, of E] by simp
  qed
  have d': "d' = (if delayedRemoveKeys (d_mon d) = [] then clock_read E d else snd (run_state (for_each fs AddDelayRemoveRecord) d1))"
    using assms(2,3) r by (simp add: RemoveDelayBorrows_def run_bind due_def clock_read_def)
  have none: "fs = [] \<and> queue d1 = {}" if "delayedRemoveKeys (d_mon d) = []"
    using that T(2,3) by (simp add: due_def failed_def)
  note Q = requeue[OF T(1), of fs]
  show "{e \<in> queue d. snd e \<notin> set (due E d)} \<subseteq> queue d'"
    unfolding d' left[symmetric] using Q none by auto
  show "\<exists>e\<in>queue d'. \<exists>k'. retry_of E k k' \<and> delay_key (snd e) = delay_key k'"
    if k: "k \<in> set (failed E (due E d) (clock_read E d))"
  proof -
    obtain k' where k': "k' \<in> set fs" "retry_of E k k'" using T(3) k unfolding list_all2_conv_all_nth in_set_conv_nth by metis
    then have ne: "delayedRemoveKeys (d_mon d) \<noteq> []" using none by auto
    then obtain e where "e \<in> queue d'" "fst e = delay_key k'" using Q k'(1) unfolding d' by auto
    moreover have "fst e = delay_key (snd e)" using queue_ok_entry[OF conjunct1[OF Q]] \<open>e \<in> queue d'\<close> ne unfolding d' by simp
    ultimately show ?thesis using k'(2) by auto
  qed
  have tried: "\<exists>k\<in>set (failed E (due E d) (clock_read E d)). retry_of E k k'" if "k' \<in> set fs" for k'
    using T(3) that unfolding list_all2_conv_all_nth by (metis in_set_conv_nth)
  assume "e \<in> queue d'"
  then have "e \<in> queue d1 \<or> snd e \<in> set fs" using Q unfolding d' by (auto simp: clock_read_def split: if_splits)
  then show "e \<in> queue d \<and> snd e \<notin> set (due E d) \<or> (\<exists>k\<in>set (failed E (due E d) (clock_read E d)). retry_of E k (snd e))"
    using tried unfolding left by blast
qed

section \<open>Leases are given back\<close>

abbreviation used :: "'w daemon \<Rightarrow> string \<rightharpoonup> MLSMemInfo" where
  "used d \<equiv> map_of (usedMemory (d_mls d))"

text \<open>An engine that accepts: the library loads, permissions can be changed, and memory can be given back or is gone already.\<close>

definition gives_back :: "int \<Rightarrow> bool" where
  "gives_back res \<longleftrightarrow> res = 0 \<or> res = UBS_ENGINE_ERR_UNIMPORT_SUCCESS \<or> res = UBS_ENGINE_ERR_NOT_EXIST"

definition engine_accepts :: "'w env \<Rightarrow> bool" where
  "engine_accepts E \<longleftrightarrow> (\<forall>w. fst (ubse_dlopen E w) = 0) \<and> (\<forall>n ctx mode w. fst (ubse_fd_permission E n ctx mode w) = 0) \<and>
     (\<forall>n w. gives_back (fst (ubse_fd_delete E n w))) \<and> (\<forall>n w. gives_back (fst (ubse_numa_delete E n w)))"

lemma Initialize_ok: "engine_accepts E \<Longrightarrow> fst (run_state (Initialize E) d) = 0"
  by (simp add: Initialize_def engine_accepts_def MXM_OK_def Let_def)

lemma accepted:
  assumes "engine_accepts E"
  shows "fst (run_state (FdPermissionChange E n ctx mode) d) = 0"
    "fst (run_state (LeaseFree E n b) d) \<in> {0, MXM_ERR_LEASE_NOT_EXIST}"
proof -
  obtain d1 where i: "run_state (Initialize E) d = (0, d1)" using Initialize_ok[OF assms, of d] by (metis prod.collapse)
  have "free_code res \<in> {0, MXM_ERR_LEASE_NOT_EXIST}" if "gives_back res" for res
    using that by (auto simp: gives_back_def free_code_def MXM_OK_def)
  then show "fst (run_state (FdPermissionChange E n ctx mode) d) = 0"
    "fst (run_state (LeaseFree E n b) d) \<in> {0, MXM_ERR_LEASE_NOT_EXIST}"
    using assms i by (simp_all add: FdPermissionChange_def LeaseFree_def engine_accepts_def MXM_OK_def)
qed

lemma frame_bind:
  assumes "preserves services m" "\<And>d. fst (run_state m d) \<in> A" "\<And>d d'. services d = services d' \<Longrightarrow> I d \<Longrightarrow> I d'"
    "\<And>a. a \<in> A \<Longrightarrow> triple I (f a) Q"
  shows "triple I (State_Monad.bind m f) Q"
proof (rule triple_bind[where R = "\<lambda>a d. I d \<and> a \<in> A"])
  show "triple I m (\<lambda>a d. I d \<and> a \<in> A)" using tripleD[OF services_keep[OF assms(1,3)]] assms(2) by (auto intro!: tripleI)
  show "triple (\<lambda>d. I d \<and> a \<in> A) (f a) Q" for a using assms(4) by (auto simp: triple_def)
qed

lemma services_lease: "services d = services d' \<Longrightarrow> lease_inv Orph d \<Longrightarrow> lease_inv Orph d'"
  by (simp add: services_def lease_inv_def)

lemma DeleteUsedMem_gone: "triple (lease_inv Orph) (DeleteUsedMem n) (\<lambda>_ d. used d n = None)"
proof (rule tripleI)
  fix d :: "'w daemon"
  assume inv: "lease_inv Orph d"
  show "used (snd (run_state (DeleteUsedMem n) d)) n = None"
  proof (cases "used d n")
    case (Some i)
    note U = placed_used[OF lease_invD(2)[OF inv] Some]
    have "fst (exec_op (OpDelLease n) (d_store d)) = 0"
      using held_call_ok(3)[OF inv conjunct1[OF U]] U by (simp del: exec_op.simps)
    then show ?thesis using Some by (simp add: DeleteUsedMem_def find_used_def repository_op map_of_erase del: exec_op.simps)
  qed (simp add: DeleteUsedMem_def find_used_def)
qed

lemma PreDeleteUsedMem_gone:
  "triple (lease_inv Orph) (PreDeleteUsedMem n) (\<lambda>ret d. lease_inv Orph d \<and> (ret \<noteq> 0 \<longrightarrow> used d n = None))"
proof (rule tripleI)
  fix d :: "'w daemon"
  assume inv: "lease_inv Orph d"
  let ?r = "run_state (PreDeleteUsedMem n) d"
  have "fst ?r \<noteq> 0 \<longrightarrow> used (snd ?r) n = None"
  proof (cases "used d n")
    case (Some i)
    show ?thesis unfolding PreDeleteUsedMem_run[OF inv Some] by (simp add: map_of_erase buffered_update_def)
  qed (simp add: PreDeleteUsedMem_def find_used_def)
  then show "lease_inv Orph (snd ?r) \<and> (fst ?r \<noteq> 0 \<longrightarrow> used (snd ?r) n = None)"
    using keeps_run[OF PreDeleteUsedMem_keeps inv] by blast
qed

lemma CleanLease_gone:
  fixes E :: "'w env"
  assumes "engine_accepts E"
  shows "triple (lease_inv Orph) (CleanLeaseMemoryLeakInner E n ctx c False b) (\<lambda>_ d. used d n = None)"
proof (rule tripleI)
  fix d :: "'w daemon"
  assume inv: "lease_inv Orph d"
  show "used (snd (run_state (CleanLeaseMemoryLeakInner E n ctx c False b) d)) n = None"
  proof (cases "used d n")
    case None
    then show ?thesis by (simp add: CleanLeaseMemoryLeakInner_def GetUsedMemByName_def find_used_def)
  next
    case (Some i)
    have del: "triple (lease_inv Orph) (do { hr \<leftarrow> DeleteUsedMem n; return (g hr) }) (\<lambda>_ d. used d n = None)" for g :: "int \<Rightarrow> int \<times> bool"
      by (rule triple_bind[OF DeleteUsedMem_gone]) (simp add: triple_def)
    have free: "triple (lease_inv Orph) (do { hr \<leftarrow> LeaseFree E n k;
        if hr \<noteq> 0 \<and> hr \<noteq> MXM_ERR_LEASE_NOT_EXIST then return (hr, c')
        else do { hr \<leftarrow> DeleteUsedMem n; return (if hr \<noteq> 0 then MXM_ERR_RECORD_DELETE else 0, c') } }) (\<lambda>_ d. used d n = None)" for c' :: bool and k
      by (rule frame_bind[OF LeaseFree_frame accepted(2)[OF assms] services_lease])
        (auto intro!: del[of "\<lambda>hr. (if hr \<noteq> 0 then MXM_ERR_RECORD_DELETE else 0, c')"])
    have pre: "triple (lease_inv Orph) (do { ret \<leftarrow> PreDeleteUsedMem n;
        if ret = 0 then do { hr \<leftarrow> LeaseFree E n k;
          if hr \<noteq> 0 \<and> hr \<noteq> MXM_ERR_LEASE_NOT_EXIST then return (hr, c')
          else do { hr \<leftarrow> DeleteUsedMem n; return (if hr \<noteq> 0 then MXM_ERR_RECORD_DELETE else 0, c') } }
        else if ret \<noteq> 1 then return (ret, c') else return (0, c') }) (\<lambda>_ d. used d n = None)" for c' :: bool and k
      by (rule triple_bind[OF PreDeleteUsedMem_gone], rule triple_if) (rule triple_conseq[OF free], auto simp: triple_def)
    have perm: "triple (lease_inv Orph) (do { hr \<leftarrow> (if p then FdPermissionChange E n ctx (S_IRUSR OR S_IWUSR) else return 0);
        if hr \<noteq> 0 then return (hr, c) else f }) (\<lambda>_ d. used d n = None)"
      if "triple (lease_inv Orph) f (\<lambda>_ d. used d n = None)" for p and f :: "('w, int \<times> bool) act"
    proof (rule frame_bind[where A = "{0}", OF _ _ services_lease])
      show "preserves services (if p then FdPermissionChange E n ctx (S_IRUSR OR S_IWUSR) else return 0)"
        by (intro allI keeps_intros frame_keeps[OF FdPermissionChange_frame])
    qed (use that accepted(1)[OF assms] in auto)
    define c' where "c' = (c \<or> \<not> mi_isNuma i)"
    define body where "body = (do { hr \<leftarrow> (if \<not> mi_isNuma i \<and> \<not> c then FdPermissionChange E n ctx (S_IRUSR OR S_IWUSR) else return 0);
        if hr \<noteq> 0 then return (hr, c) else do { ret \<leftarrow> PreDeleteUsedMem n;
        if ret = 0 then do { hr \<leftarrow> LeaseFree E n (mi_isNuma i);
          if hr \<noteq> 0 \<and> hr \<noteq> MXM_ERR_LEASE_NOT_EXIST then return (hr, c')
          else do { hr \<leftarrow> DeleteUsedMem n; return (if hr \<noteq> 0 then MXM_ERR_RECORD_DELETE else 0, c') } }
        else if ret \<noteq> 1 then return (ret, c') else return (0, c') } })"
    have "run_state (CleanLeaseMemoryLeakInner E n ctx c False b) d =
        run_state (if mi_state i = DELETED then do { DeleteUsedMem n; return (MXM_OK, c) } else body) d"
      unfolding CleanLeaseMemoryLeakInner_def GetUsedMemByName_def find_used_def Let_def body_def c'_def using Some by simp
    moreover have "used (snd (run_state body d)) n = None" unfolding body_def by (rule tripleD[OF perm[OF pre] inv])
    ultimately show ?thesis using tripleD[OF del[of "\<lambda>_. (MXM_OK, c)"] inv] by (cases "mi_state i = DELETED") simp_all
  qed
qed


text \<open>Attempts only take leases out of use, each at most the one it is for.\<close>

lemma used_base:
  "keeps (\<lambda>d. Q (used d)) (ask f)" "keeps (\<lambda>d. Q (used d)) (call_store g)" "keeps (\<lambda>d. Q (used d)) (modify (d_shm_update i))"
  "keeps (\<lambda>d. Q (used d)) (modify (d_adapter_update l))" "keeps (\<lambda>d. Q (used d)) (modify (d_mon_update j))"
  "keeps (\<lambda>d. Q (used d)) (modify (d_mls_update (buffered_update b h)))"
  by (simp_all add: triple_def buffered_update_def)

lemma used_erase:
  "(\<And>U. Q U \<Longrightarrow> Q (U(n := None))) \<Longrightarrow> keeps (\<lambda>d. Q (used d)) (modify (d_mls_update (usedMemory_update (erase n))))"
  by (simp add: triple_def AList.delete_conv')

lemma used_cleaner:
  assumes "\<And>U. Q U \<Longrightarrow> Q (U(n := None))"
  shows "keeps (\<lambda>d. Q (used d)) (CleanLeaseMemoryLeakInner E n ctx c t b)"
  unfolding CleanLeaseMemoryLeakInner_def clean_timed_out_lease_def GetUsedMemByName_def find_used_def DeleteUsedMem_def DeleteMemRecord_def
    PreDeleteUsedMem_def BufferUsedMemory_def UpdateMemRecord_def Repository_UpdateMemRecordState_def GetTimeOutTaskStatus_def
    LeaseFree_def FdPermissionChange_def Initialize_def
  by (intro keeps_intros used_base used_erase assms)+

lemma used_shm_cleaner: "keeps (\<lambda>d. Q (used d)) (CleanShareMemoryLeakInner E n ctx t a s)"
  unfolding CleanShareMemoryLeakInner_def TryRollBackTimeoutShmTask_def AddMemoryUserInfo_def RemoveMemoryUserInfo_def
    UpdateShareMemoryRecordState_def RemoveMemoryInfo_def find_shm_def GetTimeOutShmTaskStatus_def Ubse_ShmDetach_def Ubse_ShmDelete_def
    Initialize_def
  by (intro keeps_intros used_base keeps_drop_refs)+

lemma used_attempt:
  assumes "\<And>U. dk_isLease k \<Longrightarrow> Q U \<Longrightarrow> Q (U(dk_name k := None))"
  shows "keeps (\<lambda>d. Q (used d)) (attempt_removal E k)"
proof (cases "dk_isLease k")
  case True
  then show ?thesis
    unfolding attempt_removal_def Let_def by simp (intro keeps_intros used_cleaner used_base assms)
next
  case False
  then show ?thesis unfolding attempt_removal_def Let_def by simp (intro keeps_intros used_shm_cleaner used_base)
qed

lemma used_attempts:
  assumes "\<And>U k. k \<in> set ks \<Longrightarrow> dk_isLease k \<Longrightarrow> Q U \<Longrightarrow> Q (U(dk_name k := None))"
  shows "keeps (\<lambda>d. Q (used d)) (attempt_removals E ks fs)"
  using assms
proof (induction ks arbitrary: fs)
  case (Cons k ks)
  have "keeps (\<lambda>d. Q (used d)) (attempt_removal E k)" using Cons.prems by (intro used_attempt) auto
  moreover have "keeps (\<lambda>d. Q (used d)) (attempt_removals E ks fs')" for fs' using Cons.prems by (intro Cons.IH) auto
  ultimately show ?case unfolding attempt_removals.simps LinearDelayMs_def by (intro keeps_intros used_base)
qed (simp add: keeps_return)

lemma map_le_erase: "f \<subseteq>\<^sub>m U \<Longrightarrow> f(n := None) \<subseteq>\<^sub>m U"
  by (auto simp: map_le_def)

lemma map_le_drop: "f \<subseteq>\<^sub>m U \<Longrightarrow> f n = None \<Longrightarrow> f \<subseteq>\<^sub>m U(n := None)"
  by (auto simp: map_le_def)

definition lease_key :: "DelayRemovedKey \<Rightarrow> bool" where
  "lease_key k \<longleftrightarrow> dk_isLease k \<and> \<not> dk_timeOutScene k"

lemma attempt_gone:
  fixes E :: "'w env"
  assumes "engine_accepts E"
  shows "triple (\<lambda>d. daemon_inv O1 O2 d \<and> used d \<subseteq>\<^sub>m U) (attempt_removal E k)
    (\<lambda>_ d. daemon_inv O1 O2 d \<and> used d \<subseteq>\<^sub>m (if lease_key k then U(dk_name k := None) else U))"
proof (rule tripleI)
  fix d :: "'w daemon"
  assume A: "daemon_inv O1 O2 d \<and> used d \<subseteq>\<^sub>m U"
  let ?r = "run_state (attempt_removal E k) d"
  have inv: "daemon_inv O1 O2 (snd ?r)" using keeps_run[OF attempt_removal_keeps, of O1 O2 d E k] A by simp
  have shrink: "keeps (\<lambda>d. used d \<subseteq>\<^sub>m U) (attempt_removal E k)"
    by (rule used_attempt) (rule map_le_erase)
  have le: "used (snd ?r) \<subseteq>\<^sub>m U" by (rule keeps_run[OF shrink conjunct2[OF A]])
  have gone: "used (snd ?r) (dk_name k) = None" if "lease_key k"
  proof -
    have "lease_inv O1 d" using A by (simp add: daemon_inv_def lease_safe_def)
    from tripleD[OF CleanLease_gone[OF assms] this, of "dk_name k" "dk_appCtx k" "dk_changed k" "dk_isNumaLease k"]
    show ?thesis using that by (simp add: attempt_removal_def lease_key_def run_bind split_beta Let_def)
  qed
  show "daemon_inv O1 O2 (snd ?r) \<and> used (snd ?r) \<subseteq>\<^sub>m (if lease_key k then U(dk_name k := None) else U)"
    using inv le map_le_drop[OF le gone] by simp
qed

lemma attempts_gone:
  fixes E :: "'w env"
  assumes "engine_accepts E"
  shows "triple (\<lambda>d. daemon_inv O1 O2 d \<and> used d \<subseteq>\<^sub>m U) (attempt_removals E ks fs)
    (\<lambda>_ d. used d \<subseteq>\<^sub>m U |` (- dk_name ` {k \<in> set ks. lease_key k}))"
proof (induction ks arbitrary: fs U)
  case Nil
  then show ?case by (simp add: triple_def)
next
  case (Cons k ks)
  let ?U = "if lease_key k then U(dk_name k := None) else U"
  let ?N = "dk_name ` {k \<in> set ks. lease_key k}" and ?M = "dk_name ` {k' \<in> set (k # ks). lease_key k'}"
  have le: "?U |` (- ?N) \<subseteq>\<^sub>m U |` (- ?M)"
    by (auto simp: map_le_def restrict_map_def dom_def split: if_splits)
  have rest: "triple (\<lambda>d. daemon_inv O1 O2 d \<and> used d \<subseteq>\<^sub>m ?U) (attempt_removals E ks fs') (\<lambda>_ d. used d \<subseteq>\<^sub>m U |` (- ?M))" for fs'
    by (rule triple_conseq[OF Cons.IH]) (assumption | erule map_le_trans[OF _ le])+
  have clock: "keeps (\<lambda>d. daemon_inv O1 O2 d \<and> used d \<subseteq>\<^sub>m ?U) (LinearDelayMs E r s t)" for r s t
    unfolding LinearDelayMs_def by (intro triple_conj background_intros used_base)
  show ?case
    unfolding attempt_removals.simps
    by (rule triple_bind[OF attempt_gone[OF assms]]) (unfold split_beta, intro triple_if triple_bind[OF clock] rest)
qed

section \<open>Finding the dead\<close>

abbreviation now :: "'w env \<Rightarrow> 'w daemon \<Rightarrow> u64" where
  "now E d \<equiv> fst (os_now E (d_world d))"

text \<open>The steady clock does not go back, and a process that has ended stays so.\<close>

definition clock_steady :: "'w env \<Rightarrow> bool" where
  "clock_steady E \<longleftrightarrow> (\<forall>w. fst (os_now E w) \<le> fst (os_now E (snd (os_now E w)))) \<and>
     (\<forall>p w. fst (os_now E w) \<le> fst (os_now E (snd (os_alive E p w))))"

definition ended :: "'w env \<Rightarrow> u32 \<Rightarrow> bool" where
  "ended E p \<longleftrightarrow> p \<noteq> 0 \<and> (\<forall>w. \<not> fst (os_alive E p w))"

definition lease_due :: "'w env \<Rightarrow> string \<Rightarrow> 'w daemon \<Rightarrow> bool" where
  "lease_due E n d \<longleftrightarrow> (\<exists>e\<in>queue d. lease_key (snd e) \<and> dk_name (snd e) = n \<and> dk_expiresTime (snd e) \<le> now E d)"

text \<open>While the leases in use \<open>U\<close> are looked through: a name that had no removal in the beginning has one that is due, if any.\<close>

definition lease_queue :: "'w env \<Rightarrow> (string \<rightharpoonup> MLSMemInfo) \<Rightarrow> string \<Rightarrow> 'w daemon \<Rightarrow> bool" where
  "lease_queue E U n d \<longleftrightarrow> queue_ok (d_mon d) \<and> used d = U \<and> mo_running (d_mon d) \<and> (n \<in> pending (d_mon d) \<longrightarrow> lease_due E n d)"

lemma lease_due_world:
  assumes "lease_due E n d" "now E d \<le> fst (os_now E w)"
  shows "lease_due E n (d\<lparr>d_world := w\<rparr>)"
  using assms order_trans[OF _ assms(2)] by (auto simp: lease_due_def)

lemma lease_queue_world:
  "lease_queue E U n d \<Longrightarrow> now E d \<le> fst (os_now E w) \<Longrightarrow> lease_queue E U n (d\<lparr>d_world := w\<rparr>)"
  using lease_due_world[of E n d w] by (simp add: lease_queue_def)

lemma queue_lease_run:
  assumes "clock_steady E"
  shows "triple (lease_queue E U n) (queue_lease E i) (\<lambda>_ d. lease_queue E U n d \<and> (mi_name i = n \<longrightarrow> n \<in> pending (d_mon d)))"
proof (rule tripleI)
  fix d assume A: "lease_queue E U n d"
  let ?d = "d\<lparr>d_world := snd (os_now E (d_world d))\<rparr>"
  define k where "k = \<lparr>dk_isLease = True, dk_retryTimes = 0, dk_expiresTime = now E d, dk_name = mi_name i,
      dk_appCtx = mi_appContext i, dk_changed = False, dk_isNumaLease = mi_isNuma i,
      dk_timeOutScene = False, dk_isAttach = False, dk_createSeqNo = 0\<rparr>"
  have le: "now E d \<le> now E ?d" using assms by (simp add: clock_steady_def)
  then have A1: "lease_queue E U n ?d" using lease_queue_world[OF A] by simp
  then have ok: "queue_ok (d_mon d)" by (simp add: lease_queue_def)
  have run: "snd (run_state (queue_lease E i) d) = (if busy_name (mi_name i) (d_mon d) then ?d else d_mon_update (add_delayed k) ?d)"
    by (simp add: queue_lease_def queue_removal_def GetDelayRemoveRecord_def new_DelayRemovedKey_def AddDelayRemoveRecord_def k_def)
  show "lease_queue E U n (snd (run_state (queue_lease E i) d)) \<and>
      (mi_name i = n \<longrightarrow> n \<in> pending (d_mon (snd (run_state (queue_lease E i) d))))"
  proof (cases "busy_name (mi_name i) (d_mon d)")
    case True
    then have "mi_name i \<in> fst ` set (delayedRemoveKeysByName (d_mon d))" by (simp add: busy_name_def map_of_eq_None_iff)
    then have "mi_name i \<in> pending (d_mon d)" using ok by (auto simp: queue_ok_def)
    then show ?thesis unfolding run using True A1 by auto
  next
    case False
    let ?d' = "d_mon_update (add_delayed k) ?d"
    have k: "lease_key k" "dk_expiresTime k \<le> now E ?d" "dk_name k = mi_name i" using le by (simp_all add: k_def lease_key_def)
    have P: "pending (d_mon ?d') = insert (mi_name i) (pending (d_mon d))" using add_delayed_pending[OF ok, of k] k(3) by simp
    have "lease_due E n ?d'" if "n \<in> pending (d_mon ?d')"
    proof (cases "n \<in> pending (d_mon d)")
      case True
      then show ?thesis using A1 by (auto simp: lease_queue_def lease_due_def add_delayed_set)
    next
      case new: False
      then have n: "mi_name i = n" using that P by simp
      have "delay_key k \<notin> fst ` queue d"
      proof
        assume "delay_key k \<in> fst ` queue d"
        then obtain e where "e \<in> queue d" "delay_key k = fst e" by blast
        then have "dk_name (snd e) = n" using queue_ok_entry[OF ok] k(3) n by (simp add: delay_key_def)
        then show False using new \<open>e \<in> queue d\<close> by (auto simp: pending_def)
      qed
      then show ?thesis using k n by (auto simp: lease_due_def add_delayed_set)
    qed
    moreover have "mo_running (add_delayed k m) = mo_running m" for m by (simp add: add_delayed_def)
    ultimately show ?thesis
      unfolding run using False A1 P add_delayed_ok[OF ok, of k] by (auto simp: lease_queue_def)
  qed
qed

lemma alive_queue: "clock_steady E \<Longrightarrow> keeps (lease_queue E U n) (ask (os_alive E p))"
  using lease_queue_world by (fastforce simp: triple_def clock_steady_def)

abbreviation check_lease :: "'w env \<Rightarrow> MLSMemInfo \<Rightarrow> ('w, unit) act" where
  "check_lease E ls \<equiv> (if app_pid (mi_appContext ls) = 0 then return ()
       else do { alive \<leftarrow> ask (os_alive E (app_pid (mi_appContext ls))); if alive then return () else queue_lease E ls })"

lemma leases_queued:
  fixes E :: "'w env"
  assumes "clock_steady E"
  shows "triple (\<lambda>d. lease_queue E U n d \<and> (b \<longrightarrow> n \<in> pending (d_mon d))) (for_each xs (check_lease E))
     (\<lambda>_ d. lease_queue E U n d \<and> (b \<or> (\<exists>i\<in>set xs. mi_name i = n \<and> ended E (info_pid i)) \<longrightarrow> n \<in> pending (d_mon d)))"
proof (induction xs arbitrary: b)
  case Nil
  then show ?case by (simp add: triple_def)
next
  case (Cons i xs)
  let ?b = "b \<or> mi_name i = n \<and> ended E (info_pid i)"
  have stays: "keeps (\<lambda>d. n \<in> pending (d_mon d)) (queue_lease E j)" for j
    unfolding queue_lease_def queue_removal_def GetDelayRemoveRecord_def new_DelayRemovedKey_def AddDelayRemoveRecord_def
    by (intro keeps_intros mon_base keeps_modify) (auto simp: pending_def add_delayed_set)
  have "triple (\<lambda>d. lease_queue E U n d \<and> (b \<longrightarrow> n \<in> pending (d_mon d))) (check_lease E i)
      (\<lambda>_ d. lease_queue E U n d \<and> (?b \<longrightarrow> n \<in> pending (d_mon d)))"
  proof (rule tripleI)
    fix d assume A: "lease_queue E U n d \<and> (b \<longrightarrow> n \<in> pending (d_mon d))"
    let ?d = "snd (run_state (ask (os_alive E (info_pid i))) d)"
    have A1: "lease_queue E U n ?d" by (rule keeps_run[OF alive_queue[OF assms] conjunct1[OF A]])
    have "ended E (info_pid i) \<Longrightarrow> \<not> fst (os_alive E (info_pid i) (d_world d))" by (simp add: ended_def)
    moreover have "n \<in> pending (d_mon ?d) \<Longrightarrow> n \<in> pending (d_mon (snd (run_state (queue_lease E i) ?d)))"
      by (rule keeps_run[OF stays])
    ultimately show "lease_queue E U n (snd (run_state (check_lease E i) d)) \<and>
        (?b \<longrightarrow> n \<in> pending (d_mon (snd (run_state (check_lease E i) d))))"
      using A A1 tripleD[OF queue_lease_run[OF assms] A1, of i] by (auto simp: ended_def)
  qed
  from triple_bind[OF this Cons.IH[of ?b]] show ?case unfolding for_each.simps by (auto simp: triple_def)
qed

text \<open>The shared memory found afterwards leaves these removals in the queue.\<close>

definition leases_due :: "'w env \<Rightarrow> (string \<rightharpoonup> MLSMemInfo) \<Rightarrow> string \<Rightarrow> 'w daemon \<Rightarrow> bool" where
  "leases_due E U n d \<longleftrightarrow> used d = U \<and> mo_running (d_mon d) \<and> lease_due E n d"

lemma due_base:
  assumes "clock_steady E"
  shows "keeps (leases_due E U n) (ask (os_alive E p))" "keeps (leases_due E U n) (ask (os_now E))"
    "keeps (leases_due E U n) (AddDelayRemoveRecord k)" "keeps (leases_due E U n) (call_store g)"
    "keeps (leases_due E U n) (modify (d_shm_update f))"
proof -
  show "keeps (leases_due E U n) (ask (os_alive E p))" "keeps (leases_due E U n) (ask (os_now E))"
    using assms lease_due_world[of E n] by (auto intro!: tripleI simp: clock_steady_def leases_due_def)
  have "mo_running (add_delayed k m) = mo_running m" for m by (simp add: add_delayed_def)
  then show "keeps (leases_due E U n) (AddDelayRemoveRecord k)"
    by (intro tripleI) (auto simp: AddDelayRemoveRecord_def leases_due_def lease_due_def add_delayed_set)
qed (simp_all add: triple_def leases_due_def lease_due_def)

lemma shm_start_due:
  assumes "clock_steady E"
  shows "keeps (leases_due E U n) (CleanShareMemoryLeakWhenStart E)"
proof -
  note I = keeps_intros due_base[OF assms]
  have "keeps (leases_due E U n) (dead_processes E us ds)" for us ds by (induction us arbitrary: ds) (auto intro!: I)
  moreover have "keeps (leases_due E U n) (SHMProcessDeadProcess E p)" for p
    unfolding SHMProcessDeadProcess_def GetMemoryUsersByPid_def clean_user_def queue_removal_def GetDelayRemoveRecord_def Let_def
      RemoveMemoryUserInfo_def find_shm_def new_DelayRemovedKey_def
    by (intro I)
  then have "keeps (leases_due E U n) (clean_processes E ds)" for ds by (induction ds) (auto intro!: I)
  ultimately show ?thesis unfolding CleanShareMemoryLeakWhenStart_def GetAllUsers_def by (intro I)
qed

lemma start_due:
  assumes "clock_steady E" "queue_ok (d_mon d)" "mo_running (d_mon d)" "n \<notin> pending (d_mon d)"
    "used d n = Some i" "mi_name i = n" "ended E (info_pid i)"
  shows "leases_due E (used d) n (snd (run_state (LeakCleaner_Start E) d))"
proof -
  define xs where "xs = fst (run_state ListAllMem d)"
  let ?d = "snd (run_state (for_each xs (check_lease E)) d)"
  have "i \<in> set xs" using assms(5) by (auto simp: xs_def ListAllMem_def dest!: map_of_SomeD intro: rev_image_eqI)
  moreover have "lease_queue E (used d) n d \<and> (False \<longrightarrow> n \<in> pending (d_mon d))" using assms by (simp add: lease_queue_def)
  ultimately have "leases_due E (used d) n ?d"
    using tripleD[OF leases_queued[OF assms(1)], of "used d" n d False xs] assms(6,7) by (auto simp: lease_queue_def leases_due_def)
  from keeps_run[OF shm_start_due[OF assms(1)] this]
  have "leases_due E (used d) n (snd (run_state (CleanShareMemoryLeakWhenStart E) ?d))" .
  moreover have "snd (run_state (LeakCleaner_Start E) d) = snd (run_state (CleanShareMemoryLeakWhenStart E) ?d)"
    by (simp add: LeakCleaner_Start_def CleanLeaseMemoryLeakWhenStart_def ListAllMem_def xs_def split_beta UBSM_OK_def)
  ultimately show ?thesis by simp
qed

section \<open>Sparing the living\<close>

text \<open>While removals are collected the leases stay what they are, \<open>M\<close>, and none of the removals is for the lease \<open>n\<close>.\<close>

definition spared :: "mls_manager \<Rightarrow> string \<Rightarrow> 'w daemon \<Rightarrow> bool" where
  "spared M n d \<longleftrightarrow> d_mls d = M \<and> mo_running (d_mon d) \<and> (\<forall>e\<in>queue d. dk_isLease (snd e) \<longrightarrow> dk_name (snd e) \<noteq> n)"

lemma spared_base:
  "keeps (spared M n) (ask f)" "keeps (spared M n) (call_store g)" "keeps (spared M n) (modify (d_shm_update h))"
  "keeps (spared M n) (modify (d_mon_update (\<lambda>m. m\<lparr>exitedPids := ps\<rparr>)))"
  by (simp_all add: triple_def spared_def)

lemma spared_removal:
  fixes E :: "'w env"
  assumes "l \<longrightarrow> nm \<noteq> n"
  shows "keeps (spared M n) (do { k \<leftarrow> new_DelayRemovedKey E nm delay l ctx c u t; queue_removal k })"
proof (rule tripleI)
  fix d :: "'w daemon"
  assume A: "spared M n d"
  have "mo_running (add_delayed k m) = mo_running m" for k m by (simp add: add_delayed_def)
  then show "spared M n (snd (run_state (do { k \<leftarrow> new_DelayRemovedKey E nm delay l ctx c u t; queue_removal k }) d))"
    using A assms by (auto simp: new_DelayRemovedKey_def queue_removal_def GetDelayRemoveRecord_def AddDelayRemoveRecord_def
        spared_def add_delayed_set)
qed

lemma spared_shm: "keeps (spared M n) (SHMProcessDeadProcess E p)"
proof -
  have "keeps (spared M n) (clean_user E p m)" for m
    unfolding clean_user_def Let_def RemoveMemoryUserInfo_def find_shm_def by (intro keeps_intros spared_base spared_removal) simp_all
  then show ?thesis unfolding SHMProcessDeadProcess_def GetMemoryUsersByPid_def by (intro keeps_intros)
qed

text \<open>A lease in use, with a name of its own.\<close>

definition sole_lease :: "mls_manager \<Rightarrow> string \<Rightarrow> MLSMemInfo \<Rightarrow> bool" where
  "sole_lease M n i \<longleftrightarrow> inj_on mi_name (held M) \<and> i \<in> held M \<and> mi_name i = n"

lemma lease_inv_sole: "lease_inv Orph d \<Longrightarrow> used d n = Some i \<Longrightarrow> sole_lease (d_mls d) n i"
  using placed_used[of "d_mls d" n i] by (simp add: lease_inv_def agree_def sole_lease_def)

lemma listed_lease:
  assumes "sole_lease M n i" "j \<in> set (fst (run_state ListAllMem d))" "d_mls d = M" "mi_name j = n"
  shows "j = i"
proof -
  have "j \<in> held M" using assms(2,3) by (auto simp: ListAllMem_def held_def buffered_def split: if_splits)
  then show ?thesis using assms(1,4) by (auto simp: sole_lease_def inj_on_def)
qed

lemma spared_loop:
  fixes g :: "('w, 'a) act"
  assumes "\<And>j d. spared M n d \<Longrightarrow> j \<in> set (fst (run_state ListAllMem (d :: 'w daemon))) \<Longrightarrow> keeps (spared M n) (f j)"
    "keeps (spared M n) g"
  shows "keeps (spared M n) (do { xs \<leftarrow> ListAllMem; for_each xs f; g })"
proof (rule tripleI)
  fix d :: "'w daemon"
  assume A: "spared M n d"
  have "keeps (spared M n) (do { for_each (fst (run_state ListAllMem d)) f; g })"
    using assms(1)[OF A] by (intro keeps_intros assms(2))
  from keeps_run[OF this A] show "spared M n (snd (run_state (do { xs \<leftarrow> ListAllMem; for_each xs f; g }) d))"
    by (simp add: ListAllMem_def)
qed

lemma spared_start:
  fixes E :: "'w env"
  assumes "sole_lease M n i" "\<forall>w. fst (os_alive E (info_pid i) w)"
  shows "keeps (spared M n) (LeakCleaner_Start E)"
proof -
  have "keeps (spared M n) (check_lease E j)" if "spared M n d" "j \<in> set (fst (run_state ListAllMem d))" for j and d :: "'w daemon"
  proof (cases "info_pid j = 0 \<or> mi_name j \<noteq> n")
    case True
    then show ?thesis unfolding queue_lease_def by (auto intro!: keeps_intros spared_base spared_removal)
  next
    case False
    then have "j = i" using listed_lease[OF assms(1) that(2)] that(1) by (simp add: spared_def)
    then show ?thesis using assms(2) by (simp add: triple_def spared_def)
  qed
  then have leases: "keeps (spared M n) (CleanLeaseMemoryLeakWhenStart E)"
    unfolding CleanLeaseMemoryLeakWhenStart_def by (intro spared_loop keeps_return)
  have "keeps (spared M n) (dead_processes E us ds)" for us ds by (induction us arbitrary: ds) (auto intro!: keeps_intros spared_base)
  moreover have "keeps (spared M n) (clean_processes E ds)" for ds by (induction ds) (auto intro!: keeps_intros spared_shm)
  ultimately show ?thesis
    unfolding LeakCleaner_Start_def CleanShareMemoryLeakWhenStart_def GetAllUsers_def by (intro keeps_intros leases)
qed

lemma spared_exit:
  fixes E :: "'w env"
  assumes "sole_lease M n i" "info_pid i \<noteq> p"
  shows "keeps (spared M n) (ClientProcessExited E p)"
proof -
  have L: "keeps (spared M n) (if app_pid (mi_appContext j) \<noteq> p then return () else queue_lease E j)"
    if "spared M n d" "j \<in> set (fst (run_state ListAllMem d))" for j and d :: "'w daemon"
  proof (cases "mi_name j = n")
    case False
    then show ?thesis unfolding queue_lease_def by (auto intro!: keeps_intros spared_base spared_removal)
  next
    case True
    then have "j = i" using listed_lease[OF assms(1) that(2)] that(1) by (simp add: spared_def)
    then show ?thesis using assms(2) by (simp add: keeps_return)
  qed
  show ?thesis unfolding ClientProcessExited_def by (rule spared_loop, erule (1) L) (intro keeps_intros spared_shm spared_base)
qed

section \<open>One round\<close>

lemma delayed_used:
  fixes d :: "'w daemon"
  assumes "mo_running (d_mon d)"
  shows "used (snd (run_state (RemoveDelayBorrows E) d)) = used (snd (run_state (attempt_removals E (due E d) []) (clock_read E d)))"
proof -
  have "keeps (\<lambda>d :: 'w daemon. used d = V) (for_each fs AddDelayRemoveRecord)" for fs V
    by (intro keeps_intros) (simp add: triple_def AddDelayRemoveRecord_def)
  then have "used (snd (run_state (for_each fs AddDelayRemoveRecord) s)) = used s" for fs and s :: "'w daemon"
    by (rule keeps_run) simp
  then show ?thesis using assms by (simp add: RemoveDelayBorrows_def run_bind due_def clock_read_def split_beta)
qed

lemma calm_base:
  "keeps (\<lambda>d. R (d_mls d) (mo_running (d_mon d))) (ask f)" "keeps (\<lambda>d. R (d_mls d) (mo_running (d_mon d))) (call_store g)"
  "keeps (\<lambda>d. R (d_mls d) (mo_running (d_mon d))) (modify (d_shm_update h))"
  "keeps (\<lambda>d. R (d_mls d) (mo_running (d_mon d))) (modify (d_mon_update (\<lambda>m. m\<lparr>exitedPids := ps\<rparr>)))"
  "keeps (\<lambda>d. R (d_mls d) (mo_running (d_mon d))) (AddDelayRemoveRecord k)"
  by (simp_all add: triple_def AddDelayRemoveRecord_def add_delayed_def)

lemma immediate_calm: "keeps (\<lambda>d. R (d_mls d) (mo_running (d_mon d))) (RemoveImmediatelyBorrows E)"
proof -
  note I = keeps_intros calm_base
  have lease: "keeps (\<lambda>d. R (d_mls d) (mo_running (d_mon d))) (queue_lease E i)" for i
    unfolding queue_lease_def queue_removal_def GetDelayRemoveRecord_def new_DelayRemovedKey_def by (intro I)
  have dead: "keeps (\<lambda>d. R (d_mls d) (mo_running (d_mon d))) (SHMProcessDeadProcess E p)" for p
    unfolding SHMProcessDeadProcess_def GetMemoryUsersByPid_def clean_user_def queue_removal_def GetDelayRemoveRecord_def Let_def
      RemoveMemoryUserInfo_def find_shm_def new_DelayRemovedKey_def
    by (intro I)
  have "keeps (\<lambda>d. R (d_mls d) (mo_running (d_mon d))) (dead_processes E us ds)" for us ds
    by (induction us arbitrary: ds) (auto intro!: I)
  moreover have "keeps (\<lambda>d. R (d_mls d) (mo_running (d_mon d))) (clean_processes E ds)" for ds
    by (induction ds) (auto intro!: I dead)
  ultimately show ?thesis
    unfolding RemoveImmediatelyBorrows_def ClientProcessExited_def LeakCleaner_Start_def CleanLeaseMemoryLeakWhenStart_def
      CleanShareMemoryLeakWhenStart_def ListAllMem_def GetAllUsers_def
    by (intro I lease dead)
qed

lemma round_run:
  assumes "mo_running (d_mon d)" "d1 = snd (run_state (RemoveImmediatelyBorrows E) d)"
  shows "used (snd (run_state (background_round E) d)) = used (snd (run_state (attempt_removals E (due E d1) []) (clock_read E d1)))"
    "used (clock_read E d1) = used d"
proof -
  have "d_mls d1 = d_mls d \<and> mo_running (d_mon d1)"
    unfolding assms(2) using keeps_run[OF immediate_calm[where R = "\<lambda>M b. M = d_mls d \<and> b"], of d E] assms(1) by simp
  moreover have "snd (run_state (background_round E) d) = snd (run_state (RemoveDelayBorrows E) d1)"
    using assms by (simp add: background_round_def split_beta)
  ultimately show "used (snd (run_state (background_round E) d)) = used (snd (run_state (attempt_removals E (due E d1) []) (clock_read E d1)))"
    "used (clock_read E d1) = used d"
    by (simp_all add: delayed_used clock_read_def)
qed

lemma round_shrinks:
  assumes "mo_running (d_mon d)"
  shows "used (snd (run_state (background_round E) d)) \<subseteq>\<^sub>m used d"
proof -
  have "keeps (\<lambda>d'. used d' \<subseteq>\<^sub>m used d) (attempt_removals E ks [])" for ks
    by (rule used_attempts) (rule map_le_erase)
  from keeps_run[OF this] show ?thesis
    unfolding round_run(1)[OF assms refl] by (simp add: round_run(2)[OF assms refl])
qed

lemma round_spares:
  fixes E :: "'w env"
  assumes "lease_inv Orph d" "mo_running (d_mon d)" "used d n = Some i" "n \<notin> pending (d_mon d)"
    "\<forall>w. fst (os_alive E (info_pid i) w)" "info_pid i \<notin> set (exitedPids (d_mon d))"
  shows "used (snd (run_state (background_round E) d)) n = Some i"
proof -
  note sole = lease_inv_sole[OF assms(1,3)]
  let ?d0 = "d_mon_update (\<lambda>m. m\<lparr>exitedPids := []\<rparr>) d"
  define d1 where "d1 = snd (run_state (RemoveImmediatelyBorrows E) d)"
  have "keeps (spared (d_mls d) n) (do { for_each (exitedPids (d_mon d)) (ClientProcessExited E); LeakCleaner_Start E })"
  proof (intro keeps_intros spared_start[OF sole assms(5)])
    show "keeps (spared (d_mls d) n) (ClientProcessExited E p)" if "p \<in> set (exitedPids (d_mon d))" for p
      by (rule spared_exit[OF sole]) (use that assms(6) in auto)
  qed
  moreover have "spared (d_mls d) n ?d0" using assms(2,4) by (auto simp: spared_def pending_def)
  ultimately have "spared (d_mls d) n (snd (run_state (do { for_each (exitedPids (d_mon d)) (ClientProcessExited E); LeakCleaner_Start E }) ?d0))"
    by (rule keeps_run)
  then have "spared (d_mls d) n d1" using assms(2) by (simp add: d1_def RemoveImmediatelyBorrows_def split_beta)
  then have "\<forall>k\<in>set (due E d1). dk_isLease k \<longrightarrow> dk_name k \<noteq> n" by (auto simp: spared_def due_def)
  then have "keeps (\<lambda>d. used d n = Some i) (attempt_removals E (due E d1) [])"
    by (intro used_attempts[where Q = "\<lambda>U. U n = Some i"]) auto
  moreover have "used (clock_read E d1) n = Some i" using round_run(2)[OF assms(2) d1_def] assms(3) by simp
  ultimately show ?thesis unfolding round_run(1)[OF assms(2) d1_def] by (rule keeps_run)
qed

lemma round_returns:
  fixes E :: "'w env"
  assumes "daemon_inv O1 O2 d" "queue_ok (d_mon d)" "mo_running (d_mon d)" "used d n = Some i" "n \<notin> pending (d_mon d)"
    "ended E (info_pid i)" "exitedPids (d_mon d) = []" "engine_accepts E" "clock_steady E"
  shows "used (snd (run_state (background_round E) d)) n = None"
proof -
  let ?d0 = "d_mon_update (\<lambda>m. m\<lparr>exitedPids := []\<rparr>) d"
  define d1 where "d1 = snd (run_state (RemoveImmediatelyBorrows E) d)"
  have d1: "d1 = snd (run_state (LeakCleaner_Start E) ?d0)"
    using assms(3,7) by (simp add: d1_def RemoveImmediatelyBorrows_def split_beta)
  have inv0: "daemon_inv O1 O2 ?d0" using keeps_run[OF whole_shm.service[OF services_core[OF mon_frame]] assms(1)] by simp
  have inv1: "daemon_inv O1 O2 (clock_read E d1)"
    using keeps_run[OF LeakCleaner_Start_keeps inv0, of E] whole_shm.frame[of d1 "clock_read E d1" O1 O2]
    by (simp add: d1 core_def clock_read_def)
  have name: "mi_name i = n"
    using placed_used[of "d_mls d" n i] assms(1,4) by (simp add: daemon_inv_def lease_safe_def lease_inv_def)
  have P: "pending (d_mon ?d0) = pending (d_mon d)" by (simp add: pending_def)
  have "leases_due E (used ?d0) n d1"
    unfolding d1 by (rule start_due[OF assms(9), of ?d0 n i]) (use assms(2-6) name P pids_ok in auto)
  then obtain e where "e \<in> queue d1" "lease_key (snd e)" "dk_name (snd e) = n" "dk_expiresTime (snd e) \<le> now E d1"
    by (auto simp: leases_due_def lease_due_def)
  then have "snd e \<in> {k \<in> set (due E d1). lease_key k}" "dk_name (snd e) = n" by (simp_all add: due_def)
  then have N: "n \<in> dk_name ` {k \<in> set (due E d1). lease_key k}" by blast
  have "used (snd (run_state (attempt_removals E (due E d1) []) (clock_read E d1))) \<subseteq>\<^sub>m used d |` (- dk_name ` {k \<in> set (due E d1). lease_key k})"
    using tripleD[OF attempts_gone[OF assms(8)], of O1 O2 "clock_read E d1" "used d"] inv1 round_run(2)[OF assms(3) d1_def] by simp
  then show ?thesis unfolding round_run(1)[OF assms(3) d1_def] using N by (auto simp: map_le_def restrict_map_def dom_def split: if_splits)
qed

end
