(* ===== verification/Shm_Recovery.thy ===== *)
theory Shm_Recovery
  imports Daemon_Inv
begin

text \<open>
  Recovery of the shared-memory manager from the record store after a restart of the daemon
  (\<^verbatim>\<open>SHMManager::Recovery\<close>): first the attached memories, then their users, then memories that have
  lost their last user are dropped.
\<close>

section \<open>The listings\<close>

lemma stored_import:
  assumes "store_inv st" "shm_imports st n = Some r"
  shows "sii_name r = n"
proof -
  note D = store_importD[OF assms(1)]
  from assms(2) obtain e where "map_of (cachedImportShmRecords st) n = Some e"
    "r = import_of (recordAddress (shmImportAllocator st) (fst e)) e"
    by (auto simp: abs_of_def dest: shmimp.view_SomeD)
  then show ?thesis using shmimp.cached_entry[OF D(3)] by (simp add: import_of_def import_info_def)
qed

lemma listed_imports:
  assumes "store_inv st"
  shows "distinct (map sii_name (ListShmImportRecord st))" "r \<in> set (ListShmImportRecord st) \<longleftrightarrow> shm_imports st (sii_name r) = Some r"
proof -
  note D = store_importD[OF assms]
  have "map sii_name (ListShmImportRecord st) = map fst (cachedImportShmRecords st)"
    using D(1) by (auto simp: ListShmImportRecord_def import_info_def)
  then show "distinct (map sii_name (ListShmImportRecord st))" using shmimp.cached_distinct[OF D(3)] by simp
  show "r \<in> set (ListShmImportRecord st) \<longleftrightarrow> shm_imports st (sii_name r) = Some r"
    using stored_import[OF assms] unfolding set_ListShmImportRecord[OF assms] ran_def by blast
qed

definition tally_inner :: "('b \<times> nat) list \<Rightarrow> bool" where
  "tally_inner us \<longleftrightarrow> distinct (map fst us) \<and> (\<forall>b k. map_of us b = Some k \<longrightarrow> 0 < k)"

definition tally_ok :: "('a \<times> ('b \<times> nat) list) list \<Rightarrow> bool" where
  "tally_ok m \<longleftrightarrow> distinct (map fst m) \<and> (\<forall>a us. map_of m a = Some us \<longrightarrow> us \<noteq> [] \<and> tally_inner us)"

lemma tally_add:
  assumes "tally_ok m" "0 < k"
  shows "tally_ok (add_count a b k m)"
proof -
  have "tally_inner (find_or_empty m a)"
    using assms(1) by (auto simp: tally_ok_def find_or_empty_def tally_inner_def split: option.split)
  then have "tally_inner (assign b ((case map_of (find_or_empty m a) b of None \<Rightarrow> 0 | Some c \<Rightarrow> c) + k) (find_or_empty m a))"
    using assms(2) by (auto simp: tally_inner_def map_of_assign distinct_assign)
  then show ?thesis using assms(1) by (auto simp: tally_ok_def add_count_def Let_def map_of_assign distinct_assign AList.update_nonempty)
qed

lemma tally_fold: "\<forall>(a, b, k)\<in>set ts. 0 < k \<Longrightarrow> tally_ok m \<Longrightarrow> tally_ok (fold (\<lambda>(a, b, k). add_count (f a) b k) ts m)"
  by (induction ts arbitrary: m) (auto simp: tally_add)

lemma vm_entry: "vm_ok m \<Longrightarrow> (k, v) \<in> set m \<Longrightarrow> map_of m k = Some v \<and> v \<noteq> []"
  by (auto simp: vm_ok_def)

lemma mm_entries_pos:
  assumes "mm_ok m"
  shows "\<forall>(a, b, k)\<in>set (mm_entries m). 0 < k"
proof -
  have "vs \<noteq> []" if "(a, inner) \<in> set m" "(b, vs) \<in> set inner" for a b inner vs
  proof -
    have "vm_ok inner" using assms vm_entry[OF mm_ok_outer[OF assms] that(1)] unfolding mm_ok_def by blast
    from vm_entry[OF this that(2)] show ?thesis by blast
  qed
  then show ?thesis unfolding mm_entries_def by fastforce
qed

lemma NameF_tally:
  assumes "store_inv st"
  shows "tally_ok (ListShmRefRecordNameF st)"
proof -
  note D = store_refD[OF assms]
  have "ListShmRefRecordNameF st = fold (\<lambda>(a, b, k). add_count (si_name (recordAddress (shmImportAllocator st) a)) b k)
      (mm_entries (cachedRefShmIdxRecords st)) []"
    using D(1) fold_nested[of "\<lambda>a. add_count (si_name (recordAddress (shmImportAllocator st) a))"]
    by (simp add: ListShmRefRecordNameF_def)
  moreover have "tally_ok []" by (simp add: tally_ok_def)
  ultimately show ?thesis using tally_fold[OF mm_entries_pos[OF D(3)]] by simp
qed

lemma listed_users:
  assumes "store_inv st"
  shows "distinct (map fst (ListShmRefRecordNameF st))"
    "map_of (ListShmRefRecordNameF st) n = Some us \<Longrightarrow> distinct (map fst us) \<and> fst ` set us = {p. shm_refs st n p \<noteq> 0}"
    "map_of (ListShmRefRecordNameF st) n = None \<Longrightarrow> shm_refs st n = (\<lambda>_. 0)"
proof -
  note T = NameF_tally[OF assms]
  have C: "count_at (ListShmRefRecordNameF st) n p = shm_refs st n p" for n p
    using NameF_count[OF assms] by (simp add: refs_abs)
  show "distinct (map fst (ListShmRefRecordNameF st))" using T by (simp add: tally_ok_def)
  show "distinct (map fst us) \<and> fst ` set us = {p. shm_refs st n p \<noteq> 0}" if m: "map_of (ListShmRefRecordNameF st) n = Some us"
  proof -
    have us: "tally_inner us" using T m by (simp add: tally_ok_def)
    have "p \<in> fst ` set us \<longleftrightarrow> shm_refs st n p \<noteq> 0" for p
    proof (cases "map_of us p")
      case None
      then have "shm_refs st n p = 0" using C[of n p] m by (simp add: count_at_def find_or_empty_def)
      then show ?thesis using None by (simp add: map_of_eq_None_iff)
    next
      case (Some k)
      have "0 < k" using us Some unfolding tally_inner_def by blast
      then have "shm_refs st n p \<noteq> 0" using C[of n p] m Some by (simp add: count_at_def find_or_empty_def)
      moreover have "p \<in> fst ` set us" using map_of_SomeD[OF Some] by (rule rev_image_eqI) simp
      ultimately show ?thesis by simp
    qed
    then show ?thesis using us unfolding tally_inner_def by blast
  qed
  show "shm_refs st n = (\<lambda>_. 0)" if "map_of (ListShmRefRecordNameF st) n = None"
    using C[of n] that by (auto simp: count_at_def find_or_empty_def)
qed

section \<open>The attached memories\<close>

definition half_at :: "bool \<Rightarrow> string \<Rightarrow> AttachedShareMemory option \<Rightarrow> ShareMemImportInfo option \<Rightarrow> bool" where
  "half_at orphan n mem imp = (case mem of
       None \<Rightarrow> imp = None \<or> orphan
     | Some m \<Rightarrow> am_name m = n \<and> am_pids m = [] \<and> (\<exists>r. imp = Some r \<and> import_matches m r))"

definition single_refs :: "record_store \<Rightarrow> bool" where
  "single_refs st \<longleftrightarrow> (\<forall>n p. shm_refs st n p \<le> 1)"

definition half_inv :: "string set \<Rightarrow> string set \<Rightarrow> 'w daemon \<Rightarrow> bool" where
  "half_inv Orph N d \<longleftrightarrow> store_inv (d_store d) \<and> short_names (d_store d) \<and> single_refs (d_store d) \<and>
     distinct (map fst (d_shm d)) \<and> (\<forall>n\<in>N. map_of (d_shm d) n = None) \<and>
     (\<forall>n. n \<notin> N \<longrightarrow> half_at (n \<in> Orph) n (map_of (d_shm d) n) (shm_imports (d_store d) n))"

definition under_way :: "ShareMemImportInfo \<Rightarrow> bool" where
  "under_way r \<longleftrightarrow> sii_state r = PRE_ADD \<or> sii_state r = PRE_DEL"

definition unread :: "string set \<Rightarrow> ShareMemImportInfo list \<Rightarrow> 'w daemon \<Rightarrow> bool" where
  "unread Orph rs d \<longleftrightarrow> distinct (map sii_name rs) \<and>
     (\<forall>r\<in>set rs. shm_imports (d_store d) (sii_name r) = Some r \<and> (under_way r \<longrightarrow> sii_name r \<in> Orph))"

definition importing :: "string set \<Rightarrow> ShareMemImportInfo list \<Rightarrow> 'w daemon \<Rightarrow> bool" where
  "importing Orph rs d \<longleftrightarrow> half_inv Orph (sii_name ` set rs) d \<and> unread Orph rs d"

definition reading :: "string set \<Rightarrow> ShareMemImportInfo \<Rightarrow> ShareMemImportInfo list \<Rightarrow> RecordState \<Rightarrow> 'w daemon \<Rightarrow> bool" where
  "reading Orph r rs s d \<longleftrightarrow> half_inv Orph (insert (sii_name r) (sii_name ` set rs)) d \<and> unread Orph rs d \<and>
     sii_name r \<notin> sii_name ` set rs \<and> shm_imports (d_store d) (sii_name r) = Some (r\<lparr>sii_state := s\<rparr>)"

lemma importing_reading:
  assumes "importing Orph (r # rs) d"
  shows "reading Orph r rs (sii_state r) d" "under_way r \<Longrightarrow> sii_name r \<in> Orph" "map_of (d_shm d) (sii_name r) = None"
  using assms by (simp_all add: importing_def reading_def unread_def half_inv_def)

lemma half_inv_drop:
  assumes "half_inv Orph (insert n N) d" "shm_imports (d_store d) n = None \<or> n \<in> Orph"
  shows "half_inv Orph N d"
proof -
  have "map_of (d_shm d) n = None" using assms(1) by (simp add: half_inv_def)
  then have "half_at (k \<in> Orph) k (map_of (d_shm d) k) (shm_imports (d_store d) k)" if "k \<notin> N" for k
    using assms that by (cases "k = n") (simp_all add: half_inv_def half_at_def)
  then show ?thesis using assms(1) by (simp add: half_inv_def)
qed

lemma reading_skip: "reading Orph r rs s d \<Longrightarrow> sii_name r \<in> Orph \<Longrightarrow> importing Orph rs d"
  unfolding reading_def importing_def by (blast intro: half_inv_drop)

lemma reading_frame: "preserves services m \<Longrightarrow> keeps (reading Orph r rs s) m"
  by (erule services_keep) (simp add: services_def reading_def half_inv_def unread_def)

text \<open>A call of the store about one name, seen by the others.\<close>

lemma half_inv_call:
  assumes "half_inv Orph N d" "op_named op" "\<And>k. k \<noteq> n \<Longrightarrow> \<not> op_touches op k" "n \<in> N"
    "\<And>A. as_refs (abs_op op A) = as_refs A"
  shows "half_inv Orph N (d\<lparr>d_store := snd (exec_op op (d_store d))\<rparr>)"
proof -
  have I: "store_inv (d_store d)" using assms(1) by (simp add: half_inv_def)
  have R: "shm_refs (snd (exec_op op (d_store d))) = shm_refs (d_store d)"
    using exec_call(2)[OF I assms(2)] assms(5) by simp
  have "shm_imports (snd (exec_op op (d_store d))) k = shm_imports (d_store d) k" if "k \<notin> N" for k
    using call_untouched[OF I assms(2,3), of k] that assms(4) by (cases "k = n") (auto simp: same_at_def)
  then show ?thesis
    using assms(1) R exec_call(1)[OF I assms(2)] short_call[OF I assms(2)] unfolding half_inv_def single_refs_def by simp
qed

lemma unread_call:
  assumes "unread Orph rs d" "store_inv (d_store d)" "op_named op" "\<And>k. k \<noteq> n \<Longrightarrow> \<not> op_touches op k" "n \<notin> sii_name ` set rs"
  shows "unread Orph rs (d\<lparr>d_store := snd (exec_op op (d_store d))\<rparr>)"
proof -
  have "shm_imports (snd (exec_op op (d_store d))) (sii_name r) = shm_imports (d_store d) (sii_name r)" if "r \<in> set rs" for r
    using call_untouched[OF assms(2,3,4), of "sii_name r"] that assms(5) by (auto simp: same_at_def)
  then show ?thesis using assms(1) unfolding unread_def by simp
qed

lemma reading_drop:
  assumes "sii_name r \<in> Orph"
  shows "triple (reading Orph r rs s) (call_store (DelShmImportRecord (sii_name r))) (\<lambda>_. importing Orph rs)"
proof (rule tripleI)
  fix d :: "'w daemon"
  assume R: "reading Orph r rs s d"
  let ?op = "OpDelImport (sii_name r)"
  have I: "store_inv (d_store d)" using R by (simp add: reading_def half_inv_def)
  have "half_inv Orph (insert (sii_name r) (sii_name ` set rs)) (d\<lparr>d_store := snd (exec_op ?op (d_store d))\<rparr>)"
    using R by (intro half_inv_call[of _ _ _ _ "sii_name r"]) (auto simp: reading_def)
  then have "half_inv Orph (sii_name ` set rs) (d\<lparr>d_store := snd (exec_op ?op (d_store d))\<rparr>)"
    using assms by (rule half_inv_drop[OF _ disjI2])
  moreover have "unread Orph rs (d\<lparr>d_store := snd (exec_op ?op (d_store d))\<rparr>)"
    using R I by (intro unread_call[of _ _ _ _ "sii_name r"]) (auto simp: reading_def)
  ultimately show "importing Orph rs (snd (run_state (call_store (DelShmImportRecord (sii_name r))) d))"
    by (simp add: importing_def)
qed

lemma reading_state:
  "triple (reading Orph r rs s) (call_store (UpdateShmImportRecordState (sii_name r) t)) (\<lambda>_. reading Orph r rs t)"
proof (rule tripleI)
  fix d :: "'w daemon"
  assume R: "reading Orph r rs s d"
  let ?op = "OpImportState (sii_name r) t"
  have I: "store_inv (d_store d)" and n: "shm_imports (d_store d) (sii_name r) = Some (r\<lparr>sii_state := s\<rparr>)"
    using R by (simp_all add: reading_def half_inv_def)
  have "fst (exec_op ?op (d_store d)) = 0" using exec_call(3)[OF I, of ?op] n by (simp add: domIff del: exec_op.simps)
  then have "shm_imports (snd (exec_op ?op (d_store d))) (sii_name r) = Some (r\<lparr>sii_state := t\<rparr>)"
    using exec_call(2)[OF I, of ?op] n by (simp del: exec_op.simps)
  moreover have "half_inv Orph (insert (sii_name r) (sii_name ` set rs)) (d\<lparr>d_store := snd (exec_op ?op (d_store d))\<rparr>)"
    using R by (intro half_inv_call[of _ _ _ _ "sii_name r"]) (auto simp: reading_def)
  moreover have "unread Orph rs (d\<lparr>d_store := snd (exec_op ?op (d_store d))\<rparr>)"
    using R I by (intro unread_call[of _ _ _ _ "sii_name r"]) (auto simp: reading_def)
  ultimately show "reading Orph r rs t (snd (run_state (call_store (UpdateShmImportRecordState (sii_name r) t)) d))"
    using R by (simp add: reading_def)
qed

lemma reading_hold:
  "triple (reading Orph r rs s) (update_shm (emplace (sii_name r) (memory_of_record r s))) (\<lambda>_. importing Orph rs)"
proof (rule tripleI)
  fix d :: "'w daemon"
  assume R: "reading Orph r rs s d"
  let ?n = "sii_name r" and ?m = "memory_of_record r s"
  have none: "map_of (d_shm d) ?n = None" and n: "shm_imports (d_store d) ?n = Some (r\<lparr>sii_state := s\<rparr>)" "?n \<notin> sii_name ` set rs"
    using R by (simp_all add: reading_def half_inv_def)
  have M: "map_of (emplace ?n ?m (d_shm d)) = (map_of (d_shm d))(?n \<mapsto> ?m)" using none by (simp add: map_of_emplace)
  have "half_at b ?n (Some ?m) (Some (r\<lparr>sii_state := s\<rparr>))" for b
    by (simp add: half_at_def memory_of_record_def import_matches_def)
  then have "half_at (k \<in> Orph) k (((map_of (d_shm d))(?n \<mapsto> ?m)) k) (shm_imports (d_store d) k)" if "k \<notin> sii_name ` set rs" for k
    using R n(1) that by (cases "k = ?n") (simp_all add: reading_def half_inv_def)
  moreover have "((map_of (d_shm d))(?n \<mapsto> ?m)) k = None" if "k \<in> sii_name ` set rs" for k
  proof -
    have "k \<noteq> ?n" using that n(2) by blast
    moreover have "\<forall>k\<in>insert ?n (sii_name ` set rs). map_of (d_shm d) k = None" using R by (simp add: reading_def half_inv_def)
    ultimately show ?thesis using that by (metis fun_upd_other insertI2)
  qed
  ultimately have "half_inv Orph (sii_name ` set rs) (d_shm_update (emplace ?n ?m) d)"
    using R unfolding half_inv_def reading_def by (simp add: M distinct_emplace)
  then show "importing Orph rs (snd (run_state (update_shm (emplace ?n ?m)) d))"
    using R by (simp add: importing_def reading_def unread_def)
qed

definition decided :: "string set \<Rightarrow> ShareMemImportInfo \<Rightarrow> ShareMemImportInfo list \<Rightarrow> RecordState \<Rightarrow> int \<times> bool \<Rightarrow> 'w daemon \<Rightarrow> bool" where
  "decided Orph r rs s a d \<longleftrightarrow> (if snd a then importing Orph rs d else reading Orph r rs s d)"

lemma Shm_RemovePreAddRecord_reading:
  assumes "sii_name r \<in> Orph"
  shows "triple (reading Orph r rs s) (Shm_RemovePreAddRecord E r) (decided Orph r rs s)"
proof -
  let ?Q = "decided Orph r rs s"
  have drop: "triple (reading Orph r rs s) (do { call_store (DelShmImportRecord (sii_name r)); return (MXM_OK, True) }) ?Q"
    by (rule triple_bind[OF reading_drop[OF assms]]) (rule triple_return, simp add: decided_def)
  have later: "triple (reading Orph r rs s)
     (do { key \<leftarrow> new_DelayRemovedKey E nm t l ctx u b o'; AddDelayRemoveRecord (key\<lparr>dk_isAttach := True\<rparr>); return (MXM_OK, False) }) ?Q"
    for nm t l ctx u b o'
    by (rule triple_bind[OF reading_frame[OF new_DelayRemovedKey_frame]]
          triple_bind[OF reading_frame[OF AddDelayRemoveRecord_frame]])+ (rule triple_return, simp add: decided_def)
  show ?thesis
    unfolding Shm_RemovePreAddRecord_def
    by (rule triple_bind[OF reading_frame[OF shm_query_frames(4)]]) (auto intro!: drop later triple_return simp: decided_def)
qed

lemma Shm_RollbackPreDeleteRecord_reading:
  "triple (reading Orph r rs (sii_state r)) (Shm_RollbackPreDeleteRecord E r) (\<lambda>(ret, s). reading Orph r rs s)"
proof -
  have to: "triple (reading Orph r rs (sii_state r))
      (do { call_store (UpdateShmImportRecordState (sii_name r) t); return (rc, t) }) (\<lambda>(ret, s). reading Orph r rs s)" for t and rc :: int
    by (rule triple_bind[OF reading_state]) (rule triple_return, simp)
  show ?thesis
    unfolding Shm_RollbackPreDeleteRecord_def
    by (rule triple_bind[OF reading_frame[OF shm_query_frames(4)]]) (auto intro!: to triple_return)
qed

lemma recover_import_step:
  fixes E :: "'w env"
  shows "triple (importing Orph (r # rs)) (recover_import E r) (\<lambda>_. importing Orph rs)"
proof -
  have start: "triple (importing Orph (r # rs)) m Q" if "(under_way r \<Longrightarrow> sii_name r \<in> Orph) \<Longrightarrow> triple (reading Orph r rs (sii_state r)) m Q"
    for m :: "('w, 'a) act" and Q
    using that importing_reading[of Orph r rs] unfolding triple_def by blast
  have rest: "triple (reading Orph r rs (sii_state r)) (do {
       (ret, state) \<leftarrow> (if sii_state r = PRE_DEL then Shm_RollbackPreDeleteRecord E r else return (0, sii_state r));
       if ret \<noteq> 0 then return () else update_shm (emplace (sii_name r) (memory_of_record r state)) }) (\<lambda>_. importing Orph rs)"
    if orph: "under_way r \<Longrightarrow> sii_name r \<in> Orph"
  proof (cases "sii_state r = PRE_DEL")
    case True
    then have "sii_name r \<in> Orph" using orph by (simp add: under_way_def)
    then have "triple (reading Orph r rs s) (return () :: ('w, unit) act) (\<lambda>_. importing Orph rs)" for s
      by (intro triple_return) (rule reading_skip)
    then show ?thesis
      using True by (auto intro!: triple_bind[OF Shm_RollbackPreDeleteRecord_reading[of Orph r rs E, unfolded True]] reading_hold)
  qed (simp add: reading_hold)
  show ?thesis
  proof (rule start)
    assume orph: "under_way r \<Longrightarrow> sii_name r \<in> Orph"
    show "triple (reading Orph r rs (sii_state r)) (recover_import E r) (\<lambda>_. importing Orph rs)"
    proof (cases "sii_state r = PRE_ADD")
      case True
      then have n: "sii_name r \<in> Orph" using orph by (simp add: under_way_def)
      show ?thesis
        unfolding recover_import_def using True
        by simp (rule triple_bind[OF Shm_RemovePreAddRecord_reading[OF n]], auto simp: decided_def[abs_def] intro!: triple_return reading_hold)
    qed (use rest[OF orph] in \<open>simp add: recover_import_def\<close>)
  qed
qed

lemma recover_imports_run: "triple (importing Orph rs) (recover_imports E rs) (\<lambda>ret d. ret = UBSM_OK \<and> importing Orph [] d)"
proof (induction rs)
  case Nil
  then show ?case by (simp add: triple_def)
next
  case (Cons r rs)
  have "triple (importing Orph (r # rs)) (do { recover_import E r; recover_imports E rs }) (\<lambda>ret d. ret = UBSM_OK \<and> importing Orph [] d)"
    by (rule triple_bind[OF recover_import_step]) (rule Cons.IH)
  moreover have "map_of (d_shm d) (sii_name r) = None" if "importing Orph (r # rs) d" for d :: "'a daemon"
    using importing_reading(3)[OF that] .
  ultimately show ?case unfolding triple_def by (auto simp: find_shm_def)
qed

lemma importing_start:
  assumes "store_inv (d_store d)" "short_names (d_store d)" "single_refs (d_store d)" "d_shm d = []"
  shows "importing {n. \<exists>r. shm_imports (d_store d) n = Some r \<and> under_way r} (ListShmImportRecord (d_store d)) d"
proof -
  note L = listed_imports[OF assms(1)]
  have "shm_imports (d_store d) n = None" if "n \<notin> sii_name ` set (ListShmImportRecord (d_store d))" for n
  proof (rule ccontr)
    assume "shm_imports (d_store d) n \<noteq> None"
    then obtain r where r: "shm_imports (d_store d) n = Some r" by blast
    then have n: "sii_name r = n" by (rule stored_import[OF assms(1)])
    then have "r \<in> set (ListShmImportRecord (d_store d))" using L(2)[of r] r by simp
    then show False using that n by blast
  qed
  then have "half_inv {n. \<exists>r. shm_imports (d_store d) n = Some r \<and> under_way r} (sii_name ` set (ListShmImportRecord (d_store d))) d"
    using assms unfolding half_inv_def by (simp add: half_at_def)
  moreover have "unread {n. \<exists>r. shm_imports (d_store d) n = Some r \<and> under_way r} (ListShmImportRecord (d_store d)) d"
    using L(1) L(2) unfolding unread_def by simp
  ultimately show ?thesis by (simp add: importing_def)
qed

section \<open>Their users\<close>

definition user_listing :: "string \<times> (u32 \<times> nat) list \<Rightarrow> 'w daemon \<Rightarrow> bool" where
  "user_listing x d \<longleftrightarrow> distinct (map fst (snd x)) \<and> fst ` set (snd x) = {p. shm_refs (d_store d) (fst x) p \<noteq> 0}"

definition counted_at :: "bool \<Rightarrow> bool \<Rightarrow> string \<Rightarrow> AttachedShareMemory option \<Rightarrow> ShareMemImportInfo option \<Rightarrow> (u32 \<Rightarrow> nat) \<Rightarrow> bool" where
  "counted_at later orphan n mem imp refs \<longleftrightarrow> (if later then half_at orphan n mem imp else shm_at orphan n mem imp refs)"

definition counting :: "string set \<Rightarrow> (string \<times> (u32 \<times> nat) list) list \<Rightarrow> 'w daemon \<Rightarrow> bool" where
  "counting Orph xs d \<longleftrightarrow> store_inv (d_store d) \<and> short_names (d_store d) \<and> single_refs (d_store d) \<and>
     distinct (map fst (d_shm d)) \<and> distinct (map fst xs) \<and> (\<forall>x\<in>set xs. user_listing x d) \<and>
     (\<forall>n. counted_at (n \<in> fst ` set xs) (n \<in> Orph) n (map_of (d_shm d) n) (shm_imports (d_store d) n) (shm_refs (d_store d) n))"

lemma half_at_no_users:
  assumes "half_at b n mem imp" "f = (\<lambda>_. 0)"
  shows "shm_at b n mem imp f"
  using assms by (auto simp: half_at_def shm_at_def users_match_def split: option.splits)

lemma counting_start:
  assumes "importing Orph [] d"
  shows "counting Orph (ListShmRefRecordNameF (d_store d)) d"
proof -
  let ?xs = "ListShmRefRecordNameF (d_store d)"
  have H: "half_inv Orph {} d" using assms by (simp add: importing_def)
  then have I: "store_inv (d_store d)" by (simp add: half_inv_def)
  note L = listed_users[OF I]
  have h: "half_at (n \<in> Orph) n (map_of (d_shm d) n) (shm_imports (d_store d) n)" for n using H by (simp add: half_inv_def)
  have "counted_at (n \<in> fst ` set ?xs) (n \<in> Orph) n (map_of (d_shm d) n) (shm_imports (d_store d) n) (shm_refs (d_store d) n)" for n
    using half_at_no_users[OF h] h L(3)[of n] by (simp add: counted_at_def map_of_eq_None_iff)
  moreover have "user_listing x d" if "x \<in> set ?xs" for x
    using L(2)[of "fst x" "snd x"] L(1) that by (simp add: user_listing_def)
  ultimately show ?thesis using H L(1) unfolding counting_def half_inv_def by simp
qed

lemma fold_insert_users: "set (fold (List.insert \<circ> fst) us pids) = fst ` set us \<union> set pids"
  "distinct pids \<Longrightarrow> distinct (fold (List.insert \<circ> fst) us pids)"
  by (induction us arbitrary: pids) auto

lemma counting_step:
  assumes "counting Orph (x # xs) d" "map_of (d_shm d) (fst x) = Some m"
  shows "counting Orph xs (d_shm_update (assign (fst x) (m\<lparr>am_pids := fold (List.insert \<circ> fst) (snd x) (am_pids m)\<rparr>)) d)"
proof -
  let ?n = "fst x" and ?m = "m\<lparr>am_pids := fold (List.insert \<circ> fst) (snd x) (am_pids m)\<rparr>"
  have x: "user_listing x d" "?n \<notin> fst ` set xs" using assms(1) by (auto simp: counting_def)
  have all: "counted_at (n \<in> fst ` set (x # xs)) (n \<in> Orph) n (map_of (d_shm d) n) (shm_imports (d_store d) n) (shm_refs (d_store d) n)"
    for n using assms(1) unfolding counting_def by (elim conjE) (rule spec)
  have half: "half_at (?n \<in> Orph) ?n (Some m) (shm_imports (d_store d) ?n)" using all[of ?n] assms(2) by (simp add: counted_at_def)
  have one: "shm_refs (d_store d) ?n p = (if p \<in> fst ` set (snd x) then 1 else 0)" for p
  proof -
    have "shm_refs (d_store d) ?n p \<le> 1" using assms(1) by (simp add: counting_def single_refs_def)
    then show ?thesis using x(1) by (simp add: user_listing_def)
  qed
  have "users_match (am_pids ?m) (shm_refs (d_store d) ?n)"
    using half one fold_insert_users(1)[of "snd x" "[]"] fold_insert_users(2)[of "[]" "snd x"] by (simp add: half_at_def users_match_def fun_eq_iff)
  then have "shm_at (?n \<in> Orph) ?n (Some ?m) (shm_imports (d_store d) ?n) (shm_refs (d_store d) ?n)"
    using half by (auto simp: half_at_def shm_at_Some import_matches_def)
  then have "counted_at (n \<in> fst ` set xs) (n \<in> Orph) n (map_of (assign ?n ?m (d_shm d)) n) (shm_imports (d_store d) n)
      (shm_refs (d_store d) n)" for n
    using all[of n] x(2) by (cases "n = ?n") (simp_all add: map_of_assign counted_at_def)
  then show ?thesis using assms(1) unfolding counting_def user_listing_def by (simp add: distinct_assign)
qed

lemma recover_users_run: "triple (counting Orph xs) (recover_users xs) (\<lambda>ret d. ret = UBSM_OK \<longrightarrow> shm_inv Orph d)"
proof (induction xs)
  case Nil
  then show ?case by (simp add: triple_def counting_def counted_at_def shm_inv_def)
next
  case (Cons x xs)
  show ?case
  proof (rule tripleI)
    fix d :: "'a daemon"
    assume c: "counting Orph (x # xs) d"
    let ?r = "run_state (recover_users (x # xs)) d"
    show "fst ?r = UBSM_OK \<longrightarrow> shm_inv Orph (snd ?r)"
    proof (cases "map_of (d_shm d) (fst x)")
      case (Some m)
      then show ?thesis using tripleD[OF Cons.IH counting_step[OF c Some]] by (simp add: find_shm_def)
    qed (simp add: find_shm_def err_codes)
  qed
qed

section \<open>Memories without users\<close>

lemma drop_unused_keeps: "keeps (shm_inv Orph) (drop_unused x)"
proof (rule tripleI)
  fix d :: "'w daemon"
  assume inv: "shm_inv Orph d"
  note D = shm_invD[OF inv]
  let ?op = "OpDelImport (fst x)" and ?d' = "snd (run_state (drop_unused x) d)"
  let ?st = "snd (exec_op ?op (d_store d))"
  consider "?d' = d" | (fail) "fst (exec_op ?op (d_store d)) \<noteq> 0" "?d' = d\<lparr>d_store := ?st\<rparr>"
    | (ok) "fst (exec_op ?op (d_store d)) = 0" "?d' = d\<lparr>d_store := ?st, d_shm := erase (fst x) (d_shm d)\<rparr>"
    by (cases "am_state (snd x) = PRE_ADD \<or> am_pids (snd x) \<noteq> []"; cases "fst (exec_op ?op (d_store d)) = 0")
      (auto simp: drop_unused_def shm_op simp del: exec_op.simps)
  then show "shm_inv Orph ?d'"
  proof cases
    case fail
    then show ?thesis using shm_failed[OF inv _ fail(1)] by (simp del: exec_op.simps)
  next
    case ok
    have "abs_of ?st = abs_op ?op (abs_of (d_store d))" using exec_call(2)[OF D(1), of ?op] ok(1) by (simp del: exec_op.simps)
    then show ?thesis unfolding ok(2) using D(3)
      by (intro shm_step[OF inv, of _ "fst x"]) (auto simp: map_of_erase distinct_erase shm_at_Some simp del: exec_op.simps)
  qed (use inv in simp)
qed

lemma SHMManager_Recovery_inv:
  fixes d :: "'w daemon"
  assumes "store_inv (d_store d)" "short_names (d_store d)" "single_refs (d_store d)" "d_shm d = []"
    "run_state (SHMManager_Recovery E) d = (UBSM_OK, d')"
  shows "shm_inv {n. \<exists>r. shm_imports (d_store d) n = Some r \<and> under_way r} d'"
proof -
  let ?O = "{n. \<exists>r. shm_imports (d_store d) n = Some r \<and> under_way r}"
  have "triple (importing ?O (ListShmImportRecord (d_store d)))
      (do { ret \<leftarrow> recover_imports E (ListShmImportRecord (d_store d)); if ret \<noteq> UBSM_OK then return ret else RecoverFromRefRecord })
      (\<lambda>ret d. ret = UBSM_OK \<longrightarrow> shm_inv ?O d)"
  proof (rule triple_bind[OF recover_imports_run])
    fix ret
    have "triple (importing ?O []) (RecoverFromRefRecord :: ('w, int) act) (\<lambda>ret d. ret = UBSM_OK \<longrightarrow> shm_inv ?O d)"
    proof (rule tripleI)
      fix d1 :: "'w daemon"
      assume "importing ?O [] d1"
      have K: "keeps (shm_inv ?O) (for_each xs drop_unused :: ('w, unit) act)" for xs by (intro keeps_for_each drop_unused_keeps)
      from tripleD[OF recover_users_run counting_start[OF \<open>importing ?O [] d1\<close>]]
      show "fst (run_state RecoverFromRefRecord d1) = UBSM_OK \<longrightarrow> shm_inv ?O (snd (run_state RecoverFromRefRecord d1))"
        using keeps_run[OF K] by (simp add: RecoverFromRefRecord_def run_bind split_beta)
    qed
    then show "triple (\<lambda>d. ret = UBSM_OK \<and> importing ?O [] d) (if ret \<noteq> UBSM_OK then return ret else RecoverFromRefRecord :: ('w, int) act)
       (\<lambda>ret d. ret = UBSM_OK \<longrightarrow> shm_inv ?O d)" by (cases "ret = UBSM_OK") (simp, simp add: triple_def)
  qed
  from tripleD[OF this importing_start[OF assms(1-4)]] assms(5) show ?thesis
    by (simp add: SHMManager_Recovery_def Shm_RecoverFromRecord_def)
qed

section \<open>What recovery keeps\<close>

text \<open>A memory in the store that some process uses.\<close>

definition attached :: "string \<Rightarrow> ShareMemImportInfo \<Rightarrow> (u32 \<Rightarrow> nat) \<Rightarrow> 'w daemon \<Rightarrow> bool" where
  "attached n r f d \<longleftrightarrow> store_inv (d_store d) \<and> shm_imports (d_store d) n = Some r \<and> shm_refs (d_store d) n = f"

lemma attached_call:
  assumes "op_named op" "\<not> op_touches op n"
  shows "keeps (attached n r f) (call_store (exec_op op))"
  using call_untouched[OF _ assms] exec_call(1)[OF _ assms(1)] by (simp add: triple_def attached_def same_at_def del: exec_op.simps)

lemma attached_del:
  assumes "f p \<noteq> 0"
  shows "keeps (attached n r f) (call_store (DelShmImportRecord k))"
proof (rule tripleI)
  fix d :: "'w daemon"
  assume A: "attached n r f d"
  show "attached n r f (snd (run_state (call_store (DelShmImportRecord k)) d))"
  proof (cases "k = n")
    case True
    have I: "store_inv (d_store d)" using A by (simp add: attached_def)
    have "shm_refs (d_store d) n p \<noteq> 0" using A assms by (simp add: attached_def)
    then have "\<not> op_pre (OpDelImport n) (abs_of (d_store d))" by auto
    then show ?thesis using A True exec_call(1,2)[OF I, of "OpDelImport n"] exec_call(3)[OF I, of "OpDelImport n"]
      unfolding attached_def shm_op run_call_store snd_conv daemon.simps by (simp del: exec_op.simps op_pre.simps)
  next
    case False
    then show ?thesis using keeps_run[OF attached_call[of "OpDelImport k" n r f] A] unfolding shm_op by simp
  qed
qed

lemma attached_frame: "preserves services m \<Longrightarrow> keeps (attached n r f) m"
  by (erule services_keep) (simp add: services_def attached_def)

lemma attached_map: "keeps (attached n r f) (update_shm g)"
  by (simp add: triple_def attached_def)

lemma attached_state: "k \<noteq> n \<Longrightarrow> keeps (attached n r f) (call_store (UpdateShmImportRecordState k s))"
  unfolding shm_op by (rule attached_call) simp_all

lemma recover_import_attached:
  fixes E :: "'w env"
  assumes "f p \<noteq> 0" "sii_name q = n \<Longrightarrow> \<not> under_way q"
  shows "keeps (attached n r f) (recover_import E q)"
proof -
  have "sii_name q \<noteq> n" if "sii_state q = PRE_DEL" using assms(2) that by (auto simp: under_way_def)
  then have "keeps (attached n r f) (Shm_RollbackPreDeleteRecord E q)" if "sii_state q = PRE_DEL"
    unfolding Shm_RollbackPreDeleteRecord_def using that
    by (intro keeps_intros adapter_frames[THEN attached_frame] attached_state) blast+
  then show ?thesis
    unfolding recover_import_def Shm_RemovePreAddRecord_def
    by (intro keeps_intros adapter_frames[THEN attached_frame] attached_map attached_del[of f p, OF assms(1)])
qed

lemma SHMManager_Recovery_attached:
  fixes E :: "'w env"
  assumes "store_inv (d_store d)" "shm_imports (d_store d) n = Some r" "\<not> under_way r" "shm_refs (d_store d) n p \<noteq> 0"
  shows "attached n r (shm_refs (d_store d) n) (snd (run_state (SHMManager_Recovery E) d))"
proof -
  let ?f = "shm_refs (d_store d) n" and ?rs = "ListShmImportRecord (d_store d)"
  have q: "\<not> under_way q" if "q \<in> set ?rs" "sii_name q = n" for q
    using listed_imports(2)[OF assms(1), of q] that assms(2,3) by simp
  have import_all: "keeps (attached n r ?f) (recover_imports E qs)" if "set qs \<subseteq> set ?rs" for qs
    using that
  proof (induction qs)
    case (Cons a qs)
    then have "keeps (attached n r ?f) (recover_import E a)" by (intro recover_import_attached[of ?f p, OF assms(4)]) (auto dest: q)
    then show ?case using Cons by (auto simp: find_shm_def intro!: keeps_intros)
  qed (simp add: keeps_return)
  have users: "keeps (attached n r ?f) (recover_users xs)" for xs
    by (induction xs) (auto simp: find_shm_def intro!: keeps_intros attached_map split: option.split)
  have drop: "keeps (attached n r ?f) (drop_unused x)" for x
    unfolding drop_unused_def by (intro keeps_intros attached_map attached_del[of ?f p, OF assms(4)])
  have "keeps (attached n r ?f) (do { ret \<leftarrow> recover_imports E ?rs; if ret \<noteq> UBSM_OK then return ret else RecoverFromRefRecord })"
    unfolding RecoverFromRefRecord_def by (intro keeps_intros users drop import_all) simp
  moreover have "attached n r ?f d" using assms(1,2) by (simp add: attached_def)
  ultimately show ?thesis
    unfolding SHMManager_Recovery_def Shm_RecoverFromRecord_def by (simp add: triple_def)
qed

text \<open>Recovery never changes who uses what.\<close>

definition referred :: "(string \<Rightarrow> u32 \<Rightarrow> nat) \<Rightarrow> 'w daemon \<Rightarrow> bool" where
  "referred f d \<longleftrightarrow> store_inv (d_store d) \<and> shm_refs (d_store d) = f"

lemma referred_call:
  assumes "op_named op" "\<And>A. as_refs (abs_op op A) = as_refs A"
  shows "keeps (referred f) (call_store (exec_op op))"
  using exec_call(1)[OF _ assms(1)] exec_call(2)[OF _ assms(1)] assms(2) by (auto simp: triple_def referred_def simp del: exec_op.simps)

lemma referred_frame: "preserves services m \<Longrightarrow> keeps (referred f) m"
  by (erule services_keep) (simp add: services_def referred_def)

lemma recover_import_referred: "keeps (referred f) (recover_import E q)"
proof -
  have "keeps (referred f) (update_shm g)" for g by (simp add: triple_def referred_def)
  moreover have "keeps (referred f) (call_store (DelShmImportRecord n))" "keeps (referred f) (call_store (UpdateShmImportRecordState n s))" for n s
    unfolding shm_op by (rule referred_call; simp)+
  ultimately show ?thesis
    unfolding recover_import_def Shm_RemovePreAddRecord_def Shm_RollbackPreDeleteRecord_def by (intro keeps_intros adapter_frames[THEN referred_frame])
qed

lemma recover_imports_referred: "keeps (referred f) (recover_imports E qs)"
  by (induction qs) (auto simp: find_shm_def intro!: keeps_intros recover_import_referred)

text \<open>Its first half always succeeds; the second fails exactly on a user of a memory that the first has not taken over.\<close>

lemma recovery_halves:
  fixes d :: "'w daemon"
  assumes "store_inv (d_store d)" "short_names (d_store d)" "single_refs (d_store d)" "d_shm d = []"
  obtains d1 where "run_state (recover_imports E (ListShmImportRecord (d_store d))) d = (UBSM_OK, d1)"
    "half_inv {n. \<exists>r. shm_imports (d_store d) n = Some r \<and> under_way r} {} d1" "shm_refs (d_store d1) = shm_refs (d_store d)"
    "fst (run_state (SHMManager_Recovery E) d) = fst (run_state (recover_users (ListShmRefRecordNameF (d_store d1))) d1)"
proof -
  let ?rs = "ListShmImportRecord (d_store d)"
  obtain ret d1 where r: "run_state (recover_imports E ?rs) d = (ret, d1)" by (metis surj_pair)
  have ok: "ret = UBSM_OK" and imp: "importing {n. \<exists>r. shm_imports (d_store d) n = Some r \<and> under_way r} [] d1"
    using tripleD[OF recover_imports_run importing_start[OF assms(1-4)], of E] r by simp_all
  have "referred (shm_refs (d_store d)) d1"
    using keeps_run[OF recover_imports_referred[of "shm_refs (d_store d)" E ?rs], of d] r assms(1) by (simp add: referred_def)
  moreover have "fst (run_state (SHMManager_Recovery E) d) = fst (run_state (recover_users (ListShmRefRecordNameF (d_store d1))) d1)"
    using r ok by (simp add: SHMManager_Recovery_def Shm_RecoverFromRecord_def RecoverFromRefRecord_def run_bind split_beta UBSM_OK_def)
  ultimately show ?thesis using that[of d1] r ok imp by (simp add: importing_def referred_def)
qed

lemma recover_users_ok:
  "fst (run_state (recover_users xs) d) = (if \<forall>x\<in>set xs. map_of (d_shm d) (fst x) \<noteq> None then UBSM_OK else MXM_ERR_SHM_NOT_FOUND)"
proof (induction xs arbitrary: d)
  case (Cons x xs)
  show ?case
  proof (cases "map_of (d_shm d) (fst x)")
    case (Some m)
    let ?d = "d_shm_update (assign (fst x) (m\<lparr>am_pids := fold (List.insert \<circ> fst) (snd x) (am_pids m)\<rparr>)) d"
    have "map_of (d_shm ?d) (fst y) = None \<longleftrightarrow> map_of (d_shm d) (fst y) = None" for y :: "string \<times> (u32 \<times> nat) list"
      using Some by (simp add: map_of_assign)
    then show ?thesis using Cons.IH[of ?d] Some by (simp add: find_shm_def)
  qed (simp add: find_shm_def)
qed simp

lemma listed_user:
  assumes "store_inv st"
  shows "n \<in> fst ` set (ListShmRefRecordNameF st) \<longleftrightarrow> (\<exists>p. shm_refs st n p \<noteq> 0)"
proof
  assume "n \<in> fst ` set (ListShmRefRecordNameF st)"
  then obtain us where us: "map_of (ListShmRefRecordNameF st) n = Some us" by (cases "map_of (ListShmRefRecordNameF st) n") (auto simp: map_of_eq_None_iff)
  then have "us \<noteq> []" using NameF_tally[OF assms] unfolding tally_ok_def by blast
  then show "\<exists>p. shm_refs st n p \<noteq> 0" using listed_users(2)[OF assms us] by (cases us) auto
next
  assume "\<exists>p. shm_refs st n p \<noteq> 0"
  then have "map_of (ListShmRefRecordNameF st) n \<noteq> None" using listed_users(3)[OF assms, of n] by (metis (mono_tags))
  then show "n \<in> fst ` set (ListShmRefRecordNameF st)" by (simp add: map_of_eq_None_iff)
qed

text \<open>Recovery succeeds if no memory in use was being attached or detached.\<close>

lemma SHMManager_Recovery_clean:
  fixes d :: "'w daemon"
  assumes "store_inv (d_store d)" "short_names (d_store d)" "single_refs (d_store d)" "d_shm d = []"
    "\<And>n r p. shm_imports (d_store d) n = Some r \<Longrightarrow> shm_refs (d_store d) n p \<noteq> 0 \<Longrightarrow> \<not> under_way r"
  shows "fst (run_state (SHMManager_Recovery E) d) = UBSM_OK"
proof (rule recovery_halves[OF assms(1-4), of E])
  let ?O = "{n. \<exists>r. shm_imports (d_store d) n = Some r \<and> under_way r}"
  fix d1
  assume H: "half_inv ?O {} d1" and refs: "shm_refs (d_store d1) = shm_refs (d_store d)"
    and run: "fst (run_state (SHMManager_Recovery E) d) = fst (run_state (recover_users (ListShmRefRecordNameF (d_store d1))) d1)"
  have I: "store_inv (d_store d1)" using H by (simp add: half_inv_def)
  have "map_of (d_shm d1) (fst x) \<noteq> None" if x: "x \<in> set (ListShmRefRecordNameF (d_store d1))" for x
  proof -
    obtain p where p: "shm_refs (d_store d1) (fst x) p \<noteq> 0" using listed_user[OF I, of "fst x"] x by auto
    then have "fst x \<notin> ?O" using assms(5)[of "fst x" _ p] refs by auto
    moreover have "half_at (fst x \<in> ?O) (fst x) (map_of (d_shm d1) (fst x)) (shm_imports (d_store d1) (fst x))"
      using H by (simp add: half_inv_def)
    ultimately show ?thesis using ref_pid(2)[OF I p] by (auto simp: half_at_def split: option.splits)
  qed
  then show ?thesis unfolding run recover_users_ok by auto
qed

text \<open>
  It fails on a memory in use that was being detached if the engine does not tell its stage: the memory
  is not taken over, and its users are then looked for in vain.
\<close>

definition stage_unknown :: "'w env \<Rightarrow> string \<Rightarrow> bool" where
  "stage_unknown E n \<longleftrightarrow> (\<forall>d. fst (fst (run_state (GetShareMemoryStage E n) d)) \<notin> {0, MXM_ERR_SHM_NOT_EXIST})"

lemma absent_frame: "preserves services m \<Longrightarrow> keeps (\<lambda>d. map_of (d_shm d) n = None) m"
  by (erule services_keep) (simp add: services_def)

lemma recover_import_skips:
  assumes "sii_name q = n \<Longrightarrow> sii_state q = PRE_DEL" "stage_unknown E n"
  shows "keeps (\<lambda>d. map_of (d_shm d) n = None) (recover_import E q)"
proof (cases "sii_name q = n")
  case True
  have "keeps (\<lambda>d. map_of (d_shm d) n = None) (GetShareMemoryStage E n)"
    by (rule absent_frame[OF shm_query_frames(4)])
  then show ?thesis
    unfolding triple_def
    using assms True by (auto simp: stage_unknown_def recover_import_def Shm_RollbackPreDeleteRecord_def split_beta)
next
  case False
  have "keeps (\<lambda>d. map_of (d_shm d) n = None) (update_shm (emplace (sii_name q) v))" for v
    using False by (simp add: triple_def map_of_emplace)
  then show ?thesis
    unfolding recover_import_def Shm_RemovePreAddRecord_def Shm_RollbackPreDeleteRecord_def
    by (intro keeps_intros adapter_frames[THEN absent_frame]) (simp_all add: triple_def)
qed

lemma SHMManager_Recovery_stuck:
  fixes d :: "'w daemon"
  assumes "store_inv (d_store d)" "short_names (d_store d)" "single_refs (d_store d)" "d_shm d = []"
    "shm_imports (d_store d) n = Some r" "sii_state r = PRE_DEL" "shm_refs (d_store d) n p \<noteq> 0" "stage_unknown E n"
  shows "fst (run_state (SHMManager_Recovery E) d) = MXM_ERR_SHM_NOT_FOUND"
proof (rule recovery_halves[OF assms(1-4), of E])
  fix d1
  assume r: "run_state (recover_imports E (ListShmImportRecord (d_store d))) d = (UBSM_OK, d1)"
    and I: "half_inv {n. \<exists>r. shm_imports (d_store d) n = Some r \<and> under_way r} {} d1" and refs: "shm_refs (d_store d1) = shm_refs (d_store d)"
    and run: "fst (run_state (SHMManager_Recovery E) d) = fst (run_state (recover_users (ListShmRefRecordNameF (d_store d1))) d1)"
  have "keeps (\<lambda>d. map_of (d_shm d) n = None) (recover_imports E qs)" if "set qs \<subseteq> set (ListShmImportRecord (d_store d))" for qs
    using that
  proof (induction qs)
    case (Cons q qs)
    then have "sii_name q = n \<Longrightarrow> sii_state q = PRE_DEL" using listed_imports(2)[OF assms(1), of q] assms(5,6) by auto
    from recover_import_skips[OF this assms(8)] Cons show ?case by (auto simp: find_shm_def intro!: keeps_intros)
  qed (simp add: keeps_return)
  from keeps_run[OF this, of "ListShmImportRecord (d_store d)" d] have "map_of (d_shm d1) n = None" using r assms(4) by simp
  moreover have "n \<in> fst ` set (ListShmRefRecordNameF (d_store d1))"
    using listed_user[of "d_store d1" n] I refs assms(7) by (auto simp: half_inv_def)
  ultimately show ?thesis unfolding run recover_users_ok by auto
qed

end
