(* ===== verification/Lease_Claims.thy ===== *)
theory Lease_Claims
  imports Lease_Props
begin

text \<open>The properties of leased memory, each with an example on a concrete daemon.\<close>

section \<open>A lease in use\<close>

definition app_42 :: MxmComUdsInfo where
  "app_42 = \<lparr>uds_pid = 42, uds_uid = 1000, uds_gid = 1000\<rparr>"

definition numa_request :: AppMallocMemoryWithLocRequest where
  "numa_request = new_AppMallocMemoryWithLocRequest\<lparr>AppMallocMemoryWithLocReq_size := 4096, AppMallocMemoryWithLocReq_isNuma := 1\<rparr>"

lemma numa_request_simps [simp]:
  "AppMallocMemoryWithLocReq_size numa_request = 4096" "AppMallocMemoryWithLocReq_isNuma numa_request = 1"
  by (simp_all add: numa_request_def new_AppMallocMemoryWithLocRequest_def)

definition leased_daemon :: "unit daemon" where
  "leased_daemon = snd (run_state (AppMallocMemoryWithLoc quiet_env numa_request new_AppMallocMemoryResponse app_42) idle_daemon)"

lemma idle_lease_inv: "lease_inv {} idle_daemon" "within_limit (d_mls idle_daemon)"
proof -
  have "agree {} {} (leases booted_store)" by (simp add: agree_def booted_abs)
  moreover have "held new_mls_manager = {}" by (simp add: held_def new_mls_manager_def buffered_def)
  moreover have "placed new_mls_manager" by (simp add: placed_def new_mls_manager_def buffered_def map_ok_Nil)
  ultimately show "lease_inv {} idle_daemon" using booted_inv by (simp add: lease_inv_def idle_daemon_def)
  show "within_limit (d_mls idle_daemon)" by (simp add: within_limit_def idle_daemon_def new_mls_manager_def)
qed

lemma sample_name: "to_string 4096 = ''4096''" "to_string 7 = ''7''" "to_string 5 = ''5''"
  by (simp_all add: to_string.simps digit_def char_of_def bit_0)

lemma sample_generated: "run_state (GenerateMemName quiet_env 4096) idle_daemon = (''N4096_7_5'', idle_daemon)"
  by (simp add: GenerateMemName_def sample_name idle_daemon_def)

abbreviation sample_input :: LeaseMallocInput where
  "sample_input \<equiv> \<lparr>lmi_fdMode = False, lmi_name = ''N4096_7_5'', lmi_size = 4096, lmi_distance = 0,
    lmi_appContext = context_of app_42, lmi_state = PRE_ADD\<rparr>"

abbreviation sample_result :: LeaseMallocResult where
  "sample_result \<equiv> \<lparr>lmr_memIds = [0], lmr_numaId = 4, lmr_unitSize = 0, lmr_slotId = 1\<rparr>"

lemma sample_calls:
  defines "st1 \<equiv> snd (exec_op (OpAddLease sample_input) booted_store)"
  shows "fst (exec_op (OpAddLease sample_input) booted_store) = 0"
    "fst (exec_op (OpLeaseResult ''N4096_7_5'' sample_result) st1) = 0"
    "leases (snd (exec_op (OpLeaseResult ''N4096_7_5'' sample_result) st1)) ''N4096_7_5'' =
      Some (sample_input\<lparr>lmi_state := FINISH\<rparr>, sample_result)"
proof -
  have n: "op_named (OpAddLease sample_input)" by (simp add: good_name_def RECORD_NAME_SIZE_def)
  have "op_room (OpAddLease sample_input) booted_store"
    using capacity(2)[OF booted_inv] by (simp add: booted_abs MEM_LEASE_MAX_RECORD_def MAX_IMPORT_COUNT_def)
  then show ok1: "fst (exec_op (OpAddLease sample_input) booted_store) = 0"
    using exec_call(3)[OF booted_inv n] by (simp add: booted_abs del: exec_op.simps)
  have inv1: "store_inv st1" and A1: "abs_of st1 = abs_op (OpAddLease sample_input) (abs_of booted_store)"
    using exec_call[OF booted_inv n] ok1 by (simp_all add: st1_def del: exec_op.simps)
  have "1 \<le> length (idleIdIndexes (poolAllocator st1))"
    using booted_pool by (cases "idleIdIndexes (poolAllocator booted_store)") (simp_all add: st1_def AddMemLeaseInput_pool)
  then have "op_room (OpLeaseResult ''N4096_7_5'' sample_result) st1" by simp
  then show ok2: "fst (exec_op (OpLeaseResult ''N4096_7_5'' sample_result) st1) = 0"
    using exec_call(3)[OF inv1, of "OpLeaseResult ''N4096_7_5'' sample_result"] by (simp add: A1 del: exec_op.simps)
  show "leases (snd (exec_op (OpLeaseResult ''N4096_7_5'' sample_result) st1)) ''N4096_7_5'' =
      Some (sample_input\<lparr>lmi_state := FINISH\<rparr>, sample_result)"
    using exec_call(2)[OF inv1, of "OpLeaseResult ''N4096_7_5'' sample_result"] ok2
    by (simp add: A1 lease_new_def booted_abs del: exec_op.simps)
qed

lemma quiet_lender:
  assumes "ll_isNuma q" "ad_initialized (d_adapter d)"
  shows "run_state (LeaseMallocWithLoc quiet_env q) d = ((0, sample_result), d)"
  using assms
  by (simp add: LeaseMallocWithLoc_def Initialize_def MXM_OK_def UBS_SUCCESS_def UBS_ERR_TIMED_OUT_def Let_def numa_result_def
      new_LeaseMallocResult_def)

lemma leased_run:
  "fst (run_state (AppMallocMemoryWithLoc quiet_env numa_request resp app_42) idle_daemon) =
     (0, fill_response 4096 ''N4096_7_5'' sample_result resp)"
  "leases (d_store (snd (run_state (AppMallocMemoryWithLoc quiet_env numa_request resp app_42) idle_daemon))) ''N4096_7_5'' =
     Some (sample_input\<lparr>lmi_state := FINISH\<rparr>, sample_result)"
proof -
  let ?n = "''N4096_7_5''" and ?st = "snd (exec_op (OpAddLease sample_input) booted_store)"
  let ?info = "\<lparr>mi_name = ?n, mi_appContext = context_of app_42, mi_size = 4096, mi_numaId = 0, mi_memIds = [],
     mi_unitSize = 0, mi_perflevel = 0, mi_slotId = 0, mi_isNuma = True, mi_state = PRE_ADD\<rparr>"
  define d1 where "d1 = idle_daemon\<lparr>d_store := ?st, d_mls := new_mls_manager\<lparr>usedMemory := [(?n, ?info)]\<rparr>\<rparr>"
  have pre: "run_state (PreAddUsedMem ?n 4096 (context_of app_42) True 0) idle_daemon = (MXM_OK, d1)"
    using sample_calls(1)
    by (simp add: PreAddUsedMem_def find_used_def repository_op idle_daemon_def new_mls_manager_def map_emplace_def d1_def
        del: exec_op.simps)
  have engine: "run_state (LeaseMallocWithLoc quiet_env q) d1 = ((0, sample_result), d1)" if "ll_isNuma q" for q
    by (rule quiet_lender[OF that]) (simp add: idle_daemon_def d1_def)
  have finish: "fst (run_state (FinishAddUsedMem ?n 4 0 1 [0]) d1) = 0"
    "d_store (snd (run_state (FinishAddUsedMem ?n 4 0 1 [0]) d1)) = snd (exec_op (OpLeaseResult ?n sample_result) ?st)"
    using sample_calls(2) by (simp_all add: FinishAddUsedMem_def find_used_def repository_op MXM_OK_def d1_def del: exec_op.simps)
  show "fst (run_state (AppMallocMemoryWithLoc quiet_env numa_request resp app_42) idle_daemon) =
     (0, fill_response 4096 ''N4096_7_5'' sample_result resp)"
    "leases (d_store (snd (run_state (AppMallocMemoryWithLoc quiet_env numa_request resp app_42) idle_daemon))) ?n =
     Some (sample_input\<lparr>lmi_state := FINISH\<rparr>, sample_result)"
    unfolding AppMallocMemoryWithLoc_def BorrowMemoryWithLender_def using sample_calls(3)
    by (simp_all add: sample_generated pre[unfolded MXM_OK_def] MEM_DISTANCE_L0_def MXM_OK_def engine finish split_beta
        del: exec_op.simps)
qed

lemma leased_facts:
  "lease_inv {} leased_daemon" "in_use (context_of app_42) 4096 True ''N4096_7_5'' leased_daemon"
proof -
  have s: "lease_safe {} idle_daemon" using idle_lease_inv by (simp add: lease_safe_def)
  have "keeps (lease_safe {}) (AppMallocMemoryWithLoc quiet_env numa_request new_AppMallocMemoryResponse app_42)"
    by (rule agreeing.malloc_loc_keeps) (simp add: app_42_def)
  from keeps_run[OF this s] show "lease_inv {} leased_daemon" by (simp add: lease_safe_def leased_daemon_def)
  show "in_use (context_of app_42) 4096 True ''N4096_7_5'' leased_daemon"
    using tripleD[OF AppMallocMemoryWithLoc_served TrueI, of quiet_env numa_request new_AppMallocMemoryResponse app_42 idle_daemon]
    by (simp add: leased_run leased_daemon_def fill_response_def)
qed

section \<open>Recovery keeps finished leases\<close>

definition recorded :: "string \<Rightarrow> LeaseMallocInput \<times> LeaseMallocResult \<Rightarrow> 'w daemon \<Rightarrow> bool" where
  "recorded n q d \<longleftrightarrow> store_inv (d_store d) \<and> leases (d_store d) n = Some q"

lemma recorded_call: "op_named op \<Longrightarrow> lease_target op \<noteq> Some n \<Longrightarrow> keeps (recorded n q) (call_store (exec_op op))"
  using other_lease lease_call(1) by (simp add: triple_def recorded_def)

lemma recorded_services: "preserves services m \<Longrightarrow> keeps (recorded n q) m"
  by (erule services_keep) (simp add: services_def recorded_def)

lemma recorded_recover: "keeps (recorded n q) (recover_lease i)"
  by (simp add: triple_def recorded_def recover_lease_def)

lemmas recorded_intros = keeps_intros recorded_call recorded_recover adapter_frames[THEN recorded_services]

lemma recover_record_recorded:
  assumes "record_name r \<noteq> n \<or> lmi_state (fst r) = FINISH"
  shows "keeps (recorded n q) (recover_record E r)"
proof (cases "lmi_state (fst r) = FINISH")
  case True
  then show ?thesis by (simp add: recover_record_def recorded_recover)
next
  case False
  then show ?thesis
    using assms unfolding recover_record_def RemovePreAddRecord_def RollbackPreDeleteRecord_def repository_op
    by (intro recorded_intros; simp)
qed

lemma RecoverFromRecord_recorded:
  assumes "store_inv (d_store d)" "leases (d_store d) n = Some q" "lmi_state (fst q) = FINISH"
  shows "recorded n q (snd (run_state (RecoverFromRecord E) d))"
proof -
  have "keeps (recorded n q) (recover_record E r)" if "r \<in> set (ListMemLeaseRecord (d_store d))" for r
  proof (rule recover_record_recorded)
    have "leases (d_store d) (record_name r) = Some r" using listed_leases(2)[OF assms(1)] that by blast
    then show "record_name r \<noteq> n \<or> lmi_state (fst r) = FINISH" using assms(2,3) by auto
  qed
  then have "keeps (recorded n q) (for_each (ListMemLeaseRecord (d_store d)) (recover_record E))" by (intro keeps_intros)
  from keeps_run[OF this, of d] show ?thesis using assms(1,2) by (simp add: RecoverFromRecord_run recorded_def)
qed

section \<open>Enough memory\<close>

lemma unit_count:
  fixes sz u :: u64
  assumes "u \<noteq> 0" "\<not> sz > - 1 - u"
  defines "c \<equiv> unat ((sz + u - 1) div u)"
  shows "c = (unat sz + unat u - 1) div unat u" "unat sz \<le> unat u * c" "unat u * (c - 1) < unat sz \<or> c = 0"
proof -
  have u: "0 < unat u" using assms(1) by (simp add: unat_gt_0)
  have "unat (- 1 - u) = unat (- 1 :: u64) - unat u" by (rule unat_sub) (rule word_order.extremum)
  then have "unat (- 1 - u) = 2 ^ LENGTH(64) - 1 - unat u" by (simp add: unsigned_minus_1_eq_mask mask_eq_exp_minus_1)
  then have "unat sz \<le> 2 ^ LENGTH(64) - 1 - unat u" using assms(2) by (metis not_less word_le_nat_alt)
  moreover have "unat u < 2 ^ LENGTH(64)" by (rule unsigned_less)
  ultimately have b: "unat sz + unat u < 2 ^ LENGTH(64)" by simp
  have "unat (sz + u) = unat sz + unat u" using b by (simp only: unat_add_lem[THEN iffD1])
  moreover have "1 \<le> sz + u" using calculation u by (simp add: word_le_nat_alt)
  ultimately have "unat (sz + u - 1) = unat sz + unat u - 1" by (simp add: unat_sub)
  then show c: "c = (unat sz + unat u - 1) div unat u" by (simp add: c_def unat_div)
  let ?n = "unat sz + unat u - 1"
  have D: "?n = unat u * c + ?n mod unat u" "?n mod unat u < unat u" using u unfolding c by (simp_all add: mult_div_mod_eq[symmetric])
  then show "unat sz \<le> unat u * c" by linarith
  show "unat u * (c - 1) < unat sz \<or> c = 0"
    using D u by (cases c) (auto simp: algebra_simps)
qed

lemma key_size_le: "MLSMemKey sz n \<le> MLSMemKey sz' n' \<Longrightarrow> sz \<le> sz'"
  by (auto simp: less_eq_MLSMemKey_def less_MLSMemKey_def MLSMemKey_less_def split: if_splits)

lemma kept_blocks:
  assumes "lease_inv Orph d" "(k, i) \<in> set (buffered b (d_mls d))"
  shows "k = MLSMemKey (mi_size i) (mi_name i)" "unat (mi_size i) \<le> unat (mi_unitSize i) * length (mi_memIds i)"
proof -
  note B = placed_buffered[OF lease_invD(2)[OF assms(1)] assms(2)]
  show "k = MLSMemKey (mi_size i) (mi_name i)" using B by (simp add: info_key_def)
  obtain inp res where "lease_matches i (inp, res)" "kept_size (inp, res)" using held_record[OF assms(1)] B by metis
  then have "mi_size i = mi_unitSize i * word_of_nat (length (mi_memIds i))"
    using B by (simp add: lease_matches_def kept_size_def)
  then have "unat (mi_size i) = unat (word_of_nat (unat (mi_unitSize i) * length (mi_memIds i)) :: u64)" by simp
  also have "\<dots> \<le> unat (mi_unitSize i) * length (mi_memIds i)" by (simp only: unsigned_of_nat of_nat_id take_bit_nat_less_eq_self)
  finally show "unat (mi_size i) \<le> unat (mi_unitSize i) * length (mi_memIds i)" .
qed

definition covers :: "u64 \<Rightarrow> MLSMemInfo \<Rightarrow> MLSMemInfo \<Rightarrow> bool" where
  "covers sz i j \<longleftrightarrow> mi_name j = mi_name i \<and> mi_memIds j = take (length (mi_memIds j)) (mi_memIds i) \<and>
     unat sz \<le> unat (mi_unitSize i) * length (mi_memIds j) \<and>
     (unat (mi_unitSize i) * (length (mi_memIds j) - 1) < unat sz \<or> mi_memIds j = [])"

lemma reuse_result_covers:
  assumes "reuse_result sz (reused_info sz ctx i) = (rc, Some j)" "unat sz \<le> unat (mi_unitSize i) * length (mi_memIds i)"
  shows "covers sz i j" "mi_appContext j = ctx" "mi_size j = sz"
proof -
  let ?c = "unat ((sz + mi_unitSize i - 1) div mi_unitSize i)"
  have u: "mi_unitSize i \<noteq> 0" "\<not> sz > - 1 - mi_unitSize i" and
    j: "j = (reused_info sz ctx i)\<lparr>mi_memIds := take ?c (mi_memIds i) @ replicate (?c - length (mi_memIds i)) 0\<rparr>"
    using assms(1) by (auto simp: reuse_result_def Let_def split: if_splits)
  note C = unit_count[OF u]
  have "unat sz + unat (mi_unitSize i) - 1 < unat (mi_unitSize i) * Suc (length (mi_memIds i))"
  proof -
    have "0 < unat (mi_unitSize i)" using u(1) by (simp add: unat_gt_0)
    then show ?thesis using assms(2) unfolding mult_Suc_right by linarith
  qed
  then have "?c \<le> length (mi_memIds i)" unfolding C(1) by (simp add: less_mult_imp_div_less less_Suc_eq_le[symmetric] mult.commute)
  then show "covers sz i j" using C(2,3) by (auto simp: covers_def j)
  show "mi_appContext j = ctx" "mi_size j = sz" by (simp_all add: j)
qed

section \<open>Properties\<close>

text \<open>
  C14. Manager and record store agree.  Whatever requests processes with a pid other than 0 make, in any order, with any
  answers of the engine: the daemon's tables of leases in use and of leases kept for reuse hold
  exactly the leases of the record store, under one name each and with the recorded owner, size and
  memory ids, and never more leases are kept for reuse than the limit allows.
\<close>

theorem lease_history:
  assumes "lease_inv Orph d" "within_limit (d_mls d)" "\<forall>r\<in>set rs. uds_pid (snd r) \<noteq> 0"
  shows "lease_inv Orph (snd (run_state (serve_leases E rs) d)) \<and> within_limit (d_mls (snd (run_state (serve_leases E rs) d)))"
proof -
  have "keeps (lease_safe Orph) (serve_lease E r)" if "r \<in> set rs" for r
    using agreeing.serve_keeps[of "snd r" "uds_pid (snd r)" Orph E "fst r"] assms(3) that by simp
  then have "keeps (lease_safe Orph) (serve_leases E rs)"
    unfolding serve_leases_def by (intro keeps_intros)
  from keeps_run[OF this] show ?thesis using assms(1,2) by (simp add: lease_safe_def)
qed

theorem lease_history_witness:
  "lease_inv {} (snd (run_state (serve_leases quiet_env [(ReqMallocWithLoc numa_request, app_42), (ReqForceFree, app_42)]) idle_daemon))"
  using lease_history[OF idle_lease_inv, of "[(ReqMallocWithLoc numa_request, app_42), (ReqForceFree, app_42)]" quiet_env]
  by (simp add: app_42_def)

text \<open>
  C4. Isolation of processes.  A lease in use by one process is not touched by anything that processes with
  another pid, which is not 0, ask for: after any sequence of their requests it is still in use with the same data, and
  its record is unchanged.
\<close>

theorem lease_isolation:
  assumes "lease_inv Orph d" "map_of (usedMemory (d_mls d)) n = Some i" "leases (d_store d) n = Some r"
    "\<forall>q\<in>set rs. uds_pid (snd q) \<noteq> 0 \<and> uds_pid (snd q) \<noteq> info_pid i"
  shows "map_of (usedMemory (d_mls (snd (run_state (serve_leases E rs) d)))) n = Some i \<and>
    leases (d_store (snd (run_state (serve_leases E rs) d))) n = Some r"
proof -
  have "keeps (\<lambda>d. lease_inv Orph d \<and> sees n i r d) (serve_lease E q)" if "q \<in> set rs" for q
  proof -
    have p: "uds_pid (snd q) \<noteq> 0" "info_pid i \<noteq> uds_pid (snd q)" using assms(4) that by auto
    have "kept_for Orph n i r (uds_pid (snd q)) = (\<lambda>d :: 'a daemon. lease_inv Orph d \<and> sees n i r d)"
      using p(2) by (simp add: kept_for_def fun_eq_iff)
    then show ?thesis using bystander.serve_keeps[OF refl p(1), of Orph n i r E "fst q"] by simp
  qed
  then have "keeps (\<lambda>d. lease_inv Orph d \<and> sees n i r d) (serve_leases E rs)"
    unfolding serve_leases_def by (intro keeps_intros)
  from keeps_run[OF this] show ?thesis using assms(1-3) lease_invD(1)[OF assms(1)] by (simp add: sees_def)
qed

theorem lease_isolation_witness:
  "\<exists>i r. map_of (usedMemory (d_mls (snd (run_state (serve_leases quiet_env
      [(ReqFree (new_AppFreeMemoryRequest\<lparr>AppFreeMemoryReq_name := ''N4096_7_5''\<rparr>), app_42\<lparr>uds_pid := 7\<rparr>)]) leased_daemon)))) ''N4096_7_5'' = Some i \<and>
     info_pid i = 42 \<and> leases (d_store leased_daemon) ''N4096_7_5'' = Some r"
proof -
  obtain i where i: "map_of (usedMemory (d_mls leased_daemon)) ''N4096_7_5'' = Some i" "info_pid i = 42"
    using leased_facts(2) by (auto simp: in_use_def context_of_def app_42_def split: option.splits)
  from placed_used[OF lease_invD(2)[OF leased_facts(1)] i(1)] have h: "i \<in> held (d_mls leased_daemon)" "mi_name i = ''N4096_7_5''" by blast+
  obtain r where r: "leases (d_store leased_daemon) ''N4096_7_5'' = Some r" using held_record[OF leased_facts(1) h(1)] h(2) by metis
  show ?thesis
    using lease_isolation[OF leased_facts(1) i(1) r, of "[(ReqFree (new_AppFreeMemoryRequest\<lparr>AppFreeMemoryReq_name := ''N4096_7_5''\<rparr>), app_42\<lparr>uds_pid := 7\<rparr>)]" quiet_env] i r
    by (simp add: app_42_def)
qed

text \<open>
  C15. A restart keeps every finished lease.  When the daemon comes back on the file a daemon in
  agreement has left, and whatever the engine answers, manager and store agree again; only records of
  requests that were under way may be without an entry, and every finished lease is held as recorded.
\<close>

theorem lease_restart:
  assumes "lease_inv Orph d" "0 \<le> fd"
    "RecordStore_Initialize alive fd True (Some (image_of (d_store d))) new_store = (ret, st)"
    "held (d_mls d0) = {}" "d_store d0 = st"
    "d' = snd (run_state (RecoverFromRecord E) d0)"
  shows "lease_inv {n. \<exists>r. leases (d_store d) n = Some r \<and> lmi_state (fst r) \<in> {PRE_ADD, PRE_DEL}} d' \<and>
    (\<forall>n r. leases (d_store d) n = Some r \<and> lmi_state (fst r) = FINISH \<longrightarrow>
      leases (d_store d') n = Some r \<and> (\<exists>i\<in>held (d_mls d'). lease_matches i r))"
proof -
  note D = lease_invD[OF assms(1)]
  have inv: "store_inv st" by (rule Initialize_inv[OF D(1) new_store_unmapped assms(2,3)])
  have L: "leases (d_store d0) = leases (d_store d)"
    using Initialize_abs[OF D(1) new_store_unmapped assms(2,3)] assms(5) by simp
  let ?O = "{n. \<exists>r. leases (d_store d) n = Some r \<and> lmi_state (fst r) \<in> {PRE_ADD, PRE_DEL}}"
  have R: "lease_inv ?O d'"
    using RecoverFromRecord_inv[of d0 E] D(3) inv assms(4,5,6) unfolding L agree_def by simp
  have "leases (d_store d') n = Some r \<and> (\<exists>i\<in>held (d_mls d'). lease_matches i r)"
    if r: "leases (d_store d) n = Some r" "lmi_state (fst r) = FINISH" for n r
  proof -
    have k: "leases (d_store d') n = Some r"
      using RecoverFromRecord_recorded[of d0 n r E] inv r L assms(5,6) by (simp add: recorded_def)
    have "n \<notin> ?O" using r by auto
    then have "n \<in> mi_name ` held (d_mls d')" using k lease_invD(3)[OF R] unfolding agree_def by blast
    then obtain i where i: "i \<in> held (d_mls d')" "mi_name i = n" by blast
    from agree_entry[OF lease_invD(3)[OF R] i(1)] have "lease_matches i r" using k i(2) by (metis option.inject)
    then show ?thesis using k i(1) by blast
  qed
  then show ?thesis using R by blast
qed

theorem lease_restart_witness:
  "\<exists>i\<in>held (d_mls (snd (run_state (RecoverFromRecord quiet_env) (idle_daemon\<lparr>d_store :=
     snd (RecordStore_Initialize (\<lambda>_. True) 3 True (Some (image_of (d_store leased_daemon))) new_store)\<rparr>)))).
     lease_matches i (sample_input\<lparr>lmi_state := FINISH\<rparr>, sample_result)"
proof -
  let ?b = "RecordStore_Initialize (\<lambda>_. True) 3 True (Some (image_of (d_store leased_daemon))) new_store"
  let ?d0 = "idle_daemon\<lparr>d_store := snd ?b\<rparr>"
  have h: "held (d_mls ?d0) = {}" by (simp add: idle_daemon_def held_def new_mls_manager_def buffered_def)
  have L: "leases (d_store leased_daemon) ''N4096_7_5'' = Some (sample_input\<lparr>lmi_state := FINISH\<rparr>, sample_result)"
    unfolding leased_daemon_def by (rule leased_run(2))
  show ?thesis
    using lease_restart[OF leased_facts(1) _ _ h _ refl, of 3 "\<lambda>_. True" "fst ?b" "snd ?b" quiet_env] L by simp
qed

text \<open>
  C9. Allocation.  A request for leased memory keeps manager and store in agreement whatever
  happens, and when its code is 0 the response names a lease that is in use by the caller, with the
  size and the kind of memory asked for, and carries the code 0.
\<close>

theorem lease_malloc:
  assumes "lease_inv Orph d" "within_limit (d_mls d)" "uds_pid uds \<noteq> 0"
  shows "(case run_state (AppMallocMemory E req resp uds) d of (a, d') \<Rightarrow>
      lease_safe Orph d' \<and> served (context_of uds) (AppMallocMemoryReq_size req) (AppMallocMemoryReq_isNuma req \<noteq> 0) a d') \<and>
    (case run_state (AppMallocMemoryWithLoc E reql resp uds) d of (a, d') \<Rightarrow>
      lease_safe Orph d' \<and> served (context_of uds) (AppMallocMemoryWithLocReq_size reql) (AppMallocMemoryWithLocReq_isNuma reql \<noteq> 0) a d')"
proof -
  have s: "lease_safe Orph d" using assms(1,2) by (simp add: lease_safe_def)
  show ?thesis
    using keeps_run[OF agreeing.malloc_keeps[OF assms(3)] s, of E req resp] keeps_run[OF agreeing.malloc_loc_keeps[OF assms(3)] s, of E reql resp]
      tripleD[OF AppMallocMemory_served assms(1), of E req resp uds] tripleD[OF AppMallocMemoryWithLoc_served TrueI, of E reql resp uds d]
    by (simp add: split_beta)
qed

theorem lease_malloc_witness:
  "fst (fst (run_state (AppMallocMemoryWithLoc quiet_env numa_request new_AppMallocMemoryResponse app_42) idle_daemon)) = 0 \<and>
   in_use (context_of app_42) 4096 True ''N4096_7_5'' (snd (run_state (AppMallocMemoryWithLoc quiet_env numa_request new_AppMallocMemoryResponse app_42) idle_daemon))"
  using lease_malloc[OF idle_lease_inv, where uds = app_42 and E = quiet_env and reql = numa_request and resp = new_AppMallocMemoryResponse] leased_run(1)
  by (simp add: app_42_def split_beta fill_response_def)

text \<open>
  C8. Release.  When the owner frees a lease, code 0 means that the lease is no longer in use and is
  either gone from the store or kept for reuse without an owner; any other code means that it is
  still in use and can be freed again.  Anyone else is refused and nothing changes.
\<close>

theorem lease_free:
  assumes "lease_inv Orph d" "map_of (usedMemory (d_mls d)) (AppFreeMemoryReq_name req) = Some i"
    "run_state (AppFreeMemory E req resp uds) d = ((ret, resp'), d')"
  shows "if IsSameApp (mi_appContext i) uds
    then if ret = 0 then released i d' else still_in_use i d'
    else ret \<noteq> 0 \<and> d' = d"
proof (cases "IsSameApp (mi_appContext i) uds")
  case True
  then show ?thesis using AppFreeMemory_spec[OF assms(1,2) True assms(3)] by simp
next
  case False
  then show ?thesis
    using assms(2,3)
    by (auto simp: AppFreeMemory_def GetDelayRemoveRecord_def GetUsedMemByName_def find_used_def Let_def
        MXM_ERR_PARAM_INVALID_def MXM_ERR_NAME_BUSY_def MXM_ERR_SHM_PERMISSION_DENIED_def split: if_splits)
qed

definition free_request :: AppFreeMemoryRequest where
  "free_request = new_AppFreeMemoryRequest\<lparr>AppFreeMemoryReq_name := ''N4096_7_5''\<rparr>"

theorem lease_free_witness:
  "snd (run_state (AppFreeMemory quiet_env free_request new_CommonResponse (app_42\<lparr>uds_uid := 7\<rparr>)) leased_daemon) = leased_daemon \<and>
   (\<exists>i. map_of (usedMemory (d_mls leased_daemon)) ''N4096_7_5'' = Some i \<and>
     (released i (snd (run_state (AppFreeMemory quiet_env free_request new_CommonResponse app_42) leased_daemon)) \<or>
      still_in_use i (snd (run_state (AppFreeMemory quiet_env free_request new_CommonResponse app_42) leased_daemon))))"
proof -
  have n: "AppFreeMemoryReq_name free_request = ''N4096_7_5''" by (simp add: free_request_def)
  obtain i where i: "map_of (usedMemory (d_mls leased_daemon)) (AppFreeMemoryReq_name free_request) = Some i"
    "mi_appContext i = context_of app_42"
    using leased_facts(2) unfolding n by (auto simp: in_use_def split: option.splits)
  obtain a b d' where r: "run_state (AppFreeMemory quiet_env free_request new_CommonResponse (app_42\<lparr>uds_uid := 7\<rparr>)) leased_daemon = ((a, b), d')"
    by (metis surj_pair)
  obtain e f d'' where q: "run_state (AppFreeMemory quiet_env free_request new_CommonResponse app_42) leased_daemon = ((e, f), d'')"
    by (metis surj_pair)
  have own: "IsSameApp (mi_appContext i) app_42" "\<not> IsSameApp (mi_appContext i) (app_42\<lparr>uds_uid := 7\<rparr>)"
    using i(2) by (simp_all add: IsSameApp_def context_of_def app_42_def)
  show ?thesis
    using lease_free[OF leased_facts(1) i(1) r] lease_free[OF leased_facts(1) i(1) q] i(1) own
    unfolding r q n by (auto split: if_splits)
qed

text \<open>
  C35. Reuse hands out enough memory.  A lease taken from the ones kept comes with a prefix of its own
  memory ids, as many as the request needs and no more; no id is ever made up, also where the product
  of unit size and number of ids wraps around.
\<close>

theorem lease_reuse:
  assumes "lease_inv Orph d" "run_state (ReuseBufferedMem E sz b region ctx) d = ((rc, Some j), d')"
  shows "\<exists>i\<in>snd ` set (buffered b (d_mls d)). covers sz i j \<and> mi_appContext j = ctx \<and> mi_size j = sz"
proof -
  obtain hr slots d1 where G: "run_state (GetRegionInfo E region) d = ((hr, slots), d1)" by (metis surj_pair)
  have inv1: "lease_inv Orph d1" using keeps_run[OF frame_lease[OF GetRegionInfo_frame] assms(1), of E region] G by simp
  have m: "d_mls d1 = d_mls d" using preserves_run[OF GetRegionInfo_frame, of E region d] G by (simp add: services_def)
  from ReuseBufferedMem_result[OF assms(1) G, of sz b ctx] obtain k i where
    c: "reuse_candidate sz b slots (d_mls d1) = Some (k, i)" "reuse_result sz (reused_info sz ctx i) = (rc, Some j)"
    using assms(2) by (auto split: if_splits option.splits)
  note R = reuse_candidateD[OF c(1) lease_invD(2)[OF inv1]] and B = kept_blocks[OF inv1]
  have "sz \<le> mi_size i" using key_size_le[of sz "[]" "mi_size i" "mi_name i"] R(2) B(1)[OF R(1)] by simp
  then have "unat sz \<le> unat (mi_unitSize i) * length (mi_memIds i)"
    using B(2)[OF R(1)] by (meson le_trans word_le_nat_alt)
  from reuse_result_covers[OF c(2) this] R(1) m show ?thesis by (metis image_eqI snd_conv)
qed

definition kept_store :: record_store where
  "kept_store = (let n = ''k'';
     st1 = snd (exec_op (OpAddLease \<lparr>lmi_fdMode = True, lmi_name = n, lmi_size = 4096, lmi_distance = 0,
       lmi_appContext = context_of app_42, lmi_state = PRE_ADD\<rparr>) booted_store);
     st2 = snd (exec_op (OpLeaseResult n \<lparr>lmr_memIds = [9], lmr_numaId = - 1, lmr_unitSize = 4096, lmr_slotId = 1\<rparr>) st1)
     in snd (exec_op (OpLeaseUpdate n ((context_of app_42)\<lparr>app_pid := 0\<rparr>) 4096) st2))"

definition kept_lease :: MLSMemInfo where
  "kept_lease = \<lparr>mi_name = ''k'', mi_appContext = (context_of app_42)\<lparr>app_pid := 0\<rparr>, mi_size = 4096, mi_numaId = - 1,
     mi_memIds = [9], mi_unitSize = 4096, mi_perflevel = 0, mi_slotId = 1, mi_isNuma = False, mi_state = FINISH\<rparr>"

definition kept_daemon :: "unit daemon" where
  "kept_daemon = idle_daemon\<lparr>d_store := kept_store,
     d_mls := new_mls_manager\<lparr>fdBufferedMemory := [(MLSMemKey 4096 ''k'', kept_lease)]\<rparr>,
     d_regions := [(''r'', \<lparr>ri_name = ''r'', ri_size = 0,
       ri_region = new_SHMRegionDesc\<lparr>rd_num := 1, rd_affinity := \<lambda>_. True, rd_nodeId := \<lambda>_. ''1''\<rparr>\<rparr>)]\<rparr>"

lemma kept_store_facts: "store_inv kept_store"
  "leases kept_store = [''k'' \<mapsto> (\<lparr>lmi_fdMode = True, lmi_name = ''k'', lmi_size = 4096, lmi_distance = 0,
     lmi_appContext = (context_of app_42)\<lparr>app_pid := 0\<rparr>, lmi_state = FINISH\<rparr>,
     \<lparr>lmr_memIds = [9], lmr_numaId = - 1, lmr_unitSize = 4096, lmr_slotId = 1\<rparr>)]"
proof -
  let ?i = "\<lparr>lmi_fdMode = True, lmi_name = ''k'', lmi_size = 4096, lmi_distance = 0,
       lmi_appContext = context_of app_42, lmi_state = PRE_ADD\<rparr>"
  let ?r = "\<lparr>lmr_memIds = [9], lmr_numaId = - 1, lmr_unitSize = 4096, lmr_slotId = 1\<rparr>"
  let ?u = "OpLeaseUpdate ''k'' ((context_of app_42)\<lparr>app_pid := 0\<rparr>) 4096"
  define st1 where "st1 = snd (exec_op (OpAddLease ?i) booted_store)"
  define st2 where "st2 = snd (exec_op (OpLeaseResult ''k'' ?r) st1)"
  have n: "op_named (OpAddLease ?i)" by (simp add: good_name_def RECORD_NAME_SIZE_def)
  have "op_room (OpAddLease ?i) booted_store"
    using capacity(2)[OF booted_inv] by (simp add: booted_abs MEM_LEASE_MAX_RECORD_def MAX_IMPORT_COUNT_def)
  then have A1: "store_inv st1" "leases st1 = [''k'' \<mapsto> lease_new ?i]"
    using exec_call[OF booted_inv n] by (simp_all add: st1_def booted_abs del: exec_op.simps)
  have "1 \<le> length (idleIdIndexes (poolAllocator st1))"
    using booted_pool by (cases "idleIdIndexes (poolAllocator booted_store)") (simp_all add: st1_def AddMemLeaseInput_pool)
  then have A2: "store_inv st2" "leases st2 = [''k'' \<mapsto> (?i\<lparr>lmi_state := FINISH\<rparr>, ?r)]"
    using exec_call[OF A1(1), of "OpLeaseResult ''k'' ?r"] A1(2) by (simp_all add: st2_def lease_new_def del: exec_op.simps)
  have k: "kept_store = snd (exec_op ?u st2)" by (simp only: kept_store_def Let_def st1_def st2_def)
  show "store_inv kept_store" "leases kept_store = [''k'' \<mapsto> (\<lparr>lmi_fdMode = True, lmi_name = ''k'', lmi_size = 4096, lmi_distance = 0,
     lmi_appContext = (context_of app_42)\<lparr>app_pid := 0\<rparr>, lmi_state = FINISH\<rparr>, ?r)]"
    unfolding k using exec_call[OF A2(1), of ?u] A2(2) by (simp_all del: exec_op.simps)
qed

lemma kept_daemon_inv: "lease_inv {} kept_daemon"
proof (rule lease_invI)
  show "store_inv (d_store kept_daemon)" using kept_store_facts(1) by (simp add: kept_daemon_def)
  show "placed (d_mls kept_daemon)"
    by (simp add: placed_def kept_daemon_def new_mls_manager_def buffered_def map_ok_def buffered_entry_def info_key_def kept_lease_def)
  have "held (d_mls kept_daemon) = {kept_lease}"
    by (simp add: held_def kept_daemon_def new_mls_manager_def buffered_def)
  then show "agree {} (held (d_mls kept_daemon)) (leases (d_store kept_daemon))"
    using kept_store_facts(2)
    by (simp add: agree_def kept_daemon_def kept_lease_def lease_matches_def kept_size_def)
qed

lemma kept_daemon_reuse:
  "\<exists>j. fst (run_state (ReuseBufferedMem quiet_env 100 False ''r'' (context_of app_42)) kept_daemon) = (0, Some j)"
proof -
  have "to_string 1 = ''1''" by (simp add: to_string.simps digit_def char_of_def bit_0)
  then have "strtoul ''1'' = (1, [], False)" using strtoul_to_string[of 1] by simp
  then have "StrToUint ''1'' = (True, 1)" by (simp add: StrToUint_def c_str_def)
  then have G: "run_state (GetRegionInfo quiet_env ''r'') kept_daemon = ((0, [1]), kept_daemon)"
    by (simp add: GetRegionInfo_def RegionManager_GetRegionInfo_def kept_daemon_def region_slots_def new_SHMRegionDesc_def MXM_OK_def)
  have "reuse_candidate 100 False [1] (d_mls kept_daemon) = Some (MLSMemKey 4096 ''k'', kept_lease)"
    by (simp add: reuse_candidate_def kept_daemon_def buffered_def lower_bound_def new_mls_manager_def kept_lease_def less_MLSMemKey_def MLSMemKey_less_def)
  moreover have "\<exists>j. reuse_result 100 (reused_info 100 (context_of app_42) kept_lease) = (0, Some j)"
    by (simp add: reuse_result_def kept_lease_def Let_def)
  moreover have "isEnableLeaseBuffered (d_mls kept_daemon)" by (simp add: kept_daemon_def new_mls_manager_def)
  ultimately show ?thesis using ReuseBufferedMem_result[OF kept_daemon_inv G, of 100 False "context_of app_42"] by simp
qed

theorem lease_reuse_witness:
  "\<exists>j. fst (run_state (ReuseBufferedMem quiet_env 100 False ''r'' (context_of app_42)) kept_daemon) = (0, Some j) \<and>
     covers 100 kept_lease j"
proof -
  obtain j where j: "fst (run_state (ReuseBufferedMem quiet_env 100 False ''r'' (context_of app_42)) kept_daemon) = (0, Some j)"
    using kept_daemon_reuse by blast
  have "run_state (ReuseBufferedMem quiet_env 100 False ''r'' (context_of app_42)) kept_daemon =
    ((0, Some j), snd (run_state (ReuseBufferedMem quiet_env 100 False ''r'' (context_of app_42)) kept_daemon))"
    using j by (metis prod.collapse)
  from lease_reuse[OF kept_daemon_inv this] j show ?thesis by (simp add: kept_daemon_def buffered_def)
qed

end
