(* ===== verification/Shm_Claims.thy ===== *)
theory Shm_Claims
  imports Dead_Processes Shm_Recovery Lease_Claims
begin

text \<open>The properties of shared memory and of the daemon as a whole, each with an example on a concrete daemon.\<close>

section \<open>Mapping\<close>

text \<open>Process \<open>pid\<close> is a user of the memory \<open>n\<close>, which is attached with the given result.\<close>

definition mapped_by :: "u32 \<Rightarrow> string \<Rightarrow> ShareMemImportResult \<Rightarrow> 'w daemon \<Rightarrow> bool" where
  "mapped_by pid n res d \<longleftrightarrow> (\<exists>m. map_of (d_shm d) n = Some m \<and> pid \<in> set (am_pids m) \<and> am_state m = FINISH \<and> am_result m = res)"

text \<open>The part of a response that describes the memory.\<close>

definition response_result :: "ShmMapResponse \<Rightarrow> u64 list \<times> u64 \<times> u64 \<times> u32" where
  "response_result resp = (ShmMapResp_memIds resp, ShmMapResp_unitSize resp, ShmMapResp_flag resp, ShmMapResp_oflag resp)"

definition import_result :: "ShareMemImportResult \<Rightarrow> u64 list \<times> u64 \<times> u64 \<times> u32" where
  "import_result res = (smr_memIds res, smr_unitSize res, smr_createFlags res, smr_openFlag res)"

definition map_served :: "MxmComUdsInfo \<Rightarrow> string \<Rightarrow> int \<times> ShmMapResponse \<Rightarrow> 'w daemon \<Rightarrow> bool" where
  "map_served uds n a d \<longleftrightarrow> (fst a = 0 \<longrightarrow> (\<exists>res. mapped_by (uds_pid uds) n res d \<and> response_result (snd a) = import_result res))"

lemma AddFull_mapped: "triple (\<lambda>_. True) (AddFullShareMemoryInfo n pid res) (\<lambda>ret d. ret = 0 \<longrightarrow> mapped_by pid n res d)"
  by (rule tripleI)
    (auto simp: AddFullShareMemoryInfo_def find_shm_def mapped_by_def map_of_assign MXM_ERR_SHM_NOT_FOUND_def MXM_ERR_RECORD_ADD_def
      split: option.split)

lemma existing_served:
  "triple (\<lambda>d. map_of (d_shm d) (ShmMapReq_name req) = Some m \<and> am_state m = FINISH) (HandleExistingShm req resp uds m)
     (\<lambda>a d. map_served uds (ShmMapReq_name req) a d)"
  by (rule tripleI)
    (auto simp: HandleExistingShm_def AddMemoryUserInfo_def find_shm_def map_served_def mapped_by_def map_of_assign UBSM_OK_def
      MXM_ERR_SHM_NOT_FOUND_def MXM_ERR_SHM_ALREADY_EXIST_def response_result_def import_result_def)

lemma triple_skip: "(\<And>a. triple (\<lambda>_. True) (f a) Q) \<Longrightarrow> triple (\<lambda>_. True) (State_Monad.bind m f) Q"
  by (rule triple_bind[where R = "\<lambda>_ _. True"]) (simp_all add: triple_def)

lemma inner_served:
  "triple (\<lambda>_. True) (ShmMmapInner E p)
     (\<lambda>a d. fst a = 0 \<longrightarrow> (\<exists>res. mapped_by (app_pid (ip_appContext p)) (ip_name p) res d \<and>
       import_result res = (ar_memIds (snd a), ar_unitSize (snd a), ar_flag (snd a), ar_oflag (snd a))))"
proof -
  let ?Q = "\<lambda>a d. fst a = 0 \<longrightarrow> (\<exists>res. mapped_by (app_pid (ip_appContext p)) (ip_name p) res d \<and>
       import_result res = (ar_memIds (snd a), ar_unitSize (snd a), ar_flag (snd a), ar_oflag (snd a)))"
  have failed: "triple P (return (ret, r)) ?Q" if "ret \<noteq> 0" for P ret r using that by (simp add: triple_def)
  have full: "triple (\<lambda>_. True) (do {
      hr \<leftarrow> AddFullShareMemoryInfo (ip_name p) (app_pid (ip_appContext p))
        \<lparr>smr_memIds = ar_memIds result, smr_unitSize = ar_unitSize result, smr_createFlags = ar_flag result,
         smr_openFlag = ar_oflag result, smr_ownerUserId = u, smr_ownerGroupId = g\<rparr>;
      if hr \<noteq> 0 then do { RollBackAttachShareMemory E (ip_name p); return (hr, result) } else return (UBSM_OK, result) }) ?Q" for result u g
  proof (rule triple_bind[OF AddFull_mapped], rule triple_if)
    fix hr :: int
    show "triple (\<lambda>d. hr = 0 \<longrightarrow> mapped_by (app_pid (ip_appContext p)) (ip_name p) \<lparr>smr_memIds = ar_memIds result, smr_unitSize = ar_unitSize result,
        smr_createFlags = ar_flag result, smr_openFlag = ar_oflag result, smr_ownerUserId = u, smr_ownerGroupId = g\<rparr> d)
      (do { RollBackAttachShareMemory E (ip_name p); return (hr, result) }) ?Q" if "hr \<noteq> 0"
      by (rule triple_bind[where R = "\<lambda>_ _. True"]) (simp_all add: triple_def that)
    show "triple (\<lambda>d. hr = 0 \<longrightarrow> mapped_by (app_pid (ip_appContext p)) (ip_name p) \<lparr>smr_memIds = ar_memIds result, smr_unitSize = ar_unitSize result,
        smr_createFlags = ar_flag result, smr_openFlag = ar_oflag result, smr_ownerUserId = u, smr_ownerGroupId = g\<rparr> d)
      (return (UBSM_OK, result)) ?Q" if "\<not> hr \<noteq> 0"
      by (intro tripleI impI exI[of _ "\<lparr>smr_memIds = ar_memIds result, smr_unitSize = ar_unitSize result,
        smr_createFlags = ar_flag result, smr_openFlag = ar_oflag result, smr_ownerUserId = u, smr_ownerGroupId = g\<rparr>"])
        (use that in \<open>simp add: import_result_def\<close>)
  qed
  show ?thesis
    unfolding ShmMmapInner_def Let_def split_beta
    by (rule triple_skip triple_if failed full | simp add: UBSM_OK_def)+
qed

lemma map_new_served: "triple (\<lambda>_. True) (map_new E req resp uds) (map_served uds (ShmMapReq_name req))"
proof -
  let ?p = "\<lparr>ip_name = ShmMapReq_name req, ip_length = ShmMapReq_size req, ip_appContext = context_of uds,
     ip_mode = ShmMapReq_mode req, ip_prot = ShmMapReq_prot req\<rparr>"
  show ?thesis
    unfolding map_new_def split_beta
    by (rule triple_bind[OF inner_served])
      (auto simp: triple_def map_served_def UBSM_OK_def context_of_def response_result_def)
qed

lemma ShmMap_served:
  fixes E :: "'w env"
  shows "triple (\<lambda>_. True) (ShmMap E req resp uds) (map_served uds (ShmMapReq_name req))"
proof -
  let ?Q = "map_served uds (ShmMapReq_name req)"
  have failed: "triple P (return (ret, r)) ?Q" if "ret \<noteq> 0" for P ret r using that by (simp add: triple_def map_served_def)
  have new: "triple P (map_new E req r uds) ?Q" for P r by (rule triple_conseq[OF map_new_served]) auto
  have found: "triple (\<lambda>_. True) (GetShareMemoryInfo n) (\<lambda>a d. \<forall>m. snd a = Some m \<longrightarrow> map_of (d_shm d) n = Some m)" for n
    by (rule tripleI) (auto simp: GetShareMemoryInfo_def find_shm_def)
  have step: "triple (\<lambda>d. \<forall>m. snd a = Some m \<longrightarrow> map_of (d_shm d) (ShmMapReq_name req) = Some m)
      (case a of (ret, memory) \<Rightarrow> (case memory of
         None \<Rightarrow> map_new E req r uds
       | Some memory \<Rightarrow>
           if am_state memory = FINISH then HandleExistingShm req r uds memory
           else if am_state memory = DELETED then do {
             ret \<leftarrow> RemoveMemoryInfo (am_name memory) True;
             if ret \<noteq> 0 then return (ret, map_code ret r) else map_new E req r uds }
           else map_new E req r uds)) ?Q" for a r
  proof (cases "snd a")
    case None
    then show ?thesis using new by (simp add: split_beta)
  next
    case (Some m)
    have "triple (\<lambda>d :: 'w daemon. map_of (d_shm d) (ShmMapReq_name req) = Some m) (HandleExistingShm req r uds m) ?Q" if "am_state m = FINISH"
      by (rule triple_conseq[OF existing_served]) (use that in auto)
    moreover have "triple (\<lambda>d. map_of (d_shm d) (ShmMapReq_name req) = Some m) (do {
             ret \<leftarrow> RemoveMemoryInfo (am_name m) True;
             if ret \<noteq> 0 then return (ret, map_code ret r) else map_new E req r uds }) ?Q"
      by (rule triple_bind[where R = "\<lambda>_ _. True"]) (auto intro!: triple_if failed new simp: triple_def[of _ _ "\<lambda>_ _. True"])
    ultimately show ?thesis using Some new by (simp add: split_beta)
  qed
  show ?thesis
    unfolding ShmMap_def Let_def GetDelayRemoveRecord_def
    by (rule triple_skip triple_if failed triple_bind[OF found step] | simp add: MXM_ERR_NAME_BUSY_def)+
qed

text \<open>A request that fails does not make its sender a user.\<close>

lemma unused_methods:
  "keeps (\<lambda>d. \<not> uses d n pid) (PrepareAddShareMemoryInfo k sz p)" "keeps (\<lambda>d. \<not> uses d n pid) (GetShareMemoryInfo k)"
  "triple (\<lambda>d. \<not> uses d n pid) (AddFullShareMemoryInfo k p res) (\<lambda>ret d. ret \<noteq> 0 \<longrightarrow> \<not> uses d n pid)"
  "triple (\<lambda>d. \<not> uses d n pid) (AddMemoryUserInfo k p) (\<lambda>ret d. ret \<noteq> 0 \<longrightarrow> \<not> uses d n pid)"
  by (auto simp: triple_def uses_def PrepareAddShareMemoryInfo_def AddFullShareMemoryInfo_def AddMemoryUserInfo_def
      GetShareMemoryInfo_def find_shm_def map_of_emplace map_of_assign UBSM_OK_def MXM_OK_def split: option.split)

lemma failed_inner:
  fixes E :: "'w env"
  shows "triple (\<lambda>d. \<not> uses d n pid) (ShmMmapInner E p) (\<lambda>a d. fst a \<noteq> 0 \<longrightarrow> \<not> uses d n pid)"
proof -
  let ?P = "\<lambda>d :: 'w daemon. \<not> uses d n pid"
  have ret: "triple ?P (return a) (\<lambda>a d. fst a \<noteq> 0 \<longrightarrow> ?P d)" for a :: "int \<times> AttachShmResult" by (simp add: triple_def)
  have rolled: "keeps ?P (RollBackAttachShareMemory E k)" for k
    unfolding RollBackAttachShareMemory_def
    by (intro keeps_intros state_unused RemoveMemoryInfo_unused adapter_frames[THEN services_core, THEN unused_core])
  have full: "triple ?P (do { hr \<leftarrow> AddFullShareMemoryInfo k q r;
      if hr \<noteq> 0 then do { RollBackAttachShareMemory E k; return (hr, x) } else return (UBSM_OK, x) }) (\<lambda>a d. fst a \<noteq> 0 \<longrightarrow> ?P d)"
    for k q r and x :: AttachShmResult
  proof (rule triple_bind[OF unused_methods(3)], rule triple_if)
    show "triple (\<lambda>d. hr \<noteq> 0 \<longrightarrow> ?P d) (do { RollBackAttachShareMemory E k; return (hr, x) }) (\<lambda>a d. fst a \<noteq> 0 \<longrightarrow> ?P d)"
      if "hr \<noteq> 0" for hr :: int
    proof (rule triple_bind[where R = "\<lambda>_. ?P"])
      show "triple (\<lambda>d :: 'w daemon. hr \<noteq> 0 \<longrightarrow> ?P d) (RollBackAttachShareMemory E k) (\<lambda>_. ?P)"
        by (rule triple_conseq[OF rolled]) (use that in auto)
    qed (rule ret)
  qed (simp add: triple_def UBSM_OK_def)
  show ?thesis
    unfolding ShmMmapInner_def Let_def split_beta
    by (rule full ret triple_if triple_bind[OF adapter_frames(1)[THEN services_core, THEN unused_core]]
        triple_bind[OF shm_query_frames(2)[THEN services_core, THEN unused_core]]
        triple_bind[OF unused_methods(1)] triple_bind[OF Ubse_ShmAttach_core[THEN unused_core]] triple_bind[OF RemoveMemoryInfo_unused])+
qed

lemma ShmMap_failed:
  fixes E :: "'w env"
  shows "triple (\<lambda>d. \<not> uses d n pid) (ShmMap E req resp uds) (\<lambda>a d. fst a \<noteq> 0 \<longrightarrow> \<not> uses d n pid)"
proof -
  let ?P = "\<lambda>d :: 'w daemon. \<not> uses d n pid"
  have ret: "triple P (return a) (\<lambda>a d. fst a \<noteq> 0 \<longrightarrow> ?P d)" if "\<And>d. P d \<Longrightarrow> fst a \<noteq> 0 \<Longrightarrow> ?P d" for P and a :: "int \<times> ShmMapResponse"
    using that by (simp add: triple_def)
  have new: "triple ?P (map_new E req r uds) (\<lambda>a d. fst a \<noteq> 0 \<longrightarrow> ?P d)" for r
    unfolding map_new_def split_beta by (rule triple_bind[OF failed_inner], rule triple_if) (rule ret, simp add: UBSM_OK_def)+
  have old: "triple ?P (HandleExistingShm req r uds m) (\<lambda>a d. fst a \<noteq> 0 \<longrightarrow> ?P d)" for r m
    unfolding HandleExistingShm_def
    by (rule triple_if, rule ret, simp, rule triple_bind[OF unused_methods(4)], rule triple_if) (rule ret, simp add: UBSM_OK_def)+
  have del: "triple ?P (do { ret \<leftarrow> RemoveMemoryInfo k True; if ret \<noteq> 0 then return (ret, map_code ret r) else map_new E req r uds })
      (\<lambda>a d. fst a \<noteq> 0 \<longrightarrow> ?P d)" for k r
    by (rule triple_bind[OF RemoveMemoryInfo_unused], rule triple_if) (rule ret new, simp?)+
  show ?thesis
    unfolding ShmMap_def Let_def GetDelayRemoveRecord_def split_beta
    by (rule triple_bind[OF keeps_gets], rule triple_if, rule ret, simp, rule triple_bind[OF unused_methods(2)])
      (auto intro!: new old del split: option.split)
qed

section \<open>A memory in use\<close>

definition shm_env :: "unit env" where
  "shm_env = quiet_env\<lparr>ubse_shm_attach := (\<lambda>n _ _. Pair (0, Some ((quiet_shm n)\<lparr>sd_import_desc :=
     [\<lparr>im_memids = [3], im_import_slot = 1, im_mem_stage = UBSE_EXIST\<rparr>]\<rparr>)))\<rparr>"

lemma shm_env_simps [simp]:
  "ubse_shm_attach shm_env = (\<lambda>n _ _. Pair (0, Some ((quiet_shm n)\<lparr>sd_import_desc :=
     [\<lparr>im_memids = [3], im_import_slot = 1, im_mem_stage = UBSE_EXIST\<rparr>]\<rparr>)))"
  "ubse_shm_get shm_env = (\<lambda>n. Pair (0, Some (quiet_shm n)))" "ubse_shm_detach shm_env = (\<lambda>_. Pair 0)"
  by (simp_all add: shm_env_def)

definition map_request :: ShmMapRequest where
  "map_request = new_ShmMapRequest\<lparr>ShmMapReq_name := ''m'', ShmMapReq_size := 4096, ShmMapReq_prot := PROT_READ\<rparr>"

lemma map_request_simps [simp]:
  "ShmMapReq_name map_request = ''m''" "ShmMapReq_size map_request = 4096" "ShmMapReq_prot map_request = PROT_READ"
  by (simp_all add: map_request_def new_ShmMapRequest_def)

definition shared_daemon :: "unit daemon" where
  "shared_daemon = snd (run_state (ShmMap shm_env map_request new_ShmMapResponse app_42) idle_daemon)"

abbreviation sample_import :: ShareMemImportInput where
  "sample_import \<equiv> \<lparr>smi_name = ''m'', smi_size = 4096, smi_pid = 42\<rparr>"

abbreviation sample_attached :: ShareMemImportResult where
  "sample_attached \<equiv> \<lparr>smr_memIds = [3], smr_unitSize = 4096, smr_createFlags = 0, smr_openFlag = 2, smr_ownerUserId = 1000, smr_ownerGroupId = 1000\<rparr>"

lemma free_refs:
  assumes "store_inv st" "shm_imports st = Map.empty"
  shows "idleIndexes (shmRefAllocator st) \<noteq> []"
proof
  assume none: "idleIndexes (shmRefAllocator st) = []"
  note D = store_refD[OF assms(1)] and I = store_importD[OF assms(1)]
  let ?a = "shmRefAllocator st"
  let ?r = "recordAddress ?a 0"
  have pos: "0 < SHM_MAX_REFERENCE_RECORD" by (simp add: SHM_MAX_REFERENCE_RECORD_def SHM_MAX_ATTACH_RECORD_def MAX_IMPORT_COUNT_def)
  then have "\<not> MemShareRefIdle ?r" using D(2) none unfolding shmref.slots_inv_def by auto
  then have "0 \<in> refs_in ?a (sr_shmImportIndex ?r) (sr_pid ?r)" using pos by (simp add: refs_in_def)
  then have "mm_get (cachedRefShmIdxRecords st) (sr_shmImportIndex ?r) (sr_pid ?r) \<noteq> []"
    using D(7)[of "sr_shmImportIndex ?r" "sr_pid ?r"] by (metis empty_iff empty_set)
  then have "sr_shmImportIndex ?r < SHM_MAX_ATTACH_RECORD" "\<not> MemShareImportIdle (recordAddress (shmImportAllocator st) (sr_shmImportIndex ?r))"
    using assms(1) by (auto simp: store_inv_def ref_import_inv_def)
  then obtain n e where "map_of (cachedImportShmRecords st) n = Some e" using shmimp.cached_live[OF I(3)] by blast
  then show False using assms(2) dom_views(3)[of n st] by auto
qed

lemma import_calls:
  defines "st1 \<equiv> snd (exec_op (OpAddImport sample_import) booted_store)"
  defines "st2 \<equiv> snd (exec_op (OpImportResult ''m'' sample_attached) st1)"
  shows "fst (exec_op (OpAddImport sample_import) booted_store) = 0" "fst (exec_op (OpImportResult ''m'' sample_attached) st1) = 0"
    "fst (exec_op (OpAddRef 42 ''m'') st2) = 0"
proof -
  have n: "op_named (OpAddImport sample_import)" by (simp add: good_name_def RECORD_NAME_SIZE_def)
  have "op_room (OpAddImport sample_import) booted_store"
    using capacity(3)[OF booted_inv] by (simp add: booted_abs SHM_MAX_ATTACH_RECORD_def MAX_IMPORT_COUNT_def)
  then show ok1: "fst (exec_op (OpAddImport sample_import) booted_store) = 0"
    using exec_call(3)[OF booted_inv n] by (simp add: booted_abs del: exec_op.simps)
  have inv1: "store_inv st1" and A1: "abs_of st1 = abs_op (OpAddImport sample_import) (abs_of booted_store)"
    using exec_call[OF booted_inv n] ok1 by (simp_all add: st1_def del: exec_op.simps)
  have same1: "poolAllocator st1 = poolAllocator booted_store" "shmRefAllocator st1 = shmRefAllocator booted_store"
    unfolding st1_def by (simp_all add: AddShmImportInput_def Let_def split: option.split prod.split)
  have "1 \<le> length (idleIdIndexes (poolAllocator st1))"
    using booted_pool by (cases "idleIdIndexes (poolAllocator booted_store)") (simp_all add: same1)
  then have "op_room (OpImportResult ''m'' sample_attached) st1" by simp
  then show ok2: "fst (exec_op (OpImportResult ''m'' sample_attached) st1) = 0"
    using exec_call(3)[OF inv1, of "OpImportResult ''m'' sample_attached"] by (simp add: A1 RECORD_NAME_SIZE_def del: exec_op.simps)
  have inv2: "store_inv st2" and A2: "abs_of st2 = abs_op (OpImportResult ''m'' sample_attached) (abs_of st1)"
    using exec_call[OF inv1, of "OpImportResult ''m'' sample_attached"] ok2 by (simp_all add: st2_def del: exec_op.simps)
  have "shmRefAllocator st2 = shmRefAllocator st1"
    unfolding st2_def by (simp add: AddShmImportResult_def Let_def split: option.split prod.split)
  then have "op_room (OpAddRef 42 ''m'') st2" using free_refs[OF booted_inv] by (simp add: same1 booted_abs)
  then show "fst (exec_op (OpAddRef 42 ''m'') st2) = 0"
    using exec_call(3)[OF inv2, of "OpAddRef 42 ''m''"] by (simp add: A2 A1 RECORD_NAME_SIZE_def del: exec_op.simps)
qed

lemma shared_run:
  "fst (fst (run_state (ShmMap shm_env map_request resp app_42) idle_daemon)) = 0"
  "d_shm (snd (run_state (ShmMap shm_env map_request resp app_42) idle_daemon)) =
    [(''m'', \<lparr>am_name = ''m'', am_size = 4096, am_state = FINISH, am_pids = [42], am_result = sample_attached\<rparr>)]"
proof -
  let ?st1 = "snd (exec_op (OpAddImport sample_import) booted_store)"
  let ?m = "\<lparr>am_name = ''m'', am_size = 4096, am_state = PRE_ADD, am_pids = [], am_result = new_import_result\<rparr>"
  define d1 where "d1 = idle_daemon\<lparr>d_store := ?st1, d_shm := [(''m'', ?m)]\<rparr>"
  have user: "run_state (ShmGetUserData shm_env ''m'') idle_daemon = ((0, quiet_user), idle_daemon)"
    by (simp add: ShmGetUserData_def Initialize_def idle_daemon_def quiet_shm_def UBS_SUCCESS_def MXM_OK_def UBS_TOPO_MAX_NODE_NUM_def)
  have perm: "CheckPermission 1000 1000 quiet_user PROT_READ = (0, 2)"
    by (simp add: CheckPermission_def CalculateProvidedPermissions_def perms_from_def any_bit_def GetMaxOflag_def quiet_user_def
        PROT_READ_def PROT_WRITE_def PROT_EXEC_def O_RDWR_def O_RDONLY_def)
  have pre: "run_state (PrepareAddShareMemoryInfo ''m'' 4096 42) idle_daemon = (MXM_OK, d1)"
    using import_calls(1)
    by (simp add: PrepareAddShareMemoryInfo_def find_shm_def idle_daemon_def shm_op emplace_def d1_def del: exec_op.simps)
  have att: "run_state (Ubse_ShmAttach shm_env ''m'' (quiet_user\<lparr>ui_pid := 42\<rparr>)) d1 =
      ((MXM_OK, \<lparr>ar_shmSize = 4096, ar_unitSize = 4096, ar_memIds = [3], ar_flag = 0, ar_oflag = 0\<rparr>), d1)"
    by (simp add: Ubse_ShmAttach_def Initialize_def d1_def idle_daemon_def quiet_shm_def quiet_user_def UBS_SUCCESS_def UBS_ERR_TIMED_OUT_def
        MXM_OK_def attach_result_def flag_set_def Let_def)
  have full: "fst (run_state (AddFullShareMemoryInfo ''m'' 42 sample_attached) d1) = MXM_OK"
    "d_shm (snd (run_state (AddFullShareMemoryInfo ''m'' 42 sample_attached) d1)) =
      [(''m'', \<lparr>am_name = ''m'', am_size = 4096, am_state = FINISH, am_pids = [42], am_result = sample_attached\<rparr>)]"
    using import_calls(2,3) by (simp_all add: AddFullShareMemoryInfo_def find_shm_def d1_def shm_op del: exec_op.simps)
  let ?p = "\<lparr>ip_name = ''m'', ip_length = 4096, ip_appContext = context_of app_42, ip_mode = ShmMapReq_mode map_request, ip_prot = PROT_READ\<rparr>"
  have ctx: "app_pid (context_of app_42) = 42" "app_uid (context_of app_42) = 1000" "app_gid (context_of app_42) = 1000"
    by (simp_all add: context_of_def app_42_def)
  have owner: "ui_uid quiet_user = 1000" "ui_gid quiet_user = 1000" by (simp_all add: quiet_user_def)
  have inner: "fst (fst (run_state (ShmMmapInner shm_env ?p) idle_daemon)) = 0"
    "d_shm (snd (run_state (ShmMmapInner shm_env ?p) idle_daemon)) =
      [(''m'', \<lparr>am_name = ''m'', am_size = 4096, am_state = FINISH, am_pids = [42], am_result = sample_attached\<rparr>)]"
    unfolding ShmMmapInner_def ImportShmParam.simps ctx
    using full perm by (simp_all add: user pre[unfolded MXM_OK_def] att[unfolded MXM_OK_def] owner Let_def UBSM_OK_def MXM_OK_def split_beta)
  have "\<not> busy_name ''m'' (d_mon idle_daemon)" "map_of (d_shm idle_daemon) ''m'' = None"
    by (simp_all add: busy_name_def idle_daemon_def)
  then show "fst (fst (run_state (ShmMap shm_env map_request resp app_42) idle_daemon)) = 0"
    "d_shm (snd (run_state (ShmMap shm_env map_request resp app_42) idle_daemon)) =
      [(''m'', \<lparr>am_name = ''m'', am_size = 4096, am_state = FINISH, am_pids = [42], am_result = sample_attached\<rparr>)]"
    using inner by (simp_all add: ShmMap_def GetDelayRemoveRecord_def GetShareMemoryInfo_def find_shm_def map_new_def UBSM_OK_def Let_def split_beta)
qed

lemma idle_inv: "daemon_inv {} {} idle_daemon" "queue_ok (d_mon idle_daemon)"
proof -
  have "shm_inv {} idle_daemon"
    using booted_inv by (simp add: shm_inv_def idle_daemon_def booted_abs short_names_def shm_at_def)
  moreover have "regions_inv idle_daemon"
    using booted_inv by (simp add: regions_inv_def idle_daemon_def booted_abs)
  moreover have "lease_safe {} idle_daemon" using idle_lease_inv by (simp add: lease_safe_def)
  ultimately show "daemon_inv {} {} idle_daemon" by (simp add: daemon_inv_def)
  show "queue_ok (d_mon idle_daemon)" by (simp add: queue_ok_def idle_daemon_def map_ok_Nil)
qed

lemma shared_step: "daemon_step shm_env idle_daemon shared_daemon"
proof -
  have "good_request (ShmReq (ReqMap map_request), app_42)" by (simp add: app_42_def clean_name_def)
  moreover have "snd (run_state (serve shm_env (ShmReq (ReqMap map_request), app_42)) idle_daemon) = shared_daemon"
    by (simp add: shared_daemon_def run_bind split_beta)
  ultimately show ?thesis by (metis daemon_step.request prod.collapse)
qed

lemma shared_facts:
  "daemon_inv {} {} shared_daemon" "queue_ok (d_mon shared_daemon)" "\<exists>res. mapped_by 42 ''m'' res shared_daemon"
  using step_keeps[OF shared_step idle_inv(1)] step_queue[OF shared_step idle_inv(2)]
    tripleD[OF ShmMap_served[where E = shm_env and req = map_request and resp = new_ShmMapResponse and uds = app_42] TrueI, of idle_daemon] shared_run(1)
  by (auto simp: map_served_def shared_daemon_def app_42_def)

section \<open>Memories left behind\<close>

text \<open>
  When the table of references is full, a new memory loses its record but stays in the cache, without
  users: the rollback stops because there is no record to mark.  The name cannot be mapped from then on.
\<close>

lemma ghost_left:
  fixes E :: "'w env" and d :: "'w daemon" and n :: string and res :: ShareMemImportResult
  defines "st1 \<equiv> snd (exec_op (OpImportResult n res) (d_store d))"
  assumes "prepared Orph n d" "fst (exec_op (OpImportResult n res) (d_store d)) = 0" "fst (exec_op (OpAddRef pid n) st1) \<noteq> 0"
    "d' = snd (run_state (do { AddFullShareMemoryInfo n pid res; RollBackAttachShareMemory E n }) d)"
  shows "map_of (d_shm d') n = map_of (d_shm d) n \<and> map_of (d_shm d') n \<noteq> None \<and> shm_imports (d_store d') n = None"
proof -
  from assms(2) obtain m r where inv: "shm_inv Orph d" and m: "map_of (d_shm d) n = Some m" "ghost m"
    and r: "shm_imports (d_store d) n = Some r" by (auto simp: prepared_def)
  note D = shm_invD[OF inv]
  define st2 where "st2 = snd (exec_op (OpAddRef pid n) st1)"
  define st3 where "st3 = snd (exec_op (OpDelImport n) st2)"
  have I: "store_inv st1" "store_inv st2" "store_inv st3"
    using D(1) exec_call(1)[of _ "OpImportResult n res"] exec_call(1)[of _ "OpAddRef pid n"] exec_call(1)[of _ "OpDelImport n"]
    by (simp_all add: st1_def st2_def st3_def del: exec_op.simps)
  have a1: "abs_of st1 = abs_op (OpImportResult n res) (abs_of (d_store d))"
    using exec_call(2)[OF D(1), of "OpImportResult n res"] assms(3) by (simp add: st1_def del: exec_op.simps)
  have a2: "abs_of st2 = abs_of st1"
    using exec_call(2)[OF I(1), of "OpAddRef pid n"] assms(4) by (simp add: st2_def del: exec_op.simps)
  have "users_match [] (shm_refs (d_store d) n)" using known(3)[OF inv m(1) r] m(2) by (simp add: ghost_def)
  then have "op_pre (OpDelImport n) (abs_of st2)" using a1 a2 r by (auto simp: users_match_def)
  then have "abs_of st3 = abs_op (OpDelImport n) (abs_of st2)"
    using exec_call(2,3)[OF I(2), of "OpDelImport n"] by (simp add: st3_def del: exec_op.simps)
  then have none: "shm_imports st3 n = None" by simp
  have full: "snd (run_state (AddFullShareMemoryInfo n pid res) d) = d\<lparr>d_store := st3\<rparr>"
    using m(1) assms(3,4) by (simp add: AddFullShareMemoryInfo_def find_shm_def shm_op st1_def st2_def st3_def del: exec_op.simps)
  have "\<not> op_pre (OpImportState n PRE_DEL) (abs_of st3)" using none by (simp add: domIff)
  then have fail: "fst (exec_op (OpImportState n PRE_DEL) st3) \<noteq> 0" and same: "abs_of (snd (exec_op (OpImportState n PRE_DEL) st3)) = abs_of st3"
    using exec_call(2,3)[OF I(3), of "OpImportState n PRE_DEL"] by (simp_all del: exec_op.simps op_pre.simps)
  have upd: "run_state (UpdateShareMemoryRecordState n PRE_DEL) (d\<lparr>d_store := st3\<rparr>) =
      (MXM_ERR_RECORD_CHANGE_STATE, d\<lparr>d_store := snd (exec_op (OpImportState n PRE_DEL) st3)\<rparr>)"
    using m(1) fail by (simp add: UpdateShareMemoryRecordState_def find_shm_def shm_op del: exec_op.simps)
  have "d' = d\<lparr>d_store := snd (exec_op (OpImportState n PRE_DEL) st3)\<rparr>"
    unfolding assms(5) RollBackAttachShareMemory_def using upd full by (simp add: split_beta MXM_ERR_RECORD_CHANGE_STATE_def)
  then show ?thesis using m(1) same none by simp
qed

lemma ghost_blocks:
  assumes "map_of (d_shm d) (ShmMapReq_name req) = Some m" "am_state m = PRE_ADD"
  shows "fst (fst (run_state (ShmMap E req resp uds) d)) \<noteq> 0"
proof -
  let ?n = "ShmMapReq_name req"
  have "fst (fst (run_state (ShmMmapInner E p) d)) \<noteq> UBSM_OK" if p: "ip_name p = ?n" for p
  proof -
    obtain a info d1 where u: "run_state (ShmGetUserData E ?n) d = ((a, info), d1)" by (metis surj_pair)
    have "services d1 = services d" using preserves_run[OF shm_query_frames(2), of E ?n d] u by simp
    then have "map_of (d_shm d1) ?n = Some m" using assms(1) by (simp add: services_def)
    then show ?thesis
      using u p by (simp add: ShmMmapInner_def PrepareAddShareMemoryInfo_def find_shm_def Let_def split_beta UBSM_OK_def MXM_ERR_SHM_ALREADY_EXIST_def)
  qed
  then show ?thesis
    using assms by (simp add: ShmMap_def GetDelayRemoveRecord_def GetShareMemoryInfo_def find_shm_def map_new_def Let_def split_beta
        UBSM_OK_def MXM_ERR_NAME_BUSY_def)
qed

section \<open>The daemon as a whole\<close>



text \<open>
  C7. Mapping a shared memory.  Code 0 means that the caller is a user of the memory, which is attached and
  recorded with exactly the ids, unit size, flags and access mode of the response; with any other
  code the caller has not become a user.
\<close>

theorem shm_map_result:
  assumes "daemon_inv O1 O2 d" "clean_name (ShmMapReq_name req)" "run_state (ShmMap E req resp uds) d = ((ret, resp'), d')"
  shows "if ret = 0
    then \<exists>res r. mapped_by (uds_pid uds) (ShmMapReq_name req) res d' \<and> response_result resp' = import_result res \<and>
      shm_imports (d_store d') (ShmMapReq_name req) = Some r \<and> sii_memIds r = ShmMapResp_memIds resp' \<and> sii_state r = FINISH \<and>
      shm_refs (d_store d') (ShmMapReq_name req) (uds_pid uds) = 1
    else uses d' (ShmMapReq_name req) (uds_pid uds) \<longrightarrow> uses d (ShmMapReq_name req) (uds_pid uds)"
proof (cases "ret = 0")
  case True
  let ?n = "ShmMapReq_name req"
  have inv: "shm_inv O2 d'"
    using keeps_run[OF whole_shm.map_keeps[where E = E and resp = resp and uds = uds, OF assms(2) refl] assms(1)] assms(3) by (simp add: daemon_inv_def)
  obtain res where res: "mapped_by (uds_pid uds) ?n res d'" "response_result resp' = import_result res"
    using tripleD[OF ShmMap_served[where E = E and req = req and resp = resp and uds = uds] TrueI, of d] assms(3) True by (auto simp: map_served_def)
  then obtain m where m: "map_of (d_shm d') ?n = Some m" "uds_pid uds \<in> set (am_pids m)" "am_state m = FINISH" "am_result m = res"
    by (auto simp: mapped_by_def)
  then obtain r where "shm_imports (d_store d') ?n = Some r" "import_matches m r" "users_match (am_pids m) (shm_refs (d_store d') ?n)"
    using shm_invD(4)[OF inv, of ?n] by (auto simp: shm_at_Some ghost_def split: option.splits)
  then show ?thesis
    using res m True by (auto simp: import_matches_def users_match_def response_result_def import_result_def)
next
  case False
  then show ?thesis using tripleD[OF ShmMap_failed[where E = E and req = req and resp = resp and uds = uds and n = "ShmMapReq_name req" and pid = "uds_pid uds"], of d] assms(3) by auto
qed

theorem shm_map_result_witness:
  "\<exists>res r. mapped_by 42 ''m'' res shared_daemon \<and> shm_imports (d_store shared_daemon) ''m'' = Some r \<and> sii_state r = FINISH \<and>
     shm_refs (d_store shared_daemon) ''m'' 42 = 1"
proof -
  obtain ret resp where r: "run_state (ShmMap shm_env map_request new_ShmMapResponse app_42) idle_daemon = ((ret, resp), shared_daemon)"
    unfolding shared_daemon_def by (metis prod.collapse)
  have "ret = 0" using shared_run(1)[of new_ShmMapResponse] r by simp
  then show ?thesis using shm_map_result[OF idle_inv(1) _ r] by (simp add: clean_name_def app_42_def) blast
qed

end
