(* ===== verification/Shm_Isolation.thy ===== *)
theory Shm_Isolation
  imports Shm_Claims
begin

text \<open>
  What requests of other processes do to a memory that a process has mapped: it stays mapped as long as
  nobody but its users asks to unmap it.
\<close>

section \<open>Requests about other memories\<close>

lemma other_base:
  "keeps (\<lambda>d. map_of (d_shm d) n = v) (call_store g)"
  "k \<noteq> n \<Longrightarrow> keeps (\<lambda>d. map_of (d_shm d) n = v) (update_shm (assign k m))"
  "k \<noteq> n \<Longrightarrow> keeps (\<lambda>d. map_of (d_shm d) n = v) (update_shm (erase k))"
  by (simp_all add: triple_def map_of_assign map_of_erase)

lemma other_frame: "preserves core m \<Longrightarrow> keeps (\<lambda>d. map_of (d_shm d) n = v) m"
  by (erule core_keep) (simp add: core_def)

lemma other_unmap:
  assumes "ShmUnmapReq_name req \<noteq> n"
  shows "keeps (\<lambda>d. map_of (d_shm d) n = v) (ShmUnmap E req resp uds)"
  unfolding ShmUnmap_def ShmUnMapInner_def GetShareMemoryInfo_def GetMemoryUsersCountByName_def find_shm_def
    UpdateShareMemoryRecordState_def RemoveMemoryUserInfo_def RemoveMemoryInfo_def AddMemoryUserInfo_def
  by (intro keeps_intros keeps_drop_refs other_base assms adapter_frames[THEN services_core, THEN other_frame])

section \<open>Requests about the memory\<close>

lemma mapped_frame: "preserves core m \<Longrightarrow> keeps (mapped_by p n res) m"
  by (erule core_keep) (simp add: core_def mapped_by_def)

lemma mapped_store: "keeps (mapped_by p n res) (call_store g)"
  by (simp add: triple_def mapped_by_def)

lemma mapped_methods:
  "keeps (mapped_by p n res) (PrepareAddShareMemoryInfo k sz pid)" "keeps (mapped_by p n res) (AddMemoryUserInfo k pid)"
  "k \<noteq> n \<Longrightarrow> keeps (mapped_by p n res) (UpdateShareMemoryRecordState k s)"
  "p \<noteq> pid \<Longrightarrow> keeps (mapped_by p n res) (RemoveMemoryUserInfo k pid)"
  "k \<noteq> n \<Longrightarrow> keeps (mapped_by p n res) (AddFullShareMemoryInfo k pid r)"
  by (auto simp: triple_def mapped_by_def PrepareAddShareMemoryInfo_def AddMemoryUserInfo_def UpdateShareMemoryRecordState_def
      RemoveMemoryUserInfo_def AddFullShareMemoryInfo_def find_shm_def map_of_emplace map_of_assign split_beta split: option.split)

lemma mapped_remove: "keeps (mapped_by p n res) (RemoveMemoryInfo k force)"
proof (rule tripleI)
  fix d :: "'w daemon"
  assume H: "mapped_by p n res d"
  show "mapped_by p n res (snd (run_state (RemoveMemoryInfo k force) d))"
  proof (cases "k = n")
    case True
    then show ?thesis using H by (auto simp: RemoveMemoryInfo_def find_shm_def mapped_by_def)
  next
    case False
    then have "keeps (mapped_by p n res) (update_shm (erase k))" "keeps (mapped_by p n res) (update_shm (assign k m'))" for m'
      by (auto simp: triple_def mapped_by_def map_of_erase map_of_assign)
    then have "keeps (mapped_by p n res) (RemoveMemoryInfo k force)"
      unfolding RemoveMemoryInfo_def find_shm_def by (intro keeps_intros keeps_drop_refs mapped_store)
    from this H show ?thesis by (rule keeps_run)
  qed
qed

lemmas mapped_intros = keeps_intros mapped_methods(1,2) mapped_remove mapped_store
  adapter_frames[THEN services_core, THEN mapped_frame] core_frames[THEN mapped_frame]

lemma mapped_map:
  fixes E :: "'w env"
  shows "keeps (mapped_by p n res) (ShmMap E req resp uds)"
proof (rule tripleI)
  fix d :: "'w daemon"
  assume M: "mapped_by p n res d"
  show "mapped_by p n res (snd (run_state (ShmMap E req resp uds) d))"
  proof (cases "ShmMapReq_name req = n")
    case True
    obtain m where m: "map_of (d_shm d) n = Some m" "am_state m = FINISH" using M by (auto simp: mapped_by_def)
    have "keeps (mapped_by p n res) (HandleExistingShm req r uds m)" for r
      unfolding HandleExistingShm_def by (intro mapped_intros)
    from keeps_run[OF this M] show ?thesis
      using True m M by (simp add: ShmMap_def GetDelayRemoveRecord_def GetShareMemoryInfo_def find_shm_def Let_def)
  next
    case False
    have "keeps (mapped_by p n res) (ShmMap E req resp uds)"
      unfolding ShmMap_def map_new_def ShmMmapInner_def HandleExistingShm_def RollBackAttachShareMemory_def GetDelayRemoveRecord_def
        GetShareMemoryInfo_def find_shm_def Let_def
      by (intro mapped_intros mapped_methods) (use False in simp_all)
    from this M show ?thesis by (rule keeps_run)
  qed
qed

lemma mapped_unmap:
  assumes "mapped_by p n res d" "ShmUnmapReq_name req = n \<longrightarrow> uses d n (uds_pid uds)" "p \<noteq> uds_pid uds"
  shows "mapped_by p n res (snd (run_state (ShmUnmap E req resp uds) d))"
proof (cases "ShmUnmapReq_name req = n")
  case True
  obtain m where m: "map_of (d_shm d) n = Some m" "am_state m = FINISH" "p \<in> set (am_pids m)" "uds_pid uds \<in> set (am_pids m)"
    using assms True by (auto simp: mapped_by_def uses_def)
  have "card {p, uds_pid uds} \<le> card (set (am_pids m))" using m(3,4) by (intro card_mono) auto
  then have "1 < length (am_pids m)" using assms(3) card_length[of "am_pids m"] by simp
  then show ?thesis
    using True m keeps_run[OF mapped_methods(4)[OF assms(3)] assms(1), of n]
    by (simp add: ShmUnmap_def GetShareMemoryInfo_def GetMemoryUsersCountByName_def find_shm_def split_beta)
next
  case False
  obtain v where "map_of (d_shm d) n = v" "mapped_by p n res d \<longleftrightarrow> (\<exists>m. v = Some m \<and> p \<in> set (am_pids m) \<and> am_state m = FINISH \<and> am_result m = res)"
    by (simp add: mapped_by_def)
  with keeps_run[OF other_unmap[OF False, of v E resp uds]] assms(1) show ?thesis by (simp add: mapped_by_def)
qed

text \<open>The check of a client goes through the memories of the client, each of which it uses until its turn comes.\<close>

lemma check_loop:
  fixes E :: "'w env"
  assumes "mapped_by p n res d" "distinct (map am_name ms)" "\<forall>m\<in>set ms. am_name m = n \<longrightarrow> uses d n (uds_pid uds)" "p \<noteq> uds_pid uds"
  shows "mapped_by p n res (snd (run_state (for_each ms (\<lambda>m. if am_name m \<notin> N then do { CleanNotUsedRecordShareMemory E m uds; return () }
       else return ())) d))"
  using assms
proof (induction ms arbitrary: d)
  case (Cons m ms)
  define d1 where "d1 = snd (run_state (if am_name m \<notin> N then do { CleanNotUsedRecordShareMemory E m uds; return () } else return ()) d)"
  let ?req = "new_ShmUnmapRequest\<lparr>ShmUnmapReq_regionName := ''default'', ShmUnmapReq_name := am_name m\<rparr>"
  have d1: "d1 = d \<or> d1 = snd (run_state (ShmUnmap E ?req new_CommonResponse uds) d)"
    by (simp add: d1_def CleanNotUsedRecordShareMemory_def split_beta)
  have "mapped_by p n res d1"
    using d1 mapped_unmap[of p n res d ?req uds E new_CommonResponse] Cons.prems(1,3,4) by auto
  moreover have "uses d1 n (uds_pid uds)" if "m' \<in> set ms" "am_name m' = n" for m'
  proof -
    have "am_name m \<noteq> n" using Cons.prems(2) that by auto
    then have "map_of (d_shm d1) n = map_of (d_shm d) n"
      using d1 keeps_run[OF other_unmap[of ?req n "map_of (d_shm d) n" E new_CommonResponse uds], of d] by auto
    then show ?thesis using Cons.prems(3) that by (auto simp: uses_def)
  qed
  ultimately show ?case using Cons.IH[of d1] Cons.prems(2,4) by (simp add: d1_def[symmetric] split_beta)
qed simp

lemma own_memories:
  assumes "shm_inv Orph d"
  shows "distinct (map am_name (fst (run_state (GetMemoryUsersByPid pid) d)))"
    "m \<in> set (fst (run_state (GetMemoryUsersByPid pid) d)) \<Longrightarrow> uses d (am_name m) pid"
proof -
  note D = shm_invD[OF assms]
  have name: "map_of (d_shm d) k = Some m \<Longrightarrow> am_name m = k" for k m using D(4)[of k] by (simp add: shm_at_Some)
  then have keys: "map am_name (map snd (d_shm d)) = map fst (d_shm d)" using D(3) by (auto simp: in_set_conv_nth)
  then show "distinct (map am_name (fst (run_state (GetMemoryUsersByPid pid) d)))"
    using D(3) distinct_map_filter[of am_name "map snd (d_shm d)"] by (simp add: GetMemoryUsersByPid_def del: map_map)
  assume "m \<in> set (fst (run_state (GetMemoryUsersByPid pid) d))"
  then obtain k where k: "(k, m) \<in> set (d_shm d)" "pid \<in> set (am_pids m)" by (auto simp: GetMemoryUsersByPid_def)
  then have "map_of (d_shm d) k = Some m" using D(3) by simp
  then show "uses d (am_name m) pid" using name k(2) by (auto simp: uses_def)
qed

section \<open>Sequences of requests\<close>

fun unmaps :: "string \<Rightarrow> shm_request \<Rightarrow> bool" where
  "unmaps n (ReqUnmap r) \<longleftrightarrow> ShmUnmapReq_name r = n"
| "unmaps n _ \<longleftrightarrow> False"

lemma mapped_other:
  assumes "\<And>r. req \<noteq> ReqUnmap r" "\<And>r. req \<noteq> ReqCheckMap r"
  shows "keeps (mapped_by p n res) (serve_shm E (req, uds))"
proof -
  have regions: "keeps (mapped_by p n res) (CreateRegionInfo i)" "keeps (mapped_by p n res) (DeleteRegionInfo k)" for i k
    unfolding CreateRegionInfo_def UpdateRegionInfo_def DeleteRegionInfo_def RemoveRegionInfo_def
    by (intro mapped_intros; simp add: triple_def mapped_by_def)+
  show ?thesis
  proof (cases req)
    case (ReqCreate r)
    have "keeps (mapped_by p n res) (providers k desc)" for k desc
      unfolding providers_def RegionManager_GetRegionInfo_def by (intro mapped_intros)
    then show ?thesis
      unfolding ReqCreate serve_shm.simps ShmCreate_def GetDelayRemoveRecord_def Let_def by (auto intro!: mapped_intros split: sum.split)
  next
    case (ReqDelete r)
    show ?thesis
      unfolding ReqDelete serve_shm.simps ShmDelete_def GetDelayRemoveRecord_def ShmPermissionCheck_def GetMemoryUsersCountByName_def find_shm_def
      by (intro mapped_intros)
  qed (use assms in \<open>auto simp: Handle_ShmCreateWithProvider_def GetDelayRemoveRecord_def ShmAttach_def ShmDetach_def
      RegionLookupRegionList_def RegionCreateRegion_def RegionLookupRegion_def RegionManager_GetRegionInfo_def RegionDestroyRegion_def
      Handle_ShmLookup_def Handle_ShmListLookup_def LookupLocalSlotId_def IpcSuspend_def IpcResume_def Let_def
      intro!: mapped_intros mapped_map regions\<close>)
qed

lemma mapped_serve:
  fixes E :: "'w env"
  assumes "shm_inv Orph d" "mapped_by p n res d" "unmaps n (fst q) \<longrightarrow> uses d n (uds_pid (snd q))" "p \<noteq> uds_pid (snd q)"
  shows "mapped_by p n res (snd (run_state (serve_shm E q) d))"
proof -
  obtain req uds where q: "q = (req, uds)" by (rule prod.exhaust)
  consider r where "req = ReqUnmap r" | r where "req = ReqCheckMap r" | "\<And>r. req \<noteq> ReqUnmap r" "\<And>r. req \<noteq> ReqCheckMap r" by blast
  then show ?thesis
  proof cases
    case 1
    then show ?thesis using mapped_unmap[OF assms(2), of r uds E new_CommonResponse] assms(3,4) by (simp add: q split_beta)
  next
    case 2
    have "\<forall>m\<in>set (fst (run_state (GetMemoryUsersByPid (uds_pid uds)) d)). am_name m = n \<longrightarrow> uses d n (uds_pid uds)"
      using own_memories(2)[OF assms(1)] by blast
    from check_loop[OF assms(2) own_memories(1)[OF assms(1)] this, of "set (CheckShareMemoryMapReq_names r)" E]
    show ?thesis using 2 assms(4) by (simp add: q AppCheckShareMemoryMap_def GetMemoryUsersByPid_def split_beta)
  next
    case 3
    from keeps_run[OF mapped_other[OF this] assms(2)] show ?thesis by (simp add: q)
  qed
qed

text \<open>Every request to unmap the memory comes from a process that uses it at that time.\<close>

fun users_unmap :: "'w env \<Rightarrow> string \<Rightarrow> (shm_request \<times> MxmComUdsInfo) list \<Rightarrow> 'w daemon \<Rightarrow> bool" where
  "users_unmap E n [] d \<longleftrightarrow> True"
| "users_unmap E n (q # rs) d \<longleftrightarrow> (unmaps n (fst q) \<longrightarrow> uses d n (uds_pid (snd q))) \<and> users_unmap E n rs (snd (run_state (serve_shm E q) d))"

lemma mapped_requests:
  fixes E :: "'w env"
  assumes "\<And>q. q \<in> set rs \<Longrightarrow> p \<noteq> uds_pid (snd q) \<and> keeps I (serve_shm E q)"
    "\<And>d. I d \<Longrightarrow> shm_inv Orph d" "I d" "mapped_by p n res d" "users_unmap E n rs d"
  shows "mapped_by p n res (snd (run_state (for_each rs (\<lambda>q. do { serve_shm E q; return () })) d))"
  using assms
proof (induction rs arbitrary: d)
  case (Cons q rs)
  let ?d = "snd (run_state (serve_shm E q) d)"
  have "I ?d" using Cons.prems(1)[of q] Cons.prems(3) by (auto intro: keeps_run)
  moreover have "mapped_by p n res ?d" using Cons.prems mapped_serve[of Orph d p n res q E] by simp
  ultimately show ?case using Cons.IH[of ?d] Cons.prems(1,2,5) by (simp add: split_beta)
qed simp

end
