(* ===== verification/Daemon_Claims.thy ===== *)
theory Daemon_Claims
  imports Shm_Isolation
begin

text \<open>Restart, isolation, permissions and removal of shared memory, and the progress of the background thread.\<close>

section \<open>Restart\<close>

lemma recorded_memory:
  assumes "shm_inv Orph d" "n \<notin> Orph" "shm_imports (d_store d) n = Some r"
  obtains m where "map_of (d_shm d) n = Some m" "import_matches m r" "users_match (am_pids m) (shm_refs (d_store d) n)"
  using shm_invD(4)[OF assms(1), of n] assms(2,3) by (cases "map_of (d_shm d) n") (auto simp: shm_at_def)

lemma user_recorded:
  assumes "shm_inv Orph d" "map_of (d_shm d) n = Some m" "am_pids m \<noteq> []"
  obtains r p where "shm_imports (d_store d) n = Some r" "import_matches m r" "users_match (am_pids m) (shm_refs (d_store d) n)"
    "shm_refs (d_store d) n p \<noteq> 0"
proof -
  obtain r where r: "shm_imports (d_store d) n = Some r" "import_matches m r" "users_match (am_pids m) (shm_refs (d_store d) n)"
    using shm_invD(4)[OF assms(1), of n] assms(2,3) by (auto simp: shm_at_Some ghost_def split: option.splits)
  obtain p where "p \<in> set (am_pids m)" using assms(3) by (cases "am_pids m") auto
  then have "shm_refs (d_store d) n p \<noteq> 0" using r(3) by (simp add: users_match_def)
  then show ?thesis using that r by blast
qed

lemma shm_inv_mono:
  assumes "shm_inv Orph d" "\<And>n. n \<in> Orph \<Longrightarrow> n \<in> Orph'"
  shows "shm_inv Orph' d"
proof -
  have "shm_at (n \<in> Orph') n mem imp f" if "shm_at (n \<in> Orph) n mem imp f" for n mem imp f
    using that assms(2)[of n] by (auto simp: shm_at_def split: option.splits)
  then show ?thesis using assms(1) by (simp add: shm_inv_def)
qed

lemma shm_inv_refs:
  assumes "shm_inv {} d"
  shows "single_refs (d_store d)"
proof -
  note D = shm_invD[OF assms]
  have "shm_refs (d_store d) n p \<le> 1" for n p
  proof (cases "shm_imports (d_store d) n")
    case None
    then show ?thesis using no_import_no_refs[OF D(1) None] by simp
  next
    case (Some r)
    then show ?thesis by (rule recorded_memory[OF assms, of n, simplified]) (simp add: users_match_def)
  qed
  then show ?thesis by (simp add: single_refs_def)
qed

lemma user_record:
  assumes "shm_inv Orph d" "map_of (d_shm d) n = Some m" "pid \<in> set (am_pids m)"
  shows "n \<in> dom (shm_imports (d_store d))" "fst (exec_op (OpDelRef pid n) (d_store d)) = 0" "fst (exec_op (OpImportState n s) (d_store d)) = 0"
proof -
  note D = shm_invD[OF assms(1)]
  obtain r where r: "shm_imports (d_store d) n = Some r" "users_match (am_pids m) (shm_refs (d_store d) n)"
    using D(4)[of n] assms(2,3) by (auto simp: shm_at_Some ghost_def split: option.splits)
  have ref: "shm_refs (d_store d) n pid \<noteq> 0" using r(2) assms(3) by (simp add: users_match_def)
  show dom: "n \<in> dom (shm_imports (d_store d))" using r(1) by blast
  then have "length n < RECORD_NAME_SIZE" using D(2) by (simp add: short_names_def)
  then show "fst (exec_op (OpDelRef pid n) (d_store d)) = 0"
    using exec_call(3)[OF D(1), of "OpDelRef pid n"] ref ref_pid(1)[OF D(1) ref] by (simp del: exec_op.simps)
  show "fst (exec_op (OpImportState n s) (d_store d)) = 0"
    using exec_call(3)[OF D(1), of "OpImportState n s"] dom by (simp del: exec_op.simps)
qed

lemma mark_run:
  assumes "shm_inv Orph d" "map_of (d_shm d) n = Some m" "n \<in> dom (shm_imports (d_store d))"
  shows "run_state (UpdateShareMemoryRecordState n s) d =
    (MXM_OK, d\<lparr>d_store := snd (exec_op (OpImportState n s) (d_store d)), d_shm := assign n (m\<lparr>am_state := s\<rparr>) (d_shm d)\<rparr>)"
proof -
  have "fst (exec_op (OpImportState n s) (d_store d)) = 0"
    using exec_call(3)[OF shm_invD(1)[OF assms(1)], of "OpImportState n s"] assms(3) by (simp del: exec_op.simps)
  then show ?thesis using assms(2) by (simp add: UpdateShareMemoryRecordState_def find_shm_def shm_op del: exec_op.simps)
qed

text \<open>The same memory with the same users.\<close>

definition same_memory :: "AttachedShareMemory \<Rightarrow> AttachedShareMemory \<Rightarrow> bool" where
  "same_memory m m' \<longleftrightarrow> m' = m\<lparr>am_pids := am_pids m'\<rparr> \<and> set (am_pids m') = set (am_pids m) \<and> distinct (am_pids m')"

lemma matches_same:
  assumes "import_matches m r" "users_match (am_pids m) f" "import_matches m' r" "users_match (am_pids m') f"
  shows "same_memory m m'"
proof -
  have "am_result m = am_result m'" "am_name m = am_name m'" "am_size m = am_size m'" "am_state m = am_state m'"
    using assms(1,3) by (simp_all add: import_matches_def)
  moreover have "p \<in> set (am_pids m) \<longleftrightarrow> p \<in> set (am_pids m')" for p
    using assms(2,4) by (metis users_match_def zero_neq_one)
  ultimately show ?thesis using assms(4) by (auto simp: same_memory_def users_match_def)
qed

definition changing :: "AttachedShareMemory \<Rightarrow> bool" where
  "changing m \<longleftrightarrow> am_state m = PRE_ADD \<or> am_state m = PRE_DEL"

lemma changing_under_way: "import_matches m r \<Longrightarrow> under_way r \<longleftrightarrow> changing m"
  by (simp add: import_matches_def under_way_def changing_def)

text \<open>
  C16. Restart.  A daemon whose cache and record file agreed comes back from the file.  If no memory in use was marked as
  being attached or detached, recovery succeeds.  If it succeeds, cache and file agree again, up to
  records of memories so marked, and every other memory that had users is attached
  again with the same state, ids, size, flags and owner and with exactly the same users.  A memory in use that was
  marked for deletion makes the whole recovery fail if the engine cannot tell its stage.
\<close>

theorem shm_restart:
  assumes "shm_inv {} d0" "store_inv (d_store d)" "abs_of (d_store d) = abs_of (d_store d0)" "d_shm d = []"
    "run_state (SHMManager_Recovery E) d = (ret, d')"
  defines "before \<equiv> map_of (d_shm d0)"
  shows "((\<forall>n m. before n = Some m \<and> am_pids m \<noteq> [] \<longrightarrow> \<not> changing m) \<longrightarrow> ret = UBSM_OK) \<and>
    (ret = UBSM_OK \<longrightarrow> shm_inv {n. \<exists>m. before n = Some m \<and> changing m} d' \<and>
      (\<forall>n m. before n = Some m \<and> am_pids m \<noteq> [] \<and> \<not> changing m \<longrightarrow> (\<exists>m'. map_of (d_shm d') n = Some m' \<and> same_memory m m'))) \<and>
    (\<forall>n m. before n = Some m \<and> am_pids m \<noteq> [] \<and> am_state m = PRE_DEL \<and> stage_unknown E n \<longrightarrow> ret = MXM_ERR_SHM_NOT_FOUND)"
proof -
  note D0 = shm_invD[OF assms(1)] and user = user_recorded[OF assms(1)] and entry = recorded_memory[OF assms(1), simplified]
  have S: "short_names (d_store d)" "single_refs (d_store d)"
    using D0(2) shm_inv_refs[OF assms(1)] by (simp_all add: short_names_def single_refs_def assms(3))
  note start = assms(2) S assms(4)
  have "ret = UBSM_OK" if calm: "\<forall>n m. before n = Some m \<and> am_pids m \<noteq> [] \<longrightarrow> \<not> changing m"
  proof -
    have "\<not> under_way r" if r: "shm_imports (d_store d) n = Some r" "shm_refs (d_store d) n p \<noteq> 0" for n r p
    proof (rule entry[of n r])
      fix m assume m: "map_of (d_shm d0) n = Some m" "import_matches m r" "users_match (am_pids m) (shm_refs (d_store d0) n)"
      have "am_pids m \<noteq> []" using m(3) r(2) by (auto simp: users_match_def assms(3))
      then show ?thesis using calm m(1,2) changing_under_way unfolding before_def by blast
    qed (use r assms(3) in simp)
    from SHMManager_Recovery_clean[where E = E, OF start this] show ?thesis using assms(5) by simp
  qed
  moreover have inv: "shm_inv {n. \<exists>m. before n = Some m \<and> changing m} d'" if "ret = UBSM_OK"
  proof -
    have "shm_inv {n. \<exists>r. shm_imports (d_store d) n = Some r \<and> under_way r} d'"
      using SHMManager_Recovery_inv[where E = E, OF start] assms(5) that by simp
    then show ?thesis
      by (rule shm_inv_mono) (use assms(3) entry changing_under_way in \<open>simp add: before_def, metis\<close>)
  qed
  moreover have "\<exists>m'. map_of (d_shm d') n = Some m' \<and> same_memory m m'"
    if ok: "ret = UBSM_OK" and m: "before n = Some m \<and> am_pids m \<noteq> [] \<and> \<not> changing m" for n m
  proof -
    obtain r p where r: "shm_imports (d_store d0) n = Some r" "import_matches m r" "users_match (am_pids m) (shm_refs (d_store d0) n)"
      "shm_refs (d_store d0) n p \<noteq> 0"
      using user[of n m] m by (auto simp: before_def)
    have at: "shm_imports (d_store d') n = Some r" "shm_refs (d_store d') n = shm_refs (d_store d0) n"
      using SHMManager_Recovery_attached[of d n r p E] assms(2,5) r changing_under_way[OF r(2)] m by (simp_all add: assms(3) attached_def)
    have "n \<notin> {n. \<exists>m. before n = Some m \<and> changing m}" using m by (simp add: before_def)
    from recorded_memory[OF inv[OF ok] this at(1)] show ?thesis
      using matches_same[OF r(2,3)] at(2) by (metis (no_types, lifting))
  qed
  moreover have "ret = MXM_ERR_SHM_NOT_FOUND" if m: "before n = Some m \<and> am_pids m \<noteq> [] \<and> am_state m = PRE_DEL \<and> stage_unknown E n" for n m
  proof (rule user[of n m])
    fix r p assume r: "shm_imports (d_store d0) n = Some r" "import_matches m r" "shm_refs (d_store d0) n p \<noteq> 0"
    have "sii_state r = PRE_DEL" using r(2) m by (simp add: import_matches_def)
    then show ?thesis using SHMManager_Recovery_stuck[where E = E, OF start, of n r p] r m assms(3,5) by simp
  qed (use m in \<open>auto simp: before_def\<close>)
  ultimately show ?thesis by blast
qed

definition stopped_daemon :: "unit daemon" where
  "stopped_daemon = shared_daemon\<lparr>d_shm := []\<rparr>"

definition marked_daemon :: "unit daemon" where
  "marked_daemon = snd (run_state (UpdateShareMemoryRecordState ''m'' PRE_DEL) shared_daemon)"

definition deaf_env :: "unit env" where
  "deaf_env = shm_env\<lparr>ubse_node_local_get := Pair (7, \<lparr>tn_slot_id = 0, tn_host_name = [], tn_sockets = []\<rparr>)\<rparr>"

theorem shm_restart_witness:
  "fst (run_state (SHMManager_Recovery shm_env) stopped_daemon) = UBSM_OK \<and>
   (\<exists>m'. map_of (d_shm (snd (run_state (SHMManager_Recovery shm_env) stopped_daemon))) ''m'' = Some m' \<and> set (am_pids m') = {42}) \<and>
   fst (run_state (SHMManager_Recovery deaf_env) (marked_daemon\<lparr>d_shm := []\<rparr>)) = MXM_ERR_SHM_NOT_FOUND"
proof -
  let ?m = "\<lparr>am_name = ''m'', am_size = 4096, am_state = FINISH, am_pids = [42], am_result = sample_attached\<rparr>"
  have inv: "shm_inv {} shared_daemon" using shared_facts(1) by (simp add: daemon_inv_def)
  have m: "d_shm shared_daemon = [(''m'', ?m)]" unfolding shared_daemon_def by (rule shared_run(2))
  obtain ret d' where r: "run_state (SHMManager_Recovery shm_env) stopped_daemon = (ret, d')" by (metis surj_pair)
  have store: "store_inv (d_store stopped_daemon)" "abs_of (d_store stopped_daemon) = abs_of (d_store shared_daemon)" "d_shm stopped_daemon = []"
    using shm_invD(1)[OF inv] by (simp_all add: stopped_daemon_def)
  note R = shm_restart[OF inv store r]
  have calm: "\<forall>n k. map_of (d_shm shared_daemon) n = Some k \<and> am_pids k \<noteq> [] \<longrightarrow> \<not> changing k"
    by (auto simp: m changing_def split: if_splits)
  then have ok: "ret = UBSM_OK" using R by blast
  have at: "map_of (d_shm shared_daemon) ''m'' = Some ?m \<and> am_pids ?m \<noteq> []" by (simp add: m)
  then obtain m' where "map_of (d_shm d') ''m'' = Some m'" "same_memory ?m m'" using R ok calm by blast
  moreover have "fst (run_state (SHMManager_Recovery deaf_env) (marked_daemon\<lparr>d_shm := []\<rparr>)) = MXM_ERR_SHM_NOT_FOUND"
  proof -
    have inv': "shm_inv {} marked_daemon"
      unfolding marked_daemon_def by (rule keeps_run[OF UpdateShareMemoryRecordState_keeps inv])
    have n: "map_of (d_shm marked_daemon) ''m'' = Some (?m\<lparr>am_state := PRE_DEL\<rparr>)"
      unfolding marked_daemon_def
      by (subst mark_run[OF inv, of "''m''" ?m]) (use m user_record(1)[OF inv, of "''m''" ?m 42] in \<open>simp_all add: map_of_assign\<close>)
    have "stage_unknown deaf_env ''m''"
      by (simp add: stage_unknown_def GetShareMemoryStage_def deaf_env_def MXM_ERR_UBSE_LIB_def MXM_ERR_UBSE_INNER_def MXM_ERR_SHM_NOT_EXIST_def)
    then have mem: "map_of (d_shm marked_daemon) ''m'' = Some (?m\<lparr>am_state := PRE_DEL\<rparr>) \<and> am_pids (?m\<lparr>am_state := PRE_DEL\<rparr>) \<noteq> [] \<and>
        am_state (?m\<lparr>am_state := PRE_DEL\<rparr>) = PRE_DEL \<and> stage_unknown deaf_env ''m''" using n by simp
    obtain ret' d'' where r': "run_state (SHMManager_Recovery deaf_env) (marked_daemon\<lparr>d_shm := []\<rparr>) = (ret', d'')" by (metis surj_pair)
    have "store_inv (d_store (marked_daemon\<lparr>d_shm := []\<rparr>))" using shm_invD(1)[OF inv'] by simp
    from shm_restart[OF inv' this _ _ r', THEN conjunct2, THEN conjunct2, THEN spec, THEN spec, THEN mp, OF _ _ mem]
    have "ret' = MXM_ERR_SHM_NOT_FOUND" by simp
    then show ?thesis by (simp add: r')
  qed
  ultimately show ?thesis using ok r by (auto simp: same_memory_def)
qed

section \<open>Isolation\<close>

definition holding :: "string \<Rightarrow> u32 \<Rightarrow> ShareMemImportResult \<Rightarrow> 'w daemon \<Rightarrow> bool" where
  "holding n p res d \<longleftrightarrow> (\<exists>m. map_of (d_shm d) n = Some m \<and> p \<in> set (am_pids m) \<and> am_state m \<noteq> DELETED \<and> am_result m = res)"

definition guest :: "string set \<Rightarrow> string \<Rightarrow> u32 \<Rightarrow> ShareMemImportResult \<Rightarrow> u32 \<Rightarrow> 'w daemon \<Rightarrow> bool" where
  "guest Orph n p res pid d \<longleftrightarrow> p \<noteq> pid \<and> shm_inv Orph d \<and> holding n p res d"

definition guest_prepared :: "string set \<Rightarrow> string \<Rightarrow> u32 \<Rightarrow> ShareMemImportResult \<Rightarrow> u32 \<Rightarrow> string \<Rightarrow> 'w daemon \<Rightarrow> bool" where
  "guest_prepared Orph n p res pid k d \<longleftrightarrow> p \<noteq> pid \<and> prepared Orph k d \<and> holding n p res d"

lemma holding_store: "keeps (holding n p res) (call_store f)"
  by (simp add: triple_def holding_def)

lemma holding_assign:
  "\<not> (k = n \<and> \<not> (p \<in> set (am_pids m) \<and> am_state m \<noteq> DELETED \<and> am_result m = res)) \<Longrightarrow> keeps (holding n p res) (update_shm (assign k m))"
  by (auto simp: triple_def holding_def map_of_assign)

lemma holding_methods:
  "keeps (holding n p res) (PrepareAddShareMemoryInfo k sz pid)" "keeps (holding n p res) (AddMemoryUserInfo k pid)"
  "s \<noteq> DELETED \<Longrightarrow> keeps (holding n p res) (UpdateShareMemoryRecordState k s)"
  "p \<noteq> pid \<Longrightarrow> keeps (holding n p res) (RemoveMemoryUserInfo k pid)"
  by (auto simp: triple_def holding_def PrepareAddShareMemoryInfo_def AddMemoryUserInfo_def UpdateShareMemoryRecordState_def
      RemoveMemoryUserInfo_def find_shm_def map_of_emplace map_of_assign split: option.split)

lemma holding_remove: "keeps (holding n p res) (RemoveMemoryInfo k force)"
proof (rule tripleI)
  fix d :: "'w daemon"
  assume H: "holding n p res d"
  then obtain m where m: "map_of (d_shm d) n = Some m" "p \<in> set (am_pids m)" "am_state m \<noteq> DELETED" by (auto simp: holding_def)
  show "holding n p res (snd (run_state (RemoveMemoryInfo k force) d))"
  proof (cases "k = n")
    case True
    then show ?thesis using H m by (auto simp: RemoveMemoryInfo_def find_shm_def)
  next
    case False
    have "keeps (holding n p res) (update_shm (erase k))" "keeps (holding n p res) (update_shm (assign k m'))" for m'
      using False by (auto simp: triple_def holding_def map_of_erase map_of_assign)
    then have "keeps (holding n p res) (RemoveMemoryInfo k force)"
      unfolding RemoveMemoryInfo_def find_shm_def by (intro keeps_intros keeps_drop_refs holding_store)
    from this H show ?thesis by (rule keeps_run)
  qed
qed

lemma holding_full: "triple (\<lambda>d. prepared Orph k d \<and> holding n p res d) (AddFullShareMemoryInfo k pid r) (\<lambda>_. holding n p res)"
proof (rule tripleI)
  fix d :: "'w daemon"
  assume A: "prepared Orph k d \<and> holding n p res d"
  then have "k \<noteq> n" by (auto simp: prepared_def ghost_def holding_def)
  then have "keeps (holding n p res) (AddFullShareMemoryInfo k pid r)"
    unfolding AddFullShareMemoryInfo_def find_shm_def by (intro keeps_intros holding_store holding_assign) blast
  then show "holding n p res (snd (run_state (AddFullShareMemoryInfo k pid r) d))" using conjunct2[OF A] by (rule keeps_run)
qed

lemma guest_keeps: "keeps (shm_inv Orph) m \<Longrightarrow> keeps (holding n p res) m \<Longrightarrow> keeps (guest Orph n p res pid) m"
  by (simp add: triple_def guest_def)

interpretation bystander_shm: shm_client E "guest Orph n p res pid" "guest_prepared Orph n p res pid" pid
  for E :: "'w env" and Orph n p res pid
proof (unfold_locales, goal_cases)
  case (1 d d')
  then show ?case using core_store[of d d'] by (simp add: guest_def holding_def shm_inv_def short_names_def del: map_of_eq_Some_iff)
next
  case (2 d d' k)
  then show ?case using core_store[of d d']
    by (simp add: guest_prepared_def prepared_def holding_def shm_inv_def short_names_def del: map_of_eq_Some_iff)
next
  case (3 k sz)
  have "triple (\<lambda>d. p \<noteq> pid \<and> shm_inv Orph d \<and> holding n p res d) (PrepareAddShareMemoryInfo k sz pid)
      (\<lambda>hr d. (if hr = 0 then prepared Orph k d else shm_inv Orph d) \<and> holding n p res d)"
    by (rule triple_conseq[OF triple_conj[OF PrepareAddShareMemoryInfo_keeps[OF 3] holding_methods(1)]]) auto
  then show ?case unfolding triple_def guest_def guest_prepared_def by auto
next
  case (4 k r)
  have "triple (\<lambda>d. prepared Orph k d \<and> holding n p res d) (AddFullShareMemoryInfo k pid r) (\<lambda>_ d. shm_inv Orph d \<and> holding n p res d)"
    by (rule triple_conseq[OF triple_conj[OF AddFullShareMemoryInfo_keeps holding_full]]) auto
  then show ?case unfolding triple_def guest_def guest_prepared_def by auto
next
  case (5 k d)
  then show ?case by (auto simp: guest_def guest_prepared_def prepared_def)
next
  case (6 s k)
  then have "s \<noteq> DELETED" by auto
  then show ?case by (intro guest_keeps UpdateShareMemoryRecordState_keeps holding_methods(3))
next
  case (7 k force)
  show ?case by (intro guest_keeps RemoveMemoryInfo_keeps holding_remove)
next
  case (8 k)
  have "triple (\<lambda>d. (shm_inv Orph d \<and> \<not> uses d k pid) \<and> holding n p res d) (AddMemoryUserInfo k pid) (\<lambda>_ d. shm_inv Orph d \<and> holding n p res d)"
    by (rule triple_conj[OF AddMemoryUserInfo_keeps holding_methods(2)])
  then show ?case unfolding triple_def guest_def by auto
next
  case (9 k)
  have "triple (\<lambda>d. shm_inv Orph d \<and> holding n p res d) (RemoveMemoryUserInfo k pid)
      (\<lambda>ret d. (shm_inv Orph d \<and> (ret = 0 \<longrightarrow> \<not> uses d k pid)) \<and> holding n p res d)" if "p \<noteq> pid"
    by (rule triple_conj[OF RemoveMemoryUserInfo_keeps holding_methods(4)[OF that]])
  then show ?case unfolding triple_def guest_def by auto
next
  case (10 r)
  have "keeps (shm_inv Orph) (CreateRegionInfo r)"
    by (rule calm_part[OF region_methods_calm(1)[OF 10]]) (simp_all add: not_defs part_defs shm_inv_def short_names_def)
  moreover have "keeps (holding n p res) (CreateRegionInfo r)"
    unfolding CreateRegionInfo_def UpdateRegionInfo_def by (intro keeps_intros holding_store) (simp_all add: triple_def holding_def)
  ultimately show ?case by (rule guest_keeps)
next
  case (11 k)
  have "keeps (shm_inv Orph) (DeleteRegionInfo k)"
    by (rule calm_part[OF region_methods_calm(2)]) (simp_all add: not_defs part_defs shm_inv_def short_names_def)
  moreover have "keeps (holding n p res) (DeleteRegionInfo k)"
    unfolding DeleteRegionInfo_def RemoveRegionInfo_def by (intro keeps_intros holding_store) (simp_all add: triple_def holding_def)
  ultimately show ?case by (rule guest_keeps)
next
  case 12
  show ?case by (intro guest_keeps suspend_keeps holding_store)
next
  case 13
  show ?case by (intro guest_keeps suspend_keeps holding_store)
qed

text \<open>
  C5. Isolation of shared memory in the daemon's books.  A process that uses a memory which is not marked as deleted stays a user of it,
  with the ids, flags and owner it was given, whatever requests about shared memory and regions other processes
  send, with legal names.  The memory also stays mapped, its state that of a
  finished attachment, provided that nobody but a user of it asks to unmap it.
\<close>

theorem shm_isolation:
  assumes "shm_inv Orph d" "holding n p res d" "\<forall>q\<in>set rs. uds_pid (snd q) \<noteq> p \<and> named_request (fst q)"
    "d' = snd (run_state (for_each rs (\<lambda>q. do { serve_shm E q; return () })) d)"
  shows "holding n p res d' \<and> (mapped_by p n res d \<and> users_unmap E n rs d \<longrightarrow> mapped_by p n res d')"
proof
  have K: "keeps (\<lambda>d. shm_inv Orph d \<and> holding n p res d) (serve_shm E q)" if "q \<in> set rs" for q
  proof -
    have "uds_pid (snd q) \<noteq> p" "named_request (fst q)" using that assms(3) by auto
    then have "keeps (guest Orph n p res (uds_pid (snd q))) (serve_shm E (fst q, snd q))"
      by (intro bystander_shm.serve_keeps) auto
    then show ?thesis using \<open>uds_pid (snd q) \<noteq> p\<close> by (auto simp: triple_def guest_def)
  qed
  then have "keeps (\<lambda>d. shm_inv Orph d \<and> holding n p res d) (for_each rs (\<lambda>q. do { serve_shm E q; return () }))"
    by (intro keeps_intros)
  from keeps_run[OF this, of d] show "holding n p res d'" using assms(1,2,4) by simp
  show "mapped_by p n res d \<and> users_unmap E n rs d \<longrightarrow> mapped_by p n res d'"
  proof (intro impI, elim conjE)
    assume M: "mapped_by p n res d" "users_unmap E n rs d"
    show "mapped_by p n res d'"
      unfolding assms(4) by (rule mapped_requests[OF _ _ _ M, of "\<lambda>d. shm_inv Orph d \<and> holding n p res d" Orph]) (use K assms(1-3) in auto)
  qed
qed

definition unmap_request :: ShmUnmapRequest where
  "unmap_request = new_ShmUnmapRequest\<lparr>ShmUnmapReq_name := ''m''\<rparr>"

theorem shm_isolation_witness:
  "\<exists>res. mapped_by 42 ''m'' res (snd (run_state (for_each
     [(ReqMap map_request, app_42\<lparr>uds_pid := 43\<rparr>), (ReqUnmap (unmap_request\<lparr>ShmUnmapReq_name := ''k''\<rparr>), app_42\<lparr>uds_pid := 44\<rparr>),
      (ReqSuspend, app_42\<lparr>uds_pid := 44\<rparr>)]
     (\<lambda>q. do { serve_shm shm_env q; return () })) shared_daemon))"
proof -
  have inv: "shm_inv {} shared_daemon" using shared_facts(1) by (simp add: daemon_inv_def)
  obtain res where M: "mapped_by 42 ''m'' res shared_daemon" using shared_facts(3) by blast
  then have h: "holding ''m'' 42 res shared_daemon" by (auto simp: mapped_by_def holding_def)
  let ?rs = "[(ReqMap map_request, app_42\<lparr>uds_pid := 43\<rparr>), (ReqUnmap (unmap_request\<lparr>ShmUnmapReq_name := ''k''\<rparr>), app_42\<lparr>uds_pid := 44\<rparr>),
      (ReqSuspend, app_42\<lparr>uds_pid := 44\<rparr>)]"
  have "\<forall>q\<in>set ?rs. uds_pid (snd q) \<noteq> 42 \<and> named_request (fst q)" by (simp add: clean_name_def)
  from shm_isolation[OF inv h this refl, of shm_env] have "mapped_by 42 ''m'' res (snd (run_state (for_each ?rs
     (\<lambda>q. do { serve_shm shm_env q; return () })) shared_daemon))" using M by (simp del: for_each.simps serve_shm.simps)
  then show ?thesis by blast
qed

section \<open>Permissions\<close>

lemma any_bit_bit: "any_bit a (2 ^ k) \<longleftrightarrow> bit a k"
  by (simp add: any_bit_def and_exp_eq_0_iff_not_bit)

text \<open>The bits for reading, writing and executing of the class of the caller: owner, group or others.\<close>

definition class_shift :: "u32 \<Rightarrow> u32 \<Rightarrow> ubse_user_info \<Rightarrow> nat" where
  "class_shift uid gid info = (if uid = ui_uid info then 6 else if gid = ui_gid info then 3 else 0)"

lemma perms_bits:
  "any_bit (perms_from mode r w x) PROT_READ \<longleftrightarrow> any_bit mode r"
  "any_bit (perms_from mode r w x) PROT_WRITE \<longleftrightarrow> any_bit mode w"
  "any_bit (perms_from mode r w x) PROT_EXEC \<longleftrightarrow> any_bit mode x"
  by (simp_all add: perms_from_def any_bit_def PROT_READ_def PROT_WRITE_def PROT_EXEC_def bit.conj_disj_distrib2)

lemma provided_bits:
  fixes uid gid :: u32
  defines "P info \<equiv> CalculateProvidedPermissions uid gid (ui_uid info) (ui_gid info) (ui_mode info)"
  shows "any_bit (P info) PROT_READ \<longleftrightarrow> bit (ui_mode info) (class_shift uid gid info + 2)"
    "any_bit (P info) PROT_WRITE \<longleftrightarrow> bit (ui_mode info) (class_shift uid gid info + 1)"
    "any_bit (P info) PROT_EXEC \<longleftrightarrow> bit (ui_mode info) (class_shift uid gid info)"
proof -
  have b: "any_bit mode 0x100 = bit mode (6 + 2)" "any_bit mode 0x80 = bit mode (6 + 1)" "any_bit mode 0x40 = bit mode 6"
    "any_bit mode 0x20 = bit mode (3 + 2)" "any_bit mode 0x10 = bit mode (3 + 1)" "any_bit mode 0x8 = bit mode 3"
    "any_bit mode 0x4 = bit mode (0 + 2)" "any_bit mode 0x2 = bit mode (0 + 1)" "any_bit mode 0x1 = bit mode 0" for mode
    using any_bit_bit[of mode 8] any_bit_bit[of mode 7] any_bit_bit[of mode 6] any_bit_bit[of mode 5] any_bit_bit[of mode 4]
      any_bit_bit[of mode 3] any_bit_bit[of mode 2] any_bit_bit[of mode 1] any_bit_bit[of mode 0] by (simp_all add: numeral_2_eq_2)
  show "any_bit (P info) PROT_READ \<longleftrightarrow> bit (ui_mode info) (class_shift uid gid info + 2)"
    "any_bit (P info) PROT_WRITE \<longleftrightarrow> bit (ui_mode info) (class_shift uid gid info + 1)"
    "any_bit (P info) PROT_EXEC \<longleftrightarrow> bit (ui_mode info) (class_shift uid gid info)"
    unfolding P_def CalculateProvidedPermissions_def class_shift_def
    by (cases "uid = ui_uid info"; cases "gid = ui_gid info"; simp only: if_True if_False perms_bits b)+
qed

text \<open>
  C17. The permission check decides on the mode bits of the caller's class, as \<^verbatim>\<open>open\<close> does for files: a
  mapping is granted exactly if every requested access has its bit set for the owner, for the group or for
  others, whichever the caller is, and that class may read or execute at all.  The access mode it
  returns is read-only exactly for classes that may read but not write.
\<close>

theorem permission_check:
  defines "granted s mode prot \<equiv> (bit mode (s + 2) \<or> bit mode s) \<and> (bit prot 0 \<longrightarrow> bit mode (s + 2)) \<and>
      (bit prot 1 \<longrightarrow> bit mode (s + 1)) \<and> (bit prot 2 \<longrightarrow> bit mode s)"
  shows "(fst (CheckPermission uid gid info prot) = 0 \<longleftrightarrow> granted (class_shift uid gid info) (ui_mode info) prot) \<and>
    (fst (CheckPermission uid gid info prot) = 0 \<longrightarrow>
      snd (CheckPermission uid gid info prot) = (if bit (ui_mode info) (class_shift uid gid info + 2) \<and> \<not> bit (ui_mode info) (class_shift uid gid info + 1)
        then O_RDONLY else O_RDWR))"
proof -
  have prot: "any_bit prot PROT_READ = bit prot 0" "any_bit prot PROT_WRITE = bit prot 1" "any_bit prot PROT_EXEC = bit prot 2"
    using any_bit_bit[of prot 0] any_bit_bit[of prot 1] any_bit_bit[of prot 2]
    by (simp_all add: PROT_READ_def PROT_WRITE_def PROT_EXEC_def)
  show ?thesis
    unfolding granted_def CheckPermission_def Let_def GetMaxOflag_def provided_bits prot
    by (simp add: O_RDWR_def O_RDONLY_def MXM_ERR_SHM_PERMISSION_DENIED_def)
qed

theorem permission_check_witness:
  "fst (CheckPermission 1000 5 quiet_user PROT_WRITE) = 0 \<and> fst (CheckPermission 7 1000 quiet_user PROT_READ) \<noteq> 0"
proof -
  have b: "bit (0x180 :: u32) 8" "bit (0x180 :: u32) 7" "\<not> bit (0x180 :: u32) 5" "\<not> bit (0x180 :: u32) 3"
    "bit PROT_WRITE 1" "\<not> bit PROT_WRITE 0" "\<not> bit PROT_WRITE 2"
    by (simp_all add: PROT_WRITE_def bit_numeral_rec)
  have c: "class_shift 1000 5 quiet_user = 6" "class_shift 7 1000 quiet_user = 3" "ui_mode quiet_user = 0x180"
    by (simp_all add: class_shift_def quiet_user_def)
  show ?thesis
    using permission_check[of 1000 5 quiet_user PROT_WRITE] permission_check[of 7 1000 quiet_user PROT_READ] b unfolding c by simp
qed

section \<open>Unmapping\<close>

lemma remove_user_run:
  assumes "shm_inv Orph d" "map_of (d_shm d) n = Some m" "pid \<in> set (am_pids m)"
  shows "run_state (RemoveMemoryUserInfo n pid) d = (UBSM_OK, d\<lparr>d_store := snd (exec_op (OpDelRef pid n) (d_store d)),
    d_shm := assign n (m\<lparr>am_pids := removeAll pid (am_pids m)\<rparr>) (d_shm d)\<rparr>)"
  using user_record(2)[OF assms] assms(2,3) by (simp add: RemoveMemoryUserInfo_def find_shm_def shm_op del: exec_op.simps)

lemma remove_memory_run:
  assumes "shm_inv Orph d" "map_of (d_shm d) n = Some m" "am_pids m = []" "n \<in> dom (shm_imports (d_store d))"
  shows "run_state (RemoveMemoryInfo n False) d = (UBSM_OK, d\<lparr>d_store := snd (exec_op (OpDelImport n) (d_store d)), d_shm := erase n (d_shm d)\<rparr>)"
    "shm_imports (snd (exec_op (OpDelImport n) (d_store d))) n = None"
proof -
  note D = shm_invD[OF assms(1)]
  have "users_match [] (shm_refs (d_store d) n)" using D(4)[of n] assms(2-4) by (auto simp: shm_at_Some split: option.splits)
  then have pre: "op_pre (OpDelImport n) (abs_of (d_store d))" using assms(4) by (auto simp: users_match_def)
  then have ok: "fst (exec_op (OpDelImport n) (d_store d)) = 0"
    using exec_call(3)[OF D(1), of "OpDelImport n"] by (simp del: exec_op.simps)
  then show "run_state (RemoveMemoryInfo n False) d = (UBSM_OK, d\<lparr>d_store := snd (exec_op (OpDelImport n) (d_store d)), d_shm := erase n (d_shm d)\<rparr>)"
    using assms(2,3) by (simp add: RemoveMemoryInfo_def find_shm_def shm_op del: exec_op.simps)
  show "shm_imports (snd (exec_op (OpDelImport n) (d_store d))) n = None"
    using exec_call(2)[OF D(1), of "OpDelImport n"] ok by (simp del: exec_op.simps)
qed

lemma imports_delref:
  assumes "store_inv st"
  shows "shm_imports (snd (exec_op (OpDelRef pid n) st)) = shm_imports st"
  using exec_call(2)[OF assms, of "OpDelRef pid n"] by (simp del: exec_op.simps)

lemma imports_state:
  assumes "store_inv st"
  shows "dom (shm_imports (snd (exec_op (OpImportState n s) st))) = dom (shm_imports st)"
  using exec_call(2)[OF assms, of "OpImportState n s"] by (auto simp: dom_def simp del: exec_op.simps split: if_splits)

text \<open>The last user, whose request takes the memory from the node.\<close>

definition left :: "string \<Rightarrow> 'w daemon \<Rightarrow> bool" where
  "left n d \<longleftrightarrow> map_of (d_shm d) n = None \<and> shm_imports (d_store d) n = None"

lemma unmap_last:
  fixes E :: "'w env"
  assumes "shm_inv Orph d" "map_of (d_shm d) n = Some m" "am_pids m = [uds_pid uds]" "run_state (ShmUnMapInner E n uds) d = (ret, d')"
  shows "if ret = 0 then left n d' else uses d' n (uds_pid uds)"
proof -
  let ?pid = "uds_pid uds" and ?m1 = "m\<lparr>am_state := PRE_DEL\<rparr>"
  have dom: "n \<in> dom (shm_imports (d_store d))" using user_record(1)[OF assms(1,2), of ?pid] assms(3) by simp
  define d1 where "d1 = d\<lparr>d_store := snd (exec_op (OpImportState n PRE_DEL) (d_store d)), d_shm := assign n ?m1 (d_shm d)\<rparr>"
  have s1: "run_state (UpdateShareMemoryRecordState n PRE_DEL) d = (MXM_OK, d1)" unfolding d1_def by (rule mark_run[OF assms(1,2) dom])
  have inv1: "shm_inv Orph d1" using keeps_run[OF UpdateShareMemoryRecordState_keeps assms(1), of n PRE_DEL] s1 by simp
  have m1: "map_of (d_shm d1) n = Some ?m1" by (simp add: d1_def map_of_assign)
  have dom1: "n \<in> dom (shm_imports (d_store d1))"
    using dom imports_state[OF shm_invD(1)[OF assms(1)], of n PRE_DEL] by (simp add: d1_def del: exec_op.simps)
  obtain c d2 where s2: "run_state (Ubse_ShmDetach E n) d1 = (c, d2)" by (metis surj_pair)
  have same: "services d2 = services d1" using preserves_run[OF shm_query_frames(5), of E n d1] s2 by simp
  have inv2: "shm_inv Orph d2" using inv1 same by (simp add: services_def shm_inv_def)
  have m2: "map_of (d_shm d2) n = Some ?m1" and dom2: "n \<in> dom (shm_imports (d_store d2))"
    using m1 dom1 same by (simp_all add: services_def)
  show ?thesis
  proof (cases "c \<noteq> MXM_OK \<and> c \<noteq> MXM_ERR_UBSE_NOT_ATTACH")
    case True
    then have "ret = c" "d' = snd (run_state (UpdateShareMemoryRecordState n FINISH) d2)"
      using assms(4) s1 s2 by (simp_all add: ShmUnMapInner_def split_beta)
    then show ?thesis
      using True mark_run[OF inv2 m2 dom2, of FINISH] assms(3) by (simp add: uses_def map_of_assign MXM_OK_def)
  next
    case False
    define d3 where "d3 = d2\<lparr>d_store := snd (exec_op (OpDelRef ?pid n) (d_store d2)), d_shm := assign n (?m1\<lparr>am_pids := []\<rparr>) (d_shm d2)\<rparr>"
    have s3: "run_state (RemoveMemoryUserInfo n ?pid) d2 = (UBSM_OK, d3)"
      using remove_user_run[OF inv2 m2, of ?pid] assms(3) by (simp add: d3_def)
    have inv3: "shm_inv Orph d3" using tripleD[OF RemoveMemoryUserInfo_keeps inv2, of n ?pid] s3 by simp
    have m3: "map_of (d_shm d3) n = Some (?m1\<lparr>am_pids := []\<rparr>)" by (simp add: d3_def map_of_assign)
    have dom3: "n \<in> dom (shm_imports (d_store d3))"
      using dom2 imports_delref[OF shm_invD(1)[OF inv2]] by (simp add: d3_def del: exec_op.simps)
    note R = remove_memory_run[OF inv3 m3 _ dom3, simplified]
    have "ret = MXM_OK" "d' = snd (run_state (RemoveMemoryInfo n False) d3)"
      using assms(4) s1 s2 s3 R(1) False by (auto simp: ShmUnMapInner_def UBSM_OK_def MXM_OK_def)
    then show ?thesis using R by (simp add: left_def map_of_erase MXM_OK_def)
  qed
qed

text \<open>
  C10. Unmapping.  When a user gives back a memory that is not marked as deleted, code 0 means that it is no longer a user, that all other users
  still are, and that with the last user the memory is gone from the cache and from the record
  file; any other code means that it is still a user and can try again.
\<close>

theorem shm_unmap:
  assumes "shm_inv Orph d" "map_of (d_shm d) (ShmUnmapReq_name req) = Some m" "am_state m \<noteq> DELETED" "uds_pid uds \<in> set (am_pids m)"
    "run_state (ShmUnmap E req resp uds) d = ((ret, resp'), d')"
  shows "if ret = 0
    then \<not> uses d' (ShmUnmapReq_name req) (uds_pid uds) \<and>
      (\<forall>p. p \<noteq> uds_pid uds \<longrightarrow> uses d' (ShmUnmapReq_name req) p = uses d (ShmUnmapReq_name req) p) \<and>
      (am_pids m = [uds_pid uds] \<longrightarrow> left (ShmUnmapReq_name req) d')
    else uses d' (ShmUnmapReq_name req) (uds_pid uds)"
proof -
  let ?n = "ShmUnmapReq_name req" and ?pid = "uds_pid uds"
  have d: "distinct (am_pids m)"
    using shm_invD(4)[OF assms(1), of ?n] assms(2,4) by (auto simp: shm_at_Some ghost_def users_match_def split: option.splits)
  show ?thesis
  proof (cases "am_pids m = [?pid]")
    case True
    obtain c d1 where r: "run_state (ShmUnMapInner E ?n uds) d = (c, d1)" by (metis surj_pair)
    have "ret = c" "d' = d1"
      using assms(2,3,5) r True
      by (auto simp: ShmUnmap_def GetShareMemoryInfo_def GetMemoryUsersCountByName_def find_shm_def UBSM_OK_def split: if_splits)
    then show ?thesis using unmap_last[OF assms(1,2) True r] True assms(2) by (auto simp: uses_def left_def)
  next
    case False
    then have more: "1 < length (am_pids m)" using assms(4) d by (cases "am_pids m" rule: list.exhaust; cases "tl (am_pids m)") auto
    have "ret = 0" "map_of (d_shm d') ?n = Some (m\<lparr>am_pids := removeAll ?pid (am_pids m)\<rparr>)"
      using assms(2,3,5) more remove_user_run[OF assms(1,2,4)]
      by (auto simp: ShmUnmap_def GetShareMemoryInfo_def GetMemoryUsersCountByName_def find_shm_def UBSM_OK_def map_of_assign)
    then show ?thesis using assms(2) False by (auto simp: uses_def)
  qed
qed

theorem shm_unmap_witness:
  "(let r = run_state (ShmUnmap shm_env unmap_request new_CommonResponse app_42) shared_daemon in
     if fst (fst r) = 0 then left ''m'' (snd r) else uses (snd r) ''m'' 42)"
proof -
  have inv: "shm_inv {} shared_daemon" using shared_facts(1) by (simp add: daemon_inv_def)
  have m: "d_shm shared_daemon = [(''m'', \<lparr>am_name = ''m'', am_size = 4096, am_state = FINISH, am_pids = [42], am_result = sample_attached\<rparr>)]"
    unfolding shared_daemon_def by (rule shared_run(2))
  have n: "ShmUnmapReq_name unmap_request = ''m''" by (simp add: unmap_request_def)
  obtain ret resp d' where r: "run_state (ShmUnmap shm_env unmap_request new_CommonResponse app_42) shared_daemon = ((ret, resp), d')"
    by (metis surj_pair)
  have pid: "uds_pid app_42 = 42" by (simp add: app_42_def)
  show ?thesis using shm_unmap[OF inv _ _ _ r] unfolding r n m pid by (cases "ret = 0") simp_all
qed

text \<open>
  C39. Unmapping is not limited to users.  A process that never mapped a memory but names it in an unmap request while it
  has one user makes the daemon detach it: the engine is asked and accepts, the record is marked for
  deletion, and only then the request fails, while the user still counts as one.
\<close>

theorem unmap_by_stranger:
  assumes "shm_inv Orph d" "map_of (d_shm d) (ShmUnmapReq_name req) = Some m" "am_state m \<noteq> DELETED" "am_pids m = [p]" "p \<noteq> uds_pid uds"
    "ad_initialized (d_adapter d)" "ubse_shm_detach E (c_str (ShmUnmapReq_name req)) (d_world d) = (0, w)"
    "run_state (ShmUnmap E req resp uds) d = ((ret, resp'), d')"
  shows "ret = MXM_ERR_SHM_NOT_FOUND \<and> d_world d' = w \<and> map_of (d_shm d') (ShmUnmapReq_name req) = Some (m\<lparr>am_state := PRE_DEL\<rparr>)"
proof -
  let ?n = "ShmUnmapReq_name req"
  have dom: "?n \<in> dom (shm_imports (d_store d))" using user_record(1)[OF assms(1,2), of p] assms(4) by simp
  show ?thesis
    using assms(2-8) mark_run[OF assms(1,2) dom, of PRE_DEL]
    by (auto simp: ShmUnmap_def GetShareMemoryInfo_def GetMemoryUsersCountByName_def find_shm_def ShmUnMapInner_def Ubse_ShmDetach_def
        Initialize_def detach_code_def RemoveMemoryUserInfo_def UBS_SUCCESS_def UBSM_OK_def MXM_OK_def MXM_ERR_SHM_NOT_FOUND_def map_of_assign)
qed

definition lone_daemon :: "unit daemon" where
  "lone_daemon = shared_daemon\<lparr>d_adapter := d_adapter idle_daemon\<rparr>"

theorem unmap_by_stranger_witness:
  "(let r = run_state (ShmUnmap shm_env unmap_request new_CommonResponse (app_42\<lparr>uds_pid := 43\<rparr>)) lone_daemon in
     fst (fst r) = MXM_ERR_SHM_NOT_FOUND \<and> uses (snd r) ''m'' 42)"
proof -
  have inv: "shm_inv {} lone_daemon" using shared_facts(1) by (simp add: daemon_inv_def lone_daemon_def shm_inv_def)
  have m: "d_shm lone_daemon = [(''m'', \<lparr>am_name = ''m'', am_size = 4096, am_state = FINISH, am_pids = [42], am_result = sample_attached\<rparr>)]"
    unfolding lone_daemon_def shared_daemon_def by (simp add: shared_run(2))
  have n: "ShmUnmapReq_name unmap_request = ''m''" by (simp add: unmap_request_def)
  obtain ret resp d' where r: "run_state (ShmUnmap shm_env unmap_request new_CommonResponse (app_42\<lparr>uds_pid := 43\<rparr>)) lone_daemon = ((ret, resp), d')"
    by (metis surj_pair)
  have "ad_initialized (d_adapter lone_daemon)" by (simp add: lone_daemon_def idle_daemon_def)
  then show ?thesis using unmap_by_stranger[OF inv _ _ _ _ _ _ r, where w = "()"] unfolding r n m by (simp add: uses_def)
qed

section \<open>The background thread\<close>

text \<open>
  C12. Memory of ended processes is given back, and only theirs.  One round of the background thread takes leases
  out of use and never changes one.  A lease for which no removal is queued goes out of use, to be kept for
  reuse or given back to the engine, if its process has ended, no exit notification waits to be served, the engine
  accepts and the clock does not go back; it stays in use as it is if its process is alive and
  no exit notification for it waits.
\<close>

theorem dead_leases_returned:
  assumes "daemon_inv O1 O2 d" "queue_ok (d_mon d)" "mo_running (d_mon d)" "used d n = Some i" "n \<notin> pending (d_mon d)"
    "d' = snd (run_state (background_round E) d)"
  shows "used d' \<subseteq>\<^sub>m used d \<and>
    (ended E (info_pid i) \<and> exitedPids (d_mon d) = [] \<and> engine_accepts E \<and> clock_steady E \<longrightarrow> used d' n = None) \<and>
    ((\<forall>w. fst (os_alive E (info_pid i) w)) \<and> info_pid i \<notin> set (exitedPids (d_mon d)) \<longrightarrow> used d' n = Some i)"
proof -
  have "lease_inv O1 d" using assms(1) by (simp add: daemon_inv_def lease_safe_def)
  from round_spares[OF this assms(3,4,5)] show ?thesis
    unfolding assms(6) using round_shrinks[OF assms(3)] round_returns[OF assms(1-5)] by blast
qed

definition dead_env :: "unit env" where
  "dead_env = quiet_env\<lparr>os_alive := (\<lambda>_. Pair False)\<rparr>"

definition orphaned_daemon :: "unit daemon" where
  "orphaned_daemon = leased_daemon\<lparr>d_mon := d_mon idle_daemon\<rparr>"

theorem dead_leases_returned_witness:
  "used (snd (run_state (background_round dead_env) orphaned_daemon)) ''N4096_7_5'' = None \<and>
   used (snd (run_state (background_round quiet_env) orphaned_daemon)) ''N4096_7_5'' \<noteq> None"
proof -
  have "keeps (daemon_inv {} {}) (AppMallocMemoryWithLoc quiet_env numa_request new_AppMallocMemoryResponse app_42)"
    by (rule whole_lease.malloc_loc_keeps) (simp add: app_42_def)
  from keeps_run[OF this idle_inv(1)] have "daemon_inv {} {} leased_daemon" by (simp add: leased_daemon_def)
  then have inv: "daemon_inv {} {} orphaned_daemon"
    using whole_shm.frame[of leased_daemon orphaned_daemon "{}" "{}"] by (simp add: core_def orphaned_daemon_def)
  have E: "engine_accepts dead_env" "clock_steady dead_env"
    by (simp_all add: engine_accepts_def clock_steady_def dead_env_def gives_back_def)
  have mon: "d_mon orphaned_daemon = d_mon idle_daemon" by (simp add: orphaned_daemon_def)
  have q: "queue_ok (d_mon orphaned_daemon)" "mo_running (d_mon orphaned_daemon)" "''N4096_7_5'' \<notin> pending (d_mon orphaned_daemon)"
    "exitedPids (d_mon orphaned_daemon) = []"
    using idle_inv(2) unfolding mon by (simp_all add: idle_daemon_def pending_def)
  obtain i where i: "used orphaned_daemon ''N4096_7_5'' = Some i"
    using leased_facts(2) by (auto simp: orphaned_daemon_def in_use_def split: option.splits)
  have "info_pid i \<noteq> 0" using placed_used[OF _ i] inv by (simp add: daemon_inv_def lease_safe_def lease_inv_def)
  then have "ended dead_env (info_pid i)" "\<forall>w. fst (os_alive quiet_env (info_pid i) w)" by (simp_all add: ended_def dead_env_def)
  then show ?thesis
    using dead_leases_returned[where E = dead_env, OF inv q(1,2) i q(3) refl]
      dead_leases_returned[where E = quiet_env, OF inv q(1,2) i q(3) refl] E q(4) by simp
qed

text \<open>
  C13. Removals are retried, with growing and bounded delays.  A round over the queue attempts every entry that is due.  Afterwards
  the entries that were not due are still there; every attempt that failed has an entry for the same name that
  comes due after as many minutes as there were attempts, at most one hour, after the clock was read,
  whatever the number of attempts is; and nothing else is in the queue, so that an entry whose removal
  succeeded is gone.
\<close>

theorem removal_retry:
  assumes "queue_ok (d_mon d)" "mo_running (d_mon d)" "d' = snd (run_state (RemoveDelayBorrows E) d)"
    "\<And>w. unat (fst (os_now E w)) + 3600000 < 2 ^ 64"
  defines "again k e \<equiv> dk_name (snd e) = dk_name k \<and>
      (\<exists>w. unat (dk_expiresTime (snd e)) = unat (fst (os_now E w)) + min (60000 * unat (dk_retryTimes k + 1)) 3600000)"
  shows "{e \<in> queue d. now E d < dk_expiresTime (snd e)} \<subseteq> queue d' \<and>
    (\<forall>k\<in>set (failed E (due E d) (clock_read E d)). \<exists>e\<in>queue d'. again k e) \<and>
    (\<forall>e\<in>queue d'. e \<in> queue d \<and> now E d < dk_expiresTime (snd e) \<or>
      (\<exists>k\<in>set (failed E (due E d) (clock_read E d)). again k e \<and> dk_retryTimes (snd e) = dk_retryTimes k + 1))"
proof -
  note T = RemoveDelayBorrows_trace[OF assms(1-3)]
  have retry: "dk_name k' = dk_name k \<and> dk_retryTimes k' = dk_retryTimes k + 1 \<and>
      (\<exists>w. unat (dk_expiresTime k') = unat (fst (os_now E w)) + min (60000 * unat (dk_retryTimes k + 1)) 3600000)"
    if R: "retry_of E k k'" for k k'
  proof -
    obtain c w where "k' = k\<lparr>dk_retryTimes := dk_retryTimes k + 1, dk_changed := c,
        dk_expiresTime := linear_delay (fst (os_now E w)) (dk_retryTimes k + 1) ONE_MINUTE_MS MAX_DELAY_TIME_MS\<rparr>"
      using R unfolding retry_of_def by blast
    then show ?thesis using linear_delay_exact[OF assms(4), of w "dk_retryTimes k + 1"] by (intro conjI exI[of _ w]) simp_all
  qed
  have later: "e \<in> queue d \<Longrightarrow> snd e \<notin> set (due E d) \<longleftrightarrow> now E d < dk_expiresTime (snd e)" for e by (auto simp: due_def)
  have "\<exists>e\<in>queue d'. again k e" if k: "k \<in> set (failed E (due E d) (clock_read E d))" for k
  proof -
    from T(2)[OF k] obtain e k' where "e \<in> queue d'" "retry_of E k k'" "delay_key (snd e) = delay_key k'" by blast
    then show ?thesis using retry[of k k'] by (intro bexI[of _ e]) (simp_all add: again_def delay_key_def)
  qed
  moreover have "e \<in> queue d \<and> now E d < dk_expiresTime (snd e) \<or>
      (\<exists>k\<in>set (failed E (due E d) (clock_read E d)). again k e \<and> dk_retryTimes (snd e) = dk_retryTimes k + 1)" if e: "e \<in> queue d'" for e
    using T(3)[OF e] later retry unfolding again_def by blast
  moreover have "{e \<in> queue d. now E d < dk_expiresTime (snd e)} \<subseteq> queue d'" using T(1) later by blast
  ultimately show ?thesis by blast
qed

definition stale_key :: DelayRemovedKey where
  "stale_key = \<lparr>dk_isLease = True, dk_retryTimes = 0, dk_expiresTime = 0, dk_name = ''x'',
     dk_appCtx = \<lparr>app_pid = 9, app_uid = 0, app_gid = 0\<rparr>, dk_changed = False, dk_isNumaLease = True,
     dk_timeOutScene = False, dk_isAttach = False, dk_createSeqNo = 0\<rparr>"

definition stale_daemon :: "unit daemon" where
  "stale_daemon = d_mon_update (add_delayed stale_key) idle_daemon"

theorem removal_retry_witness:
  "(\<lambda>e. (dk_name (snd e), dk_retryTimes (snd e), unat (dk_expiresTime (snd e)))) `
     queue (snd (run_state (RemoveDelayBorrows quiet_env) stale_daemon)) = {(''x'', 1, 61000)}"
proof -
  let ?q = "queue (snd (run_state (RemoveDelayBorrows quiet_env) stale_daemon))"
  have q: "queue_ok (d_mon stale_daemon)" using add_delayed_ok[OF idle_inv(2)] by (simp add: stale_daemon_def)
  have r: "mo_running (d_mon stale_daemon)" by (simp add: stale_daemon_def idle_daemon_def add_delayed_def)
  have s: "delayedRemoveKeys (d_mon stale_daemon) = [(delay_key stale_key, stale_key)]"
    by (simp add: stale_daemon_def add_delayed_def idle_daemon_def map_emplace_def)
  then have "due quiet_env stale_daemon = [stale_key]" by (simp add: due_def stale_key_def)
  moreover have "fst (run_state (attempt_removal quiet_env stale_key) (clock_read quiet_env stale_daemon)) =
      (MXM_ERR_PARAM_INVALID, stale_key\<lparr>dk_retryTimes := 1\<rparr>)"
    by (simp add: attempt_removal_def stale_key_def CleanLeaseMemoryLeakInner_def GetUsedMemByName_def find_used_def clock_read_def
        stale_daemon_def idle_daemon_def new_mls_manager_def)
  ultimately have f: "failed quiet_env (due quiet_env stale_daemon) (clock_read quiet_env stale_daemon) = [stale_key]"
    by (simp add: failed_def split_beta MXM_ERR_PARAM_INVALID_def)
  note R = removal_retry[where E = quiet_env, OF q r refl, unfolded f s]
  have "?q \<noteq> {}" using R by auto
  moreover have "(dk_name (snd e), dk_retryTimes (snd e), unat (dk_expiresTime (snd e))) = (''x'', 1, 61000)" if "e \<in> ?q" for e
    using R that by (auto simp: stale_key_def)
  ultimately show ?thesis by (simp add: image_constant_conv cong: image_cong)
qed

end
