(* ===== verification/Zen_Discovery.thy ===== *)
theory Zen_Discovery
  imports Messages_Rpc Ordered_Map Error_Codes Str_Util State_Logic
begin

text \<open>
  Discovery and election of the node that runs the lock service: \<^verbatim>\<open>zen_discovery/zen_discovery.cpp\<close>,
  \<^verbatim>\<open>zen_discovery/election_module.cpp\<close> and the node list of \<^verbatim>\<open>common/rpc_config.h\<close>, seen from one node.
  What crosses the network (\<^verbatim>\<open>RpcServer::Connect\<close>, \<^verbatim>\<open>RpcServer::SendMsg\<close>), the clocks and the values of
  fields that are never initialised are the parameter \<open>net\<close>, which may answer anything.
  \<^verbatim>\<open>ZenDiscovery::GetInstance\<close> is taken to find the instance, as it does while the threads run.
\<close>

section \<open>State\<close>

record RpcNode =
  rn_name :: string
  rn_ip :: string
  rn_port :: u16

datatype NodeState = UNINITIALIZED | INITIAL | JOINING_MASTER | JOINED_CLUSTER | MASTER_CANDIDATE | TEMP_MASTER | ELECTED_MASTER

datatype ZenElectionEventType = ELECTION_STARTED | VOTING_COMPLETED | MASTER_ELECTED | ELECTION_FAILED | NODE_DEMOTED |
  BECOME_VOTE_NODE | HAVE_JOINED | BROADCAST

record ListenerParam =
  lp_event :: ZenElectionEventType
  lp_masterId :: string
  lp_voteOnlyId :: string

record NodeCollections =
  activeMasters :: "string list"
  masterCandidates :: "string list"
  voteOnlyNode :: string

record ElectionModule =
  electionInProgress :: bool
  currentTerm :: u32
  em_electedMaster :: string
  votesReceived :: "string list"
  joinsReceived :: "string list"
  listenerQueue :: "ListenerParam list"

record 'w zen =
  z_nodeId :: string
  z_joinTimeoutMs :: u32
  z_electionTimeoutMs :: u32
  z_minimumMasterNodes :: u32
  z_state :: NodeState
  z_type :: NodeType
  z_masterNodeToJoin :: string
  z_electedMaster :: string
  z_tempNodeList :: "string list"
  z_nodes :: "(string \<times> ClusterNode) list"
  z_election :: ElectionModule
  z_mNodes :: "RpcNode list"
  z_mNode :: RpcNode
  z_world :: 'w

record 'w net =
  net_steady :: "'w \<Rightarrow> int \<times> 'w"
  net_system :: "'w \<Rightarrow> u64 \<times> 'w"
  net_uninit :: "'w \<Rightarrow> ClusterNode \<times> 'w"
  net_lock_init :: "'w \<Rightarrow> bool \<times> 'w"
  net_connect :: "RpcNode \<Rightarrow> 'w \<Rightarrow> int \<times> 'w"
  net_ping :: "string \<Rightarrow> string \<Rightarrow> 'w \<Rightarrow> int \<times> 'w"
  net_join :: "string \<Rightarrow> string \<Rightarrow> 'w \<Rightarrow> (int \<times> u32) \<times> 'w"
  net_vote :: "string \<Rightarrow> string \<Rightarrow> u32 \<Rightarrow> string \<Rightarrow> 'w \<Rightarrow> (int \<times> bool) \<times> 'w"
  net_trans_elected :: "string \<Rightarrow> string list \<Rightarrow> u32 \<Rightarrow> string \<Rightarrow> 'w \<Rightarrow> int \<times> 'w"
  net_master_elected :: "string \<Rightarrow> string \<Rightarrow> u32 \<Rightarrow> string \<Rightarrow> 'w \<Rightarrow> int \<times> 'w"
  net_broadcast :: "string \<Rightarrow> (string \<times> ClusterNode) list \<Rightarrow> bool \<Rightarrow> string \<Rightarrow> 'w \<Rightarrow> int \<times> 'w"

type_synonym ('w, 'a) zact = "('w zen, 'a) state"

definition net_call :: "('w \<Rightarrow> 'a \<times> 'w) \<Rightarrow> ('w, 'a) zact" where
  "net_call f = State (\<lambda>z. let (a, w) = f (z_world z) in (a, z\<lparr>z_world := w\<rparr>))"

text \<open>A size compared with an \<^verbatim>\<open>int\<close>: the latter is converted to \<^verbatim>\<open>size_t\<close>.\<close>

definition minimum_size :: "'w zen \<Rightarrow> nat" where
  "minimum_size z = unat (scast (z_minimumMasterNodes z) :: u64)"

section \<open>The election module\<close>

definition notifyListeners :: "ZenElectionEventType \<Rightarrow> string \<Rightarrow> string \<Rightarrow> ('w, unit) zact" where
  "notifyListeners event masterId voteOnlyId = modify (z_election_update (listenerQueue_update
     (\<lambda>q. q @ [\<lparr>lp_event = event, lp_masterId = masterId, lp_voteOnlyId = voteOnlyId\<rparr>])))"

definition ClearJoinsReceived :: "('w, unit) zact" where
  "ClearJoinsReceived = modify (z_election_update (joinsReceived_update (\<lambda>_. [])))"

definition AddJoinsReceived :: "string \<Rightarrow> ('w, unit) zact" where
  "AddJoinsReceived nodeId = modify (z_election_update (joinsReceived_update (insort_insert nodeId)))"

definition RecordVote :: "string \<Rightarrow> ('w, unit) zact" where
  "RecordVote nodeId = modify (z_election_update (votesReceived_update (insort_insert nodeId)))"

definition SetCurrentTerm :: "u32 \<Rightarrow> ('w, unit) zact" where
  "SetCurrentTerm newTerm = modify (z_election_update (currentTerm_update (\<lambda>_. newTerm)))"

definition collect_node :: "ClusterNode \<Rightarrow> NodeCollections \<Rightarrow> NodeCollections" where
  "collect_node node c =
     (if cn_type node = VOTING_ONLY_NODE then c\<lparr>voteOnlyNode := cn_id node\<rparr>
      else if cn_isActive node \<and> cn_type node = ELIGIBLE_NODE then
        c\<lparr>masterCandidates := insort_insert (cn_id node) (masterCandidates c),
          activeMasters := (if cn_isMaster node then insort_insert (cn_id node) (activeMasters c) else activeMasters c)\<rparr>
      else c)"

definition CollectNodeInfo :: "'w zen \<Rightarrow> NodeCollections" where
  "CollectNodeInfo z = masterCandidates_update (insort_insert (z_nodeId z))
     (fold collect_node (map snd (z_nodes z)) \<lparr>activeMasters = [], masterCandidates = [], voteOnlyNode = []\<rparr>)"

text \<open>The sets are kept in order, so the least element is the first one.\<close>

definition SelectTemporaryMaster :: "NodeCollections \<Rightarrow> string" where
  "SelectTemporaryMaster collections =
     (if activeMasters collections \<noteq> [] then hd (activeMasters collections) else hd (masterCandidates collections))"

section \<open>Nodes\<close>

definition UpdateNodeLastSeen :: "'w net \<Rightarrow> string \<Rightarrow> ('w, unit) zact" where
  "UpdateNodeLastSeen N nodeId = do {
     now \<leftarrow> net_call (net_system N);
     nodes \<leftarrow> gets z_nodes;
     case map_of nodes nodeId of
       Some node \<Rightarrow> modify (z_nodes_update (map_assign nodeId (node\<lparr>cn_lastSeen := now\<rparr>)))
     | None \<Rightarrow> do {
         node \<leftarrow> net_call (net_uninit N);
         modify (z_nodes_update (map_assign nodeId (node\<lparr>cn_id := nodeId, cn_ip := [], cn_isMaster := False,
           cn_lastSeen := now, cn_isActive := True\<rparr>))) } }"

definition MarkNodeActive :: "string \<Rightarrow> bool \<Rightarrow> ('w, unit) zact" where
  "MarkNodeActive nodeId active = do {
     nodes \<leftarrow> gets z_nodes;
     case map_of nodes nodeId of
       Some node \<Rightarrow> modify (z_nodes_update (map_assign nodeId (node\<lparr>cn_isActive := active\<rparr>)))
     | None \<Rightarrow> return () }"

definition GetSmallestNodeId :: "'w zen \<Rightarrow> string" where
  "GetSmallestNodeId z = fold (\<lambda>(id, node) minId. if id < minId \<and> cn_isActive node then id else minId) (z_nodes z) (z_nodeId z)"

definition GetBiggestNodeId :: "'w zen \<Rightarrow> string" where
  "GetBiggestNodeId z =
     fold (\<lambda>(id, node) maxId. if id > maxId \<and> cn_isActive node \<and> \<not> cn_isMaster node then id else maxId) (z_nodes z) []"

text \<open>
  \<^verbatim>\<open>BecomeTempMaster\<close> runs in the election thread or in the handler of a request while the discovery thread
  reads what it writes, and holds no lock over its statements.  So it is one statement at a time: a call has
  been made, has passed the test of the state, has set the state, has set the master, or has
  stored the list of nodes and returned.
\<close>

datatype becoming = Called "string list" | Passed "string list" | Claimed "string list" | Named "string list" | Returned

fun BecomeTempMaster :: "becoming \<Rightarrow> ('w, becoming) zact" where
  "BecomeTempMaster (Called candidates) = do {
     st \<leftarrow> gets z_state;
     return (if st = TEMP_MASTER \<or> st = ELECTED_MASTER then Returned else Passed candidates) }"
| "BecomeTempMaster (Passed candidates) = do {
     modify (z_state_update (\<lambda>_. TEMP_MASTER));
     return (Claimed candidates) }"
| "BecomeTempMaster (Claimed candidates) = do {
     modify (\<lambda>z. z\<lparr>z_electedMaster := z_nodeId z\<rparr>);
     return (Named candidates) }"
| "BecomeTempMaster (Named candidates) = do {
     modify (z_tempNodeList_update (\<lambda>_. candidates));
     return Returned }"
| "BecomeTempMaster Returned = return Returned"

definition SetMasterToJoin :: "string \<Rightarrow> ('w, unit) zact" where
  "SetMasterToJoin master = modify (\<lambda>z. z\<lparr>z_state := JOINING_MASTER, z_masterNodeToJoin := master\<rparr>)"

definition StepDownAsMaster :: "('w, unit) zact" where
  "StepDownAsMaster = do {
     modify (\<lambda>z. z\<lparr>z_state := MASTER_CANDIDATE, z_electedMaster := [],
       z_nodes := map (map_prod id (cn_isMaster_update (\<lambda>_. False))) (z_nodes z)\<rparr>);
     notifyListeners NODE_DEMOTED [] [] }"

section \<open>Messages from other nodes\<close>

definition HandlePingRequest :: "'w net \<Rightarrow> string \<Rightarrow> ('w, unit) zact" where
  "HandlePingRequest N fromNodeId = do { UpdateNodeLastSeen N fromNodeId; MarkNodeActive fromNodeId True }"

definition HandlePingResponse :: "'w net \<Rightarrow> string \<Rightarrow> ('w, unit) zact" where
  "HandlePingResponse N fromNodeId = do { UpdateNodeLastSeen N fromNodeId; MarkNodeActive fromNodeId True }"

definition HandleJoinRequest :: "'w net \<Rightarrow> string \<Rightarrow> ('w, NodeType) zact" where
  "HandleJoinRequest N fromNodeId = do { UpdateNodeLastSeen N fromNodeId; MarkNodeActive fromNodeId True; gets z_type }"

definition HandleVoteRequest :: "string \<Rightarrow> string \<Rightarrow> u32 \<Rightarrow> ('w, bool) zact" where
  "HandleVoteRequest fromNodeId candidate newTerm = do {
     smallestId \<leftarrow> gets GetSmallestNodeId;
     current \<leftarrow> gets (currentTerm \<circ> z_election);
     (if sint newTerm > sint current then SetCurrentTerm newTerm else return ());
     return (smallestId = candidate) }"

definition HandleVoteResponse :: "string \<Rightarrow> bool \<Rightarrow> ('w, unit) zact" where
  "HandleVoteResponse fromNodeId granted = (if granted then RecordVote fromNodeId else return ())"

text \<open>Up to the call of \<^verbatim>\<open>BecomeTempMaster\<close>, which is the result.\<close>

definition HandleSendTransElected :: "string \<Rightarrow> string list \<Rightarrow> u32 \<Rightarrow> ('w, becoming) zact" where
  "HandleSendTransElected fromNodeId nodeList newTerm = do {
     current \<leftarrow> gets (currentTerm \<circ> z_election);
     if sint newTerm < sint current then return Returned
     else do {
       (if sint newTerm > sint current then SetCurrentTerm newTerm else return ());
       return (Called nodeList) } }"

definition broadcast_node :: "bool \<Rightarrow> string \<times> ClusterNode \<Rightarrow> ('w, unit) zact" where
  "broadcast_node isSeverInited entry = do {
     z \<leftarrow> gets id;
     let node = snd entry;
     if cn_id node = z_nodeId z \<and> cn_type node = VOTING_ONLY_NODE then do {
       modify (z_type_update (\<lambda>_. VOTING_ONLY_NODE));
       if isSeverInited then notifyListeners BECOME_VOTE_NODE (z_electedMaster z) (z_nodeId z) else return () }
     else if cn_id node = z_nodeId z \<and> cn_type node = ELIGIBLE_NODE \<and> z_type z = VOTING_ONLY_NODE then do {
       modify (z_type_update (\<lambda>_. ELIGIBLE_NODE));
       notifyListeners NODE_DEMOTED (z_electedMaster z) (z_nodeId z) }
     else return () }"

definition HandleBroadCastRequest :: "string \<Rightarrow> (string \<times> ClusterNode) list \<Rightarrow> bool \<Rightarrow> ('w, unit) zact" where
  "HandleBroadCastRequest fromNodeId nodeList isSeverInited = do {
     modify (\<lambda>z. z\<lparr>z_nodes := nodeList, z_electedMaster := fromNodeId, z_state := JOINED_CLUSTER\<rparr>);
     for_each nodeList (broadcast_node isSeverInited) }"

section \<open>Requests to other nodes\<close>

text \<open>The pieces of a string that \<^verbatim>\<open>std::getline\<close> reads up to a colon: none for an empty rest.\<close>

fun getline_items :: "string \<Rightarrow> string \<Rightarrow> string list" where
  "getline_items item [] = (if item = [] then [] else [item])"
| "getline_items item (c # cs) = (if c = CHR '':'' then item # getline_items [] cs else getline_items (item @ [c]) cs)"

definition ParseRpcNodeFromId :: "string \<Rightarrow> int \<times> RpcNode" where
  "ParseRpcNodeFromId nodeId =
     (let node = \<lparr>rn_name = [], rn_ip = [], rn_port = 0\<rparr>; result = getline_items [] nodeId
      in if length result \<noteq> 2 then (MXM_ERR_PARAM_INVALID, node)
         else let node = node\<lparr>rn_name := nodeId, rn_ip := hd result\<rparr>; (ok, port) = StrToUint (last result)
           in if \<not> ok then (MXM_ERR_PARAM_INVALID, node)
              else if port > 65535 then (MXM_ERR_PARAM_INVALID, node)
              else (MXM_OK, node\<lparr>rn_port := ucast port\<rparr>))"

definition ConnectToRpcNode :: "'w net \<Rightarrow> string \<Rightarrow> ('w, int) zact" where
  "ConnectToRpcNode N nodeId =
     (let (ret, rpcNode) = ParseRpcNodeFromId nodeId
      in if ret \<noteq> UBSM_OK then return ret
         else do {
           retConnect \<leftarrow> net_call (net_connect N rpcNode);
           if retConnect \<noteq> 0 then do {
             UpdateNodeLastSeen N nodeId;
             MarkNodeActive nodeId False;
             return retConnect }
           else return 0 })"

text \<open>A node that cannot be pinged is marked, and the elected master takes its role of voter away.\<close>

definition ping_failed :: "'w net \<Rightarrow> string \<Rightarrow> int \<Rightarrow> ('w, int) zact" where
  "ping_failed N nodeId ret = do {
     UpdateNodeLastSeen N nodeId;
     MarkNodeActive nodeId False;
     z \<leftarrow> gets id;
     case map_of (z_nodes z) nodeId of
       Some node \<Rightarrow>
         if z_state z = ELECTED_MASTER \<and> cn_type node = VOTING_ONLY_NODE then do {
           modify (z_nodes_update (map_assign nodeId (node\<lparr>cn_type := ELIGIBLE_NODE\<rparr>)));
           return ret }
         else return ret
     | None \<Rightarrow> return ret }"

definition SendPingRequest :: "'w net \<Rightarrow> string \<Rightarrow> ('w, int) zact" where
  "SendPingRequest N nodeId = do {
     self \<leftarrow> gets z_nodeId;
     retConnect \<leftarrow> ConnectToRpcNode N nodeId;
     if retConnect \<noteq> 0 then ping_failed N nodeId retConnect
     else do {
       ret \<leftarrow> net_call (net_ping N self nodeId);
       if ret \<noteq> 0 then ping_failed N nodeId ret
       else do {
         UpdateNodeLastSeen N nodeId;
         MarkNodeActive nodeId True;
         return 0 } } }"

text \<open>The request carries the identifier of the node it is sent to, as in the source.\<close>

definition SendJoinRequest :: "'w net \<Rightarrow> string \<Rightarrow> ('w, int) zact" where
  "SendJoinRequest N nodeId = do {
     retConnect \<leftarrow> ConnectToRpcNode N nodeId;
     if retConnect \<noteq> 0 then return retConnect
     else do {
       (ret, nodetype) \<leftarrow> net_call (net_join N nodeId nodeId);
       if ret \<noteq> 0 then return ret
       else do {
         nodes \<leftarrow> gets z_nodes;
         (if nodetype = 1 then
            (let node = (case map_of nodes nodeId of Some node \<Rightarrow> node
               | None \<Rightarrow> \<lparr>cn_id = [], cn_ip = [], cn_port = 0, cn_isMaster = False, cn_lastSeen = 0, cn_isActive = False,
                   cn_type = ELIGIBLE_NODE\<rparr>)
             in modify (z_nodes_update (map_assign nodeId (node\<lparr>cn_type := VOTING_ONLY_NODE\<rparr>))))
          else return ());
         AddJoinsReceived nodeId;
         return 0 } } }"

definition SendTransElectedRequest :: "'w net \<Rightarrow> string list \<Rightarrow> string \<Rightarrow> u32 \<Rightarrow> ('w, int) zact" where
  "SendTransElectedRequest N nodes master newTerm = do {
     retConnect \<leftarrow> ConnectToRpcNode N master;
     if retConnect \<noteq> 0 then return retConnect
     else net_call (net_trans_elected N master nodes newTerm master) }"

definition SendMasterElected :: "'w net \<Rightarrow> string \<Rightarrow> string \<Rightarrow> u32 \<Rightarrow> ('w, int) zact" where
  "SendMasterElected N nodeId masterNode newTerm = do {
     self \<leftarrow> gets z_nodeId;
     retConnect \<leftarrow> ConnectToRpcNode N nodeId;
     if retConnect \<noteq> 0 then return retConnect
     else net_call (net_master_elected N self masterNode newTerm nodeId) }"

definition SendVoteRequest :: "'w net \<Rightarrow> string \<Rightarrow> string \<Rightarrow> u32 \<Rightarrow> ('w, int) zact" where
  "SendVoteRequest N nodeId masterNode newTerm = do {
     self \<leftarrow> gets z_nodeId;
     retConnect \<leftarrow> ConnectToRpcNode N nodeId;
     if retConnect \<noteq> 0 then return retConnect
     else do {
       (ret, granted) \<leftarrow> net_call (net_vote N self masterNode newTerm nodeId);
       if ret \<noteq> 0 then return ret
       else do { HandleVoteResponse nodeId granted; return 0 } } }"

definition SendBroadcastRequest :: "'w net \<Rightarrow> (string \<times> ClusterNode) list \<Rightarrow> string \<Rightarrow> ('w, int) zact" where
  "SendBroadcastRequest N nodes nodeId = do {
     master \<leftarrow> gets z_electedMaster;
     inited \<leftarrow> net_call (net_lock_init N);
     retConnect \<leftarrow> ConnectToRpcNode N nodeId;
     if retConnect \<noteq> 0 then return retConnect
     else net_call (net_broadcast N master nodes inited nodeId) }"

section \<open>Discovery\<close>

text \<open>Up to the given number of attempts, while a ping fails.\<close>

primrec retry_ping :: "'w net \<Rightarrow> string \<Rightarrow> nat \<Rightarrow> int \<Rightarrow> ('w, unit) zact" where
  "retry_ping N nodeId 0 ret = return ()"
| "retry_ping N nodeId (Suc n) ret =
     (if ret \<noteq> 0 then do { ret' \<leftarrow> SendPingRequest N nodeId; retry_ping N nodeId n ret' } else return ())"

definition PerformPingCycle :: "'w net \<Rightarrow> bool \<Rightarrow> ('w, unit) zact" where
  "PerformPingCycle N needRetry = do {
     activeNodes \<leftarrow> gets (\<lambda>z. map fst (filter (\<lambda>(nodeId, node). nodeId \<noteq> z_nodeId z \<and> cn_isActive node) (z_nodes z)));
     for_each activeNodes (\<lambda>nodeId. do {
       ret \<leftarrow> SendPingRequest N nodeId;
       if needRetry then retry_ping N nodeId 3 ret else return () }) }"

definition PerformInitialDiscovery :: "'w net \<Rightarrow> ('w, unit) zact" where
  "PerformInitialDiscovery N = do {
     z \<leftarrow> gets id;
     if z_type z = VOTING_ONLY_NODE then modify (z_state_update (\<lambda>_. MASTER_CANDIDATE))
     else do {
       for_each (z_mNodes z @ [z_mNode z]) (\<lambda>rpcNode. do {
         now \<leftarrow> net_call (net_system N);
         modify (z_nodes_update (map_assign (rn_name rpcNode)
           \<lparr>cn_id = rn_name rpcNode, cn_ip = rn_ip rpcNode, cn_port = rn_port rpcNode, cn_isMaster = False,
            cn_lastSeen = now, cn_isActive = True, cn_type = ELIGIBLE_NODE\<rparr>)) });
       modify (z_state_update (\<lambda>_. MASTER_CANDIDATE)) } }"

definition ModifyNodeList :: "('w, unit) zact" where
  "ModifyNodeList = modify (\<lambda>z. z\<lparr>z_nodes := map (\<lambda>(nodeId, node).
     (nodeId, if nodeId = z_nodeId z then node\<lparr>cn_isActive := True, cn_isMaster := True\<rparr>
        else node\<lparr>cn_isActive := nodeId \<in> set (joinsReceived (z_election z)), cn_isMaster := False\<rparr>)) (z_nodes z)\<rparr>)"

definition HandleAllJoined :: "('w, unit) zact" where
  "HandleAllJoined = do {
     self \<leftarrow> gets z_nodeId;
     notifyListeners MASTER_ELECTED self [];
     ModifyNodeList;
     nodes \<leftarrow> gets z_nodes;
     for_each nodes (\<lambda>(nodeId, node).
       if cn_isActive node \<and> cn_type node = VOTING_ONLY_NODE then notifyListeners HAVE_JOINED self nodeId else return ());
     modify (z_state_update (\<lambda>_. ELECTED_MASTER)) }"

definition CheckElectionResult :: "'w net \<Rightarrow> int \<Rightarrow> ('w, bool) zact" where
  "CheckElectionResult N startTime = do {
     now \<leftarrow> net_call (net_steady N);
     z \<leftarrow> gets id;
     if now - startTime > sint (z_joinTimeoutMs z) * 1000000 then do {
       (if length (joinsReceived (z_election z)) \<ge> minimum_size z then HandleAllJoined
        else do {
          notifyListeners NODE_DEMOTED (z_nodeId z) [];
          modify (z_state_update (\<lambda>_. MASTER_CANDIDATE)) });
       return True }
     else if length (z_tempNodeList z) \<le> length (joinsReceived (z_election z)) then do { HandleAllJoined; return True }
     else return False }"

definition MaintainAsMaster :: "'w net \<Rightarrow> ('w, unit) zact" where
  "MaintainAsMaster N = do {
     z \<leftarrow> gets id;
     let active = filter (cn_isActive \<circ> snd) (z_nodes z);
     let hasVoteOnlyNode = (\<exists>entry \<in> set active. cn_type (snd entry) = VOTING_ONLY_NODE);
     if int (length active) + 1 < sint (z_minimumMasterNodes z) then StepDownAsMaster
     else do {
       (if hasVoteOnlyNode then return ()
        else case map_of (z_nodes z) (GetBiggestNodeId z) of
          Some node \<Rightarrow> modify (z_nodes_update (map_assign (GetBiggestNodeId z) (node\<lparr>cn_type := VOTING_ONLY_NODE\<rparr>)))
        | None \<Rightarrow> return ());
       nodesSnapshot \<leftarrow> gets z_nodes;
       for_each nodesSnapshot (\<lambda>(nodeId, node).
         if nodeId \<noteq> z_nodeId z \<and> cn_isActive node then do { SendBroadcastRequest N nodesSnapshot nodeId; return () }
         else return ()) } }"

definition MaintainAsClusterMember :: "('w, unit) zact" where
  "MaintainAsClusterMember = do {
     z \<leftarrow> gets id;
     if z_electedMaster z = [] then modify (z_state_update (\<lambda>_. INITIAL))
     else if (case map_of (z_nodes z) (z_electedMaster z) of Some node \<Rightarrow> cn_isActive node | None \<Rightarrow> False) then return ()
     else modify (\<lambda>z. z\<lparr>z_state := INITIAL, z_electedMaster := []\<rparr>) }"

definition GetVoteOnlyNode :: "'w zen \<Rightarrow> string option" where
  "GetVoteOnlyNode z = map_option (cn_id \<circ> snd)
     (find (\<lambda>entry. cn_isActive (snd entry) \<and> cn_type (snd entry) = VOTING_ONLY_NODE) (z_nodes z))"

end
