(* ===== verification/Zen_Election.thy ===== *)
theory Zen_Election
  imports Zen_Discovery
begin

text \<open>
  Elections as runs of one node.  The handlers of \<^verbatim>\<open>mxm_shm/rpc_handler.cpp\<close> for the requests of other
  nodes, \<^verbatim>\<open>ElectionModule::RunElection\<close> and \<^verbatim>\<open>ZenDiscovery::InviteNodesToJoin\<close> cut where they wait, and the
  labelled relation \<open>zen_step\<close>, in which the threads of a node and the requests of other nodes take turns.
  The invariant \<open>quorum\<close> ties the state of the node to the nodes that joined it.
\<close>

section \<open>Handlers of requests from other nodes\<close>

definition PingRequestInfo :: "'w net \<Rightarrow> PingRequest \<Rightarrow> RpcQueryInfoResponse \<Rightarrow> ('w, int \<times> RpcQueryInfoResponse) zact" where
  "PingRequestInfo N req rsp = do {
     HandlePingRequest N (PingReq_nodeId req);
     name \<leftarrow> gets (rn_name \<circ> z_mNode);
     return (0, rsp\<lparr>RpcQueryInfoResp_errCode := 0, RpcQueryInfoResp_name := name\<rparr>) }"

definition JoinRequestInfo :: "'w net \<Rightarrow> PingRequest \<Rightarrow> RpcJoinInfoResponse \<Rightarrow> ('w, int \<times> RpcJoinInfoResponse) zact" where
  "JoinRequestInfo N req rsp = do {
     HandleJoinRequest N (PingReq_nodeId req);
     type \<leftarrow> gets z_type;
     return (0, rsp\<lparr>RpcJoinInfoResp_errCode := 0, RpcJoinInfoResp_nodetype := type\<rparr>) }"

definition VoteRequestInfo :: "VoteRequest \<Rightarrow> RpcVoteInfoResponse \<Rightarrow> ('w, int \<times> RpcVoteInfoResponse) zact" where
  "VoteRequestInfo req rsp = do {
     granted \<leftarrow> HandleVoteRequest (VoteReq_nodeId req) (VoteReq_masterNode req) (VoteReq_term req);
     name \<leftarrow> gets (rn_name \<circ> z_mNode);
     return (0, rsp\<lparr>RpcVoteInfoResp_errCode := 0, RpcVoteInfoResp_name := name, RpcVoteInfoResp_isGranted := granted\<rparr>) }"

text \<open>The third result is the call of \<^verbatim>\<open>BecomeTempMaster\<close> that runs before the response is sent.\<close>

definition SendTransElectedInfo ::
    "TransElectedRequest \<Rightarrow> RpcQueryInfoResponse \<Rightarrow> ('w, int \<times> RpcQueryInfoResponse \<times> becoming) zact" where
  "SendTransElectedInfo req rsp = do {
     call \<leftarrow> HandleSendTransElected (TransElectedReq_nodeId req) (TransElectedReq_nodes req) (TransElectedReq_term req);
     return (0, rsp\<lparr>RpcQueryInfoResp_errCode := 0,
       RpcQueryInfoResp_name := ''Transfer Master Elected Notification Processed''\<rparr>, call) }"

definition MasterElectedInfo :: "VoteRequest \<Rightarrow> RpcQueryInfoResponse \<Rightarrow> ('w, int \<times> RpcQueryInfoResponse) zact" where
  "MasterElectedInfo req rsp =
     return (0, rsp\<lparr>RpcQueryInfoResp_errCode := 0, RpcQueryInfoResp_name := ''Master Elected Notification Processed''\<rparr>)"

definition BroadCastRequestInfo ::
    "BroadcastRequest \<Rightarrow> RpcQueryInfoResponse \<Rightarrow> ('w, int \<times> RpcQueryInfoResponse) zact" where
  "BroadCastRequestInfo req rsp = do {
     HandleBroadCastRequest (BroadcastReq_nodeId req) (BroadcastReq_nodes req) (BroadcastReq_isSeverInited req);
     return (0, rsp\<lparr>RpcQueryInfoResp_errCode := 0, RpcQueryInfoResp_name := ''Broadcast Request Processed''\<rparr>) }"

section \<open>Threads\<close>

text \<open>
  Where the threads of a node are.  The discovery thread is at its first ping, between two rounds,
  at a round for the state it has read, waiting for joins since a time, or waiting for the requests it has started; the
  election thread is between two rounds, about to run an election, waiting for votes for a temporary master since a
  time, or in \<^verbatim>\<open>BecomeTempMaster\<close>.  \<open>nr_becoming\<close> are the handlers that are in \<^verbatim>\<open>BecomeTempMaster\<close>.
\<close>

datatype discovery_thread = Not_Started | First_Ping | Discovering | Chosen NodeState | Inviting int | Closing

datatype election_thread = Idle | Candidate | Voting string NodeCollections int | Becoming becoming

record 'w node_run =
  nr_zen :: "'w zen"
  nr_discovery :: discovery_thread
  nr_election :: election_thread
  nr_joining :: "string list"
  nr_becoming :: "becoming list"

text \<open>\<^verbatim>\<open>RunElection\<close> up to the first look at the votes.\<close>

definition voters :: "NodeCollections \<Rightarrow> string list" where
  "voters c = (if voteOnlyNode c \<noteq> [] then insort_insert (voteOnlyNode c) (masterCandidates c) else masterCandidates c)"

definition begin_voting :: "'w net \<Rightarrow> string \<Rightarrow> NodeCollections \<Rightarrow> ('w, election_thread) zact" where
  "begin_voting N tempMaster collections = do {
     start \<leftarrow> net_call (net_steady N);
     self \<leftarrow> gets z_nodeId;
     RecordVote self;
     for_each (voters collections) (\<lambda>nodeId.
       if nodeId \<noteq> self then do {
         newTerm \<leftarrow> gets (currentTerm \<circ> z_election);
         SendVoteRequest N nodeId tempMaster newTerm;
         return () }
       else return ());
     return (Voting tempMaster collections start) }"

definition RunElection :: "'w net \<Rightarrow> ('w, election_thread) zact" where
  "RunElection N = do {
     running \<leftarrow> gets (electionInProgress \<circ> z_election);
     if running then return Idle
     else do {
       modify (z_election_update (\<lambda>e. e\<lparr>electionInProgress := True, currentTerm := currentTerm e + 1, votesReceived := []\<rparr>));
       notifyListeners ELECTION_STARTED [] [];
       z \<leftarrow> gets id;
       let collections = CollectNodeInfo z;
       if length (masterCandidates collections) < minimum_size z then do {
         modify (z_election_update (electionInProgress_update (\<lambda>_. False)));
         notifyListeners ELECTION_FAILED [] [];
         return Idle }
       else begin_voting N (SelectTemporaryMaster collections) collections } }"

text \<open>One look at the votes, as in the loop of \<^verbatim>\<open>ConductVoting\<close>: no result while they are awaited.\<close>

definition ConductVoting :: "'w net \<Rightarrow> int \<Rightarrow> ('w, bool option) zact" where
  "ConductVoting N start = do {
     running \<leftarrow> gets (electionInProgress \<circ> z_election);
     if \<not> running then return (Some True)
     else do {
       now \<leftarrow> net_call (net_steady N);
       z \<leftarrow> gets id;
       if now - start > sint (z_electionTimeoutMs z) * 1000000 then return (Some False)
       else if length (votesReceived (z_election z)) \<ge> minimum_size z then return (Some True)
       else return None } }"

text \<open>Up to the call of \<^verbatim>\<open>BecomeTempMaster\<close>, if there is one; then the end of \<^verbatim>\<open>RunElection\<close>.\<close>

definition ProcessVotingResults :: "'w net \<Rightarrow> string \<Rightarrow> string list \<Rightarrow> ('w, becoming) zact" where
  "ProcessVotingResults N tempMaster candidates = do {
     votesCount \<leftarrow> gets (length \<circ> votesReceived \<circ> z_election);
     notifyListeners VOTING_COMPLETED [] [];
     z \<leftarrow> gets id;
     if votesCount < minimum_size z then do { notifyListeners ELECTION_FAILED [] []; return Returned }
     else if tempMaster \<noteq> z_nodeId z then do {
       SendTransElectedRequest N candidates tempMaster (currentTerm (z_election z));
       modify (z_election_update (em_electedMaster_update (\<lambda>_. tempMaster)));
       return Returned }
     else return (Called candidates) }"

definition finish_election :: "becoming \<Rightarrow> ('w, election_thread) zact" where
  "finish_election call =
     (if call = Returned then do {
        modify (z_election_update (electionInProgress_update (\<lambda>_. False)));
        return Idle }
      else return (Becoming call))"

definition poll_votes :: "'w net \<Rightarrow> string \<Rightarrow> NodeCollections \<Rightarrow> int \<Rightarrow> ('w, election_thread) zact" where
  "poll_votes N tempMaster collections start = do {
     result \<leftarrow> ConductVoting N start;
     case result of
       None \<Rightarrow> return (Voting tempMaster collections start)
     | Some isSuccess \<Rightarrow> do {
         call \<leftarrow> (if isSuccess then ProcessVotingResults N tempMaster (masterCandidates collections) else return Returned);
         finish_election call } }"

definition continue_election :: "becoming \<Rightarrow> ('w, election_thread) zact" where
  "continue_election call = do { call \<leftarrow> BecomeTempMaster call; finish_election call }"

definition BroadcastElectionResult :: "'w net \<Rightarrow> string \<Rightarrow> ('w, unit) zact" where
  "BroadcastElectionResult N master = do {
     z \<leftarrow> gets id;
     for_each (map snd (z_nodes z)) (\<lambda>node.
       if cn_id node \<noteq> z_nodeId z then do {
         newTerm \<leftarrow> gets (currentTerm \<circ> z_election);
         SendMasterElected N (cn_id node) master newTerm;
         return () }
       else return ());
     modify (z_election_update (em_electedMaster_update (\<lambda>_. master))) }"

text \<open>\<^verbatim>\<open>InviteNodesToJoin\<close> up to its first look at the joins; the requests run on their own.\<close>

definition InviteNodesToJoin :: "'w net \<Rightarrow> ('w, string list \<times> int) zact" where
  "InviteNodesToJoin N = do {
     ClearJoinsReceived;
     z \<leftarrow> gets id;
     AddJoinsReceived (z_nodeId z);
     start \<leftarrow> net_call (net_steady N);
     return (filter (\<lambda>nodeId. nodeId \<noteq> z_nodeId z) (z_tempNodeList z), start) }"

text \<open>The branch of \<^verbatim>\<open>DiscoveryLoop\<close> for a state, the invitation apart.\<close>

definition discovery_round :: "'w net \<Rightarrow> NodeState \<Rightarrow> ('w, unit) zact" where
  "discovery_round N st =
     (case st of
       INITIAL \<Rightarrow> PerformInitialDiscovery N
     | ELECTED_MASTER \<Rightarrow> MaintainAsMaster N
     | JOINED_CLUSTER \<Rightarrow> MaintainAsClusterMember
     | _ \<Rightarrow> return ())"

definition act :: "('w, 'a) zact \<Rightarrow> 'w node_run \<Rightarrow> 'w node_run" where
  "act m s = s\<lparr>nr_zen := snd (run_state m (nr_zen s))\<rparr>"

definition Start :: "('w, unit) zact" where
  "Start = modify (z_state_update (\<lambda>_. INITIAL))"

definition first_ping :: "'w net \<Rightarrow> ('w, unit) zact" where
  "first_ping N = do { PerformInitialDiscovery N; PerformPingCycle N True }"

text \<open>\<^verbatim>\<open>ListenerLoop\<close> takes the oldest event; what the listeners do with it is outside.\<close>

definition take_event :: "('w, unit) zact" where
  "take_event = modify (z_election_update (listenerQueue_update tl))"

text \<open>
  Requests of other nodes come at any time and with any contents.  The loops of the threads are cut where they sleep and
  after they have read the state, \<^verbatim>\<open>BecomeTempMaster\<close> is cut after each statement, and a request to join is a
  step of its own; every other method is one step.  A step is labelled when it takes an election over from
  another node, with the nodes it names, and when an invitation starts after some thread has set the state
  \<^verbatim>\<open>TEMP_MASTER\<close> but before that thread has stored its list of nodes.
\<close>

datatype event = Handed_over "string list" | Torn | Quiet

definition unstored :: "becoming \<Rightarrow> bool" where
  "unstored call = (case call of Claimed _ \<Rightarrow> True | Named _ \<Rightarrow> True | _ \<Rightarrow> False)"

definition storing :: "'w node_run \<Rightarrow> bool" where
  "storing s \<longleftrightarrow> list_ex unstored (nr_becoming s) \<or> (case nr_election s of Becoming call \<Rightarrow> unstored call | _ \<Rightarrow> False)"

definition advance :: "becoming \<Rightarrow> becoming list" where
  "advance call = (if call = Returned then [] else [call])"

inductive zen_step :: "'w net \<Rightarrow> event \<Rightarrow> 'w node_run \<Rightarrow> 'w node_run \<Rightarrow> bool" for N :: "'w net" where
  ping: "zen_step N Quiet s (act (PingRequestInfo N req rsp) s)"
| join: "zen_step N Quiet s (act (JoinRequestInfo N req rsp') s)"
| vote: "zen_step N Quiet s (act (VoteRequestInfo vreq vrsp) s)"
| hand_over: "run_state (SendTransElectedInfo treq rsp) (nr_zen s) = ((ret, rsp', call), z) \<Longrightarrow>
    zen_step N (Handed_over (TransElectedReq_nodes treq)) s (s\<lparr>nr_zen := z, nr_becoming := nr_becoming s @ advance call\<rparr>)"
| become: "nr_becoming s = before @ call # after \<Longrightarrow> run_state (BecomeTempMaster call) (nr_zen s) = (call', z) \<Longrightarrow>
    zen_step N Quiet s (s\<lparr>nr_zen := z, nr_becoming := before @ advance call' @ after\<rparr>)"
| elected: "zen_step N Quiet s (act (MasterElectedInfo vreq rsp) s)"
| broadcast: "zen_step N Quiet s (act (BroadCastRequestInfo breq rsp) s)"
| start: "nr_discovery s = Not_Started \<Longrightarrow> zen_step N Quiet s ((act Start s)\<lparr>nr_discovery := First_Ping\<rparr>)"
| first: "nr_discovery s = First_Ping \<Longrightarrow> zen_step N Quiet s ((act (first_ping N) s)\<lparr>nr_discovery := Discovering\<rparr>)"
| ping_cycle: "nr_discovery s \<noteq> Not_Started \<Longrightarrow> nr_discovery s \<noteq> First_Ping \<Longrightarrow> zen_step N Quiet s (act (PerformPingCycle N False) s)"
| choose: "nr_discovery s = Discovering \<Longrightarrow> zen_step N Quiet s (s\<lparr>nr_discovery := Chosen (z_state (nr_zen s))\<rparr>)"
| discover: "nr_discovery s = Chosen st \<Longrightarrow> st \<noteq> TEMP_MASTER \<Longrightarrow>
    zen_step N Quiet s ((act (discovery_round N st) s)\<lparr>nr_discovery := Discovering\<rparr>)"
| invite: "nr_discovery s = Chosen TEMP_MASTER \<Longrightarrow>
    run_state (InviteNodesToJoin N) (nr_zen s) = ((invited, startTime), z) \<Longrightarrow>
    zen_step N (if storing s then Torn else Quiet) s
      (s\<lparr>nr_zen := z, nr_discovery := Inviting startTime, nr_joining := invited\<rparr>)"
| ask_to_join: "nodeId \<in> set (nr_joining s) \<Longrightarrow>
    zen_step N Quiet s ((act (SendJoinRequest N nodeId) s)\<lparr>nr_joining := remove1 nodeId (nr_joining s)\<rparr>)"
| check_joins: "nr_discovery s = Inviting startTime \<Longrightarrow> run_state (CheckElectionResult N startTime) (nr_zen s) = (over, z) \<Longrightarrow>
    zen_step N Quiet s (s\<lparr>nr_zen := z, nr_discovery := (if over then Closing else Inviting startTime)\<rparr>)"
| close: "nr_discovery s = Closing \<Longrightarrow> nr_joining s = [] \<Longrightarrow> zen_step N Quiet s (s\<lparr>nr_discovery := Discovering\<rparr>)"
| stand: "nr_discovery s \<noteq> Not_Started \<Longrightarrow> nr_discovery s \<noteq> First_Ping \<Longrightarrow> nr_election s = Idle \<Longrightarrow>
    z_state (nr_zen s) = MASTER_CANDIDATE \<Longrightarrow> zen_step N Quiet s (s\<lparr>nr_election := Candidate\<rparr>)"
| elect: "nr_election s = Candidate \<Longrightarrow> run_state (RunElection N) (nr_zen s) = (t, z) \<Longrightarrow>
    zen_step N Quiet s (s\<lparr>nr_zen := z, nr_election := t\<rparr>)"
| count_votes: "nr_election s = Voting m c startTime \<Longrightarrow> run_state (poll_votes N m c startTime) (nr_zen s) = (t, z) \<Longrightarrow>
    zen_step N Quiet s (s\<lparr>nr_zen := z, nr_election := t\<rparr>)"
| become_own: "nr_election s = Becoming call \<Longrightarrow> run_state (continue_election call) (nr_zen s) = (t, z) \<Longrightarrow>
    zen_step N Quiet s (s\<lparr>nr_zen := z, nr_election := t\<rparr>)"
| listen: "zen_step N Quiet s (act take_event s)"
| outside: "zen_step N Quiet s (s\<lparr>nr_zen := (nr_zen s)\<lparr>z_world := w\<rparr>\<rparr>)"

text \<open>A run with the events of its steps.\<close>

inductive zen_run :: "'w net \<Rightarrow> 'w node_run \<Rightarrow> event list \<Rightarrow> 'w node_run \<Rightarrow> bool" for N :: "'w net" and s :: "'w node_run" where
  run_init: "zen_run N s [] s"
| run_step: "zen_run N s tr s' \<Longrightarrow> zen_step N l s' s'' \<Longrightarrow> zen_run N s (tr @ [l]) s''"

text \<open>A node as \<^verbatim>\<open>ZenDiscovery::Initialize\<close> makes it, with the node list of the configuration.\<close>

definition new_ElectionModule :: ElectionModule where
  "new_ElectionModule = \<lparr>electionInProgress = False, currentTerm = 0, em_electedMaster = [], votesReceived = [],
     joinsReceived = [], listenerQueue = []\<rparr>"

definition new_ZenDiscovery :: "u32 \<Rightarrow> u32 \<Rightarrow> u32 \<Rightarrow> RpcNode list \<Rightarrow> RpcNode \<Rightarrow> 'w \<Rightarrow> 'w zen" where
  "new_ZenDiscovery joinTimeoutMs electionTimeoutMs minimumMasterNodes mNodes mNode w =
     \<lparr>z_nodeId = rn_name mNode, z_joinTimeoutMs = joinTimeoutMs, z_electionTimeoutMs = electionTimeoutMs,
      z_minimumMasterNodes = minimumMasterNodes, z_state = UNINITIALIZED, z_type = ELIGIBLE_NODE, z_masterNodeToJoin = [],
      z_electedMaster = [], z_tempNodeList = [], z_nodes = [], z_election = new_ElectionModule,
      z_mNodes = mNodes, z_mNode = mNode, z_world = w\<rparr>"

definition new_node :: "'w zen \<Rightarrow> 'w node_run" where
  "new_node z = \<lparr>nr_zen = z, nr_discovery = Not_Started, nr_election = Idle, nr_joining = [], nr_becoming = []\<rparr>"

section \<open>What the actions leave alone\<close>

definition standing :: "'w zen \<Rightarrow> string \<times> u32 \<times> NodeState \<times> string list \<times> string list" where
  "standing z = (z_nodeId z, z_minimumMasterNodes z, z_state z, z_tempNodeList z, joinsReceived (z_election z))"

locale zen_client =
  fixes I :: "'w zen \<Rightarrow> bool"
  assumes standing_law: "standing z' = standing z \<Longrightarrow> I z \<Longrightarrow> I z'"
    and demote_law: "st \<noteq> TEMP_MASTER \<Longrightarrow> st \<noteq> ELECTED_MASTER \<Longrightarrow> I z \<Longrightarrow> I (z\<lparr>z_state := st\<rparr>)"
begin

lemma keeps_standing: "(\<And>z. standing (f z) = standing z) \<Longrightarrow> keeps I (modify f)"
  by (rule keeps_modify) (rule standing_law)

lemma keeps_net_call: "keeps I (net_call f)"
  by (rule tripleI) (auto simp: net_call_def standing_def split: prod.split elim!: standing_law[rotated])

lemma keeps_state: "st \<noteq> TEMP_MASTER \<Longrightarrow> st \<noteq> ELECTED_MASTER \<Longrightarrow> (\<And>z. standing (f z) = standing (z\<lparr>z_state := st\<rparr>)) \<Longrightarrow>
    keeps I (modify f)"
  using demote_law standing_law by (metis keeps_modify)

lemma keeps_notify: "keeps I (notifyListeners e m v)"
  unfolding notifyListeners_def by (rule keeps_standing) (simp add: standing_def)

lemma keeps_term: "keeps I (SetCurrentTerm t)"
  unfolding SetCurrentTerm_def by (rule keeps_standing) (simp add: standing_def)

lemma keeps_vote: "keeps I (RecordVote n)"
  unfolding RecordVote_def by (rule keeps_standing) (simp add: standing_def)

lemma keeps_seen: "keeps I (UpdateNodeLastSeen N n)"
  unfolding UpdateNodeLastSeen_def by (intro keeps_intros keeps_net_call keeps_standing) (simp_all add: standing_def)

lemma keeps_mark: "keeps I (MarkNodeActive n b)"
  unfolding MarkNodeActive_def by (intro keeps_intros keeps_standing) (simp_all add: standing_def)

lemma keeps_step_down: "keeps I StepDownAsMaster"
  unfolding StepDownAsMaster_def by (intro keeps_intros keeps_notify keeps_state[of MASTER_CANDIDATE]) (simp_all add: standing_def)

lemmas keeps_node = keeps_intros keeps_net_call keeps_notify keeps_term keeps_vote keeps_seen keeps_mark keeps_step_down

lemma keeps_connect: "keeps I (ConnectToRpcNode N n)"
  unfolding ConnectToRpcNode_def by (intro keeps_node)

lemma keeps_ping_failed: "keeps I (ping_failed N n r)"
  unfolding ping_failed_def by (intro keeps_node keeps_standing) (simp add: standing_def)

lemma keeps_send_ping: "keeps I (SendPingRequest N n)"
  unfolding SendPingRequest_def by (intro keeps_node keeps_connect keeps_ping_failed)

lemma keeps_send_vote: "keeps I (SendVoteRequest N n m t)"
  unfolding SendVoteRequest_def HandleVoteResponse_def by (intro keeps_node keeps_connect)

lemma keeps_send_others: "keeps I (SendTransElectedRequest N ns m t)" "keeps I (SendBroadcastRequest N es n)"
  unfolding SendTransElectedRequest_def SendBroadcastRequest_def by (intro keeps_node keeps_connect)+

lemma keeps_retry_ping: "keeps I (retry_ping N n k r)"
  by (induction k arbitrary: r) (auto intro!: keeps_intros keeps_send_ping)

lemma keeps_ping_cycle: "keeps I (PerformPingCycle N b)"
  unfolding PerformPingCycle_def by (intro keeps_node keeps_send_ping keeps_retry_ping)

lemma keeps_initial: "keeps I (PerformInitialDiscovery N)"
  unfolding PerformInitialDiscovery_def
  by (intro keeps_node) (rule keeps_state[of MASTER_CANDIDATE] keeps_standing; simp add: standing_def)+

lemma keeps_requests:
  "keeps I (PingRequestInfo N req rsp)" "keeps I (JoinRequestInfo N req rsp')" "keeps I (VoteRequestInfo vreq vrsp)"
  "keeps I (MasterElectedInfo vreq rsp)"
  unfolding PingRequestInfo_def JoinRequestInfo_def VoteRequestInfo_def MasterElectedInfo_def HandlePingRequest_def
    HandleJoinRequest_def HandleVoteRequest_def
  by (intro keeps_node)+

lemma keeps_broadcast: "keeps I (BroadCastRequestInfo breq rsp)"
  unfolding BroadCastRequestInfo_def HandleBroadCastRequest_def broadcast_node_def
  by (intro keeps_node) (rule keeps_standing keeps_state[of JOINED_CLUSTER]; simp add: standing_def)+

lemma keeps_hand_over: "keeps I (SendTransElectedInfo treq rsp)"
  unfolding SendTransElectedInfo_def HandleSendTransElected_def by (intro keeps_node)

lemma keeps_discovery_round: "keeps I (discovery_round N st)"
proof -
  have "keeps I (MaintainAsMaster N)"
    unfolding MaintainAsMaster_def by (intro keeps_node keeps_send_others) (rule keeps_standing; simp add: standing_def)+
  moreover have "keeps I MaintainAsClusterMember"
    unfolding MaintainAsClusterMember_def by (intro keeps_node) (rule keeps_state[of INITIAL]; simp add: standing_def)+
  ultimately show ?thesis
    unfolding discovery_round_def by (auto split: NodeState.split intro: keeps_return keeps_initial)
qed

lemma keeps_run_election: "keeps I (RunElection N)"
  unfolding RunElection_def begin_voting_def
  by (intro keeps_node keeps_send_vote) (rule keeps_standing; simp add: standing_def)+

lemma keeps_finish: "keeps I (finish_election call)"
  unfolding finish_election_def by (intro keeps_node keeps_standing) (simp add: standing_def)

lemma keeps_poll_votes: "keeps I (poll_votes N m c start)"
  unfolding poll_votes_def ConductVoting_def ProcessVotingResults_def
  by (intro keeps_node keeps_send_others keeps_finish keeps_standing) (simp add: standing_def)

lemma keeps_small_steps: "keeps I Start" "keeps I (first_ping N)" "keeps I take_event"
  unfolding Start_def first_ping_def take_event_def
  by (intro keeps_state[of INITIAL] keeps_intros keeps_initial keeps_ping_cycle keeps_standing; simp add: standing_def)+

end

section \<open>The quorum\<close>

abbreviation joins :: "'w zen \<Rightarrow> string list" where
  "joins z \<equiv> joinsReceived (z_election z)"

definition inviting :: "discovery_thread \<Rightarrow> bool" where
  "inviting d = (case d of Inviting _ \<Rightarrow> True | _ \<Rightarrow> False)"

text \<open>
  What a node keeps while its discovery thread is at \<open>d\<close> and \<open>p\<close> says that a list of nodes is still to be stored.
  \<open>g\<close> says that the run has been regular: no list that was handed over is short, no invitation was torn.
\<close>

definition zen_quorum :: "bool \<Rightarrow> discovery_thread \<Rightarrow> bool \<Rightarrow> nat \<Rightarrow> 'w zen \<Rightarrow> bool" where
  "zen_quorum g d p k z \<longleftrightarrow> minimum_size z = k \<and> distinct (joins z) \<and>
     (z_state z = ELECTED_MASTER \<longrightarrow> z_nodeId z \<in> set (joins z) \<and> (g \<longrightarrow> k \<le> length (joins z))) \<and>
     (inviting d \<longrightarrow> z_nodeId z \<in> set (joins z) \<and> (g \<longrightarrow> k \<le> length (z_tempNodeList z))) \<and>
     (d = Chosen TEMP_MASTER \<longrightarrow> z_state z \<noteq> ELECTED_MASTER) \<and>
     (g \<and> (z_state z = TEMP_MASTER \<or> d = Chosen TEMP_MASTER) \<longrightarrow> k \<le> length (z_tempNodeList z) \<or> p)"

fun call_ok :: "nat \<Rightarrow> becoming \<Rightarrow> bool" where
  "call_ok k (Called cs) \<longleftrightarrow> k \<le> length cs"
| "call_ok k (Passed cs) \<longleftrightarrow> k \<le> length cs"
| "call_ok k (Claimed cs) \<longleftrightarrow> k \<le> length cs"
| "call_ok k (Named cs) \<longleftrightarrow> k \<le> length cs"
| "call_ok k Returned \<longleftrightarrow> True"

fun candidates_ok :: "nat \<Rightarrow> election_thread \<Rightarrow> bool" where
  "candidates_ok k (Voting m c startTime) \<longleftrightarrow> k \<le> length (masterCandidates c)"
| "candidates_ok k (Becoming call) \<longleftrightarrow> call_ok k call"
| "candidates_ok k _ \<longleftrightarrow> True"

definition quorum :: "bool \<Rightarrow> nat \<Rightarrow> 'w node_run \<Rightarrow> bool" where
  "quorum g k s \<longleftrightarrow> zen_quorum g (nr_discovery s) (storing s) k (nr_zen s) \<and> candidates_ok k (nr_election s) \<and>
     (g \<longrightarrow> list_all (call_ok k) (nr_becoming s))"

text \<open>The two events after which an elected master may lack a quorum.\<close>

fun irregular :: "nat \<Rightarrow> event \<Rightarrow> bool" where
  "irregular k (Handed_over nodes) \<longleftrightarrow> length nodes < k"
| "irregular k Torn \<longleftrightarrow> True"
| "irregular k Quiet \<longleftrightarrow> False"

lemma length_insort_insert: "length xs \<le> length (insort_insert x xs)"
  by (simp add: insort_insert_key_def)

lemma distinct_insort_insert': "distinct xs \<Longrightarrow> distinct (insort_insert x xs)"
  by (simp add: insort_insert_key_def distinct_insort)

interpretation quorum_kept: zen_client "zen_quorum g d p k"
proof
  fix z z' :: "'a zen"
  assume "standing z' = standing z" "zen_quorum g d p k z"
  then show "zen_quorum g d p k z'"
    by (simp add: standing_def zen_quorum_def minimum_size_def)
next
  fix st and z :: "'a zen"
  assume "st \<noteq> TEMP_MASTER" "st \<noteq> ELECTED_MASTER" "zen_quorum g d p k z"
  then show "zen_quorum g d p k (z\<lparr>z_state := st\<rparr>)"
    by (auto simp: zen_quorum_def minimum_size_def)
qed

text \<open>The nodes that have joined, which a step may only extend by what it was answered.\<close>

interpretation joins_kept: zen_client "\<lambda>z. joins z = J \<and> z_nodeId z = self"
  by unfold_locales (simp_all add: standing_def)

lemma become_quorum:
  assumes "run_state (BecomeTempMaster call) z = (call', z')" and "zen_quorum g d (unstored call \<or> p) k z" and "g \<Longrightarrow> call_ok k call"
  shows "zen_quorum g d (unstored call' \<or> p) k z'"
  using assms by (cases call) (auto simp: unstored_def zen_quorum_def minimum_size_def split: if_splits)

lemma become_call_ok: "run_state (BecomeTempMaster call) z = (call', z') \<Longrightarrow> call_ok k call \<Longrightarrow> call_ok k call'"
  by (cases call) (auto split: if_splits)

lemma become_joins: "keeps (\<lambda>z. joins z = J \<and> z_nodeId z = self) (BecomeTempMaster call)"
  by (cases call) (auto intro!: keeps_intros keeps_modify)

lemma add_join: "keeps (zen_quorum g d p k) (AddJoinsReceived n)"
  unfolding AddJoinsReceived_def
  by (rule keeps_modify)
    (auto simp: zen_quorum_def minimum_size_def distinct_insort_insert' set_insort_insert
       intro: order_trans[OF _ length_insort_insert])

lemma send_join: "keeps (zen_quorum g d p k) (SendJoinRequest N n)"
  unfolding SendJoinRequest_def
  by (intro keeps_intros quorum_kept.keeps_connect quorum_kept.keeps_net_call add_join quorum_kept.keeps_standing)
    (simp add: standing_def)

text \<open>All have joined: the node becomes master with the nodes that did.\<close>

interpretation enough_kept: zen_client "\<lambda>z. minimum_size z = k \<and> distinct (joins z) \<and> (g \<longrightarrow> k \<le> length (joins z)) \<and>
  z_nodeId z \<in> set (joins z)"
  by unfold_locales (simp_all add: standing_def minimum_size_def)

lemma all_joined:
  "triple (\<lambda>z. minimum_size z = k \<and> distinct (joins z) \<and> (g \<longrightarrow> k \<le> length (joins z)) \<and> z_nodeId z \<in> set (joins z))
     HandleAllJoined (\<lambda>_. zen_quorum g Closing p k)"
  unfolding HandleAllJoined_def ModifyNodeList_def
  by (intro triple_bind[OF keeps_gets] triple_bind[OF enough_kept.keeps_notify] triple_bind[OF enough_kept.keeps_standing]
      triple_bind[OF keeps_for_each] triple_modify enough_kept.keeps_node)
    (simp_all add: standing_def zen_quorum_def minimum_size_def inviting_def)

lemma joins_all_joined: "keeps (\<lambda>z. joins z = J \<and> z_nodeId z = self) HandleAllJoined"
  unfolding HandleAllJoined_def ModifyNodeList_def
  by (intro joins_kept.keeps_node keeps_modify) simp_all

lemma joins_check: "keeps (\<lambda>z. joins z = J \<and> z_nodeId z = self) (CheckElectionResult N t)"
  unfolding CheckElectionResult_def
  by (intro joins_kept.keeps_node joins_all_joined keeps_modify) simp_all

lemma check_quorum:
  "triple (zen_quorum g (Inviting t) p k) (CheckElectionResult N t) (\<lambda>over. zen_quorum g (if over then Closing else Inviting t) p k)"
proof -
  let ?P = "zen_quorum g (Inviting t) p k"
  let ?Q = "\<lambda>over. zen_quorum g (if over then Closing else Inviting t) p k"
  have all: "triple (\<lambda>z'. ?P z' \<and> z = id z') (do { HandleAllJoined; return True }) ?Q"
    if "g \<longrightarrow> k \<le> length (joins z)" for z :: "'a zen"
    by (rule triple_bind[OF triple_conseq[OF all_joined[of k g p] _ _] triple_return])
      (use that in \<open>auto simp: zen_quorum_def inviting_def\<close>)
  have demoted: "triple (\<lambda>z'. ?P z' \<and> z = id z')
      (do { notifyListeners NODE_DEMOTED (z_nodeId z) []; modify (z_state_update (\<lambda>_. MASTER_CANDIDATE)); return True }) ?Q"
    for z :: "'a zen"
    by (rule triple_conseq[where P' = ?P and Q' = "\<lambda>over z. over \<and> ?P z \<and> z_state z = MASTER_CANDIDATE"];
        (intro triple_bind[OF quorum_kept.keeps_notify] triple_bind[OF triple_modify[where Q = "\<lambda>_ z. ?P z \<and> z_state z = MASTER_CANDIDATE"]]
           triple_return)?)
      (auto simp: zen_quorum_def inviting_def minimum_size_def)
  have waiting: "triple (\<lambda>z'. ?P z' \<and> z = id z') (return False) ?Q" for z :: "'a zen"
    by (rule triple_return) simp
  show ?thesis
    unfolding CheckElectionResult_def
  proof (intro triple_bind[OF quorum_kept.keeps_net_call] triple_bind[OF triple_gets])
    fix now and z :: "'a zen"
    show "triple (\<lambda>z'. ?P z' \<and> z = id z')
      (if now - t > sint (z_joinTimeoutMs z) * 1000000 then do {
         (if length (joins z) \<ge> minimum_size z then HandleAllJoined
          else do { notifyListeners NODE_DEMOTED (z_nodeId z) []; modify (z_state_update (\<lambda>_. MASTER_CANDIDATE)) });
         return True }
       else if length (z_tempNodeList z) \<le> length (joins z) then do { HandleAllJoined; return True }
       else return False) ?Q"
    proof (cases "?P z")
      case True
      then have "minimum_size z = k" and "length (z_tempNodeList z) \<le> length (joins z) \<Longrightarrow> g \<longrightarrow> k \<le> length (joins z)"
        by (auto simp: zen_quorum_def inviting_def)
      then show ?thesis
        using all[of z] demoted[of z] waiting[of z] by (auto simp: State_Monad.bind_assoc)
    next
      case False
      then show ?thesis by (auto simp: triple_def)
    qed
  qed
qed

lemma invite_quorum:
  "zen_quorum g (Chosen TEMP_MASTER) p k z \<Longrightarrow> run_state (InviteNodesToJoin N) z = ((invited, t), z') \<Longrightarrow>
     zen_quorum (g \<and> \<not> p) (Inviting t) p k z'"
  by (auto simp: InviteNodesToJoin_def run_bind ClearJoinsReceived_def AddJoinsReceived_def net_call_def split_beta
      zen_quorum_def minimum_size_def insort_insert_key_def inviting_def)

lemma begin_voting_candidates:
  "candidates_ok k (fst (run_state (begin_voting N m c) z)) \<longleftrightarrow> k \<le> length (masterCandidates c)"
  by (simp add: begin_voting_def split_beta)

lemma begin_voting_storing: "fst (run_state (begin_voting N m c) z) \<noteq> Becoming call"
  by (simp add: begin_voting_def split_beta)

lemma minimum_notify: "keeps (\<lambda>z. minimum_size z = k) (notifyListeners e m v)"
  unfolding notifyListeners_def by (rule keeps_modify) (simp add: minimum_size_def)

lemma election_candidates: "triple (\<lambda>z. minimum_size z = k) (RunElection N) (\<lambda>t _. candidates_ok k t)"
proof -
  have choose: "triple (\<lambda>z'. minimum_size z' = k \<and> z = id z')
     (let collections = CollectNodeInfo z in
       if length (masterCandidates collections) < minimum_size z then do {
         modify (z_election_update (electionInProgress_update (\<lambda>_. False)));
         notifyListeners ELECTION_FAILED [] [];
         return Idle }
       else begin_voting N (SelectTemporaryMaster collections) collections) (\<lambda>t _. candidates_ok k t)" for z :: "'a zen"
    by (auto simp: triple_def Let_def begin_voting_candidates split_beta)
  have elect: "triple (\<lambda>z. minimum_size z = k) (do {
       modify (z_election_update (\<lambda>e. e\<lparr>electionInProgress := True, currentTerm := currentTerm e + 1, votesReceived := []\<rparr>));
       notifyListeners ELECTION_STARTED [] [];
       z \<leftarrow> gets id;
       let collections = CollectNodeInfo z;
       if length (masterCandidates collections) < minimum_size z then do {
         modify (z_election_update (electionInProgress_update (\<lambda>_. False)));
         notifyListeners ELECTION_FAILED [] [];
         return Idle }
       else begin_voting N (SelectTemporaryMaster collections) collections }) (\<lambda>t _. candidates_ok k t)"
    by (rule triple_bind[OF keeps_modify triple_bind[OF minimum_notify triple_bind[OF triple_gets choose]]])
      (simp add: minimum_size_def)
  show ?thesis
    unfolding RunElection_def
    by (intro triple_bind[OF keeps_gets] triple_if triple_return elect) simp
qed

lemma election_calls: "fst (run_state (RunElection N) z) \<noteq> Becoming call"
  by (simp add: RunElection_def split_beta Let_def begin_voting_storing)

lemma poll_result:
  "fst (run_state (poll_votes N m c t) z) \<in> {Voting m c t, Idle, Becoming (Called (masterCandidates c))}"
  by (auto simp: poll_votes_def ProcessVotingResults_def finish_election_def split_beta split: option.split)

lemma zen_quorum_weaken: "zen_quorum g d p k z \<Longrightarrow> zen_quorum (g \<and> h) d p k z"
  by (auto simp: zen_quorum_def)

lemma quorum_act: "quorum g k s \<Longrightarrow> (\<And>d p. keeps (zen_quorum g d p k) m) \<Longrightarrow> quorum g k (act m s)"
  by (auto simp: quorum_def act_def storing_def dest: keeps_run)

lemma quorum_move: "quorum g k s \<Longrightarrow> d \<in> {First_Ping, Discovering, Closing, Chosen (z_state (nr_zen s))} \<Longrightarrow>
   quorum g k (s\<lparr>nr_discovery := d\<rparr>)"
  by (auto simp: quorum_def inviting_def storing_def zen_quorum_def)

lemma quorum_minimum: "quorum g k s \<Longrightarrow> minimum_size (nr_zen s) = k"
  by (simp add: quorum_def zen_quorum_def)

text \<open>A step of the election thread that is not within \<^verbatim>\<open>BecomeTempMaster\<close>.\<close>

lemma quorum_elect:
  assumes "quorum g k s" and "run_state m (nr_zen s) = (t, z)" and "\<And>d p. keeps (zen_quorum g d p k) m"
    and "candidates_ok k t" and "\<And>call. nr_election s \<noteq> Becoming call" and "\<And>call. t = Becoming call \<Longrightarrow> \<not> unstored call"
  shows "quorum g k (s\<lparr>nr_zen := z, nr_election := t\<rparr>)"
proof -
  have "storing (s\<lparr>nr_zen := z, nr_election := t\<rparr>) = storing s"
    using assms(5,6) by (auto simp: storing_def split: election_thread.split)
  then show ?thesis
    using keeps_run[OF assms(3), of "nr_discovery s" "storing s" "nr_zen s"] assms(1,2,4) by (simp add: quorum_def)
qed

text \<open>A step of a handler, or of the election thread, within \<^verbatim>\<open>BecomeTempMaster\<close>.\<close>

lemma quorum_become:
  assumes Q: "quorum g k s" and at: "nr_becoming s = before @ call # after"
    and run: "run_state (BecomeTempMaster call) (nr_zen s) = (call', z)"
  shows "quorum g k (s\<lparr>nr_zen := z, nr_becoming := before @ advance call' @ after\<rparr>)"
proof -
  define rest where "rest = storing (s\<lparr>nr_becoming := before @ after\<rparr>)"
  have before: "storing s = (unstored call \<or> rest)" and
    after: "storing (s\<lparr>nr_zen := z, nr_becoming := before @ advance call' @ after\<rparr>) = (unstored call' \<or> rest)"
    by (auto simp: storing_def rest_def at advance_def unstored_def)
  have ok: "g \<Longrightarrow> call_ok k call"
    using Q by (simp add: quorum_def at)
  have "zen_quorum g (nr_discovery s) (unstored call' \<or> rest) k z"
    using become_quorum[OF run _ ok] Q before by (simp add: quorum_def)
  moreover have "g \<longrightarrow> list_all (call_ok k) (before @ advance call' @ after)"
    using Q become_call_ok[OF run, of k] by (simp add: quorum_def at advance_def)
  ultimately show ?thesis
    using Q unfolding quorum_def after by simp
qed

lemma quorum_become_own:
  assumes Q: "quorum g k s" and at: "nr_election s = Becoming call"
    and run: "run_state (continue_election call) (nr_zen s) = (t, z)"
  shows "quorum g k (s\<lparr>nr_zen := z, nr_election := t\<rparr>)"
proof -
  obtain call' z1 where run1: "run_state (BecomeTempMaster call) (nr_zen s) = (call', z1)"
    by fastforce
  define rest where "rest = list_ex unstored (nr_becoming s)"
  have t: "t = (if call' = Returned then Idle else Becoming call')" and z: "z = snd (run_state (finish_election call') z1)"
    using run by (auto simp: continue_election_def run_bind run1 finish_election_def)
  have after: "storing (s\<lparr>nr_zen := z, nr_election := t\<rparr>) = (unstored call' \<or> rest)"
    by (auto simp: storing_def rest_def t unstored_def)
  have ok: "call_ok k call"
    using Q by (simp add: quorum_def at)
  have "zen_quorum g (nr_discovery s) (unstored call' \<or> rest) k z1"
    using become_quorum[OF run1, of g _ rest k] Q ok by (simp add: quorum_def storing_def rest_def at disj_commute)
  then have "zen_quorum g (nr_discovery s) (unstored call' \<or> rest) k z"
    using keeps_run[OF quorum_kept.keeps_finish] z by blast
  moreover have "candidates_ok k t"
    using become_call_ok[OF run1 ok] by (simp add: t)
  ultimately show ?thesis
    using Q unfolding quorum_def after by simp
qed

lemma quorum_hand_over:
  assumes Q: "quorum g k s" and run: "run_state (SendTransElectedInfo treq rsp) (nr_zen s) = ((ret, rsp', call), z)"
  shows "quorum (g \<and> k \<le> length (TransElectedReq_nodes treq)) k (s\<lparr>nr_zen := z, nr_becoming := nr_becoming s @ advance call\<rparr>)"
proof -
  have call: "call = Returned \<or> call = Called (TransElectedReq_nodes treq)"
    using run by (auto simp: SendTransElectedInfo_def HandleSendTransElected_def split_beta split: if_splits)
  then have "storing (s\<lparr>nr_zen := z, nr_becoming := nr_becoming s @ advance call\<rparr>) = storing s"
    by (auto simp: storing_def advance_def unstored_def)
  then show ?thesis
    using Q call keeps_run[OF quorum_kept.keeps_hand_over[of g "nr_discovery s" "storing s" k treq rsp], of "nr_zen s"] run
    by (auto simp: quorum_def advance_def intro: zen_quorum_weaken)
qed

lemma quorum_step:
  assumes "zen_step N l s s'" and Q: "quorum g k s"
  shows "quorum (g \<and> \<not> irregular k l) k s'"
  using assms(1)
proof cases
  case (hand_over treq rsp ret rsp' call z)
  then show ?thesis
    using quorum_hand_over[OF Q hand_over(3)] by (simp add: not_less)
next
  case (become before call after call' z)
  then show ?thesis
    using quorum_become[OF Q become(3,4)] by simp
next
  case (start)
  then show ?thesis
    using quorum_move[OF quorum_act[OF Q quorum_kept.keeps_small_steps(1)]] by simp
next
  case (first)
  then show ?thesis
    using quorum_move[OF quorum_act[OF Q quorum_kept.keeps_small_steps(2)]] by simp
next
  case (discover st)
  then show ?thesis
    using quorum_move[OF quorum_act[OF Q quorum_kept.keeps_discovery_round]] by simp
next
  case (invite invited startTime z)
  then show ?thesis
    using Q invite_quorum[of g "storing s" k "nr_zen s" N invited startTime z] by (auto simp: quorum_def storing_def)
next
  case (ask_to_join nodeId)
  then show ?thesis
    using quorum_act[OF Q send_join] by (simp add: quorum_def storing_def)
next
  case (check_joins startTime over z)
  then have "zen_quorum g (if over then Closing else Inviting startTime) (storing s) k z"
    using tripleD[OF check_quorum[of g startTime "storing s" k N], of "nr_zen s"] Q by (simp add: quorum_def)
  then show ?thesis
    using Q check_joins by (auto simp: quorum_def storing_def)
next
  case (stand)
  then show ?thesis
    using Q by (simp add: quorum_def storing_def)
next
  case (elect t z)
  then have "candidates_ok k t" and "t \<noteq> Becoming call" for call
    using tripleD[OF election_candidates, of "nr_zen s" k N] quorum_minimum[OF Q] election_calls[of N "nr_zen s"] by auto
  then show ?thesis
    using elect quorum_elect[OF Q elect(4) quorum_kept.keeps_run_election] by simp
next
  case (count_votes m c startTime t z)
  then have "t \<in> {Voting m c startTime, Idle, Becoming (Called (masterCandidates c))}" and "k \<le> length (masterCandidates c)"
    using poll_result[of N m c startTime "nr_zen s"] Q by (auto simp: quorum_def)
  then show ?thesis
    using count_votes quorum_elect[OF Q count_votes(4) quorum_kept.keeps_poll_votes] by (auto simp: unstored_def)
next
  case (become_own call t z)
  then show ?thesis
    using quorum_become_own[OF Q become_own(3,4)] by simp
next
  case (outside w)
  then show ?thesis
    using Q by (simp add: quorum_def storing_def zen_quorum_def minimum_size_def)
qed (simp_all add: quorum_act[OF Q] quorum_move[OF Q] quorum_kept.keeps_requests quorum_kept.keeps_broadcast quorum_kept.keeps_ping_cycle
    quorum_kept.keeps_small_steps)

lemma quorum_run: "zen_run N s tr s' \<Longrightarrow> quorum True k s \<Longrightarrow> quorum (\<not> list_ex (irregular k) tr) k s'"
  by (induction rule: zen_run.induct) (auto dest: quorum_step)

lemma quorum_new: "quorum True (unat (scast mmn :: u64)) (new_node (new_ZenDiscovery jt et mmn ns n w))"
  by (simp add: quorum_def zen_quorum_def new_node_def new_ZenDiscovery_def new_ElectionModule_def minimum_size_def
      inviting_def)

text \<open>The smallest identifier is the least of the own one and those of active nodes.\<close>

lemma smallest_fold:
  "fold (\<lambda>(id, node) minId. if id < minId \<and> cn_isActive node then id else minId) nodes (a :: string) =
     fold min (map fst (filter (cn_isActive \<circ> snd) nodes)) a"
  by (induction nodes arbitrary: a) (auto simp: min_def)

lemma smallest_Min:
  "GetSmallestNodeId z = Min (insert (z_nodeId z) (fst ` {entry \<in> set (z_nodes z). cn_isActive (snd entry)}))"
proof -
  have "GetSmallestNodeId z = Min (set (z_nodeId z # map fst (filter (cn_isActive \<circ> snd) (z_nodes z))))"
    unfolding GetSmallestNodeId_def smallest_fold Min.set_eq_fold ..
  then show ?thesis by (simp add: comp_def)
qed

text \<open>Nodes join by answering a request, or by starting the invitation.\<close>

lemma send_join_joins:
  "triple (\<lambda>z. joins z = J \<and> z_nodeId z = self) (SendJoinRequest N n)
     (\<lambda>ret z. joins z = (if ret = 0 then insort_insert n J else J))"
proof -
  have add: "triple (\<lambda>z. joins z = J \<and> z_nodeId z = self) (do { AddJoinsReceived n; return (0::int) })
      (\<lambda>ret z. joins z = (if ret = 0 then insort_insert n J else J))" for J
    by (simp add: triple_def AddJoinsReceived_def)
  have rest: "triple (\<lambda>z. joins z = J \<and> z_nodeId z = self) (return r) (\<lambda>ret z. joins z = (if ret = 0 then insort_insert n J else J))"
    if "r \<noteq> 0" for r :: int
    using that by (simp add: triple_def)
  show ?thesis
    unfolding SendJoinRequest_def
    apply (rule triple_bind[OF joins_kept.keeps_connect])
    apply (rule triple_if, erule rest)
    apply (rule triple_bind[OF joins_kept.keeps_net_call])
    apply (simp only: split_beta)
    apply (rule triple_if, erule rest)
    apply (rule triple_bind[OF keeps_gets])
    apply (rule triple_bind[OF _ add])
    apply (intro keeps_intros keeps_modify)
    apply simp
    done
qed

lemma joins_act: "(\<And>J self. keeps (\<lambda>z. joins z = J \<and> z_nodeId z = self) m) \<Longrightarrow> joins (nr_zen (act m s)) = joins (nr_zen s)"
  using keeps_run[of "\<lambda>z. joins z = joins (nr_zen s) \<and> z_nodeId z = z_nodeId (nr_zen s)" m "nr_zen s"]
  by (simp add: act_def)

lemma joins_run:
  "(\<And>J self. keeps (\<lambda>z. joins z = J \<and> z_nodeId z = self) m) \<Longrightarrow> run_state m z = (r, z') \<Longrightarrow> joins z' = joins z"
  using keeps_run[of "\<lambda>z'. joins z' = joins z \<and> z_nodeId z' = z_nodeId z" m z] by simp

lemma joins_invite: "run_state (InviteNodesToJoin N) z = (r, z') \<Longrightarrow> joins z' = [z_nodeId z]"
  by (auto simp: InviteNodesToJoin_def ClearJoinsReceived_def AddJoinsReceived_def net_call_def split_beta
      insort_insert_key_def)

lemma joins_continue: "keeps (\<lambda>z. joins z = J \<and> z_nodeId z = self) (continue_election call)"
  unfolding continue_election_def by (intro keeps_intros become_joins joins_kept.keeps_finish)

lemma joins_step:
  assumes "zen_step N l s s'"
  shows "set (joins (nr_zen s')) \<subseteq> set (joins (nr_zen s)) \<union> {z_nodeId (nr_zen s)} \<union>
    {n \<in> set (nr_joining s). fst (run_state (SendJoinRequest N n) (nr_zen s)) = 0}"
  using assms
proof cases
  case (hand_over treq rsp ret rsp' call z)
  then show ?thesis
    using joins_run[OF joins_kept.keeps_hand_over hand_over(3)] by auto
next
  case (become before call after call' z)
  then show ?thesis
    using joins_run[OF become_joins become(4)] by auto
next
  case (invite invited startTime z)
  then show ?thesis
    using joins_invite[of N "nr_zen s"] by simp
next
  case (ask_to_join n)
  have "joins (snd (run_state (SendJoinRequest N n) (nr_zen s))) = (if fst (run_state (SendJoinRequest N n) (nr_zen s)) = 0
      then insort_insert n (joins (nr_zen s)) else joins (nr_zen s))"
    using tripleD[OF send_join_joins[of "joins (nr_zen s)" "z_nodeId (nr_zen s)" N n], of "nr_zen s"] by simp
  then show ?thesis
    using ask_to_join by (auto simp: act_def set_insort_insert)
next
  case (check_joins startTime over z)
  then show ?thesis
    using joins_run[OF joins_check check_joins(4)] by auto
next
  case (elect t z)
  then show ?thesis
    using joins_run[OF joins_kept.keeps_run_election elect(4)] by auto
next
  case (count_votes m c startTime t z)
  then show ?thesis
    using joins_run[OF joins_kept.keeps_poll_votes count_votes(4)] by auto
next
  case (become_own call t z)
  then show ?thesis
    using joins_run[OF joins_continue become_own(4)] by auto
qed (auto simp: joins_act joins_kept.keeps_requests joins_kept.keeps_broadcast
    joins_kept.keeps_ping_cycle joins_kept.keeps_discovery_round joins_kept.keeps_small_steps)

section \<open>An election of two nodes\<close>

text \<open>A network in which every request is answered with success and every vote is granted.\<close>

definition sample_net :: "unit net" where
  "sample_net = \<lparr>net_steady = Pair 0, net_system = Pair 0,
     net_uninit = Pair \<lparr>cn_id = [], cn_ip = [], cn_port = 0, cn_isMaster = False, cn_lastSeen = 0, cn_isActive = False,
       cn_type = ELIGIBLE_NODE\<rparr>,
     net_lock_init = Pair False, net_connect = (\<lambda>_. Pair 0), net_ping = (\<lambda>_ _. Pair 0), net_join = (\<lambda>_ _. Pair (0, 0)),
     net_vote = (\<lambda>_ _ _ _. Pair (0, True)), net_trans_elected = (\<lambda>_ _ _ _. Pair 0),
     net_master_elected = (\<lambda>_ _ _ _. Pair 0), net_broadcast = (\<lambda>_ _ _ _. Pair 0)\<rparr>"

definition sample_node :: "unit node_run" where
  "sample_node = new_node (new_ZenDiscovery 5000 5000 2 [\<lparr>rn_name = ''b:2'', rn_ip = ''b'', rn_port = 2\<rparr>]
     \<lparr>rn_name = ''a:1'', rn_ip = ''a'', rn_port = 1\<rparr> ())"

definition sample_zen :: "NodeState \<Rightarrow> string \<Rightarrow> string list \<Rightarrow> ElectionModule \<Rightarrow> unit zen" where
  "sample_zen st master temp e = (nr_zen sample_node)\<lparr>z_state := st, z_electedMaster := master, z_tempNodeList := temp,
     z_election := e,
     z_nodes := [(''a:1'', \<lparr>cn_id = ''a:1'', cn_ip = ''a'', cn_port = 1, cn_isMaster = False, cn_lastSeen = 0,
          cn_isActive = True, cn_type = ELIGIBLE_NODE\<rparr>),
       (''b:2'', \<lparr>cn_id = ''b:2'', cn_ip = ''b'', cn_port = 2, cn_isMaster = False, cn_lastSeen = 0,
          cn_isActive = True, cn_type = ELIGIBLE_NODE\<rparr>)]\<rparr>"

definition sample_election :: "bool \<Rightarrow> string list \<Rightarrow> string list \<Rightarrow> ZenElectionEventType list \<Rightarrow> ElectionModule" where
  "sample_election running votes joined es = \<lparr>electionInProgress = running, currentTerm = 1, em_electedMaster = [],
     votesReceived = votes, joinsReceived = joined,
     listenerQueue = map (\<lambda>e. \<lparr>lp_event = e, lp_masterId = [], lp_voteOnlyId = []\<rparr>) es\<rparr>"

abbreviation sample_collections :: NodeCollections where
  "sample_collections \<equiv> \<lparr>activeMasters = [], masterCandidates = [''a:1'', ''b:2''], voteOnlyNode = []\<rparr>"

lemma sample_zen_state [simp]: "z_state (sample_zen st m temp e) = st"
  by (simp add: sample_zen_def)

lemma parse_sample: "ParseRpcNodeFromId ''b:2'' = (0, \<lparr>rn_name = ''b:2'', rn_ip = ''b'', rn_port = 2\<rparr>)"
  by (simp add: ParseRpcNodeFromId_def StrToUint_def strtoul_def c_str_def is_digit_def is_space_def digits_value_def err_codes
      Let_def)

lemmas sample_eval = sample_net_def net_call_def sample_node_def sample_zen_def sample_election_def new_node_def new_ZenDiscovery_def
  new_ElectionModule_def split_beta map_assign_def map_emplace_def less_char_def VOTING_ONLY_NODE_def ELIGIBLE_NODE_def
  parse_sample ConnectToRpcNode_def UBSM_OK_def UpdateNodeLastSeen_def MarkNodeActive_def notifyListeners_def RecordVote_def
  AddJoinsReceived_def ClearJoinsReceived_def insort_insert_key_def minimum_size_def Let_def

lemma sample_first:
  "run_state (first_ping sample_net) (nr_zen (act Start sample_node)) = ((), sample_zen MASTER_CANDIDATE [] [] new_ElectionModule)"
  by (simp add: first_ping_def act_def Start_def PerformInitialDiscovery_def PerformPingCycle_def SendPingRequest_def
      eval_nat_numeral sample_eval)

lemma sample_elect:
  "run_state (RunElection sample_net) (sample_zen MASTER_CANDIDATE [] [] new_ElectionModule) =
     (Voting ''a:1'' sample_collections 0,
      sample_zen MASTER_CANDIDATE [] [] (sample_election True [''a:1'', ''b:2''] [] [ELECTION_STARTED]))"
  by (simp add: RunElection_def begin_voting_def voters_def CollectNodeInfo_def collect_node_def SelectTemporaryMaster_def
      SendVoteRequest_def HandleVoteResponse_def sample_eval)

lemma sample_poll:
  "run_state (poll_votes sample_net ''a:1'' sample_collections 0)
     (sample_zen MASTER_CANDIDATE [] [] (sample_election True [''a:1'', ''b:2''] [] [ELECTION_STARTED])) =
     (Becoming (Called [''a:1'', ''b:2'']), sample_zen MASTER_CANDIDATE [] []
        (sample_election True [''a:1'', ''b:2''] [] [ELECTION_STARTED, VOTING_COMPLETED]))"
  by (simp add: poll_votes_def ConductVoting_def ProcessVotingResults_def finish_election_def sample_eval)

lemma sample_become:
  "run_state (BecomeTempMaster (Called cs)) (sample_zen MASTER_CANDIDATE m temp e) = (Passed cs, sample_zen MASTER_CANDIDATE m temp e)"
  "run_state (BecomeTempMaster (Passed cs)) (sample_zen st m temp e) = (Claimed cs, sample_zen TEMP_MASTER m temp e)"
  "run_state (BecomeTempMaster (Claimed cs)) (sample_zen st m temp e) = (Named cs, sample_zen st ''a:1'' temp e)"
  "run_state (BecomeTempMaster (Named cs)) (sample_zen st m temp e) = (Returned, sample_zen st m cs e)"
  by (simp_all add: sample_eval)

lemma sample_finish:
  "run_state (finish_election Returned) (sample_zen st m temp (sample_election True votes J es)) =
     (Idle, sample_zen st m temp (sample_election False votes J es))"
  by (simp add: finish_election_def sample_eval)

lemma sample_invite:
  "run_state (InviteNodesToJoin sample_net) (sample_zen TEMP_MASTER m [''a:1'', ''b:2''] (sample_election b votes J es)) =
     (([''b:2''], 0), sample_zen TEMP_MASTER m [''a:1'', ''b:2''] (sample_election b votes [''a:1''] es))"
  by (simp add: InviteNodesToJoin_def sample_eval)

lemma sample_join:
  "run_state (SendJoinRequest sample_net ''b:2'') (sample_zen TEMP_MASTER m temp (sample_election b votes [''a:1''] es)) =
     (0, sample_zen TEMP_MASTER m temp (sample_election b votes [''a:1'', ''b:2''] es))"
  by (simp add: SendJoinRequest_def sample_eval)

lemma sample_check:
  "\<exists>z. run_state (CheckElectionResult sample_net 0)
     (sample_zen TEMP_MASTER m [''a:1'', ''b:2''] (sample_election b votes [''a:1'', ''b:2''] es)) = (True, z) \<and>
     z_state z = ELECTED_MASTER"
  by (simp add: CheckElectionResult_def HandleAllJoined_def ModifyNodeList_def sample_eval)

lemma sample_alone:
  "run_state (InviteNodesToJoin sample_net) (sample_zen TEMP_MASTER m [] e) =
     (([], 0), sample_zen TEMP_MASTER m [] (e\<lparr>joinsReceived := [''a:1'']\<rparr>))"
  "\<exists>z. run_state (CheckElectionResult sample_net 0) (sample_zen TEMP_MASTER m [] (e\<lparr>joinsReceived := [''a:1'']\<rparr>)) = (True, z) \<and>
     z_state z = ELECTED_MASTER \<and> joins z = [''a:1''] \<and> minimum_size z = 2"
  by (simp_all add: InviteNodesToJoin_def CheckElectionResult_def HandleAllJoined_def ModifyNodeList_def sample_eval)

abbreviation sample_at ::
    "unit zen \<Rightarrow> discovery_thread \<Rightarrow> election_thread \<Rightarrow> string list \<Rightarrow> becoming list \<Rightarrow> unit node_run" where
  "sample_at z d t js cs \<equiv> \<lparr>nr_zen = z, nr_discovery = d, nr_election = t, nr_joining = js, nr_becoming = cs\<rparr>"

lemma sample_started:
  "zen_run sample_net sample_node [Quiet, Quiet] (sample_at (sample_zen MASTER_CANDIDATE [] [] new_ElectionModule) Discovering Idle [] [])"
proof -
  let ?s = "(act Start sample_node)\<lparr>nr_discovery := First_Ping\<rparr>"
  have a: "zen_step sample_net Quiet sample_node ?s"
    by (rule zen_step.start) (simp add: sample_node_def new_node_def)
  have b: "zen_step sample_net Quiet ?s (sample_at (sample_zen MASTER_CANDIDATE [] [] new_ElectionModule) Discovering Idle [] [])"
    using zen_step.first[of ?s sample_net] sample_first by (simp add: act_def sample_node_def new_node_def)
  show ?thesis
    using zen_run.run_step[OF zen_run.run_step[OF zen_run.run_init a] b] by simp
qed

text \<open>An election up to the point where its thread has set the state \<^verbatim>\<open>TEMP_MASTER\<close>.\<close>

abbreviation sample_claimed :: "string \<Rightarrow> string list \<Rightarrow> bool \<Rightarrow> string list \<Rightarrow> unit zen" where
  "sample_claimed m temp running J \<equiv>
     sample_zen TEMP_MASTER m temp (sample_election running [''a:1'', ''b:2''] J [ELECTION_STARTED, VOTING_COMPLETED])"

lemma sample_claim:
  "zen_run sample_net sample_node (replicate 7 Quiet)
     (sample_at (sample_claimed [] [] True []) Discovering (Becoming (Claimed [''a:1'', ''b:2''])) [] [])"
proof -
  let ?N = "sample_net"
  let ?cs = "[''a:1'', ''b:2'']"
  let ?z1 = "sample_zen MASTER_CANDIDATE [] [] new_ElectionModule"
  let ?z = "\<lambda>es. sample_zen MASTER_CANDIDATE [] [] (sample_election True ?cs [] es)"
  let ?s = "\<lambda>z t. sample_at z Discovering t [] []"
  let ?v = "Voting ''a:1'' sample_collections 0"
  have c: "zen_step ?N Quiet (?s ?z1 Idle) (?s ?z1 Candidate)"
    using zen_step.stand[of "?s ?z1 Idle" ?N] by simp
  have d: "zen_step ?N Quiet (?s ?z1 Candidate) (?s (?z [ELECTION_STARTED]) ?v)"
    using zen_step.elect[of "?s ?z1 Candidate" ?N] sample_elect by simp
  have e: "zen_step ?N Quiet (?s (?z [ELECTION_STARTED]) ?v) (?s (?z [ELECTION_STARTED, VOTING_COMPLETED]) (Becoming (Called ?cs)))"
    using zen_step.count_votes[of "?s (?z [ELECTION_STARTED]) ?v"] sample_poll by simp
  have f: "zen_step ?N Quiet (?s (?z es) (Becoming (Called ?cs))) (?s (?z es) (Becoming (Passed ?cs)))" for es
    using zen_step.become_own[of "?s (?z es) (Becoming (Called ?cs))"]
    by (simp add: continue_election_def run_bind sample_become finish_election_def del: BecomeTempMaster.simps)
  have g: "zen_step ?N Quiet (?s (?z [ELECTION_STARTED, VOTING_COMPLETED]) (Becoming (Passed ?cs)))
      (?s (sample_claimed [] [] True []) (Becoming (Claimed ?cs)))"
    using zen_step.become_own[of "?s (?z [ELECTION_STARTED, VOTING_COMPLETED]) (Becoming (Passed ?cs))"]
    by (simp add: continue_election_def run_bind sample_become finish_election_def del: BecomeTempMaster.simps)
  show ?thesis
    using zen_run.run_step[OF zen_run.run_step[OF zen_run.run_step[OF zen_run.run_step[OF zen_run.run_step[OF sample_started c] d] e] f] g]
    by (simp add: eval_nat_numeral)
qed

lemma sample_run: "\<exists>s. zen_run sample_net sample_node (replicate 13 Quiet) s \<and> z_state (nr_zen s) = ELECTED_MASTER"
proof -
  let ?N = "sample_net"
  let ?cs = "[''a:1'', ''b:2'']"
  let ?s = "\<lambda>z t. sample_at z Discovering t [] []"
  let ?t = "sample_claimed ''a:1'' ?cs False"
  obtain z where z: "run_state (CheckElectionResult ?N 0) (?t ?cs) = (True, z)" "z_state z = ELECTED_MASTER"
    using sample_check[of "''a:1''" False ?cs] by blast
  have a: "zen_step ?N Quiet (?s (sample_claimed [] [] True []) (Becoming (Claimed ?cs))) (?s (sample_claimed ''a:1'' [] True []) (Becoming (Named ?cs)))"
    using zen_step.become_own[of "?s (sample_claimed [] [] True []) (Becoming (Claimed ?cs))"]
    by (simp add: continue_election_def run_bind sample_become finish_election_def del: BecomeTempMaster.simps)
  have b: "zen_step ?N Quiet (?s (sample_claimed ''a:1'' [] True []) (Becoming (Named ?cs))) (?s (?t []) Idle)"
    using zen_step.become_own[of "?s (sample_claimed ''a:1'' [] True []) (Becoming (Named ?cs))"]
    by (simp add: continue_election_def run_bind sample_become sample_finish del: BecomeTempMaster.simps)
  have c: "zen_step ?N Quiet (?s (?t []) Idle) (sample_at (?t []) (Chosen TEMP_MASTER) Idle [] [])"
    using zen_step.choose[of "?s (?t []) Idle" ?N] by simp
  have d: "zen_step ?N Quiet (sample_at (?t []) (Chosen TEMP_MASTER) Idle [] []) (sample_at (?t [''a:1'']) (Inviting 0) Idle [''b:2''] [])"
    using zen_step.invite[of "sample_at (?t []) (Chosen TEMP_MASTER) Idle [] []" ?N, simplified, OF sample_invite]
    by (simp add: storing_def)
  have e: "zen_step ?N Quiet (sample_at (?t [''a:1'']) (Inviting 0) Idle [''b:2''] []) (sample_at (?t ?cs) (Inviting 0) Idle [] [])"
    using zen_step.ask_to_join[of "''b:2''" "sample_at (?t [''a:1'']) (Inviting 0) Idle [''b:2''] []" ?N] sample_join
    by (simp add: act_def)
  have f: "zen_step ?N Quiet (sample_at (?t ?cs) (Inviting 0) Idle [] []) (sample_at z Closing Idle [] [])"
    using zen_step.check_joins[of "sample_at (?t ?cs) (Inviting 0) Idle [] []" 0 ?N True z] z(1) by simp
  have "zen_run ?N sample_node (replicate 13 Quiet) (sample_at z Closing Idle [] [])"
    using zen_run.run_step[OF zen_run.run_step[OF zen_run.run_step[OF zen_run.run_step[OF zen_run.run_step[OF
      zen_run.run_step[OF sample_claim a] b] c] d] e] f] by (simp add: eval_nat_numeral)
  then show ?thesis using z(2) by fastforce
qed

text \<open>
  Without the list of nodes an invitation is over at once: the node becomes master alone, although two nodes
  are needed.  The first run does so because the invitation starts before the list is stored, the second because
  another node hands over an empty list, whose length is not checked.
\<close>

lemma alone_run:
  assumes "zen_run sample_net s0 tr (sample_at (sample_zen TEMP_MASTER m [] e) Discovering t [] cs)"
  shows "\<exists>s. zen_run sample_net s0 (tr @ [Quiet, if storing (sample_at z0 Discovering t [] cs) then Torn else Quiet, Quiet]) s \<and>
    z_state (nr_zen s) = ELECTED_MASTER \<and> joins (nr_zen s) = [''a:1''] \<and> minimum_size (nr_zen s) = 2"
proof -
  let ?s = "\<lambda>d e. sample_at (sample_zen TEMP_MASTER m [] e) d t [] cs"
  let ?e = "e\<lparr>joinsReceived := [''a:1'']\<rparr>"
  obtain z where z: "run_state (CheckElectionResult sample_net 0) (sample_zen TEMP_MASTER m [] ?e) = (True, z)"
    "z_state z = ELECTED_MASTER \<and> joins z = [''a:1''] \<and> minimum_size z = 2"
    using sample_alone(2) by blast
  have a: "zen_step sample_net Quiet (?s Discovering e) (?s (Chosen TEMP_MASTER) e)"
    using zen_step.choose[of "?s Discovering e" sample_net] by simp
  have b: "zen_step sample_net (if storing (sample_at z0 Discovering t [] cs) then Torn else Quiet) (?s (Chosen TEMP_MASTER) e) (?s (Inviting 0) ?e)"
    using zen_step.invite[of "?s (Chosen TEMP_MASTER) e" sample_net "[]" 0] sample_alone(1)[of m e] by (simp add: storing_def)
  have c: "zen_step sample_net Quiet (?s (Inviting 0) ?e) (sample_at z Closing t [] cs)"
    using zen_step.check_joins[of "?s (Inviting 0) ?e" 0 sample_net True z] z(1) by simp
  show ?thesis
    by (rule exI[of _ "sample_at z Closing t [] cs"])
      (use z(2) zen_run.run_step[OF zen_run.run_step[OF zen_run.run_step[OF assms a] b] c] in simp)
qed

lemma torn_master:
  "\<exists>tr s. zen_run sample_net sample_node tr s \<and> (\<forall>nodes. Handed_over nodes \<notin> set tr) \<and>
     z_state (nr_zen s) = ELECTED_MASTER \<and> joins (nr_zen s) = [''a:1''] \<and> minimum_size (nr_zen s) = 2"
proof -
  obtain s where "zen_run sample_net sample_node (replicate 7 Quiet @ [Quiet, Torn, Quiet]) s"
    "z_state (nr_zen s) = ELECTED_MASTER \<and> joins (nr_zen s) = [''a:1''] \<and> minimum_size (nr_zen s) = 2"
    using alone_run[OF sample_claim] by (auto simp: storing_def unstored_def)
  then show ?thesis
    by (intro exI[of _ "replicate 7 Quiet @ [Quiet, Torn, Quiet]"] exI[of _ s]) auto
qed

lemma short_master:
  "\<exists>tr s. zen_run sample_net sample_node tr s \<and> Torn \<notin> set tr \<and>
     z_state (nr_zen s) = ELECTED_MASTER \<and> joins (nr_zen s) = [''a:1''] \<and> minimum_size (nr_zen s) = 2"
proof -
  let ?N = "sample_net"
  let ?z = "\<lambda>st m. sample_zen st m [] new_ElectionModule"
  let ?s = "\<lambda>z cs. sample_at z Discovering Idle [] cs"
  have a: "zen_step ?N (Handed_over []) (?s (?z MASTER_CANDIDATE []) []) (?s (?z MASTER_CANDIDATE []) [Called []])"
    using zen_step.hand_over[of new_TransElectedRequest new_RpcQueryInfoResponse "?s (?z MASTER_CANDIDATE []) []" 0 _ "Called []" "?z MASTER_CANDIDATE []" ?N]
    by (simp add: SendTransElectedInfo_def HandleSendTransElected_def run_bind advance_def sample_zen_def new_ElectionModule_def
        new_TransElectedRequest_def)
  have become: "zen_step ?N Quiet (?s z [call]) (?s z' (advance call'))"
    if "run_state (BecomeTempMaster call) z = (call', z')" for call call' z z'
    using zen_step.become[of "?s z [call]" "[]" call "[]" call' z' ?N] that by simp
  note b = become[OF sample_become(1)[of "[]"]] become[OF sample_become(2)[of "[]"]] become[OF sample_become(3)[of "[]"]]
    become[OF sample_become(4)[of "[]"]]
  have "zen_run ?N sample_node [Quiet, Quiet, Handed_over [], Quiet, Quiet, Quiet, Quiet] (?s (?z TEMP_MASTER ''a:1'') [])"
    using zen_run.run_step[OF zen_run.run_step[OF zen_run.run_step[OF zen_run.run_step[OF zen_run.run_step[OF sample_started a]
      b(1)[simplified advance_def, simplified]] b(2)[simplified advance_def, simplified]] b(3)[simplified advance_def, simplified]]
      b(4)[simplified advance_def, simplified]] by simp
  then obtain s where "zen_run ?N sample_node ([Quiet, Quiet, Handed_over [], Quiet, Quiet, Quiet, Quiet] @ [Quiet, Quiet, Quiet]) s"
    "z_state (nr_zen s) = ELECTED_MASTER \<and> joins (nr_zen s) = [''a:1''] \<and> minimum_size (nr_zen s) = 2"
    using alone_run[of sample_node] by (fastforce simp: storing_def)
  then show ?thesis
    by (intro exI[of _ "[Quiet, Quiet, Handed_over [], Quiet, Quiet, Quiet, Quiet] @ [Quiet, Quiet, Quiet]"] exI[of _ s]) auto
qed

section \<open>Elections need a quorum\<close>

text \<open>
  C40. Elections need a quorum, in every run of a node in which requests of other nodes with any contents, lost
  messages, timeouts and its own threads come in any order, the writes of \<^verbatim>\<open>BecomeTempMaster\<close> among them.  An elected
  master is among the nodes that have joined it, and these are at least the minimum number of different nodes, unless
  one of two things has happened in the run: another node has handed over an election that names fewer nodes, or an
  invitation has started after the state was set to \<^verbatim>\<open>TEMP_MASTER\<close> but before the nodes to invite were stored.  (Both do
  happen, and either leaves a master without a quorum: \<open>short_master\<close> and \<open>torn_master\<close>.)  An election
  thread that waits for votes always has at least the minimum number of candidates, which is what it hands over.  A step counts
  another node as joined only if that node was asked in this step and answered with success.  A vote is
  granted exactly for the least of the own identifier and those of active nodes.
\<close>

theorem election_quorum:
  assumes "zen_run N (new_node (new_ZenDiscovery jt et mmn ns n w)) tr s"
  shows "(z_state (nr_zen s) = ELECTED_MASTER \<longrightarrow>
      z_nodeId (nr_zen s) \<in> set (joinsReceived (z_election (nr_zen s))) \<and>
      (unat (scast mmn :: u64) \<le> card (set (joinsReceived (z_election (nr_zen s)))) \<or>
       (\<exists>nodes. Handed_over nodes \<in> set tr \<and> length nodes < unat (scast mmn :: u64)) \<or> Torn \<in> set tr)) \<and>
    (nr_election s = Voting m c startTime \<longrightarrow> unat (scast mmn :: u64) \<le> length (masterCandidates c)) \<and>
    (zen_step N l s s' \<longrightarrow> set (joinsReceived (z_election (nr_zen s'))) \<subseteq>
      set (joinsReceived (z_election (nr_zen s))) \<union> {z_nodeId (nr_zen s)} \<union>
      {node \<in> set (nr_joining s). fst (run_state (SendJoinRequest N node) (nr_zen s)) = 0}) \<and>
    (RpcVoteInfoResp_isGranted (snd (fst (run_state (VoteRequestInfo req rsp) (nr_zen s)))) \<longleftrightarrow>
      VoteReq_masterNode req =
        Min (insert (z_nodeId (nr_zen s)) (fst ` {entry \<in> set (z_nodes (nr_zen s)). cn_isActive (snd entry)})))"
proof (intro conjI)
  let ?k = "unat (scast mmn :: u64)"
  have Q: "zen_quorum (\<not> list_ex (irregular ?k) tr) (nr_discovery s) (storing s) ?k (nr_zen s)"
    and C: "candidates_ok ?k (nr_election s)"
    using quorum_run[OF assms quorum_new] by (simp_all add: quorum_def)
  have "(\<exists>nodes. Handed_over nodes \<in> set tr \<and> length nodes < ?k) \<or> Torn \<in> set tr" if "list_ex (irregular ?k) tr"
    using that by (auto simp: list_ex_iff elim!: irregular.elims)
  then show "z_state (nr_zen s) = ELECTED_MASTER \<longrightarrow> z_nodeId (nr_zen s) \<in> set (joins (nr_zen s)) \<and>
      (?k \<le> card (set (joins (nr_zen s))) \<or>
       (\<exists>nodes. Handed_over nodes \<in> set tr \<and> length nodes < ?k) \<or> Torn \<in> set tr)"
    using Q by (auto simp: zen_quorum_def distinct_card)
  show "nr_election s = Voting m c startTime \<longrightarrow> ?k \<le> length (masterCandidates c)"
    using C by auto
  show "RpcVoteInfoResp_isGranted (snd (fst (run_state (VoteRequestInfo req rsp) (nr_zen s)))) \<longleftrightarrow>
      VoteReq_masterNode req =
        Min (insert (z_nodeId (nr_zen s)) (fst ` {entry \<in> set (z_nodes (nr_zen s)). cn_isActive (snd entry)}))"
    by (auto simp: VoteRequestInfo_def HandleVoteRequest_def split_beta smallest_Min)
qed (use joins_step in blast)

text \<open>Of two nodes, both of which are needed, one becomes master, and it has been joined by both.\<close>

theorem election_quorum_witness:
  "\<exists>s. zen_run sample_net sample_node (replicate 13 Quiet) s \<and> z_state (nr_zen s) = ELECTED_MASTER \<and>
     2 \<le> card (set (joinsReceived (z_election (nr_zen s))))"
proof -
  obtain s where s: "zen_run sample_net sample_node (replicate 13 Quiet) s" "z_state (nr_zen s) = ELECTED_MASTER"
    using sample_run by blast
  then have "unat (scast (2 :: u32) :: u64) \<le> card (set (joinsReceived (z_election (nr_zen s))))"
    using election_quorum[OF s(1)[unfolded sample_node_def]] by auto
  then show ?thesis using s by auto
qed

end
