(* ===== verification/Spec2Isabelle.thy ===== *)
theory Spec2Isabelle
  imports Com_Message Region_Props Daemon_Claims Zen_Election
begin

text \<open>
  A verification of the memory daemon \<^verbatim>\<open>ubsmd\<close> of UBS Memory.  Paths below are relative to
  \<^verbatim>\<open>src/src\<close>.

  \<^bold>\<open>The program.\<close>  On every node a daemon lends memory of other nodes to local processes.  A client
  sends a request over a socket; the communication layer checks its frame and hands it to a handler
  (\<^verbatim>\<open>mxm_lease/ipc_handler.cpp\<close>, \<^verbatim>\<open>mxm_shm/ipc_handler.cpp\<close>).  The handler works on the managers of
  leases, attached shared memory and regions, which cache what the record store keeps in a
  shared-memory file, and calls the memory engine through \<^verbatim>\<open>under_api/ubse\<close>.  A background thread
  (\<^verbatim>\<open>process/monitor\<close>) gives back the memory of processes that have ended and repeats removals
  that failed.  After a restart the managers are rebuilt from the file.  The daemons of a cluster find
  each other and elect the one that runs the lock service (\<^verbatim>\<open>zen_discovery\<close>).

  \<^bold>\<open>Shared library.\<close>  \<^verbatim>\<open>Ubsm_Prelude\<close> has the types and the lemmas on lists, maps and words;
  \<^verbatim>\<open>Multi_Map\<close> and \<^verbatim>\<open>Ordered_Map\<close> the C++ containers (an \<^verbatim>\<open>unordered_map\<close> is an association list, a
  \<^verbatim>\<open>map\<close> or \<^verbatim>\<open>set\<close> one in the order of its keys); \<^verbatim>\<open>State_Logic\<close> the rules for programs of the state
  monad (\<open>triple\<close>, \<open>keeps\<close>, \<open>preserves\<close>); \<^verbatim>\<open>Error_Codes\<close> the codes of \<^verbatim>\<open>common/rack_mem_err.h\<close>;
  \<^verbatim>\<open>Str_Util\<close> the conversions of \<^verbatim>\<open>dg_str_util.h\<close>.

  \<^bold>\<open>Record store\<close> (\<^verbatim>\<open>store/\<close>).  \<^verbatim>\<open>Id_Pool\<close> is \<^verbatim>\<open>RecordIdPoolAllocator\<close>, \<^verbatim>\<open>Record_Allocator\<close> is
  \<^verbatim>\<open>BaseRecordAllocator\<close>, \<^verbatim>\<open>Region_Bitmap\<close> and \<^verbatim>\<open>Store_Types\<close> are the records, and \<^verbatim>\<open>Record_Store\<close> is the
  class \<^verbatim>\<open>RecordStore\<close> with the contents of the file as part of its state.  \<^verbatim>\<open>Record_Store_Inv\<close> has the
  representation invariant, \<^verbatim>\<open>Record_Store_Spec\<close> an abstract state of maps and the proof that
  every method implements an update of it, \<^verbatim>\<open>Record_Store_Restart\<close> recovery, and
  \<^verbatim>\<open>Record_Store_Props\<close> the properties.  The locales \<open>id_store\<close>, \<open>record_slots\<close> and \<open>named_slots\<close> are the
  contracts of the pool and of the slot allocators, interpreted on their models.

  \<^bold>\<open>Messages\<close> (\<^verbatim>\<open>mxm_message/\<close>, \<^verbatim>\<open>communication/adapter\<close>).  \<^verbatim>\<open>Msg_Packer\<close> is the wire format, with the
  locales \<open>reader\<close> and \<open>codec\<close>; \<^verbatim>\<open>Message_Types\<close> and the four \<^verbatim>\<open>Messages_\<close> theories have every message
  with its round trip as an interpretation of \<open>codec\<close>; \<^verbatim>\<open>Message_Factory\<close> the two factories; \<^verbatim>\<open>Crc32\<close> the
  checksum; \<^verbatim>\<open>Com_Message\<close> framing, checks, dispatch and the synchronous call.

  \<^bold>\<open>The daemon.\<close>  \<^verbatim>\<open>Daemon_State\<close> has the record \<open>daemon\<close> (one field per singleton of the program, and
  \<open>d_world\<close> for everything outside) and the record \<open>env\<close>: the functions of the engine, which the
  program loads at run time, the clock, the process table and the like.  They are parameters of every
  definition that calls them and may answer anything; a property that needs more says so
  (\<open>engine_accepts\<close>, \<open>clock_steady\<close>), and \<^verbatim>\<open>Sample_World\<close> has a concrete instance for the examples.
    \<^item> \<^verbatim>\<open>Ubse_Topology\<close>, \<^verbatim>\<open>Ubse_Adapter\<close> and \<^verbatim>\<open>Ubse_Shm\<close>: \<^verbatim>\<open>under_api/ubse/ubse_mem_adapter.cpp\<close>.
    \<^item> \<^verbatim>\<open>Mem_Monitor\<close> and \<^verbatim>\<open>Leak_Cleaner\<close>: \<^verbatim>\<open>process/monitor\<close>.
    \<^item> \<^verbatim>\<open>Region_Manager\<close>: \<^verbatim>\<open>mxm_shm/region_manager\<close> and \<^verbatim>\<open>region_repository\<close>; properties in \<^verbatim>\<open>Region_Props\<close>.
    \<^item> \<^verbatim>\<open>Lease_Manager\<close> and \<^verbatim>\<open>Lease_Handlers\<close>: \<^verbatim>\<open>mxm_lease\<close>.  \<^verbatim>\<open>Lease_Inv\<close> has the agreement of manager and
      store, \<^verbatim>\<open>Lease_Recovery\<close> the restart, \<^verbatim>\<open>Lease_Props\<close> the locale \<open>lease_client\<close> (what a handler
      relies on), interpreted for agreement and for the isolation of processes, \<^verbatim>\<open>Lease_Claims\<close> the
      properties.
    \<^item> \<^verbatim>\<open>Shm_Manager\<close> and \<^verbatim>\<open>Shm_Handlers\<close>: \<^verbatim>\<open>mxm_shm\<close>.  \<^verbatim>\<open>Shm_Inv\<close>, \<^verbatim>\<open>Shm_Requests\<close> (locale \<open>shm_client\<close>)
      and \<^verbatim>\<open>Shm_Recovery\<close> are the counterparts for shared memory; \<^verbatim>\<open>Shm_Isolation\<close> follows a memory through
      the requests of processes that do not use it.
    \<^item> \<^verbatim>\<open>Daemon_Inv\<close> joins the invariants of all services.  \<^verbatim>\<open>Background\<close> has the relation
      \<open>daemon_step\<close>: requests, ends of processes, background rounds and changes of the outside world
      in any order.  \<^verbatim>\<open>Removal_Queue\<close> (locale \<open>queue_client\<close>) and \<^verbatim>\<open>Dead_Processes\<close> follow the queue of
      removals over such runs; \<^verbatim>\<open>Shm_Claims\<close> and \<^verbatim>\<open>Daemon_Claims\<close> have the properties.

  \<^bold>\<open>Discovery and election\<close> (\<^verbatim>\<open>zen_discovery\<close>, \<^verbatim>\<open>mxm_shm/rpc_handler.cpp\<close>).  \<^verbatim>\<open>Zen_Discovery\<close> has the record \<open>zen\<close>
  (the members of \<^verbatim>\<open>ZenDiscovery\<close> and \<^verbatim>\<open>ElectionModule\<close>), their methods, and the record \<open>net\<close> for connections,
  answers of other nodes and clocks, which may be anything.  \<^verbatim>\<open>Zen_Election\<close> has the handlers of
  requests, the labelled relation \<open>zen_step\<close> of the threads of one node and of requests in any order, the locale
  \<open>zen_client\<close> (what leaves the standing of a node alone), interpreted for the invariant and for the set
  of joined nodes, and the property.  \<^verbatim>\<open>BecomeTempMaster\<close>, which writes without a lock what the discovery thread
  reads, is cut after each statement.

  \<^bold>\<open>What is shown.\<close>  The store implements its abstract maps and survives a restart.  Caches and file
  agree over every run of the daemon, except that a full table of references leaves a memory in the cache
  that has neither record nor users (\<open>ghost_left\<close>).  Whatever other processes request, a lease in use stays as it is
  and a user of a shared memory stays recorded with its data; the memory also stays attached if only users ask
  to unmap it.  Allocation, release, mapping and unmapping do what their codes say.  A background round gives
  the leases of ended processes back and leaves those of living ones alone; removals that fail come due again
  within an hour, and nothing else stays queued.  Recovery brings back every lease and every shared memory in use that
  was not being changed; it fails as a whole if one in use was marked for deletion and the engine does not know its stage.
  Messages that fit their limits arrive as they were sent, and changed frames are refused.  A node is elected
  master only with a quorum of joined nodes, unless another node has handed over too short a list or an
  invitation has started before the list was stored; both leave a master on its own (\<open>short_master\<close>, \<open>torn_master\<close>).  The
  record store loses a region with an empty name, and unmapping by a process that is not a user
  detaches the memory of its only user: both are stated as theorems.

  \<^bold>\<open>Choices.\<close>  A handler or background round is one step: the daemon serves requests in several
  threads, with a mutex per manager and one per name of a shared memory, and interleavings inside
  a handler are not modelled; the loops of an election are cut where they sleep and where they have read the
  state.  Integers of the program are words of their width where they are
  computed with; return codes are \<open>int\<close>.  Logging, tracing and audit output have no effect in the
  model.  Allocation on the heap succeeds, but for the buffer of a reply, which is a parameter of the server.  All loops are structural recursions or have a
  termination proof; there is no fuel.  Array bounds, string lengths and table sizes are the constants
  of the source.

  \<^bold>\<open>Not modelled.\<close>
    \<^item> Channels, reconnection and TLS of the communication layer (\<^verbatim>\<open>mxm_com_engine.cpp\<close> and the servers and
      clients over it): they act through the hcom transport, which is not part of the repository.  The
      tables of channels above it could be modelled and are not yet.
    \<^item> Of discovery: stopping, the listeners of elections, and the cluster as a whole.  The property is about one
      node among others that may answer anything; that two nodes are never master at once is not shown.
    \<^item> Distributed locks (\<^verbatim>\<open>dlock_utils\<close>) with the handlers that forward to them, and the handlers that
      only query nodes, cluster and lock status.
    \<^item> The client library (\<^verbatim>\<open>app_lib\<close>), which maps memory in the client process.
    \<^item> Start and configuration of the process, logging, tracing, certificates and encryption, and the
      loading of libraries.
\<close>

end
